(* ===== verification/Prelude.thy ===== *)
theory Prelude
  imports Main "HOL-Library.AList"
begin

text \<open>
  Shared vocabulary of the development.

  \<^item> Go errors are values of \<open>go_error\<close>; a fallible call returns \<open>go_error + 'a\<close>. \<open>PgError\<close>
    carries the SQLSTATE the database reports.
  \<^item> A fallible call that also changes state has type \<open>('s, 'a) eff\<close>: it takes the state and
    returns the result together with the new state, also when it fails (what was written before
    an early return stays written). \<open>bindE\<close> is the Go idiom \<^verbatim>\<open>if err != nil { return err }\<close>,
    \<open>forE\<close> is a \<^verbatim>\<open>for range\<close> loop whose body may return an error.
  \<^item> A Go map is an association list (\<open>go_map\<close>). Go ranges over a map in an unspecified order;
    the list's order is the order the iteration happens to take, so a theorem about every list
    holds for every iteration order.
  \<^item> \<open>preserves P m\<close> says that the computation \<open>m\<close> keeps the state predicate \<open>P\<close> on success
    and on failure; the collection \<open>pres\<close> holds its structural rules.
\<close>

named_theorems pres "structural rules for predicates a computation preserves"
named_theorems eff_simps "unfolding rules for computations"

section \<open>Errors and results\<close>

datatype go_error = ErrorString string | PgError string | Wrapped string go_error

type_synonym 'a result = "go_error + 'a"

type_synonym ('s, 'a) eff = "'s \<Rightarrow> 'a result \<times> 's"

fun errors_is :: "go_error \<Rightarrow> go_error \<Rightarrow> bool" where
  "errors_is (ErrorString m) target = (ErrorString m = target)"
| "errors_is (PgError c) target = (PgError c = target)"
| "errors_is (Wrapped m e) target = (Wrapped m e = target \<or> errors_is e target)"

definition isOk :: "'a result \<Rightarrow> bool" where
  "isOk r = (case r of Inl _ \<Rightarrow> False | Inr _ \<Rightarrow> True)"

lemma isOk_simps [simp]: "isOk (Inr a)" "\<not> isOk (Inl e)"
  by (simp_all add: isOk_def)

lemma isOkE: "isOk r \<Longrightarrow> (\<And>a. r = Inr a \<Longrightarrow> thesis) \<Longrightarrow> thesis"
  by (cases r) simp_all

section \<open>Computations\<close>

definition retE :: "'a \<Rightarrow> ('s, 'a) eff" where
  "retE a s = (Inr a, s)"

definition throwE :: "go_error \<Rightarrow> ('s, 'a) eff" where
  "throwE e s = (Inl e, s)"

definition bindE :: "('s, 'a) eff \<Rightarrow> ('a \<Rightarrow> ('s, 'b) eff) \<Rightarrow> ('s, 'b) eff" where
  "bindE m f s = (case m s of (Inl e, s') \<Rightarrow> (Inl e, s') | (Inr a, s') \<Rightarrow> f a s')"

definition modifyE :: "('s \<Rightarrow> 's) \<Rightarrow> ('s, unit) eff" where
  "modifyE f s = (Inr (), f s)"

definition liftR :: "'a result \<Rightarrow> ('s, 'a) eff" where
  "liftR r s = (r, s)"

text \<open>A call whose error is dropped (\<^verbatim>\<open>_, _ = f()\<close>).\<close>

definition ignoreE :: "('s, 'a) eff \<Rightarrow> ('s, unit) eff" where
  "ignoreE m s = (Inr (), snd (m s))"

text \<open>A call whose error is inspected by the caller.\<close>

definition tryE :: "('s, 'a) eff \<Rightarrow> ('s, 'a result) eff" where
  "tryE m s = (case m s of (r, s') \<Rightarrow> (Inr r, s'))"

text \<open>The error of a call with another message in front (\<^verbatim>\<open>fmt.Errorf("...: %w", err)\<close>).\<close>

definition wrapE :: "string \<Rightarrow> ('s, 'a) eff \<Rightarrow> ('s, 'a) eff" where
  "wrapE msg m s = (case m s of (Inl e, s') \<Rightarrow> (Inl (Wrapped msg e), s') | (Inr a, s') \<Rightarrow> (Inr a, s'))"

text \<open>A database transaction whose deferred rollback runs when the body returns an error.\<close>

definition txE :: "('s, 'a) eff \<Rightarrow> ('s, 'a) eff" where
  "txE m s = (case m s of (Inl e, _) \<Rightarrow> (Inl e, s) | (Inr a, s') \<Rightarrow> (Inr a, s'))"

text \<open>A read-only query.\<close>

definition readE :: "('s \<Rightarrow> 'a result) \<Rightarrow> ('s, 'a) eff" where
  "readE f s = (f s, s)"

text \<open>A deferred call: it runs when the body has returned, with or without an error.\<close>

definition finallyE :: "('s, unit) eff \<Rightarrow> ('s, 'a) eff \<Rightarrow> ('s, 'a) eff" where
  "finallyE cleanup m s = (case m s of (r, s') \<Rightarrow> (r, snd (cleanup s')))"

text \<open>A computation on one component of a paired state.\<close>

definition fstE :: "('s, 'a) eff \<Rightarrow> ('s \<times> 't, 'a) eff" where
  "fstE m st = (case m (fst st) of (r, s') \<Rightarrow> (r, (s', snd st)))"

definition sndE :: "('t, 'a) eff \<Rightarrow> ('s \<times> 't, 'a) eff" where
  "sndE m st = (case m (snd st) of (r, t') \<Rightarrow> (r, (fst st, t')))"

fun forE :: "('a \<Rightarrow> ('s, unit) eff) \<Rightarrow> 'a list \<Rightarrow> ('s, unit) eff" where
  "forE body [] = retE ()"
| "forE body (x # xs) = bindE (body x) (\<lambda>_. forE body xs)"

lemmas eff_defs [eff_simps] = retE_def throwE_def bindE_def modifyE_def liftR_def ignoreE_def tryE_def wrapE_def txE_def readE_def
  finallyE_def fstE_def sndE_def

lemma bindE_retE [simp]: "bindE (retE a) f = f a"
  by (rule ext) (simp add: eff_simps)

lemma bindE_throwE [simp]: "bindE (throwE e) f = throwE e"
  by (rule ext) (simp add: eff_simps)

lemma bindE_assoc: "bindE (bindE m f) g = bindE m (\<lambda>a. bindE (f a) g)"
  by (rule ext) (simp add: eff_simps split: prod.split sum.split)

lemma bindE_Inr: "m s = (Inr a, s') \<Longrightarrow> bindE m f s = f a s'"
  by (simp add: bindE_def)

lemma bindE_Inl: "m s = (Inl e, s') \<Longrightarrow> bindE m f s = (Inl e, s')"
  by (simp add: bindE_def)

lemma bindE_cases:
  assumes "bindE m f s = (r, t)"
  obtains (fail) e where "m s = (Inl e, t)" "r = Inl e"
  | (ok) a s' where "m s = (Inr a, s')" "f a s' = (r, t)"
  using assms by (auto simp: bindE_def split: prod.splits sum.splits)

lemma forE_append: "forE body (xs @ ys) = bindE (forE body xs) (\<lambda>_. forE body ys)"
  by (induction xs) (simp_all add: bindE_assoc)

section \<open>Predicates a computation keeps\<close>

definition preserves :: "('s \<Rightarrow> bool) \<Rightarrow> ('s, 'a) eff \<Rightarrow> bool" where
  "preserves P m \<longleftrightarrow> (\<forall>s. P s \<longrightarrow> P (snd (m s)))"

lemma preservesI: "(\<And>s. P s \<Longrightarrow> P (snd (m s))) \<Longrightarrow> preserves P m"
  by (simp add: preserves_def)

lemma preservesD: "preserves P m \<Longrightarrow> P s \<Longrightarrow> P (snd (m s))"
  by (simp add: preserves_def)

lemma preserves_ret [pres]: "preserves P (retE a)"
  by (simp add: preserves_def retE_def)

lemma preserves_throw [pres]: "preserves P (throwE e)"
  by (simp add: preserves_def throwE_def)

lemma preserves_lift [pres]: "preserves P (liftR r)"
  by (simp add: preserves_def liftR_def)

lemma preserves_ignore [pres]: "preserves P m \<Longrightarrow> preserves P (ignoreE m)"
  by (simp add: preserves_def ignoreE_def)

lemma preserves_try [pres]: "preserves P m \<Longrightarrow> preserves P (tryE m)"
  by (auto simp: preserves_def tryE_def split: prod.split)

lemma preserves_wrap [pres]: "preserves P m \<Longrightarrow> preserves P (wrapE msg m)"
  by (auto simp: preserves_def wrapE_def split: prod.split sum.split)

lemma preserves_tx [pres]: "preserves P m \<Longrightarrow> preserves P (txE m)"
  by (auto simp: preserves_def txE_def split: prod.split sum.split)

lemma preserves_read [pres]: "preserves P (readE f)"
  by (simp add: preserves_def readE_def)

lemma preserves_finally [pres]: "preserves P c \<Longrightarrow> preserves P m \<Longrightarrow> preserves P (finallyE c m)"
  unfolding preserves_def finallyE_def by (metis case_prod_unfold snd_conv)

lemma preserves_fst [pres]: "preserves P m \<Longrightarrow> preserves (\<lambda>st. P (fst st)) (fstE m)"
  by (simp add: preserves_def fstE_def case_prod_unfold)

lemma preserves_fst_other [pres]: "preserves (\<lambda>st. P (snd st)) (fstE m)"
  by (simp add: preserves_def fstE_def case_prod_unfold)

lemma preserves_snd [pres]: "preserves P m \<Longrightarrow> preserves (\<lambda>st. P (snd st)) (sndE m)"
  by (simp add: preserves_def sndE_def case_prod_unfold)

lemma preserves_snd_other [pres]: "preserves (\<lambda>st. P (fst st)) (sndE m)"
  by (simp add: preserves_def sndE_def case_prod_unfold)

lemma preserves_bind [pres]:
  assumes "preserves P m" and "\<And>a. preserves P (f a)"
  shows "preserves P (bindE m f)"
proof (rule preservesI)
  fix s
  assume s: "P s"
  obtain r s' where m: "m s = (r, s')"
    by (cases "m s") auto
  with assms(1) s have s': "P s'"
    using preservesD [of P m s] by simp
  show "P (snd (bindE m f s))"
    using s' preservesD [OF assms(2), of s'] m by (cases r) (simp_all add: bindE_def)
qed

lemma bindE_post:
  assumes "preserves P m" and "P s" and "\<And>s'. P s' \<Longrightarrow> Q s'" and "\<And>a s'. P s' \<Longrightarrow> Q (snd (f a s'))"
  shows "Q (snd (bindE m f s))"
  using preservesD [OF assms(1,2)] assms(3,4) by (cases "m s") (auto simp: bindE_def split: sum.split)

lemma preserves_for [pres]:
  assumes "\<And>x. x \<in> set xs \<Longrightarrow> preserves P (body x)"
  shows "preserves P (forE body xs)"
  using assms by (induction xs) (auto intro!: pres)

lemma preserves_if [pres]:
  "(b \<Longrightarrow> preserves P m) \<Longrightarrow> (\<not> b \<Longrightarrow> preserves P n) \<Longrightarrow> preserves P (if b then m else n)"
  by simp

lemma preserves_option [pres]:
  "preserves P m \<Longrightarrow> (\<And>a. preserves P (f a)) \<Longrightarrow> preserves P (case x of None \<Rightarrow> m | Some a \<Rightarrow> f a)"
  by (simp split: option.split)

lemma preserves_sum [pres]:
  "(\<And>e. preserves P (f e)) \<Longrightarrow> (\<And>a. preserves P (g a)) \<Longrightarrow> preserves P (case x of Inl e \<Rightarrow> f e | Inr a \<Rightarrow> g a)"
  by (simp split: sum.split)

section \<open>Computations that succeed\<close>

text \<open>\<open>runs m s Q\<close>: the computation succeeds from \<open>s\<close> and its result satisfies \<open>Q\<close>.\<close>

definition runs :: "('s, 'a) eff \<Rightarrow> 's \<Rightarrow> ('a \<Rightarrow> 's \<Rightarrow> bool) \<Rightarrow> bool" where
  "runs m s Q \<longleftrightarrow> (\<exists>a s'. m s = (Inr a, s') \<and> Q a s')"

lemma runsI: "m s = (Inr a, s') \<Longrightarrow> Q a s' \<Longrightarrow> runs m s Q"
  by (auto simp: runs_def)

lemma runsD: "runs m s Q \<Longrightarrow> \<exists>a s'. m s = (Inr a, s') \<and> Q a s'"
  by (simp add: runs_def)

lemma runs_ret [simp]: "runs (retE a) s Q = Q a s"
  by (simp add: runs_def retE_def)

lemma runs_bind: "runs (bindE m f) s Q \<longleftrightarrow> runs m s (\<lambda>a s'. runs (f a) s' Q)"
  unfolding runs_def bindE_def by (auto split: prod.splits sum.splits)

lemma runs_mono: "runs m s Q \<Longrightarrow> (\<And>a s'. Q a s' \<Longrightarrow> R a s') \<Longrightarrow> runs m s R"
  by (auto simp: runs_def)

lemma runs_fst: "runs m (fst st) (\<lambda>a s'. Q a (s', snd st)) \<Longrightarrow> runs (fstE m) st Q"
  by (auto simp: runs_def fstE_def)

lemma runs_for:
  assumes "I [] s" and "\<And>xs x s'. I xs s' \<Longrightarrow> x \<in> set ys \<Longrightarrow> runs (body x) s' (\<lambda>_. I (xs @ [x]))"
  shows "runs (forE body ys) s (\<lambda>_. I ys)"
proof -
  have "runs (forE body zs) s' (\<lambda>_. I (xs @ zs))" if "I xs s'" "set zs \<subseteq> set ys" for xs zs s'
    using that
  proof (induction zs arbitrary: xs s')
    case Nil
    then show ?case by simp
  next
    case (Cons z zs)
    then have "runs (body z) s' (\<lambda>_. I (xs @ [z]))" using assms(2) by simp
    then show ?case
      unfolding forE.simps runs_bind by (rule runs_mono) (use Cons.IH [of "xs @ [z]" for xs] Cons.prems in fastforce)
  qed
  from this [OF assms(1), of ys] show ?thesis by simp
qed

section \<open>Go maps\<close>

type_synonym ('k, 'v) go_map = "('k \<times> 'v) list"

definition wf_map :: "('k, 'v) go_map \<Rightarrow> bool" where
  "wf_map m \<longleftrightarrow> distinct (map fst m)"

text \<open>Indexing a Go map yields the zero value when the key is absent.\<close>

definition map_index :: "'v \<Rightarrow> ('k, 'v) go_map \<Rightarrow> 'k \<Rightarrow> 'v" where
  "map_index zero m k = (case map_of m k of None \<Rightarrow> zero | Some v \<Rightarrow> v)"

lemma wf_map_Nil [simp]: "wf_map []"
  by (simp add: wf_map_def)

lemma wf_map_Cons [simp]: "wf_map ((k, v) # m) \<longleftrightarrow> k \<notin> fst ` set m \<and> wf_map m"
  by (auto simp: wf_map_def)

lemma wf_map_update [simp]: "wf_map m \<Longrightarrow> wf_map (AList.update k v m)"
  by (simp add: wf_map_def distinct_update)

lemma wf_map_delete [simp]: "wf_map m \<Longrightarrow> wf_map (AList.delete k m)"
  by (simp add: wf_map_def distinct_delete)

lemma map_of_update_iff [simp]:
  "map_of (AList.update k v m) k' = (if k = k' then Some v else map_of m k')"
  by (simp add: update_conv')

lemma map_of_delete_iff [simp]:
  "map_of (AList.delete k m) k' = (if k = k' then None else map_of m k')"
  by (simp add: delete_conv')

lemma wf_map_map_of_iff: "wf_map m \<Longrightarrow> map_of m k = Some v \<longleftrightarrow> (k, v) \<in> set m"
  by (simp add: wf_map_def)

end
