(* ===== verification/Pubsub.thy ===== *)
theory Pubsub
  imports Prelude
begin

text \<open>
  The publish/subscribe broker of \<^verbatim>\<open>pkg/pubsub/pubsub.go\<close>.

  Subscribers live in a heap (\<open>sub_heap\<close>) because one subscriber is registered with several
  brokers; a broker maps subscriber addresses to their topic filter, \<open>None\<close> being Go's nil
  \<^verbatim>\<open>TopicSet\<close> (every topic). A subscriber's \<open>Cancel\<close> callback is recorded as the flag that it was
  called. A non-blocking send succeeds while the buffered channel has room.

  The locale \<open>topic_broker\<close> is the contract the hub and the sync sessions rely on; it is
  interpreted on the operations below.
\<close>

record 'm subscriber =
  sub_Ch :: "'m list"
  sub_buffer :: nat
  sub_cancelled :: bool

type_synonym sub_id = nat
type_synonym 'm sub_heap = "sub_id \<Rightarrow> 'm subscriber"
type_synonym 't topic_set = "'t list option"
type_synonym 't broker = "(sub_id, 't topic_set) go_map"

definition NewBroker :: "'t broker" where
  "NewBroker = []"

definition NewSubscriber :: "nat \<Rightarrow> 'm subscriber" where
  "NewSubscriber buffer = \<lparr> sub_Ch = [], sub_buffer = buffer, sub_cancelled = False \<rparr>"

definition Cancel :: "sub_id \<Rightarrow> 'm sub_heap \<Rightarrow> 'm sub_heap" where
  "Cancel s h = h(s := (h s)\<lparr>sub_cancelled := True\<rparr>)"

definition Subscribe :: "sub_id \<Rightarrow> 't topic_set \<Rightarrow> 't broker \<Rightarrow> 't broker" where
  "Subscribe s topics b = AList.update s topics b"

definition Unsubscribe :: "sub_id \<Rightarrow> 't broker \<Rightarrow> 't broker" where
  "Unsubscribe s b = AList.delete s b"

definition RestrictTopics :: "sub_id \<Rightarrow> 't topic_set \<Rightarrow> 't broker \<Rightarrow> 't broker" where
  "RestrictTopics s allowedTopics b =
     (case allowedTopics of
        None \<Rightarrow> b
      | Some allowed \<Rightarrow>
          (case map_of b s of
             None \<Rightarrow> b
           | Some storedFilter \<Rightarrow>
               (let currentTopics = (case storedFilter of None \<Rightarrow> [] | Some ts \<Rightarrow> ts);
                    restrictedTopics = filter (\<lambda>t. t \<in> set allowed) currentTopics
                in if restrictedTopics = [] then Unsubscribe s b
                   else AList.update s (Some restrictedTopics) b)))"

text \<open>The filter test of \<open>Publish\<close>.\<close>

definition admits :: "'t option \<Rightarrow> 't topic_set \<Rightarrow> bool" where
  "admits topic subscribedTopics =
     (case (topic, subscribedTopics) of (Some t, Some ts) \<Rightarrow> t \<in> set ts | _ \<Rightarrow> True)"

definition has_room :: "'m subscriber \<Rightarrow> bool" where
  "has_room sub \<longleftrightarrow> length (sub_Ch sub) < sub_buffer sub"

fun publish_to :: "'m \<Rightarrow> 't option \<Rightarrow> sub_id \<times> 't topic_set \<Rightarrow> 'm sub_heap \<times> 't broker \<Rightarrow> 'm sub_heap \<times> 't broker" where
  "publish_to message topic (s, subscribedTopics) (h, b) =
     (if \<not> admits topic subscribedTopics then (h, b)
      else if has_room (h s) then (h(s := (h s)\<lparr>sub_Ch := sub_Ch (h s) @ [message]\<rparr>), b)
      else (Cancel s h, Unsubscribe s b))"

definition Publish :: "'m \<Rightarrow> 't option \<Rightarrow> 'm sub_heap \<times> 't broker \<Rightarrow> 'm sub_heap \<times> 't broker" where
  "Publish message topic hb = fold (publish_to message topic) (snd hb) hb"

section \<open>What one publication does to each subscriber\<close>

definition offered :: "'m \<Rightarrow> 'm subscriber \<Rightarrow> 'm subscriber" where
  "offered message sub =
     (if has_room sub then sub\<lparr>sub_Ch := sub_Ch sub @ [message]\<rparr> else sub\<lparr>sub_cancelled := True\<rparr>)"

lemma fold_publish_to:
  assumes "wf_map xs"
  shows "fst (fold (publish_to m t) xs (h, b)) s =
           (case map_of xs s of
              None \<Rightarrow> h s
            | Some topics \<Rightarrow> if admits t topics then offered m (h s) else h s)"
    and "map_of (snd (fold (publish_to m t) xs (h, b))) s =
           (case map_of xs s of
              None \<Rightarrow> map_of b s
            | Some topics \<Rightarrow> if admits t topics \<and> \<not> has_room (h s) then None else map_of b s)"
  using assms
proof (induction xs arbitrary: h b)
  case Nil
  { case 1 then show ?case by simp next case 2 then show ?case by simp }
next
  case (Cons x xs)
  obtain s' topics where x: "x = (s', topics)" by (cases x)
  have out: "map_of xs s' = None" if "wf_map (x # xs)"
    using that x by (simp add: map_of_eq_None_iff)
  {
    case 1
    with Cons.IH(1) x out show ?case
      by (auto simp: offered_def Cancel_def split: option.split)
  next
    case 2
    with Cons.IH(2) x out show ?case
      by (auto simp: Cancel_def Unsubscribe_def split: option.split)
  }
qed

lemma wf_Subscribe [simp]: "wf_map b \<Longrightarrow> wf_map (Subscribe s topics b)"
  by (simp add: Subscribe_def)

lemma wf_Unsubscribe [simp]: "wf_map b \<Longrightarrow> wf_map (Unsubscribe s b)"
  by (simp add: Unsubscribe_def)

lemma wf_RestrictTopics [simp]: "wf_map b \<Longrightarrow> wf_map (RestrictTopics s allowed b)"
  by (simp add: RestrictTopics_def Let_def split: option.split)

lemma wf_publish_to: "wf_map b \<Longrightarrow> wf_map (snd (publish_to m t x (h, b)))"
  by (cases x) simp

lemma wf_fold_publish_to: "wf_map (snd hb) \<Longrightarrow> wf_map (snd (fold (publish_to m t) xs hb))"
proof (induction xs arbitrary: hb)
  case Nil
  then show ?case by simp
next
  case (Cons x xs)
  obtain h b where hb: "hb = (h, b)" by (cases hb)
  with Cons.prems have "wf_map (snd (publish_to m t x hb))"
    by (simp add: wf_publish_to del: publish_to.simps)
  from Cons.IH [OF this] show ?case by simp
qed

lemma wf_Publish: "wf_map (snd hb) \<Longrightarrow> wf_map (snd (Publish m t hb))"
  by (simp add: Publish_def wf_fold_publish_to)

lemma Publish_heap:
  "wf_map b \<Longrightarrow> fst (Publish m t (h, b)) s =
     (case map_of b s of
        None \<Rightarrow> h s
      | Some topics \<Rightarrow> if admits t topics then offered m (h s) else h s)"
  by (simp add: Publish_def fold_publish_to)

lemma Publish_subscriptions:
  "wf_map b \<Longrightarrow> map_of (snd (Publish m t (h, b))) s =
     (case map_of b s of
        None \<Rightarrow> None
      | Some topics \<Rightarrow> if admits t topics \<and> \<not> has_room (h s) then None else Some topics)"
  by (simp add: Publish_def fold_publish_to split: option.split)

lemmas publish_simps = Publish_heap Publish_subscriptions

lemma map_of_Subscribe: "map_of (Subscribe s topics b) s' = (if s = s' then Some topics else map_of b s')"
  by (simp add: Subscribe_def)

lemma map_of_Unsubscribe: "map_of (Unsubscribe s b) s' = (if s = s' then None else map_of b s')"
  by (simp add: Unsubscribe_def)

text \<open>
  After \<open>RestrictTopics\<close> with a non-nil set a subscriber holds only allowed topics it already had;
  a subscriber without a filter loses its subscription.
\<close>

lemma RestrictTopics_scope:
  assumes "map_of (RestrictTopics s (Some allowed) b) s = Some topics"
  shows "\<exists>cur. map_of b s = Some (Some cur) \<and> topics = Some (filter (\<lambda>t. t \<in> set allowed) cur)"
  using assms
  by (auto simp: RestrictTopics_def Let_def map_of_Unsubscribe split: option.splits if_splits)

lemma RestrictTopics_other: "s \<noteq> s' \<Longrightarrow> map_of (RestrictTopics s allowed b) s' = map_of b s'"
  by (simp add: RestrictTopics_def Let_def map_of_Unsubscribe split: option.split)

section \<open>The contract of a broker\<close>

text \<open>A stream of publications, each on a topic of its own.\<close>

definition publish_stream ::
  "('m \<Rightarrow> 't option \<Rightarrow> 'm sub_heap \<times> 'b \<Rightarrow> 'm sub_heap \<times> 'b) \<Rightarrow> ('m \<times> 't) list
     \<Rightarrow> 'm sub_heap \<times> 'b \<Rightarrow> 'm sub_heap \<times> 'b" where
  "publish_stream pub ms hb = fold (\<lambda>(m, t). pub m (Some t)) ms hb"

lemma publish_stream_simps [simp]:
  "publish_stream pub [] hb = hb"
  "publish_stream pub ((m, t) # ms) hb = publish_stream pub ms (pub m (Some t) hb)"
  by (simp_all add: publish_stream_def)

text \<open>
  \<open>scope b s\<close> is \<open>None\<close> when \<open>s\<close> is not subscribed. A publication reaches no subscriber outside
  its scope and never changes the scope of one, except that an overflowing subscriber loses it.
\<close>

locale topic_broker =
  fixes subscribe :: "sub_id \<Rightarrow> 't topic_set \<Rightarrow> 'b \<Rightarrow> 'b"
    and unsubscribe :: "sub_id \<Rightarrow> 'b \<Rightarrow> 'b"
    and restrict :: "sub_id \<Rightarrow> 't topic_set \<Rightarrow> 'b \<Rightarrow> 'b"
    and publish :: "'m \<Rightarrow> 't option \<Rightarrow> 'm sub_heap \<times> 'b \<Rightarrow> 'm sub_heap \<times> 'b"
    and scope :: "'b \<Rightarrow> sub_id \<Rightarrow> 't topic_set option"
    and invar :: "'b \<Rightarrow> bool"
  assumes scope_subscribe: "invar b \<Longrightarrow> scope (subscribe s ts b) s' = (if s = s' then Some ts else scope b s')"
    and scope_unsubscribe: "invar b \<Longrightarrow> scope (unsubscribe s b) s' = (if s = s' then None else scope b s')"
    and scope_restrict: "invar b \<Longrightarrow> scope (restrict s (Some al) b) s = Some ts \<Longrightarrow> \<exists>xs. ts = Some xs \<and> set xs \<subseteq> set al"
    and scope_publish: "invar b \<Longrightarrow> scope (snd (publish m t (h, b))) s \<in> {None, scope b s}"
    and publish_outside: "invar b \<Longrightarrow> (case scope b s of None \<Rightarrow> True | Some ts \<Rightarrow> \<not> admits t ts)
      \<Longrightarrow> fst (publish m t (h, b)) s = h s"
    and invar_subscribe: "invar b \<Longrightarrow> invar (subscribe s ts b)"
    and invar_unsubscribe: "invar b \<Longrightarrow> invar (unsubscribe s b)"
    and invar_restrict: "invar b \<Longrightarrow> invar (restrict s lim b)"
    and invar_publish: "invar b \<Longrightarrow> invar (snd (publish m t (h, b)))"
begin

text \<open>A subscriber confined to \<open>al\<close> sees nothing of a stream of messages on other topics.\<close>

lemma publish_stream_confined:
  assumes "invar (snd hb)"
    and "\<And>ts. scope (snd hb) s = Some ts \<Longrightarrow> \<exists>xs. ts = Some xs \<and> set xs \<subseteq> al"
    and "\<And>m t. (m, t) \<in> set ms \<Longrightarrow> t \<notin> al"
  shows "fst (publish_stream publish ms hb) s = fst hb s"
  using assms
proof (induction ms arbitrary: hb)
  case Nil
  then show ?case by simp
next
  case (Cons mt ms)
  obtain m t where mt: "mt = (m, t)" by (cases mt)
  obtain h b where hb: "hb = (h, b)" by (cases hb)
  let ?hb = "publish m (Some t) (h, b)"
  have t: "t \<notin> al" by (rule Cons.prems(3) [of m]) (simp add: mt)
  have "fst ?hb s = h s"
    using Cons.prems(1,2) hb t
    by (intro publish_outside) (auto simp: admits_def split: option.split)
  moreover have "fst (publish_stream publish ms ?hb) s = fst ?hb s"
  proof (rule Cons.IH)
    show "invar (snd ?hb)" using Cons.prems(1) hb by (simp add: invar_publish)
    show "\<exists>xs. ts = Some xs \<and> set xs \<subseteq> al" if "scope (snd ?hb) s = Some ts" for ts
      using scope_publish [of b m "Some t" h s] that Cons.prems(1,2) hb by auto
    show "t' \<notin> al" if "(m', t') \<in> set ms" for m' t'
      by (rule Cons.prems(3) [of m']) (simp add: that)
  qed
  ultimately show ?case using mt hb by simp
qed

lemma restricted_sees_nothing_outside:
  assumes "invar b" and "\<And>m t. (m, t) \<in> set ms \<Longrightarrow> t \<notin> set al"
  shows "fst (publish_stream publish ms (h, restrict s (Some al) b)) s = h s"
  using publish_stream_confined [of "(h, restrict s (Some al) b)" s "set al" ms] assms
  by (simp add: invar_restrict scope_restrict)

lemma subscribed_sees_nothing_outside:
  assumes "invar b" and "\<And>m t. (m, t) \<in> set ms \<Longrightarrow> t \<notin> set al"
  shows "fst (publish_stream publish ms (h, subscribe s (Some al) b)) s = h s"
  using publish_stream_confined [of "(h, subscribe s (Some al) b)" s "set al" ms] assms
  by (simp add: invar_subscribe scope_subscribe)

end

interpretation pubsub: topic_broker Subscribe Unsubscribe RestrictTopics Publish map_of wf_map
proof
  fix b :: "'t broker" and s :: sub_id and al ts
  assume "map_of (RestrictTopics s (Some al) b) s = Some ts"
  then show "\<exists>xs. ts = Some xs \<and> set xs \<subseteq> set al"
    using RestrictTopics_scope [of s al b ts] by auto
qed (auto simp: map_of_Subscribe map_of_Unsubscribe publish_simps wf_Publish split: option.splits)

end
