(* ===== verification/DelayedBroker.thy ===== *)
theory DelayedBroker
  imports Pubsub
begin

text \<open>
  \<^verbatim>\<open>DelayedBroker\<close> of \<^verbatim>\<open>pkg/pubsub/pubsub.go\<close>: publishers append to a queue under a mutex, and one
  goroutine (\<^verbatim>\<open>dispatchLoop\<close>) hands the head to the inner broker when its delay has passed.

  The goroutines interleave, so the component is a step relation over a shared state: the mutex
  (\<open>mu\<close>, with its owner), the queue, the dispatcher's program counter and armed timer, and the
  program counter of every publisher. Each rule is one atomic action of the source: taking the
  mutex, a rendezvous on the unbuffered \<open>wakeCh\<close>, a timer tick, a queue operation. The critical
  section at the top of the loop (lock, look at the queue, arm the timer, unlock) blocks on
  nothing inside, so it is one step. \<open>accepted\<close> and \<open>dispatched\<close> record the history: what was
  appended to the queue, and what was handed to the inner broker and when.
\<close>

record ('m, 't) scheduledMessage =
  sm_topic :: "'t option"
  sm_message :: 'm
  sm_publishAt :: int

datatype thread = Dispatcher | Publisher nat

datatype 'q dispatcher_pc =
    AtLoopTop         \<comment> \<open>before \<open>db.mu.Lock()\<close> at the top of the loop\<close>
  | InSelect          \<comment> \<open>waiting in \<open>select\<close>\<close>
  | TimerFired        \<comment> \<open>received from \<open>timer.C\<close>, before \<open>db.mu.Lock()\<close>\<close>
  | Publishing 'q     \<comment> \<open>popped a message, before \<open>db.broker.Publish\<close>\<close>
  | Woken             \<comment> \<open>received from \<open>wakeCh\<close>, before \<open>timer.Stop()\<close>\<close>

datatype ('m, 't) publisher_pc =
    Idle
  | WantsLock 'm "'t option"   \<comment> \<open>in \<open>Publish\<close>, before \<open>db.mu.Lock()\<close>\<close>
  | SendingWake 'm "'t option" \<comment> \<open>holds the mutex, blocked in \<open>db.wakeCh <- struct{}{}\<close>\<close>
  | Appending 'm "'t option"   \<comment> \<open>holds the mutex, before the append\<close>

record ('m, 't) delayedBroker =
  mu :: "thread option"
  scheduledQueue :: "('m, 't) scheduledMessage list"
  delay :: int
  now :: int
  timer :: int
  dpc :: "('m, 't) scheduledMessage dispatcher_pc"
  ppc :: "nat \<Rightarrow> ('m, 't) publisher_pc"
  accepted :: "('m, 't) scheduledMessage list"
  dispatched :: "(('m, 't) scheduledMessage \<times> int) list"

text \<open>\<open>100000 * time.Hour\<close> in milliseconds: the timer value of an empty queue.\<close>

definition far_timer :: int where
  "far_timer = 100000 * 3600 * 1000"

definition NewDelayedBroker :: "int \<Rightarrow> int \<Rightarrow> ('m, 't) delayedBroker" where
  "NewDelayedBroker d t0 =
     \<lparr> mu = None, scheduledQueue = [], delay = d, now = t0, timer = t0 + far_timer,
       dpc = AtLoopTop, ppc = (\<lambda>_. Idle), accepted = [], dispatched = [] \<rparr>"

definition after_lock :: "('m, 't) scheduledMessage list \<Rightarrow> 'm \<Rightarrow> 't option \<Rightarrow> ('m, 't) publisher_pc" where
  "after_lock q m t = (if q = [] then SendingWake m t else Appending m t)"

definition scheduled :: "('m, 't) delayedBroker \<Rightarrow> 'm \<Rightarrow> 't option \<Rightarrow> ('m, 't) scheduledMessage" where
  "scheduled s m t = \<lparr> sm_topic = t, sm_message = m, sm_publishAt = now s + delay s \<rparr>"

text \<open>The timer the loop arms: the head's due time, or the far future.\<close>

definition arm_timer :: "('m, 't) delayedBroker \<Rightarrow> int" where
  "arm_timer s = (case scheduledQueue s of [] \<Rightarrow> now s + far_timer | x # _ \<Rightarrow> sm_publishAt x)"

inductive db_step :: "('m, 't) delayedBroker \<Rightarrow> ('m, 't) delayedBroker \<Rightarrow> bool" where
  tick: "0 < n \<Longrightarrow> db_step s (s\<lparr>now := now s + n\<rparr>)"
| publish_now: "ppc s i = Idle \<Longrightarrow> delay s = 0 \<Longrightarrow>
     db_step s (s\<lparr>accepted := accepted s @ [scheduled s m t],
                  dispatched := dispatched s @ [(scheduled s m t, now s)]\<rparr>)"
| publish_call: "ppc s i = Idle \<Longrightarrow> delay s \<noteq> 0 \<Longrightarrow>
     db_step s (s\<lparr>ppc := (ppc s)(i := WantsLock m t)\<rparr>)"
| publish_lock: "ppc s i = WantsLock m t \<Longrightarrow> mu s = None \<Longrightarrow>
     db_step s (s\<lparr>mu := Some (Publisher i), ppc := (ppc s)(i := after_lock (scheduledQueue s) m t)\<rparr>)"
| wake: "ppc s i = SendingWake m t \<Longrightarrow> dpc s = InSelect \<Longrightarrow>
     db_step s (s\<lparr>ppc := (ppc s)(i := Appending m t), dpc := Woken\<rparr>)"
| publish_append: "ppc s i = Appending m t \<Longrightarrow> mu s = Some (Publisher i) \<Longrightarrow>
     db_step s (s\<lparr>scheduledQueue := scheduledQueue s @ [scheduled s m t], mu := None,
                  ppc := (ppc s)(i := Idle), accepted := accepted s @ [scheduled s m t]\<rparr>)"
| loop_top: "dpc s = AtLoopTop \<Longrightarrow> mu s = None \<Longrightarrow>
     db_step s (s\<lparr>timer := arm_timer s, dpc := InSelect\<rparr>)"
| timer_fires: "dpc s = InSelect \<Longrightarrow> timer s \<le> now s \<Longrightarrow> db_step s (s\<lparr>dpc := TimerFired\<rparr>)"
| pop_empty: "dpc s = TimerFired \<Longrightarrow> mu s = None \<Longrightarrow> scheduledQueue s = [] \<Longrightarrow>
     db_step s (s\<lparr>dpc := AtLoopTop\<rparr>)"
| pop: "dpc s = TimerFired \<Longrightarrow> mu s = None \<Longrightarrow> scheduledQueue s = x # q \<Longrightarrow>
     db_step s (s\<lparr>scheduledQueue := q, dpc := Publishing x\<rparr>)"
| dispatch: "dpc s = Publishing x \<Longrightarrow>
     db_step s (s\<lparr>dpc := AtLoopTop, dispatched := dispatched s @ [(x, now s)]\<rparr>)"
| stop_timer: "dpc s = Woken \<Longrightarrow> db_step s (s\<lparr>dpc := AtLoopTop\<rparr>)"

inductive db_reachable :: "int \<Rightarrow> int \<Rightarrow> ('m, 't) delayedBroker \<Rightarrow> bool" for d t0 where
  init: "db_reachable d t0 (NewDelayedBroker d t0)"
| step: "db_reachable d t0 s \<Longrightarrow> db_step s s' \<Longrightarrow> db_reachable d t0 s'"

section \<open>Invariant\<close>

definition in_flight :: "('m, 't) delayedBroker \<Rightarrow> ('m, 't) scheduledMessage list" where
  "in_flight s = (case dpc s of Publishing x \<Rightarrow> [x] | _ \<Rightarrow> [])"

definition holds_lock :: "('m, 't) publisher_pc \<Rightarrow> bool" where
  "holds_lock pc = (case pc of SendingWake _ _ \<Rightarrow> True | Appending _ _ \<Rightarrow> True | _ \<Rightarrow> False)"

text \<open>
  The queue, the message in flight and the history agree; nothing was dispatched before it was
  due; the mutex is held exactly by the publisher inside its critical section; while the
  dispatcher waits with a non-empty queue its timer is the head's due time.
\<close>

definition db_inv :: "('m, 't) delayedBroker \<Rightarrow> bool" where
  "db_inv s \<longleftrightarrow>
     map fst (dispatched s) @ in_flight s @ scheduledQueue s = accepted s \<and>
     (\<forall>(x, at) \<in> set (dispatched s). sm_publishAt x \<le> at) \<and>
     (\<forall>x \<in> set (in_flight s). sm_publishAt x \<le> now s) \<and>
     (delay s = 0 \<longrightarrow> scheduledQueue s = [] \<and> in_flight s = [] \<and> (\<forall>i. ppc s i = Idle)) \<and>
     (\<forall>i. holds_lock (ppc s i) \<longleftrightarrow> mu s = Some (Publisher i)) \<and>
     mu s \<noteq> Some Dispatcher \<and>
     (\<forall>i m t. ppc s i = SendingWake m t \<longrightarrow> scheduledQueue s = []) \<and>
     (\<forall>i m t. ppc s i = Appending m t \<longrightarrow> scheduledQueue s = [] \<longrightarrow> dpc s \<in> {Woken, AtLoopTop}) \<and>
     (\<forall>x q. dpc s = InSelect \<longrightarrow> scheduledQueue s = x # q \<longrightarrow> timer s = sm_publishAt x) \<and>
     (\<forall>x q. dpc s = TimerFired \<longrightarrow> scheduledQueue s = x # q \<longrightarrow> sm_publishAt x \<le> now s)"

lemma db_inv_init: "db_inv (NewDelayedBroker d t0)"
  by (simp add: db_inv_def NewDelayedBroker_def in_flight_def holds_lock_def)


lemma holds_lock_simps [simp]:
  "\<not> holds_lock Idle" "\<not> holds_lock (WantsLock m t)"
  "holds_lock (SendingWake m t)" "holds_lock (Appending m t)"
  by (simp_all add: holds_lock_def)

lemma in_flight_simps [simp]:
  "dpc s = Publishing x \<Longrightarrow> in_flight s = [x]"
  "dpc s \<in> {AtLoopTop, InSelect, TimerFired, Woken} \<Longrightarrow> in_flight s = []"
  by (auto simp: in_flight_def)

lemma db_inv_history:
  "db_inv s \<Longrightarrow> map fst (dispatched s) @ in_flight s @ scheduledQueue s = accepted s"
  by (simp add: db_inv_def)

lemma db_inv_owner: "db_inv s \<Longrightarrow> mu s = Some (Publisher i) \<longleftrightarrow> holds_lock (ppc s i)"
  by (simp add: db_inv_def)

text \<open>At most one publisher is in its critical section, and none while the mutex is free.\<close>

lemma db_inv_exclusive:
  assumes "db_inv s" and "mu s = None \<or> (mu s = Some (Publisher i) \<and> j \<noteq> i)"
  shows "ppc s j \<noteq> SendingWake m t" and "ppc s j \<noteq> Appending m t" and "\<not> holds_lock (ppc s j)"
  using assms db_inv_owner [OF assms(1), of j] by auto

lemma db_inv_step:
  assumes "db_step s s'" and inv: "db_inv s"
  shows "db_inv s'"
  using assms(1)
proof cases
  case (tick n)
  then have "y \<le> now s + n" if "y \<le> now s" for y using that by simp
  with tick inv show ?thesis unfolding db_inv_def by (auto simp: in_flight_def)
next
  case (publish_now i m t)
  with inv show ?thesis by (auto simp: db_inv_def in_flight_def scheduled_def)
next
  case (publish_call i m t)
  with db_inv_owner [OF inv, of i] have "mu s \<noteq> Some (Publisher i)" by simp
  with publish_call inv show ?thesis by (auto simp: db_inv_def in_flight_def)
next
  case (publish_lock i m t)
  with inv db_inv_exclusive [OF inv] show ?thesis
    by (auto simp: db_inv_def in_flight_def after_lock_def)
next
  case (wake i m t)
  with db_inv_owner [OF inv, of i] have own: "mu s = Some (Publisher i)" by simp
  then have "ppc s j \<noteq> SendingWake m' t'" and "ppc s j \<noteq> Appending m' t'" and "\<not> holds_lock (ppc s j)"
    if "j \<noteq> i" for j m' t'
    using db_inv_exclusive [OF inv] that by blast+
  with wake own inv show ?thesis by (auto simp: db_inv_def)
next
  case (publish_append i m t)
  then have "ppc s j \<noteq> SendingWake m' t'" and "ppc s j \<noteq> Appending m' t'" and "\<not> holds_lock (ppc s j)"
    if "j \<noteq> i" for j m' t'
    using db_inv_exclusive [OF inv] that by blast+
  moreover have "dpc s \<in> {InSelect, TimerFired} \<Longrightarrow> scheduledQueue s \<noteq> []" and "delay s \<noteq> 0"
    using inv publish_append by (auto simp: db_inv_def)
  ultimately show ?thesis using publish_append inv unfolding db_inv_def
    by (cases "scheduledQueue s") (simp add: in_flight_def; blast)+
next
  case loop_top
  with inv db_inv_exclusive [OF inv] show ?thesis by (auto simp: db_inv_def arm_timer_def)
next
  case timer_fires
  with inv show ?thesis by (auto simp: db_inv_def)
next
  case pop_empty
  with inv db_inv_exclusive [OF inv] show ?thesis by (auto simp: db_inv_def)
next
  case (pop x q)
  with inv db_inv_exclusive [OF inv] show ?thesis by (auto simp: db_inv_def)
next
  case (dispatch x)
  with inv show ?thesis by (auto simp: db_inv_def)
next
  case stop_timer
  with inv show ?thesis by (auto simp: db_inv_def)
qed

lemma db_reachable_inv: "db_reachable d t0 s \<Longrightarrow> db_inv s"
  by (induction rule: db_reachable.induct) (blast intro: db_inv_init db_inv_step)+

text \<open>
  C21: in every state the broker can reach, under every interleaving of publishers, dispatcher and
  clock, the messages handed to the inner broker, the one in flight and the queue are together
  exactly the accepted messages in the order of acceptance (none lost, duplicated or overtaken),
  and no message was handed over before its due time.
\<close>

theorem delayed_fifo_never_early:
  assumes "db_reachable d t0 s"
  shows "map fst (dispatched s) @ in_flight s @ scheduledQueue s = accepted s \<and>
         (\<forall>(x, at) \<in> set (dispatched s). sm_publishAt x \<le> at)"
  using db_reachable_inv [OF assms] by (simp add: db_inv_def)

text \<open>A run that publishes one message and dispatches it when its delay of 5 has passed.\<close>

lemma db_reachable_example:
  defines "x \<equiv> \<lparr> sm_topic = None, sm_message = True, sm_publishAt = 5 \<rparr>"
  shows "\<exists>s :: (bool, bool) delayedBroker. db_reachable 5 0 s \<and> dispatched s = [(x, 5)]"
proof -
  let ?st = "\<lambda>l q n ti d p ac dis. \<lparr> mu = l, scheduledQueue = q, delay = 5, now = n, timer = ti, dpc = d,
     ppc = (\<lambda>_. Idle)(0 := p), accepted = ac, dispatched = dis \<rparr> :: (bool, bool) delayedBroker"
  note next_state = db_reachable.step [of 5 0]
  have far: "far_timer = 360000000000" by (simp add: far_timer_def)
  have "db_reachable 5 0 (?st None [] 0 far_timer AtLoopTop Idle [] [])"
    using db_reachable.init [of 5 0] by (simp add: NewDelayedBroker_def fun_upd_idem)
  from next_state [OF this loop_top]
  have "db_reachable 5 0 (?st None [] 0 far_timer InSelect Idle [] [])"
    by (simp add: arm_timer_def)
  from next_state [OF this publish_call [where i = 0 and m = True and t = None]]
  have "db_reachable 5 0 (?st None [] 0 far_timer InSelect (WantsLock True None) [] [])" by simp
  from next_state [OF this publish_lock [where i = 0 and m = True and t = None]]
  have "db_reachable 5 0 (?st (Some (Publisher 0)) [] 0 far_timer InSelect (SendingWake True None) [] [])"
    by (simp add: after_lock_def)
  from next_state [OF this wake [where i = 0 and m = True and t = None]]
  have "db_reachable 5 0 (?st (Some (Publisher 0)) [] 0 far_timer Woken (Appending True None) [] [])" by simp
  from next_state [OF this publish_append [where i = 0 and m = True and t = None]]
  have "db_reachable 5 0 (?st None [x] 0 far_timer Woken Idle [x] [])"
    by (simp add: scheduled_def x_def)
  from next_state [OF this stop_timer]
  have "db_reachable 5 0 (?st None [x] 0 far_timer AtLoopTop Idle [x] [])" by simp
  from next_state [OF this loop_top]
  have "db_reachable 5 0 (?st None [x] 0 5 InSelect Idle [x] [])" by (simp add: arm_timer_def x_def)
  from next_state [OF this tick [where n = 5]]
  have "db_reachable 5 0 (?st None [x] 5 5 InSelect Idle [x] [])" by simp
  from next_state [OF this timer_fires]
  have "db_reachable 5 0 (?st None [x] 5 5 TimerFired Idle [x] [])" by simp
  from next_state [OF this pop [where x = x and q = "[]"]]
  have "db_reachable 5 0 (?st None [] 5 5 (Publishing x) Idle [x] [])" by simp
  from next_state [OF this dispatch [where x = x]]
  have "db_reachable 5 0 (?st None [] 5 5 AtLoopTop Idle [x] [(x, 5)])" by simp
  then show ?thesis by fastforce
qed

theorem delayed_fifo_never_early_witness:
  "\<exists>s :: (bool, bool) delayedBroker. db_reachable 5 0 s \<and> length (dispatched s) = 1 \<and>
     map fst (dispatched s) @ in_flight s @ scheduledQueue s = accepted s \<and>
     (\<forall>(x, at) \<in> set (dispatched s). sm_publishAt x \<le> at)"
proof -
  obtain s :: "(bool, bool) delayedBroker" where "db_reachable 5 0 s" "length (dispatched s) = 1"
    using db_reachable_example by auto
  with delayed_fifo_never_early [of 5 0 s] show ?thesis by blast
qed

section \<open>The lost wake-up\<close>

text \<open>
  \<open>Publish\<close> sends on \<open>wakeCh\<close> while it holds the mutex, and the loop receives from \<open>wakeCh\<close> only
  in its \<open>select\<close>, which it reaches after taking the mutex. When the queue is empty and the loop is
  about to lock, the two wait for each other.
\<close>

definition deadlocked :: "('m, 't) delayedBroker \<Rightarrow> bool" where
  "deadlocked s \<longleftrightarrow>
     scheduledQueue s = [] \<and> dpc s \<in> {AtLoopTop, TimerFired} \<and>
     (\<exists>i m t. mu s = Some (Publisher i) \<and> ppc s i = SendingWake m t)"

lemma deadlocked_step:
  assumes "db_step s s'" and "deadlocked s" and "delay s \<noteq> 0"
  shows "deadlocked s' \<and> delay s' = delay s \<and> dispatched s' = dispatched s \<and> accepted s' = accepted s"
  using assms(1)
proof cases
  case (publish_call j m t)
  from assms(2) obtain i m' t' where "mu s = Some (Publisher i)" "ppc s i = SendingWake m' t'"
    by (auto simp: deadlocked_def)
  moreover from this publish_call have "i \<noteq> j" by auto
  ultimately show ?thesis using publish_call assms(2) by (auto simp: deadlocked_def)
qed (use assms(2,3) in \<open>auto simp: deadlocked_def\<close>)

inductive db_steps :: "('m, 't) delayedBroker \<Rightarrow> ('m, 't) delayedBroker \<Rightarrow> bool" where
  refl: "db_steps s s"
| trans: "db_steps s s' \<Longrightarrow> db_step s' s'' \<Longrightarrow> db_steps s s''"

lemma deadlocked_steps:
  "db_steps s s' \<Longrightarrow> deadlocked s \<Longrightarrow> delay s \<noteq> 0 \<Longrightarrow>
     deadlocked s' \<and> delay s' = delay s \<and> dispatched s' = dispatched s \<and> accepted s' = accepted s"
  by (induction rule: db_steps.induct) (use deadlocked_step in fastforce)+

text \<open>
  A publisher that gets the mutex before the dispatcher is back in its \<open>select\<close> leads there.
\<close>

lemma lock_race_deadlocks:
  assumes "scheduledQueue s = []" "dpc s \<in> {AtLoopTop, TimerFired}" "mu s = None"
    and "ppc s i = WantsLock m t"
  shows "\<exists>s'. db_step s s' \<and> deadlocked s' \<and> delay s' = delay s"
proof (intro exI conjI)
  let ?s = "s\<lparr>mu := Some (Publisher i), ppc := (ppc s)(i := after_lock (scheduledQueue s) m t)\<rparr>"
  show "db_step s ?s" using assms by (intro publish_lock)
  show "deadlocked ?s" using assms by (auto simp: deadlocked_def after_lock_def)
  show "delay ?s = delay s" by simp
qed

text \<open>
  C36: with a non-zero delay the broker can reach a state from which no continuation ever accepts
  or dispatches a message again: the publisher holds the mutex and waits for the dispatcher to
  receive from \<open>wakeCh\<close>, the dispatcher waits for the mutex.
\<close>

theorem delayed_broker_can_deadlock:
  assumes "d \<noteq> 0"
  shows "\<exists>s :: ('m, 't) delayedBroker. db_reachable d t0 s \<and> deadlocked s \<and>
           (\<forall>s'. db_steps s s' \<longrightarrow> deadlocked s' \<and> accepted s' = accepted s \<and> dispatched s' = dispatched s)"
proof -
  let ?s0 = "NewDelayedBroker d t0 :: ('m, 't) delayedBroker"
  fix m :: 'm and t :: "'t option"
  let ?s1 = "?s0\<lparr>ppc := (ppc ?s0)(0 := WantsLock m t)\<rparr>"
  have "db_step ?s0 ?s1"
    using assms by (intro publish_call) (simp_all add: NewDelayedBroker_def)
  then have 1: "db_reachable d t0 ?s1"
    by (rule db_reachable.step [OF db_reachable.init])
  obtain s where s: "db_step ?s1 s" "deadlocked s" "delay s = d"
    using lock_race_deadlocks [of ?s1 0 m t] by (auto simp: NewDelayedBroker_def)
  with deadlocked_steps [of s] assms show ?thesis
    using db_reachable.step [OF 1 s(1)] by blast
qed

theorem delayed_broker_can_deadlock_witness:
  "\<exists>s :: (nat, nat) delayedBroker. db_reachable 600 0 s \<and> deadlocked s \<and>
     (\<forall>s'. db_steps s s' \<longrightarrow> deadlocked s' \<and> accepted s' = accepted s \<and> dispatched s' = dispatched s)"
  using delayed_broker_can_deadlock [of 600 0] by simp

end
