(* ===== verification/GoStrings.thy ===== *)
theory GoStrings
  imports Prelude
begin

text \<open>
  The functions of Go's package \<^verbatim>\<open>strings\<close> that the program calls, on \<open>string\<close> (a list of
  bytes). \<open>TrimSpace\<close> and \<open>ToLower\<close> treat the ASCII range; the identifiers, URLs, sensor lines
  and headers the program passes to them are ASCII.
\<close>

definition is_space :: "char \<Rightarrow> bool" where
  "is_space c \<longleftrightarrow> c \<in> set [CHR '' '', CHR 0x09, CHR 0x0A, CHR 0x0B, CHR 0x0C, CHR 0x0D]"

definition trim_right :: "(char \<Rightarrow> bool) \<Rightarrow> string \<Rightarrow> string" where
  "trim_right p s = rev (dropWhile p (rev s))"

definition trim :: "(char \<Rightarrow> bool) \<Rightarrow> string \<Rightarrow> string" where
  "trim p s = trim_right p (dropWhile p s)"

definition TrimSpace :: "string \<Rightarrow> string" where
  "TrimSpace s = trim is_space s"

definition HasPrefix :: "string \<Rightarrow> string \<Rightarrow> bool" where
  "HasPrefix s p \<longleftrightarrow> take (length p) s = p"

text \<open>\<open>Index s sub\<close> is the offset of the first occurrence, \<open>None\<close> for Go's \<open>-1\<close>.\<close>

fun Index :: "string \<Rightarrow> string \<Rightarrow> nat option" where
  "Index [] sub = (if sub = [] then Some 0 else None)"
| "Index (c # s) sub = (if HasPrefix (c # s) sub then Some 0 else map_option Suc (Index s sub))"

definition Contains :: "string \<Rightarrow> string \<Rightarrow> bool" where
  "Contains s sub \<longleftrightarrow> Index s sub \<noteq> None"

text \<open>\<open>Split\<close> on a one-byte separator, and \<open>SplitN s sep 2\<close>.\<close>

fun Split :: "string \<Rightarrow> char \<Rightarrow> string list" where
  "Split [] sep = [[]]"
| "Split (c # s) sep =
     (if c = sep then [] # Split s sep
      else (case Split s sep of [] \<Rightarrow> [[c]] | p # ps \<Rightarrow> (c # p) # ps))"

definition SplitN2 :: "string \<Rightarrow> char \<Rightarrow> string list" where
  "SplitN2 s sep =
     (case dropWhile (\<lambda>c. c \<noteq> sep) s of
        [] \<Rightarrow> [s]
      | _ # rest \<Rightarrow> [takeWhile (\<lambda>c. c \<noteq> sep) s, rest])"

definition to_lower_char :: "char \<Rightarrow> char" where
  "to_lower_char c =
     (if of_char c \<in> {65..90 :: nat} then char_of (of_char c + 32 :: nat) else c)"

definition ToLower :: "string \<Rightarrow> string" where
  "ToLower s = map to_lower_char s"

section \<open>Facts used by the components\<close>

lemma HasPrefix_append [simp]: "HasPrefix (p @ s) p"
  by (simp add: HasPrefix_def)

lemma HasPrefix_Nil [simp]: "HasPrefix s []"
  by (simp add: HasPrefix_def)

lemma HasPrefix_iff: "HasPrefix s p \<longleftrightarrow> (\<exists>t. s = p @ t)"
  by (metis HasPrefix_append HasPrefix_def append_take_drop_id)

lemma Index_Some:
  "Index s sub = Some i \<Longrightarrow> i + length sub \<le> length s \<and> HasPrefix (drop i s) sub"
proof (induction s arbitrary: i)
  case Nil
  then show ?case by (simp split: if_splits)
next
  case (Cons c s)
  show ?case
  proof (cases "HasPrefix (c # s) sub")
    case True
    then have "length sub \<le> length (c # s)"
      by (metis HasPrefix_def length_take min.cobounded1)
    with True Cons.prems show ?thesis
      by simp
  next
    case False
    with Cons.prems obtain j where "Index s sub = Some j" "i = Suc j"
      by auto
    with Cons.IH show ?thesis by simp
  qed
qed

lemma Index_first:
  "Index s sub = Some i \<Longrightarrow> j < i \<Longrightarrow> \<not> HasPrefix (drop j s) sub"
proof (induction s arbitrary: i j)
  case Nil
  then show ?case by (simp split: if_splits)
next
  case (Cons c s)
  then show ?case by (cases j) (auto split: if_splits)
qed

lemma Index_None: "Index s sub = None \<Longrightarrow> \<not> HasPrefix (drop j s) sub"
proof (induction s arbitrary: j)
  case Nil
  then show ?case by (simp add: HasPrefix_def split: if_splits)
next
  case (Cons c s)
  then show ?case by (cases j) (auto split: if_splits)
qed

lemma Index_None_iff: "Index s sub = None \<longleftrightarrow> (\<forall>j. \<not> HasPrefix (drop j s) sub)"
  using Index_None Index_Some by (metis not_None_eq)

lemma Index_append:
  assumes "\<And>j. j < length p \<Longrightarrow> \<not> HasPrefix (drop j (p @ sub @ t)) sub"
  shows "Index (p @ sub @ t) sub = Some (length p)"
  using assms
proof (induction p)
  case Nil
  have "HasPrefix (sub @ t) sub" by simp
  then show ?case by (cases "sub @ t") auto
next
  case (Cons c p)
  have "\<not> HasPrefix ((c # p) @ sub @ t) sub"
    using Cons.prems [of 0] by simp
  moreover have "Index (p @ sub @ t) sub = Some (length p)"
    using Cons.prems [of "Suc j" for j] by (intro Cons.IH) auto
  ultimately show ?case by simp
qed

lemma Split_not_Nil [simp]: "Split s sep \<noteq> []"
  by (induction s) (auto split: list.split)

lemma Split_sep_free: "sep \<notin> set s \<Longrightarrow> Split s sep = [s]"
  by (induction s) auto

lemma Split_append_sep: "sep \<notin> set p \<Longrightarrow> Split (p @ sep # s) sep = p # Split s sep"
  by (induction p) auto

text \<open>Joining the pieces with the separator gives the string back, and no piece contains it.\<close>

fun join :: "char \<Rightarrow> string list \<Rightarrow> string" where
  "join sep [] = []"
| "join sep [p] = p"
| "join sep (p # q # ps) = p @ sep # join sep (q # ps)"

lemma join_Cons: "ps \<noteq> [] \<Longrightarrow> join sep (p # ps) = p @ sep # join sep ps"
  by (cases ps) auto

lemma join_Cons_char: "join sep ((c # p) # ps) = c # join sep (p # ps)"
  by (cases ps) auto

lemma join_Split: "join sep (Split s sep) = s"
proof (induction s)
  case Nil
  then show ?case by simp
next
  case (Cons c s)
  then show ?case
    by (cases "Split s sep") (auto simp: join_Cons join_Cons_char)
qed

lemma Split_pieces: "p \<in> set (Split s sep) \<Longrightarrow> sep \<notin> set p"
proof (induction s arbitrary: p)
  case Nil
  then show ?case by simp
next
  case (Cons c s)
  show ?case
  proof (cases "c = sep")
    case True
    with Cons show ?thesis by auto
  next
    case False
    obtain q qs where q: "Split s sep = q # qs"
      by (cases "Split s sep") auto
    then have "sep \<notin> set q" and "\<And>r. r \<in> set qs \<Longrightarrow> sep \<notin> set r"
      using Cons.IH by auto
    with False q Cons.prems show ?thesis by auto
  qed
qed

lemma trim_right_not_last: "trim_right p s \<noteq> [] \<Longrightarrow> \<not> p (last (trim_right p s))"
  using hd_dropWhile [of p "rev s"] by (auto simp: trim_right_def last_rev)

lemma trim_right_idem [simp]: "trim_right p (trim_right p s) = trim_right p s"
  by (simp add: trim_right_def dropWhile_eq_self_iff hd_dropWhile)

lemma TrimSpace_Nil [simp]: "TrimSpace [] = []"
  by (simp add: TrimSpace_def trim_def trim_right_def)

end
