(* ===== verification/Common.thy ===== *)
theory Common
  imports Complex_Main "HOL-Library.Word" GoStrings
begin

text \<open>
  The types and helpers every part of the program shares: \<^verbatim>\<open>common/type.go\<close>,
  \<^verbatim>\<open>common/const.go\<close>, \<^verbatim>\<open>common/utils.go\<close>, the endpoint URLs of
  \<^verbatim>\<open>internal/syncv2/transport.go\<close>, the station-info conversion of
  \<^verbatim>\<open>internal/syncv2/station_info.go\<close> and the permission topics.

  A UUID is its 128 bits; \<open>uuid_Nil\<close> is the zero value. Timestamps (\<^verbatim>\<open>custype.UnixMs\<close>) and row
  ids are int64 values that the program only copies and compares, so they are \<open>int\<close>. A float64
  measurement is a \<open>real\<close>: the program stores, forwards and compares it.
\<close>

type_synonym uuid = "128 word"
type_synonym unix_ms = int
type_synonym float64 = real
type_synonym status = string
type_synonym station_item = "uuid \<times> string"
type_synonym string_map_map = "(string, (string, string) go_map) go_map"
type_synonym uuid_strings_map = "(uuid, string list) go_map"

abbreviation uuid_Nil :: uuid where "uuid_Nil \<equiv> 0"

definition NoStatus :: status where "NoStatus = ''NoStatus''"
definition Disconnected :: status where "Disconnected = ''Disconnected''"
definition Normal :: status where "Normal = ''Normal''"
definition Abnormal :: status where "Abnormal = ''Abnormal''"

lemmas status_defs = NoStatus_def Disconnected_def Normal_def Abnormal_def

lemma status_distinct [simp]:
  "NoStatus \<noteq> Disconnected" "NoStatus \<noteq> Normal" "NoStatus \<noteq> Abnormal" "Disconnected \<noteq> Normal"
  "Disconnected \<noteq> Abnormal" "Normal \<noteq> Abnormal" "Abnormal \<noteq> Normal" "Normal \<noteq> Disconnected"
  by (simp_all add: status_defs)

type_synonym msg_type = nat

definition MsgData :: msg_type where "MsgData = 0"
definition MsgGpioData :: msg_type where "MsgGpioData = 1"
definition MsgRpiStatus :: msg_type where "MsgRpiStatus = 2"
definition MsgItemStatus :: msg_type where "MsgItemStatus = 3"
definition MsgCameraSnapShot :: msg_type where "MsgCameraSnapShot = 5"

lemmas msg_type_defs = MsgData_def MsgGpioData_def MsgRpiStatus_def MsgItemStatus_def MsgCameraSnapShot_def

record station_info =
  si_identifier :: string
  si_devices :: string_map_map
  si_cameras :: "string list"

record data_time =
  dt_value :: float64
  dt_msec :: unix_ms

record status_change =
  sc_status :: status
  sc_changed_at :: unix_ms

record row_item_status =
  rs_row_id :: int
  rs_item_name :: string
  rs_status :: status
  rs_changed_at :: unix_ms

record full_item_status =
  fs_station_id :: uuid
  fs_identifier :: string
  fs_row :: row_item_status

record station_status =
  ss_station_id :: uuid
  ss_identifier :: string
  ss_status :: status
  ss_changed_at :: unix_ms

section \<open>Item names (\<open>common/utils.go\<close>)\<close>

definition legal_char :: "char \<Rightarrow> bool" where
  "legal_char c \<longleftrightarrow> c \<in> set ''0123456789abcdefghijklmnopqrstuvwxyz_''"

definition ContainsIllegalCharacter :: "string \<Rightarrow> bool" where
  "ContainsIllegalCharacter name \<longleftrightarrow> (\<exists>c \<in> set name. \<not> legal_char c)"

section \<open>Endpoint URLs (\<open>internal/syncv2/transport.go\<close>)\<close>

definition StationPath :: string where "StationPath = ''/sync_v2/station''"
definition RelayPath :: string where "RelayPath = ''/sync_v2/relay''"

definition err_empty_url :: go_error where
  "err_empty_url = ErrorString ''empty url''"

definition err_no_scheme :: go_error where
  "err_no_scheme = ErrorString ''base url must include scheme (e.g. http://server:7100)''"

definition StationURL :: "string \<Rightarrow> string result" where
  "StationURL raw =
     (let addr = TrimSpace raw in
      if addr = [] then Inl err_empty_url
      else if \<not> Contains addr ''://'' then Inl err_no_scheme
      else Inr (trim_right (\<lambda>c. c = CHR ''/'') addr @ StationPath))"

definition RelayURL :: "string \<Rightarrow> string result" where
  "RelayURL raw =
     (let addr = TrimSpace raw in
      if addr = [] then Inl err_empty_url
      else if \<not> Contains addr ''://'' then Inl err_no_scheme
      else Inr (trim_right (\<lambda>c. c = CHR ''/'') addr @ RelayPath))"

lemma StationURL_no_double_slash:
  assumes "StationURL raw = Inr url"
  obtains base where "url = base @ StationPath" "base = [] \<or> last base \<noteq> CHR ''/''"
proof -
  let ?base = "trim_right (\<lambda>c. c = CHR ''/'') (TrimSpace raw)"
  from assms have "url = ?base @ StationPath"
    by (simp add: StationURL_def Let_def split: if_splits)
  moreover have "?base = [] \<or> last ?base \<noteq> CHR ''/''"
    using trim_right_not_last [of "\<lambda>c. c = CHR ''/''" "TrimSpace raw"] by blast
  ultimately show thesis by (rule that)
qed

section \<open>Station info on the wire (\<open>internal/syncv2/station_info.go\<close>)\<close>

record pb_station_info =
  pb_identifier :: string
  pb_devices :: "(string, (string, string) go_map) go_map"
  pb_cameras :: "string list"

text \<open>The inner loop of both conversions: a fresh map filled entry by entry.\<close>

definition copy_items :: "(string, string) go_map \<Rightarrow> (string, string) go_map" where
  "copy_items items = fold (\<lambda>(t, n) m. AList.update t n m) items []"

definition copy_devices :: "string_map_map \<Rightarrow> string_map_map" where
  "copy_devices devs = fold (\<lambda>(d, items) m. AList.update d (copy_items items) m) devs []"

definition StationInfoToPB :: "station_info \<Rightarrow> pb_station_info" where
  "StationInfoToPB info =
     \<lparr> pb_identifier = si_identifier info,
       pb_devices = copy_devices (si_devices info),
       pb_cameras = si_cameras info \<rparr>"

definition PBToStationInfo :: "pb_station_info \<Rightarrow> station_info" where
  "PBToStationInfo info =
     \<lparr> si_identifier = pb_identifier info,
       si_devices = copy_devices (pb_devices info),
       si_cameras = pb_cameras info \<rparr>"

definition wf_devices :: "string_map_map \<Rightarrow> bool" where
  "wf_devices devs \<longleftrightarrow> wf_map devs \<and> (\<forall>(d, items) \<in> set devs. wf_map items)"

lemma update_new: "k \<notin> fst ` set m \<Longrightarrow> AList.update k v m = m @ [(k, v)]"
  by (induction m) auto

lemma fold_update_distinct:
  "wf_map (m @ xs) \<Longrightarrow> fold (\<lambda>(k, v). AList.update k (f v)) xs (map (\<lambda>(k, v). (k, f v)) m)
     = map (\<lambda>(k, v). (k, f v)) (m @ xs)"
proof (induction xs arbitrary: m)
  case Nil
  then show ?case by simp
next
  case (Cons x xs)
  obtain k v where x: "x = (k, v)" by (cases x)
  from Cons.prems x have k: "k \<notin> fst ` set (map (\<lambda>(k, v). (k, f v)) m)"
    by (force simp: wf_map_def)
  have "wf_map ((m @ [x]) @ xs)" using Cons.prems by simp
  from Cons.IH [OF this] show ?case
    using update_new [OF k, of "f v"] x by simp
qed

lemma copy_items_id: "wf_map items \<Longrightarrow> copy_items items = items"
  using fold_update_distinct [of "[]" items "\<lambda>v. v"] by (simp add: copy_items_def)

lemma copy_devices_id:
  assumes "wf_devices devs"
  shows "copy_devices devs = devs"
proof -
  have "copy_devices devs = map (\<lambda>(d, items). (d, copy_items items)) devs"
    using fold_update_distinct [of "[]" devs copy_items] assms
    by (simp add: copy_devices_def wf_devices_def)
  also have "\<dots> = devs"
    using assms by (intro map_idI) (auto simp: wf_devices_def copy_items_id)
  finally show ?thesis .
qed

text \<open>The set of item names a station reports; \<open>itemNames\<close> lists them in iteration order.\<close>

definition itemNames :: "string_map_map \<Rightarrow> string list" where
  "itemNames devs = concat (map (\<lambda>(d, items). map snd items) devs)"

section \<open>Permission topics (\<open>uuidStringsMapToTopics\<close>)\<close>

definition uuidStringsMapToTopics :: "uuid_strings_map \<Rightarrow> station_item list" where
  "uuidStringsMapToTopics permissions =
     concat (map (\<lambda>(sid, items). map (\<lambda>item. (sid, item)) items) permissions)"

lemma set_uuidStringsMapToTopics:
  "(sid, item) \<in> set (uuidStringsMapToTopics p) \<longleftrightarrow> (\<exists>items. (sid, items) \<in> set p \<and> item \<in> set items)"
  by (auto simp: uuidStringsMapToTopics_def)

text \<open>
  Appending to a map of slices, \<^verbatim>\<open>m[k] = append(m[k], v)\<close>, the idiom that groups item names by
  station in every part of the server.
\<close>

definition map_append :: "'k \<Rightarrow> 'v \<Rightarrow> ('k, 'v list) go_map \<Rightarrow> ('k, 'v list) go_map" where
  "map_append k v m = AList.update k (map_index [] m k @ [v]) m"

definition group_items :: "('k \<times> 'v) list \<Rightarrow> ('k, 'v list) go_map" where
  "group_items xs = fold (\<lambda>(k, v). map_append k v) xs []"

lemma wf_map_append [simp]: "wf_map m \<Longrightarrow> wf_map (map_append k v m)"
  by (simp add: map_append_def)

lemma map_index_append:
  "map_index [] (map_append k v m) k' = (if k = k' then map_index [] m k @ [v] else map_index [] m k')"
  by (simp add: map_append_def map_index_def)

lemma fold_map_append_index:
  "map_index [] (fold (\<lambda>(k, v). map_append k v) xs m) k = map_index [] m k @ map snd (filter (\<lambda>x. fst x = k) xs)"
  by (induction xs arbitrary: m) (auto simp: map_index_append)

lemma map_index_group_items: "map_index [] (group_items xs) k = map snd (filter (\<lambda>x. fst x = k) xs)"
  by (simp add: group_items_def fold_map_append_index map_index_def [of _ "[]"])

lemma wf_fold_map_append: "wf_map m \<Longrightarrow> wf_map (fold (\<lambda>(k, v). map_append k v) xs m)"
  by (induction xs arbitrary: m) auto

lemma wf_group_items [simp]: "wf_map (group_items xs)"
  by (simp add: group_items_def wf_fold_map_append)

lemma topics_group_items: "set (uuidStringsMapToTopics (group_items xs)) = set xs"
proof -
  have mem: "(k, vs) \<in> set (group_items xs) \<Longrightarrow> vs = map snd (filter (\<lambda>x. fst x = k) xs)" for k vs
    using map_index_group_items [of xs k] wf_map_map_of_iff [OF wf_group_items, of xs k vs]
    by (simp add: map_index_def)
  have "\<exists>vs. (k, vs) \<in> set (group_items xs) \<and> v \<in> set vs" if "(k, v) \<in> set xs" for k v
  proof -
    from that have v: "v \<in> set (map_index [] (group_items xs) k)"
      by (force simp: map_index_group_items)
    then obtain vs where "map_of (group_items xs) k = Some vs"
      by (cases "map_of (group_items xs) k") (auto simp: map_index_def)
    with v show ?thesis
      by (auto simp: map_index_def dest: map_of_SomeD)
  qed
  moreover have "(k, v) \<in> set xs" if "(k, vs) \<in> set (group_items xs)" "v \<in> set vs" for k v vs
    using mem [OF that(1)] that(2) by auto
  ultimately show ?thesis
    by (auto simp: set_uuidStringsMapToTopics)
qed

end
