(* ===== verification/ClientDB.thy ===== *)
theory ClientDB
  imports Common
begin

text \<open>
  The station's SQLite tables (\<^verbatim>\<open>tide_client/schema.sql\<close>) and the statements of
  \<^verbatim>\<open>tide_client/db\<close> (\<^verbatim>\<open>common.go\<close>, \<^verbatim>\<open>data.go\<close>, \<^verbatim>\<open>log.go\<close>, \<^verbatim>\<open>clean.go\<close>).

  A measurement table holds its rows in the order of insertion and has no unique key. The status
  log has the implicit \<open>ROWID\<close> of SQLite: one more than the largest in the table. Which table names
  SQLite accepts is an argument (\<open>rejects\<close>) of the operation that creates tables.

  The two statements of the ingestion may fail (a full disk, a locked file): \<open>cd_faults\<close> holds the
  outcomes of the coming inserts, \<open>Some e\<close> for one that fails with \<open>e\<close> and writes nothing; when it is used up the
  statements succeed.
\<close>

type_synonym data_rows = "(unix_ms \<times> float64) list"

record client_db =
  cd_tables :: "(string, data_rows) go_map"
  cd_status_log :: "row_item_status list"
  cd_faults :: "go_error option list"

type_synonym 'a cdb_op = "(client_db, 'a) eff"

definition empty_client_db :: client_db where
  "empty_client_db = \<lparr>cd_tables = [], cd_status_log = [], cd_faults = []\<rparr>"

definition err_no_such_table :: "string \<Rightarrow> go_error" where
  "err_no_such_table name = ErrorString (''no such table: '' @ name)"

definition err_sqlite :: go_error where "err_sqlite = ErrorString ''SQL logic error''"

text \<open>The name of the status log exists, and the index on \<open>timestamp\<close> cannot be created on it.\<close>

definition ClientMakeSureTableExist :: "(string \<Rightarrow> bool) \<Rightarrow> string \<Rightarrow> unit cdb_op" where
  "ClientMakeSureTableExist rejects name db =
     (if rejects name \<or> name = ''item_status_log'' then (Inl err_sqlite, db)
      else if map_of (cd_tables db) name \<noteq> None then (Inr (), db)
      else (Inr (), db\<lparr>cd_tables := cd_tables db @ [(name, [])]\<rparr>))"

text \<open>\<open>db.Exec\<close> of an insert: whether SQLite can carry it out.\<close>

definition exec_insert :: "unit cdb_op" where
  "exec_insert db =
     (case cd_faults db of [] \<Rightarrow> (Inr (), db)
      | fault # faults \<Rightarrow> (case fault of None \<Rightarrow> Inr () | Some e \<Rightarrow> Inl e, db\<lparr>cd_faults := faults\<rparr>))"

definition insert_row :: "string \<Rightarrow> float64 \<Rightarrow> unix_ms \<Rightarrow> unit cdb_op" where
  "insert_row itemName val msec db =
     (case map_of (cd_tables db) itemName of
        None \<Rightarrow> (Inl (err_no_such_table itemName), db)
      | Some rows \<Rightarrow> (Inr (), db\<lparr>cd_tables := AList.update itemName (rows @ [(msec, val)]) (cd_tables db)\<rparr>))"

definition SaveData :: "string \<Rightarrow> float64 \<Rightarrow> unix_ms \<Rightarrow> unit cdb_op" where
  "SaveData itemName val msec = bindE exec_insert (\<lambda>_. insert_row itemName val msec)"

definition row_data :: "unix_ms \<times> float64 \<Rightarrow> data_time" where
  "row_data r = \<lparr>dt_value = snd r, dt_msec = fst r\<rparr>"

definition ClientGetDataHistory :: "string \<Rightarrow> int \<Rightarrow> int \<Rightarrow> data_time list cdb_op" where
  "ClientGetDataHistory itemName start end =
     readE (\<lambda>db. case map_of (cd_tables db) itemName of
        None \<Rightarrow> Inl (err_no_such_table itemName)
      | Some rows \<Rightarrow> Inr (map row_data (sort_key fst
          (filter (\<lambda>r. start < fst r \<and> (end = 0 \<or> fst r < end)) rows))))"

definition next_rowid :: "row_item_status list \<Rightarrow> int" where
  "next_rowid logs = (if logs = [] then 1 else Max (set (map rs_row_id logs)) + 1)"

definition insert_log :: "string \<Rightarrow> status \<Rightarrow> unix_ms \<Rightarrow> int cdb_op" where
  "insert_log itemName status changedAt db =
     (let rid = next_rowid (cd_status_log db) in
      (Inr rid, db\<lparr>cd_status_log := cd_status_log db @
         [\<lparr>rs_row_id = rid, rs_item_name = itemName, rs_status = status, rs_changed_at = changedAt\<rparr>]\<rparr>))"

definition ClientSaveItemStatusLog :: "string \<Rightarrow> status \<Rightarrow> unix_ms \<Rightarrow> int cdb_op" where
  "ClientSaveItemStatusLog itemName status changedAt = bindE exec_insert (\<lambda>_. insert_log itemName status changedAt)"

text \<open>The rows whose \<open>ROWID\<close> is the largest of their item.\<close>

definition latest_of_item :: "row_item_status list \<Rightarrow> row_item_status \<Rightarrow> bool" where
  "latest_of_item logs l \<longleftrightarrow> (\<forall>m \<in> set logs. rs_item_name m = rs_item_name l \<longrightarrow> rs_row_id m \<le> rs_row_id l)"

definition GetItemsLatestStatus :: "row_item_status list cdb_op" where
  "GetItemsLatestStatus = readE (\<lambda>db. Inr (filter (latest_of_item (cd_status_log db)) (cd_status_log db)))"

definition GetItemStatusLogAfter :: "int \<Rightarrow> row_item_status list cdb_op" where
  "GetItemStatusLogAfter after =
     readE (\<lambda>db. Inr (sort_key rs_row_id (filter (\<lambda>l. after < rs_row_id l) (cd_status_log db))))"

section \<open>Removal of old data (\<open>clean.go\<close>)\<close>

text \<open>
  \<open>NOT LIKE 'sqlite_%'\<close>: the underscore matches any character, the comparison ignores case.
\<close>

definition like_sqlite :: "string \<Rightarrow> bool" where
  "like_sqlite name \<longleftrightarrow> HasPrefix (ToLower name) ''sqlite'' \<and> 7 \<le> length name"

definition GetAllTables :: "string list cdb_op" where
  "GetAllTables = readE (\<lambda>db. Inr (filter (\<lambda>n. \<not> like_sqlite n) (''item_status_log'' # map fst (cd_tables db))))"

definition IsValidTable :: "string \<Rightarrow> bool cdb_op" where
  "IsValidTable name = readE (\<lambda>db. Inr (map_of (cd_tables db) name \<noteq> None))"

definition DeleteOldData :: "string \<Rightarrow> int \<Rightarrow> unit cdb_op" where
  "DeleteOldData name before db =
     (case map_of (cd_tables db) name of
        None \<Rightarrow> (Inl (Wrapped (''failed to delete data from table '' @ name) (err_no_such_table name)), db)
      | Some rows \<Rightarrow> (Inr (), db\<lparr>cd_tables := AList.update name (filter (\<lambda>r. \<not> fst r < before) rows) (cd_tables db)\<rparr>))"

definition CleanDBData :: "int \<Rightarrow> unit cdb_op" where
  "CleanDBData cutoff = ignoreE (bindE GetAllTables (\<lambda>tables.
     forE (\<lambda>table. bindE (tryE (IsValidTable table)) (\<lambda>r.
       case r of Inl _ \<Rightarrow> retE () | Inr valid \<Rightarrow> if valid then ignoreE (DeleteOldData table cutoff) else retE ())) tables))"

section \<open>Facts\<close>

definition cdb_ok :: "client_db \<Rightarrow> bool" where
  "cdb_ok db \<longleftrightarrow> wf_map (cd_tables db) \<and> map_of (cd_tables db) ''item_status_log'' = None \<and>
     sorted_wrt (<) (map rs_row_id (cd_status_log db)) \<and> (\<forall>l \<in> set (cd_status_log db). 0 < rs_row_id l)"

lemma cdb_ok_empty: "cdb_ok empty_client_db"
  by (simp add: cdb_ok_def empty_client_db_def)

lemma next_rowid_greater: "l \<in> set logs \<Longrightarrow> rs_row_id l < next_rowid logs"
proof -
  assume "l \<in> set logs"
  then have "rs_row_id l \<le> Max (set (map rs_row_id logs))" by (intro Max_ge) auto
  with \<open>l \<in> set logs\<close> show ?thesis by (auto simp: next_rowid_def)
qed

lemma next_rowid_pos: "(\<forall>l \<in> set logs. 0 < rs_row_id l) \<Longrightarrow> 0 < next_rowid logs"
proof (cases logs)
  case (Cons l ls)
  moreover assume "\<forall>l \<in> set logs. 0 < rs_row_id l"
  ultimately show ?thesis using next_rowid_greater [of l logs] by simp
qed (simp add: next_rowid_def)

lemma cdb_ok_exec_insert [pres]: "preserves cdb_ok exec_insert"
  by (auto simp: preserves_def exec_insert_def cdb_ok_def split: list.split)

lemma cdb_ok_insert_log [pres]: "preserves cdb_ok (insert_log n st t)"
proof (rule preservesI)
  fix db
  assume ok: "cdb_ok db"
  then have "0 < next_rowid (cd_status_log db)" by (intro next_rowid_pos) (simp add: cdb_ok_def)
  with ok show "cdb_ok (snd (insert_log n st t db))"
    by (auto simp: insert_log_def Let_def cdb_ok_def sorted_wrt_append next_rowid_greater)
qed

lemma cdb_ok_ClientSaveItemStatusLog [pres]: "preserves cdb_ok (ClientSaveItemStatusLog n st t)"
  unfolding ClientSaveItemStatusLog_def by (intro pres)

lemma cdb_ok_insert_row [pres]: "preserves cdb_ok (insert_row n v t)"
  by (auto simp: preserves_def insert_row_def cdb_ok_def split: option.split)

lemma cdb_ok_SaveData [pres]: "preserves cdb_ok (SaveData n v t)"
  unfolding SaveData_def by (intro pres)

text \<open>Whether the next insert will fail, and what the two statements do in either case.\<close>

definition next_fails :: "client_db \<Rightarrow> bool" where
  "next_fails db \<longleftrightarrow> (case cd_faults db of Some e # _ \<Rightarrow> True | _ \<Rightarrow> False)"

definition drop_fault :: "client_db \<Rightarrow> client_db" where
  "drop_fault db = db\<lparr>cd_faults := tl (cd_faults db)\<rparr>"

lemma drop_fault_simps [simp]:
  "cd_tables (drop_fault db) = cd_tables db" "cd_status_log (drop_fault db) = cd_status_log db"
  "cd_faults (drop_fault db) = tl (cd_faults db)"
  by (simp_all add: drop_fault_def)

lemma exec_insert_cases:
  obtains e where "next_fails db" "exec_insert db = (Inl e, drop_fault db)"
  | "\<not> next_fails db" "exec_insert db = (Inr (), drop_fault db)"
proof (cases "cd_faults db")
  case (Cons fault faults)
  then show ?thesis using that by (cases fault) (auto simp: next_fails_def exec_insert_def drop_fault_def)
qed (use that in \<open>simp add: next_fails_def exec_insert_def drop_fault_def\<close>)

lemma SaveItemStatusLog_fails:
  "next_fails db \<Longrightarrow> \<exists>e. ClientSaveItemStatusLog n st t db = (Inl e, drop_fault db)"
  by (cases db rule: exec_insert_cases) (auto simp: ClientSaveItemStatusLog_def bindE_def)

lemma SaveItemStatusLog_succeeds:
  "\<not> next_fails db \<Longrightarrow> ClientSaveItemStatusLog n st t db = (Inr (next_rowid (cd_status_log db)),
     (drop_fault db)\<lparr>cd_status_log := cd_status_log db @ [\<lparr>rs_row_id = next_rowid (cd_status_log db),
       rs_item_name = n, rs_status = st, rs_changed_at = t\<rparr>]\<rparr>)"
  by (cases db rule: exec_insert_cases) (auto simp: ClientSaveItemStatusLog_def bindE_def insert_log_def Let_def)

lemma SaveData_result:
  "snd (SaveData n v t db) = (if next_fails db then drop_fault db else snd (insert_row n v t (drop_fault db)))"
  by (cases db rule: exec_insert_cases) (auto simp: SaveData_def bindE_def)

lemma cdb_ok_ClientMakeSureTableExist [pres]: "preserves cdb_ok (ClientMakeSureTableExist rj n)"
  by (auto simp: preserves_def ClientMakeSureTableExist_def cdb_ok_def wf_map_def map_of_eq_None_iff)

lemma cdb_ok_DeleteOldData [pres]: "preserves cdb_ok (DeleteOldData n t)"
  by (auto simp: preserves_def DeleteOldData_def cdb_ok_def split: option.split)

lemma cdb_ok_CleanDBData [pres]: "preserves cdb_ok (CleanDBData t)"
  unfolding CleanDBData_def GetAllTables_def IsValidTable_def by (intro pres)

end
