(* ===== verification/ClientIngest.thy ===== *)
theory ClientIngest
  imports ClientDB Pubsub "HOL-Library.Multiset" "HOL-Library.Sublist"
begin

text \<open>
  The station's ingestion of readings: \<open>receiveData\<close> and \<open>addDevices\<close> of
  \<^verbatim>\<open>tide_client/controller/common.go\<close>, the publisher of \<^verbatim>\<open>rpi.go\<close> and \<open>MergeInfo\<close> of
  \<^verbatim>\<open>tide_client/device/utils.go\<close>.

  The state is the station's database, the map \<open>itemsStatus\<close> and the broker the sync sessions
  subscribe to. A whole batch is handled under the ingest lock, so a batch is one transition. The
  clock is read once per reading and comes with it. \<^verbatim>\<open>os.Exit(1)\<close> is an error result. The inserts may fail
  (\<open>cd_faults\<close>): the code changes \<open>itemsStatus\<close> before it writes the log and does not change it back, and
  it publishes a value it could not store. The central fact is that \<open>itemsStatus\<close> always holds the status of the last reading and,
  for an item whose log entries were all written, is the last entry of the log, which never repeats a status.
\<close>

datatype client_body = DataBody string data_time | StatusBody row_item_status | RpiBody float64 unix_ms

record client_msg =
  cm_type :: msg_type
  cm_body :: client_body

record item_data =
  id_At :: unix_ms
  id_Typ :: msg_type
  id_ItemName :: string
  id_Value :: "float64 option"

type_synonym items_status = "(string, status_change) go_map"

record ingest =
  ig_db :: client_db
  ig_status :: items_status
  ig_heap :: "client_msg sub_heap"
  ig_broker :: "unit broker"

definition publishC :: "client_msg \<Rightarrow> ingest \<Rightarrow> ingest" where
  "publishC m s = (let hb = Publish m None (ig_heap s, ig_broker s) in s\<lparr>ig_heap := fst hb, ig_broker := snd hb\<rparr>)"

definition zero_status :: status_change where
  "zero_status = \<lparr>sc_status = [], sc_changed_at = 0\<rparr>"

text \<open>The two branches of \<open>receiveData\<close> that record a change of status differ in the status only.\<close>

definition note_status :: "string \<Rightarrow> status \<Rightarrow> unix_ms \<Rightarrow> ingest \<Rightarrow> ingest" where
  "note_status name st tm s =
     (if sc_status (map_index zero_status (ig_status s) name) = st then s
      else
        let s1 = s\<lparr>ig_status := AList.update name \<lparr>sc_status = st, sc_changed_at = tm\<rparr> (ig_status s)\<rparr> in
        case ClientSaveItemStatusLog name st tm (ig_db s1) of
          (Inl _, d) \<Rightarrow> s1\<lparr>ig_db := d\<rparr>
        | (Inr rowId, d) \<Rightarrow>
            publishC \<lparr>cm_type = MsgItemStatus, cm_body = StatusBody
              \<lparr>rs_row_id = rowId, rs_item_name = name, rs_status = st, rs_changed_at = tm\<rparr>\<rparr> (s1\<lparr>ig_db := d\<rparr>))"

definition save_value :: "msg_type \<Rightarrow> string \<Rightarrow> float64 \<Rightarrow> unix_ms \<Rightarrow> ingest \<Rightarrow> ingest" where
  "save_value typ name v tm s =
     publishC \<lparr>cm_type = typ, cm_body = DataBody name \<lparr>dt_value = v, dt_msec = tm\<rparr>\<rparr>
       (s\<lparr>ig_db := snd (SaveData name v tm (ig_db s))\<rparr>)"

definition reading_time :: "unix_ms \<Rightarrow> item_data \<Rightarrow> unix_ms" where
  "reading_time now data = (if id_At data = 0 then now else id_At data)"

definition ingest_item :: "unix_ms \<times> item_data \<Rightarrow> ingest \<Rightarrow> ingest" where
  "ingest_item nd s =
     (let data = snd nd; tm = reading_time (fst nd) data;
          s1 = (if id_Typ data = MsgData
                then note_status (id_ItemName data) (case id_Value data of None \<Rightarrow> Abnormal | Some _ \<Rightarrow> Normal) tm s
                else s)
      in case id_Value data of None \<Rightarrow> s1 | Some v \<Rightarrow> save_value (id_Typ data) (id_ItemName data) v tm s1)"

definition receive_batch :: "(unix_ms \<times> item_data) list \<Rightarrow> ingest \<Rightarrow> ingest" where
  "receive_batch itemsData s = fold ingest_item itemsData s"

definition receiveData :: "(unix_ms \<times> item_data) list list \<Rightarrow> ingest \<Rightarrow> ingest" where
  "receiveData batches s = fold receive_batch batches s"

definition rpi_job :: "float64 result \<Rightarrow> unix_ms \<Rightarrow> ingest \<Rightarrow> ingest" where
  "rpi_job stat now s =
     (case stat of Inl _ \<Rightarrow> s | Inr temp \<Rightarrow> publishC \<lparr>cm_type = MsgRpiStatus, cm_body = RpiBody temp now\<rparr> s)"

section \<open>Start-up\<close>

definition exit_with :: "string \<Rightarrow> 'a result" where
  "exit_with msg = Inl (ErrorString msg)"

fun merge_items :: "(string, string) go_map \<Rightarrow> (string, string) go_map \<Rightarrow> (string, string) go_map result" where
  "merge_items [] dst = Inr dst"
| "merge_items ((itemType, itemName) # src) dst =
     (if itemType = [] then exit_with ''item_type is empty''
      else if itemName = [] then exit_with ''item_name is empty''
      else if map_of dst itemType \<noteq> None then exit_with (itemType @ '' duplicate'')
      else merge_items src (AList.update itemType itemName dst))"

fun merge_devices :: "string_map_map \<Rightarrow> string_map_map \<Rightarrow> string_map_map result" where
  "merge_devices [] dst = Inr dst"
| "merge_devices ((deviceName, srcItems) # src) dst =
     (if deviceName = [] then exit_with ''device_name is empty''
      else if srcItems = [] then exit_with ''srcItems length is 0''
      else case map_of dst deviceName of
        Some dstItems \<Rightarrow>
          (case merge_items srcItems dstItems of
             Inl e \<Rightarrow> Inl e
           | Inr merged \<Rightarrow> merge_devices src (AList.update deviceName merged dst))
      | None \<Rightarrow> merge_devices src (AList.update deviceName srcItems dst))"

definition MergeInfo :: "string_map_map \<Rightarrow> string_map_map \<Rightarrow> string_map_map result" where
  "MergeInfo dstInfo srcInfo = (if srcInfo = [] then exit_with ''srcInfo length is 0'' else merge_devices srcInfo dstInfo)"

fun merge_all :: "string_map_map list \<Rightarrow> string_map_map \<Rightarrow> string_map_map result" where
  "merge_all [] info = Inr info"
| "merge_all (sub # subs) info = (case MergeInfo info sub of Inl e \<Rightarrow> Inl e | Inr info' \<Rightarrow> merge_all subs info')"

text \<open>The loop that refuses duplicate and illegal names and creates the tables; \<open>tmp\<close> are the names seen.\<close>

fun check_names :: "(string \<Rightarrow> bool) \<Rightarrow> string list \<Rightarrow> string list \<Rightarrow> unit cdb_op" where
  "check_names rejects tmp [] = retE ()"
| "check_names rejects tmp (name # names) =
     (if name \<in> set tmp then throwE (ErrorString ''Duplicate item name'')
      else if ContainsIllegalCharacter name then throwE (ErrorString ''Illegal item name'')
      else bindE (ClientMakeSureTableExist rejects name) (\<lambda>_. check_names rejects (name # tmp) names))"

definition load_status :: "row_item_status list \<Rightarrow> items_status" where
  "load_status ds = fold (\<lambda>d m. AList.update (rs_item_name d)
     \<lparr>sc_status = rs_status d, sc_changed_at = rs_changed_at d\<rparr> m) ds []"

text \<open>
  \<open>subs\<close> are the device maps the configured connections report, in the order they are read, and
  \<open>visit\<close> is the order in which the second loop walks the merged map. The result is
  \<open>stationInfo.Devices\<close> and \<open>itemsStatus\<close>.
\<close>

definition addDevices ::
  "(string \<Rightarrow> bool) \<Rightarrow> (string_map_map \<Rightarrow> string_map_map) \<Rightarrow> string_map_map list
     \<Rightarrow> (string_map_map \<times> items_status) cdb_op" where
  "addDevices rejects visit subs =
     bindE (liftR (merge_all subs [])) (\<lambda>info.
     bindE (check_names rejects [] (itemNames (visit info))) (\<lambda>_.
     bindE GetItemsLatestStatus (\<lambda>ds. retE (info, load_status ds))))"

section \<open>The status log and its cache\<close>

definition item_log :: "string \<Rightarrow> client_db \<Rightarrow> row_item_status list" where
  "item_log name db = filter (\<lambda>l. rs_item_name l = name) (cd_status_log db)"

definition row_change :: "row_item_status \<Rightarrow> status_change" where
  "row_change l = \<lparr>sc_status = rs_status l, sc_changed_at = rs_changed_at l\<rparr>"

definition last_opt :: "'a list \<Rightarrow> 'a option" where
  "last_opt xs = (if xs = [] then None else Some (last xs))"

lemma last_opt_simps [simp]: "last_opt [] = None" "last_opt (xs @ [x]) = Some x"
  by (simp_all add: last_opt_def)

definition cache_ok :: "client_db \<Rightarrow> items_status \<Rightarrow> bool" where
  "cache_ok db cache \<longleftrightarrow> (\<forall>name. map_of cache name = map_option row_change (last_opt (item_log name db)))"

definition log_alternates :: "client_db \<Rightarrow> bool" where
  "log_alternates db \<longleftrightarrow> (\<forall>name. distinct_adj (map rs_status (item_log name db)))"

definition log_legal :: "client_db \<Rightarrow> bool" where
  "log_legal db \<longleftrightarrow> (\<forall>l \<in> set (cd_status_log db). rs_status l \<in> {Normal, Abnormal})"

definition ingest_ok :: "ingest \<Rightarrow> bool" where
  "ingest_ok s \<longleftrightarrow> cdb_ok (ig_db s) \<and> cache_ok (ig_db s) (ig_status s) \<and> log_alternates (ig_db s) \<and>
     log_legal (ig_db s) \<and> wf_map (ig_broker s)"

text \<open>The part of the invariant that concerns one item.\<close>

definition item_ok :: "string \<Rightarrow> ingest \<Rightarrow> bool" where
  "item_ok n s \<longleftrightarrow> map_of (ig_status s) n = map_option row_change (last_opt (item_log n (ig_db s))) \<and>
     distinct_adj (map rs_status (item_log n (ig_db s)))"

definition station_ok :: "ingest \<Rightarrow> bool" where
  "station_ok s \<longleftrightarrow> cdb_ok (ig_db s) \<and> log_legal (ig_db s) \<and> wf_map (ig_broker s)"

lemma ingest_ok_items: "ingest_ok s \<longleftrightarrow> station_ok s \<and> (\<forall>n. item_ok n s)"
  by (auto simp: ingest_ok_def station_ok_def item_ok_def cache_ok_def log_alternates_def)

definition cached_status :: "string \<Rightarrow> ingest \<Rightarrow> status" where
  "cached_status n s = sc_status (map_index zero_status (ig_status s) n)"

lemma publishC_simps [simp]:
  "ig_db (publishC m s) = ig_db s" "ig_status (publishC m s) = ig_status s"
  by (simp_all add: publishC_def Let_def)

lemma publishC_wf [simp]: "wf_map (ig_broker s) \<Longrightarrow> wf_map (ig_broker (publishC m s))"
  using wf_Publish [of "(ig_heap s, ig_broker s)"] by (simp add: publishC_def Let_def)

lemma publishC_kept [simp]:
  "station_ok s \<Longrightarrow> station_ok (publishC m s)" "item_ok n (publishC m s) = item_ok n s" "cached_status n (publishC m s) = cached_status n s"
  by (simp_all add: station_ok_def item_ok_def cached_status_def)

lemma distinct_adj_last:
  "distinct_adj xs \<Longrightarrow> (xs \<noteq> [] \<longrightarrow> last xs \<noteq> x) \<Longrightarrow> distinct_adj (xs @ [x])"
  by (auto simp: distinct_adj_append_iff)

text \<open>The three ways \<open>note_status\<close> can go.\<close>

definition logged_change :: "string \<Rightarrow> status \<Rightarrow> unix_ms \<Rightarrow> ingest \<Rightarrow> ingest" where
  "logged_change name st tm s = s\<lparr>ig_status := AList.update name \<lparr>sc_status = st, sc_changed_at = tm\<rparr> (ig_status s),
     ig_db := (drop_fault (ig_db s))\<lparr>cd_status_log := cd_status_log (ig_db s) @ [\<lparr>rs_row_id = next_rowid (cd_status_log (ig_db s)),
       rs_item_name = name, rs_status = st, rs_changed_at = tm\<rparr>]\<rparr>\<rparr>"

lemma note_status_cases:
  obtains (same) "cached_status name s = st" "note_status name st tm s = s"
  | (lost) "cached_status name s \<noteq> st" "next_fails (ig_db s)"
      "note_status name st tm s = s\<lparr>ig_status := AList.update name \<lparr>sc_status = st, sc_changed_at = tm\<rparr> (ig_status s), ig_db := drop_fault (ig_db s)\<rparr>"
  | (logged) "cached_status name s \<noteq> st" "\<not> next_fails (ig_db s)"
      "note_status name st tm s = publishC \<lparr>cm_type = MsgItemStatus, cm_body = StatusBody \<lparr>rs_row_id = next_rowid (cd_status_log (ig_db s)),
         rs_item_name = name, rs_status = st, rs_changed_at = tm\<rparr>\<rparr> (logged_change name st tm s)"
proof (cases "cached_status name s = st")
  case True
  then show ?thesis by (intro same) (simp_all add: note_status_def cached_status_def)
next
  case changed: False
  show ?thesis
  proof (cases "next_fails (ig_db s)")
    case True
    with SaveItemStatusLog_fails [OF True, of name st tm] changed show ?thesis
      by (intro lost) (auto simp: note_status_def cached_status_def)
  next
    case False
    with SaveItemStatusLog_succeeds [OF False, of name st tm] changed show ?thesis
      by (intro logged) (simp_all add: note_status_def cached_status_def logged_change_def)
  qed
qed

lemma cached_status_note [simp]:
  "cached_status n (note_status name st tm s) = (if n = name then st else cached_status n s)"
  by (cases rule: note_status_cases [of name s st tm])
    (auto simp: cached_status_def map_index_def logged_change_def)

lemma station_ok_note_status:
  assumes "station_ok s" and "st \<in> {Normal, Abnormal}"
  shows "station_ok (note_status name st tm s)"
proof (cases rule: note_status_cases [of name s st tm])
  case logged
  have "cdb_ok (ig_db (logged_change name st tm s))"
    using assms(1) preservesD [OF cdb_ok_ClientSaveItemStatusLog, of "ig_db s" name st tm] SaveItemStatusLog_succeeds [OF logged(2), of name st tm]
    by (simp add: station_ok_def logged_change_def)
  with logged assms show ?thesis by (auto simp: station_ok_def logged_change_def log_legal_def)
qed (use assms in \<open>simp_all add: station_ok_def cdb_ok_def log_legal_def\<close>)

lemma item_ok_cached:
  "item_ok n s \<Longrightarrow> cached_status n s = (case last_opt (item_log n (ig_db s)) of None \<Rightarrow> [] | Some l \<Rightarrow> rs_status l)"
  by (auto simp: item_ok_def cached_status_def map_index_def zero_status_def row_change_def split: option.split)

lemma item_ok_logged_change:
  assumes "item_ok n s" and "cached_status name s \<noteq> st"
  shows "item_ok n (logged_change name st tm s)"
proof (cases "n = name")
  case True
  have "map rs_status (item_log n (ig_db s)) \<noteq> [] \<longrightarrow> last (map rs_status (item_log n (ig_db s))) \<noteq> st"
    using assms item_ok_cached [OF assms(1)] True by (auto simp: last_opt_def last_map split: if_splits)
  with assms(1) True show ?thesis
    by (auto simp: item_ok_def logged_change_def item_log_def row_change_def intro!: distinct_adj_last)
qed (use assms(1) in \<open>simp add: item_ok_def logged_change_def item_log_def\<close>)

lemma item_ok_note_status:
  assumes "item_ok n s" and "n = name \<and> cached_status name s \<noteq> st \<longrightarrow> \<not> next_fails (ig_db s)"
  shows "item_ok n (note_status name st tm s)"
proof (cases rule: note_status_cases [of name s st tm])
  case lost
  with assms show ?thesis by (simp add: item_ok_def item_log_def)
next
  case logged
  with assms show ?thesis by (simp add: item_ok_logged_change)
qed (use assms in simp)

lemma SaveData_log [simp]: "cd_status_log (snd (SaveData n v t db)) = cd_status_log db"
  by (simp add: SaveData_result insert_row_def split: option.split)

lemma save_value_kept [simp]:
  "station_ok s \<Longrightarrow> station_ok (save_value ty name v tm s)" "item_ok n (save_value ty name v tm s) = item_ok n s"
  "cached_status n (save_value ty name v tm s) = cached_status n s"
  "cd_status_log (ig_db (save_value ty name v tm s)) = cd_status_log (ig_db s)"
  using preservesD [OF cdb_ok_SaveData, of "ig_db s" name v tm]
  by (simp_all add: save_value_def station_ok_def item_ok_def log_legal_def item_log_def cached_status_def)

section \<open>The status a reading leaves\<close>

text \<open>The status of an item's last MsgData reading in a list of readings.\<close>

definition reading_status :: "item_data \<Rightarrow> status" where
  "reading_status d = (case id_Value d of None \<Rightarrow> Abnormal | Some _ \<Rightarrow> Normal)"

definition last_reading :: "string \<Rightarrow> (unix_ms \<times> item_data) list \<Rightarrow> item_data option" where
  "last_reading name xs = last_opt (map snd (filter (\<lambda>x. id_Typ (snd x) = MsgData \<and> id_ItemName (snd x) = name) xs))"

definition logged_status :: "string \<Rightarrow> client_db \<Rightarrow> status option" where
  "logged_status name db = map_option rs_status (last_opt (item_log name db))"

lemma logged_status_same_log: "cd_status_log a = cd_status_log b \<Longrightarrow> logged_status n a = logged_status n b"
  by (simp add: logged_status_def item_log_def)

lemma item_ok_logged:
  "item_ok n s \<Longrightarrow> cached_status n s = (case logged_status n (ig_db s) of None \<Rightarrow> [] | Some st \<Rightarrow> st)"
  by (simp add: item_ok_cached logged_status_def option.case_eq_if option.map_sel)

text \<open>The readings whose change of status could not be written to the log.\<close>

definition change_lost :: "unix_ms \<times> item_data \<Rightarrow> ingest \<Rightarrow> bool" where
  "change_lost nd s \<longleftrightarrow> id_Typ (snd nd) = MsgData \<and>
     cached_status (id_ItemName (snd nd)) s \<noteq> reading_status (snd nd) \<and> next_fails (ig_db s)"

fun lost_changes :: "(unix_ms \<times> item_data) list \<Rightarrow> ingest \<Rightarrow> string list" where
  "lost_changes [] s = []"
| "lost_changes (x # xs) s =
     (if change_lost x s then [id_ItemName (snd x)] else []) @ lost_changes xs (ingest_item x s)"

lemma ingest_item_alt:
  "ingest_item nd s =
     (let s1 = (if id_Typ (snd nd) = MsgData
                then note_status (id_ItemName (snd nd)) (reading_status (snd nd)) (reading_time (fst nd) (snd nd)) s else s)
      in case id_Value (snd nd) of None \<Rightarrow> s1
         | Some v \<Rightarrow> save_value (id_Typ (snd nd)) (id_ItemName (snd nd)) v (reading_time (fst nd) (snd nd)) s1)"
  unfolding ingest_item_def Let_def reading_status_def ..

lemma reading_status_legal [simp]: "reading_status d \<in> {Normal, Abnormal}" "reading_status d \<noteq> []"
  by (auto simp: reading_status_def status_defs split: option.split)

lemma station_ok_item: "station_ok s \<Longrightarrow> station_ok (ingest_item nd s)"
  using station_ok_note_status [OF _ reading_status_legal(1)] by (auto simp: ingest_item_alt Let_def split: option.split)

lemma cached_status_item:
  "cached_status n (ingest_item nd s) =
     (if id_Typ (snd nd) = MsgData \<and> id_ItemName (snd nd) = n then reading_status (snd nd) else cached_status n s)"
  by (simp add: ingest_item_alt Let_def split: option.split)

lemma item_ok_item:
  "item_ok n s \<Longrightarrow> \<not> (change_lost nd s \<and> id_ItemName (snd nd) = n) \<Longrightarrow> item_ok n (ingest_item nd s)"
  using item_ok_note_status [of n s "id_ItemName (snd nd)" "reading_status (snd nd)" "reading_time (fst nd) (snd nd)"]
  by (auto simp: ingest_item_alt Let_def change_lost_def split: option.split)

lemma item_log_other:
  assumes "\<not> (id_Typ (snd nd) = MsgData \<and> id_ItemName (snd nd) = n \<and> reading_status (snd nd) \<noteq> cached_status n s)"
  shows "item_log n (ig_db (ingest_item nd s)) = item_log n (ig_db s)"
proof -
  have "item_log n (ig_db (note_status name st tm s)) = item_log n (ig_db s)" if "name = n \<longrightarrow> st = cached_status n s" for name st tm
    using that by (cases rule: note_status_cases [of name s st tm]) (auto simp: item_log_def logged_change_def)
  with assms show ?thesis by (auto simp: ingest_item_alt Let_def item_log_def split: option.split)
qed

lemma item_log_lost:
  assumes "change_lost nd s"
  shows "item_log n (ig_db (ingest_item nd s)) = item_log n (ig_db s)"
proof -
  have "item_log n (ig_db (note_status name st tm s)) = item_log n (ig_db s)" for name st tm
    using assms by (cases rule: note_status_cases [of name s st tm]) (auto simp: item_log_def change_lost_def)
  then show ?thesis by (auto simp: ingest_item_alt Let_def item_log_def split: option.split)
qed

lemma logged_status_item:
  assumes "item_ok n s" and "\<not> (change_lost nd s \<and> id_ItemName (snd nd) = n)"
  shows "logged_status n (ig_db (ingest_item nd s)) =
    (if id_Typ (snd nd) = MsgData \<and> id_ItemName (snd nd) = n then Some (reading_status (snd nd)) else logged_status n (ig_db s))"
proof (cases "id_Typ (snd nd) = MsgData \<and> id_ItemName (snd nd) = n")
  case True
  with item_ok_logged [OF item_ok_item [OF assms]] show ?thesis
    by (simp add: cached_status_item split: option.splits)
next
  case False
  then show ?thesis using item_log_other [of nd n s] by (auto simp: logged_status_def)
qed

lemma last_reading_Cons:
  "last_reading n (x # xs) = (case last_reading n xs of None \<Rightarrow>
     if id_Typ (snd x) = MsgData \<and> id_ItemName (snd x) = n then Some (snd x) else None | Some d \<Rightarrow> Some d)"
  by (simp add: last_reading_def last_opt_def)

lemma station_ok_batch: "station_ok s \<Longrightarrow> station_ok (receive_batch xs s)"
  unfolding receive_batch_def by (induction xs arbitrary: s) (simp_all add: station_ok_item)

lemma cached_status_batch:
  "cached_status n (receive_batch xs s) = (case last_reading n xs of None \<Rightarrow> cached_status n s | Some d \<Rightarrow> reading_status d)"
proof (induction xs arbitrary: s)
  case Nil
  then show ?case by (simp add: receive_batch_def last_reading_def)
next
  case (Cons x xs)
  have "cached_status n (receive_batch (x # xs) s) = cached_status n (receive_batch xs (ingest_item x s))"
    by (simp add: receive_batch_def)
  then show ?case by (simp add: Cons.IH last_reading_Cons cached_status_item split: option.split)
qed

lemma logged_status_batch:
  "item_ok n s \<Longrightarrow> n \<notin> set (lost_changes xs s) \<Longrightarrow> item_ok n (receive_batch xs s) \<and> logged_status n (ig_db (receive_batch xs s)) =
     (case last_reading n xs of None \<Rightarrow> logged_status n (ig_db s) | Some d \<Rightarrow> Some (reading_status d))"
proof (induction xs arbitrary: s)
  case Nil
  then show ?case by (simp add: receive_batch_def last_reading_def)
next
  case (Cons x xs)
  have x: "\<not> (change_lost x s \<and> id_ItemName (snd x) = n)" "n \<notin> set (lost_changes xs (ingest_item x s))"
    using Cons.prems(2) by (auto split: if_splits)
  have "receive_batch (x # xs) s = receive_batch xs (ingest_item x s)" by (simp add: receive_batch_def)
  with Cons.IH [OF item_ok_item [OF Cons.prems(1) x(1)] x(2)] show ?case
    by (simp add: last_reading_Cons logged_status_item [OF Cons.prems(1) x(1)] split: option.split)
qed

lemma no_faults_item:
  assumes "cd_faults (ig_db s) = []"
  shows "cd_faults (ig_db (note_status name st tm s)) = []" and "cd_faults (ig_db (ingest_item x s)) = []"
proof -
  show noted: "cd_faults (ig_db (note_status name st tm s)) = []" for name st tm
    using assms by (cases rule: note_status_cases [of name s st tm]) (simp_all add: logged_change_def)
  have "cd_faults (ig_db (save_value ty name v tm t)) = []" if "cd_faults (ig_db t) = []" for ty name v tm t
    using that by (simp add: save_value_def SaveData_result insert_row_def split: option.split)
  with noted assms show "cd_faults (ig_db (ingest_item x s)) = []"
    by (simp add: ingest_item_alt Let_def split: option.split)
qed

lemma lost_changes_no_faults: "cd_faults (ig_db s) = [] \<Longrightarrow> lost_changes xs s = []"
  by (induction xs arbitrary: s) (simp_all add: no_faults_item change_lost_def next_fails_def)

lemma ingest_ok_batch:
  assumes "ingest_ok s" "lost_changes xs s = []"
  shows "ingest_ok (receive_batch xs s)"
  using assms station_ok_batch [of s xs] logged_status_batch [of _ s xs] by (auto simp: ingest_ok_items)

lemma receiveData_concat: "receiveData bs s = receive_batch (concat bs) s"
  unfolding receiveData_def receive_batch_def by (induction bs arbitrary: s) (simp_all add: receive_batch_def)

section \<open>What a subscriber of the station's broker receives\<close>

definition status_msgs :: "string \<Rightarrow> status \<Rightarrow> unix_ms \<Rightarrow> ingest \<Rightarrow> client_msg list" where
  "status_msgs name st tm s =
     (if cached_status name s = st \<or> next_fails (ig_db s) then []
      else [\<lparr>cm_type = MsgItemStatus, cm_body = StatusBody
        \<lparr>rs_row_id = next_rowid (cd_status_log (ig_db s)), rs_item_name = name, rs_status = st, rs_changed_at = tm\<rparr>\<rparr>])"

definition value_msgs :: "unix_ms \<times> item_data \<Rightarrow> client_msg list" where
  "value_msgs nd =
     (case id_Value (snd nd) of None \<Rightarrow> []
      | Some v \<Rightarrow> [\<lparr>cm_type = id_Typ (snd nd), cm_body = DataBody (id_ItemName (snd nd))
          \<lparr>dt_value = v, dt_msec = reading_time (fst nd) (snd nd)\<rparr>\<rparr>])"

definition item_msgs :: "unix_ms \<times> item_data \<Rightarrow> ingest \<Rightarrow> client_msg list" where
  "item_msgs nd s =
     (if id_Typ (snd nd) = MsgData
      then status_msgs (id_ItemName (snd nd)) (reading_status (snd nd)) (reading_time (fst nd) (snd nd)) s else [])
     @ value_msgs nd"

fun batch_msgs :: "(unix_ms \<times> item_data) list \<Rightarrow> ingest \<Rightarrow> client_msg list" where
  "batch_msgs [] s = []"
| "batch_msgs (x # xs) s = item_msgs x s @ batch_msgs xs (ingest_item x s)"

text \<open>\<open>hears b h sub n\<close>: the subscriber has no topic filter and room for \<open>n\<close> more messages.\<close>

definition hears :: "nat \<Rightarrow> sub_id \<Rightarrow> ingest \<Rightarrow> bool" where
  "hears n sub s \<longleftrightarrow> wf_map (ig_broker s) \<and> map_of (ig_broker s) sub = Some None \<and>
     length (sub_Ch (ig_heap s sub)) + n \<le> sub_buffer (ig_heap s sub)"

lemma hears_publishC:
  assumes "hears (Suc n) sub s"
  shows "hears n sub (publishC m s)" and "sub_Ch (ig_heap (publishC m s) sub) = sub_Ch (ig_heap s sub) @ [m]"
  using assms wf_Publish [of "(ig_heap s, ig_broker s)" m None]
  by (auto simp: hears_def publishC_def Let_def publish_simps admits_def offered_def has_room_def)

lemma hears_db [simp]:
  "hears n sub (s\<lparr>ig_db := d\<rparr>) = hears n sub s" "hears n sub (s\<lparr>ig_status := c\<rparr>) = hears n sub s"
  by (simp_all add: hears_def)

lemma note_status_hears:
  assumes "hears (length (status_msgs name st tm s) + n) sub s"
  shows "hears n sub (note_status name st tm s) \<and>
    sub_Ch (ig_heap (note_status name st tm s) sub) = sub_Ch (ig_heap s sub) @ status_msgs name st tm s"
proof (cases rule: note_status_cases [of name s st tm])
  case logged
  then have "hears (Suc n) sub (logged_change name st tm s)" "ig_heap (logged_change name st tm s) = ig_heap s"
    using assms by (simp_all add: status_msgs_def hears_def logged_change_def)
  with logged show ?thesis by (simp add: status_msgs_def hears_publishC)
qed (use assms in \<open>simp_all add: status_msgs_def\<close>)

lemma item_hears:
  assumes "hears (length (item_msgs x s) + n) sub s"
  shows "hears n sub (ingest_item x s) \<and> sub_Ch (ig_heap (ingest_item x s) sub) = sub_Ch (ig_heap s sub) @ item_msgs x s"
proof -
  let ?d = "snd x" and ?tm = "reading_time (fst x) (snd x)"
  define s1 where "s1 = (if id_Typ ?d = MsgData then note_status (id_ItemName ?d) (reading_status ?d) ?tm s else s)"
  define ms where "ms = (if id_Typ ?d = MsgData then status_msgs (id_ItemName ?d) (reading_status ?d) ?tm s else [])"
  have s1: "hears (length (value_msgs x) + n) sub s1 \<and> sub_Ch (ig_heap s1 sub) = sub_Ch (ig_heap s sub) @ ms"
    using assms note_status_hears [of "id_ItemName ?d" "reading_status ?d" ?tm s "length (value_msgs x) + n" sub]
    by (cases "id_Typ ?d = MsgData") (simp_all add: s1_def ms_def item_msgs_def ac_simps)
  have "ingest_item x s = (case id_Value ?d of None \<Rightarrow> s1 | Some v \<Rightarrow> save_value (id_Typ ?d) (id_ItemName ?d) v ?tm s1)"
    unfolding ingest_item_alt Let_def s1_def ..
  then show ?thesis
    using s1 by (auto simp: item_msgs_def ms_def value_msgs_def save_value_def hears_publishC split: option.splits)
qed

lemma batch_hears:
  "hears (length (batch_msgs xs s) + n) sub s \<Longrightarrow> hears n sub (receive_batch xs s) \<and>
     sub_Ch (ig_heap (receive_batch xs s) sub) = sub_Ch (ig_heap s sub) @ batch_msgs xs s"
proof (induction xs arbitrary: s)
  case Nil
  then show ?case by (simp add: receive_batch_def)
next
  case (Cons x xs)
  have "hears (length (item_msgs x s) + (length (batch_msgs xs (ingest_item x s)) + n)) sub s"
    using Cons.prems by (simp add: ac_simps)
  from item_hears [OF this] Cons.IH [of "ingest_item x s"] show ?case
    by (simp add: receive_batch_def)
qed

section \<open>The rows of a measurement table\<close>

definition table_rows :: "string \<Rightarrow> client_db \<Rightarrow> data_rows" where
  "table_rows name db = map_index [] (cd_tables db) name"

definition msg_rows :: "string \<Rightarrow> client_msg list \<Rightarrow> data_rows" where
  "msg_rows name ms = concat (map (\<lambda>m. case cm_body m of
     DataBody n d \<Rightarrow> if n = name then [(dt_msec d, dt_value d)] else [] | _ \<Rightarrow> []) ms)"

definition has_client_table :: "string \<Rightarrow> client_db \<Rightarrow> bool" where
  "has_client_table name db \<longleftrightarrow> map_of (cd_tables db) name \<noteq> None"

lemma note_status_tables [simp]: "cd_tables (ig_db (note_status name st tm s)) = cd_tables (ig_db s)"
  by (cases rule: note_status_cases [of name s st tm]) (simp_all add: logged_change_def)

lemma msg_rows_append [simp]: "msg_rows n (a @ b) = msg_rows n a @ msg_rows n b"
  by (simp add: msg_rows_def)

lemma msg_rows_status [simp]: "msg_rows n (status_msgs name st tm s) = []"
  by (simp add: msg_rows_def status_msgs_def)

text \<open>The rows of the readings whose insert succeeded, per item.\<close>

definition stored_row :: "string \<Rightarrow> unix_ms \<times> item_data \<Rightarrow> ingest \<Rightarrow> data_rows" where
  "stored_row n x s =
     (let s1 = (if id_Typ (snd x) = MsgData
                then note_status (id_ItemName (snd x)) (reading_status (snd x)) (reading_time (fst x) (snd x)) s else s)
      in case id_Value (snd x) of
           Some v \<Rightarrow> if id_ItemName (snd x) = n \<and> \<not> next_fails (ig_db s1) then [(reading_time (fst x) (snd x), v)] else []
         | None \<Rightarrow> [])"

fun stored_rows :: "string \<Rightarrow> (unix_ms \<times> item_data) list \<Rightarrow> ingest \<Rightarrow> data_rows" where
  "stored_rows n [] s = []"
| "stored_rows n (x # xs) s = stored_row n x s @ stored_rows n xs (ingest_item x s)"

lemma item_rows:
  assumes "has_client_table n (ig_db s)"
  shows "has_client_table n (ig_db (ingest_item x s)) \<and>
    table_rows n (ig_db (ingest_item x s)) = table_rows n (ig_db s) @ stored_row n x s"
  using assms
  by (auto simp: ingest_item_alt Let_def stored_row_def save_value_def SaveData_result insert_row_def table_rows_def
    has_client_table_def map_index_def split: option.splits)

lemma stored_row_sent: "subseq (stored_row n x s) (msg_rows n (item_msgs x s))"
  by (auto simp: stored_row_def Let_def item_msgs_def value_msgs_def msg_rows_def [of _ "[x]" for x] msg_rows_def [of _ "[]"]
    split: option.split)

lemma batch_rows:
  "has_client_table n (ig_db s) \<Longrightarrow>
     table_rows n (ig_db (receive_batch xs s)) = table_rows n (ig_db s) @ stored_rows n xs s"
proof (induction xs arbitrary: s)
  case Nil
  then show ?case by (simp add: receive_batch_def)
next
  case (Cons x xs)
  then show ?case using item_rows [OF Cons.prems, of x] by (simp add: receive_batch_def)
qed

lemma stored_rows_sent: "subseq (stored_rows n xs s) (msg_rows n (batch_msgs xs s))"
proof (induction xs arbitrary: s)
  case (Cons x xs)
  then show ?case using list_emb_append_mono [OF stored_row_sent Cons.IH] by simp
qed (simp add: msg_rows_def)

lemma stored_rows_no_faults: "cd_faults (ig_db s) = [] \<Longrightarrow> stored_rows n xs s = msg_rows n (batch_msgs xs s)"
proof (induction xs arbitrary: s)
  case (Cons x xs)
  have "stored_row n x s = msg_rows n (item_msgs x s)"
    using Cons.prems no_faults_item [OF Cons.prems]
    by (auto simp: stored_row_def Let_def item_msgs_def value_msgs_def next_fails_def msg_rows_def [of _ "[x]" for x] msg_rows_def [of _ "[]"]
      split: option.split)
  with Cons show ?case by (simp add: no_faults_item)
qed (simp add: msg_rows_def)

section \<open>The cache after start-up\<close>

lemma map_of_load_status:
  "map_of (load_status ds) n = map_option row_change (last_opt (filter (\<lambda>l. rs_item_name l = n) ds))"
proof (induction ds rule: rev_induct)
  case Nil
  then show ?case by (simp add: load_status_def)
next
  case (snoc d ds)
  then show ?case by (simp add: load_status_def row_change_def)
qed

lemma latest_of_item_snoc:
  assumes "sorted_wrt (<) (map rs_row_id (logs @ [l]))" and "m \<in> set logs"
  shows "latest_of_item (logs @ [l]) m \<longleftrightarrow> rs_item_name m \<noteq> rs_item_name l \<and> latest_of_item logs m"
  using assms by (force simp: latest_of_item_def sorted_wrt_append)

lemma latest_of_item_last:
  assumes "sorted_wrt (<) (map rs_row_id logs)"
  shows "last_opt (filter (\<lambda>l. rs_item_name l = n) (filter (latest_of_item logs) logs)) =
    last_opt (filter (\<lambda>l. rs_item_name l = n) logs)"
  using assms
proof (induction logs rule: rev_induct)
  case Nil
  then show ?case by simp
next
  case (snoc l logs)
  have IH: "last_opt (filter (\<lambda>l. rs_item_name l = n) (filter (latest_of_item logs) logs)) =
      last_opt (filter (\<lambda>l. rs_item_name l = n) logs)"
    using snoc by (simp add: sorted_wrt_append)
  have l: "latest_of_item (logs @ [l]) l"
    using snoc.prems by (auto simp: latest_of_item_def sorted_wrt_append less_imp_le)
  show ?case
  proof (cases "rs_item_name l = n")
    case True
    with l show ?thesis by simp
  next
    case False
    have "filter (\<lambda>l. rs_item_name l = n) (filter (latest_of_item (logs @ [l])) logs) =
        filter (\<lambda>l. rs_item_name l = n) (filter (latest_of_item logs) logs)"
      using False latest_of_item_snoc [OF snoc.prems] by (auto intro!: filter_cong)
    with False IH show ?thesis by simp
  qed
qed

lemma cache_ok_loaded:
  "cdb_ok db \<Longrightarrow> cache_ok db (load_status (filter (latest_of_item (cd_status_log db)) (cd_status_log db)))"
  unfolding cache_ok_def map_of_load_status item_log_def
  by (simp only: cdb_ok_def latest_of_item_last simp_thms)

lemma MakeSure_table:
  assumes "ClientMakeSureTableExist rj n db = (Inr u, db')"
  shows "has_client_table n db'" and "has_client_table m db \<Longrightarrow> has_client_table m db'"
    and "cd_status_log db' = cd_status_log db"
  using assms by (auto simp: ClientMakeSureTableExist_def has_client_table_def map_add_def split: if_splits option.splits)

lemma check_names_ok:
  "check_names rj tmp names db = (Inr u, db') \<Longrightarrow> distinct names \<and> set names \<inter> set tmp = {} \<and>
     (\<forall>n \<in> set names. \<not> ContainsIllegalCharacter n \<and> has_client_table n db') \<and>
     (\<forall>m. has_client_table m db \<longrightarrow> has_client_table m db') \<and> cd_status_log db' = cd_status_log db"
proof (induction names arbitrary: tmp db)
  case Nil
  then show ?case by (simp add: retE_def)
next
  case (Cons n names)
  then have n: "n \<notin> set tmp" "\<not> ContainsIllegalCharacter n"
    by (auto simp: throwE_def split: if_splits)
  with Cons.prems obtain u1 db1 where 1: "ClientMakeSureTableExist rj n db = (Inr u1, db1)"
      "check_names rj (n # tmp) names db1 = (Inr u, db')"
    by (auto elim!: bindE_cases)
  from Cons.IH [OF 1(2)] MakeSure_table [OF 1(1)] n show ?case by auto
qed

lemma cdb_ok_check_names [pres]: "preserves cdb_ok (check_names rj tmp names)"
  by (induction names arbitrary: tmp) (auto intro!: pres simp del: check_names.simps simp: check_names.simps)

section \<open>Properties\<close>

text \<open>
  C10: From a state in which \<open>itemsStatus\<close> mirrors the status log, every stream of reading batches, whichever inserts
  fail, keeps the database well formed, and \<open>itemsStatus\<close> gives every item the status of its last reading (\<open>Normal\<close> with a
  value, \<open>Abnormal\<close> without). For every item none of whose log inserts failed, \<open>itemsStatus\<close> is
  the last log entry, the log has no repeated statuses, and it ends with the status of the last reading.
\<close>

theorem ingest_status_log:
  assumes "ingest_ok s"
  shows "cdb_ok (ig_db (receiveData bs s)) \<and> log_legal (ig_db (receiveData bs s)) \<and>
    cached_status n (receiveData bs s) =
      (case last_reading n (concat bs) of None \<Rightarrow> cached_status n s | Some d \<Rightarrow> reading_status d) \<and>
    (n \<notin> set (lost_changes (concat bs) s) \<longrightarrow> item_ok n (receiveData bs s) \<and> logged_status n (ig_db (receiveData bs s)) =
      (case last_reading n (concat bs) of None \<Rightarrow> logged_status n (ig_db s) | Some d \<Rightarrow> Some (reading_status d)))"
  using assms station_ok_batch [of s "concat bs"] logged_status_batch [of n s "concat bs"]
  by (simp add: receiveData_concat cached_status_batch ingest_ok_items station_ok_def)

definition idle_station :: ingest where
  "idle_station = \<lparr>ig_db = empty_client_db\<lparr>cd_tables := [(''tide'', [])]\<rparr>, ig_status = [],
     ig_heap = (\<lambda>_. NewSubscriber 10000), ig_broker = Subscribe 7 None NewBroker\<rparr>"

definition two_readings :: "(unix_ms \<times> item_data) list" where
  "two_readings = [(900, \<lparr>id_At = 500, id_Typ = MsgData, id_ItemName = ''tide'', id_Value = Some 2\<rparr>),
                   (900, \<lparr>id_At = 0, id_Typ = MsgData, id_ItemName = ''tide'', id_Value = None\<rparr>)]"

lemma idle_station_ok: "ingest_ok idle_station"
  by (simp add: ingest_ok_def idle_station_def empty_client_db_def cdb_ok_def cache_ok_def log_alternates_def
    log_legal_def item_log_def Subscribe_def NewBroker_def)

theorem ingest_status_log_witness:
  "ingest_ok idle_station \<and> logged_status ''tide'' (ig_db (receiveData [two_readings] idle_station)) = Some Abnormal"
  using ingest_status_log [OF idle_station_ok, of "[two_readings]" "''tide''"] idle_station_ok
  by (simp add: lost_changes_no_faults idle_station_def empty_client_db_def)
    (simp add: two_readings_def last_reading_def reading_status_def last_opt_def)

text \<open>
  A change of status whose insert into the log fails is not written later: as long as the
  readings of the item keep the new status, its log stays as it was before the change, although \<open>itemsStatus\<close> holds the new status.
\<close>

theorem lost_change_not_retried:
  assumes "change_lost x s" and "id_ItemName (snd x) = n"
    and "\<forall>y \<in> set xs. id_Typ (snd y) = MsgData \<and> id_ItemName (snd y) = n \<longrightarrow> reading_status (snd y) = reading_status (snd x)"
  shows "item_log n (ig_db (receive_batch (x # xs) s)) = item_log n (ig_db s) \<and>
    cached_status n (receive_batch (x # xs) s) = reading_status (snd x) \<and> cached_status n s \<noteq> reading_status (snd x)"
proof -
  have kept: "item_log n (ig_db (receive_batch xs t)) = item_log n (ig_db t) \<and> cached_status n (receive_batch xs t) = reading_status (snd x)"
    if "cached_status n t = reading_status (snd x)" for t
    using assms(3) that
  proof (induction xs arbitrary: t)
    case (Cons y ys)
    have "cached_status n (ingest_item y t) = reading_status (snd x)" using Cons.prems by (auto simp: cached_status_item)
    moreover have "item_log n (ig_db (ingest_item y t)) = item_log n (ig_db t)"
      using Cons.prems by (intro item_log_other) auto
    ultimately show ?case using Cons.IH Cons.prems(1) by (simp add: receive_batch_def)
  qed (simp add: receive_batch_def)
  have "item_log n (ig_db (ingest_item x s)) = item_log n (ig_db s)"
    using item_log_lost [OF assms(1)] assms(2) by simp
  then show ?thesis
    using assms(1,2) kept [of "ingest_item x s"] by (auto simp: receive_batch_def cached_status_item change_lost_def)
qed

definition full_disk :: ingest where
  "full_disk = idle_station\<lparr>ig_db := (ig_db idle_station)\<lparr>cd_faults := [None, None, Some (ErrorString ''disk I/O error'')]\<rparr>\<rparr>"

definition went_dead :: "unix_ms \<times> item_data" where
  "went_dead = (900, \<lparr>id_At = 0, id_Typ = MsgData, id_ItemName = ''tide'', id_Value = None\<rparr>)"

text \<open>
  The first reading is stored and logged, the insert for the second fails; after the third the log still ends with \<open>Normal\<close>.
\<close>

theorem lost_change_not_retried_witness:
  "logged_status ''tide'' (ig_db (receive_batch (two_readings @ [went_dead]) full_disk)) = Some Normal \<and>
    cached_status ''tide'' (receive_batch (two_readings @ [went_dead]) full_disk) = Abnormal"
proof -
  let ?s = "ingest_item (hd two_readings) full_disk"
  have fails: "next_fails (ig_db ?s)" "cached_status ''tide'' ?s = Normal" "logged_status ''tide'' (ig_db ?s) = Some Normal"
    by (simp_all add: two_readings_def full_disk_def idle_station_def empty_client_db_def ingest_item_def Let_def save_value_def
      SaveData_def note_status_def ClientSaveItemStatusLog_def exec_insert_def insert_log_def insert_row_def bindE_def next_fails_def
      reading_time_def cached_status_def map_index_def zero_status_def status_defs logged_status_def item_log_def last_opt_def)
  have dead: "id_Typ (snd went_dead) = MsgData" "id_ItemName (snd went_dead) = ''tide''" "reading_status (snd went_dead) = Abnormal"
    by (simp_all add: went_dead_def reading_status_def)
  have "change_lost went_dead ?s" using fails by (simp add: change_lost_def dead status_defs)
  from lost_change_not_retried [OF this dead(2), of "[went_dead]"]
  have "item_log ''tide'' (ig_db (receive_batch [went_dead, went_dead] ?s)) = item_log ''tide'' (ig_db ?s)"
    "cached_status ''tide'' (receive_batch [went_dead, went_dead] ?s) = Abnormal"
    by (simp_all add: dead)
  moreover have "receive_batch (two_readings @ [went_dead]) full_disk = receive_batch [went_dead, went_dead] ?s"
    by (simp add: receive_batch_def two_readings_def went_dead_def)
  ultimately show ?thesis using fails(3) by (simp add: logged_status_def)
qed

text \<open>
  A subscriber of the station's broker with enough room receives the messages of the ingested
  readings in order; the rows the ingestion appended to the table of a known item are a
  subsequence of those these messages carry (a value whose insert failed is published all the same), and all of them
  when no insert fails.
\<close>

theorem ingest_stream_complete:
  assumes "hears (length (batch_msgs (concat bs) s)) sub s"
  shows "\<exists>ms. sub_Ch (ig_heap (receiveData bs s) sub) = sub_Ch (ig_heap s sub) @ ms \<and>
    (\<forall>n. has_client_table n (ig_db s) \<longrightarrow> (\<exists>rows. table_rows n (ig_db (receiveData bs s)) = table_rows n (ig_db s) @ rows \<and>
       subseq rows (msg_rows n ms) \<and> (cd_faults (ig_db s) = [] \<longrightarrow> rows = msg_rows n ms)))"
  using batch_hears [of "concat bs" s 0 sub] assms batch_rows [of _ s "concat bs"] stored_rows_sent [of _ "concat bs" s]
    stored_rows_no_faults [of s _ "concat bs"]
  by (auto simp: receiveData_concat)

lemma idle_station_hears: "n \<le> 10000 \<Longrightarrow> hears n 7 idle_station"
  by (simp add: hears_def idle_station_def Subscribe_def NewBroker_def NewSubscriber_def)

lemma batch_msgs_bound: "length (batch_msgs xs s) \<le> 2 * length xs"
proof (induction xs arbitrary: s)
  case (Cons x xs)
  have "length (item_msgs x s) \<le> 2"
    by (simp add: item_msgs_def status_msgs_def value_msgs_def split: option.split)
  with Cons [of "ingest_item x s"] show ?case by simp
qed simp

theorem ingest_stream_complete_witness:
  "\<exists>ms. sub_Ch (ig_heap (receiveData [two_readings] idle_station) 7) = ms \<and> msg_rows ''tide'' ms = [(500, 2)]"
proof -
  have "hears (length (batch_msgs (concat [two_readings]) idle_station)) 7 idle_station"
    by (rule idle_station_hears) (use batch_msgs_bound [of two_readings idle_station] in \<open>simp add: two_readings_def\<close>)
  from ingest_stream_complete [OF this] obtain ms where
    ms: "sub_Ch (ig_heap (receiveData [two_readings] idle_station) 7) = ms"
      "table_rows ''tide'' (ig_db (receiveData [two_readings] idle_station)) = msg_rows ''tide'' ms"
    by (auto simp: idle_station_def empty_client_db_def has_client_table_def NewSubscriber_def table_rows_def map_index_def)
  moreover have "table_rows ''tide'' (ig_db (receiveData [two_readings] idle_station)) = [(500, 2)]"
    by (simp add: receiveData_def receive_batch_def two_readings_def ingest_item_def Let_def reading_time_def
      save_value_def SaveData_result insert_row_def next_fails_def table_rows_def map_index_def idle_station_def empty_client_db_def)
      (simp add: next_fails_def no_faults_item)
  ultimately show ?thesis by simp
qed

lemma checked_ready:
  assumes "check_names rejects [] (itemNames (visit devs)) db = (Inr u, db')" "cdb_ok db" "log_alternates db" "log_legal db"
    and "mset (itemNames (visit devs)) = mset (itemNames devs)"
  shows "distinct (itemNames devs) \<and> (\<forall>n \<in> set (itemNames devs). \<not> ContainsIllegalCharacter n \<and> has_client_table n db') \<and>
    ingest_ok \<lparr>ig_db = db', ig_status = load_status (filter (latest_of_item (cd_status_log db')) (cd_status_log db')), ig_heap = h, ig_broker = NewBroker\<rparr>"
proof -
  note names = check_names_ok [OF assms(1)]
  have same: "item_log n db' = item_log n db" for n using names by (simp add: item_log_def)
  have "cdb_ok db'" using preservesD [OF cdb_ok_check_names assms(2)] assms(1) by (metis snd_conv)
  then show ?thesis
    using names assms(3,4) cache_ok_loaded [of db'] mset_eq_setD [OF assms(5)] mset_eq_imp_distinct_iff [OF assms(5)]
    by (simp add: ingest_ok_def same log_alternates_def log_legal_def NewBroker_def)
qed

text \<open>
  When \<open>addDevices\<close> succeeds, in every iteration order, the station reports pairwise distinct
  item names of legal characters, each with a measurement table, and \<open>itemsStatus\<close> mirrors the
  status log, so that ingestion starts from a state that satisfies its invariant.
\<close>

theorem addDevices_ready:
  assumes "addDevices rejects visit subs db = (Inr (info, cache), db')"
    and "cdb_ok db" and "log_alternates db" and "log_legal db"
    and "mset (itemNames (visit info)) = mset (itemNames info)"
  shows "distinct (itemNames info) \<and>
    (\<forall>n \<in> set (itemNames info). \<not> ContainsIllegalCharacter n \<and> has_client_table n db') \<and>
    ingest_ok \<lparr>ig_db = db', ig_status = cache, ig_heap = h, ig_broker = NewBroker\<rparr>"
proof -
  from assms(1) obtain i u db1 where merged: "liftR (merge_all subs []) db = (Inr i, db)"
    and check1: "check_names rejects [] (itemNames (visit i)) db = (Inr u, db1)"
    and status: "bindE GetItemsLatestStatus (\<lambda>ds. retE (i, load_status ds)) db1 = (Inr (info, cache), db')"
    unfolding addDevices_def by (elim bindE_cases) (auto simp: liftR_def bindE_def)
  from status have i: "i = info" "db1 = db'"
    and cache: "cache = load_status (filter (latest_of_item (cd_status_log db')) (cd_status_log db'))"
    by (auto simp: GetItemsLatestStatus_def bindE_def readE_def retE_def)
  show ?thesis unfolding cache by (rule checked_ready [where visit = visit, OF check1 [unfolded i] assms(2-5)])
qed

definition bench_devices :: "string_map_map list" where
  "bench_devices = [[(''gauge'', [(''level'', ''tide'')])], [(''gauge'', [(''temp'', ''water_temp'')])]]"

theorem addDevices_ready_witness:
  "\<exists>cache db'. addDevices (\<lambda>_. False) rev bench_devices empty_client_db =
      (Inr ([(''gauge'', [(''level'', ''tide''), (''temp'', ''water_temp'')])], cache), db') \<and>
    ingest_ok \<lparr>ig_db = db', ig_status = cache, ig_heap = (\<lambda>_. NewSubscriber 1), ig_broker = NewBroker\<rparr>"
proof -
  let ?info = "[(''gauge'', [(''level'', ''tide''), (''temp'', ''water_temp'')])]"
  have run: "addDevices (\<lambda>_. False) rev bench_devices empty_client_db =
      (Inr (?info, []), \<lparr>cd_tables = [(''tide'', []), (''water_temp'', [])], cd_status_log = [], cd_faults = []\<rparr>)"
    by (simp add: addDevices_def bench_devices_def MergeInfo_def itemNames_def empty_client_db_def eff_simps
      ContainsIllegalCharacter_def legal_char_def ClientMakeSureTableExist_def GetItemsLatestStatus_def load_status_def)
  have "mset (itemNames (rev ?info)) = mset (itemNames ?info)" by simp
  moreover have "log_alternates empty_client_db" "log_legal empty_client_db"
    by (simp_all add: log_alternates_def log_legal_def item_log_def empty_client_db_def)
  ultimately show ?thesis
    using addDevices_ready [OF run cdb_ok_empty, of "\<lambda>_. NewSubscriber 1"] run by blast
qed

end
