(* ===== verification/StationProto.thy ===== *)
theory StationProto
  imports Common
begin

text \<open>
  The frames of the station protocol (\<^verbatim>\<open>proto/sync/v2/sync_v2.proto\<close>, package
  \<^verbatim>\<open>tide.sync.v2\<close>) and the message stream both ends use (\<^verbatim>\<open>pkg/pbstream\<close>). The oneof body of a
  frame is a datatype; \<open>EmptyBody\<close> is a frame whose body is not set. The varint framing and the
  protobuf encoding are library code; a stream delivers whole frames or an error.
\<close>

datatype data_kind = DATA_KIND_UNSPECIFIED | DATA_KIND_NORMAL | DATA_KIND_GPIO

record data_point =
  pt_item_name :: string
  pt_value :: float64
  pt_unix_ms :: int
  pt_kind :: data_kind

record item_status_log_msg =
  lm_row_id :: int
  lm_item_name :: string
  lm_status :: status
  lm_changed_at_unix_ms :: int

type_synonym byte = "8 word"

datatype station_message =
    ClientHello string string
  | ServerHello string
  | StationInfoFrame pb_station_info
  | ItemsLatestFrame "(string, int) go_map"
  | StatusLatestFrame int
  | DataBatch bool "data_point list"
  | ItemStatusBatch bool "item_status_log_msg list"
  | RpiStatusFrame float64 int
  | CameraSnapshotRequest string
  | CameraSnapshotResponse "byte list" string
  | ErrorFrame string string bool
  | EmptyBody

section \<open>Message streams\<close>

text \<open>
  \<open>inbox\<close> is what \<open>Recv\<close> will return, frame by frame (an error may come at any point), and the end
  of the list is the end of the connection. \<open>send_results\<close> are the outcomes of the coming \<open>Send\<close>
  calls; once it is used up they succeed.
\<close>

record 'm stream =
  inbox :: "'m result list"
  outbox :: "'m list"
  send_results :: "go_error option list"

definition io_EOF :: go_error where "io_EOF = ErrorString ''EOF''"

definition Recv :: "('m stream, 'm) eff" where
  "Recv s =
     (case inbox s of
        [] \<Rightarrow> (Inl io_EOF, s)
      | r # rs \<Rightarrow> (r, s\<lparr>inbox := rs\<rparr>))"

definition Send :: "'m \<Rightarrow> ('m stream, unit) eff" where
  "Send m s =
     (case send_results s of
        [] \<Rightarrow> (Inr (), s\<lparr>outbox := outbox s @ [m]\<rparr>)
      | None # rs \<Rightarrow> (Inr (), s\<lparr>outbox := outbox s @ [m], send_results := rs\<rparr>)
      | Some e # rs \<Rightarrow> (Inl e, s\<lparr>send_results := rs\<rparr>))"

definition new_stream :: "'m list \<Rightarrow> 'm stream" where
  "new_stream fs = \<lparr>inbox = map Inr fs, outbox = [], send_results = []\<rparr>"

end
