(* ===== verification/StationClient.thy ===== *)
theory StationClient
  imports ClientIngest StationProto
begin

text \<open>
  The station's end of a sync session: \<^verbatim>\<open>tide_client/syncv2\<close> (\<^verbatim>\<open>codec.go\<close>, \<^verbatim>\<open>session.go\<close>,
  \<^verbatim>\<open>client.go\<close>) and its wiring in \<^verbatim>\<open>tide_client/controller/sync_v2.go\<close>.

  The functions a client is given (\<^verbatim>\<open>Deps\<close>) are a record of operations on a state \<open>'s\<close>;
  \<open>station_deps\<close> is the record on the station's own state. A cancelled context makes
  \<open>sendMainFrame\<close> return an error without sending, which is one of the outcomes \<open>send_results\<close>
  lists. What the select of the realtime loop receives, in its order, is the list of events.
\<close>

record 's client_deps =
  dp_StationInfo :: "'s \<Rightarrow> station_info"
  dp_GetDataHistory :: "string \<Rightarrow> int \<Rightarrow> int \<Rightarrow> ('s, data_time list) eff"
  dp_GetItemStatusLogAfter :: "int \<Rightarrow> ('s, row_item_status list) eff"
  dp_Subscribe :: "('s, unit) eff"
  dp_Unsubscribe :: "('s, unit) eff"
  dp_GetCamera :: "string \<Rightarrow> (string \<times> string \<times> string) option"
  dp_Snapshot :: "string \<times> string \<times> string \<Rightarrow> byte list result"

type_synonym 's client_io = "'s \<times> station_message stream"

section \<open>Frames (\<open>codec.go\<close>)\<close>

fun error_text :: "go_error \<Rightarrow> string" where
  "error_text (ErrorString m) = m"
| "error_text (PgError c) = ''ERROR: (SQLSTATE '' @ c @ '')''"
| "error_text (Wrapped m e) = m @ '': '' @ error_text e"

definition unexpectedStationFrameError :: "string \<Rightarrow> go_error" where
  "unexpectedStationFrameError place = ErrorString (''unexpected frame while '' @ place)"

definition buildRealtimeFrame :: "client_msg \<Rightarrow> station_message option" where
  "buildRealtimeFrame msg =
     (if cm_type msg = MsgData \<or> cm_type msg = MsgGpioData then
        (case cm_body msg of
           DataBody item d \<Rightarrow> Some (DataBatch False
             [\<lparr>pt_item_name = item, pt_value = dt_value d, pt_unix_ms = dt_msec d,
               pt_kind = (if cm_type msg = MsgGpioData then DATA_KIND_GPIO else DATA_KIND_NORMAL)\<rparr>])
         | _ \<Rightarrow> None)
      else if cm_type msg = MsgItemStatus then
        (case cm_body msg of
           StatusBody l \<Rightarrow> Some (ItemStatusBatch False
             [\<lparr>lm_row_id = rs_row_id l, lm_item_name = rs_item_name l, lm_status = rs_status l,
               lm_changed_at_unix_ms = rs_changed_at l\<rparr>])
         | _ \<Rightarrow> None)
      else if cm_type msg = MsgRpiStatus then
        (case cm_body msg of RpiBody temp tm \<Rightarrow> Some (RpiStatusFrame temp tm) | _ \<Rightarrow> None)
      else None)"

definition buildSnapshotResponseFrame ::
  "string \<Rightarrow> (string \<Rightarrow> (string \<times> string \<times> string) option) \<Rightarrow> (string \<times> string \<times> string \<Rightarrow> byte list result)
     \<Rightarrow> station_message" where
  "buildSnapshotResponseFrame cameraName getCamera snapshot =
     (if cameraName = [] then CameraSnapshotResponse [] ''camera name is required''
      else case getCamera cameraName of
        None \<Rightarrow> CameraSnapshotResponse [] ''camera not found''
      | Some cam \<Rightarrow>
          (case snapshot cam of
             Inl e \<Rightarrow> CameraSnapshotResponse [] (error_text e)
           | Inr bs \<Rightarrow> CameraSnapshotResponse bs []))"

section \<open>The session (\<open>session.go\<close>)\<close>

definition replayDataBatchSize :: nat where "replayDataBatchSize = 128"

definition sendMainFrame :: "station_message \<Rightarrow> ('s client_io, unit) eff" where
  "sendMainFrame frame = sndE (Send frame)"

text \<open>The loop of \<open>recvLatestFrames\<close> on the coming results of \<open>Recv\<close>; it returns those it has not read.\<close>

fun recv_latest ::
  "bool \<Rightarrow> bool \<Rightarrow> (string, int) go_map \<Rightarrow> int \<Rightarrow> station_message result list
     \<Rightarrow> ((string, int) go_map \<times> int) result \<times> station_message result list" where
  "recv_latest gotItems gotStatus items row [] =
     (if gotItems \<and> gotStatus then (Inr (items, row), []) else (Inl io_EOF, []))"
| "recv_latest gotItems gotStatus items row (r # rs) =
     (if gotItems \<and> gotStatus then (Inr (items, row), r # rs)
      else case r of
        Inl e \<Rightarrow> (Inl e, rs)
      | Inr frame \<Rightarrow>
          (case frame of
             ItemsLatestFrame m \<Rightarrow> recv_latest True gotStatus m row rs
           | StatusLatestFrame r \<Rightarrow> recv_latest gotItems True items r rs
           | ErrorFrame _ msg _ \<Rightarrow> (Inl (ErrorString msg), rs)
           | _ \<Rightarrow> (Inl (unexpectedStationFrameError ''waiting latest state''), rs)))"

definition recvLatestFrames :: "(station_message stream, (string, int) go_map \<times> int) eff" where
  "recvLatestFrames st =
     (case recv_latest False False [] 0 (inbox st) of (r, rs) \<Rightarrow> (r, st\<lparr>inbox := rs\<rparr>))"

text \<open>\<open>points\<close>, the batch under construction, is the second component of the state.\<close>

definition replay_point :: "string \<Rightarrow> data_time \<Rightarrow> ('s client_io \<times> data_point list, unit) eff" where
  "replay_point item d =
     bindE (sndE (modifyE (\<lambda>points. points @ [\<lparr>pt_item_name = item, pt_value = dt_value d,
       pt_unix_ms = dt_msec d, pt_kind = DATA_KIND_NORMAL\<rparr>]))) (\<lambda>_.
     bindE (readE (\<lambda>s. Inr (snd s))) (\<lambda>points.
       if replayDataBatchSize \<le> length points
       then bindE (fstE (sendMainFrame (DataBatch True points))) (\<lambda>_. sndE (modifyE (\<lambda>_. [])))
       else retE ()))"

definition replay_item ::
  "'s client_deps \<Rightarrow> (string, int) go_map \<Rightarrow> string \<Rightarrow> ('s client_io \<times> data_point list, unit) eff" where
  "replay_item deps itemsLatest item =
     bindE (fstE (fstE (dp_GetDataHistory deps item (map_index 0 itemsLatest item) 0))) (\<lambda>ds.
       forE (replay_point item) ds)"

definition replay_rest :: "('s client_io \<times> data_point list, unit) eff" where
  "replay_rest = bindE (readE (\<lambda>s. Inr (snd s))) (\<lambda>points.
     if points = [] then retE () else fstE (sendMainFrame (DataBatch True points)))"

definition sendReplayData :: "'s client_deps \<Rightarrow> station_info \<Rightarrow> (string, int) go_map \<Rightarrow> ('s client_io, unit) eff" where
  "sendReplayData deps info itemsLatest io =
     (case bindE (forE (\<lambda>dv. forE (\<lambda>it. replay_item deps itemsLatest (snd it)) (snd dv)) (si_devices info))
             (\<lambda>_. replay_rest) (io, []) of
        (r, (io', _)) \<Rightarrow> (r, io'))"

definition pb_log :: "row_item_status \<Rightarrow> item_status_log_msg" where
  "pb_log l = \<lparr>lm_row_id = rs_row_id l, lm_item_name = rs_item_name l, lm_status = rs_status l,
     lm_changed_at_unix_ms = rs_changed_at l\<rparr>"

definition sendReplayStatus :: "'s client_deps \<Rightarrow> int \<Rightarrow> ('s client_io, unit) eff" where
  "sendReplayStatus deps latestStatusLogRowID =
     bindE (fstE (dp_GetItemStatusLogAfter deps latestStatusLogRowID)) (\<lambda>logs.
       if logs = [] then retE () else sendMainFrame (ItemStatusBatch True (map pb_log logs)))"

definition forwardRealtimeData :: "client_msg \<Rightarrow> ('s client_io, unit) eff" where
  "forwardRealtimeData msg =
     (case buildRealtimeFrame msg of None \<Rightarrow> retE () | Some frame \<Rightarrow> sendMainFrame frame)"

text \<open>\<open>recvStationFrames\<close>: the error with which reading the main stream ends.\<close>

fun recvStationFrames :: "station_message result list \<Rightarrow> go_error" where
  "recvStationFrames [] = io_EOF"
| "recvStationFrames (Inl e # rs) = e"
| "recvStationFrames (Inr (ErrorFrame c msg b) # rs) = ErrorString msg"
| "recvStationFrames (Inr f # rs) = recvStationFrames rs"

definition handleCommandStream ::
  "'s client_deps \<Rightarrow> go_error option \<Rightarrow> (station_message stream, unit) eff" where
  "handleCommandStream deps ctx =
     (case ctx of
        Some e \<Rightarrow> throwE e
      | None \<Rightarrow> bindE Recv (\<lambda>frame.
          case frame of
            CameraSnapshotRequest name \<Rightarrow> Send (buildSnapshotResponseFrame name (dp_GetCamera deps) (dp_Snapshot deps))
          | ErrorFrame _ msg _ \<Rightarrow> throwE (ErrorString msg)
          | _ \<Rightarrow> throwE (unexpectedStationFrameError ''handling command stream'')))"

definition context_Canceled :: go_error where "context_Canceled = ErrorString ''context canceled''"

text \<open>
  One arm of the \<open>select\<close> each: the context is done, the reader of the main stream ended, the
  command server ended (with the context's error at that time), a value or the close of the
  subscriber's channel.
\<close>

datatype client_event =
    CtxDone go_error
  | RecvEnded go_error
  | CommandEnded go_error "go_error option"
  | FromSubscriber client_msg
  | SubscriberClosed

definition eof_is_nil :: "go_error \<Rightarrow> ('s, unit) eff" where
  "eof_is_nil e = (if errors_is e io_EOF then retE () else throwE e)"

fun realtime_loop :: "client_event list \<Rightarrow> ('s client_io, unit) eff" where
  "realtime_loop [] = throwE (ErrorString ''still running'')"
| "realtime_loop (CtxDone e # evs) = throwE e"
| "realtime_loop (RecvEnded e # evs) = eof_is_nil e"
| "realtime_loop (CommandEnded e ctx # evs) = (case ctx of Some c \<Rightarrow> throwE c | None \<Rightarrow> eof_is_nil e)"
| "realtime_loop (SubscriberClosed # evs) = retE ()"
| "realtime_loop (FromSubscriber msg # evs) =
     bindE (tryE (forwardRealtimeData msg)) (\<lambda>r.
       case r of
         Inl e \<Rightarrow> if errors_is e context_Canceled then retE () else realtime_loop evs
       | Inr _ \<Rightarrow> realtime_loop evs)"

definition ProtocolVersion :: string where "ProtocolVersion = ''v2''"

definition recvServerHello :: "(station_message stream, unit) eff" where
  "recvServerHello = bindE Recv (\<lambda>first.
     case first of ServerHello _ \<Rightarrow> retE () | _ \<Rightarrow> throwE (ErrorString ''expected server_hello''))"

definition runOnConn :: "'s client_deps \<Rightarrow> string \<Rightarrow> client_event list \<Rightarrow> ('s client_io, unit) eff" where
  "runOnConn deps identifier evs =
     bindE (sendMainFrame (ClientHello identifier ProtocolVersion)) (\<lambda>_.
     bindE (sndE recvServerHello) (\<lambda>_.
     bindE (readE (\<lambda>io. Inr (dp_StationInfo deps (fst io)))) (\<lambda>info.
     bindE (sendMainFrame (StationInfoFrame (StationInfoToPB info))) (\<lambda>_.
     bindE (sndE recvLatestFrames) (\<lambda>latest.
     bindE (sendReplayData deps info (fst latest)) (\<lambda>_.
     bindE (sendReplayStatus deps (snd latest)) (\<lambda>_.
     bindE (fstE (dp_Subscribe deps)) (\<lambda>_.
       finallyE (fstE (dp_Unsubscribe deps)) (realtime_loop evs)))))))))"

section \<open>The client (\<open>client.go\<close>)\<close>

definition NewClient :: "string \<Rightarrow> string \<Rightarrow> (string \<times> string) result" where
  "NewClient addr identifier =
     (if addr = [] then Inl (ErrorString ''empty addr'')
      else if identifier = [] then Inl (ErrorString ''empty station identifier'')
      else Inr (addr, identifier))"

text \<open>\<open>upgrade\<close> is the HTTP upgrade: the main stream of the new connection, or an error.\<close>

definition Client_Run ::
  "(string \<Rightarrow> station_message stream result) \<Rightarrow> 's client_deps \<Rightarrow> string \<times> string \<Rightarrow> client_event list
     \<Rightarrow> ('s, station_message list) eff" where
  "Client_Run upgrade deps cfg evs s =
     (case StationURL (fst cfg) of
        Inl e \<Rightarrow> (Inl e, s)
      | Inr url \<Rightarrow>
          (case upgrade url of
             Inl e \<Rightarrow> (Inl e, s)
           | Inr st \<Rightarrow>
               (case runOnConn deps (snd cfg) evs (s, st) of
                  (Inl e, (s', _)) \<Rightarrow> (Inl e, s')
                | (Inr _, (s', st')) \<Rightarrow> (Inr (outbox st'), s'))))"

section \<open>The station's own dependencies (\<open>controller/sync_v2.go\<close>)\<close>

definition on_db :: "'a cdb_op \<Rightarrow> (ingest, 'a) eff" where
  "on_db m s = (case m (ig_db s) of (r, d) \<Rightarrow> (r, s\<lparr>ig_db := d\<rparr>))"

definition subscribe_new :: "sub_id \<Rightarrow> ingest \<Rightarrow> ingest" where
  "subscribe_new sub s = s\<lparr>ig_heap := (ig_heap s)(sub := NewSubscriber 10000), ig_broker := Subscribe sub None (ig_broker s)\<rparr>"

definition station_deps ::
  "station_info \<Rightarrow> sub_id \<Rightarrow> (string \<Rightarrow> (string \<times> string \<times> string) option)
     \<Rightarrow> (string \<times> string \<times> string \<Rightarrow> byte list result) \<Rightarrow> ingest client_deps" where
  "station_deps info sub cameras snapshot =
     \<lparr>dp_StationInfo = (\<lambda>_. info),
      dp_GetDataHistory = (\<lambda>item start end. on_db (ClientGetDataHistory item start end)),
      dp_GetItemStatusLogAfter = (\<lambda>after. on_db (GetItemStatusLogAfter after)),
      dp_Subscribe = modifyE (subscribe_new sub),
      dp_Unsubscribe = modifyE (\<lambda>s. s\<lparr>ig_broker := Unsubscribe sub (ig_broker s)\<rparr>),
      dp_GetCamera = cameras,
      dp_Snapshot = snapshot\<rparr>"


section \<open>Replay\<close>

lemma forE_concat: "forE (\<lambda>x. forE f (g x)) xs = forE f (concat (map g xs))"
  by (induction xs) (simp_all add: forE_append)

lemma forE_map: "forE f (map g xs) = forE (\<lambda>x. f (g x)) xs"
  by (induction xs) simp_all

definition replay_pt :: "string \<Rightarrow> data_time \<Rightarrow> data_point" where
  "replay_pt item d = \<lparr>pt_item_name = item, pt_value = dt_value d, pt_unix_ms = dt_msec d, pt_kind = DATA_KIND_NORMAL\<rparr>"

text \<open>
  \<open>replaying st0 cs pts\<close>: the full batches \<open>cs\<close> have been sent after what \<open>st0\<close> had sent, and with the
  batch under construction they are the points \<open>pts\<close>.
\<close>

definition replaying ::
  "'s \<Rightarrow> station_message stream \<Rightarrow> data_point list \<Rightarrow> 's client_io \<times> data_point list \<Rightarrow> bool" where
  "replaying s st0 pts x \<longleftrightarrow> (\<exists>cs. fst x = (s, st0\<lparr>outbox := outbox st0 @ map (DataBatch True) cs\<rparr>) \<and>
     concat cs @ snd x = pts \<and> (\<forall>c \<in> set cs. length c = replayDataBatchSize) \<and> length (snd x) < replayDataBatchSize)"

lemma Send_ok: "send_results st = [] \<Longrightarrow> Send m st = (Inr (), st\<lparr>outbox := outbox st @ [m]\<rparr>)"
  by (simp add: Send_def)

lemma replaying_point:
  assumes "replaying s st0 pts x" and "send_results st0 = []"
  shows "runs (replay_point item d) x (\<lambda>_. replaying s st0 (pts @ [replay_pt item d]))"
proof -
  obtain io buf where x: "x = (io, buf)" by (cases x)
  from assms x obtain cs where cs: "io = (s, st0\<lparr>outbox := outbox st0 @ map (DataBatch True) cs\<rparr>)"
      "concat cs @ buf = pts" "\<forall>c \<in> set cs. length c = replayDataBatchSize" "length buf < replayDataBatchSize"
    by (auto simp: replaying_def)
  let ?buf = "buf @ [replay_pt item d]"
  show ?thesis
  proof (cases "replayDataBatchSize \<le> length ?buf")
    case True
    let ?io = "(s, st0\<lparr>outbox := outbox st0 @ map (DataBatch True) (cs @ [?buf])\<rparr>)"
    have "replay_point item d x = (Inr (), (?io, []))"
      using True x cs(1) assms(2)
      by (simp add: replay_point_def replay_pt_def eff_simps sendMainFrame_def Send_ok)
    moreover have "replaying s st0 (pts @ [replay_pt item d]) (?io, [])"
      unfolding replaying_def using cs True
      by (intro exI [of _ "cs @ [?buf]"]) (auto simp: replayDataBatchSize_def)
    ultimately show ?thesis by (rule runsI)
  next
    case False
    have "replay_point item d x = (Inr (), (io, ?buf))"
      using False x by (simp add: replay_point_def replay_pt_def eff_simps)
    moreover have "replaying s st0 (pts @ [replay_pt item d]) (io, ?buf)"
      unfolding replaying_def using cs False by auto
    ultimately show ?thesis by (rule runsI)
  qed
qed

lemma replaying_points:
  assumes "replaying s st0 pts x" and "send_results st0 = []"
  shows "runs (forE (replay_point item) ds) x (\<lambda>_. replaying s st0 (pts @ map (replay_pt item) ds))"
  by (rule runs_for [where I = "\<lambda>ds. replaying s st0 (pts @ map (replay_pt item) ds)"])
    (use assms(1) replaying_point [OF _ assms(2)] in \<open>force+\<close>)

text \<open>All the points newer than \<open>latest\<close>, item by item; \<open>hist\<close> reads the history of one item.\<close>

definition all_points ::
  "('s \<Rightarrow> string \<Rightarrow> int \<Rightarrow> data_time list) \<Rightarrow> 's \<Rightarrow> (string, int) go_map \<Rightarrow> string list \<Rightarrow> data_point list" where
  "all_points hist s latest names = concat (map (\<lambda>n. map (replay_pt n) (hist s n (map_index 0 latest n))) names)"

text \<open>
  What the session needs of the history it is given: a read that succeeds for the items the station
  reports and changes nothing.
\<close>

locale replay_source =
  fixes deps :: "'s client_deps"
    and hist :: "'s \<Rightarrow> string \<Rightarrow> int \<Rightarrow> data_time list"
    and logs_after :: "'s \<Rightarrow> int \<Rightarrow> row_item_status list"
    and known :: "'s \<Rightarrow> string \<Rightarrow> bool"
  assumes history_read: "known s n \<Longrightarrow> dp_GetDataHistory deps n start 0 s = (Inr (hist s n start), s)"
    and logs_read: "dp_GetItemStatusLogAfter deps r s = (Inr (logs_after s r), s)"
begin

lemma replaying_items:
  assumes "\<forall>n \<in> set names. known s n" and "send_results st = []"
  shows "runs (forE (replay_item deps latest) names) ((s, st), []) (\<lambda>_. replaying s st (all_points hist s latest names))"
proof (rule runs_for)
  show "replaying s st (all_points hist s latest []) ((s, st), [])"
    by (auto simp: replaying_def all_points_def replayDataBatchSize_def intro!: exI [of _ "[]"])
next
  fix xs n x
  assume x: "replaying s st (all_points hist s latest xs) x" and n: "n \<in> set names"
  let ?ds = "hist s n (map_index 0 latest n)"
  have "fstE (fstE (dp_GetDataHistory deps n (map_index 0 latest n) 0)) x = (Inr ?ds, x)"
    using x n assms(1) by (auto simp: replaying_def fstE_def history_read prod_eq_iff)
  then have "replay_item deps latest n x = forE (replay_point n) ?ds x"
    by (simp add: replay_item_def bindE_Inr)
  moreover have "all_points hist s latest (xs @ [n]) = all_points hist s latest xs @ map (replay_pt n) ?ds"
    by (simp add: all_points_def)
  ultimately show "runs (replay_item deps latest n) x (\<lambda>_. replaying s st (all_points hist s latest (xs @ [n])))"
    using replaying_points [OF x assms(2), of n ?ds] by (simp add: runs_def)
qed

theorem replay_batches:
  assumes "\<forall>n \<in> set (itemNames (si_devices info)). known s n" and "send_results st = []"
  shows "\<exists>cs. sendReplayData deps info latest (s, st) =
      (Inr (), (s, st\<lparr>outbox := outbox st @ map (DataBatch True) cs\<rparr>)) \<and>
    concat cs = all_points hist s latest (itemNames (si_devices info)) \<and>
    (\<forall>c \<in> set cs. c \<noteq> [] \<and> length c \<le> replayDataBatchSize) \<and>
    (\<forall>c \<in> set (butlast cs). length c = replayDataBatchSize)"
proof -
  let ?names = "itemNames (si_devices info)"
  have loop: "forE (\<lambda>dv. forE (\<lambda>it. replay_item deps latest (snd it)) (snd dv)) (si_devices info) =
      forE (replay_item deps latest) ?names"
    by (simp add: forE_map [symmetric] forE_concat itemNames_def case_prod_unfold)
  obtain cs buf where run: "forE (replay_item deps latest) ?names ((s, st), []) =
      (Inr (), ((s, st\<lparr>outbox := outbox st @ map (DataBatch True) cs\<rparr>), buf))"
    and cs: "concat cs @ buf = all_points hist s latest ?names" "\<forall>c \<in> set cs. length c = replayDataBatchSize"
      "length buf < replayDataBatchSize"
    using runsD [OF replaying_items [OF assms, of latest]] by (auto simp: replaying_def)
  have pos: "c \<noteq> []" if "c \<in> set cs" for c
    using that cs(2) by (auto simp: replayDataBatchSize_def)
  show ?thesis
  proof (cases "buf = []")
    case True
    then have "sendReplayData deps info latest (s, st) =
        (Inr (), (s, st\<lparr>outbox := outbox st @ map (DataBatch True) cs\<rparr>))"
      using run by (simp add: sendReplayData_def loop replay_rest_def eff_simps)
    with True cs pos show ?thesis by (intro exI [of _ cs]) (auto dest: in_set_butlastD)
  next
    case False
    then have "sendReplayData deps info latest (s, st) =
        (Inr (), (s, st\<lparr>outbox := outbox st @ map (DataBatch True) (cs @ [buf])\<rparr>))"
      using run assms(2) by (simp add: sendReplayData_def loop replay_rest_def eff_simps sendMainFrame_def Send_ok)
    with False cs pos show ?thesis by (intro exI [of _ "cs @ [buf]"]) auto
  qed
qed

theorem replay_logs:
  assumes "send_results st = []"
  shows "sendReplayStatus deps r (s, st) = (Inr (), (s, st\<lparr>outbox := outbox st @
     (if logs_after s r = [] then [] else [ItemStatusBatch True (map pb_log (logs_after s r))])\<rparr>))"
  using assms by (simp add: sendReplayStatus_def fstE_def logs_read bindE_def retE_def sendMainFrame_def sndE_def Send_ok)

end

section \<open>The station's tables as a replay source\<close>

definition station_hist :: "ingest \<Rightarrow> string \<Rightarrow> int \<Rightarrow> data_time list" where
  "station_hist s n start = map row_data (sort_key fst (filter (\<lambda>r. start < fst r) (table_rows n (ig_db s))))"

definition station_logs :: "ingest \<Rightarrow> int \<Rightarrow> row_item_status list" where
  "station_logs s r = sort_key rs_row_id (filter (\<lambda>l. r < rs_row_id l) (cd_status_log (ig_db s)))"

interpretation station_replay: replay_source "station_deps info sub cameras snapshot" station_hist station_logs
  "\<lambda>s n. has_client_table n (ig_db s)"
  by unfold_locales
    (auto simp: station_deps_def on_db_def ClientGetDataHistory_def GetItemStatusLogAfter_def readE_def
      has_client_table_def station_hist_def station_logs_def table_rows_def map_index_def)

end
