(* ===== verification/ServerDB.thy ===== *)
theory ServerDB
  imports Common
begin

text \<open>
  The server's PostgreSQL tables and the statements of \<^verbatim>\<open>tide_server/db\<close> (\<^verbatim>\<open>common.go\<close>,
  \<^verbatim>\<open>history.go\<close>, \<^verbatim>\<open>item.go\<close>, \<^verbatim>\<open>status.go\<close>, \<^verbatim>\<open>rpi.go\<close>, \<^verbatim>\<open>station.go\<close>, \<^verbatim>\<open>device.go\<close>,
  \<^verbatim>\<open>upstream.go\<close>), with the constraints of \<^verbatim>\<open>tide_server/schema.sql\<close>.

  A table is a finite map from its primary key to the remaining columns; the list order is the
  order in which a query without \<open>order by\<close> happens to return the rows. Primary keys, foreign keys,
  \<open>not null\<close> and \<open>on delete cascade\<close> are those of the schema. A violated constraint, a missing
  table and a name that is no table name are the errors of the model (with their SQLSTATE); a lost
  connection is an error of the abstract stores the handlers run on, not of this model. Item names
  are at most 63 bytes, PostgreSQL's identifier length. Calls to the clock and to the UUID
  generator are arguments of the operations that make them.
\<close>

datatype json = JNull | JBool bool | JNum int | JStr string | JArr "json list" | JObj "(string \<times> json) list"

text \<open>A \<^verbatim>\<open>json.RawMessage\<close>; \<open>None\<close> is the nil slice, which the driver sends as SQL \<open>NULL\<close>.\<close>

type_synonym raw_message = "json option"

record station_row =
  st_identifier :: string
  st_name :: string
  st_ip_addr :: string
  st_location :: json
  st_partner :: json
  st_status :: status
  st_status_changed_at :: unix_ms
  st_cameras :: json
  st_upstream :: bool
  st_deleted_at :: "unix_ms option"

record device_row =
  dev_specs :: json
  dev_last_maintenance :: unix_ms

record item_row =
  it_type :: string
  it_device_name :: string
  it_status :: status
  it_status_changed_at :: unix_ms
  it_available :: "int list"

record device_record_row =
  dr_station_id :: uuid
  dr_device_name :: string
  dr_record :: string
  dr_created_at :: unix_ms
  dr_updated_at :: unix_ms
  dr_upstream_version :: int
  dr_version :: int

record upstream_row =
  up_username :: string
  up_password :: string
  up_url :: string

record status_log_row =
  sl_item_name :: string
  sl_status :: status
  sl_changed_at :: unix_ms

record user_row =
  ur_password_hash :: string
  ur_role :: int
  ur_email :: string
  ur_live_camera :: bool

type_synonym data_table = "(uuid \<times> unix_ms, float64) go_map"

record tide_db =
  stations :: "(uuid, station_row) go_map"
  devices :: "(uuid \<times> string, device_row) go_map"
  items :: "(uuid \<times> string, item_row) go_map"
  device_record :: "(uuid, device_record_row) go_map"
  upstreams :: "(int, upstream_row) go_map"
  upstreams_id_seq :: int
  upstream_stations :: "(int \<times> uuid, unit) go_map"
  users :: "(string, user_row) go_map"
  permissions_item_data :: "(string \<times> uuid \<times> string, unit) go_map"
  permissions_camera_status :: "(string \<times> uuid \<times> string, unit) go_map"
  item_status_log :: "(uuid \<times> int, status_log_row) go_map"
  rpi_status_log :: "(uuid \<times> float64 \<times> unix_ms) list"
  item_tables :: "(string, data_table) go_map"

type_synonym 'a db_op = "(tide_db, 'a) eff"

section \<open>Statements\<close>

definition sql_update :: "('k \<Rightarrow> 'v \<Rightarrow> bool) \<Rightarrow> ('v \<Rightarrow> 'v) \<Rightarrow> ('k, 'v) go_map \<Rightarrow> ('k, 'v) go_map" where
  "sql_update P f t = map (\<lambda>(k, v). (k, if P k v then f v else v)) t"

definition sql_delete :: "('k \<Rightarrow> 'v \<Rightarrow> bool) \<Rightarrow> ('k, 'v) go_map \<Rightarrow> ('k, 'v) go_map" where
  "sql_delete P t = filter (\<lambda>(k, v). \<not> P k v) t"

definition sql_count :: "('k \<Rightarrow> 'v \<Rightarrow> bool) \<Rightarrow> ('k, 'v) go_map \<Rightarrow> int" where
  "sql_count P t = int (length (filter (\<lambda>(k, v). P k v) t))"

definition sql_insert :: "'k \<Rightarrow> 'v \<Rightarrow> ('k, 'v) go_map \<Rightarrow> ('k, 'v) go_map" where
  "sql_insert k v t = (if map_of t k = None then t @ [(k, v)] else t)"

definition unique_violation :: go_error where "unique_violation = PgError ''23505''"
definition foreign_key_violation :: go_error where "foreign_key_violation = PgError ''23503''"
definition not_null_violation :: go_error where "not_null_violation = PgError ''23502''"
definition undefined_table :: go_error where "undefined_table = PgError ''42P01''"
definition undefined_column :: go_error where "undefined_column = PgError ''42703''"
definition syntax_error :: go_error where "syntax_error = PgError ''42601''"
definition ErrNoRows :: go_error where "ErrNoRows = ErrorString ''sql: no rows in result set''"

lemma map_of_sql_update [simp]:
  "map_of (sql_update P f t) k = map_option (\<lambda>v. if P k v then f v else v) (map_of t k)"
  by (induction t) (auto simp: sql_update_def)

lemma map_of_sql_insert [simp]:
  "map_of (sql_insert k v t) k' = (if map_of t k = None \<and> k' = k then Some v else map_of t k')"
  by (auto simp: sql_insert_def map_add_def split: option.split)

lemma map_of_sql_delete:
  "wf_map t \<Longrightarrow> map_of (sql_delete P t) k =
     (case map_of t k of None \<Rightarrow> None | Some v \<Rightarrow> if P k v then None else Some v)"
proof (induction t)
  case Nil
  then show ?case by (simp add: sql_delete_def)
next
  case (Cons x t)
  obtain k' v' where x: "x = (k', v')" by (cases x)
  with Cons.prems have "map_of t k' = None" by (simp add: map_of_eq_None_iff)
  with Cons x show ?case by (auto simp: sql_delete_def)
qed

lemma map_of_delete_key: "map_of (sql_delete (\<lambda>k _. P k) t) k = (if P k then None else map_of t k)"
  by (induction t) (auto simp: sql_delete_def)

lemma keys_sql_update [simp]: "map fst (sql_update P f t) = map fst t"
  by (simp add: sql_update_def comp_def case_prod_unfold)

lemma wf_sql_update [simp]: "wf_map (sql_update P f t) = wf_map t"
  by (simp add: wf_map_def)

lemma wf_sql_delete [simp]: "wf_map t \<Longrightarrow> wf_map (sql_delete P t)"
  by (simp add: wf_map_def sql_delete_def distinct_map_filter)

lemma wf_sql_insert [simp]: "wf_map t \<Longrightarrow> wf_map (sql_insert k v t)"
  by (auto simp: wf_map_def sql_insert_def map_of_eq_None_iff)

lemma sql_count_pos_iff: "0 < sql_count P t \<longleftrightarrow> (\<exists>(k, v) \<in> set t. P k v)"
  by (auto simp: sql_count_def filter_empty_conv length_greater_0_conv simp del: length_greater_0_conv)

section \<open>Table names\<close>

text \<open>
  The key words of PostgreSQL that cannot name a table (reserved, and reserved except for functions
  and types), in lower case.
\<close>

definition sql_keywords :: "string list" where
  "sql_keywords =
     [''all'', ''analyse'', ''analyze'', ''and'', ''any'', ''array'', ''as'', ''asc'', ''asymmetric'',
      ''authorization'', ''binary'', ''both'', ''case'', ''cast'', ''check'', ''collate'', ''collation'',
      ''column'', ''concurrently'', ''constraint'', ''create'', ''cross'', ''current_catalog'',
      ''current_date'', ''current_role'', ''current_schema'', ''current_time'', ''current_timestamp'',
      ''current_user'', ''default'', ''deferrable'', ''desc'', ''distinct'', ''do'', ''else'', ''end'',
      ''except'', ''false'', ''fetch'', ''for'', ''foreign'', ''freeze'', ''from'', ''full'', ''grant'',
      ''group'', ''having'', ''ilike'', ''in'', ''initially'', ''inner'', ''intersect'', ''into'', ''is'',
      ''isnull'', ''join'', ''lateral'', ''leading'', ''left'', ''like'', ''limit'', ''localtime'',
      ''localtimestamp'', ''natural'', ''not'', ''notnull'', ''null'', ''offset'', ''on'', ''only'', ''or'',
      ''order'', ''outer'', ''overlaps'', ''placing'', ''primary'', ''references'', ''returning'', ''right'',
      ''select'', ''session_user'', ''similar'', ''some'', ''symmetric'', ''system_user'', ''table'',
      ''tablesample'', ''then'', ''to'', ''trailing'', ''true'', ''union'', ''unique'', ''user'', ''using'',
      ''variadic'', ''verbose'', ''when'', ''where'', ''window'', ''with'']"

definition sql_table_name :: "string \<Rightarrow> bool" where
  "sql_table_name name \<longleftrightarrow>
     name \<noteq> [] \<and> hd name \<notin> set ''0123456789'' \<and> name \<notin> set sql_keywords"

text \<open>The relations \<^verbatim>\<open>schema.sql\<close> creates.\<close>

definition schema_relations :: "string list" where
  "schema_relations =
     [''stations'', ''devices'', ''items'', ''device_record'', ''upstreams'', ''upstream_stations'',
      ''users'', ''permissions_item_data'', ''permissions_camera_status'', ''item_status_log'',
      ''rpi_status_log'', ''station_info_gloss_all'', ''station_sea_level'']"

text \<open>A statement on the table of an item: the table, or the error the database reports.\<close>

definition item_table :: "string \<Rightarrow> tide_db \<Rightarrow> data_table result" where
  "item_table name db =
     (if \<not> sql_table_name name then Inl syntax_error
      else if name \<in> set schema_relations then Inl undefined_column
      else case map_of (item_tables db) name of None \<Rightarrow> Inl undefined_table | Some t \<Rightarrow> Inr t)"

section \<open>Measurements (\<open>history.go\<close>)\<close>

definition station_rows :: "uuid \<Rightarrow> data_table \<Rightarrow> data_time list" where
  "station_rows sid t = map (\<lambda>((_, ts), v). \<lparr>dt_value = v, dt_msec = ts\<rparr>) (filter (\<lambda>((s, _), _). s = sid) t)"

text \<open>
  The \<open>timestamp\<close> column of a station's rows; of the relations of the schema only
  \<open>rpi_status_log\<close> has the columns \<open>station_id\<close> and \<open>timestamp\<close>.
\<close>

definition item_timestamps :: "uuid \<Rightarrow> string \<Rightarrow> tide_db \<Rightarrow> unix_ms list result" where
  "item_timestamps sid name db =
     (if name = ''rpi_status_log'' then Inr (map (snd \<circ> snd) (filter (\<lambda>r. fst r = sid) (rpi_status_log db)))
      else case item_table name db of Inl e \<Rightarrow> Inl e | Inr t \<Rightarrow> Inr (map dt_msec (station_rows sid t)))"

definition err_evil_table :: "string \<Rightarrow> go_error" where
  "err_evil_table name = ErrorString (''evil table name: '' @ name)"

definition err_illegal_table :: "string \<Rightarrow> go_error" where
  "err_illegal_table name = ErrorString (''Table name contains illegal characters: '' @ name)"

definition max_timestamp :: "unix_ms list \<Rightarrow> unix_ms option" where
  "max_timestamp ts = (if ts = [] then None else Some (Max (set ts)))"

text \<open>The map passed in holds the default of each item; entries with rows are overwritten.\<close>

fun GetItemsLatest :: "uuid \<Rightarrow> (string, unix_ms) go_map \<Rightarrow> (string, unix_ms) go_map db_op" where
  "GetItemsLatest sid [] = retE []"
| "GetItemsLatest sid ((itemName, v) # rest) =
     (if ContainsIllegalCharacter itemName then throwE (err_evil_table itemName)
      else bindE (tryE (readE (item_timestamps sid itemName))) (\<lambda>r.
        case r of
          Inl e \<Rightarrow> if e = undefined_table
                   then bindE (GetItemsLatest sid rest) (\<lambda>m. retE ((itemName, v) # m))
                   else throwE e
        | Inr ts \<Rightarrow> bindE (GetItemsLatest sid rest) (\<lambda>m.
                     retE ((itemName, case max_timestamp ts of None \<Rightarrow> v | Some t \<Rightarrow> t) # m))))"

definition GetDataHistory :: "uuid \<Rightarrow> string \<Rightarrow> unix_ms \<Rightarrow> unix_ms \<Rightarrow> data_time list db_op" where
  "GetDataHistory sid itemName start end =
     (if ContainsIllegalCharacter itemName then throwE (err_illegal_table itemName)
      else bindE (readE (item_table itemName)) (\<lambda>t.
        let rows = sort_key dt_msec (station_rows sid t) in
        if start = 0 \<and> end = 0 then retE (if rows = [] then [] else [last rows])
        else if end = 0 then retE (filter (\<lambda>d. start < dt_msec d) rows)
        else retE (filter (\<lambda>d. start < dt_msec d \<and> dt_msec d < end) rows)))"

definition SaveDataHistory :: "uuid \<Rightarrow> string \<Rightarrow> float64 \<Rightarrow> unix_ms \<Rightarrow> int db_op" where
  "SaveDataHistory sid itemName itemValue tm =
     (if ContainsIllegalCharacter itemName then throwE (err_illegal_table itemName)
      else bindE (readE (item_table itemName)) (\<lambda>t.
        bindE (modifyE (\<lambda>db. db\<lparr>item_tables := AList.update itemName (sql_insert (sid, tm) itemValue t) (item_tables db)\<rparr>))
          (\<lambda>_. retE (if map_of t (sid, tm) = None then 1 else 0))))"

definition GetLatestDataTime :: "uuid \<Rightarrow> string \<Rightarrow> unix_ms db_op" where
  "GetLatestDataTime sid itemName =
     (if ContainsIllegalCharacter itemName then throwE (err_illegal_table itemName)
      else bindE (readE (item_timestamps sid itemName)) (\<lambda>ts.
        retE (case max_timestamp ts of None \<Rightarrow> 0 | Some t \<Rightarrow> t)))"

definition SaveRpiStatus :: "uuid \<Rightarrow> float64 \<Rightarrow> unix_ms \<Rightarrow> unit db_op" where
  "SaveRpiStatus sid cpuTemp t db =
     (if map_of (stations db) sid = None then (Inl foreign_key_violation, db)
      else (Inr (), db\<lparr>rpi_status_log := rpi_status_log db @ [(sid, cpuTemp, t)]\<rparr>))"

section \<open>Status (\<open>status.go\<close>, \<open>common.go\<close>)\<close>

definition UpdateStationStatus :: "uuid \<Rightarrow> status \<Rightarrow> unix_ms \<Rightarrow> int db_op" where
  "UpdateStationStatus sid status changedAt db =
     (let P = (\<lambda>k r. k = sid \<and> (st_status r \<noteq> status \<or> st_status_changed_at r \<noteq> changedAt)) in
      (Inr (sql_count P (stations db)),
       db\<lparr>stations := sql_update P (\<lambda>r. r\<lparr>st_status := status, st_status_changed_at := changedAt\<rparr>) (stations db)\<rparr>))"

definition UpdateItemStatus :: "uuid \<Rightarrow> string \<Rightarrow> status \<Rightarrow> unix_ms \<Rightarrow> int db_op" where
  "UpdateItemStatus sid itemName status changedAt db =
     (let P = (\<lambda>k r. k = (sid, itemName) \<and> (it_status r \<noteq> status \<or> it_status_changed_at r \<noteq> changedAt)) in
      (Inr (sql_count P (items db)),
       db\<lparr>items := sql_update P (\<lambda>r. r\<lparr>it_status := status, it_status_changed_at := changedAt\<rparr>) (items db)\<rparr>))"

definition GetLatestStatusLogRowId :: "uuid \<Rightarrow> int db_op" where
  "GetLatestStatusLogRowId sid =
     readE (\<lambda>db. let ids = [snd k. (k, _) \<leftarrow> item_status_log db, fst k = sid]
                 in Inr (if ids = [] then 0 else Max (set ids)))"

definition SaveItemStatusLog :: "uuid \<Rightarrow> int \<Rightarrow> string \<Rightarrow> status \<Rightarrow> unix_ms \<Rightarrow> int db_op" where
  "SaveItemStatusLog sid rowId itemName status changedAt db =
     (if map_of (item_status_log db) (sid, rowId) \<noteq> None then (Inr 0, db)
      else if map_of (stations db) sid = None then (Inl foreign_key_violation, db)
      else (Inr 1, db\<lparr>item_status_log := sql_insert (sid, rowId)
              \<lparr>sl_item_name = itemName, sl_status = status, sl_changed_at = changedAt\<rparr> (item_status_log db)\<rparr>))"

definition UpdateAndSaveStatusLog :: "uuid \<Rightarrow> int \<Rightarrow> string \<Rightarrow> status \<Rightarrow> unix_ms \<Rightarrow> int db_op" where
  "UpdateAndSaveStatusLog sid rowId itemName status changedAt = txE (
     bindE (SaveItemStatusLog sid rowId itemName status changedAt) (\<lambda>n.
       if 0 < n then bindE (UpdateItemStatus sid itemName status changedAt) (\<lambda>_. retE n) else retE n))"

definition GetItemStatusLogs :: "uuid \<Rightarrow> int \<Rightarrow> row_item_status list db_op" where
  "GetItemStatusLogs sid after =
     readE (\<lambda>db. Inr (map (\<lambda>(k, r). \<lparr>rs_row_id = snd k, rs_item_name = sl_item_name r, rs_status = sl_status r,
                                    rs_changed_at = sl_changed_at r\<rparr>)
       (sort_key (snd \<circ> fst) (filter (\<lambda>(k, _). fst k = sid \<and> after < snd k) (item_status_log db)))))"

definition setAllDisconnected :: "unix_ms \<Rightarrow> unit db_op" where
  "setAllDisconnected now =
     modifyE (\<lambda>db. db\<lparr>stations := sql_update (\<lambda>_ r. \<not> st_upstream r \<and> st_status r \<noteq> Disconnected)
       (\<lambda>r. r\<lparr>st_status := Disconnected, st_status_changed_at := now\<rparr>) (stations db)\<rparr>)"

definition is_upstream_station :: "tide_db \<Rightarrow> uuid \<Rightarrow> bool" where
  "is_upstream_station db sid = (case map_of (stations db) sid of None \<Rightarrow> False | Some r \<Rightarrow> st_upstream r)"

definition setAllNotAvailable :: "unit db_op" where
  "setAllNotAvailable =
     modifyE (\<lambda>db. db\<lparr>items := sql_update (\<lambda>k _. is_upstream_station db (fst k))
       (\<lambda>r. r\<lparr>it_available := []\<rparr>) (items db)\<rparr>)"

definition db_Init :: "unix_ms \<Rightarrow> unit db_op" where
  "db_Init now = bindE (setAllDisconnected now) (\<lambda>_. setAllNotAvailable)"

section \<open>Items (\<open>item.go\<close>)\<close>

record item =
  i_StationId :: uuid
  i_Name :: string
  i_Type :: string
  i_DeviceName :: string
  i_Status :: status
  i_StatusChangedAt :: unix_ms
  i_Available :: bool

definition item_of_row :: "(uuid \<times> string) \<times> item_row \<Rightarrow> item" where
  "item_of_row = (\<lambda>((sid, name), r).
     \<lparr>i_StationId = sid, i_Name = name, i_Type = it_type r, i_DeviceName = it_device_name r,
      i_Status = it_status r, i_StatusChangedAt = it_status_changed_at r, i_Available = (it_available r \<noteq> [])\<rparr>)"

definition GetItems :: "uuid \<Rightarrow> item list db_op" where
  "GetItems stationId =
     readE (\<lambda>db. Inr (map item_of_row (filter (\<lambda>(k, _). stationId = uuid_Nil \<or> fst k = stationId) (items db))))"

definition MakeSureTableExist :: "string \<Rightarrow> unit db_op" where
  "MakeSureTableExist name db =
     (if ContainsIllegalCharacter name then (Inl (err_illegal_table name), db)
      else if \<not> sql_table_name name then (Inl syntax_error, db)
      else if name \<in> set schema_relations \<or> map_of (item_tables db) name \<noteq> None then (Inr (), db)
      else (Inr (), db\<lparr>item_tables := item_tables db @ [(name, [])]\<rparr>))"

text \<open>
  The common table expression \<open>latestStatus\<close>: the newest log entry of the item if it is later than
  the epoch, else the empty status at the epoch.
\<close>

definition item_logs :: "uuid \<Rightarrow> string \<Rightarrow> tide_db \<Rightarrow> ((uuid \<times> int) \<times> status_log_row) list" where
  "item_logs sid name db =
     sort_key (snd \<circ> fst) (filter (\<lambda>(k, r). fst k = sid \<and> sl_item_name r = name) (item_status_log db))"

definition latestStatus :: "uuid \<Rightarrow> string \<Rightarrow> tide_db \<Rightarrow> status \<times> unix_ms" where
  "latestStatus sid name db =
     (let logs = item_logs sid name db in
      if logs \<noteq> [] \<and> 0 < sl_changed_at (snd (last logs))
      then (sl_status (snd (last logs)), sl_changed_at (snd (last logs))) else ([], 0))"

definition new_item_row :: "item \<Rightarrow> int list \<Rightarrow> tide_db \<Rightarrow> item_row" where
  "new_item_row i avail db =
     (let (st, ts) = latestStatus (i_StationId i) (i_Name i) db in
      \<lparr>it_type = i_Type i, it_device_name = i_DeviceName i, it_status = st, it_status_changed_at = ts,
       it_available = avail\<rparr>)"

definition set_item_columns :: "item \<Rightarrow> item_row \<Rightarrow> item_row" where
  "set_item_columns i r = r\<lparr>it_type := i_Type i, it_device_name := i_DeviceName i\<rparr>"

definition EditItem :: "item \<Rightarrow> unit db_op" where
  "EditItem i = bindE (MakeSureTableExist (i_Name i)) (\<lambda>_ db.
     let key = (i_StationId i, i_Name i) in
     if map_of (devices db) (i_StationId i, i_DeviceName i) = None then (Inl foreign_key_violation, db)
     else (Inr (), db\<lparr>items :=
       (case map_of (items db) key of
          None \<Rightarrow> sql_insert key (new_item_row i [0] db) (items db)
        | Some _ \<Rightarrow> sql_update (\<lambda>k _. k = key) (set_item_columns i) (items db))\<rparr>))"

definition SyncItem :: "item \<Rightarrow> int db_op" where
  "SyncItem i db =
     (let key = (i_StationId i, i_Name i);
          fk = map_of (devices db) (i_StationId i, i_DeviceName i) \<noteq> None in
      case map_of (items db) key of
        None \<Rightarrow> if \<not> fk then (Inl foreign_key_violation, db)
                else (Inr 1, db\<lparr>items := sql_insert key (new_item_row i [] db) (items db)\<rparr>)
      | Some r \<Rightarrow>
          if it_type r = i_Type i \<and> it_device_name r = i_DeviceName i then (Inr 0, db)
          else if \<not> fk then (Inl foreign_key_violation, db)
          else (Inr 1, db\<lparr>items := sql_update (\<lambda>k _. k = key) (set_item_columns i) (items db)\<rparr>))"

definition DelItem :: "uuid \<Rightarrow> string \<Rightarrow> int db_op" where
  "DelItem sid name db =
     (Inr (sql_count (\<lambda>k _. k = (sid, name)) (items db)),
      db\<lparr>items := sql_delete (\<lambda>k _. k = (sid, name)) (items db)\<rparr>)"

definition GetAvailableItems :: "station_item list db_op" where
  "GetAvailableItems = readE (\<lambda>db. Inr (map fst (filter (\<lambda>(_, r). it_available r \<noteq> []) (items db))))"

definition addAvailableTx :: "uuid \<Rightarrow> string \<Rightarrow> int \<Rightarrow> tide_db \<Rightarrow> tide_db" where
  "addAvailableTx sid name upstreamId db =
     db\<lparr>items := sql_update (\<lambda>k _. k = (sid, name)) (\<lambda>r. r\<lparr>it_available := List.insert upstreamId (it_available r)\<rparr>) (items db)\<rparr>"

definition removeAvailableTx :: "uuid \<Rightarrow> string \<Rightarrow> int \<Rightarrow> tide_db \<Rightarrow> tide_db" where
  "removeAvailableTx sid name upstreamId db =
     db\<lparr>items := sql_update (\<lambda>k _. k = (sid, name)) (\<lambda>r. r\<lparr>it_available := removeAll upstreamId (it_available r)\<rparr>) (items db)\<rparr>"

definition upstream_has :: "tide_db \<Rightarrow> int \<Rightarrow> uuid \<Rightarrow> bool" where
  "upstream_has db upstreamId sid \<longleftrightarrow> map_of (upstream_stations db) (upstreamId, sid) \<noteq> None"

text \<open>The items the upstream made available so far.\<close>

definition old_available :: "int \<Rightarrow> tide_db \<Rightarrow> station_item list" where
  "old_available upstreamId db =
     map fst (filter (\<lambda>(k, r). upstreamId \<in> set (it_available r) \<and> upstream_has db upstreamId (fst k)) (items db))"

text \<open>One step of the loop over \<open>newAvail\<close>: the state is the remaining \<open>old\<close>, \<open>n\<close> and the tables.\<close>

fun avail_step :: "int \<Rightarrow> station_item \<Rightarrow> station_item list \<times> int \<times> tide_db \<Rightarrow> station_item list \<times> int \<times> tide_db" where
  "avail_step upstreamId (sid, name) (old, n, db) =
     (if (sid, name) \<in> set old then (removeAll (sid, name) old, n, db)
      else (old, n + 1, addAvailableTx sid name upstreamId db))"

definition UpdateAvailableItems :: "int \<Rightarrow> uuid_strings_map \<Rightarrow> int db_op" where
  "UpdateAvailableItems upstreamId newAvail db =
     (let (old, n, db1) = fold (avail_step upstreamId) (uuidStringsMapToTopics newAvail) (old_available upstreamId db, 0, db)
      in (Inr (n + int (length old)), fold (\<lambda>(sid, name). removeAvailableTx sid name upstreamId) old db1))"

definition RemoveAvailableByUpstreamId :: "int \<Rightarrow> unit db_op" where
  "RemoveAvailableByUpstreamId upstreamId =
     modifyE (\<lambda>db. db\<lparr>items := sql_update (\<lambda>k _. upstream_has db upstreamId (fst k))
       (\<lambda>r. r\<lparr>it_available := removeAll upstreamId (it_available r)\<rparr>) (items db)\<rparr>)"

section \<open>Stations (\<open>station.go\<close>)\<close>

record station =
  s_Id :: uuid
  s_Identifier :: string
  s_Name :: string
  s_IpAddr :: string
  s_Location :: raw_message
  s_Partner :: raw_message
  s_Cameras :: raw_message
  s_Status :: status
  s_StatusChangedAt :: unix_ms
  s_Upstream :: bool

definition coalesce_null :: "raw_message \<Rightarrow> json" where
  "coalesce_null r = (case r of None \<Rightarrow> JNull | Some j \<Rightarrow> j)"

definition GetLocalStationIdByIdentifier :: "string \<Rightarrow> uuid db_op" where
  "GetLocalStationIdByIdentifier identifier =
     readE (\<lambda>db. case filter (\<lambda>(_, r). st_identifier r = identifier \<and> \<not> st_upstream r \<and> st_deleted_at r = None) (stations db)
       of [] \<Rightarrow> Inl ErrNoRows | x # _ \<Rightarrow> Inr (fst x))"

definition station_of_row :: "uuid \<times> station_row \<Rightarrow> station" where
  "station_of_row = (\<lambda>(sid, r).
     \<lparr>s_Id = sid, s_Identifier = st_identifier r, s_Name = st_name r, s_IpAddr = st_ip_addr r,
      s_Location = Some (st_location r), s_Partner = Some (st_partner r), s_Cameras = Some (st_cameras r),
      s_Status = st_status r, s_StatusChangedAt = st_status_changed_at r, s_Upstream = st_upstream r\<rparr>)"

definition GetStations :: "station list db_op" where
  "GetStations = readE (\<lambda>db. Inr (map station_of_row (filter (\<lambda>(_, r). st_deleted_at r = None) (stations db))))"

text \<open>The columns an insert into \<open>stations\<close> leaves to their defaults are those of the schema.\<close>

definition new_station_row :: "station \<Rightarrow> json \<Rightarrow> bool \<Rightarrow> station_row" where
  "new_station_row s partner up =
     \<lparr>st_identifier = s_Identifier s, st_name = s_Name s, st_ip_addr = [], st_location = coalesce_null (s_Location s),
      st_partner = partner, st_status = Disconnected, st_status_changed_at = 0, st_cameras = JNull,
      st_upstream = up, st_deleted_at = None\<rparr>"

definition err_same_identifier :: go_error where
  "err_same_identifier = ErrorString ''already has the same identifier''"

definition update_station :: "uuid \<Rightarrow> (station_row \<Rightarrow> station_row) \<Rightarrow> tide_db \<Rightarrow> tide_db" where
  "update_station sid f db = db\<lparr>stations := sql_update (\<lambda>k _. k = sid) f (stations db)\<rparr>"

definition insert_station :: "uuid \<Rightarrow> station_row \<Rightarrow> unit db_op" where
  "insert_station sid r db =
     (if map_of (stations db) sid \<noteq> None then (Inl unique_violation, db)
      else (Inr (), db\<lparr>stations := sql_insert sid r (stations db)\<rparr>))"

text \<open>
  \<open>EditStation\<close> fills in the id and the upstream flag of its argument; the result is the struct the
  caller holds afterwards. \<open>newUUID\<close> is what \<open>uuid.NewUUID\<close> returns.
\<close>

definition create_station :: "uuid result \<Rightarrow> station \<Rightarrow> station db_op" where
  "create_station newUUID s db =
     (case filter (\<lambda>(_, r). st_identifier r = s_Identifier s \<and> \<not> st_upstream r) (stations db) of
        [] \<Rightarrow>
          (case newUUID of
             Inl e \<Rightarrow> (Inl e, db)
           | Inr u \<Rightarrow> bindE (insert_station u (new_station_row s (coalesce_null (s_Partner s)) False))
                       (\<lambda>_. retE (s\<lparr>s_Id := u\<rparr>)) db)
      | (u, r) # _ \<Rightarrow>
          if st_deleted_at r = None then (Inl err_same_identifier, db)
          else (Inr (s\<lparr>s_Id := u\<rparr>),
                update_station u (\<lambda>r. r\<lparr>st_name := s_Name s, st_location := coalesce_null (s_Location s),
                  st_partner := coalesce_null (s_Partner s), st_upstream := False, st_deleted_at := None\<rparr>) db))"

definition modify_station :: "station \<Rightarrow> station db_op" where
  "modify_station s db =
     (case map_of (stations db) (s_Id s) of
        None \<Rightarrow> (Inl ErrNoRows, db)
      | Some r \<Rightarrow>
          (Inr (s\<lparr>s_Upstream := st_upstream r\<rparr>),
           if \<not> st_upstream r
           then update_station (s_Id s) (\<lambda>r. r\<lparr>st_name := s_Name s, st_location := coalesce_null (s_Location s),
                  st_partner := coalesce_null (s_Partner s)\<rparr>) db
           else update_station (s_Id s) (\<lambda>r. r\<lparr>st_name := s_Name s, st_partner := coalesce_null (s_Partner s)\<rparr>) db))"

definition EditStation :: "uuid result \<Rightarrow> station \<Rightarrow> station db_op" where
  "EditStation newUUID s = txE (if s_Id s = uuid_Nil then create_station newUUID s else modify_station s)"

definition insert_upstream_station :: "int \<Rightarrow> uuid \<Rightarrow> unit db_op" where
  "insert_upstream_station upstreamId sid db =
     (if map_of (upstream_stations db) (upstreamId, sid) \<noteq> None then (Inr (), db)
      else if map_of (upstreams db) upstreamId = None \<or> map_of (stations db) sid = None
      then (Inl foreign_key_violation, db)
      else (Inr (), db\<lparr>upstream_stations := sql_insert (upstreamId, sid) () (upstream_stations db)\<rparr>))"

text \<open>The upsert of \<open>SyncStation\<close>: the affected rows, and the new table.\<close>

definition upsert_station :: "station \<Rightarrow> int db_op" where
  "upsert_station s db =
     (let loc = coalesce_null (s_Location s);
          P = (\<lambda>k r. k = s_Id s \<and> (st_location r \<noteq> loc \<or> \<not> st_upstream r \<or> st_deleted_at r \<noteq> None)) in
      case map_of (stations db) (s_Id s) of
        None \<Rightarrow> (Inr 1, db\<lparr>stations := sql_insert (s_Id s) (new_station_row s JNull True) (stations db)\<rparr>)
      | Some _ \<Rightarrow> (Inr (sql_count P (stations db)),
          db\<lparr>stations := sql_update P (\<lambda>r. r\<lparr>st_location := loc, st_upstream := True, st_deleted_at := None\<rparr>) (stations db)\<rparr>))"

definition SyncStation :: "int \<Rightarrow> station \<Rightarrow> int db_op" where
  "SyncStation upstreamId s = txE (
     bindE (upsert_station s) (\<lambda>n. bindE (insert_upstream_station upstreamId (s_Id s)) (\<lambda>_. retE n)))"

definition SyncStationCannotEdit :: "uuid \<Rightarrow> raw_message \<Rightarrow> int db_op" where
  "SyncStationCannotEdit sid cameras db =
     (case cameras of
        None \<Rightarrow> (Inr 0, db)
      | Some c \<Rightarrow>
          (let P = (\<lambda>k r. k = sid \<and> st_cameras r \<noteq> c) in
           (Inr (sql_count P (stations db)), db\<lparr>stations := sql_update P (\<lambda>r. r\<lparr>st_cameras := c\<rparr>) (stations db)\<rparr>)))"

definition EditStationNotSync :: "uuid \<Rightarrow> string \<Rightarrow> unit db_op" where
  "EditStationNotSync sid ip = modifyE (update_station sid (\<lambda>r. r\<lparr>st_ip_addr := ip\<rparr>))"

text \<open>Deleting devices deletes their items; deleting a station deletes what references it.\<close>

definition delete_devices :: "(uuid \<times> string \<Rightarrow> bool) \<Rightarrow> tide_db \<Rightarrow> tide_db" where
  "delete_devices P db =
     db\<lparr>devices := sql_delete (\<lambda>k _. P k) (devices db),
        items := sql_delete (\<lambda>k r. P (fst k, it_device_name r)) (items db)\<rparr>"

definition delete_stations :: "(uuid \<Rightarrow> bool) \<Rightarrow> tide_db \<Rightarrow> tide_db" where
  "delete_stations P db = delete_devices (\<lambda>k. P (fst k))
     (db\<lparr>stations := sql_delete (\<lambda>k _. P k) (stations db),
         device_record := sql_delete (\<lambda>_ r. P (dr_station_id r)) (device_record db),
         upstream_stations := sql_delete (\<lambda>k _. P (snd k)) (upstream_stations db),
         item_status_log := sql_delete (\<lambda>k _. P (fst k)) (item_status_log db),
         rpi_status_log := filter (\<lambda>r. \<not> P (fst r)) (rpi_status_log db)\<rparr>)"

definition DelLocalStation :: "unix_ms \<Rightarrow> uuid \<Rightarrow> int db_op" where
  "DelLocalStation now sid db =
     (let P = (\<lambda>k r. k = sid \<and> \<not> st_upstream r);
          n = sql_count P (stations db);
          db1 = db\<lparr>stations := sql_update P (\<lambda>r. r\<lparr>st_deleted_at := Some now\<rparr>) (stations db)\<rparr> in
      if n = 0 then (Inr n, db)
      else (Inr n, delete_devices (\<lambda>k. fst k = sid)
              (db1\<lparr>items := sql_delete (\<lambda>k _. fst k = sid) (items db1),
                   item_status_log := sql_delete (\<lambda>k _. fst k = sid) (item_status_log db1)\<rparr>)))"

definition station_in_upstreams :: "tide_db \<Rightarrow> uuid \<Rightarrow> bool" where
  "station_in_upstreams db sid \<longleftrightarrow> sid \<in> set (map (snd \<circ> fst) (upstream_stations db))"

definition DelUpstreamStation :: "int \<Rightarrow> uuid \<Rightarrow> int db_op" where
  "DelUpstreamStation upstreamId sid db =
     (let db1 = db\<lparr>upstream_stations := sql_delete (\<lambda>k _. k = (upstreamId, sid)) (upstream_stations db)\<rparr>;
          P = (\<lambda>k. k = sid \<and> \<not> station_in_upstreams db1 k) in
      (Inr (sql_count (\<lambda>k _. P k) (stations db1)), delete_stations P db1))"

section \<open>Devices and device records (\<open>device.go\<close>)\<close>

record device =
  d_StationId :: uuid
  d_Name :: string
  d_Specs :: raw_message
  d_LastMaintenance :: unix_ms

record DeviceRecord =
  r_Id :: uuid
  r_StationId :: uuid
  r_DeviceName :: string
  r_Record :: string
  r_CreatedAt :: unix_ms
  r_UpdatedAt :: unix_ms
  r_Version :: int

definition GetDevices :: "uuid \<Rightarrow> device list db_op" where
  "GetDevices stationId =
     readE (\<lambda>db. Inr (map (\<lambda>(k, r). \<lparr>d_StationId = fst k, d_Name = snd k, d_Specs = Some (dev_specs r),
                                     d_LastMaintenance = dev_last_maintenance r\<rparr>)
       (filter (\<lambda>(k, _). stationId = uuid_Nil \<or> fst k = stationId) (devices db))))"

definition EditDevice :: "device \<Rightarrow> unit db_op" where
  "EditDevice d db =
     (let key = (d_StationId d, d_Name d) in
      if d_Specs d = None \<and> d_LastMaintenance d = 0 then
        (if map_of (devices db) key \<noteq> None then (Inr (), db)
         else if map_of (stations db) (d_StationId d) = None then (Inl foreign_key_violation, db)
         else (Inr (), db\<lparr>devices := sql_insert key \<lparr>dev_specs = JNull, dev_last_maintenance = 0\<rparr> (devices db)\<rparr>))
      else
        (case d_Specs d of
           None \<Rightarrow> if map_of (devices db) key = None then (Inr (), db) else (Inl not_null_violation, db)
         | Some j \<Rightarrow> (Inr (), db\<lparr>devices := sql_update (\<lambda>k _. k = key)
             (\<lambda>r. r\<lparr>dev_specs := j, dev_last_maintenance := d_LastMaintenance d\<rparr>) (devices db)\<rparr>)))"

definition SyncDevice :: "device \<Rightarrow> int db_op" where
  "SyncDevice d db =
     (let key = (d_StationId d, d_Name d) in
      case d_Specs d of
        None \<Rightarrow> (Inl not_null_violation, db)
      | Some j \<Rightarrow>
          (let new = \<lparr>dev_specs = j, dev_last_maintenance = d_LastMaintenance d\<rparr> in
           case map_of (devices db) key of
             None \<Rightarrow> if map_of (stations db) (d_StationId d) = None then (Inl foreign_key_violation, db)
                     else (Inr 1, db\<lparr>devices := sql_insert key new (devices db)\<rparr>)
           | Some r \<Rightarrow> if dev_specs r = j \<and> dev_last_maintenance r = d_LastMaintenance d then (Inr 0, db)
                       else (Inr 1, db\<lparr>devices := sql_update (\<lambda>k _. k = key) (\<lambda>_. new) (devices db)\<rparr>)))"

definition DelDevice :: "uuid \<Rightarrow> string \<Rightarrow> int db_op" where
  "DelDevice sid deviceName db =
     (let P = (\<lambda>k. fst k = sid \<and> (deviceName = [] \<or> snd k = deviceName)) in
      (Inr (sql_count (\<lambda>k _. P k) (devices db)), delete_devices P db))"

definition station_not_deleted :: "tide_db \<Rightarrow> uuid \<Rightarrow> bool" where
  "station_not_deleted db sid = (case map_of (stations db) sid of None \<Rightarrow> False | Some r \<Rightarrow> st_deleted_at r = None)"

definition device_record_of_row :: "uuid \<times> device_record_row \<Rightarrow> DeviceRecord" where
  "device_record_of_row = (\<lambda>(rid, r).
     \<lparr>r_Id = rid, r_StationId = dr_station_id r, r_DeviceName = dr_device_name r, r_Record = dr_record r,
      r_CreatedAt = dr_created_at r, r_UpdatedAt = dr_updated_at r, r_Version = dr_version r\<rparr>)"

definition GetDeviceRecords :: "DeviceRecord list db_op" where
  "GetDeviceRecords =
     readE (\<lambda>db. Inr (map device_record_of_row
       (filter (\<lambda>(_, r). station_not_deleted db (dr_station_id r)) (device_record db))))"

definition new_record_row :: "DeviceRecord \<Rightarrow> unix_ms \<Rightarrow> unix_ms \<Rightarrow> int \<Rightarrow> device_record_row" where
  "new_record_row dr created updated upver =
     \<lparr>dr_station_id = r_StationId dr, dr_device_name = r_DeviceName dr, dr_record = r_Record dr,
      dr_created_at = created, dr_updated_at = updated, dr_upstream_version = upver, dr_version = 1\<rparr>"

definition EditDeviceRecord :: "uuid result \<Rightarrow> unix_ms \<Rightarrow> DeviceRecord \<Rightarrow> DeviceRecord db_op" where
  "EditDeviceRecord newUUID now dr db =
     (if r_Id dr = uuid_Nil then
        (case newUUID of
           Inl e \<Rightarrow> (Inl e, db)
         | Inr u \<Rightarrow>
             if map_of (device_record db) u \<noteq> None then (Inl unique_violation, db)
             else if map_of (stations db) (r_StationId dr) = None then (Inl foreign_key_violation, db)
             else (Inr (dr\<lparr>r_Id := u, r_CreatedAt := now, r_UpdatedAt := now, r_Version := 1\<rparr>),
                   db\<lparr>device_record := sql_insert u (new_record_row dr now now 0) (device_record db)\<rparr>))
      else
        (case map_of (device_record db) (r_Id dr) of
           None \<Rightarrow> (Inl ErrNoRows, db)
         | Some r \<Rightarrow>
             (Inr (dr\<lparr>r_UpdatedAt := now, r_Version := dr_version r + 1\<rparr>),
              db\<lparr>device_record := sql_update (\<lambda>k _. k = r_Id dr)
                (\<lambda>r. r\<lparr>dr_record := r_Record dr, dr_updated_at := now, dr_version := dr_version r + 1\<rparr>) (device_record db)\<rparr>)))"

definition SyncDeviceRecord :: "DeviceRecord \<Rightarrow> int db_op" where
  "SyncDeviceRecord dr db =
     (case map_of (device_record db) (r_Id dr) of
        None \<Rightarrow>
          if map_of (stations db) (r_StationId dr) = None then (Inl foreign_key_violation, db)
          else (Inr 1, db\<lparr>device_record := sql_insert (r_Id dr)
                  (new_record_row dr (r_CreatedAt dr) (r_UpdatedAt dr) (r_Version dr)) (device_record db)\<rparr>)
      | Some r \<Rightarrow>
          if dr_upstream_version r = r_Version dr then (Inr 0, db)
          else (Inr 1, db\<lparr>device_record := sql_update (\<lambda>k _. k = r_Id dr)
                  (\<lambda>r. r\<lparr>dr_record := r_Record dr, dr_updated_at := r_UpdatedAt dr,
                        dr_upstream_version := r_Version dr, dr_version := dr_version r + 1\<rparr>) (device_record db)\<rparr>))"

section \<open>Upstreams (\<open>upstream.go\<close>)\<close>

record upstream =
  u_Id :: int
  u_Username :: string
  u_Password :: string
  u_Url :: string

definition upstream_of_row :: "int \<times> upstream_row \<Rightarrow> upstream" where
  "upstream_of_row = (\<lambda>(i, r). \<lparr>u_Id = i, u_Username = up_username r, u_Password = up_password r, u_Url = up_url r\<rparr>)"

definition row_of_upstream :: "upstream \<Rightarrow> upstream_row" where
  "row_of_upstream u = \<lparr>up_username = u_Username u, up_password = u_Password u, up_url = u_Url u\<rparr>"

definition GetUpstreams :: "upstream list db_op" where
  "GetUpstreams = readE (\<lambda>db. Inr (map upstream_of_row (upstreams db)))"

definition upstream_taken :: "upstream \<Rightarrow> int \<Rightarrow> tide_db \<Rightarrow> bool" where
  "upstream_taken u uid db \<longleftrightarrow>
     (\<exists>(k, r) \<in> set (upstreams db). k \<noteq> uid \<and> up_username r = u_Username u \<and> up_url r = u_Url u)"

text \<open>The sequence behind \<open>serial\<close> advances also when the insert fails.\<close>

definition EditUpstream :: "upstream \<Rightarrow> upstream db_op" where
  "EditUpstream u db =
     (if u_Id u = 0 then
        (let uid = upstreams_id_seq db; db1 = db\<lparr>upstreams_id_seq := uid + 1\<rparr> in
         if upstream_taken u uid db \<or> map_of (upstreams db) uid \<noteq> None then (Inl unique_violation, db1)
         else (Inr (u\<lparr>u_Id := uid\<rparr>), db1\<lparr>upstreams := sql_insert uid (row_of_upstream u) (upstreams db)\<rparr>))
      else if map_of (upstreams db) (u_Id u) \<noteq> None \<and> upstream_taken u (u_Id u) db then (Inl unique_violation, db)
      else (Inr u, db\<lparr>upstreams := sql_update (\<lambda>k _. k = u_Id u) (\<lambda>_. row_of_upstream u) (upstreams db)\<rparr>))"

definition orphan_upstream_stations :: "tide_db \<Rightarrow> uuid list" where
  "orphan_upstream_stations db =
     map fst (filter (\<lambda>(k, r). st_upstream r \<and> \<not> station_in_upstreams db k) (stations db))"

definition DelUpstream :: "int \<Rightarrow> uuid list db_op" where
  "DelUpstream uid db =
     (let db1 = db\<lparr>upstream_stations := sql_delete (\<lambda>k _. fst k = uid) (upstream_stations db)\<rparr>;
          ds = orphan_upstream_stations db1;
          db2 = delete_stations (\<lambda>k. k \<in> set ds) db1 in
      (Inr ds, db2\<lparr>upstreams := sql_delete (\<lambda>k _. k = uid) (upstreams db2),
                   upstream_stations := sql_delete (\<lambda>k _. fst k = uid) (upstream_stations db2)\<rparr>))"

definition GetStationsByUpstreamId :: "int \<Rightarrow> station list db_op" where
  "GetStationsByUpstreamId upId =
     readE (\<lambda>db. Inr (map (\<lambda>x. (station_of_row x)\<lparr>s_Upstream := False\<rparr>)
       (filter (\<lambda>(k, r). upstream_has db upId k \<and> st_deleted_at r = None) (stations db))))"

definition IsUpstreamStation :: "uuid \<Rightarrow> bool db_op" where
  "IsUpstreamStation sid =
     readE (\<lambda>db. case map_of (stations db) sid of None \<Rightarrow> Inl ErrNoRows | Some r \<Rightarrow> Inr (st_upstream r))"

definition GetUpstreamsByStationId :: "uuid \<Rightarrow> upstream list db_op" where
  "GetUpstreamsByStationId sid =
     readE (\<lambda>db. Inr (map upstream_of_row (filter (\<lambda>(k, _). upstream_has db k sid) (upstreams db))))"

record station_full_info =
  sfi_Station :: station
  sfi_Items :: "item list"
  sfi_Devices :: "device list"

fun full_info_loop :: "station list \<Rightarrow> station_full_info list db_op" where
  "full_info_loop [] = retE []"
| "full_info_loop (s # ss) =
     bindE (GetDevices (s_Id s)) (\<lambda>ds. bindE (GetItems (s_Id s)) (\<lambda>is.
       bindE (full_info_loop ss) (\<lambda>rest. retE (\<lparr>sfi_Station = s, sfi_Items = is, sfi_Devices = ds\<rparr> # rest))))"

definition GetStationsFullInfo :: "station_full_info list db_op" where
  "GetStationsFullInfo = bindE GetStations full_info_loop"

end
