(* ===== verification/ServerDBInv.thy ===== *)
theory ServerDBInv
  imports ServerDB
begin

text \<open>
  The invariant of the server's tables: the key and reference constraints of \<^verbatim>\<open>schema.sql\<close>, and two
  facts that no constraint of the database enforces and that the statements maintain: an
  identifier names at most one local station, and every measurement table has a legal name. Every
  operation of \<open>ServerDB\<close> preserves it.
\<close>

definition tables_wf :: "tide_db \<Rightarrow> bool" where
  "tables_wf db \<longleftrightarrow>
     wf_map (stations db) \<and> wf_map (devices db) \<and> wf_map (items db) \<and> wf_map (device_record db) \<and>
     wf_map (upstreams db) \<and> wf_map (upstream_stations db) \<and> wf_map (item_status_log db) \<and> wf_map (item_tables db)"

definition refs_ok :: "tide_db \<Rightarrow> bool" where
  "refs_ok db \<longleftrightarrow>
     (\<forall>sid n. map_of (devices db) (sid, n) \<noteq> None \<longrightarrow> map_of (stations db) sid \<noteq> None) \<and>
     (\<forall>sid n r. map_of (items db) (sid, n) = Some r \<longrightarrow> map_of (devices db) (sid, it_device_name r) \<noteq> None) \<and>
     (\<forall>k r. map_of (device_record db) k = Some r \<longrightarrow> map_of (stations db) (dr_station_id r) \<noteq> None) \<and>
     (\<forall>u sid. map_of (upstream_stations db) (u, sid) \<noteq> None \<longrightarrow>
        map_of (upstreams db) u \<noteq> None \<and> map_of (stations db) sid \<noteq> None) \<and>
     (\<forall>sid n. map_of (item_status_log db) (sid, n) \<noteq> None \<longrightarrow> map_of (stations db) sid \<noteq> None) \<and>
     (\<forall>r \<in> set (rpi_status_log db). map_of (stations db) (fst r) \<noteq> None)"

definition local_identifiers_unique :: "tide_db \<Rightarrow> bool" where
  "local_identifiers_unique db \<longleftrightarrow>
     (\<forall>a b r r'. map_of (stations db) a = Some r \<and> map_of (stations db) b = Some r' \<and>
        \<not> st_upstream r \<and> \<not> st_upstream r' \<and> st_identifier r = st_identifier r' \<longrightarrow> a = b)"

definition item_tables_ok :: "tide_db \<Rightarrow> bool" where
  "item_tables_ok db \<longleftrightarrow>
     (\<forall>name t. map_of (item_tables db) name = Some t \<longrightarrow>
        \<not> ContainsIllegalCharacter name \<and> sql_table_name name \<and> name \<notin> set schema_relations \<and> wf_map t)"

definition db_ok :: "tide_db \<Rightarrow> bool" where
  "db_ok db \<longleftrightarrow> tables_wf db \<and> refs_ok db \<and> local_identifiers_unique db \<and> item_tables_ok db"

lemmas db_ok_defs = db_ok_def tables_wf_def refs_ok_def local_identifiers_unique_def item_tables_ok_def

definition empty_db :: tide_db where
  "empty_db = \<lparr>stations = [], devices = [], items = [], device_record = [], upstreams = [], upstreams_id_seq = 1,
     upstream_stations = [], users = [], permissions_item_data = [], permissions_camera_status = [],
     item_status_log = [], rpi_status_log = [], item_tables = []\<rparr>"

lemma db_ok_empty: "db_ok empty_db"
  by (simp add: db_ok_defs empty_db_def)

section \<open>Preservation\<close>

lemma wf_append_new: "wf_map t \<Longrightarrow> map_of t k = None \<Longrightarrow> wf_map (t @ [(k, v)])"
  by (auto simp: wf_map_def map_of_eq_None_iff)

lemma map_of_append_new: "map_of (t @ [(k, v)]) k' = (case map_of t k' of None \<Rightarrow> if k' = k then Some v else None | Some x \<Rightarrow> Some x)"
  by (induction t) auto

lemma item_table_Inr:
  "item_table name db = Inr t \<Longrightarrow>
     sql_table_name name \<and> name \<notin> set schema_relations \<and> map_of (item_tables db) name = Some t"
  by (simp add: item_table_def split: if_splits option.splits)

lemma preserves_GetItemsLatest [pres]: "preserves P (GetItemsLatest sid m)"
proof (induction m)
  case Nil
  then show ?case by (simp add: pres)
next
  case (Cons x m)
  then show ?case by (cases x) (auto intro!: pres)
qed

lemma preserves_GetDataHistory [pres]: "preserves P (GetDataHistory sid n a b)"
  by (auto simp: GetDataHistory_def Let_def intro!: pres)

lemma preserves_GetLatestDataTime [pres]: "preserves P (GetLatestDataTime sid n)"
  by (auto simp: GetLatestDataTime_def intro!: pres)

lemma db_ok_SaveDataHistory [pres]: "preserves db_ok (SaveDataHistory sid n v t)"
proof (rule preservesI)
  fix db
  assume ok: "db_ok db"
  show "db_ok (snd (SaveDataHistory sid n v t db))"
  proof (cases "item_table n db")
    case (Inl e)
    with ok show ?thesis by (simp add: SaveDataHistory_def eff_simps)
  next
    case (Inr tab)
    with ok show ?thesis
      using item_table_Inr [OF Inr]
      by (auto simp: SaveDataHistory_def eff_simps db_ok_defs split: if_splits)
  qed
qed

lemma db_ok_SaveRpiStatus [pres]: "preserves db_ok (SaveRpiStatus sid c t)"
  by (auto simp: preserves_def SaveRpiStatus_def db_ok_defs)

lemma db_ok_update_stations:
  assumes "db_ok db"
    and "\<And>k r. P k r \<Longrightarrow> st_identifier (f r) = st_identifier r \<and> (st_upstream r \<longrightarrow> st_upstream (f r))"
  shows "db_ok (db\<lparr>stations := sql_update P f (stations db)\<rparr>)"
proof -
  have "local_identifiers_unique (db\<lparr>stations := sql_update P f (stations db)\<rparr>)"
    unfolding local_identifiers_unique_def
  proof (intro allI impI)
    fix a b r r'
    assume *: "map_of (stations (db\<lparr>stations := sql_update P f (stations db)\<rparr>)) a = Some r \<and>
       map_of (stations (db\<lparr>stations := sql_update P f (stations db)\<rparr>)) b = Some r' \<and>
       \<not> st_upstream r \<and> \<not> st_upstream r' \<and> st_identifier r = st_identifier r'"
    then obtain x y where "map_of (stations db) a = Some x" "map_of (stations db) b = Some y"
      "r = (if P a x then f x else x)" "r' = (if P b y then f y else y)" by auto
    with * assms show "a = b"
      by (simp add: db_ok_def local_identifiers_unique_def split: if_splits) metis+
  qed
  with assms(1) show ?thesis
    by (auto simp: db_ok_def tables_wf_def refs_ok_def item_tables_ok_def)
qed

lemma db_ok_update_items:
  assumes "db_ok db" and "\<And>k r. P k r \<Longrightarrow> map_of (items db) k = Some r \<Longrightarrow>
    map_of (devices db) (fst k, it_device_name (f r)) \<noteq> None"
  shows "db_ok (db\<lparr>items := sql_update P f (items db)\<rparr>)"
  using assms by (auto simp: db_ok_defs)

lemma db_ok_update_items_same:
  assumes "db_ok db" and "\<And>r. it_device_name (f r) = it_device_name r"
  shows "db_ok (db\<lparr>items := sql_update P f (items db)\<rparr>)"
  using assms(1) by (rule db_ok_update_items) (use assms in \<open>auto simp: db_ok_def refs_ok_def\<close>)

lemma db_ok_UpdateStationStatus [pres]: "preserves db_ok (UpdateStationStatus sid st t)"
  by (auto simp: preserves_def UpdateStationStatus_def Let_def intro!: db_ok_update_stations)

lemma db_ok_UpdateItemStatus [pres]: "preserves db_ok (UpdateItemStatus sid n st t)"
  by (auto simp: preserves_def UpdateItemStatus_def Let_def intro!: db_ok_update_items_same)

lemma preserves_GetLatestStatusLogRowId [pres]: "preserves P (GetLatestStatusLogRowId sid)"
  by (simp add: GetLatestStatusLogRowId_def pres)

lemma db_ok_SaveItemStatusLog [pres]: "preserves db_ok (SaveItemStatusLog sid r n st t)"
  by (auto simp: preserves_def SaveItemStatusLog_def db_ok_defs) blast

lemma db_ok_UpdateAndSaveStatusLog [pres]: "preserves db_ok (UpdateAndSaveStatusLog sid r n st t)"
  by (auto simp: UpdateAndSaveStatusLog_def intro!: pres)

lemma db_ok_Init [pres]: "preserves db_ok (db_Init now)"
proof -
  have "preserves db_ok (setAllDisconnected now)"
    by (auto simp: preserves_def setAllDisconnected_def modifyE_def intro!: db_ok_update_stations)
  moreover have "preserves db_ok setAllNotAvailable"
    by (auto simp: preserves_def setAllNotAvailable_def modifyE_def intro!: db_ok_update_items_same)
  ultimately show ?thesis by (auto simp: db_Init_def intro!: pres)
qed

lemma preserves_GetItems [pres]: "preserves P (GetItems sid)"
  by (simp add: GetItems_def pres)

lemma db_ok_new_item_table:
  assumes "db_ok db" "map_of (item_tables db) n = None"
    and "\<not> ContainsIllegalCharacter n" "sql_table_name n" "n \<notin> set schema_relations"
  shows "db_ok (db\<lparr>item_tables := item_tables db @ [(n, [])]\<rparr>)"
proof -
  have "item_tables_ok (db\<lparr>item_tables := item_tables db @ [(n, [])]\<rparr>)"
    using assms by (auto simp: db_ok_def item_tables_ok_def map_of_append_new split: option.splits if_splits)
  with assms show ?thesis
    by (simp add: db_ok_def tables_wf_def refs_ok_def local_identifiers_unique_def wf_append_new)
qed

lemma db_ok_MakeSureTableExist [pres]: "preserves db_ok (MakeSureTableExist n)"
  by (simp add: preserves_def MakeSureTableExist_def db_ok_new_item_table)

lemma db_ok_insert_item:
  assumes "db_ok db" and "map_of (devices db) (fst k, it_device_name r) \<noteq> None"
  shows "db_ok (db\<lparr>items := sql_insert k r (items db)\<rparr>)"
  using assms by (auto simp: db_ok_defs)

lemma new_item_row_device [simp]: "it_device_name (new_item_row i av db) = i_DeviceName i"
  by (simp add: new_item_row_def split: prod.split)

lemma set_item_columns_device [simp]: "it_device_name (set_item_columns i r) = i_DeviceName i"
  by (simp add: set_item_columns_def)

lemma db_ok_EditItem [pres]: "preserves db_ok (EditItem i)"
  unfolding EditItem_def
  by (rule preserves_bind [OF db_ok_MakeSureTableExist])
     (auto simp: preserves_def Let_def intro!: db_ok_insert_item db_ok_update_items split: option.split)

lemma db_ok_SyncItem [pres]: "preserves db_ok (SyncItem i)"
  by (auto simp: preserves_def SyncItem_def Let_def intro!: db_ok_insert_item db_ok_update_items split: option.split)

lemma map_of_sql_delete_Some:
  "wf_map t \<Longrightarrow> map_of (sql_delete P t) k = Some v \<longleftrightarrow> map_of t k = Some v \<and> \<not> P k v"
  by (auto simp: map_of_sql_delete split: option.split)

lemma db_ok_DelItem [pres]: "preserves db_ok (DelItem sid n)"
  by (auto simp: preserves_def DelItem_def db_ok_defs map_of_sql_delete_Some)

lemma preserves_GetAvailableItems [pres]: "preserves P GetAvailableItems"
  by (simp add: GetAvailableItems_def pres)

lemma db_ok_addAvailableTx: "db_ok db \<Longrightarrow> db_ok (addAvailableTx sid n u db)"
  by (auto simp: addAvailableTx_def intro!: db_ok_update_items_same)

lemma db_ok_removeAvailableTx: "db_ok db \<Longrightarrow> db_ok (removeAvailableTx sid n u db)"
  by (auto simp: removeAvailableTx_def intro!: db_ok_update_items_same)

lemma db_ok_avail_steps:
  "db_ok (snd (snd s)) \<Longrightarrow> db_ok (snd (snd (fold (avail_step u) xs s)))"
proof (induction xs arbitrary: s)
  case Nil
  then show ?case by simp
next
  case (Cons x xs)
  have "db_ok (snd (snd (avail_step u x s)))"
    using Cons.prems by (cases s; cases x) (auto simp: db_ok_addAvailableTx)
  from Cons.IH [OF this] show ?case by simp
qed

lemma db_ok_remove_steps: "db_ok db \<Longrightarrow> db_ok (fold (\<lambda>(sid, n). removeAvailableTx sid n u) xs db)"
  by (induction xs arbitrary: db) (auto simp: db_ok_removeAvailableTx)

lemma db_ok_UpdateAvailableItems [pres]: "preserves db_ok (UpdateAvailableItems u av)"
proof (rule preservesI)
  fix db
  assume "db_ok db"
  then have "db_ok (snd (snd (fold (avail_step u) (uuidStringsMapToTopics av) (old_available u db, 0, db))))"
    by (simp add: db_ok_avail_steps)
  then show "db_ok (snd (UpdateAvailableItems u av db))"
    by (auto simp: UpdateAvailableItems_def Let_def case_prod_unfold db_ok_remove_steps [unfolded case_prod_unfold])
qed

lemma db_ok_RemoveAvailableByUpstreamId [pres]: "preserves db_ok (RemoveAvailableByUpstreamId u)"
  by (auto simp: preserves_def RemoveAvailableByUpstreamId_def modifyE_def intro!: db_ok_update_items_same)

lemma preserves_station_reads [pres]:
  "preserves P (GetLocalStationIdByIdentifier i)" "preserves P GetStations" "preserves P (IsUpstreamStation sid)"
  "preserves P (GetStationsByUpstreamId u)" "preserves P (GetUpstreamsByStationId sid)" "preserves P GetUpstreams"
  "preserves P (GetDevices sid)" "preserves P GetDeviceRecords" "preserves P (GetItemStatusLogs sid n)"
  by (simp_all add: GetLocalStationIdByIdentifier_def GetStations_def IsUpstreamStation_def
      GetStationsByUpstreamId_def GetUpstreamsByStationId_def GetUpstreams_def GetDevices_def
      GetDeviceRecords_def GetItemStatusLogs_def pres)

lemma preserves_GetStationsFullInfo [pres]: "preserves P GetStationsFullInfo"
proof -
  have "preserves P (full_info_loop ss)" for ss
    by (induction ss) (auto intro!: pres)
  then show ?thesis by (auto simp: GetStationsFullInfo_def intro!: pres)
qed

text \<open>Inserting a station keeps local identifiers unique when no local station has the identifier.\<close>

lemma db_ok_insert_station:
  assumes "db_ok db"
    and "\<not> st_upstream r \<Longrightarrow> \<forall>k r'. map_of (stations db) k = Some r' \<longrightarrow> \<not> st_upstream r' \<longrightarrow> st_identifier r' \<noteq> st_identifier r"
  shows "db_ok (db\<lparr>stations := sql_insert k r (stations db)\<rparr>)"
proof -
  have "local_identifiers_unique (db\<lparr>stations := sql_insert k r (stations db)\<rparr>)"
    using assms by (auto simp: db_ok_def local_identifiers_unique_def) blast
  with assms(1) show ?thesis
    by (auto simp: db_ok_def tables_wf_def refs_ok_def item_tables_ok_def)
qed

lemma db_ok_update_station:
  assumes "db_ok db"
    and "\<And>r. map_of (stations db) sid = Some r \<Longrightarrow> st_identifier (f r) = st_identifier r \<and> (st_upstream r \<longrightarrow> st_upstream (f r))"
  shows "db_ok (update_station sid f db)"
proof -
  have "sql_update (\<lambda>k _. k = sid) f (stations db) =
        sql_update (\<lambda>k r. k = sid \<and> map_of (stations db) sid = Some r) f (stations db)"
    using assms(1) wf_map_map_of_iff [of "stations db" sid]
    by (auto simp: sql_update_def db_ok_def tables_wf_def)
  moreover have "db_ok (db\<lparr>stations := sql_update (\<lambda>k r. k = sid \<and> map_of (stations db) sid = Some r) f (stations db)\<rparr>)"
    using assms by (intro db_ok_update_stations) auto
  ultimately show ?thesis by (simp add: update_station_def)
qed

lemma filter_eq_Nil_map_of:
  "filter P t = [] \<Longrightarrow> map_of t k = Some v \<Longrightarrow> \<not> P (k, v)"
  by (auto simp: filter_empty_conv dest: map_of_SomeD)

lemma filter_Cons_map_of:
  assumes "wf_map t" and "filter P t = (k, v) # xs"
  shows "map_of t k = Some v" and "P (k, v)"
proof -
  have "(k, v) \<in> set (filter P t)" using assms(2) by simp
  then show "map_of t k = Some v" and "P (k, v)" using assms(1) by (auto simp: wf_map_map_of_iff)
qed

lemma db_ok_create_station [pres]: "preserves db_ok (create_station nu s)"
proof (rule preservesI)
  fix db
  assume ok: "db_ok db"
  then have wf: "wf_map (stations db)" by (simp add: db_ok_def tables_wf_def)
  show "db_ok (snd (create_station nu s db))"
  proof (cases "filter (\<lambda>(_, r). st_identifier r = s_Identifier s \<and> \<not> st_upstream r) (stations db)")
    case Nil
    have "\<not> st_upstream r \<Longrightarrow> st_identifier r \<noteq> s_Identifier s" if "map_of (stations db) k = Some r" for k r
      using filter_eq_Nil_map_of [OF Nil that] by simp
    with Nil ok show ?thesis
      by (auto simp: create_station_def insert_station_def eff_simps new_station_row_def
               intro!: db_ok_insert_station split: sum.split)
  next
    case (Cons x xs)
    obtain u r where x: "x = (u, r)" by (cases x)
    with filter_Cons_map_of [OF wf Cons [unfolded x]] have "map_of (stations db) u = Some r" "\<not> st_upstream r"
      by simp_all
    with Cons x ok show ?thesis by (auto simp: create_station_def intro!: db_ok_update_station)
  qed
qed

lemma db_ok_modify_station [pres]: "preserves db_ok (modify_station s)"
  by (auto simp: preserves_def modify_station_def intro!: db_ok_update_station split: option.split)

lemma db_ok_EditStation [pres]: "preserves db_ok (EditStation nu s)"
  by (auto simp: EditStation_def intro!: pres)

lemma db_ok_insert_upstream_station [pres]: "preserves db_ok (insert_upstream_station u sid)"
  by (auto simp: preserves_def insert_upstream_station_def db_ok_defs)

lemma db_ok_upsert_station [pres]: "preserves db_ok (upsert_station s)"
  by (auto simp: preserves_def upsert_station_def Let_def new_station_row_def
           intro!: db_ok_insert_station db_ok_update_stations split: option.split)

lemma db_ok_SyncStation [pres]: "preserves db_ok (SyncStation u s)"
  by (auto simp: SyncStation_def intro!: pres)

lemma db_ok_SyncStationCannotEdit [pres]: "preserves db_ok (SyncStationCannotEdit sid c)"
  by (auto simp: preserves_def SyncStationCannotEdit_def Let_def intro!: db_ok_update_stations split: option.split)

lemma db_ok_EditStationNotSync [pres]: "preserves db_ok (EditStationNotSync sid ip)"
  by (auto simp: preserves_def EditStationNotSync_def modifyE_def intro!: db_ok_update_station)


text \<open>The cascading deletes keep every reference.\<close>

lemma db_ok_delete_devices: "db_ok db \<Longrightarrow> db_ok (delete_devices P db)"
  by (auto simp: delete_devices_def db_ok_defs map_of_sql_delete_Some)

lemma db_ok_delete_items: "db_ok db \<Longrightarrow> db_ok (db\<lparr>items := sql_delete P (items db)\<rparr>)"
  by (auto simp: db_ok_defs map_of_sql_delete_Some)

lemma db_ok_delete_logs: "db_ok db \<Longrightarrow> db_ok (db\<lparr>item_status_log := sql_delete P (item_status_log db)\<rparr>)"
  by (auto simp: db_ok_defs map_of_sql_delete_Some) blast

lemma db_ok_delete_records: "db_ok db \<Longrightarrow> db_ok (db\<lparr>device_record := sql_delete P (device_record db)\<rparr>)"
  by (auto simp: db_ok_defs map_of_sql_delete_Some)

lemma db_ok_delete_rpi: "db_ok db \<Longrightarrow> db_ok (db\<lparr>rpi_status_log := filter P (rpi_status_log db)\<rparr>)"
  by (auto simp: db_ok_defs)

lemma db_ok_delete_upstream_stations:
  "db_ok db \<Longrightarrow> db_ok (db\<lparr>upstream_stations := sql_delete P (upstream_stations db)\<rparr>)"
  by (auto simp: db_ok_defs map_of_sql_delete_Some)

text \<open>A row of \<open>stations\<close> that no other table refers to may go.\<close>

definition references :: "tide_db \<Rightarrow> uuid \<Rightarrow> bool" where
  "references db sid \<longleftrightarrow>
     (\<exists>n. map_of (devices db) (sid, n) \<noteq> None) \<or> (\<exists>k r. map_of (device_record db) k = Some r \<and> dr_station_id r = sid) \<or>
     (\<exists>u. map_of (upstream_stations db) (u, sid) \<noteq> None) \<or> (\<exists>n. map_of (item_status_log db) (sid, n) \<noteq> None) \<or>
     (\<exists>r \<in> set (rpi_status_log db). fst r = sid)"

lemma db_ok_delete_unreferenced:
  assumes ok: "db_ok db" and free: "\<And>sid. references db sid \<Longrightarrow> \<not> P sid"
  shows "db_ok (db\<lparr>stations := sql_delete (\<lambda>k _. P k) (stations db)\<rparr>)" (is "db_ok ?db")
proof -
  have wf: "wf_map (stations db)" using ok by (simp add: db_ok_def tables_wf_def)
  have keep: "map_of (sql_delete (\<lambda>k _. P k) (stations db)) sid \<noteq> None"
    if "references db sid" "map_of (stations db) sid \<noteq> None" for sid
    using free [OF that(1)] that(2) wf by (auto simp: map_of_sql_delete split: option.split)
  have "local_identifiers_unique ?db"
    using ok wf by (auto simp: db_ok_def local_identifiers_unique_def map_of_sql_delete_Some)
  moreover have "refs_ok ?db"
    using ok keep unfolding db_ok_def refs_ok_def references_def by (simp del: not_None_eq) metis
  ultimately show ?thesis using ok by (simp add: db_ok_def tables_wf_def item_tables_ok_def)
qed

lemma db_ok_delete_stations:
  assumes "db_ok db"
  shows "db_ok (delete_stations P db)"
proof -
  let ?db1 = "db\<lparr>device_record := sql_delete (\<lambda>_ r. P (dr_station_id r)) (device_record db)\<rparr>"
  let ?db2 = "?db1\<lparr>upstream_stations := sql_delete (\<lambda>k _. P (snd k)) (upstream_stations ?db1)\<rparr>"
  let ?db3 = "?db2\<lparr>item_status_log := sql_delete (\<lambda>k _. P (fst k)) (item_status_log ?db2)\<rparr>"
  let ?db4 = "?db3\<lparr>rpi_status_log := filter (\<lambda>r. \<not> P (fst r)) (rpi_status_log ?db3)\<rparr>"
  let ?db5 = "delete_devices (\<lambda>k. P (fst k)) ?db4"
  have ok: "db_ok ?db5"
    using assms by (intro db_ok_delete_devices db_ok_delete_rpi db_ok_delete_logs db_ok_delete_upstream_stations
        db_ok_delete_records)
  have free: "\<not> P sid" if "references ?db5 sid" for sid
    using that assms by (auto simp: references_def delete_devices_def map_of_sql_delete_Some db_ok_def tables_wf_def)
  have "delete_stations P db = ?db5\<lparr>stations := sql_delete (\<lambda>k _. P k) (stations ?db5)\<rparr>"
    by (simp add: delete_stations_def delete_devices_def)
  with db_ok_delete_unreferenced [OF ok free] show ?thesis by simp
qed

lemma db_ok_DelUpstreamStation [pres]: "preserves db_ok (DelUpstreamStation u sid)"
  by (simp add: preserves_def DelUpstreamStation_def Let_def db_ok_delete_stations db_ok_delete_upstream_stations)

lemma db_ok_DelLocalStation [pres]: "preserves db_ok (DelLocalStation now sid)"
proof (rule preservesI)
  fix db
  assume ok: "db_ok db"
  let ?P = "\<lambda>k r. k = sid \<and> \<not> st_upstream r"
  let ?db1 = "db\<lparr>stations := sql_update ?P (\<lambda>r. r\<lparr>st_deleted_at := Some now\<rparr>) (stations db)\<rparr>"
  let ?db2 = "?db1\<lparr>items := sql_delete (\<lambda>k _. fst k = sid) (items ?db1),
                   item_status_log := sql_delete (\<lambda>k _. fst k = sid) (item_status_log ?db1)\<rparr>"
  have "db_ok ?db1" using ok by (rule db_ok_update_stations) simp
  from db_ok_delete_logs [OF db_ok_delete_items [OF this]] have "db_ok ?db2" by simp
  then have "db_ok (delete_devices (\<lambda>k. fst k = sid) ?db2)" by (rule db_ok_delete_devices)
  with ok show "db_ok (snd (DelLocalStation now sid db))" by (simp add: DelLocalStation_def Let_def)
qed

lemma db_ok_insert_device:
  assumes "db_ok db" and "map_of (stations db) (fst k) \<noteq> None"
  shows "db_ok (db\<lparr>devices := sql_insert k r (devices db)\<rparr>)"
proof -
  have "refs_ok (db\<lparr>devices := sql_insert k r (devices db)\<rparr>)"
    using assms by (cases k) (auto simp: db_ok_def refs_ok_def)
  with assms show ?thesis by (simp add: db_ok_def tables_wf_def local_identifiers_unique_def item_tables_ok_def)
qed

lemma db_ok_update_devices:
  assumes "db_ok db"
  shows "db_ok (db\<lparr>devices := sql_update P f (devices db)\<rparr>)"
proof -
  have "refs_ok (db\<lparr>devices := sql_update P f (devices db)\<rparr>)"
    using assms by (simp add: db_ok_def refs_ok_def)
  with assms show ?thesis by (simp add: db_ok_def tables_wf_def local_identifiers_unique_def item_tables_ok_def)
qed

lemma db_ok_EditDevice [pres]: "preserves db_ok (EditDevice d)"
  by (auto simp: preserves_def EditDevice_def Let_def
           intro!: db_ok_insert_device db_ok_update_devices split: option.split)

lemma db_ok_SyncDevice [pres]: "preserves db_ok (SyncDevice d)"
  by (auto simp: preserves_def SyncDevice_def Let_def
           intro!: db_ok_insert_device db_ok_update_devices split: option.split)

lemma db_ok_DelDevice [pres]: "preserves db_ok (DelDevice sid n)"
  by (auto simp: preserves_def DelDevice_def Let_def db_ok_delete_devices)

lemma db_ok_insert_record:
  assumes "db_ok db" and "map_of (stations db) (dr_station_id r) \<noteq> None"
  shows "db_ok (db\<lparr>device_record := sql_insert k r (device_record db)\<rparr>)"
  using assms by (auto simp: db_ok_defs)

lemma db_ok_update_record:
  assumes "db_ok db" and "\<And>r. dr_station_id (f r) = dr_station_id r"
  shows "db_ok (db\<lparr>device_record := sql_update P f (device_record db)\<rparr>)"
  using assms by (auto simp: db_ok_defs)

lemma db_ok_EditDeviceRecord [pres]: "preserves db_ok (EditDeviceRecord nu now dr)"
  by (auto simp: preserves_def EditDeviceRecord_def new_record_row_def
           intro!: db_ok_insert_record db_ok_update_record split: sum.split option.split)

lemma db_ok_SyncDeviceRecord [pres]: "preserves db_ok (SyncDeviceRecord dr)"
  by (auto simp: preserves_def SyncDeviceRecord_def new_record_row_def
           intro!: db_ok_insert_record db_ok_update_record split: option.split)

lemma db_ok_upstreams:
  assumes "db_ok db" and "wf_map us" and "\<And>k. map_of (upstreams db) k \<noteq> None \<Longrightarrow> map_of us k \<noteq> None"
  shows "db_ok (db\<lparr>upstreams := us\<rparr>)"
  using assms by (simp add: db_ok_def tables_wf_def local_identifiers_unique_def item_tables_ok_def refs_ok_def)

lemma db_ok_EditUpstream [pres]: "preserves db_ok (EditUpstream u)"
proof -
  have "db_ok db \<Longrightarrow> db_ok (db\<lparr>upstreams_id_seq := n\<rparr>)" and wf: "db_ok db \<Longrightarrow> wf_map (upstreams db)" for db n
    by (simp_all add: db_ok_def tables_wf_def local_identifiers_unique_def item_tables_ok_def refs_ok_def)
  then show ?thesis
    by (auto simp: preserves_def EditUpstream_def Let_def wf intro!: db_ok_upstreams)
qed

lemma db_ok_DelUpstream [pres]: "preserves db_ok (DelUpstream u)"
proof (rule preservesI)
  fix db
  assume ok: "db_ok db"
  let ?db1 = "db\<lparr>upstream_stations := sql_delete (\<lambda>k _. fst k = u) (upstream_stations db)\<rparr>"
  let ?db2 = "delete_stations (\<lambda>k. k \<in> set (orphan_upstream_stations ?db1)) ?db1"
  have "db_ok ?db2" using ok by (intro db_ok_delete_stations db_ok_delete_upstream_stations)
  then have "db_ok (?db2\<lparr>upstreams := sql_delete (\<lambda>k _. k = u) (upstreams ?db2),
                   upstream_stations := sql_delete (\<lambda>k _. fst k = u) (upstream_stations ?db2)\<rparr>)"
    by (auto simp: db_ok_def tables_wf_def refs_ok_def local_identifiers_unique_def item_tables_ok_def map_of_sql_delete_Some)
  then show "db_ok (snd (DelUpstream u db))" by (simp add: DelUpstream_def Let_def)
qed

section \<open>The invariant of the server's tables\<close>

text \<open>
  The empty schema satisfies the table invariant (primary keys, foreign keys, one local station
  per identifier, legally named measurement tables) and every write operation of the database layer
  keeps it, whatever its arguments and also when it returns an error.
\<close>

theorem server_tables_invariant:
  "db_ok empty_db \<and>
   preserves db_ok (db_Init now) \<and>
   preserves db_ok (SaveDataHistory sid name v t) \<and>
   preserves db_ok (SaveRpiStatus sid v t) \<and>
   preserves db_ok (UpdateStationStatus sid status t) \<and>
   preserves db_ok (UpdateItemStatus sid name status t) \<and>
   preserves db_ok (SaveItemStatusLog sid row name status t) \<and>
   preserves db_ok (UpdateAndSaveStatusLog sid row name status t) \<and>
   preserves db_ok (MakeSureTableExist name) \<and>
   preserves db_ok (EditItem i) \<and> preserves db_ok (SyncItem i) \<and> preserves db_ok (DelItem sid name) \<and>
   preserves db_ok (UpdateAvailableItems up avail) \<and> preserves db_ok (RemoveAvailableByUpstreamId up) \<and>
   preserves db_ok (EditStation newUUID s) \<and> preserves db_ok (SyncStation up s) \<and>
   preserves db_ok (SyncStationCannotEdit sid cams) \<and> preserves db_ok (EditStationNotSync sid ip) \<and>
   preserves db_ok (DelLocalStation now sid) \<and> preserves db_ok (DelUpstreamStation up sid) \<and>
   preserves db_ok (EditDevice d) \<and> preserves db_ok (SyncDevice d) \<and> preserves db_ok (DelDevice sid name) \<and>
   preserves db_ok (EditDeviceRecord newUUID now dr) \<and> preserves db_ok (SyncDeviceRecord dr) \<and>
   preserves db_ok (EditUpstream u) \<and> preserves db_ok (DelUpstream up)"
  by (intro conjI db_ok_empty pres)

end
