(* ===== verification/StationServer.thy ===== *)
theory StationServer
  imports StationProto ServerDBInv "HOL-Library.Multiset"
begin

text \<open>
  The server end of a station session: \<^verbatim>\<open>tide_server/syncv2/station\<close> (\<^verbatim>\<open>store.go\<close>,
  \<^verbatim>\<open>store_db.go\<close>, \<^verbatim>\<open>registry.go\<close>, \<^verbatim>\<open>server.go\<close>).

  The Go interfaces \<^verbatim>\<open>Store\<close>, \<^verbatim>\<open>InfoSyncer\<close> and \<^verbatim>\<open>Notifier\<close> are records of operations, so the
  handlers run on any implementation, one whose calls fail included; \<open>DBStore\<close> is the
  implementation on the server's tables. The state of a handler is the store paired with the
  notifier. The nil checks on the server's fields have no counterpart: a record's fields are set.
  \<open>time.Now()\<close> is an argument, and \<open>visit\<close> is the order in which \<^verbatim>\<open>range\<close> walks a map that the
  handler builds itself.
\<close>

record 's station_store =
  StationIDByIdentifier :: "string \<Rightarrow> ('s, uuid) eff"
  SetStationIP :: "uuid \<Rightarrow> string \<Rightarrow> ('s, unit) eff"
  ItemsLatest :: "uuid \<Rightarrow> string_map_map \<Rightarrow> ('s, (string, int) go_map) eff"
  LatestStatusLogRowID :: "uuid \<Rightarrow> ('s, int) eff"
  UpdateStationStatus_op :: "uuid \<Rightarrow> status \<Rightarrow> unix_ms \<Rightarrow> ('s, bool) eff"
  SaveRpiStatus_op :: "uuid \<Rightarrow> float64 \<Rightarrow> unix_ms \<Rightarrow> ('s, unit) eff"
  UpdateItemStatus_op :: "uuid \<Rightarrow> string \<Rightarrow> status \<Rightarrow> unix_ms \<Rightarrow> ('s, bool) eff"
  SaveDataHistory_op :: "uuid \<Rightarrow> string \<Rightarrow> float64 \<Rightarrow> unix_ms \<Rightarrow> ('s, bool) eff"
  SaveItemStatusLog_op :: "uuid \<Rightarrow> int \<Rightarrow> string \<Rightarrow> status \<Rightarrow> unix_ms \<Rightarrow> ('s, bool) eff"
  UpdateAndSaveStatusLog_op :: "uuid \<Rightarrow> int \<Rightarrow> string \<Rightarrow> status \<Rightarrow> unix_ms \<Rightarrow> ('s, bool) eff"

record 'n notifier =
  PublishMissData :: "station_item \<Rightarrow> data_time \<Rightarrow> 'n \<Rightarrow> 'n"
  PublishRealtimeData :: "station_item \<Rightarrow> data_time \<Rightarrow> bool \<Rightarrow> 'n \<Rightarrow> 'n"
  PublishMissItemStatus :: "full_item_status \<Rightarrow> 'n \<Rightarrow> 'n"
  PublishUpdateItemStatus :: "full_item_status \<Rightarrow> 'n \<Rightarrow> 'n"
  PublishStationStatus :: "station_status \<Rightarrow> 'n \<Rightarrow> 'n"

type_synonym ('s, 'n) info_syncer = "uuid \<Rightarrow> station_info \<Rightarrow> ('s \<times> 'n, unit) eff"

record ('s, 'n) station_server =
  srv_Store :: "'s station_store"
  srv_InfoSyncer :: "('s, 'n) info_syncer"
  srv_Notifier :: "'n notifier"

definition notify :: "('n \<Rightarrow> 'n) \<Rightarrow> ('s \<times> 'n, unit) eff" where
  "notify f = sndE (modifyE f)"

section \<open>The store on the server's tables (\<open>store_db.go\<close>)\<close>

text \<open>\<^verbatim>\<open>n > 0\<close> of the affected rows.\<close>

definition changedE :: "('s, int) eff \<Rightarrow> ('s, bool) eff" where
  "changedE m = bindE m (\<lambda>n. retE (0 < n))"

definition zero_items :: "string_map_map \<Rightarrow> (string, unix_ms) go_map" where
  "zero_items devs = fold (\<lambda>name m. AList.update name 0 m) (concat (map (\<lambda>(_, its). map snd its) devs)) []"

definition DBStore_ItemsLatest :: "uuid \<Rightarrow> string_map_map \<Rightarrow> (string, int) go_map db_op" where
  "DBStore_ItemsLatest sid devs = GetItemsLatest sid (zero_items devs)"

definition DBStore :: "tide_db station_store" where
  "DBStore =
     \<lparr>StationIDByIdentifier = GetLocalStationIdByIdentifier,
      SetStationIP = EditStationNotSync,
      ItemsLatest = DBStore_ItemsLatest,
      LatestStatusLogRowID = GetLatestStatusLogRowId,
      UpdateStationStatus_op = (\<lambda>sid st t. changedE (UpdateStationStatus sid st t)),
      SaveRpiStatus_op = SaveRpiStatus,
      UpdateItemStatus_op = (\<lambda>sid n st t. changedE (UpdateItemStatus sid n st t)),
      SaveDataHistory_op = (\<lambda>sid n v t. changedE (SaveDataHistory sid n v t)),
      SaveItemStatusLog_op = (\<lambda>sid r n st t. changedE (SaveItemStatusLog sid r n st t)),
      UpdateAndSaveStatusLog_op = (\<lambda>sid r n st t. changedE (UpdateAndSaveStatusLog sid r n st t))\<rparr>"

section \<open>Handlers (\<open>server.go\<close>)\<close>

definition data_point_step ::
  "'s station_store \<Rightarrow> 'n notifier \<Rightarrow> uuid \<Rightarrow> bool \<Rightarrow> data_point \<Rightarrow> ('s \<times> 'n, unit) eff" where
  "data_point_step st nt sid replay point =
     (let tm = pt_unix_ms point; item = pt_item_name point; gpio = (pt_kind point = DATA_KIND_GPIO) in
      bindE (if gpio then ignoreE (fstE (UpdateItemStatus_op st sid item NoStatus tm)) else retE ()) (\<lambda>_.
      bindE (fstE (SaveDataHistory_op st sid item (pt_value point) tm)) (\<lambda>inserted.
        if \<not> inserted then retE ()
        else let data = \<lparr>dt_value = pt_value point, dt_msec = tm\<rparr> in
             if replay then notify (PublishMissData nt (sid, item) data)
             else notify (PublishRealtimeData nt (sid, item) data gpio))))"

definition handleDataBatch ::
  "'s station_store \<Rightarrow> 'n notifier \<Rightarrow> uuid \<Rightarrow> bool \<Rightarrow> data_point list \<Rightarrow> ('s \<times> 'n, unit) eff" where
  "handleDataBatch st nt sid replay points = forE (data_point_step st nt sid replay) points"

definition pbToItemStatusLog :: "item_status_log_msg \<Rightarrow> row_item_status" where
  "pbToItemStatusLog msg =
     \<lparr>rs_row_id = lm_row_id msg, rs_item_name = lm_item_name msg, rs_status = lm_status msg,
      rs_changed_at = lm_changed_at_unix_ms msg\<rparr>"

definition full_status :: "uuid \<Rightarrow> string \<Rightarrow> row_item_status \<Rightarrow> full_item_status" where
  "full_status sid identifier l = \<lparr>fs_station_id = sid, fs_identifier = identifier, fs_row = l\<rparr>"

definition latestByItem :: "item_status_log_msg list \<Rightarrow> (string, row_item_status) go_map" where
  "latestByItem logs = fold (\<lambda>msg m. AList.update (lm_item_name msg) (pbToItemStatusLog msg) m) logs []"

definition replay_update_step ::
  "'s station_store \<Rightarrow> uuid \<Rightarrow> string \<times> row_item_status \<Rightarrow> ('s \<times> 'n, unit) eff" where
  "replay_update_step st sid kv =
     (let v = snd kv in
      bindE (fstE (UpdateItemStatus_op st sid (rs_item_name v) (rs_status v) (rs_changed_at v))) (\<lambda>_. retE ()))"

definition replay_log_step ::
  "'s station_store \<Rightarrow> 'n notifier \<Rightarrow> uuid \<Rightarrow> string \<Rightarrow> item_status_log_msg \<Rightarrow> ('s \<times> 'n, unit) eff" where
  "replay_log_step st nt sid identifier msg =
     (let l = pbToItemStatusLog msg in
      bindE (fstE (SaveItemStatusLog_op st sid (rs_row_id l) (rs_item_name l) (rs_status l) (rs_changed_at l))) (\<lambda>inserted.
        if inserted then notify (PublishMissItemStatus nt (full_status sid identifier l)) else retE ()))"

definition status_log_step ::
  "'s station_store \<Rightarrow> 'n notifier \<Rightarrow> uuid \<Rightarrow> string \<Rightarrow> item_status_log_msg \<Rightarrow> ('s \<times> 'n, unit) eff" where
  "status_log_step st nt sid identifier msg =
     (let l = pbToItemStatusLog msg in
      bindE (fstE (UpdateAndSaveStatusLog_op st sid (rs_row_id l) (rs_item_name l) (rs_status l) (rs_changed_at l))) (\<lambda>inserted.
        if inserted then notify (PublishUpdateItemStatus nt (full_status sid identifier l)) else retE ()))"

type_synonym visit_order = "(string, row_item_status) go_map \<Rightarrow> (string, row_item_status) go_map"

definition handleItemStatusBatch ::
  "visit_order \<Rightarrow> 's station_store \<Rightarrow> 'n notifier \<Rightarrow> uuid \<Rightarrow> string \<Rightarrow> bool \<Rightarrow> item_status_log_msg list
     \<Rightarrow> ('s \<times> 'n, unit) eff" where
  "handleItemStatusBatch visit st nt sid identifier replay logs =
     (if replay then
        bindE (forE (replay_update_step st sid) (visit (latestByItem logs))) (\<lambda>_.
          forE (replay_log_step st nt sid identifier) logs)
      else forE (status_log_step st nt sid identifier) logs)"

definition updateStationStatusAndNotify ::
  "'s station_store \<Rightarrow> 'n notifier \<Rightarrow> unix_ms \<Rightarrow> uuid \<Rightarrow> string \<Rightarrow> status \<Rightarrow> ('s \<times> 'n, unit) eff" where
  "updateStationStatusAndNotify st nt now sid identifier status =
     bindE (fstE (UpdateStationStatus_op st sid status now)) (\<lambda>changed.
       if changed then notify (PublishStationStatus nt
         \<lparr>ss_station_id = sid, ss_identifier = identifier, ss_status = status, ss_changed_at = now\<rparr>)
       else retE ())"

definition station_frame ::
  "visit_order \<Rightarrow> ('s, 'n) station_server \<Rightarrow> uuid \<Rightarrow> string \<Rightarrow> station_message \<Rightarrow> ('s \<times> 'n, unit) eff" where
  "station_frame visit s sid identifier frame =
     (case frame of
        DataBatch replay points \<Rightarrow> handleDataBatch (srv_Store s) (srv_Notifier s) sid replay points
      | ItemStatusBatch replay logs \<Rightarrow>
          handleItemStatusBatch visit (srv_Store s) (srv_Notifier s) sid identifier replay logs
      | RpiStatusFrame temp tm \<Rightarrow> fstE (SaveRpiStatus_op (srv_Store s) sid temp tm)
      | StationInfoFrame info \<Rightarrow> srv_InfoSyncer s sid (PBToStationInfo info)
      | _ \<Rightarrow> retE ())"

text \<open>The receive loop; it ends with the error of \<open>Recv\<close> or of a handler.\<close>

fun station_loop ::
  "visit_order \<Rightarrow> ('s, 'n) station_server \<Rightarrow> uuid \<Rightarrow> string \<Rightarrow> station_message result list \<Rightarrow> ('s \<times> 'n, unit) eff" where
  "station_loop visit s sid identifier [] = throwE io_EOF"
| "station_loop visit s sid identifier (Inl e # rs) = throwE e"
| "station_loop visit s sid identifier (Inr frame # rs) =
     bindE (station_frame visit s sid identifier frame) (\<lambda>_. station_loop visit s sid identifier rs)"

section \<open>Sessions (\<open>registry.go\<close>, \<open>server.go\<close>)\<close>

text \<open>The registry maps a station to its live connection; \<open>'c\<close> is the connection.\<close>

type_synonym 'c registry = "(uuid, 'c) go_map"
type_synonym ('s, 'n, 'c) server_state = "('s \<times> 'n) \<times> 'c registry"
type_synonym ('s, 'n, 'c) session_state = "('s, 'n, 'c) server_state \<times> station_message stream"

definition reg_Load :: "uuid \<Rightarrow> 'c registry \<Rightarrow> 'c option" where
  "reg_Load sid reg = map_of reg sid"

definition reg_LoadOrStore :: "uuid \<Rightarrow> 'c \<Rightarrow> ('c registry, bool) eff" where
  "reg_LoadOrStore sid conn reg =
     (case map_of reg sid of
        Some _ \<Rightarrow> (Inr True, reg)
      | None \<Rightarrow> (Inr False, AList.update sid conn reg))"

definition reg_Delete :: "uuid \<Rightarrow> ('c registry, unit) eff" where
  "reg_Delete sid = modifyE (AList.delete sid)"

definition err_first_frame :: go_error where "err_first_frame = ErrorString ''first frame must be client_hello''"
definition err_identifier_required :: go_error where "err_identifier_required = ErrorString ''station_identifier is required''"
definition err_second_frame :: go_error where "err_second_frame = ErrorString ''second frame must be station_info''"
definition err_station_info :: go_error where "err_station_info = ErrorString ''invalid station_info content''"
definition err_already_connected :: go_error where "err_already_connected = ErrorString ''station already connected''"
definition err_identifier_mismatch :: go_error where "err_identifier_mismatch = ErrorString ''station identifier mismatch''"

definition recvHello :: "(station_message stream, string) eff" where
  "recvHello = bindE Recv (\<lambda>first.
     case first of
       ClientHello identifier _ \<Rightarrow>
         if TrimSpace identifier = [] then throwE err_identifier_required else retE identifier
     | _ \<Rightarrow> throwE err_first_frame)"

definition recvStationInfo :: "(station_message stream, station_info) eff" where
  "recvStationInfo = bindE Recv (\<lambda>first.
     case first of
       StationInfoFrame info \<Rightarrow>
         (let ret = PBToStationInfo info in
          if si_identifier ret = [] \<or> si_devices ret = [] then throwE err_station_info else retE ret)
     | _ \<Rightarrow> throwE err_second_frame)"

text \<open>A call on the store, on the store and the notifier, on the registry, on the stream.\<close>

abbreviation storeE :: "('s, 'a) eff \<Rightarrow> (('s, 'n, 'c) session_state, 'a) eff" where
  "storeE m \<equiv> fstE (fstE (fstE m))"
abbreviation servE :: "('s \<times> 'n, 'a) eff \<Rightarrow> (('s, 'n, 'c) session_state, 'a) eff" where
  "servE m \<equiv> fstE (fstE m)"
abbreviation regE :: "('c registry, 'a) eff \<Rightarrow> (('s, 'n, 'c) session_state, 'a) eff" where
  "regE m \<equiv> fstE (sndE m)"

text \<open>What follows a successful handshake, up to the receive loop.\<close>

definition station_serve ::
  "visit_order \<Rightarrow> ('s, 'n) station_server \<Rightarrow> unix_ms \<Rightarrow> string \<Rightarrow> uuid \<Rightarrow> station_info
     \<Rightarrow> (('s, 'n, 'c) session_state, unit) eff" where
  "station_serve visit s now remoteAddr sid info =
     bindE (servE (updateStationStatusAndNotify (srv_Store s) (srv_Notifier s) now sid (si_identifier info) Normal)) (\<lambda>_.
     bindE (wrapE ''failed to update station ip'' (storeE (SetStationIP (srv_Store s) sid remoteAddr))) (\<lambda>_.
     bindE (servE (srv_InfoSyncer s sid info)) (\<lambda>_.
     bindE (wrapE ''failed to get item latest'' (storeE (ItemsLatest (srv_Store s) sid (si_devices info)))) (\<lambda>itemsLatest.
     bindE (sndE (Send (ItemsLatestFrame itemsLatest))) (\<lambda>_.
     bindE (wrapE ''failed to get latest status row id'' (storeE (LatestStatusLogRowID (srv_Store s) sid))) (\<lambda>row.
     bindE (sndE (Send (StatusLatestFrame row))) (\<lambda>_ st.
       servE (station_loop visit s sid (si_identifier info) (inbox (snd st))) st)))))))"

text \<open>What a session does once it is in the registry, the deferred status update included.\<close>

definition registered_part ::
  "visit_order \<Rightarrow> ('s, 'n) station_server \<Rightarrow> unix_ms \<Rightarrow> unix_ms \<Rightarrow> string \<Rightarrow> string \<Rightarrow> uuid
     \<Rightarrow> (('s, 'n, 'c) session_state, unit) eff" where
  "registered_part visit s now_connect now_end remoteAddr identifier sid =
     bindE (sndE (Send (ServerHello ''sync-v2''))) (\<lambda>_.
     bindE (sndE recvStationInfo) (\<lambda>info.
       if si_identifier info \<noteq> identifier then throwE err_identifier_mismatch
       else finallyE (ignoreE (servE (updateStationStatusAndNotify (srv_Store s) (srv_Notifier s) now_end sid
                         (si_identifier info) Disconnected)))
              (station_serve visit s now_connect remoteAddr sid info)))"

definition StreamStation ::
  "visit_order \<Rightarrow> ('s, 'n) station_server \<Rightarrow> unix_ms \<Rightarrow> unix_ms \<Rightarrow> 'c \<Rightarrow> string \<Rightarrow> (('s, 'n, 'c) session_state, unit) eff" where
  "StreamStation visit s now_connect now_end conn remoteAddr =
     bindE (sndE recvHello) (\<lambda>identifier.
     bindE (wrapE ''station not found'' (storeE (StationIDByIdentifier (srv_Store s) identifier))) (\<lambda>sid.
     bindE (regE (reg_LoadOrStore sid conn)) (\<lambda>loaded.
       if loaded then throwE err_already_connected
       else finallyE (regE (reg_Delete sid)) (registered_part visit s now_connect now_end remoteAddr identifier sid))))"

section \<open>Snapshots on demand\<close>

definition ErrStationNotConnected :: go_error where "ErrStationNotConnected = ErrorString ''station not connected''"

text \<open>
  What the \<open>select\<close> of \<open>requestSnapshot\<close> gets first: the session ended, the timer fired, or the
  result of \<open>Recv\<close> on the command stream.
\<close>

datatype snapshot_event = ConnDone | TimedOut | Received "station_message result"

definition snapshot_result :: "snapshot_event \<Rightarrow> byte list result" where
  "snapshot_result ev =
     (case ev of
        ConnDone \<Rightarrow> Inl (ErrorString ''station connection closed'')
      | TimedOut \<Rightarrow> Inl (ErrorString ''context deadline exceeded'')
      | Received (Inl e) \<Rightarrow> if errors_is e io_EOF then Inl (ErrorString ''snapshot stream closed'') else Inl e
      | Received (Inr (CameraSnapshotResponse data err)) \<Rightarrow>
          if err \<noteq> [] then Inl (ErrorString err)
          else if data = [] then Inl (ErrorString ''empty snapshot'') else Inr data
      | Received (Inr _) \<Rightarrow> Inl (ErrorString ''expected camera_snapshot_response''))"

text \<open>
  \<open>open_stream\<close> is the connection's \<open>openCommandStream\<close>: the command stream it opens, or an error;
  \<open>wait\<close> is the event the \<open>select\<close> gets once the request is sent.
\<close>

definition requestSnapshot ::
  "station_message stream result \<Rightarrow> (station_message stream \<Rightarrow> snapshot_event) \<Rightarrow> string \<Rightarrow> byte list result" where
  "requestSnapshot open_stream wait cameraName =
     (case open_stream of
        Inl e \<Rightarrow> Inl e
      | Inr cmd \<Rightarrow>
          (case Send (CameraSnapshotRequest cameraName) cmd of
             (Inl e, _) \<Rightarrow> Inl e
           | (Inr _, cmd') \<Rightarrow> snapshot_result (wait cmd')))"

definition RequestSnapshot ::
  "'c registry \<Rightarrow> ('c \<Rightarrow> station_message stream result) \<Rightarrow> (station_message stream \<Rightarrow> snapshot_event) \<Rightarrow> uuid \<Rightarrow> string
     \<Rightarrow> byte list result" where
  "RequestSnapshot reg open_stream wait sid cameraName =
     (if TrimSpace cameraName = [] then Inl (ErrorString ''empty camera name'')
      else case reg_Load sid reg of
             None \<Rightarrow> Inl ErrStationNotConnected
           | Some conn \<Rightarrow> requestSnapshot (open_stream conn) wait cameraName)"

end
