(* ===== verification/StationHistory.thy ===== *)
theory StationHistory
  imports StationServer
begin

text \<open>
  What a station session does to the measurement history: the contract of a store (\<open>history_store\<close>),
  the exactly-once behaviour of \<open>handleDataBatch\<close> on every such store, and the interpretation on the
  server's tables.
\<close>

section \<open>A notifier that records what is published\<close>

datatype station_event =
    MissDataEvent station_item data_time
  | RealtimeDataEvent station_item data_time bool
  | MissItemStatusEvent full_item_status
  | UpdateItemStatusEvent full_item_status
  | StationStatusEvent station_status

definition event_notifier :: "station_event list notifier" where
  "event_notifier =
     \<lparr>PublishMissData = (\<lambda>k d evs. evs @ [MissDataEvent k d]),
      PublishRealtimeData = (\<lambda>k d g evs. evs @ [RealtimeDataEvent k d g]),
      PublishMissItemStatus = (\<lambda>f evs. evs @ [MissItemStatusEvent f]),
      PublishUpdateItemStatus = (\<lambda>f evs. evs @ [UpdateItemStatusEvent f]),
      PublishStationStatus = (\<lambda>f evs. evs @ [StationStatusEvent f])\<rparr>"

lemma event_notifier_simps [simp]:
  "PublishMissData event_notifier k d evs = evs @ [MissDataEvent k d]"
  "PublishRealtimeData event_notifier k d g evs = evs @ [RealtimeDataEvent k d g]"
  "PublishMissItemStatus event_notifier f evs = evs @ [MissItemStatusEvent f]"
  "PublishUpdateItemStatus event_notifier f evs = evs @ [UpdateItemStatusEvent f]"
  "PublishStationStatus event_notifier f' evs = evs @ [StationStatusEvent f']"
  by (simp_all add: event_notifier_def)

definition data_event :: "uuid \<Rightarrow> bool \<Rightarrow> data_point \<Rightarrow> station_event" where
  "data_event sid replay p =
     (let d = \<lparr>dt_value = pt_value p, dt_msec = pt_unix_ms p\<rparr>; k = (sid, pt_item_name p) in
      if replay then MissDataEvent k d else RealtimeDataEvent k d (pt_kind p = DATA_KIND_GPIO))"

section \<open>Specification\<close>

type_synonym history = "uuid \<times> string \<times> unix_ms \<Rightarrow> float64 option"

definition point_key :: "uuid \<Rightarrow> data_point \<Rightarrow> uuid \<times> string \<times> unix_ms" where
  "point_key sid p = (sid, pt_item_name p, pt_unix_ms p)"

text \<open>A history that never forgets or overwrites: the first value of a key stays.\<close>

definition record_point :: "uuid \<Rightarrow> data_point \<Rightarrow> history \<Rightarrow> history" where
  "record_point sid p h = (if h (point_key sid p) = None then h(point_key sid p \<mapsto> pt_value p) else h)"

text \<open>The points of a batch that are new, each key once, in order.\<close>

fun fresh :: "uuid \<Rightarrow> history \<Rightarrow> data_point list \<Rightarrow> data_point list" where
  "fresh sid h [] = []"
| "fresh sid h (p # ps) =
     (if h (point_key sid p) = None then p # fresh sid (record_point sid p h) ps else fresh sid h ps)"

lemma record_point_mono: "h k \<noteq> None \<Longrightarrow> record_point sid p h k = h k"
  by (auto simp: record_point_def)

lemma record_points_mono: "h k \<noteq> None \<Longrightarrow> fold (record_point sid) ps h k = h k"
  by (induction ps arbitrary: h) (simp_all add: record_point_mono)

lemma record_points_present: "p \<in> set ps \<Longrightarrow> fold (record_point sid) ps h (point_key sid p) \<noteq> None"
proof (induction ps arbitrary: h)
  case (Cons q ps)
  have "record_point sid p h (point_key sid p) \<noteq> None" for h by (simp add: record_point_def)
  with Cons show ?case by (auto simp: record_points_mono)
qed simp

lemma fresh_recorded: "(\<And>p. p \<in> set ps \<Longrightarrow> h (point_key sid p) \<noteq> None) \<Longrightarrow> fresh sid h ps = []"
  by (induction ps) auto

lemma record_point_known: "h (point_key sid p) \<noteq> None \<Longrightarrow> record_point sid p h = h"
  by (auto simp: record_point_def)

lemma record_points_known: "(\<And>p. p \<in> set ps \<Longrightarrow> h (point_key sid p) \<noteq> None) \<Longrightarrow> fold (record_point sid) ps h = h"
  by (induction ps) (auto simp: record_point_known)

section \<open>The contract of a store\<close>

text \<open>
  \<open>writable s name\<close>: a write to the table of \<open>name\<close> succeeds. The contract is what
  \<^verbatim>\<open>insert ... on conflict do nothing\<close> promises: an insert reports whether the key was new, adds
  exactly that key, and no status update touches the history.
\<close>

locale history_store =
  fixes store :: "'s station_store"
    and saved :: "'s \<Rightarrow> history"
    and writable :: "'s \<Rightarrow> string \<Rightarrow> bool"
  assumes save_ok: "writable s n \<Longrightarrow>
      \<exists>s'. SaveDataHistory_op store sid n v t s = (Inr (saved s (sid, n, t) = None), s') \<and>
           saved s' = (if saved s (sid, n, t) = None then (saved s)((sid, n, t) \<mapsto> v) else saved s) \<and>
           (\<forall>m. writable s' m = writable s m)"
    and status_saved: "saved (snd (UpdateItemStatus_op store sid n st t s)) = saved s"
    and status_writable: "writable (snd (UpdateItemStatus_op store sid n st t s)) m = writable s m"
begin

lemma point_step:
  assumes "writable s (pt_item_name p)"
  shows "\<exists>s'. data_point_step store event_notifier sid replay p (s, evs) =
           (Inr (), (s', if saved s (point_key sid p) = None then evs @ [data_event sid replay p] else evs)) \<and>
         saved s' = record_point sid p (saved s) \<and> (\<forall>m. writable s' m = writable s m)"
proof -
  let ?s1 = "if pt_kind p = DATA_KIND_GPIO
             then snd (UpdateItemStatus_op store sid (pt_item_name p) NoStatus (pt_unix_ms p) s) else s"
  have 1: "saved ?s1 = saved s" "\<And>m. writable ?s1 m = writable s m"
    by (simp_all add: status_saved status_writable)
  obtain s' where s': "SaveDataHistory_op store sid (pt_item_name p) (pt_value p) (pt_unix_ms p) ?s1 =
      (Inr (saved s (point_key sid p) = None), s')"
    "saved s' = record_point sid p (saved s)" "\<And>m. writable s' m = writable s m"
    using save_ok [of ?s1 "pt_item_name p" sid "pt_value p" "pt_unix_ms p"] assms 1
    by (auto simp: point_key_def record_point_def)
  let ?m = "if pt_kind p = DATA_KIND_GPIO
            then ignoreE (fstE (UpdateItemStatus_op store sid (pt_item_name p) NoStatus (pt_unix_ms p))) else retE ()"
  have pre: "?m (s, evs) = (Inr (), (?s1, evs))"
    by (simp add: eff_simps case_prod_unfold)
  have "bindE ?m f (s, evs) = f () (?s1, evs)" for f :: "unit \<Rightarrow> ('s \<times> station_event list, unit) eff"
    using pre by (rule bindE_Inr)
  with s' show ?thesis
    unfolding data_point_step_def Let_def by (auto simp: eff_simps notify_def data_event_def)
qed

theorem batch_exactly_once:
  assumes "\<And>p. p \<in> set ps \<Longrightarrow> writable s (pt_item_name p)"
  shows "\<exists>s'. handleDataBatch store event_notifier sid replay ps (s, evs) =
           (Inr (), (s', evs @ map (data_event sid replay) (fresh sid (saved s) ps))) \<and>
         saved s' = fold (record_point sid) ps (saved s) \<and> (\<forall>m. writable s' m = writable s m)"
  using assms
proof (induction ps arbitrary: s evs)
  case Nil
  then show ?case by (simp add: handleDataBatch_def eff_simps)
next
  case (Cons p ps)
  obtain s1 where 1: "data_point_step store event_notifier sid replay p (s, evs) =
      (Inr (), (s1, if saved s (point_key sid p) = None then evs @ [data_event sid replay p] else evs))"
    "saved s1 = record_point sid p (saved s)" "\<forall>m. writable s1 m = writable s m"
    using point_step [of s p sid replay evs] Cons.prems by auto
  let ?evs = "if saved s (point_key sid p) = None then evs @ [data_event sid replay p] else evs"
  obtain s' where "handleDataBatch store event_notifier sid replay ps (s1, ?evs) =
      (Inr (), (s', ?evs @ map (data_event sid replay) (fresh sid (saved s1) ps)))"
    "saved s' = fold (record_point sid) ps (saved s1)" "\<forall>m. writable s' m = writable s1 m"
    using Cons.IH [of s1 ?evs] Cons.prems 1(3) by auto
  with 1 show ?case
    by (auto simp: handleDataBatch_def bindE_Inr record_point_known)
qed

text \<open>Replaying a batch that was handled before publishes nothing and leaves the history alone.\<close>

theorem batch_idempotent:
  assumes "\<And>p. p \<in> set ps \<Longrightarrow> writable s (pt_item_name p)"
    and "handleDataBatch store event_notifier sid replay ps (s, evs) = (r, (s', evs'))"
  shows "\<exists>s''. handleDataBatch store event_notifier sid replay' ps (s', evs') = (Inr (), (s'', evs')) \<and> saved s'' = saved s'"
proof -
  from batch_exactly_once [of ps s sid replay evs] assms
  have s': "saved s' = fold (record_point sid) ps (saved s)" "\<forall>m. writable s' m = writable s m" by auto
  have known: "saved s' (point_key sid p) \<noteq> None" if "p \<in> set ps" for p
    unfolding s'(1) using record_points_present [OF that] .
  obtain s'' where "handleDataBatch store event_notifier sid replay' ps (s', evs') =
      (Inr (), (s'', evs' @ map (data_event sid replay') (fresh sid (saved s') ps)))"
    "saved s'' = fold (record_point sid) ps (saved s')"
    using batch_exactly_once [of ps s' sid replay' evs'] assms(1) s'(2) by auto
  with fresh_recorded [of ps "saved s'" sid] record_points_known [of ps "saved s'" sid] known show ?thesis by simp
qed

end

section \<open>The server's tables fulfil the contract\<close>

definition db_saved :: "tide_db \<Rightarrow> history" where
  "db_saved db = (\<lambda>(sid, n, t). case map_of (item_tables db) n of None \<Rightarrow> None | Some tab \<Rightarrow> map_of tab (sid, t))"

definition has_item_table :: "tide_db \<Rightarrow> string \<Rightarrow> bool" where
  "has_item_table db n \<longleftrightarrow>
     \<not> ContainsIllegalCharacter n \<and> sql_table_name n \<and> n \<notin> set schema_relations \<and> map_of (item_tables db) n \<noteq> None"

lemma SaveDataHistory_result:
  assumes "has_item_table db n"
  shows "\<exists>db'. SaveDataHistory sid n v t db = (Inr (if db_saved db (sid, n, t) = None then 1 else 0), db') \<and>
     db_saved db' = (if db_saved db (sid, n, t) = None then (db_saved db)((sid, n, t) \<mapsto> v) else db_saved db) \<and>
     (\<forall>m. has_item_table db' m = has_item_table db m)"
proof -
  from assms obtain tab where tab: "map_of (item_tables db) n = Some tab" "item_table n db = Inr tab"
    by (auto simp: has_item_table_def item_table_def)
  let ?db = "db\<lparr>item_tables := AList.update n (sql_insert (sid, t) v tab) (item_tables db)\<rparr>"
  have "SaveDataHistory sid n v t db = (Inr (if map_of tab (sid, t) = None then 1 else 0), ?db)"
    using assms tab by (simp add: SaveDataHistory_def has_item_table_def eff_simps)
  moreover have "db_saved ?db = (if map_of tab (sid, t) = None then (db_saved db)((sid, n, t) \<mapsto> v) else db_saved db)"
    using tab by (auto simp: db_saved_def fun_eq_iff)
  moreover have "has_item_table ?db m = has_item_table db m" for m
    using tab by (auto simp: has_item_table_def)
  ultimately show ?thesis using tab by (simp add: db_saved_def)
qed

lemma UpdateItemStatus_history [simp]:
  "item_tables (snd (UpdateItemStatus sid n st t db)) = item_tables db"
  by (simp add: UpdateItemStatus_def Let_def)

interpretation db_history: history_store DBStore db_saved has_item_table
proof
  fix db n sid v t
  assume "has_item_table db n"
  from SaveDataHistory_result [OF this, of sid v t]
  show "\<exists>s'. SaveDataHistory_op DBStore sid n v t db = (Inr (db_saved db (sid, n, t) = None), s') \<and>
     db_saved s' = (if db_saved db (sid, n, t) = None then (db_saved db)((sid, n, t) \<mapsto> v) else db_saved db) \<and>
     (\<forall>m. has_item_table s' m = has_item_table db m)"
    by (auto simp: DBStore_def changedE_def eff_simps split: if_splits)
qed (simp_all add: DBStore_def changedE_def eff_simps db_saved_def has_item_table_def case_prod_unfold
       split: sum.split)

text \<open>
  C2: when every item of a batch has its table, \<open>handleDataBatch\<close> on the server's tables succeeds,
  stores every point whose (station, item, timestamp) is new without ever overwriting a stored
  value, and publishes exactly the new points, each once and in the order of the batch.
\<close>

theorem station_batch_exactly_once:
  assumes "\<And>p. p \<in> set ps \<Longrightarrow> has_item_table db (pt_item_name p)"
  shows "\<exists>db'. handleDataBatch DBStore event_notifier sid replay ps (db, evs) =
           (Inr (), (db', evs @ map (data_event sid replay) (fresh sid (db_saved db) ps))) \<and>
         db_saved db' = fold (record_point sid) ps (db_saved db)"
  using db_history.batch_exactly_once [of ps db sid replay evs] assms by blast

definition one_table_db :: tide_db where
  "one_table_db = empty_db\<lparr>item_tables := [(''water'', [((7, 10), 5)])]\<rparr>"

definition two_points :: "data_point list" where
  "two_points =
     [\<lparr>pt_item_name = ''water'', pt_value = 9, pt_unix_ms = 10, pt_kind = DATA_KIND_NORMAL\<rparr>,
      \<lparr>pt_item_name = ''water'', pt_value = 6, pt_unix_ms = 20, pt_kind = DATA_KIND_GPIO\<rparr>]"

lemma has_table_example: "p \<in> set two_points \<Longrightarrow> has_item_table one_table_db (pt_item_name p)"
  by (auto simp: two_points_def one_table_db_def has_item_table_def ContainsIllegalCharacter_def legal_char_def
      sql_table_name_def sql_keywords_def schema_relations_def)

theorem station_batch_exactly_once_witness:
  "list_all (\<lambda>p. has_item_table one_table_db (pt_item_name p)) two_points \<and>
   (\<exists>db'. handleDataBatch DBStore event_notifier 7 False two_points (one_table_db, []) =
      (Inr (), (db', [RealtimeDataEvent (7, ''water'') \<lparr>dt_value = 6, dt_msec = 20\<rparr> True])) \<and>
    db_saved db' = fold (record_point 7) two_points (db_saved one_table_db))"
proof -
  have "fresh 7 (db_saved one_table_db) two_points = [two_points ! 1]"
    by (simp add: two_points_def one_table_db_def db_saved_def point_key_def record_point_def)
  then show ?thesis
    using station_batch_exactly_once [of two_points one_table_db 7 False "[]"] has_table_example
    by (simp add: data_event_def two_points_def list_all_iff)
qed

text \<open>
  Handling the same batch a second time, as replay or as realtime data, succeeds, publishes
  nothing and leaves the stored history unchanged.
\<close>

theorem station_batch_idempotent:
  assumes "\<And>p. p \<in> set ps \<Longrightarrow> has_item_table db (pt_item_name p)"
    and "handleDataBatch DBStore event_notifier sid replay ps (db, evs) = (r, (db', evs'))"
  shows "\<exists>db''. handleDataBatch DBStore event_notifier sid replay' ps (db', evs') = (Inr (), (db'', evs')) \<and>
                db_saved db'' = db_saved db'"
  using db_history.batch_idempotent [of ps db sid replay evs r db' evs' replay'] assms by blast

theorem station_batch_idempotent_witness:
  "\<exists>r db' evs' db''. handleDataBatch DBStore event_notifier 7 True two_points (one_table_db, []) = (r, (db', evs')) \<and>
     handleDataBatch DBStore event_notifier 7 False two_points (db', evs') = (Inr (), (db'', evs')) \<and>
     db_saved db'' = db_saved db'"
proof -
  obtain r db' evs' where run: "handleDataBatch DBStore event_notifier 7 True two_points (one_table_db, []) = (r, (db', evs'))"
    by (metis prod.exhaust)
  from station_batch_idempotent [OF has_table_example run, of False] run show ?thesis by blast
qed

end
