(* ===== verification/StationStatus.thy ===== *)
theory StationStatus
  imports StationHistory
begin

text \<open>
  What a station session does to item statuses and to the status log: the contract
  \<open>status_store\<close>, the behaviour of \<open>handleItemStatusBatch\<close> on every such store and in every
  order in which Go may walk the map of newest entries, and the interpretation on the tables.
\<close>

type_synonym status_view = "uuid \<times> string \<Rightarrow> (status \<times> unix_ms) option"
type_synonym log_view = "uuid \<times> int \<Rightarrow> status_log_row option"

definition log_row :: "item_status_log_msg \<Rightarrow> status_log_row" where
  "log_row m = \<lparr>sl_item_name = lm_item_name m, sl_status = lm_status m, sl_changed_at = lm_changed_at_unix_ms m\<rparr>"

definition set_status :: "uuid \<Rightarrow> string \<Rightarrow> status \<Rightarrow> unix_ms \<Rightarrow> status_view \<Rightarrow> status_view" where
  "set_status sid n st t v = (\<lambda>k. if k = (sid, n) \<and> v k \<noteq> None then Some (st, t) else v k)"

definition append_log :: "uuid \<Rightarrow> item_status_log_msg \<Rightarrow> log_view \<Rightarrow> log_view" where
  "append_log sid m l = (if l (sid, lm_row_id m) = None then l((sid, lm_row_id m) \<mapsto> log_row m) else l)"

text \<open>The log entries of a batch whose row id is new, each row id once, in order.\<close>

fun fresh_logs :: "uuid \<Rightarrow> log_view \<Rightarrow> item_status_log_msg list \<Rightarrow> item_status_log_msg list" where
  "fresh_logs sid l [] = []"
| "fresh_logs sid l (m # ms) =
     (if l (sid, lm_row_id m) = None then m # fresh_logs sid (append_log sid m l) ms else fresh_logs sid l ms)"

definition last_log :: "string \<Rightarrow> item_status_log_msg list \<Rightarrow> item_status_log_msg option" where
  "last_log n logs = (let xs = filter (\<lambda>m. lm_item_name m = n) logs in if xs = [] then None else Some (last xs))"

lemma pbToItemStatusLog_simps [simp]:
  "rs_row_id (pbToItemStatusLog m) = lm_row_id m" "rs_item_name (pbToItemStatusLog m) = lm_item_name m"
  "rs_status (pbToItemStatusLog m) = lm_status m" "rs_changed_at (pbToItemStatusLog m) = lm_changed_at_unix_ms m"
  by (simp_all add: pbToItemStatusLog_def)

lemma last_log_snoc:
  "last_log n (logs @ [m]) = (if lm_item_name m = n then Some m else last_log n logs)"
  by (simp add: last_log_def Let_def)

lemma map_of_latestByItem: "map_of (latestByItem logs) n = map_option pbToItemStatusLog (last_log n logs)"
proof (induction logs rule: rev_induct)
  case Nil
  then show ?case by (simp add: latestByItem_def last_log_def)
next
  case (snoc m logs)
  then show ?case by (simp add: latestByItem_def last_log_snoc)
qed

lemma wf_latestByItem: "wf_map (latestByItem logs)"
  by (induction logs rule: rev_induct) (simp_all add: latestByItem_def)

lemma last_log_item: "last_log n logs = Some m \<Longrightarrow> lm_item_name m = n"
  using last_in_set [of "filter (\<lambda>m. lm_item_name m = n) logs"] by (auto simp: last_log_def Let_def split: if_splits)

lemma latestByItem_key: "(n, v) \<in> set (latestByItem logs) \<Longrightarrow> rs_item_name v = n"
  using wf_map_map_of_iff [OF wf_latestByItem, of logs n v] map_of_latestByItem [of logs n]
  by (auto simp: pbToItemStatusLog_def dest: last_log_item)

lemma map_of_visit:
  assumes "wf_map m" and "mset m' = mset m"
  shows "wf_map m'" and "map_of m' k = map_of m k"
proof -
  have "mset (map fst m') = mset (map fst m)"
    using assms(2) by simp
  with assms(1) show wf: "wf_map m'"
    unfolding wf_map_def by (metis mset_eq_imp_distinct_iff)
  have "set m' = set m" using assms(2) by (rule mset_eq_setD)
  with wf assms(1) show "map_of m' k = map_of m k"
    by (intro option.expand) (auto simp: wf_map_map_of_iff map_of_eq_None_iff, metis option.sel wf_map_map_of_iff)
qed

section \<open>The contract of a store\<close>

locale status_store =
  fixes store :: "'s station_store"
    and item_status :: "'s \<Rightarrow> status_view"
    and logged :: "'s \<Rightarrow> log_view"
    and known :: "'s \<Rightarrow> uuid \<Rightarrow> bool"
  assumes update_ok: "\<exists>b s'. UpdateItemStatus_op store sid n st t s = (Inr b, s') \<and>
      item_status s' = set_status sid n st t (item_status s) \<and> logged s' = logged s \<and> known s' = known s"
    and save_log_ok: "known s sid \<Longrightarrow> \<exists>s'. SaveItemStatusLog_op store sid (lm_row_id m) (lm_item_name m) (lm_status m) (lm_changed_at_unix_ms m) s =
        (Inr (logged s (sid, lm_row_id m) = None), s') \<and>
      item_status s' = item_status s \<and> logged s' = append_log sid m (logged s) \<and> known s' = known s"
    and update_save_ok: "known s sid \<Longrightarrow> \<exists>s'. UpdateAndSaveStatusLog_op store sid (lm_row_id m) (lm_item_name m) (lm_status m) (lm_changed_at_unix_ms m) s =
        (Inr (logged s (sid, lm_row_id m) = None), s') \<and>
      item_status s' = (if logged s (sid, lm_row_id m) = None
                        then set_status sid (lm_item_name m) (lm_status m) (lm_changed_at_unix_ms m) (item_status s)
                        else item_status s) \<and>
      logged s' = append_log sid m (logged s) \<and> known s' = known s"
begin

lemma replay_updates:
  assumes "\<And>n v. (n, v) \<in> set xs \<Longrightarrow> rs_item_name v = n" and "wf_map xs"
  shows "\<exists>s'. forE (replay_update_step store sid) xs (s, evs) = (Inr (), (s', evs)) \<and>
     (\<forall>u n. item_status s' (u, n) =
        (case map_of xs n of
           Some v \<Rightarrow> if u = sid \<and> item_status s (u, n) \<noteq> None then Some (rs_status v, rs_changed_at v) else item_status s (u, n)
         | None \<Rightarrow> item_status s (u, n))) \<and>
     logged s' = logged s \<and> known s' = known s"
  using assms
proof (induction xs arbitrary: s)
  case Nil
  then show ?case by (simp add: eff_simps)
next
  case (Cons x xs)
  obtain n v where x: "x = (n, v)" by (cases x)
  with Cons.prems have n: "rs_item_name v = n" and new: "map_of xs n = None"
    by (auto simp: map_of_eq_None_iff)
  obtain b s1 where 1: "UpdateItemStatus_op store sid n (rs_status v) (rs_changed_at v) s = (Inr b, s1)"
    "item_status s1 = set_status sid n (rs_status v) (rs_changed_at v) (item_status s)" "logged s1 = logged s" "known s1 = known s"
    using update_ok by blast
  then have step: "replay_update_step store sid x (s, evs) = (Inr (), (s1, evs))"
    using x n by (simp add: replay_update_step_def Let_def eff_simps)
  from Cons.IH [of s1] Cons.prems x obtain s' where s': "forE (replay_update_step store sid) xs (s1, evs) = (Inr (), (s', evs))"
    "\<forall>u n. item_status s' (u, n) =
        (case map_of xs n of
           Some v \<Rightarrow> if u = sid \<and> item_status s1 (u, n) \<noteq> None then Some (rs_status v, rs_changed_at v) else item_status s1 (u, n)
         | None \<Rightarrow> item_status s1 (u, n))"
    "logged s' = logged s1" "known s' = known s1" by auto
  have "item_status s' (u, k) =
        (case map_of (x # xs) k of
           Some v \<Rightarrow> if u = sid \<and> item_status s (u, k) \<noteq> None then Some (rs_status v, rs_changed_at v) else item_status s (u, k)
         | None \<Rightarrow> item_status s (u, k))" for u k
    using s'(2) 1(2) x new by (auto simp: set_status_def split: option.split)
  with s' 1 step show ?case by (auto simp: bindE_Inr)
qed

lemma replay_logs:
  assumes "known s sid"
  shows "\<exists>s'. forE (replay_log_step store event_notifier sid ident) logs (s, evs) =
     (Inr (), (s', evs @ map (\<lambda>m. MissItemStatusEvent (full_status sid ident (pbToItemStatusLog m))) (fresh_logs sid (logged s) logs))) \<and>
     item_status s' = item_status s \<and> logged s' = fold (append_log sid) logs (logged s) \<and> known s' = known s"
  using assms
proof (induction logs arbitrary: s evs)
  case Nil
  then show ?case by (simp add: eff_simps)
next
  case (Cons m logs)
  let ?ev = "MissItemStatusEvent (full_status sid ident (pbToItemStatusLog m))"
  let ?new = "logged s (sid, lm_row_id m) = None"
  obtain s1 where 1: "SaveItemStatusLog_op store sid (lm_row_id m) (lm_item_name m) (lm_status m) (lm_changed_at_unix_ms m) s = (Inr ?new, s1)"
    "item_status s1 = item_status s" "logged s1 = append_log sid m (logged s)" "known s1 = known s"
    using save_log_ok [OF Cons.prems] by blast
  then have step: "replay_log_step store event_notifier sid ident m (s, evs) = (Inr (), (s1, if ?new then evs @ [?ev] else evs))"
    by (auto simp: replay_log_step_def Let_def eff_simps pbToItemStatusLog_def notify_def)
  from Cons.IH [of s1 "if ?new then evs @ [?ev] else evs"] Cons.prems 1 step show ?case
    by (auto simp: bindE_Inr append_log_def)
qed

lemma realtime_logs:
  assumes "known s sid"
  shows "\<exists>s'. forE (status_log_step store event_notifier sid ident) logs (s, evs) =
     (Inr (), (s', evs @ map (\<lambda>m. UpdateItemStatusEvent (full_status sid ident (pbToItemStatusLog m))) (fresh_logs sid (logged s) logs))) \<and>
     item_status s' = fold (\<lambda>m. set_status sid (lm_item_name m) (lm_status m) (lm_changed_at_unix_ms m))
                        (fresh_logs sid (logged s) logs) (item_status s) \<and>
     logged s' = fold (append_log sid) logs (logged s) \<and> known s' = known s"
  using assms
proof (induction logs arbitrary: s evs)
  case Nil
  then show ?case by (simp add: eff_simps)
next
  case (Cons m logs)
  let ?ev = "UpdateItemStatusEvent (full_status sid ident (pbToItemStatusLog m))"
  let ?new = "logged s (sid, lm_row_id m) = None"
  obtain s1 where 1: "UpdateAndSaveStatusLog_op store sid (lm_row_id m) (lm_item_name m) (lm_status m) (lm_changed_at_unix_ms m) s = (Inr ?new, s1)"
    "item_status s1 = (if ?new then set_status sid (lm_item_name m) (lm_status m) (lm_changed_at_unix_ms m) (item_status s) else item_status s)"
    "logged s1 = append_log sid m (logged s)" "known s1 = known s"
    using update_save_ok [OF Cons.prems] by blast
  then have step: "status_log_step store event_notifier sid ident m (s, evs) = (Inr (), (s1, if ?new then evs @ [?ev] else evs))"
    by (auto simp: status_log_step_def Let_def eff_simps pbToItemStatusLog_def notify_def)
  from Cons.IH [of s1 "if ?new then evs @ [?ev] else evs"] Cons.prems 1 step show ?case
    by (auto simp: bindE_Inr append_log_def)
qed

theorem replay_status_batch:
  assumes "known s sid" and "\<And>m. mset (visit m) = mset m"
  shows "\<exists>s'. handleItemStatusBatch visit store event_notifier sid ident True logs (s, evs) =
     (Inr (), (s', evs @ map (\<lambda>m. MissItemStatusEvent (full_status sid ident (pbToItemStatusLog m))) (fresh_logs sid (logged s) logs))) \<and>
     (\<forall>u n. item_status s' (u, n) =
        (case last_log n logs of
           Some m \<Rightarrow> if u = sid \<and> item_status s (u, n) \<noteq> None then Some (lm_status m, lm_changed_at_unix_ms m) else item_status s (u, n)
         | None \<Rightarrow> item_status s (u, n))) \<and>
     logged s' = fold (append_log sid) logs (logged s)"
proof -
  note perm = map_of_visit [OF wf_latestByItem assms(2) [of "latestByItem logs"]]
  have "rs_item_name v = n" if "(n, v) \<in> set (visit (latestByItem logs))" for n v
    using that latestByItem_key mset_eq_setD [OF assms(2) [of "latestByItem logs"]] by auto
  from replay_updates [OF this perm(1), of sid s evs] obtain s1 where 1:
    "forE (replay_update_step store sid) (visit (latestByItem logs)) (s, evs) = (Inr (), (s1, evs))"
    "\<forall>u n. item_status s1 (u, n) =
        (case last_log n logs of
           Some m \<Rightarrow> if u = sid \<and> item_status s (u, n) \<noteq> None then Some (lm_status m, lm_changed_at_unix_ms m) else item_status s (u, n)
         | None \<Rightarrow> item_status s (u, n))"
    "logged s1 = logged s" "known s1 = known s"
    unfolding perm(2) map_of_latestByItem case_map_option comp_def pbToItemStatusLog_simps
    by auto
  obtain s2 where 2: "forE (replay_log_step store event_notifier sid ident) logs (s1, evs) =
     (Inr (), (s2, evs @ map (\<lambda>m. MissItemStatusEvent (full_status sid ident (pbToItemStatusLog m))) (fresh_logs sid (logged s) logs)))"
    "item_status s2 = item_status s1" "logged s2 = fold (append_log sid) logs (logged s)"
    using replay_logs [of s1 sid ident logs evs] assms(1) 1(3,4) by auto
  have "handleItemStatusBatch visit store event_notifier sid ident True logs (s, evs) =
     (Inr (), (s2, evs @ map (\<lambda>m. MissItemStatusEvent (full_status sid ident (pbToItemStatusLog m))) (fresh_logs sid (logged s) logs)))"
    using 1(1) 2(1) by (simp add: handleItemStatusBatch_def bindE_Inr)
  with 1(2) 2(2,3) show ?thesis by auto
qed

end

section \<open>The server's tables fulfil the contract\<close>

definition db_item_status :: "tide_db \<Rightarrow> status_view" where
  "db_item_status db k = map_option (\<lambda>r. (it_status r, it_status_changed_at r)) (map_of (items db) k)"

definition db_logged :: "tide_db \<Rightarrow> log_view" where
  "db_logged db = map_of (item_status_log db)"

definition db_known :: "tide_db \<Rightarrow> uuid \<Rightarrow> bool" where
  "db_known db sid \<longleftrightarrow> map_of (stations db) sid \<noteq> None"

lemma UpdateItemStatus_view:
  "db_item_status (snd (UpdateItemStatus sid n st t db)) = set_status sid n st t (db_item_status db)"
proof (rule ext)
  fix k
  show "db_item_status (snd (UpdateItemStatus sid n st t db)) k = set_status sid n st t (db_item_status db) k"
    by (cases "map_of (items db) k") (auto simp: db_item_status_def UpdateItemStatus_def Let_def set_status_def)
qed

lemma UpdateItemStatus_frame:
  "fst (UpdateItemStatus sid n st t db) = Inr (sql_count (\<lambda>k r. k = (sid, n) \<and> (it_status r \<noteq> st \<or> it_status_changed_at r \<noteq> t)) (items db))"
  "db_logged (snd (UpdateItemStatus sid n st t db)) = db_logged db"
  "db_known (snd (UpdateItemStatus sid n st t db)) = db_known db"
  by (simp_all add: fun_eq_iff UpdateItemStatus_def Let_def db_logged_def db_known_def)

lemma SaveItemStatusLog_view:
  assumes "db_known db sid"
  shows "\<exists>db'. SaveItemStatusLog sid (lm_row_id m) (lm_item_name m) (lm_status m) (lm_changed_at_unix_ms m) db =
      (Inr (if db_logged db (sid, lm_row_id m) = None then 1 else 0), db') \<and>
    db_item_status db' = db_item_status db \<and> db_logged db' = append_log sid m (db_logged db) \<and> db_known db' = db_known db"
  using assms
  by (auto simp: SaveItemStatusLog_def db_logged_def db_known_def append_log_def log_row_def fun_eq_iff db_item_status_def)

interpretation db_status: status_store DBStore db_item_status db_logged db_known
proof
  fix sid n st t db
  show "\<exists>b s'. UpdateItemStatus_op DBStore sid n st t db = (Inr b, s') \<and>
      db_item_status s' = set_status sid n st t (db_item_status db) \<and> db_logged s' = db_logged db \<and> db_known s' = db_known db"
    using UpdateItemStatus_view [of sid n st t db] UpdateItemStatus_frame [of sid n st t db]
    by (cases "UpdateItemStatus sid n st t db") (simp add: DBStore_def changedE_def eff_simps)
next
  fix db sid m
  assume k: "db_known db sid"
  from SaveItemStatusLog_view [OF k, of m] obtain db' where
    save: "SaveItemStatusLog sid (lm_row_id m) (lm_item_name m) (lm_status m) (lm_changed_at_unix_ms m) db =
      (Inr (if db_logged db (sid, lm_row_id m) = None then 1 else 0), db')"
    "db_item_status db' = db_item_status db" "db_logged db' = append_log sid m (db_logged db)" "db_known db' = db_known db"
    by blast
  then show "\<exists>s'. SaveItemStatusLog_op DBStore sid (lm_row_id m) (lm_item_name m) (lm_status m) (lm_changed_at_unix_ms m) db =
        (Inr (db_logged db (sid, lm_row_id m) = None), s') \<and>
      db_item_status s' = db_item_status db \<and> db_logged s' = append_log sid m (db_logged db) \<and> db_known s' = db_known db"
    by (simp add: DBStore_def changedE_def eff_simps)
  let ?upd = "UpdateItemStatus sid (lm_item_name m) (lm_status m) (lm_changed_at_unix_ms m) db'"
  have "UpdateAndSaveStatusLog sid (lm_row_id m) (lm_item_name m) (lm_status m) (lm_changed_at_unix_ms m) db =
      (if db_logged db (sid, lm_row_id m) = None then (Inr 1, snd ?upd) else (Inr 0, db'))"
    using save(1) UpdateItemStatus_frame(1) [of sid "lm_item_name m" "lm_status m" "lm_changed_at_unix_ms m" db']
    by (cases ?upd) (simp add: UpdateAndSaveStatusLog_def eff_simps)
  with save UpdateItemStatus_view [of sid "lm_item_name m" "lm_status m" "lm_changed_at_unix_ms m" db']
    UpdateItemStatus_frame(2,3) [of sid "lm_item_name m" "lm_status m" "lm_changed_at_unix_ms m" db']
  show "\<exists>s'. UpdateAndSaveStatusLog_op DBStore sid (lm_row_id m) (lm_item_name m) (lm_status m) (lm_changed_at_unix_ms m) db =
        (Inr (db_logged db (sid, lm_row_id m) = None), s') \<and>
      db_item_status s' = (if db_logged db (sid, lm_row_id m) = None
                        then set_status sid (lm_item_name m) (lm_status m) (lm_changed_at_unix_ms m) (db_item_status db)
                        else db_item_status db) \<and>
      db_logged s' = append_log sid m (db_logged db) \<and> db_known s' = db_known db"
    by (auto simp: DBStore_def changedE_def eff_simps)
qed

text \<open>
  A replayed status batch, in whatever order Go walks the map of newest entries, leaves every
  known item of the station with the status and time of its last entry in the batch and every
  other item untouched, adds every entry with a new row id to the log without overwriting one, and
  publishes exactly the new entries, each once and in order.
\<close>

theorem station_replay_status:
  assumes "db_known db sid" and "\<And>m. mset (visit m) = mset m"
  shows "\<exists>db'. handleItemStatusBatch visit DBStore event_notifier sid ident True logs (db, evs) =
     (Inr (), (db', evs @ map (\<lambda>m. MissItemStatusEvent (full_status sid ident (pbToItemStatusLog m)))
                          (fresh_logs sid (db_logged db) logs))) \<and>
     (\<forall>u n. db_item_status db' (u, n) =
        (case last_log n logs of
           Some m \<Rightarrow> if u = sid \<and> db_item_status db (u, n) \<noteq> None
                     then Some (lm_status m, lm_changed_at_unix_ms m) else db_item_status db (u, n)
         | None \<Rightarrow> db_item_status db (u, n))) \<and>
     db_logged db' = fold (append_log sid) logs (db_logged db)"
  using db_status.replay_status_batch [of db sid visit ident logs evs] assms by blast

definition one_item_db :: tide_db where
  "one_item_db = empty_db\<lparr>
     stations := [(7, \<lparr>st_identifier = ''s'', st_name = ''s'', st_ip_addr = [], st_location = JNull, st_partner = JNull,
        st_status = Normal, st_status_changed_at = 1, st_cameras = JNull, st_upstream = False, st_deleted_at = None\<rparr>)],
     devices := [((7, ''d''), \<lparr>dev_specs = JNull, dev_last_maintenance = 0\<rparr>)],
     items := [((7, ''water''), \<lparr>it_type = ''w'', it_device_name = ''d'', it_status = Normal, it_status_changed_at = 1,
        it_available = [0]\<rparr>)]\<rparr>"

definition two_logs :: "item_status_log_msg list" where
  "two_logs =
     [\<lparr>lm_row_id = 1, lm_item_name = ''water'', lm_status = Abnormal, lm_changed_at_unix_ms = 5\<rparr>,
      \<lparr>lm_row_id = 2, lm_item_name = ''water'', lm_status = Normal, lm_changed_at_unix_ms = 9\<rparr>]"

theorem station_replay_status_witness:
  "db_known one_item_db 7 \<and> (\<forall>m :: (string, row_item_status) go_map. mset (rev m) = mset m) \<and>
   (\<exists>db'. handleItemStatusBatch rev DBStore event_notifier 7 ''s'' True two_logs (one_item_db, []) =
      (Inr (), (db', map (\<lambda>m. MissItemStatusEvent (full_status 7 ''s'' (pbToItemStatusLog m))) two_logs)) \<and>
    db_item_status db' (7, ''water'') = Some (Normal, 9))"
proof -
  have k: "db_known one_item_db 7" by (simp add: db_known_def one_item_db_def)
  have f: "fresh_logs 7 (db_logged one_item_db) two_logs = two_logs"
    by (simp add: two_logs_def db_logged_def one_item_db_def empty_db_def append_log_def)
  have "last_log ''water'' two_logs = Some (two_logs ! 1)" "db_item_status one_item_db (7, ''water'') \<noteq> None"
    by (simp_all add: two_logs_def last_log_def db_item_status_def one_item_db_def)
  with station_replay_status [of one_item_db 7 rev "''s''" two_logs "[]"] k f show ?thesis
    by (auto simp: two_logs_def)
qed

text \<open>
  A realtime status batch changes an item's status only for entries with a new row id, in
  order, appends exactly those entries to the log and publishes exactly those.
\<close>

theorem station_realtime_status:
  assumes "db_known db sid"
  shows "\<exists>db'. handleItemStatusBatch visit DBStore event_notifier sid ident False logs (db, evs) =
     (Inr (), (db', evs @ map (\<lambda>m. UpdateItemStatusEvent (full_status sid ident (pbToItemStatusLog m)))
                          (fresh_logs sid (db_logged db) logs))) \<and>
     db_item_status db' = fold (\<lambda>m. set_status sid (lm_item_name m) (lm_status m) (lm_changed_at_unix_ms m))
                            (fresh_logs sid (db_logged db) logs) (db_item_status db) \<and>
     db_logged db' = fold (append_log sid) logs (db_logged db)"
  using db_status.realtime_logs [OF assms, of ident logs evs] by (auto simp: handleItemStatusBatch_def)

theorem station_realtime_status_witness:
  "db_known one_item_db 7 \<and>
   (\<exists>db'. handleItemStatusBatch id DBStore event_notifier 7 ''s'' False two_logs (one_item_db, []) =
      (Inr (), (db', map (\<lambda>m. UpdateItemStatusEvent (full_status 7 ''s'' (pbToItemStatusLog m))) two_logs)))"
proof -
  have k: "db_known one_item_db 7" by (simp add: db_known_def one_item_db_def)
  have "fresh_logs 7 (db_logged one_item_db) two_logs = two_logs"
    by (simp add: two_logs_def db_logged_def one_item_db_def empty_db_def append_log_def)
  with station_realtime_status [OF k, of id "''s''" two_logs "[]"] k show ?thesis by auto
qed

end
