(* ===== verification/Replay.thy ===== *)
theory Replay
  imports StationClient StationStatus
begin

text \<open>
  The station's replay meets the server's handlers: what \<open>sendReplayData\<close> and \<open>sendReplayStatus\<close> put
  on the wire, answered by the newest timestamps and row id the server itself reports, is run through
  \<open>handleDataBatch\<close> and \<open>handleItemStatusBatch\<close>.
\<close>

section \<open>What the server reports as newest\<close>

definition stored_times :: "uuid \<Rightarrow> string \<Rightarrow> tide_db \<Rightarrow> unix_ms list" where
  "stored_times sid n db = map dt_msec (station_rows sid (map_index [] (item_tables db) n))"

definition newest_or :: "unix_ms \<Rightarrow> unix_ms list \<Rightarrow> unix_ms" where
  "newest_or v ts = (case max_timestamp ts of None \<Rightarrow> v | Some t \<Rightarrow> t)"

lemma item_timestamps_table:
  "has_item_table db n \<Longrightarrow> item_timestamps sid n db = Inr (stored_times sid n db)"
  by (auto simp: has_item_table_def item_timestamps_def item_table_def stored_times_def map_index_def schema_relations_def)

lemma GetItemsLatest_ok:
  assumes "\<forall>x \<in> set xs. has_item_table db (fst x)"
  shows "GetItemsLatest sid xs db = (Inr (map (\<lambda>(n, v). (n, newest_or v (stored_times sid n db))) xs), db)"
  using assms
proof (induction xs)
  case Nil
  then show ?case by (simp add: retE_def)
next
  case (Cons x xs)
  obtain n v where x: "x = (n, v)" by (cases x)
  with Cons have "has_item_table db n" by simp
  then have "item_timestamps sid n db = Inr (stored_times sid n db)" "\<not> ContainsIllegalCharacter n"
    by (simp_all add: item_timestamps_table) (simp add: has_item_table_def)
  with Cons x show ?case by (simp add: eff_simps newest_or_def)
qed

lemma map_of_zero_items: "map_of (zero_items devs) n = (if n \<in> set (itemNames devs) then Some 0 else None)"
proof -
  have "map_of (fold (\<lambda>name m. AList.update name 0 m) names m) n =
      (if n \<in> set names then Some 0 else map_of m n)" for names and m :: "(string, unix_ms) go_map"
    by (induction names arbitrary: m) auto
  then show ?thesis by (simp add: zero_items_def itemNames_def)
qed

lemma zero_items_names: "x \<in> set (zero_items devs) \<Longrightarrow> fst x \<in> set (itemNames devs)"
proof -
  assume "x \<in> set (zero_items devs)"
  then have "fst x \<in> fst ` set (zero_items devs)" by simp
  then have "map_of (zero_items devs) (fst x) \<noteq> None" by (simp only: map_of_eq_None_iff not_not)
  then show ?thesis by (simp add: map_of_zero_items split: if_splits)
qed

lemma ItemsLatest_ok:
  assumes "\<forall>n \<in> set (itemNames devs). has_item_table db n"
  obtains latest where "DBStore_ItemsLatest sid devs db = (Inr latest, db)"
    and "\<And>n. n \<in> set (itemNames devs) \<Longrightarrow> map_index 0 latest n = newest_or 0 (stored_times sid n db)"
proof -
  let ?f = "\<lambda>(n, v). (n, newest_or v (stored_times sid n db))"
  have "GetItemsLatest sid (zero_items devs) db = (Inr (map ?f (zero_items devs)), db)"
    using assms zero_items_names by (intro GetItemsLatest_ok) blast
  moreover have "map_index 0 (map ?f (zero_items devs)) n = newest_or 0 (stored_times sid n db)"
    if "n \<in> set (itemNames devs)" for n
  proof -
    have "map_of (map ?f xs) n = map_option (\<lambda>v. newest_or v (stored_times sid n db)) (map_of xs n)" for xs
      by (induction xs) auto
    with that show ?thesis by (simp add: map_index_def map_of_zero_items)
  qed
  ultimately show thesis using that by (simp add: DBStore_ItemsLatest_def)
qed

lemma stored_times_saved:
  assumes "t \<in> set (stored_times sid n db)"
  shows "db_saved db (sid, n, t) \<noteq> None"
proof (cases "map_of (item_tables db) n")
  case None
  with assms show ?thesis by (simp add: stored_times_def map_index_def station_rows_def)
next
  case (Some tab)
  with assms have "(sid, t) \<in> fst ` set tab"
    by (force simp: stored_times_def map_index_def station_rows_def)
  with Some show ?thesis by (simp add: db_saved_def map_of_eq_None_iff del: not_None_eq)
qed

lemma newest_or_less:
  assumes "v < t" and "\<And>t'. t' \<in> set ts \<Longrightarrow> t' < t"
  shows "newest_or v ts < t"
  using assms by (auto simp: newest_or_def max_timestamp_def)

section \<open>The server's handling of the replayed batches\<close>

abbreviation db_server :: "(tide_db, station_event list) info_syncer \<Rightarrow> (tide_db, station_event list) station_server" where
  "db_server syncer \<equiv> \<lparr>srv_Store = DBStore, srv_InfoSyncer = syncer, srv_Notifier = event_notifier\<rparr>"

lemma replayed_batches:
  assumes "\<And>p. p \<in> set (concat cs) \<Longrightarrow> has_item_table db (pt_item_name p)"
  shows "\<exists>db'. forE (station_frame visit (db_server syncer) sid ident) (map (DataBatch True) cs) (db, evs) =
      (Inr (), (db', evs @ map (data_event sid True) (fresh sid (db_saved db) (concat cs)))) \<and>
    db_saved db' = fold (record_point sid) (concat cs) (db_saved db) \<and> (\<forall>m. has_item_table db' m = has_item_table db m)"
proof -
  have frames: "forE (station_frame visit (db_server syncer) sid ident) (map (DataBatch True) cs) =
      handleDataBatch DBStore event_notifier sid True (concat cs)"
    by (simp add: forE_map station_frame_def handleDataBatch_def forE_concat [where g = "\<lambda>c. c", simplified])
  show ?thesis
    unfolding frames using db_history.batch_exactly_once [of "concat cs" db sid True evs] assms by blast
qed

lemma record_points_new:
  "fold (record_point sid) ps h k = Some v \<Longrightarrow> h k = Some v \<or> (\<exists>p \<in> set ps. k = point_key sid p \<and> v = pt_value p)"
  by (induction ps arbitrary: h) (force simp: record_point_def split: if_splits)+

lemma all_points_mem:
  "p \<in> set (all_points station_hist s latest names) \<longleftrightarrow>
     (\<exists>n t v. n \<in> set names \<and> (t, v) \<in> set (table_rows n (ig_db s)) \<and> map_index 0 latest n < t \<and>
        p = replay_pt n \<lparr>dt_value = v, dt_msec = t\<rparr>)"
  by (force simp: all_points_def station_hist_def row_data_def)

text \<open>The replay and its handling, with the tables that exist afterwards.\<close>

lemma replay_history:
  assumes client: "\<forall>n \<in> set (itemNames (si_devices info)). has_client_table n (ig_db s)"
    and server: "\<forall>n \<in> set (itemNames (si_devices info)). has_item_table db n"
    and up: "send_results st = []"
  shows "\<exists>latest cs db'. DBStore_ItemsLatest sid (si_devices info) db = (Inr latest, db) \<and>
    sendReplayData (station_deps info sub cams snap) info latest (s, st) =
      (Inr (), (s, st\<lparr>outbox := outbox st @ map (DataBatch True) cs\<rparr>)) \<and>
    (\<forall>c \<in> set cs. c \<noteq> [] \<and> length c \<le> 128) \<and>
    forE (station_frame visit (db_server syncer) sid ident) (map (DataBatch True) cs) (db, evs) =
      (Inr (), (db', evs @ map (data_event sid True) (fresh sid (db_saved db) (concat cs)))) \<and>
    (\<forall>n t v. n \<in> set (itemNames (si_devices info)) \<and> (t, v) \<in> set (table_rows n (ig_db s)) \<and> 0 < t \<and>
       (\<forall>t'. db_saved db (sid, n, t') \<noteq> None \<longrightarrow> t' < t) \<longrightarrow> db_saved db' (sid, n, t) \<noteq> None) \<and>
    (\<forall>k. db_saved db k \<noteq> None \<longrightarrow> db_saved db' k = db_saved db k) \<and>
    (\<forall>k v. db_saved db k = None \<and> db_saved db' k = Some v \<longrightarrow>
       (\<exists>n t. k = (sid, n, t) \<and> n \<in> set (itemNames (si_devices info)) \<and> (t, v) \<in> set (table_rows n (ig_db s)))) \<and>
    (\<forall>m. has_item_table db' m = has_item_table db m)"
proof -
  let ?names = "itemNames (si_devices info)"
  obtain latest where latest: "DBStore_ItemsLatest sid (si_devices info) db = (Inr latest, db)"
      "\<And>n. n \<in> set ?names \<Longrightarrow> map_index 0 latest n = newest_or 0 (stored_times sid n db)"
    using ItemsLatest_ok [OF server, of sid] by blast
  obtain cs where send: "sendReplayData (station_deps info sub cams snap) info latest (s, st) =
      (Inr (), (s, st\<lparr>outbox := outbox st @ map (DataBatch True) cs\<rparr>))"
    and cs: "concat cs = all_points station_hist s latest ?names" "\<forall>c \<in> set cs. c \<noteq> [] \<and> length c \<le> 128"
    using station_replay.replay_batches [OF client up, of info sub cams snap latest]
    by (auto simp: replayDataBatchSize_def)
  have "has_item_table db (pt_item_name p)" if "p \<in> set (concat cs)" for p
    using that server unfolding cs(1) all_points_mem by (auto simp: replay_pt_def)
  from replayed_batches [of cs db visit syncer sid ident evs, OF this] obtain db' where
    handled: "forE (station_frame visit (db_server syncer) sid ident) (map (DataBatch True) cs) (db, evs) =
      (Inr (), (db', evs @ map (data_event sid True) (fresh sid (db_saved db) (concat cs))))"
      and saved: "db_saved db' = fold (record_point sid) (concat cs) (db_saved db)" and tables: "\<forall>m. has_item_table db' m = has_item_table db m"
    by blast
  have "db_saved db' (sid, n, t) \<noteq> None" if "n \<in> set ?names" "(t, v) \<in> set (table_rows n (ig_db s))" "0 < t"
      "\<forall>t'. db_saved db (sid, n, t') \<noteq> None \<longrightarrow> t' < t" for n t v
  proof -
    have "map_index 0 latest n < t"
      using that stored_times_saved [of _ sid n db] by (auto simp: latest(2) intro: newest_or_less)
    then have "replay_pt n \<lparr>dt_value = v, dt_msec = t\<rparr> \<in> set (concat cs)"
      using that unfolding cs(1) all_points_mem by blast
    from record_points_present [OF this, of sid "db_saved db"] show ?thesis
      by (simp add: saved replay_pt_def point_key_def)
  qed
  moreover have "\<exists>n t. k = (sid, n, t) \<and> n \<in> set ?names \<and> (t, v) \<in> set (table_rows n (ig_db s))"
    if "db_saved db k = None" "db_saved db' k = Some v" for k v
  proof -
    from record_points_new [of sid "concat cs" "db_saved db" k v] that saved obtain p where
      "p \<in> set (concat cs)" "k = point_key sid p" "v = pt_value p" by auto
    then show ?thesis unfolding cs(1) all_points_mem by (auto simp: replay_pt_def point_key_def)
  qed
  moreover have "\<forall>k. db_saved db k \<noteq> None \<longrightarrow> db_saved db' k = db_saved db k"
    unfolding saved by (intro allI impI record_points_mono)
  ultimately show ?thesis
    using latest(1) send cs(2) handled tables by (intro exI [of _ latest] exI [of _ cs] exI [of _ db'] conjI) blast+
qed

text \<open>
  C1: The station's replay, answered with the newest timestamps the server reports, sends batches
  of at most 128 points; the server handles them all, afterwards holds every row of the station that
  is newer than what it had, has overwritten nothing, holds nothing that is not a row of the station,
  and has published exactly the new points.
\<close>

theorem replay_completes_history:
  assumes client: "\<forall>n \<in> set (itemNames (si_devices info)). has_client_table n (ig_db s)"
    and server: "\<forall>n \<in> set (itemNames (si_devices info)). has_item_table db n"
    and up: "send_results st = []"
  shows "\<exists>latest cs db'. DBStore_ItemsLatest sid (si_devices info) db = (Inr latest, db) \<and>
    sendReplayData (station_deps info sub cams snap) info latest (s, st) =
      (Inr (), (s, st\<lparr>outbox := outbox st @ map (DataBatch True) cs\<rparr>)) \<and>
    (\<forall>c \<in> set cs. c \<noteq> [] \<and> length c \<le> 128) \<and>
    forE (station_frame visit (db_server syncer) sid ident) (map (DataBatch True) cs) (db, evs) =
      (Inr (), (db', evs @ map (data_event sid True) (fresh sid (db_saved db) (concat cs)))) \<and>
    (\<forall>n t v. n \<in> set (itemNames (si_devices info)) \<and> (t, v) \<in> set (table_rows n (ig_db s)) \<and> 0 < t \<and>
       (\<forall>t'. db_saved db (sid, n, t') \<noteq> None \<longrightarrow> t' < t) \<longrightarrow> db_saved db' (sid, n, t) \<noteq> None) \<and>
    (\<forall>k. db_saved db k \<noteq> None \<longrightarrow> db_saved db' k = db_saved db k) \<and>
    (\<forall>k v. db_saved db k = None \<and> db_saved db' k = Some v \<longrightarrow>
       (\<exists>n t. k = (sid, n, t) \<and> n \<in> set (itemNames (si_devices info)) \<and> (t, v) \<in> set (table_rows n (ig_db s))))"
  using replay_history [OF client server up, of sid sub cams snap visit syncer ident evs] by (elim exE conjE) (intro exI conjI, assumption+)

definition gauge_info :: station_info where
  "gauge_info = \<lparr>si_identifier = ''s'', si_devices = [(''gauge'', [(''level'', ''water'')])], si_cameras = []\<rparr>"

definition gauge_station :: ingest where
  "gauge_station = idle_station\<lparr>ig_db := \<lparr>cd_tables = [(''water'', [(10, 5), (20, 6), (30, 7)])],
     cd_status_log = [\<lparr>rs_row_id = 1, rs_item_name = ''water'', rs_status = Normal, rs_changed_at = 10\<rparr>], cd_faults = []\<rparr>\<rparr>"

theorem replay_completes_history_witness:
  "\<exists>db'. db_saved db' (7, ''water'', 30) \<noteq> None \<and> db_saved db' (7, ''water'', 10) = Some 5 \<and>
     (\<exists>cs. forE (station_frame id (db_server (\<lambda>_ _. retE ())) 7 ''s'') (map (DataBatch True) cs) (one_table_db, []) =
        (Inr (), (db', map (data_event 7 True) (fresh 7 (db_saved one_table_db) (concat cs)))))"
proof -
  have client: "\<forall>n \<in> set (itemNames (si_devices gauge_info)). has_client_table n (ig_db gauge_station)"
    by (simp add: gauge_info_def itemNames_def gauge_station_def has_client_table_def)
  have server: "\<forall>n \<in> set (itemNames (si_devices gauge_info)). has_item_table one_table_db n"
    using has_table_example [of "hd two_points"] by (simp add: gauge_info_def itemNames_def two_points_def)
  have up: "send_results (new_stream [] :: station_message stream) = []" by (simp add: new_stream_def)
  have saved: "db_saved one_table_db (7, ''water'', t) = (if t = 10 then Some 5 else None)" for t
    by (simp add: db_saved_def one_table_db_def)
  obtain db' cs where
    run: "forE (station_frame id (db_server (\<lambda>_ _. retE ())) 7 ''s'') (map (DataBatch True) cs) (one_table_db, []) =
        (Inr (), (db', [] @ map (data_event 7 True) (fresh 7 (db_saved one_table_db) (concat cs))))"
    and new: "\<forall>n t v. n \<in> set (itemNames (si_devices gauge_info)) \<and> (t, v) \<in> set (table_rows n (ig_db gauge_station)) \<and> 0 < t \<and>
       (\<forall>t'. db_saved one_table_db (7, n, t') \<noteq> None \<longrightarrow> t' < t) \<longrightarrow> db_saved db' (7, n, t) \<noteq> None"
    and old: "\<forall>k. db_saved one_table_db k \<noteq> None \<longrightarrow> db_saved db' k = db_saved one_table_db k"
    using replay_completes_history [OF client server up, of 7 1 "\<lambda>_. None" "\<lambda>_. Inr []" id "\<lambda>_ _. retE ()" "''s''" "[]"]
    by blast
  have "''water'' \<in> set (itemNames (si_devices gauge_info))" "(30, 7) \<in> set (table_rows ''water'' (ig_db gauge_station))"
    by (simp_all add: gauge_info_def itemNames_def gauge_station_def table_rows_def map_index_def)
  then have "db_saved db' (7, ''water'', 30) \<noteq> None"
    using new [rule_format, of "''water''" 30 7] by (simp add: saved)
  moreover have "db_saved db' (7, ''water'', 10) = Some 5" using old saved by simp
  ultimately show ?thesis using run by auto
qed

section \<open>The status log\<close>

definition server_rows :: "uuid \<Rightarrow> tide_db \<Rightarrow> int list" where
  "server_rows sid db = [snd k. (k, _) \<leftarrow> item_status_log db, fst k = sid]"

lemma server_rows_logged: "r \<in> set (server_rows sid db) \<longleftrightarrow> db_logged db (sid, r) \<noteq> None"
proof -
  have "r \<in> set (server_rows sid db) \<longleftrightarrow> (sid, r) \<in> fst ` set (item_status_log db)"
    by (force simp: server_rows_def)
  also have "\<dots> \<longleftrightarrow> db_logged db (sid, r) \<noteq> None"
    by (simp add: db_logged_def map_of_eq_None_iff del: not_None_eq)
  finally show ?thesis .
qed

definition newest_row :: "uuid \<Rightarrow> tide_db \<Rightarrow> int" where
  "newest_row sid db = (if server_rows sid db = [] then 0 else Max (set (server_rows sid db)))"

lemma GetLatestStatusLogRowId_newest: "GetLatestStatusLogRowId sid db = (Inr (newest_row sid db), db)"
  by (simp add: GetLatestStatusLogRowId_def readE_def newest_row_def server_rows_def Let_def)

lemma newest_row_bound: "db_logged db (sid, r) \<noteq> None \<Longrightarrow> r \<le> newest_row sid db"
  using server_rows_logged [of r sid db] by (auto simp: newest_row_def)

definition client_row :: "row_item_status \<Rightarrow> status_log_row" where
  "client_row l = \<lparr>sl_item_name = rs_item_name l, sl_status = rs_status l, sl_changed_at = rs_changed_at l\<rparr>"

lemma log_row_pb_log: "log_row (pb_log l) = client_row l" "lm_row_id (pb_log l) = rs_row_id l"
  by (simp_all add: log_row_def pb_log_def client_row_def)

lemma append_logs_old:
  "(\<And>m. m \<in> set ms \<Longrightarrow> k \<noteq> (sid, lm_row_id m)) \<Longrightarrow> fold (append_log sid) ms l k = l k"
  by (induction ms arbitrary: l) (auto simp: append_log_def)

lemma append_logs_new:
  "distinct (map lm_row_id ms) \<Longrightarrow> m \<in> set ms \<Longrightarrow> l (sid, lm_row_id m) = None \<Longrightarrow>
     fold (append_log sid) ms l (sid, lm_row_id m) = Some (log_row m)"
proof (induction ms arbitrary: l)
  case (Cons a ms)
  show ?case
  proof (cases "m = a")
    case True
    with Cons.prems(1) have "(sid, lm_row_id a) \<noteq> (sid, lm_row_id m')" if "m' \<in> set ms" for m'
      using that by auto
    then have "fold (append_log sid) ms (append_log sid a l) (sid, lm_row_id a) = append_log sid a l (sid, lm_row_id a)"
      by (rule append_logs_old)
    moreover have "append_log sid a l (sid, lm_row_id a) = Some (log_row a)"
      using True Cons.prems(3) by (simp add: append_log_def)
    ultimately show ?thesis using True by simp
  next
    case False
    with Cons.prems have m: "m \<in> set ms" by simp
    with Cons.prems(1) have "lm_row_id m \<noteq> lm_row_id a" by (metis distinct.simps(2) imageI list.set_map list.simps(9))
    with Cons.prems(3) have "append_log sid a l (sid, lm_row_id m) = None" by (simp add: append_log_def)
    with Cons.IH m Cons.prems(1) show ?thesis by simp
  qed
qed simp

lemma station_logs_sorted:
  assumes "cdb_ok (ig_db s)"
  shows "set (station_logs s r) = {l \<in> set (cd_status_log (ig_db s)). r < rs_row_id l}"
    and "distinct (map rs_row_id (station_logs s r))"
proof -
  show "set (station_logs s r) = {l \<in> set (cd_status_log (ig_db s)). r < rs_row_id l}"
    by (auto simp: station_logs_def)
  have "distinct (map rs_row_id (filter P (cd_status_log (ig_db s))))" for P
    using assms strict_sorted_iff [of "map rs_row_id (cd_status_log (ig_db s))"]
    by (auto simp: cdb_ok_def intro: distinct_map_filter)
  then show "distinct (map rs_row_id (station_logs s r))"
    using mset_eq_imp_distinct_iff [of "map rs_row_id (station_logs s r)" "map rs_row_id (filter (\<lambda>l. r < rs_row_id l) (cd_status_log (ig_db s)))"]
    by (simp add: station_logs_def mset_map)
qed

definition mirrors :: "uuid \<Rightarrow> int \<Rightarrow> tide_db \<Rightarrow> ingest \<Rightarrow> bool" where
  "mirrors sid bound db s \<longleftrightarrow>
     (\<forall>l \<in> set (cd_status_log (ig_db s)). rs_row_id l \<le> bound \<longrightarrow> db_logged db (sid, rs_row_id l) = Some (client_row l))"

text \<open>
  C19: When the server's log of a station agrees with the station's own log up to the newest row id
  the server holds, then after the replayed status batch the server has every row of the station's
  log, and the server's item statuses of the replayed items are those of their last log entry.
\<close>

theorem replay_completes_status_log:
  assumes ok: "cdb_ok (ig_db s)" and k: "db_known db sid" and visit: "\<And>m. mset (visit m) = mset m"
    and mirror: "mirrors sid (newest_row sid db) db s" and up: "send_results st = []"
  shows "\<exists>row frames db' evs'. GetLatestStatusLogRowId sid db = (Inr row, db) \<and>
    sendReplayStatus (station_deps info sub cams snap) row (s, st) = (Inr (), (s, st\<lparr>outbox := outbox st @ frames\<rparr>)) \<and>
    forE (station_frame visit (db_server syncer) sid ident) frames (db, evs) = (Inr (), (db', evs')) \<and>
    (\<forall>l \<in> set (cd_status_log (ig_db s)). db_logged db' (sid, rs_row_id l) = Some (client_row l)) \<and>
    (\<forall>n. db_item_status db (sid, n) \<noteq> None \<longrightarrow> db_item_status db' (sid, n) =
       (case last_opt (filter (\<lambda>l. rs_item_name l = n) (station_logs s row)) of
          None \<Rightarrow> db_item_status db (sid, n) | Some l \<Rightarrow> Some (rs_status l, rs_changed_at l)))"
proof -
  let ?row = "newest_row sid db"
  let ?logs = "station_logs s ?row"
  let ?frames = "if ?logs = [] then [] else [ItemStatusBatch True (map pb_log ?logs)]"
  obtain db' evs' where handled: "handleItemStatusBatch visit DBStore event_notifier sid ident True (map pb_log ?logs) (db, evs) =
      (Inr (), (db', evs'))"
    and status: "\<forall>u n. db_item_status db' (u, n) =
        (case last_log n (map pb_log ?logs) of
           Some m \<Rightarrow> if u = sid \<and> db_item_status db (u, n) \<noteq> None
                     then Some (lm_status m, lm_changed_at_unix_ms m) else db_item_status db (u, n)
         | None \<Rightarrow> db_item_status db (u, n))"
    and logged: "db_logged db' = fold (append_log sid) (map pb_log ?logs) (db_logged db)"
    using db_status.replay_status_batch [of db sid visit ident "map pb_log ?logs" evs] k visit by blast
  have last: "last_log n (map pb_log ?logs) = map_option pb_log (last_opt (filter (\<lambda>l. rs_item_name l = n) ?logs))" for n
    by (simp add: last_log_def Let_def last_opt_def filter_map comp_def pb_log_def last_map)
  have frames: "\<exists>db'' evs''. forE (station_frame visit (db_server syncer) sid ident) ?frames (db, evs) = (Inr (), (db'', evs'')) \<and>
      db_logged db'' = db_logged db' \<and> db_item_status db'' = db_item_status db'"
  proof (cases "?logs = []")
    case True
    with logged status show ?thesis by (auto simp: retE_def last_log_def fun_eq_iff)
  next
    case False
    with handled show ?thesis by (auto simp: station_frame_def bindE_def retE_def)
  qed
  have rows: "db_logged db' (sid, rs_row_id l) = Some (client_row l)" if l: "l \<in> set (cd_status_log (ig_db s))" for l
  proof (cases "rs_row_id l \<le> ?row")
    case True
    then have "db_logged db' (sid, rs_row_id l) = db_logged db (sid, rs_row_id l)"
      unfolding logged by (intro append_logs_old) (auto simp: station_logs_sorted [OF ok] log_row_pb_log)
    with True mirror l show ?thesis by (simp add: mirrors_def)
  next
    case False
    then have "db_logged db (sid, rs_row_id l) = None" using newest_row_bound [of db sid "rs_row_id l"] by blast
    with False l show ?thesis
      unfolding logged using append_logs_new [of "map pb_log ?logs" "pb_log l" "db_logged db" sid] station_logs_sorted [OF ok, of ?row]
      by (simp add: log_row_pb_log comp_def)
  qed
  show ?thesis
    using GetLatestStatusLogRowId_newest station_replay.replay_logs [OF up, of info sub cams snap ?row s] frames rows status
    by (intro exI [of _ ?row] exI [of _ ?frames]) (auto simp: last pb_log_def split: option.split)
qed

theorem replay_completes_status_log_witness:
  "\<exists>row frames db' evs'. sendReplayStatus (station_deps gauge_info 1 (\<lambda>_. None) (\<lambda>_. Inr [])) row (gauge_station, new_stream []) =
      (Inr (), (gauge_station, (new_stream [])\<lparr>outbox := frames\<rparr>)) \<and>
    forE (station_frame rev (db_server (\<lambda>_ _. retE ())) 7 ''s'') frames (one_item_db, []) = (Inr (), (db', evs')) \<and>
    db_logged db' (7, 1) = Some \<lparr>sl_item_name = ''water'', sl_status = Normal, sl_changed_at = 10\<rparr>"
proof -
  have row: "newest_row 7 one_item_db = 0"
    by (simp add: newest_row_def server_rows_def one_item_db_def empty_db_def)
  have "cdb_ok (ig_db gauge_station)" by (simp add: cdb_ok_def gauge_station_def)
  moreover have "db_known one_item_db 7" by (simp add: db_known_def one_item_db_def)
  moreover have "mirrors 7 (newest_row 7 one_item_db) one_item_db gauge_station"
    by (simp add: mirrors_def row gauge_station_def)
  ultimately obtain row frames db' evs' where
    "sendReplayStatus (station_deps gauge_info 1 (\<lambda>_. None) (\<lambda>_. Inr [])) row (gauge_station, new_stream []) =
      (Inr (), (gauge_station, (new_stream [])\<lparr>outbox := outbox (new_stream [] :: station_message stream) @ frames\<rparr>))"
    "forE (station_frame rev (db_server (\<lambda>_ _. retE ())) 7 ''s'') frames (one_item_db, []) = (Inr (), (db', evs'))"
    "\<forall>l \<in> set (cd_status_log (ig_db gauge_station)). db_logged db' (7, rs_row_id l) = Some (client_row l)"
    using replay_completes_status_log [of gauge_station one_item_db 7 rev "new_stream []" gauge_info 1 "\<lambda>_. None" "\<lambda>_. Inr []"
      "\<lambda>_ _. retE ()" "''s''" "[]"]
    by (auto simp: new_stream_def)
  then show ?thesis by (auto simp: gauge_station_def client_row_def new_stream_def)
qed

end
