(* ===== verification/GoStrconv.thy ===== *)
theory GoStrconv
  imports Common StationProto
begin

text \<open>
  The parts of Go's packages \<^verbatim>\<open>strconv\<close> and \<^verbatim>\<open>encoding/base64\<close> the program uses, with their printers,
  and the round trips between them.
\<close>

section \<open>Numbers\<close>

text \<open>
  \<^verbatim>\<open>strconv.ParseInt(s, 10, 64)\<close>: an optional sign and at least one digit. On a syntax error the value
  is 0, out of range it is the nearest int64; the second component is the error. \<^verbatim>\<open>Atoi\<close> is the same
  conversion, \<^verbatim>\<open>ParseUint\<close> takes no sign.
\<close>

definition digit_val :: "char \<Rightarrow> nat option" where
  "digit_val c = (if 48 \<le> (of_char c :: nat) \<and> (of_char c :: nat) \<le> 57 then Some (of_char c - 48) else None)"

fun digits_val :: "nat \<Rightarrow> string \<Rightarrow> nat option" where
  "digits_val n [] = Some n"
| "digits_val n (c # s) = (case digit_val c of None \<Rightarrow> None | Some d \<Rightarrow> digits_val (10 * n + d) s)"

definition err_syntax :: go_error where "err_syntax = ErrorString ''invalid syntax''"
definition err_range :: go_error where "err_range = ErrorString ''value out of range''"

definition unsigned_val :: "string \<Rightarrow> nat option" where
  "unsigned_val s = (if s = [] then None else digits_val 0 s)"

definition sign_of :: "string \<Rightarrow> bool \<times> string" where
  "sign_of s =
     (case s of
        [] \<Rightarrow> (False, [])
      | c # rest \<Rightarrow> if c = CHR ''-'' then (True, rest) else if c = CHR ''+'' then (False, rest) else (False, s))"

definition ParseInt :: "string \<Rightarrow> int \<times> go_error option" where
  "ParseInt s =
     (let (neg, body) = sign_of s in
      case unsigned_val body of
        None \<Rightarrow> (0, Some err_syntax)
      | Some n \<Rightarrow>
          if \<not> neg \<and> 2 ^ 63 \<le> int n then (2 ^ 63 - 1, Some err_range)
          else if neg \<and> 2 ^ 63 < int n then (- (2 ^ 63), Some err_range)
          else (if neg then - int n else int n, None))"

definition Atoi :: "string \<Rightarrow> int result" where
  "Atoi s = (case ParseInt s of (i, None) \<Rightarrow> Inr i | (_, Some e) \<Rightarrow> Inl e)"

definition ParseUint :: "string \<Rightarrow> nat result" where
  "ParseUint s =
     (case unsigned_val s of
        None \<Rightarrow> Inl err_syntax
      | Some n \<Rightarrow> if 2 ^ 64 \<le> n then Inl err_range else Inr n)"

text \<open>The decimal printer, \<^verbatim>\<open>strconv.FormatInt(i, 10)\<close>.\<close>

fun decimal :: "nat \<Rightarrow> string" where
  "decimal n = (if n < 10 then [] else decimal (n div 10)) @ [char_of (48 + n mod 10)]"

declare decimal.simps [simp del]

definition FormatInt :: "int \<Rightarrow> string" where
  "FormatInt i = (if i < 0 then CHR ''-'' # decimal (nat (- i)) else decimal (nat i))"

section \<open>Base64\<close>

text \<open>
  \<^verbatim>\<open>base64.RawStdEncoding\<close> and \<^verbatim>\<open>base64.StdEncoding\<close>: line breaks are skipped, unused low bits of the
  last digit are not checked, and the padded form has whole groups of four.
\<close>

definition b64_alphabet :: string where
  "b64_alphabet = ''ABCDEFGHIJKLMNOPQRSTUVWXYZabcdefghijklmnopqrstuvwxyz0123456789+/''"

fun position :: "char \<Rightarrow> string \<Rightarrow> nat option" where
  "position c [] = None"
| "position c (d # ds) = (if c = d then Some 0 else map_option Suc (position c ds))"

fun b64_digits :: "string \<Rightarrow> nat list option" where
  "b64_digits [] = Some []"
| "b64_digits (c # s) =
     (case position c b64_alphabet of
        None \<Rightarrow> None
      | Some v \<Rightarrow> (case b64_digits s of None \<Rightarrow> None | Some vs \<Rightarrow> Some (v # vs)))"

definition byte_of :: "nat \<Rightarrow> byte" where
  "byte_of n = of_nat n"

fun b64_bytes :: "nat list \<Rightarrow> byte list option" where
  "b64_bytes [] = Some []"
| "b64_bytes [a] = None"
| "b64_bytes [a, b] = Some [byte_of (a * 4 + b div 16)]"
| "b64_bytes [a, b, c] = Some [byte_of (a * 4 + b div 16), byte_of ((b mod 16) * 16 + c div 4)]"
| "b64_bytes (a # b # c # d # rest) =
     (case b64_bytes rest of
        None \<Rightarrow> None
      | Some bs \<Rightarrow> Some (byte_of (a * 4 + b div 16) # byte_of ((b mod 16) * 16 + c div 4) #
                         byte_of ((c mod 4) * 64 + d) # bs))"

definition err_corrupt :: go_error where "err_corrupt = ErrorString ''illegal base64 data''"

definition drop_breaks :: "string \<Rightarrow> string" where
  "drop_breaks s = filter (\<lambda>c. c \<noteq> CHR 0x0A \<and> c \<noteq> CHR 0x0D) s"

definition RawStd_DecodeString :: "string \<Rightarrow> byte list result" where
  "RawStd_DecodeString s =
     (case Option.bind (b64_digits (drop_breaks s)) b64_bytes of None \<Rightarrow> Inl err_corrupt | Some bs \<Rightarrow> Inr bs)"

definition strip_padding :: "string \<Rightarrow> string" where
  "strip_padding s =
     (if 2 \<le> length s \<and> drop (length s - 2) s = ''=='' then take (length s - 2) s
      else if s \<noteq> [] \<and> last s = CHR ''='' then butlast s
      else s)"

definition Std_DecodeString :: "string \<Rightarrow> byte list result" where
  "Std_DecodeString s =
     (let t = drop_breaks s in
      if length t mod 4 \<noteq> 0 then Inl err_corrupt
      else case Option.bind (b64_digits (strip_padding t)) b64_bytes of None \<Rightarrow> Inl err_corrupt | Some bs \<Rightarrow> Inr bs)"

definition b64_char :: "nat \<Rightarrow> char" where
  "b64_char v = b64_alphabet ! v"

fun b64_encode :: "byte list \<Rightarrow> string" where
  "b64_encode [] = []"
| "b64_encode [x] = [b64_char (unat x div 4), b64_char ((unat x mod 4) * 16)]"
| "b64_encode [x, y] =
     [b64_char (unat x div 4), b64_char ((unat x mod 4) * 16 + unat y div 16), b64_char ((unat y mod 16) * 4)]"
| "b64_encode (x # y # z # bs) =
     b64_char (unat x div 4) # b64_char ((unat x mod 4) * 16 + unat y div 16) #
     b64_char ((unat y mod 16) * 4 + unat z div 64) # b64_char (unat z mod 64) # b64_encode bs"

section \<open>Round trips\<close>

lemma digit_val_char: "d < 10 \<Longrightarrow> digit_val (char_of (48 + d)) = Some d"
  by (simp add: digit_val_def)

lemma digits_val_append:
  "digits_val n (s @ [c]) =
     (case digits_val n s of None \<Rightarrow> None | Some m \<Rightarrow> map_option (\<lambda>d. 10 * m + d) (digit_val c))"
  by (induction s arbitrary: n) (auto split: option.split)

lemma digits_val_decimal: "digits_val 0 (decimal n) = Some n"
proof (induction n rule: decimal.induct)
  case (1 n)
  then show ?case
    by (subst decimal.simps) (auto simp: digits_val_append digit_val_char)
qed

lemma decimal_not_Nil [simp]: "decimal n \<noteq> []"
  by (subst decimal.simps) simp

lemma decimal_chars: "c \<in> set (decimal n) \<Longrightarrow> digit_val c \<noteq> None"
proof (induction n rule: decimal.induct)
  case (1 n)
  from 1(2) have "(\<not> n < 10 \<and> c \<in> set (decimal (n div 10))) \<or> c = char_of (48 + n mod 10)"
    by (subst (asm) decimal.simps) (auto split: if_splits)
  with 1(1) show ?case by (auto simp: digit_val_char)
qed

lemma digit_not_special: "digit_val c \<noteq> None \<Longrightarrow> c \<notin> set ''$,=-+''"
  by (auto simp: digit_val_def)

lemma Atoi_decimal:
  assumes "int n < 2 ^ 63"
  shows "Atoi (decimal n) = Inr (int n)"
proof -
  obtain c s where d: "decimal n = c # s" by (cases "decimal n") auto
  have "c \<notin> set ''$,=-+''" using decimal_chars [of c n] d digit_not_special [of c] by auto
  then have "c \<noteq> CHR ''-''" "c \<noteq> CHR ''+''" by auto
  then show ?thesis
    using assms digits_val_decimal [of n] by (simp add: Atoi_def ParseInt_def sign_of_def Let_def d unsigned_val_def)
qed

lemma position_b64: "v < 64 \<Longrightarrow> position (b64_char v) b64_alphabet = Some v"
proof -
  have "list_all (\<lambda>v. position (b64_char v) b64_alphabet = Some v) [0..<64]"
    by code_simp
  then show "v < 64 \<Longrightarrow> ?thesis" by (simp add: list_all_iff)
qed

lemma byte_lt: "unat (x :: byte) < 256"
  using unsigned_less [of x, where ?'a = nat] by simp

lemma byte_of_unat: "n = unat x \<Longrightarrow> byte_of n = x"
  by (simp add: byte_of_def)

lemma b64_parts:
  fixes x y z :: byte
  shows "unat x div 4 < 64" "(unat x mod 4) * 16 < 64" "(unat x mod 4) * 16 + unat y div 16 < 64"
    "(unat y mod 16) * 4 < 64" "(unat y mod 16) * 4 + unat z div 64 < 64" "unat z mod 64 < 64"
  using byte_lt [of x] byte_lt [of y] byte_lt [of z] by linarith+

lemma b64_split:
  fixes x y :: byte
  shows "(k * 16 + unat y div 16) div 16 = k" "(k * 16 + unat y div 16) mod 16 = unat y div 16"
    "(k * 4 + unat y div 64) div 4 = k" "(k * 4 + unat y div 64) mod 4 = unat y div 64"
    "unat y div 16 mod 16 = unat y div 16" "unat y div 64 mod 4 = unat y div 64"
proof -
  have "unat y div 16 < 16" "unat y div 64 < 4"
    using byte_lt [of y] by linarith+
  then show "(k * 16 + unat y div 16) div 16 = k" "(k * 16 + unat y div 16) mod 16 = unat y div 16"
    "(k * 4 + unat y div 64) div 4 = k" "(k * 4 + unat y div 64) mod 4 = unat y div 64"
    "unat y div 16 mod 16 = unat y div 16" "unat y div 64 mod 4 = unat y div 64"
    by simp_all
qed

lemma b64_join: "byte_of (unat x) = x" "byte_of (unat x div 4 * 4 + unat x mod 4) = x" "byte_of (unat x div 16 * 16 + unat x mod 16) = x"
  "byte_of (unat x div 64 * 64 + unat x mod 64) = x" for x :: byte
  by (rule byte_of_unat, simp)+

lemmas b64_simps = position_b64 [OF b64_parts(1)] position_b64 [OF b64_parts(2)] position_b64 [OF b64_parts(3)]
  position_b64 [OF b64_parts(4)] position_b64 [OF b64_parts(5)] position_b64 [OF b64_parts(6)] b64_split b64_join

lemma b64_encode_digits:
  "\<exists>ds. b64_digits (b64_encode bs) = Some ds \<and> b64_bytes ds = Some bs"
proof (induction bs rule: b64_encode.induct)
  case 1
  then show ?case by simp
next
  case (2 x)
  show ?case by (simp only: b64_encode.simps b64_digits.simps b64_simps option.case) (simp add: b64_simps)
next
  case (3 x y)
  show ?case by (simp only: b64_encode.simps b64_digits.simps b64_simps option.case) (simp add: b64_simps)
next
  case (4 x y z bs)
  then obtain ds where "b64_digits (b64_encode bs) = Some ds" "b64_bytes ds = Some bs" by blast
  then show ?case by (simp only: b64_encode.simps b64_digits.simps b64_simps option.case) (simp add: b64_simps)
qed

lemma b64_encode_chars: "c \<in> set (b64_encode bs) \<Longrightarrow> c \<in> set b64_alphabet"
proof -
  have in_set: "v < 64 \<Longrightarrow> b64_char v \<in> set b64_alphabet" for v
    unfolding b64_char_def by (rule nth_mem) (simp add: b64_alphabet_def)
  show "c \<in> set (b64_encode bs) \<Longrightarrow> ?thesis"
    by (induction bs rule: b64_encode.induct) (auto intro!: in_set b64_parts)
qed

lemma b64_encode_free: "c \<notin> set b64_alphabet \<Longrightarrow> c \<notin> set (b64_encode bs)"
  using b64_encode_chars by blast

lemma b64_encode_not_Nil [simp]: "b64_encode bs = [] \<longleftrightarrow> bs = []"
  by (cases bs rule: b64_encode.cases) auto

lemma decimal_free: "c \<in> set ''$,=-+'' \<Longrightarrow> c \<notin> set (decimal n)"
  using decimal_chars digit_not_special by blast

lemma decimal_free_simps [simp]:
  "CHR ''$'' \<notin> set (decimal n)" "CHR '','' \<notin> set (decimal n)" "CHR ''='' \<notin> set (decimal n)"
  by (rule decimal_free, simp)+

end
