(* ===== verification/PasswordHash.thy ===== *)
theory PasswordHash
  imports GoStrconv
begin

text \<open>
  Password hashes (\<^verbatim>\<open>tide_server/auth/usermanager/password_hash.go\<close>): the PHC string parser and
  the PBKDF2-SHA256 verification.

  The two hash functions come from packages outside the repository (\<^verbatim>\<open>argon2id\<close>,
  \<^verbatim>\<open>x/crypto/pbkdf2\<close>) and are the fields of \<open>hash_lib\<close>. The lemmas show that the parser accepts
  every well-formed PHC string and that the key derivation is only asked for bounded work.
\<close>

record hash_lib =
  CreateHash :: "string \<Rightarrow> string result"
  ComparePasswordAndHash :: "string \<Rightarrow> string \<Rightarrow> bool result"
  pbkdf2_Key :: "string \<Rightarrow> byte list \<Rightarrow> int \<Rightarrow> int \<Rightarrow> byte list"

definition maxPBKDF2Iterations :: int where "maxPBKDF2Iterations = 10000000"
definition maxPBKDF2KeyLen :: int where "maxPBKDF2KeyLen = 1024"

section \<open>The PHC parser\<close>

definition createPasswordHash :: "hash_lib \<Rightarrow> string \<Rightarrow> string result" where
  "createPasswordHash lib password = CreateHash lib password"

definition decodePHCBase64 :: "string \<Rightarrow> byte list result" where
  "decodePHCBase64 s =
     (case RawStd_DecodeString s of Inr decoded \<Rightarrow> Inr decoded | Inl _ \<Rightarrow> Std_DecodeString s)"

fun phc_params_loop :: "string list \<Rightarrow> (string, string) go_map \<Rightarrow> (string, string) go_map option" where
  "phc_params_loop [] params = Some params"
| "phc_params_loop (entry # rest) params =
     (case SplitN2 entry (CHR ''='') of
        [k, v] \<Rightarrow> if k = [] \<or> v = [] then None
                 else if map_of params k \<noteq> None then None
                 else phc_params_loop rest (AList.update k v params)
      | _ \<Rightarrow> None)"

definition parsePHCParams :: "string \<Rightarrow> (string, string) go_map option" where
  "parsePHCParams s = (if s = [] then None else phc_params_loop (Split s (CHR '','')) [])"

definition phc_version_ok :: "string \<Rightarrow> bool" where
  "phc_version_ok p \<longleftrightarrow>
     HasPrefix p ''v='' \<and> (case Atoi (drop 2 p) of Inl _ \<Rightarrow> False | Inr version \<Rightarrow> 0 \<le> version)"

definition parsePHCPBKDF2SHA256Parts :: "string \<Rightarrow> (string \<times> string \<times> string) option" where
  "parsePHCPBKDF2SHA256Parts encodedHash =
     (let parts = Split encodedHash (CHR ''$'') in
      if length parts \<noteq> 5 \<and> length parts \<noteq> 6 then None
      else if parts ! 0 \<noteq> [] \<or> parts ! 1 \<noteq> ''pbkdf2-sha256'' then None
      else if length parts = 6 \<and> \<not> phc_version_ok (parts ! 2) then None
      else
        let paramsIdx = (if length parts = 6 then 3 else 2) in
        if parts ! paramsIdx = [] \<or> parts ! (paramsIdx + 1) = [] \<or> parts ! (paramsIdx + 2) = [] then None
        else Some (parts ! paramsIdx, parts ! (paramsIdx + 1), parts ! (paramsIdx + 2)))"

text \<open>The numeric parameters: the iteration count, and the key length (0 when \<open>l\<close> is absent).\<close>

definition phc_work :: "(string, string) go_map \<Rightarrow> (int \<times> int) option" where
  "phc_work params =
     (if \<exists>key \<in> set (map fst params). key \<noteq> ''i'' \<and> key \<noteq> ''l'' then None
      else case map_of params ''i'' of
        None \<Rightarrow> None
      | Some iterationsText \<Rightarrow>
          (case Atoi iterationsText of
             Inl _ \<Rightarrow> None
           | Inr iterations \<Rightarrow>
               if iterations \<le> 0 \<or> maxPBKDF2Iterations < iterations then None
               else (case map_of params ''l'' of
                 None \<Rightarrow> Some (iterations, 0)
               | Some lText \<Rightarrow>
                   (case Atoi lText of
                      Inl _ \<Rightarrow> None
                    | Inr l \<Rightarrow> if l \<le> 0 \<or> maxPBKDF2KeyLen < l then None else Some (iterations, l)))))"

definition verifyPHCPBKDF2SHA256 :: "hash_lib \<Rightarrow> string \<Rightarrow> string \<Rightarrow> bool" where
  "verifyPHCPBKDF2SHA256 lib password encodedHash =
     (case parsePHCPBKDF2SHA256Parts encodedHash of
        None \<Rightarrow> False
      | Some (paramsPart, saltPart, checksumPart) \<Rightarrow>
          (case Option.bind (parsePHCParams paramsPart) phc_work of
             None \<Rightarrow> False
           | Some (iterations, l) \<Rightarrow>
               (case decodePHCBase64 saltPart of
                  Inl _ \<Rightarrow> False
                | Inr salt \<Rightarrow>
                    if salt = [] then False
                    else (case decodePHCBase64 checksumPart of
                      Inl _ \<Rightarrow> False
                    | Inr checksum \<Rightarrow>
                        if checksum = [] then False
                        else
                          let dkLen = (if l = 0 then int (length checksum) else l) in
                          if maxPBKDF2KeyLen < dkLen \<or> dkLen \<noteq> int (length checksum) then False
                          else pbkdf2_Key lib password salt iterations dkLen = checksum))))"

definition verifyPasswordHash :: "hash_lib \<Rightarrow> string \<Rightarrow> string \<Rightarrow> bool" where
  "verifyPasswordHash lib password hash =
     (if HasPrefix hash ''$argon2'' then
        (case ComparePasswordAndHash lib password hash of Inl _ \<Rightarrow> False | Inr ok \<Rightarrow> ok)
      else if HasPrefix hash ''$pbkdf2-sha256$'' then verifyPHCPBKDF2SHA256 lib password hash
      else False)"

section \<open>What verification accepts\<close>

lemma phc_work_bounds:
  "phc_work params = Some (it, l) \<Longrightarrow>
     0 < it \<and> it \<le> maxPBKDF2Iterations \<and> 0 \<le> l \<and> l \<le> maxPBKDF2KeyLen"
  by (auto simp: phc_work_def maxPBKDF2KeyLen_def split: if_splits option.splits sum.splits)

lemma verifyPHC_iff:
  assumes "parsePHCPBKDF2SHA256Parts hash = Some (pp, sp, cp)" "Option.bind (parsePHCParams pp) phc_work = Some (it, l)"
    and "decodePHCBase64 sp = Inr salt" "decodePHCBase64 cp = Inr cs"
  shows "verifyPHCPBKDF2SHA256 lib pw hash \<longleftrightarrow>
     salt \<noteq> [] \<and> cs \<noteq> [] \<and> int (length cs) \<le> maxPBKDF2KeyLen \<and> (l = 0 \<or> l = int (length cs)) \<and>
     pbkdf2_Key lib pw salt it (int (length cs)) = cs"
  unfolding verifyPHCPBKDF2SHA256_def assms prod.case option.case sum.case Let_def by auto

lemma verifyPHC_cases:
  assumes "verifyPHCPBKDF2SHA256 lib pw hash"
  obtains pp sp cp it l salt cs where "parsePHCPBKDF2SHA256Parts hash = Some (pp, sp, cp)"
    "Option.bind (parsePHCParams pp) phc_work = Some (it, l)" "decodePHCBase64 sp = Inr salt" "decodePHCBase64 cp = Inr cs"
proof -
  obtain pp sp cp where 1: "parsePHCPBKDF2SHA256Parts hash = Some (pp, sp, cp)"
    using assms by (cases "parsePHCPBKDF2SHA256Parts hash") (auto simp: verifyPHCPBKDF2SHA256_def)
  obtain it l where 2: "Option.bind (parsePHCParams pp) phc_work = Some (it, l)"
    using assms 1 by (cases "Option.bind (parsePHCParams pp) phc_work") (auto simp: verifyPHCPBKDF2SHA256_def)
  obtain salt where 3: "decodePHCBase64 sp = Inr salt"
    using assms 1 2 by (cases "decodePHCBase64 sp") (auto simp: verifyPHCPBKDF2SHA256_def)
  obtain cs where 4: "decodePHCBase64 cp = Inr cs"
    using assms 1 2 3 by (cases "decodePHCBase64 cp") (auto simp: verifyPHCPBKDF2SHA256_def split: if_splits)
  show thesis using that [OF 1 2 3 4] .
qed

lemma verifyPHC_transfer:
  assumes "\<And>salt it l. salt \<noteq> [] \<Longrightarrow> 0 < it \<Longrightarrow> it \<le> maxPBKDF2Iterations \<Longrightarrow> 0 < l \<Longrightarrow> l \<le> maxPBKDF2KeyLen \<Longrightarrow>
             pbkdf2_Key lib pw salt it l = pbkdf2_Key lib' pw salt it l"
    and "verifyPHCPBKDF2SHA256 lib pw hash"
  shows "verifyPHCPBKDF2SHA256 lib' pw hash"
  using assms(2)
proof (rule verifyPHC_cases)
  fix pp sp cp it l salt cs
  assume p: "parsePHCPBKDF2SHA256Parts hash = Some (pp, sp, cp)"
    "Option.bind (parsePHCParams pp) phc_work = Some (it, l)" "decodePHCBase64 sp = Inr salt" "decodePHCBase64 cp = Inr cs"
  then have "0 < it" "it \<le> maxPBKDF2Iterations"
    by (auto simp: bind_eq_Some_conv dest: phc_work_bounds)
  with assms show ?thesis
    unfolding verifyPHC_iff [OF p] by (auto simp: assms(1) [symmetric])
qed

text \<open>
  The key derivation function is only ever asked for bounded work. Two libraries that agree on
  every call with an iteration count in 1..10000000, a key length in 1..1024 and a non-empty salt
  give the same verdict on every stored hash, whatever the stored string claims.
\<close>

theorem pbkdf2_work_bounded:
  assumes "\<And>salt it l. salt \<noteq> [] \<Longrightarrow> 0 < it \<Longrightarrow> it \<le> maxPBKDF2Iterations \<Longrightarrow> 0 < l \<Longrightarrow> l \<le> maxPBKDF2KeyLen \<Longrightarrow>
             pbkdf2_Key lib pw salt it l = pbkdf2_Key lib' pw salt it l"
  shows "verifyPHCPBKDF2SHA256 lib pw hash = verifyPHCPBKDF2SHA256 lib' pw hash"
  using verifyPHC_transfer [of lib pw lib' hash] verifyPHC_transfer [of lib' pw lib hash] assms by metis

text \<open>A library that answers only calls within the bounds, and one that answers every call.\<close>

definition demo_key :: "string \<Rightarrow> byte list \<Rightarrow> int \<Rightarrow> int \<Rightarrow> byte list" where
  "demo_key pw salt it l = map (\<lambda>i. byte_of (length pw + length salt + nat it + i)) [0..<nat l]"

definition demo_lib :: hash_lib where
  "demo_lib = \<lparr>CreateHash = (\<lambda>pw. Inr (''$argon2id$'' @ pw)), ComparePasswordAndHash = (\<lambda>pw h. Inr (h = ''$argon2id$'' @ pw)),
     pbkdf2_Key = demo_key\<rparr>"

definition strict_lib :: hash_lib where
  "strict_lib = demo_lib\<lparr>pbkdf2_Key := (\<lambda>pw salt it l.
     if salt \<noteq> [] \<and> 0 < it \<and> it \<le> maxPBKDF2Iterations \<and> 0 < l \<and> l \<le> maxPBKDF2KeyLen then demo_key pw salt it l else [])\<rparr>"

theorem pbkdf2_work_bounded_witness:
  "verifyPHCPBKDF2SHA256 demo_lib ''pw'' ''$pbkdf2-sha256$i=3$AQ$Bg'' = verifyPHCPBKDF2SHA256 strict_lib ''pw'' ''$pbkdf2-sha256$i=3$AQ$Bg''"
  by (rule pbkdf2_work_bounded) (simp add: strict_lib_def demo_lib_def)

section \<open>Every well-formed string is accepted\<close>

text \<open>The string of an iteration count, a salt and a checksum.\<close>

definition phc_string :: "nat \<Rightarrow> byte list \<Rightarrow> byte list \<Rightarrow> string" where
  "phc_string it salt checksum =
     ''$pbkdf2-sha256$i='' @ decimal it @ '',l='' @ decimal (length checksum) @ ''$'' @ b64_encode salt @ ''$'' @ b64_encode checksum"

lemma decodePHCBase64_encode: "decodePHCBase64 (b64_encode bs) = Inr bs"
proof -
  have "CHR 0x0A \<notin> set (b64_encode bs)" "CHR 0x0D \<notin> set (b64_encode bs)"
    by (rule b64_encode_free, simp add: b64_alphabet_def)+
  then have "drop_breaks (b64_encode bs) = b64_encode bs"
    by (auto simp: drop_breaks_def filter_id_conv)
  then show ?thesis
    using b64_encode_digits [of bs] by (auto simp: decodePHCBase64_def RawStd_DecodeString_def)
qed

definition phc_params :: "nat \<Rightarrow> nat \<Rightarrow> string" where
  "phc_params it l = ''i='' @ decimal it @ CHR '','' # ''l='' @ decimal l"

lemma phc_string_parts:
  assumes "salt \<noteq> []" "checksum \<noteq> []"
  shows "parsePHCPBKDF2SHA256Parts (phc_string it salt checksum) =
     Some (phc_params it (length checksum), b64_encode salt, b64_encode checksum)"
proof -
  have free: "CHR ''$'' \<notin> set (b64_encode salt)" "CHR ''$'' \<notin> set (b64_encode checksum)"
    by (rule b64_encode_free, simp add: b64_alphabet_def)+
  have str: "phc_string it salt checksum = [] @ CHR ''$'' # ''pbkdf2-sha256'' @ CHR ''$'' #
      phc_params it (length checksum) @ CHR ''$'' # b64_encode salt @ CHR ''$'' # b64_encode checksum"
    by (simp add: phc_string_def phc_params_def)
  have "CHR ''$'' \<notin> set (phc_params it (length checksum))" "CHR ''$'' \<notin> set ''pbkdf2-sha256''" "CHR ''$'' \<notin> set []"
    by (simp_all add: phc_params_def)
  with free have "Split (phc_string it salt checksum) (CHR ''$'') =
      [[], ''pbkdf2-sha256'', phc_params it (length checksum), b64_encode salt, b64_encode checksum]"
    unfolding str by (simp only: Split_append_sep Split_sep_free not_False_eq_True)
  then show ?thesis
    using assms by (simp add: parsePHCPBKDF2SHA256Parts_def phc_params_def)
qed

lemma SplitN2_param: "SplitN2 (c # CHR ''='' # v) (CHR ''='') = [[c], v]" if "c \<noteq> CHR ''=''"
  using that by (simp add: SplitN2_def)

lemma phc_params_work:
  assumes "0 < it" "int it \<le> maxPBKDF2Iterations" "0 < l" "int l \<le> maxPBKDF2KeyLen"
  shows "Option.bind (parsePHCParams (phc_params it l)) phc_work = Some (int it, int l)"
proof -
  have "Split (phc_params it l) (CHR '','') = [''i='' @ decimal it, ''l='' @ decimal l]"
    using Split_append_sep [of "CHR '',''" "''i='' @ decimal it" "''l='' @ decimal l"] by (simp add: phc_params_def Split_sep_free)
  then have "parsePHCParams (phc_params it l) = Some [(''i'', decimal it), (''l'', decimal l)]"
    by (simp add: parsePHCParams_def phc_params_def SplitN2_param)
  moreover have "Atoi (decimal it) = Inr (int it)" "Atoi (decimal l) = Inr (int l)"
    using assms by (simp_all add: Atoi_decimal maxPBKDF2Iterations_def maxPBKDF2KeyLen_def)
  ultimately show ?thesis using assms by (simp add: phc_work_def)
qed

text \<open>
  A PBKDF2 hash in PHC form is read back exactly. For every iteration count, salt and checksum
  within the limits, the string that encodes them is accepted for a password if and only if the key
  derived from that password, salt, count and length is the checksum.
\<close>

theorem phc_hash_roundtrip:
  assumes "0 < it" "int it \<le> maxPBKDF2Iterations" "salt \<noteq> []" "checksum \<noteq> []" "int (length checksum) \<le> maxPBKDF2KeyLen"
  shows "verifyPasswordHash lib pw (phc_string it salt checksum) \<longleftrightarrow>
           pbkdf2_Key lib pw salt (int it) (int (length checksum)) = checksum"
proof -
  have "verifyPasswordHash lib pw (phc_string it salt checksum) = verifyPHCPBKDF2SHA256 lib pw (phc_string it salt checksum)"
    by (simp add: verifyPasswordHash_def phc_string_def HasPrefix_def)
  also have "\<dots> \<longleftrightarrow> pbkdf2_Key lib pw salt (int it) (int (length checksum)) = checksum"
    using assms by (subst verifyPHC_iff [OF phc_string_parts phc_params_work decodePHCBase64_encode decodePHCBase64_encode]) simp_all
  finally show ?thesis .
qed

theorem phc_hash_roundtrip_witness:
  "verifyPasswordHash demo_lib ''pw'' (phc_string 3 [1] [6]) \<longleftrightarrow> pbkdf2_Key demo_lib ''pw'' [1] 3 1 = [6]"
  using phc_hash_roundtrip [of 3 "[1]" "[6]" demo_lib "''pw''"] by (simp add: maxPBKDF2Iterations_def maxPBKDF2KeyLen_def)

end
