(* ===== verification/SyncHub.thy ===== *)
theory SyncHub
  imports ServerDB Pubsub
begin

text \<open>
  The hub of \<^verbatim>\<open>tide_server/controller/sync_hub.go\<close>: the brokers, the subscribers each user has open
  and the reaction to permission changes; the messages are those of \<^verbatim>\<open>sync_common.go\<close>.

  The Go body of a message is an \<^verbatim>\<open>any\<close>; \<open>msg_body\<close> has one constructor per type the program puts
  there. The user manager and the permission loader are interfaces: what their calls return is an
  argument (\<open>getRole\<close>, \<open>getPermissions\<close>). The delayed broker keeps its messages in order until
  \<open>dispatch_delayed\<close>; its goroutines are the subject of \<open>DelayedBroker\<close>.
\<close>

unbundle bit_operations_syntax

datatype msg_body =
    BStation station
  | BDevice device
  | BItem item
  | BDeviceRecord DeviceRecord
  | BStationId uuid
  | BAvailable uuid_strings_map
  | BStationStatus station_status
  | BFullItemStatus full_item_status
  | BJson json

datatype hub_message =
    SendMsg string msg_body
  | ForwardData string station_item data_time

definition kMsgSyncStation :: string where "kMsgSyncStation = ''SyncStation''"
definition kMsgSyncStationCannotEdit :: string where "kMsgSyncStationCannotEdit = ''SyncStationCannotEdit''"
definition kMsgDelUpstreamStation :: string where "kMsgDelUpstreamStation = ''DelUpstreamStation''"
definition kMsgSyncDevice :: string where "kMsgSyncDevice = ''SyncDevice''"
definition kMsgDelDevice :: string where "kMsgDelDevice = ''DelDevice''"
definition kMsgSyncItem :: string where "kMsgSyncItem = ''SyncItem''"
definition kMsgDelItem :: string where "kMsgDelItem = ''DelItem''"
definition kMsgEditDeviceRecord :: string where "kMsgEditDeviceRecord = ''EditDeviceRecord''"
definition kMsgUpdateAvailable :: string where "kMsgUpdateAvailable = ''update_available''"
definition kMsgUpdateStationStatus :: string where "kMsgUpdateStationStatus = ''UpdateStationStatus''"
definition kMsgMissItemStatus :: string where "kMsgMissItemStatus = ''MissItemStatus''"
definition kMsgUpdateItemStatus :: string where "kMsgUpdateItemStatus = ''UpdateItemStatus''"
definition kMsgMissData :: string where "kMsgMissData = ''MissData''"
definition kMsgData :: string where "kMsgData = ''data''"
definition kMsgDataGpio :: string where "kMsgDataGpio = ''data_gpio''"

lemmas kMsg_defs = kMsgSyncStation_def kMsgSyncStationCannotEdit_def kMsgDelUpstreamStation_def kMsgSyncDevice_def
  kMsgDelDevice_def kMsgSyncItem_def kMsgDelItem_def kMsgEditDeviceRecord_def kMsgUpdateAvailable_def
  kMsgUpdateStationStatus_def kMsgMissItemStatus_def kMsgUpdateItemStatus_def kMsgMissData_def kMsgData_def
  kMsgDataGpio_def

definition connTypeWebBrowser :: int where "connTypeWebBrowser = 1"
definition connTypeSyncData :: int where "connTypeSyncData = 2"
definition connTypeSyncConfig :: int where "connTypeSyncConfig = 4"
definition connTypeAny :: int where "connTypeAny = -1"

lemmas connType_defs = connTypeWebBrowser_def connTypeSyncData_def connTypeSyncConfig_def connTypeAny_def

definition matches :: "int \<Rightarrow> int \<Rightarrow> bool" where
  "matches connMask connType \<longleftrightarrow> connMask AND connType \<noteq> 0"

datatype BrokerKind = BrokerData | BrokerMissingData | BrokerStatus | BrokerConfig

type_synonym user_subs = "(sub_id, int) go_map"

record sync_hub =
  hub_subs :: "hub_message sub_heap"
  dataBroker :: "station_item broker"
  missingDataBroker :: "station_item broker"
  statusBroker :: "station_item broker"
  configBroker :: "station_item broker"
  hub_delay :: int
  hub_delayed :: "(hub_message \<times> station_item option) list"
  subscribersByUser :: "(string, user_subs) go_map"

definition NewSyncHub :: "int \<Rightarrow> hub_message sub_heap \<Rightarrow> sync_hub" where
  "NewSyncHub d subs = \<lparr>hub_subs = subs, dataBroker = NewBroker, missingDataBroker = NewBroker, statusBroker = NewBroker,
     configBroker = NewBroker, hub_delay = d, hub_delayed = [], subscribersByUser = []\<rparr>"

section \<open>Brokers\<close>

definition brokerByKind :: "BrokerKind \<Rightarrow> sync_hub \<Rightarrow> station_item broker" where
  "brokerByKind kind h =
     (case kind of BrokerData \<Rightarrow> dataBroker h | BrokerMissingData \<Rightarrow> missingDataBroker h
      | BrokerStatus \<Rightarrow> statusBroker h | BrokerConfig \<Rightarrow> configBroker h)"

definition set_broker :: "BrokerKind \<Rightarrow> station_item broker \<Rightarrow> sync_hub \<Rightarrow> sync_hub" where
  "set_broker kind b h =
     (case kind of BrokerData \<Rightarrow> h\<lparr>dataBroker := b\<rparr> | BrokerMissingData \<Rightarrow> h\<lparr>missingDataBroker := b\<rparr>
      | BrokerStatus \<Rightarrow> h\<lparr>statusBroker := b\<rparr> | BrokerConfig \<Rightarrow> h\<lparr>configBroker := b\<rparr>)"

definition hub_Publish :: "BrokerKind \<Rightarrow> hub_message \<Rightarrow> station_item option \<Rightarrow> sync_hub \<Rightarrow> sync_hub" where
  "hub_Publish kind msg topic h =
     (let (subs, b) = Publish msg topic (hub_subs h, brokerByKind kind h)
      in set_broker kind b (h\<lparr>hub_subs := subs\<rparr>))"

definition PublishDelayedData :: "hub_message \<Rightarrow> station_item option \<Rightarrow> sync_hub \<Rightarrow> sync_hub" where
  "PublishDelayedData msg topic h =
     (if hub_delay h = 0 then hub_Publish BrokerData msg topic h
      else h\<lparr>hub_delayed := hub_delayed h @ [(msg, topic)]\<rparr>)"

definition dispatch_delayed :: "sync_hub \<Rightarrow> sync_hub" where
  "dispatch_delayed h =
     (case hub_delayed h of
        [] \<Rightarrow> h
      | (msg, topic) # rest \<Rightarrow> hub_Publish BrokerData msg topic (h\<lparr>hub_delayed := rest\<rparr>))"

definition hub_Subscribe :: "BrokerKind \<Rightarrow> sub_id \<Rightarrow> station_item topic_set \<Rightarrow> sync_hub \<Rightarrow> sync_hub" where
  "hub_Subscribe kind s topics h = set_broker kind (Subscribe s topics (brokerByKind kind h)) h"

definition hub_Unsubscribe :: "BrokerKind \<Rightarrow> sub_id \<Rightarrow> sync_hub \<Rightarrow> sync_hub" where
  "hub_Unsubscribe kind s h = set_broker kind (Unsubscribe s (brokerByKind kind h)) h"

section \<open>Connections of a user\<close>

definition subs_of :: "string \<Rightarrow> sync_hub \<Rightarrow> user_subs" where
  "subs_of username h = map_index [] (subscribersByUser h) username"

definition TrackSubscriber :: "string \<Rightarrow> sub_id \<Rightarrow> int \<Rightarrow> sync_hub \<Rightarrow> sync_hub" where
  "TrackSubscriber username s connType h =
     h\<lparr>subscribersByUser := AList.update username (AList.update s connType (subs_of username h)) (subscribersByUser h)\<rparr>"

definition UntrackSubscriber :: "string \<Rightarrow> sub_id \<Rightarrow> sync_hub \<Rightarrow> sync_hub" where
  "UntrackSubscriber username s h =
     (let rest = AList.delete s (subs_of username h) in
      if rest = [] then h\<lparr>subscribersByUser := AList.delete username (subscribersByUser h)\<rparr>
      else h\<lparr>subscribersByUser := AList.update username rest (subscribersByUser h)\<rparr>)"

definition hub_Cancel :: "sub_id \<Rightarrow> sync_hub \<Rightarrow> sync_hub" where
  "hub_Cancel s h = h\<lparr>hub_subs := Cancel s (hub_subs h)\<rparr>"

definition cancel_matching :: "int \<Rightarrow> user_subs \<Rightarrow> sync_hub \<Rightarrow> sync_hub" where
  "cancel_matching connMask us h = fold (\<lambda>(s, ct) h. if matches connMask ct then hub_Cancel s h else h) us h"

definition DisconnectUser :: "string \<Rightarrow> int \<Rightarrow> sync_hub \<Rightarrow> sync_hub" where
  "DisconnectUser username connMask h = cancel_matching connMask (subs_of username h) h"

definition DisconnectAll :: "int \<Rightarrow> sync_hub \<Rightarrow> sync_hub" where
  "DisconnectAll connMask h = fold (\<lambda>(_, us). cancel_matching connMask us) (subscribersByUser h) h"

text \<open>The non-blocking send on a subscriber's channel, outside a broker.\<close>

definition send_or_cancel :: "hub_message \<Rightarrow> sub_id \<Rightarrow> sync_hub \<Rightarrow> sync_hub" where
  "send_or_cancel msg s h = h\<lparr>hub_subs := (hub_subs h)(s := offered msg (hub_subs h s))\<rparr>"

definition is_allowed :: "station_item topic_set \<Rightarrow> station_item \<Rightarrow> bool" where
  "is_allowed allowedTopics k = (case allowedTopics of None \<Rightarrow> True | Some ts \<Rightarrow> k \<in> set ts)"

definition filter_available :: "station_item topic_set \<Rightarrow> station_item list \<Rightarrow> uuid_strings_map" where
  "filter_available allowedTopics av = group_items (filter (is_allowed allowedTopics) av)"

definition permission_step :: "station_item topic_set \<Rightarrow> sub_id \<times> int \<Rightarrow> sync_hub \<Rightarrow> sync_hub" where
  "permission_step allowedTopics sc h =
     (let (s, ct) = sc;
          h1 = (if matches connTypeWebBrowser ct
                then h\<lparr>dataBroker := RestrictTopics s allowedTopics (dataBroker h)\<rparr> else h)
      in if matches connTypeSyncData ct then hub_Cancel s h1 else h1)"

definition config_subs :: "user_subs \<Rightarrow> sub_id list" where
  "config_subs us = map fst (filter (\<lambda>(_, ct). matches connTypeSyncConfig ct) us)"

text \<open>\<open>availableItems\<close> is what \<open>db.GetAvailableItems\<close> returns.\<close>

definition UpdatePermissions ::
  "station_item list result \<Rightarrow> string \<Rightarrow> uuid_strings_map option \<Rightarrow> sync_hub \<Rightarrow> sync_hub" where
  "UpdatePermissions availableItems username userPermissions h =
     (let allowedTopics = map_option uuidStringsMapToTopics userPermissions;
          us = subs_of username h;
          h1 = fold (permission_step allowedTopics) us h;
          cs = config_subs us
      in if cs = [] then h1
         else case availableItems of
                Inl _ \<Rightarrow> fold hub_Cancel cs h1
              | Inr av \<Rightarrow> fold (send_or_cancel (SendMsg kMsgUpdateAvailable (BAvailable (filter_available allowedTopics av)))) cs h1)"

definition NormalUser :: int where "NormalUser = 0"
definition DisabledUser :: int where "DisabledUser = -1"
definition AdminRole :: int where "AdminRole = 1"
definition SuperAdmin :: int where "SuperAdmin = 2"

lemmas role_defs = NormalUser_def DisabledUser_def AdminRole_def SuperAdmin_def

text \<open>The topics of a user: every topic (nil) unless the role is that of a normal user.\<close>

definition topics_of_user ::
  "(string \<Rightarrow> int result) \<Rightarrow> (string \<Rightarrow> uuid_strings_map result) \<Rightarrow> string \<Rightarrow> station_item topic_set result" where
  "topics_of_user getRole getPermissions username =
     (case getRole username of
        Inl e \<Rightarrow> Inl e
      | Inr role \<Rightarrow>
          if role = NormalUser
          then (case getPermissions username of Inl e \<Rightarrow> Inl e | Inr p \<Rightarrow> Inr (Some (uuidStringsMapToTopics p)))
          else Inr None)"

definition broadcast_step ::
  "(string \<Rightarrow> int result) \<Rightarrow> (string \<Rightarrow> uuid_strings_map result) \<Rightarrow> uuid_strings_map \<Rightarrow> string \<times> user_subs \<Rightarrow> sync_hub \<Rightarrow> sync_hub" where
  "broadcast_step getRole getPermissions av uu h =
     (let cs = config_subs (snd uu) in
      if cs = [] then h
      else case topics_of_user getRole getPermissions (fst uu) of
             Inl _ \<Rightarrow> fold hub_Cancel cs h
           | Inr topics \<Rightarrow>
               fold (send_or_cancel (SendMsg kMsgUpdateAvailable
                 (BAvailable (filter_available topics (uuidStringsMapToTopics av))))) cs h)"

definition BroadcastAvailableChange ::
  "(string \<Rightarrow> int result) \<Rightarrow> (string \<Rightarrow> uuid_strings_map result) \<Rightarrow> uuid_strings_map \<Rightarrow> sync_hub \<Rightarrow> sync_hub" where
  "BroadcastAvailableChange getRole getPermissions av h =
     fold (broadcast_step getRole getPermissions av) (subscribersByUser h) h"

definition BroadcastAddItems ::
  "(string \<Rightarrow> int result) \<Rightarrow> (string \<Rightarrow> uuid_strings_map result) \<Rightarrow> station_item list result \<Rightarrow> sync_hub \<Rightarrow> sync_hub" where
  "BroadcastAddItems getRole getPermissions availableItems h =
     (case availableItems of
        Inl _ \<Rightarrow> h
      | Inr av \<Rightarrow> BroadcastAvailableChange getRole getPermissions (group_items av) h)"

section \<open>What the broadcasts and permission changes do\<close>

lemma hub_Cancel_simps [simp]:
  "hub_subs (hub_Cancel s h) s' = (if s' = s then (hub_subs h s)\<lparr>sub_cancelled := True\<rparr> else hub_subs h s')"
  "brokerByKind k (hub_Cancel s h) = brokerByKind k h" "subscribersByUser (hub_Cancel s h) = subscribersByUser h"
  "dataBroker (hub_Cancel s h) = dataBroker h"
  by (simp_all add: hub_Cancel_def Cancel_def brokerByKind_def split: BrokerKind.split)

lemma send_or_cancel_simps [simp]:
  "hub_subs (send_or_cancel msg s h) s' = (if s' = s then offered msg (hub_subs h s) else hub_subs h s')"
  "dataBroker (send_or_cancel msg s h) = dataBroker h" "subscribersByUser (send_or_cancel msg s h) = subscribersByUser h"
  by (simp_all add: send_or_cancel_def)

text \<open>What one member of a list of distinct subscribers gets from a loop over the list.\<close>

lemma fold_hub_Cancel:
  "hub_subs (fold hub_Cancel ss h) s = (if s \<in> set ss then (hub_subs h s)\<lparr>sub_cancelled := True\<rparr> else hub_subs h s)"
  "dataBroker (fold hub_Cancel ss h) = dataBroker h"
  by (induction ss arbitrary: h) auto

lemma fold_send_or_cancel:
  "distinct ss \<Longrightarrow> hub_subs (fold (send_or_cancel msg) ss h) s = (if s \<in> set ss then offered msg (hub_subs h s) else hub_subs h s)"
  "dataBroker (fold (send_or_cancel msg) ss h) = dataBroker h"
  by (induction ss arbitrary: h) auto

lemma permission_step_simps [simp]:
  "hub_subs (permission_step al (s, ct) h) s' =
     (if s' = s \<and> matches connTypeSyncData ct then (hub_subs h s)\<lparr>sub_cancelled := True\<rparr> else hub_subs h s')"
  "dataBroker (permission_step al (s, ct) h) =
     (if matches connTypeWebBrowser ct then RestrictTopics s al (dataBroker h) else dataBroker h)"
  by (simp_all add: permission_step_def Let_def)

lemma fold_permission_step_subs:
  assumes "wf_map us"
  shows "hub_subs (fold (permission_step al) us h) s =
     (case map_of us s of
        None \<Rightarrow> hub_subs h s
      | Some ct \<Rightarrow> if matches connTypeSyncData ct then (hub_subs h s)\<lparr>sub_cancelled := True\<rparr> else hub_subs h s)"
  using assms
proof (induction us arbitrary: h)
  case Nil
  then show ?case by simp
next
  case (Cons x us)
  obtain s1 ct where x: "x = (s1, ct)" by (cases x)
  with Cons.prems have "map_of us s1 = None" by (simp add: map_of_eq_None_iff)
  with Cons x show ?case by (auto split: option.split)
qed

text \<open>The filter of one subscriber of the data broker after the loop.\<close>

lemma RestrictTopics_None [simp]: "RestrictTopics s None b = b"
  by (simp add: RestrictTopics_def)

lemma fold_permission_step_scope:
  assumes "wf_map us" "wf_map (dataBroker h)"
  shows "wf_map (dataBroker (fold (permission_step al) us h))"
    and "map_of (dataBroker (fold (permission_step al) us h)) s =
     (case map_of us s of
        None \<Rightarrow> map_of (dataBroker h) s
      | Some ct \<Rightarrow> if matches connTypeWebBrowser ct then map_of (RestrictTopics s al (dataBroker h)) s
                   else map_of (dataBroker h) s)"
  using assms
proof (induction us arbitrary: h)
  case Nil
  { case 1 then show ?case by simp next case 2 then show ?case by simp }
next
  case (Cons x us)
  obtain s1 ct where x: "x = (s1, ct)" by (cases x)
  have new: "map_of us s1 = None" if "wf_map (x # us)" using that x by (simp add: map_of_eq_None_iff)
  have restrict: "map_of (RestrictTopics s al b) s = map_of (RestrictTopics s al b') s"
    if "map_of b s = map_of b' s" for b b' :: "station_item broker"
    using that by (auto simp: RestrictTopics_def Let_def map_of_Unsubscribe split: option.split)
  {
    case 1
    with Cons.IH(1) [of "permission_step al x h"] x show ?case by simp
  next
    case 2
    with Cons.IH(2) [of "permission_step al x h"] x new restrict [of "RestrictTopics s1 al (dataBroker h)" "dataBroker h"]
    show ?case by (auto simp: RestrictTopics_other split: option.split)
  }
qed

lemma filter_available_topics:
  "set (uuidStringsMapToTopics (filter_available al av)) = {k \<in> set av. is_allowed al k}"
  by (simp add: filter_available_def topics_group_items)

text \<open>What a subscriber of the user has after \<open>UpdatePermissions\<close>.\<close>

lemma UpdatePermissions_scope:
  assumes "wf_map (subs_of username h)" "wf_map (dataBroker h)" "map_of (subs_of username h) s = Some ct"
    and "matches connTypeWebBrowser ct"
    and "map_of (dataBroker (UpdatePermissions av username (Some perms) h)) s = Some ts"
  shows "\<exists>xs. ts = Some xs \<and> set xs \<subseteq> set (uuidStringsMapToTopics perms)"
proof -
  have "map_of (RestrictTopics s (Some (uuidStringsMapToTopics perms)) (dataBroker h)) s = Some ts"
    using assms fold_permission_step_scope(2) [OF assms(1,2), of "Some (uuidStringsMapToTopics perms)" s]
    by (auto simp: UpdatePermissions_def Let_def fold_hub_Cancel fold_send_or_cancel split: if_splits sum.splits)
  then show ?thesis using pubsub.scope_restrict [OF assms(2)] by blast
qed

lemma UpdatePermissions_wf:
  assumes "wf_map (subs_of username h)" "wf_map (dataBroker h)"
  shows "wf_map (dataBroker (UpdatePermissions av username perms h))"
  using fold_permission_step_scope(1) [OF assms]
  by (auto simp: UpdatePermissions_def Let_def fold_hub_Cancel fold_send_or_cancel split: sum.split)

lemma config_subs_iff:
  "wf_map us \<Longrightarrow> s \<in> set (config_subs us) \<longleftrightarrow> (\<exists>ct. map_of us s = Some ct \<and> matches connTypeSyncConfig ct)"
  by (force simp: config_subs_def wf_map_map_of_iff)

lemma distinct_config_subs: "wf_map us \<Longrightarrow> distinct (config_subs us)"
  by (simp add: config_subs_def wf_map_def distinct_map_filter)

lemma UpdatePermissions_sub:
  assumes "wf_map (subs_of username h)" "map_of (subs_of username h) s = Some ct"
  shows "hub_subs (UpdatePermissions av username perms h) s =
    (let sub1 = (if matches connTypeSyncData ct then (hub_subs h s)\<lparr>sub_cancelled := True\<rparr> else hub_subs h s) in
     if matches connTypeSyncConfig ct
     then (case av of
             Inl _ \<Rightarrow> sub1\<lparr>sub_cancelled := True\<rparr>
           | Inr avs \<Rightarrow> offered (SendMsg kMsgUpdateAvailable
               (BAvailable (filter_available (map_option uuidStringsMapToTopics perms) avs))) sub1)
     else sub1)"
proof -
  have "s \<in> set (config_subs (subs_of username h)) \<longleftrightarrow> matches connTypeSyncConfig ct"
    using config_subs_iff [OF assms(1)] assms(2) by auto
  then show ?thesis
    using assms distinct_config_subs [OF assms(1)]
      fold_permission_step_subs [OF assms(1), of "map_option uuidStringsMapToTopics perms" h s]
    by (auto simp: UpdatePermissions_def Let_def fold_hub_Cancel fold_send_or_cancel split: sum.split)
qed

lemma offered_cases: "sub_cancelled (offered m sub) \<or> sub_Ch (offered m sub) = sub_Ch sub @ [m]"
  by (simp add: offered_def)

text \<open>
  C14: after the permissions of a user changed to \<open>perms\<close>, each connection the user has open is
  confined to them. A web browser's subscriber receives nothing of any later stream of data
  published on items outside \<open>perms\<close>; a data-sync subscriber is cancelled; a config-sync subscriber
  is cancelled or has been sent exactly the available items that \<open>perms\<close> allows.
\<close>

theorem permission_change_confines:
  assumes "wf_map (subs_of username h)" "wf_map (dataBroker h)" "map_of (subs_of username h) s = Some ct"
    and h'_def: "h' = UpdatePermissions av username (Some perms) h"
  shows "(matches connTypeWebBrowser ct \<longrightarrow>
            (\<forall>ms. (\<forall>(m, t) \<in> set ms. t \<notin> set (uuidStringsMapToTopics perms)) \<longrightarrow>
               fst (publish_stream Publish ms (hub_subs h', dataBroker h')) s = hub_subs h' s)) \<and>
         (matches connTypeSyncData ct \<longrightarrow> sub_cancelled (hub_subs h' s)) \<and>
         (matches connTypeSyncConfig ct \<longrightarrow> sub_cancelled (hub_subs h' s) \<or>
            (\<exists>avs m. av = Inr avs \<and>
               sub_Ch (hub_subs h' s) = sub_Ch (hub_subs h s) @ [SendMsg kMsgUpdateAvailable (BAvailable m)] \<and>
               set (uuidStringsMapToTopics m) = set avs \<inter> set (uuidStringsMapToTopics perms)))"
proof (intro conjI impI allI)
  fix ms :: "(hub_message \<times> station_item) list"
  assume web: "matches connTypeWebBrowser ct"
    and out: "\<forall>(m, t) \<in> set ms. t \<notin> set (uuidStringsMapToTopics perms)"
  from out have "t \<notin> set (uuidStringsMapToTopics perms)" if "(m, t) \<in> set ms" for m t
    using that by blast
  then show "fst (publish_stream Publish ms (hub_subs h', dataBroker h')) s = hub_subs h' s"
    using pubsub.publish_stream_confined [of "(hub_subs h', dataBroker h')" s "set (uuidStringsMapToTopics perms)" ms]
      UpdatePermissions_wf [OF assms(1,2)] UpdatePermissions_scope [OF assms(1-3) web]
    by (simp add: h'_def)
next
  assume "matches connTypeSyncData ct"
  then show "sub_cancelled (hub_subs h' s)"
    using UpdatePermissions_sub [OF assms(1,3), of av "Some perms"]
    by (auto simp: h'_def Let_def offered_def split: sum.split)
next
  assume "matches connTypeSyncConfig ct"
  then show "sub_cancelled (hub_subs h' s) \<or>
            (\<exists>avs m. av = Inr avs \<and>
               sub_Ch (hub_subs h' s) = sub_Ch (hub_subs h s) @ [SendMsg kMsgUpdateAvailable (BAvailable m)] \<and>
               set (uuidStringsMapToTopics m) = set avs \<inter> set (uuidStringsMapToTopics perms))"
    using UpdatePermissions_sub [OF assms(1,3), of av "Some perms"]
      filter_available_topics [of "Some (uuidStringsMapToTopics perms)"]
    by (cases av) (auto simp: h'_def Let_def offered_def is_allowed_def)
qed

definition demo_hub :: sync_hub where
  "demo_hub = TrackSubscriber ''bob'' 3 (connTypeWebBrowser + connTypeSyncConfig)
     (hub_Subscribe BrokerData 3 (Some [(1, ''a''), (1, ''b'')]) (NewSyncHub 0 (\<lambda>_. NewSubscriber 10)))"

theorem permission_change_confines_witness:
  "let h' = UpdatePermissions (Inr [(1, ''a''), (1, ''b'')]) ''bob'' (Some [(1, [''a''])]) demo_hub in
   fst (publish_stream Publish [(ForwardData kMsgData (1, ''b'') \<lparr>dt_value = 0, dt_msec = 0\<rparr>, (1, ''b''))]
     (hub_subs h', dataBroker h')) 3 = hub_subs h' 3 \<and>
   (sub_cancelled (hub_subs h' 3) \<or>
      (\<exists>avs m. (Inr [(1, ''a''), (1, ''b'')] :: station_item list result) = Inr avs \<and>
         sub_Ch (hub_subs h' 3) = sub_Ch (hub_subs demo_hub 3) @ [SendMsg kMsgUpdateAvailable (BAvailable m)] \<and>
         set (uuidStringsMapToTopics m) = set avs \<inter> set (uuidStringsMapToTopics [(1, [''a''])])))"
proof -
  have subs: "subs_of ''bob'' demo_hub = [(3, connTypeWebBrowser + connTypeSyncConfig)]"
    by (simp add: demo_hub_def TrackSubscriber_def subs_of_def hub_Subscribe_def set_broker_def NewSyncHub_def map_index_def)
  have br: "dataBroker demo_hub = [(3, Some [(1, ''a''), (1, ''b'')])]"
    by (simp add: demo_hub_def TrackSubscriber_def hub_Subscribe_def set_broker_def brokerByKind_def NewSyncHub_def NewBroker_def Subscribe_def)
  have m: "matches connTypeWebBrowser (connTypeWebBrowser + connTypeSyncConfig)"
    "matches connTypeSyncConfig (connTypeWebBrowser + connTypeSyncConfig)"
    by (simp_all add: matches_def connType_defs)
  let ?ms = "[(ForwardData kMsgData (1, ''b'') \<lparr>dt_value = 0, dt_msec = 0\<rparr>, (1 :: uuid, ''b''))]"
  have out: "\<forall>(m, t) \<in> set ?ms. t \<notin> set (uuidStringsMapToTopics [(1, [''a''])])"
    by (simp add: uuidStringsMapToTopics_def)
  have wf: "wf_map (subs_of ''bob'' demo_hub)" "wf_map (dataBroker demo_hub)"
    "map_of (subs_of ''bob'' demo_hub) 3 = Some (connTypeWebBrowser + connTypeSyncConfig)"
    using subs br by simp_all
  from permission_change_confines [OF wf refl, where av = "Inr [(1, ''a''), (1, ''b'')]" and perms = "[(1, [''a''])]"] m out
  show ?thesis unfolding Let_def by blast
qed

end
