(* ===== verification/UserManager.thy ===== *)
theory UserManager
  imports PasswordHash ServerDBInv SyncHub
begin

text \<open>
  User accounts and permissions: \<^verbatim>\<open>tide_server/auth/auth.go\<close>, the local user manager
  (\<^verbatim>\<open>auth/usermanager/jwt.go\<close>, \<^verbatim>\<open>helpers.go\<close>) and the permission tables
  (\<^verbatim>\<open>auth/permission/postgres.go\<close>).

  The Go interface \<^verbatim>\<open>auth.UserManager\<close> is the record \<open>user_manager\<close> of operations; \<open>JwtManager\<close>
  builds the implementation on the \<open>users\<close> table. The JWT library is the record \<open>jwt_lib\<close>:
  \<open>SignedString\<close> signs claims with HS256, \<open>ParseWithClaims\<close> checks a token at a given time with a key
  function that is told whether the token's method is an HMAC method. Times in claims are whole
  seconds, the library's precision. A role outside the range of \<open>smallint\<close> is rejected by the
  database. The locales \<open>account_store\<close> and \<open>user_accounts\<close> state what the request handlers rely on.
\<close>

record user_base_info =
  ub_Username :: string
  ub_Password :: string
  ub_Email :: string

record user = user_base_info +
  ua_Role :: int
  ua_LiveCamera :: bool

definition ErrUserEmpty :: go_error where "ErrUserEmpty = ErrorString ''the username or password is empty''"
definition ErrUserNotFound :: go_error where "ErrUserNotFound = ErrorString ''user not found''"
definition ErrUserDuplicate :: go_error where "ErrUserDuplicate = ErrorString ''user duplicate''"

definition err_smallint :: go_error where "err_smallint = ErrorString ''value out of range for smallint''"

lemma user_errors_distinct [simp]: "ErrUserNotFound \<noteq> ErrUserEmpty" "ErrUserNotFound \<noteq> err_smallint"
  by (simp_all add: ErrUserNotFound_def ErrUserEmpty_def err_smallint_def)

definition smallint :: "int \<Rightarrow> bool" where
  "smallint r \<longleftrightarrow> -32768 \<le> r \<and> r \<le> 32767"

section \<open>The users table (\<open>helpers.go\<close>)\<close>

definition user_of_row :: "string \<Rightarrow> user_row \<Rightarrow> user" where
  "user_of_row username r = \<lparr>ub_Username = username, ub_Password = [], ub_Email = ur_email r,
     ua_Role = ur_role r, ua_LiveCamera = ur_live_camera r\<rparr>"

definition listUsersFromDB :: "int \<Rightarrow> int \<Rightarrow> user list db_op" where
  "listUsersFromDB condition role =
     (if condition \<notin> {-1, 0, 1} then retE []
      else readE (\<lambda>db. Inr (map (\<lambda>(k, r). user_of_row k r) (filter (\<lambda>(_, r).
        if condition = -1 then ur_role r \<le> role else if condition = 0 then ur_role r = role else role \<le> ur_role r) (users db)))))"

definition getUserFromDB :: "string \<Rightarrow> user db_op" where
  "getUserFromDB username =
     readE (\<lambda>db. case map_of (users db) username of None \<Rightarrow> Inl ErrUserNotFound | Some r \<Rightarrow> Inr (user_of_row username r))"

section \<open>The local user manager (\<open>jwt.go\<close>)\<close>

record jwt_claims =
  jc_Subject :: string
  jc_Issuer :: string
  jc_IssuedAt :: int
  jc_ExpiresAt :: int

record jwt_lib =
  SignedString :: "byte list \<Rightarrow> jwt_claims \<Rightarrow> string result"
  ParseWithClaims :: "int \<Rightarrow> (bool \<Rightarrow> byte list result) \<Rightarrow> string \<Rightarrow> (jwt_claims \<times> bool) result"

record jwt_manager =
  signingKey :: "byte list"
  issuer :: string
  expire :: int

text \<open>The parts of a request the user manager reads; \<open>rq_ctx\<close> is the user the middleware attached.\<close>

record http_request =
  rq_authorization :: string
  rq_cookie_token :: "string option"
  rq_query :: "(string, string) go_map"
  rq_postform :: "(string, string) go_map"
  rq_form :: "(string, string) go_map result"
  rq_body :: string
  rq_ctx :: "(string \<times> user) option"

definition Query_Get :: "http_request \<Rightarrow> string \<Rightarrow> string" where
  "Query_Get r k = map_index [] (rq_query r) k"

definition PostFormValue :: "http_request \<Rightarrow> string \<Rightarrow> string" where
  "PostFormValue r k = map_index [] (rq_postform r) k"

definition BearerPrefix :: string where "BearerPrefix = ''Bearer ''"

definition CheckUserPwd :: "hash_lib \<Rightarrow> string \<Rightarrow> string \<Rightarrow> tide_db \<Rightarrow> bool" where
  "CheckUserPwd lib username password db =
     (if username = [] \<or> password = [] then False
      else case map_of (users db) username of
        None \<Rightarrow> False
      | Some r \<Rightarrow> if ur_password_hash r = [] then False else verifyPasswordHash lib password (ur_password_hash r))"

text \<open>The token of a successful login, or the status code of the failure.\<close>

definition login_claims :: "jwt_manager \<Rightarrow> int \<Rightarrow> string \<Rightarrow> jwt_claims" where
  "login_claims j now username =
     \<lparr>jc_Subject = username, jc_Issuer = issuer j, jc_IssuedAt = now, jc_ExpiresAt = now + expire j\<rparr>"

definition jwt_Login :: "hash_lib \<Rightarrow> jwt_lib \<Rightarrow> jwt_manager \<Rightarrow> int \<Rightarrow> http_request \<Rightarrow> tide_db \<Rightarrow> int + string" where
  "jwt_Login lib jl j now r db =
     (let username = PostFormValue r ''username''; password = PostFormValue r ''password'' in
      if \<not> CheckUserPwd lib username password db then Inl 401
      else case SignedString jl (signingKey j) (login_claims j now username) of Inl _ \<Rightarrow> Inl 500 | Inr token \<Rightarrow> Inr token)"

definition token_of_request :: "http_request \<Rightarrow> string" where
  "token_of_request r =
     (if HasPrefix (rq_authorization r) BearerPrefix then drop (length BearerPrefix) (rq_authorization r)
      else case rq_cookie_token r of
        Some v \<Rightarrow> if v \<noteq> [] then v else Query_Get r ''token''
      | None \<Rightarrow> Query_Get r ''token'')"

definition hmac_key :: "jwt_manager \<Rightarrow> bool \<Rightarrow> byte list result" where
  "hmac_key j isHMAC = (if isHMAC then Inr (signingKey j) else Inl (ErrorString ''unexpected signing method''))"

definition jwt_GetLoginUser :: "jwt_lib \<Rightarrow> jwt_manager \<Rightarrow> int \<Rightarrow> http_request \<Rightarrow> string result" where
  "jwt_GetLoginUser jl j now r =
     (let tokenStr = token_of_request r in
      if tokenStr = [] then Inr []
      else case ParseWithClaims jl now (hmac_key j) tokenStr of
        Inl _ \<Rightarrow> Inr []
      | Inr (claims, valid) \<Rightarrow> if valid then Inr (jc_Subject claims) else Inr [])"

definition jwt_AddUser :: "hash_lib \<Rightarrow> user \<Rightarrow> unit db_op" where
  "jwt_AddUser lib u db =
     (if ub_Username u = [] \<or> ub_Password u = [] then (Inl ErrUserEmpty, db)
      else
        let username = ToLower (ub_Username u); email = ToLower (ub_Email u) in
        case createPasswordHash lib (ub_Password u) of
          Inl e \<Rightarrow> (Inl e, db)
        | Inr pwHash \<Rightarrow>
            if \<not> smallint (ua_Role u) then (Inl err_smallint, db)
            else if map_of (users db) username \<noteq> None then (Inl ErrUserDuplicate, db)
            else (Inr (), db\<lparr>users := sql_insert username
                    \<lparr>ur_password_hash = pwHash, ur_role = ua_Role u, ur_email = email, ur_live_camera = ua_LiveCamera u\<rparr>
                    (users db)\<rparr>))"

definition update_user :: "string \<Rightarrow> (user_row \<Rightarrow> user_row) \<Rightarrow> tide_db \<Rightarrow> tide_db" where
  "update_user username f db = db\<lparr>users := sql_update (\<lambda>k _. k = username) f (users db)\<rparr>"

definition exec_update_user :: "string \<Rightarrow> (user_row \<Rightarrow> user_row) \<Rightarrow> unit db_op" where
  "exec_update_user username f db =
     (if sql_count (\<lambda>k _. k = username) (users db) = 0 then (Inl ErrUserNotFound, update_user username f db)
      else (Inr (), update_user username f db))"

definition jwt_EditUserBaseInfo :: "hash_lib \<Rightarrow> ('z) user_base_info_scheme \<Rightarrow> unit db_op" where
  "jwt_EditUserBaseInfo lib u =
     (if ub_Username u = [] then throwE ErrUserEmpty
      else if ub_Password u = [] then exec_update_user (ub_Username u) (\<lambda>r. r\<lparr>ur_email := ub_Email u\<rparr>)
      else bindE (liftR (createPasswordHash lib (ub_Password u))) (\<lambda>pwHash.
        exec_update_user (ub_Username u) (\<lambda>r. r\<lparr>ur_email := ub_Email u, ur_password_hash := pwHash\<rparr>)))"

definition jwt_EditUser :: "hash_lib \<Rightarrow> user \<Rightarrow> unit db_op" where
  "jwt_EditUser lib u =
     (if ub_Username u = [] then throwE ErrUserEmpty
      else txE (
        if \<not> smallint (ua_Role u) then throwE err_smallint
        else bindE (exec_update_user (ub_Username u)
               (\<lambda>r. r\<lparr>ur_role := ua_Role u, ur_email := ub_Email u, ur_live_camera := ua_LiveCamera u\<rparr>)) (\<lambda>_.
          if ub_Password u = [] then retE ()
          else bindE (liftR (createPasswordHash lib (ub_Password u))) (\<lambda>pwHash.
            modifyE (update_user (ub_Username u) (\<lambda>r. r\<lparr>ur_password_hash := pwHash\<rparr>))))))"

text \<open>Deleting a user deletes the permissions that reference it.\<close>

definition jwt_DelUser :: "string \<Rightarrow> unit db_op" where
  "jwt_DelUser username db =
     (if sql_count (\<lambda>k _. k = username) (users db) = 0 then (Inl ErrUserNotFound, db)
      else (Inr (), db\<lparr>users := sql_delete (\<lambda>k _. k = username) (users db),
              permissions_item_data := sql_delete (\<lambda>k _. fst k = username) (permissions_item_data db),
              permissions_camera_status := sql_delete (\<lambda>k _. fst k = username) (permissions_camera_status db)\<rparr>))"

record user_manager =
  um_Login :: "int \<Rightarrow> http_request \<Rightarrow> tide_db \<Rightarrow> int + string"
  um_GetLoginUser :: "int \<Rightarrow> http_request \<Rightarrow> string result"
  um_AddUser :: "user \<Rightarrow> unit db_op"
  um_DelUser :: "string \<Rightarrow> unit db_op"
  um_EditUserBaseInfo :: "user_base_info \<Rightarrow> unit db_op"
  um_EditUser :: "user \<Rightarrow> unit db_op"
  um_ListUsers :: "int \<Rightarrow> int \<Rightarrow> user list db_op"
  um_GetUser :: "string \<Rightarrow> user db_op"

definition JwtManager :: "hash_lib \<Rightarrow> jwt_lib \<Rightarrow> jwt_manager \<Rightarrow> user_manager" where
  "JwtManager lib jl j = \<lparr>um_Login = jwt_Login lib jl j, um_GetLoginUser = jwt_GetLoginUser jl j, um_AddUser = jwt_AddUser lib,
     um_DelUser = jwt_DelUser, um_EditUserBaseInfo = jwt_EditUserBaseInfo lib, um_EditUser = jwt_EditUser lib,
     um_ListUsers = listUsersFromDB, um_GetUser = getUserFromDB\<rparr>"

section \<open>Permissions (\<open>postgres.go\<close>)\<close>

definition CheckPermission :: "string \<Rightarrow> uuid \<Rightarrow> string \<Rightarrow> tide_db \<Rightarrow> bool" where
  "CheckPermission username stationId itemName db \<longleftrightarrow>
     0 < sql_count (\<lambda>k _. k = (username, stationId, itemName)) (permissions_item_data db)"

definition GetPermissions :: "string \<Rightarrow> uuid_strings_map db_op" where
  "GetPermissions username =
     readE (\<lambda>db. Inr (group_items (map (snd \<circ> fst) (filter (\<lambda>(k, _). fst k = username) (permissions_item_data db)))))"

type_synonym permission_table = "(string \<times> uuid \<times> string, unit) go_map"

definition insert_permission ::
  "string \<Rightarrow> station_item \<Rightarrow> tide_db \<Rightarrow> permission_table \<Rightarrow> permission_table result" where
  "insert_permission username si db t =
     (if map_of t (username, si) \<noteq> None then Inl unique_violation
      else if map_of (users db) username = None then Inl foreign_key_violation
      else Inr (sql_insert (username, si) () t))"

fun insert_permissions ::
  "string \<Rightarrow> station_item list \<Rightarrow> tide_db \<Rightarrow> permission_table \<Rightarrow> permission_table result" where
  "insert_permissions username [] db t = Inr t"
| "insert_permissions username (si # rest) db t =
     (case insert_permission username si db t of
        Inl e \<Rightarrow> Inl e | Inr t' \<Rightarrow> insert_permissions username rest db t')"

definition EditPermission :: "string \<Rightarrow> uuid_strings_map \<Rightarrow> unit db_op" where
  "EditPermission username scopes db =
     (case insert_permissions username (uuidStringsMapToTopics scopes) db
             (sql_delete (\<lambda>k _. fst k = username) (permissions_item_data db)) of
        Inl e \<Rightarrow> (Inl e, db)
      | Inr t \<Rightarrow> (Inr (), db\<lparr>permissions_item_data := t\<rparr>))"

definition CheckCameraStatusPermission :: "string \<Rightarrow> uuid \<Rightarrow> string \<Rightarrow> tide_db \<Rightarrow> bool" where
  "CheckCameraStatusPermission username stationId name db \<longleftrightarrow>
     0 < sql_count (\<lambda>k _. k = (username, stationId, name)) (permissions_camera_status db)"

definition GetCameraStatusPermissions :: "string \<Rightarrow> uuid_strings_map db_op" where
  "GetCameraStatusPermissions username =
     readE (\<lambda>db. Inr (group_items (map (snd \<circ> fst) (filter (\<lambda>(k, _). fst k = username) (permissions_camera_status db)))))"

definition EditCameraStatusPermission :: "string \<Rightarrow> uuid_strings_map \<Rightarrow> unit db_op" where
  "EditCameraStatusPermission username scopes db =
     (case insert_permissions username (uuidStringsMapToTopics scopes) db
             (sql_delete (\<lambda>k _. fst k = username) (permissions_camera_status db)) of
        Inl e \<Rightarrow> (Inl e, db)
      | Inr t \<Rightarrow> (Inr (), db\<lparr>permissions_camera_status := t\<rparr>))"

section \<open>The account tables stay well formed\<close>

definition perms_ok :: "tide_db \<Rightarrow> permission_table \<Rightarrow> bool" where
  "perms_ok db t \<longleftrightarrow> wf_map t \<and> (\<forall>u si. map_of t (u, si) = Some () \<longrightarrow> map_of (users db) u \<noteq> None)"

definition auth_ok :: "tide_db \<Rightarrow> bool" where
  "auth_ok db \<longleftrightarrow> wf_map (users db) \<and> perms_ok db (permissions_item_data db) \<and> perms_ok db (permissions_camera_status db)"

lemma perms_ok_users_cong: "(\<And>u. map_of (users db) u = None \<longleftrightarrow> map_of (users db') u = None) \<Longrightarrow> perms_ok db t = perms_ok db' t"
  by (simp add: perms_ok_def)

lemma auth_ok_update_user [simp]: "auth_ok (update_user u f db) = auth_ok db"
  using perms_ok_users_cong [of "update_user u f db" db] by (simp add: auth_ok_def update_user_def)

lemma auth_ok_exec_update [pres]: "preserves auth_ok (exec_update_user u f)"
  by (simp add: preserves_def exec_update_user_def)

lemma auth_ok_EditUserBaseInfo [pres]: "preserves auth_ok (jwt_EditUserBaseInfo lib u)"
  unfolding jwt_EditUserBaseInfo_def by (intro pres)

lemma auth_ok_modify_user [pres]: "preserves auth_ok (modifyE (update_user u f))"
  by (simp add: preserves_def modifyE_def)

lemma auth_ok_EditUser [pres]: "preserves auth_ok (jwt_EditUser lib u)"
  unfolding jwt_EditUser_def by (intro pres)

lemma auth_ok_AddUser [pres]: "preserves auth_ok (jwt_AddUser lib u)"
  by (auto simp: preserves_def jwt_AddUser_def auth_ok_def perms_ok_def Let_def split: sum.split)

lemma perms_ok_del_user:
  assumes "wf_map (users db)" "perms_ok db t" "users db' = sql_delete (\<lambda>k _. k = u) (users db)"
  shows "perms_ok db' (sql_delete (\<lambda>k _. fst k = u) t)"
proof -
  from assms(2) have t: "wf_map t" and ref: "\<And>v si. map_of t (v, si) = Some () \<Longrightarrow> map_of (users db) v \<noteq> None"
    by (auto simp: perms_ok_def)
  show ?thesis
    using t assms(1) unfolding perms_ok_def assms(3)
    by (auto simp: map_of_sql_delete split: option.splits if_splits dest!: ref)
qed

lemma auth_ok_DelUser [pres]: "preserves auth_ok (jwt_DelUser u)"
  by (auto simp: preserves_def jwt_DelUser_def auth_ok_def intro: perms_ok_del_user)

lemma insert_permissions_wf:
  assumes "insert_permissions u sis db t = Inr t'" "wf_map t"
  shows "wf_map t'"
  using assms
  by (induction sis arbitrary: t) (auto simp: insert_permission_def split: if_splits)

lemma insert_permissions_map_of:
  assumes "insert_permissions u sis db t = Inr t'"
  shows "map_of t' k = (if fst k = u \<and> snd k \<in> set sis then Some () else map_of t k)"
  using assms
proof (induction sis arbitrary: t)
  case Nil
  then show ?case by simp
next
  case (Cons si sis)
  then have "insert_permissions u sis db (sql_insert (u, si) () t) = Inr t'"
    by (auto simp: insert_permission_def split: if_splits)
  from Cons.IH [OF this] show ?case
    using Cons.prems by (cases k) (auto simp: insert_permission_def split: if_splits)
qed

lemma insert_permissions_ok_iff:
  "(\<exists>t'. insert_permissions u sis db t = Inr t') \<longleftrightarrow>
     distinct sis \<and> (\<forall>si \<in> set sis. map_of t (u, si) = None) \<and> (sis = [] \<or> map_of (users db) u \<noteq> None)"
proof (induction sis arbitrary: t)
  case Nil
  then show ?case by simp
next
  case (Cons si sis)
  show ?case
    using Cons.IH [of "sql_insert (u, si) () t"]
    by (cases "map_of t (u, si)"; cases "map_of (users db) u") (auto simp: insert_permission_def)
qed

lemma insert_permissions_users:
  "insert_permissions u sis db t = Inr t' \<Longrightarrow> sis \<noteq> [] \<Longrightarrow> map_of (users db) u \<noteq> None"
  using insert_permissions_ok_iff [of u sis db t] by auto

lemma perms_ok_insert:
  assumes "insert_permissions u sis db (sql_delete (\<lambda>k _. fst k = u) t) = Inr t'" "perms_ok db t"
  shows "perms_ok db t'"
proof -
  have "map_of (users db) v \<noteq> None" if "map_of t' (v, si) = Some ()" for v si
    using that assms insert_permissions_users [OF assms(1)] unfolding insert_permissions_map_of [OF assms(1)] perms_ok_def
    by (fastforce simp: map_of_sql_delete split: option.splits if_splits)
  moreover have "wf_map t'"
    using insert_permissions_wf [OF assms(1)] assms(2) by (simp add: perms_ok_def)
  ultimately show ?thesis by (simp add: perms_ok_def)
qed

lemma perms_ok_frame:
  "perms_ok (db\<lparr>permissions_item_data := p\<rparr>) t = perms_ok db t"
  "perms_ok (db\<lparr>permissions_camera_status := p\<rparr>) t = perms_ok db t"
  by (simp_all add: perms_ok_def)

lemma auth_ok_EditPermission [pres]: "preserves auth_ok (EditPermission u scopes)"
  by (auto simp: preserves_def EditPermission_def auth_ok_def perms_ok_frame split: sum.split intro: perms_ok_insert)

lemma auth_ok_EditCamera [pres]: "preserves auth_ok (EditCameraStatusPermission u scopes)"
  by (auto simp: preserves_def EditCameraStatusPermission_def auth_ok_def perms_ok_frame split: sum.split intro: perms_ok_insert)

section \<open>Permission edits\<close>

lemma CheckPermission_iff: "CheckPermission u sid name db \<longleftrightarrow> map_of (permissions_item_data db) (u, sid, name) = Some ()"
proof -
  have "CheckPermission u sid name db \<longleftrightarrow> (u, sid, name) \<in> fst ` set (permissions_item_data db)"
    unfolding CheckPermission_def sql_count_pos_iff by (force simp: image_iff)
  also have "\<dots> \<longleftrightarrow> map_of (permissions_item_data db) (u, sid, name) = Some ()"
    using map_of_eq_None_iff [of "permissions_item_data db" "(u, sid, name)"] by auto
  finally show ?thesis .
qed

lemma GetPermissions_iff:
  "\<exists>p. GetPermissions u db = (Inr p, db) \<and>
     (\<forall>sid name. (sid, name) \<in> set (uuidStringsMapToTopics p) \<longleftrightarrow> CheckPermission u sid name db)"
proof -
  have "(sid, name) \<in> (snd \<circ> fst) ` {x \<in> set (permissions_item_data db). case x of (k, _) \<Rightarrow> fst k = u} \<longleftrightarrow>
      CheckPermission u sid name db" for sid name
    unfolding CheckPermission_def sql_count_pos_iff by (force simp: image_iff)
  then show ?thesis
    by (simp add: GetPermissions_def readE_def topics_group_items)
qed

text \<open>
  Editing a user's permissions is atomic and exact. The edit succeeds when no item is listed
  twice and the user exists (or the list is empty); then the user may read exactly the listed items,
  the map the server reads back lists exactly these, and no other user's permission changes. A failed
  edit changes nothing.
\<close>

theorem permission_edit_exact:
  assumes "auth_ok db"
  shows "case EditPermission u scopes db of
           (Inl e, db') \<Rightarrow> db' = db \<and> \<not> (distinct (uuidStringsMapToTopics scopes) \<and> map_of (users db) u \<noteq> None)
         | (Inr _, db') \<Rightarrow>
             (\<forall>sid name. CheckPermission u sid name db' \<longleftrightarrow> (sid, name) \<in> set (uuidStringsMapToTopics scopes)) \<and>
             (\<exists>p. GetPermissions u db' = (Inr p, db') \<and> set (uuidStringsMapToTopics p) = set (uuidStringsMapToTopics scopes)) \<and>
             (\<forall>v sid name. v \<noteq> u \<longrightarrow> CheckPermission v sid name db' = CheckPermission v sid name db)"
proof -
  let ?sis = "uuidStringsMapToTopics scopes" and ?t = "sql_delete (\<lambda>k _. fst k = u) (permissions_item_data db)"
  have wf: "wf_map (permissions_item_data db)"
    using assms by (simp add: auth_ok_def perms_ok_def)
  have old: "map_of ?t k = (if fst k = u then None else map_of (permissions_item_data db) k)" for k
    using wf by (auto simp: map_of_sql_delete split: option.split)
  show ?thesis
  proof (cases "insert_permissions u ?sis db ?t")
    case (Inl e)
    then show ?thesis
      using insert_permissions_ok_iff [of u ?sis db ?t] old by (auto simp: EditPermission_def)
  next
    case (Inr t)
    let ?db = "db\<lparr>permissions_item_data := t\<rparr>"
    have new: "CheckPermission v sid name ?db \<longleftrightarrow>
        (if v = u then (sid, name) \<in> set ?sis else CheckPermission v sid name db)" for v sid name
      by (simp add: CheckPermission_iff insert_permissions_map_of [OF Inr] old)
    moreover obtain p where "GetPermissions u ?db = (Inr p, ?db)"
      "\<forall>sid name. (sid, name) \<in> set (uuidStringsMapToTopics p) \<longleftrightarrow> CheckPermission u sid name ?db"
      using GetPermissions_iff by blast
    ultimately show ?thesis
      using Inr by (auto simp: EditPermission_def)
  qed
qed

definition one_user_db :: tide_db where
  "one_user_db = empty_db\<lparr>users := [(''ann'', \<lparr>ur_password_hash = ''$argon2id$pw'', ur_role = 0, ur_email = [], ur_live_camera = False\<rparr>)]\<rparr>"

lemma one_user_db_ok: "auth_ok one_user_db"
  by (simp add: auth_ok_def perms_ok_def one_user_db_def empty_db_def)

theorem permission_edit_exact_witness:
  "fst (EditPermission ''ann'' [(7, [''water''])] one_user_db) = Inr () \<and>
   CheckPermission ''ann'' 7 ''water'' (snd (EditPermission ''ann'' [(7, [''water''])] one_user_db))"
proof -
  have "EditPermission ''ann'' [(7, [''water''])] one_user_db =
      (Inr (), one_user_db\<lparr>permissions_item_data := [((''ann'', 7, ''water''), ())]\<rparr>)"
    by (simp add: EditPermission_def uuidStringsMapToTopics_def insert_permission_def one_user_db_def empty_db_def
      sql_delete_def sql_insert_def)
  then show ?thesis
    using permission_edit_exact [OF one_user_db_ok, where u = "''ann''" and scopes = "[(7, [''water''])]"] by (simp add: uuidStringsMapToTopics_def)
qed

section \<open>What the request handlers rely on\<close>

text \<open>The role of each account, and the tables an account operation leaves alone.\<close>

type_synonym role_view = "string \<Rightarrow> int option"

definition roles :: "tide_db \<Rightarrow> role_view" where
  "roles db u = map_option ur_role (map_of (users db) u)"

definition accounts_only :: "tide_db \<Rightarrow> tide_db \<Rightarrow> bool" where
  "accounts_only db db' \<longleftrightarrow>
     (\<exists>us pi pc. db' = db\<lparr>users := us, permissions_item_data := pi, permissions_camera_status := pc\<rparr>)"

lemma accounts_only_refl: "accounts_only db db"
  unfolding accounts_only_def by (intro exI [of _ "users db"] exI [of _ "permissions_item_data db"]
    exI [of _ "permissions_camera_status db"]) simp

lemma accounts_only_trans: "accounts_only a b \<Longrightarrow> accounts_only b c \<Longrightarrow> accounts_only a c"
  unfolding accounts_only_def by fastforce

text \<open>
  The contract of every user manager (\<open>account_store\<close>): \<open>GetUser\<close> reads the stored account, only the account
  tables change and they stay consistent. A manager that keeps its accounts in the tables alone
  (\<open>user_accounts\<close>) promises more: each editing operation changes the role of at most the account it names
  (\<open>AddUser\<close> of a new one) and a self-service edit changes no role.
\<close>

locale account_store =
  fixes um :: user_manager
  assumes get: "um_GetUser um u db =
      (case map_of (users db) u of None \<Rightarrow> (Inl ErrUserNotFound, db) | Some r \<Rightarrow> (Inr (user_of_row u r), db))"
    and list_frame: "snd (um_ListUsers um c r db) = db"
    and frame: "accounts_only db (snd (um_AddUser um x db))" "accounts_only db (snd (um_EditUser um x db))"
      "accounts_only db (snd (um_DelUser um u db))" "accounts_only db (snd (um_EditUserBaseInfo um b db))"
    and ok: "preserves auth_ok (um_AddUser um x)" "preserves auth_ok (um_EditUser um x)"
      "preserves auth_ok (um_EditUserBaseInfo um b)" "preserves auth_ok (um_DelUser um u)"

locale user_accounts = account_store +
  assumes add_roles: "roles (snd (um_AddUser um x db)) = roles db \<or>
      roles db (ToLower (ub_Username x)) = None \<and>
      roles (snd (um_AddUser um x db)) = (roles db)(ToLower (ub_Username x) \<mapsto> ua_Role x)"
    and add_tables: "\<exists>us. snd (um_AddUser um x db) = db\<lparr>users := us\<rparr>"
    and add_rows: "map_of (users db) v = Some row \<Longrightarrow> map_of (users (snd (um_AddUser um x db))) v = Some row"
    and edit_roles: "auth_ok db \<Longrightarrow> roles (snd (um_EditUser um x db)) = roles db \<or>
      roles db (ub_Username x) \<noteq> None \<and> roles (snd (um_EditUser um x db)) = (roles db)(ub_Username x \<mapsto> ua_Role x)"
    and base_roles: "roles (snd (um_EditUserBaseInfo um b db)) = roles db"
    and base_others: "v \<noteq> ub_Username b \<Longrightarrow> map_of (users (snd (um_EditUserBaseInfo um b db))) v = map_of (users db) v"
    and base_tables: "\<exists>us. snd (um_EditUserBaseInfo um b db) = db\<lparr>users := us\<rparr>"
    and del_roles: "auth_ok db \<Longrightarrow> roles (snd (um_DelUser um u db)) = roles db \<or>
      roles (snd (um_DelUser um u db)) = (roles db)(u := None)"

lemma accounts_only_users: "accounts_only db (db\<lparr>users := us\<rparr>)"
  unfolding accounts_only_def by (intro exI [of _ us] exI [of _ "permissions_item_data db"]
    exI [of _ "permissions_camera_status db"]) simp

lemma roles_update_user:
  "roles (update_user u f db) v = (if v = u then map_option (ur_role \<circ> f) (map_of (users db) u) else roles db v)"
  by (auto simp: roles_def update_user_def option.map_comp comp_def)

lemma exec_update_user_state: "snd (exec_update_user u f db) = update_user u f db"
  by (simp add: exec_update_user_def)

lemma jwt_base_state:
  "snd (jwt_EditUserBaseInfo lib b db) = db \<or>
   (\<exists>f. snd (jwt_EditUserBaseInfo lib b db) = update_user (ub_Username b) f db \<and> (\<forall>r. ur_role (f r) = ur_role r))"
proof (cases "ub_Password b = []")
  case True
  show ?thesis
    using True exI [of "\<lambda>f. _ = update_user (ub_Username b) f db \<and> (\<forall>r. ur_role (f r) = ur_role r)" "\<lambda>r. r\<lparr>ur_email := ub_Email b\<rparr>"]
    by (simp add: jwt_EditUserBaseInfo_def throwE_def exec_update_user_state)
next
  case False
  show ?thesis
  proof (cases "createPasswordHash lib (ub_Password b)")
    case (Inr h)
    show ?thesis
      using False Inr exI [of "\<lambda>f. _ = update_user (ub_Username b) f db \<and> (\<forall>r. ur_role (f r) = ur_role r)"
        "\<lambda>r. r\<lparr>ur_email := ub_Email b, ur_password_hash := h\<rparr>"]
      by (simp add: jwt_EditUserBaseInfo_def throwE_def bindE_def liftR_def exec_update_user_state)
  qed (use False in \<open>simp add: jwt_EditUserBaseInfo_def throwE_def bindE_def liftR_def\<close>)
qed

lemma update_user_tables: "\<exists>us. update_user u f db = db\<lparr>users := us\<rparr>"
  unfolding update_user_def by blast

lemma no_users_change: "\<exists>us. db = db\<lparr>users := us\<rparr>"
  by (rule exI [of _ "users db"]) simp

lemma jwt_base_roles: "roles (snd (jwt_EditUserBaseInfo lib b db)) = roles db"
  using jwt_base_state [of lib b db] by (auto simp: fun_eq_iff roles_update_user comp_def) (simp add: roles_def)

lemma jwt_base_others:
  "v \<noteq> ub_Username b \<Longrightarrow> map_of (users (snd (jwt_EditUserBaseInfo lib b db))) v = map_of (users db) v"
  using jwt_base_state [of lib b db] by (auto simp: update_user_def option.map_ident)

lemma jwt_base_tables: "\<exists>us. snd (jwt_EditUserBaseInfo lib b db) = db\<lparr>users := us\<rparr>"
  using jwt_base_state [of lib b db] update_user_tables no_users_change by metis

text \<open>\<open>EditUser\<close> runs in a transaction: it leaves the tables alone, or sets the role.\<close>

lemma count_key_zero: "sql_count (\<lambda>k _. k = u) t = 0 \<longleftrightarrow> map_of t u = None"
proof -
  have "sql_count (\<lambda>k _. k = u) t = 0 \<longleftrightarrow> \<not> 0 < sql_count (\<lambda>k _. k = u) t"
    by (simp add: sql_count_def)
  also have "\<dots> \<longleftrightarrow> map_of t u = None"
    unfolding sql_count_pos_iff map_of_eq_None_iff by force
  finally show ?thesis .
qed

lemma jwt_edit_state:
  "snd (jwt_EditUser lib x db) = db \<or> map_of (users db) (ub_Username x) \<noteq> None \<and>
   (\<exists>f. snd (jwt_EditUser lib x db) = update_user (ub_Username x) f db \<and> (\<forall>r. ur_role (f r) = ua_Role x))"
proof -
  let ?f = "\<lambda>r. r\<lparr>ur_role := ua_Role x, ur_email := ub_Email x, ur_live_camera := ua_LiveCamera x\<rparr>"
  have compose: "update_user u g (update_user u f db) = update_user u (g \<circ> f) db" for u f g
    by (simp add: update_user_def sql_update_def comp_def case_prod_unfold)
  have "snd (jwt_EditUser lib x db) = db \<or> map_of (users db) (ub_Username x) \<noteq> None \<and>
      (snd (jwt_EditUser lib x db) = update_user (ub_Username x) ?f db \<or>
       (\<exists>h. snd (jwt_EditUser lib x db) = update_user (ub_Username x) ((\<lambda>r. r\<lparr>ur_password_hash := h\<rparr>) \<circ> ?f) db))"
    by (auto simp: jwt_EditUser_def txE_def throwE_def bindE_def liftR_def retE_def modifyE_def exec_update_user_def count_key_zero
        compose simp del: comp_apply split: sum.split)
  moreover have "\<forall>r. ur_role (?f r) = ua_Role x" "\<And>h. \<forall>r. ur_role (((\<lambda>r. r\<lparr>ur_password_hash := h\<rparr>) \<circ> ?f) r) = ua_Role x"
    by simp_all
  ultimately show ?thesis by blast
qed

lemma jwt_edit_roles:
  "roles (snd (jwt_EditUser lib x db)) = roles db \<or>
   roles db (ub_Username x) \<noteq> None \<and> roles (snd (jwt_EditUser lib x db)) = (roles db)(ub_Username x \<mapsto> ua_Role x)"
  using jwt_edit_state [of lib x db]
  by (auto simp: fun_eq_iff roles_update_user) (auto simp: roles_def)

lemma jwt_add_roles:
  "roles (snd (jwt_AddUser lib x db)) = roles db \<or>
   roles db (ToLower (ub_Username x)) = None \<and>
   roles (snd (jwt_AddUser lib x db)) = (roles db)(ToLower (ub_Username x) \<mapsto> ua_Role x)"
  by (auto simp: jwt_AddUser_def Let_def roles_def fun_eq_iff split: sum.split)

lemma jwt_add_tables: "\<exists>us. snd (jwt_AddUser lib x db) = db\<lparr>users := us\<rparr>"
  using no_users_change [of db] by (auto simp: jwt_AddUser_def Let_def split: sum.split)

lemma jwt_add_rows: "map_of (users db) v = Some row \<Longrightarrow> map_of (users (snd (jwt_AddUser lib x db))) v = Some row"
  by (auto simp: jwt_AddUser_def Let_def split: sum.split)

lemma jwt_del_roles:
  "auth_ok db \<Longrightarrow> roles (snd (jwt_DelUser u db)) = roles db \<or> roles (snd (jwt_DelUser u db)) = (roles db)(u := None)"
  by (auto simp: jwt_DelUser_def auth_ok_def roles_def fun_eq_iff map_of_sql_delete split: option.split)

lemma jwt_frames:
  "accounts_only db (snd (jwt_AddUser lib x db))" "accounts_only db (snd (jwt_EditUser lib x db))"
  "accounts_only db (snd (jwt_DelUser u db))" "accounts_only db (snd (jwt_EditUserBaseInfo lib b db))"
proof -
  show "accounts_only db (snd (jwt_AddUser lib x db))"
    by (simp add: jwt_AddUser_def Let_def accounts_only_users accounts_only_refl split: sum.split)
  show "accounts_only db (snd (jwt_EditUser lib x db))"
    using jwt_edit_state [of lib x db] update_user_tables [of "ub_Username x" _ db] accounts_only_users accounts_only_refl by metis
  show "accounts_only db (snd (jwt_DelUser u db))"
    by (simp add: jwt_DelUser_def accounts_only_refl) (auto simp: accounts_only_def)
  show "accounts_only db (snd (jwt_EditUserBaseInfo lib b db))"
    using jwt_base_tables [of lib b db] accounts_only_users by metis
qed

interpretation jwt_accounts: user_accounts "JwtManager lib jl j" for lib jl j
proof unfold_locales
  let ?um = "JwtManager lib jl j"
  show "um_GetUser ?um u db =
      (case map_of (users db) u of None \<Rightarrow> (Inl ErrUserNotFound, db) | Some r \<Rightarrow> (Inr (user_of_row u r), db))" for u db
    by (simp add: JwtManager_def getUserFromDB_def readE_def split: option.split)
  show "snd (um_ListUsers ?um c r db) = db" for c r db
    by (simp add: JwtManager_def listUsersFromDB_def readE_def retE_def)
qed (simp_all add: JwtManager_def jwt_add_roles jwt_add_tables jwt_add_rows jwt_edit_roles jwt_del_roles jwt_base_roles jwt_base_others jwt_base_tables
  jwt_frames auth_ok_AddUser auth_ok_EditUser auth_ok_EditUserBaseInfo auth_ok_DelUser del: not_None_eq)

end
