(* ===== verification/Camera.thy ===== *)
theory Camera
  imports GoStrconv
begin

text \<open>
  The latest snapshots of a camera (\<^verbatim>\<open>CameraLatestSnapShot\<close> and \<^verbatim>\<open>readLocalStationImgs\<close> of
  \<^verbatim>\<open>tide_server/controller/camera.go\<close>), after the request's parameters and permissions are checked.

  A directory tree is a datatype with its entries in the order \<^verbatim>\<open>os.ReadDir\<close> returns them; whether a
  file can be opened and read is a field of it. The cache of an upstream station's camera is a flat
  directory. \<open>fetch\<close> is what asking one upstream for its newer images gives. The configured
  \<^verbatim>\<open>LatestSnapshotCount\<close> is a natural number.
\<close>

record img_info =
  img_Millisecond :: unix_ms
  img_Bytes :: "byte list"

record snap_file =
  sf_name :: string
  sf_mtime :: unix_ms
  sf_bytes :: "byte list"
  sf_readable :: bool

datatype fs_entry = FsFile snap_file | FsDir string "fs_entry list"

text \<open>What the handler does with the response writer: nothing, an internal error, or the images.\<close>

datatype camera_reply = NoReply | ReplyError | ReplyImgs "img_info list"

section \<open>Local stations\<close>

text \<open>\<^verbatim>\<open>path.Ext\<close>: the suffix that starts at the last dot, or the empty string.\<close>

definition path_Ext :: "string \<Rightarrow> string" where
  "path_Ext name =
     (if CHR ''.'' \<in> set name then CHR ''.'' # rev (takeWhile (\<lambda>c. c \<noteq> CHR ''.'') (rev name)) else [])"

fun walk_entry :: "string \<Rightarrow> fs_entry \<Rightarrow> (string \<times> snap_file) list" where
  "walk_entry prefix (FsFile f) = (if path_Ext (sf_name f) = ''.jpg'' then [(prefix @ sf_name f, f)] else [])"
| "walk_entry prefix (FsDir name entries) =
     (if name = ''dav'' then [] else concat (map (walk_entry (prefix @ name @ ''/'')) entries))"

definition err_not_exist :: go_error where "err_not_exist = ErrorString ''file does not exist''"

definition readLocalStationImgs :: "fs_entry list option \<Rightarrow> (string \<times> snap_file) list result" where
  "readLocalStationImgs dir =
     (case dir of None \<Rightarrow> Inl err_not_exist | Some entries \<Rightarrow> Inr (concat (map (walk_entry []) entries)))"

fun local_loop :: "int \<Rightarrow> snap_file list \<Rightarrow> img_info list \<Rightarrow> camera_reply" where
  "local_loop after [] acc = ReplyImgs acc"
| "local_loop after (f # fs) acc =
     (if \<not> sf_readable f then NoReply
      else if sf_mtime f \<le> after then ReplyImgs acc
      else local_loop after fs (acc @ [\<lparr>img_Millisecond = sf_mtime f, img_Bytes = sf_bytes f\<rparr>]))"

definition local_snapshots :: "nat \<Rightarrow> int \<Rightarrow> fs_entry list option \<Rightarrow> camera_reply" where
  "local_snapshots count after dir =
     (case readLocalStationImgs dir of
        Inl _ \<Rightarrow> ReplyError
      | Inr imgs \<Rightarrow>
          let start = (if count < length imgs then length imgs - count else 0) in
          local_loop after (rev (map snd (drop start imgs))) [])"

section \<open>Stations of an upstream\<close>

type_synonym snap_cache = "(string, byte list) go_map"

datatype dir_read = DirMissing bool | DirFails | DirEntries snap_cache

datatype fetch_outcome = NotConnected | FetchError | BadReply | Fetched "img_info list"

definition cache_ts :: "string \<Rightarrow> int option" where
  "cache_ts name =
     (if length name \<noteq> 17 then None
      else case ParseInt (take 13 name) of (ts, None) \<Rightarrow> Some ts | (_, Some _) \<Rightarrow> None)"

definition img_file :: "img_info \<Rightarrow> string" where
  "img_file img = FormatInt (img_Millisecond img) @ ''.jpg''"

fun write_imgs :: "(string \<Rightarrow> bool) \<Rightarrow> img_info list \<Rightarrow> snap_cache \<Rightarrow> bool \<times> snap_cache" where
  "write_imgs writable [] dir = (True, dir)"
| "write_imgs writable (img # imgs) dir =
     (if \<not> writable (img_file img) then (False, dir)
      else write_imgs writable imgs (AList.update (img_file img) (img_Bytes img) dir))"

fun prune_cache :: "int \<Rightarrow> string list \<Rightarrow> snap_cache \<Rightarrow> snap_cache" where
  "prune_cache i [] dir = dir"
| "prune_cache i (n # ns) dir =
     (if 0 < i then prune_cache (i - 1) ns (AList.delete n dir) else prune_cache i ns dir)"

text \<open>The first loop of the reply: the flag says that the loop ran to its end.\<close>

fun take_fetched :: "nat \<Rightarrow> int \<Rightarrow> img_info list \<Rightarrow> img_info list \<Rightarrow> img_info list \<times> bool" where
  "take_fetched count after [] acc = (acc, True)"
| "take_fetched count after (img # imgs) acc =
     (if after < img_Millisecond img \<and> length acc \<le> count then take_fetched count after imgs (acc @ [img])
      else (acc, False))"

text \<open>The second loop, over the cached names from the newest; \<open>dir\<close> is the directory by now.\<close>

fun take_cached :: "nat \<Rightarrow> int \<Rightarrow> (string \<Rightarrow> bool) \<Rightarrow> snap_cache \<Rightarrow> string list \<Rightarrow> img_info list \<Rightarrow> camera_reply" where
  "take_cached count after readable dir [] acc = ReplyImgs acc"
| "take_cached count after readable dir (n # ns) acc =
     (case cache_ts n of
        None \<Rightarrow> NoReply
      | Some ts \<Rightarrow>
          if after < ts \<and> length acc < count then
            (case map_of dir n of
               None \<Rightarrow> NoReply
             | Some bs \<Rightarrow>
                 if \<not> readable n then NoReply
                 else take_cached count after readable dir ns (acc @ [\<lparr>img_Millisecond = ts, img_Bytes = bs\<rparr>]))
          else ReplyImgs acc)"

definition reply_fetched ::
  "nat \<Rightarrow> int \<Rightarrow> (string \<Rightarrow> bool) \<Rightarrow> (string \<Rightarrow> bool) \<Rightarrow> snap_cache \<Rightarrow> img_info list \<Rightarrow> camera_reply \<times> snap_cache" where
  "reply_fetched count after writable readable cached imgs =
     (case write_imgs writable imgs cached of
        (False, dir) \<Rightarrow> (NoReply, dir)
      | (True, dir) \<Rightarrow>
          let names = map fst cached;
              dir1 = prune_cache (int (length cached) + int (length imgs) - int count) names dir
          in (case take_fetched count after imgs [] of
                (acc, False) \<Rightarrow> (ReplyImgs acc, dir1)
              | (acc, True) \<Rightarrow> (take_cached count after readable dir1 (rev names) acc, dir1)))"

fun ask_upstreams ::
  "nat \<Rightarrow> int \<Rightarrow> (string \<Rightarrow> bool) \<Rightarrow> (string \<Rightarrow> bool) \<Rightarrow> snap_cache \<Rightarrow> fetch_outcome list \<Rightarrow> camera_reply \<times> snap_cache" where
  "ask_upstreams count after writable readable cached [] = (NoReply, cached)"
| "ask_upstreams count after writable readable cached (ans # rest) =
     (case ans of
        NotConnected \<Rightarrow> ask_upstreams count after writable readable cached rest
      | FetchError \<Rightarrow> ask_upstreams count after writable readable cached rest
      | BadReply \<Rightarrow> (NoReply, cached)
      | Fetched imgs \<Rightarrow> reply_fetched count after writable readable cached imgs)"

definition upstream_snapshots ::
  "nat \<Rightarrow> int \<Rightarrow> (string \<Rightarrow> bool) \<Rightarrow> (string \<Rightarrow> bool) \<Rightarrow> dir_read \<Rightarrow> (unix_ms \<Rightarrow> fetch_outcome list) \<Rightarrow> camera_reply \<times> snap_cache" where
  "upstream_snapshots count after writable readable rd fetch =
     (case rd of
        DirFails \<Rightarrow> (NoReply, [])
      | DirMissing created \<Rightarrow> if \<not> created then (NoReply, []) else ask_upstreams count after writable readable [] (fetch 0)
      | DirEntries cached \<Rightarrow>
          if cached = [] then ask_upstreams count after writable readable cached (fetch 0)
          else case cache_ts (fst (last cached)) of
            None \<Rightarrow> (NoReply, cached)
          | Some latest \<Rightarrow> ask_upstreams count after writable readable cached (fetch latest))"

section \<open>Bounds of the reply\<close>

definition reply_ok :: "nat \<Rightarrow> int \<Rightarrow> camera_reply \<Rightarrow> bool" where
  "reply_ok n after r = (case r of ReplyImgs imgs \<Rightarrow> length imgs \<le> n \<and> (\<forall>i \<in> set imgs. after < img_Millisecond i) | _ \<Rightarrow> True)"

lemma local_loop_ok:
  "length acc + length fs \<le> n \<Longrightarrow> \<forall>i \<in> set acc. after < img_Millisecond i \<Longrightarrow> reply_ok n after (local_loop after fs acc)"
proof (induction fs arbitrary: acc)
  case (Cons f fs)
  then show ?case by (auto simp: reply_ok_def [of _ _ NoReply] reply_ok_def [of _ _ "ReplyImgs _"])
qed (simp add: reply_ok_def)

lemma take_fetched_ok:
  assumes "take_fetched count after imgs acc = (r, b)" "length acc \<le> Suc count" "\<forall>i \<in> set acc. after < img_Millisecond i"
  shows "length r \<le> Suc count \<and> (\<forall>i \<in> set r. after < img_Millisecond i)"
  using assms
proof (induction imgs arbitrary: acc)
  case (Cons img imgs)
  show ?case
  proof (cases "after < img_Millisecond img \<and> length acc \<le> count")
    case True
    with Cons.prems show ?thesis by (intro Cons.IH [of "acc @ [img]"]) auto
  next
    case False
    with Cons.prems show ?thesis by (simp split: if_splits)
  qed
qed simp

lemma take_cached_ok:
  "length acc \<le> n \<Longrightarrow> count \<le> n \<Longrightarrow> \<forall>i \<in> set acc. after < img_Millisecond i \<Longrightarrow>
     reply_ok n after (take_cached count after readable dir ns acc)"
proof (induction ns arbitrary: acc)
  case (Cons n ns)
  then show ?case by (auto simp: reply_ok_def [of _ _ NoReply] reply_ok_def [of _ _ "ReplyImgs _"] split: option.split)
qed (simp add: reply_ok_def)

lemma reply_fetched_ok: "reply_ok (Suc count) after (fst (reply_fetched count after w rd cached imgs))"
proof -
  obtain r b where r: "take_fetched count after imgs [] = (r, b)" by (cases "take_fetched count after imgs []")
  from take_fetched_ok [OF r] have len: "length r \<le> Suc count" "\<forall>i \<in> set r. after < img_Millisecond i" by auto
  then have "reply_ok (Suc count) after (ReplyImgs r)" by (simp add: reply_ok_def)
  moreover have "reply_ok (Suc count) after (take_cached count after rd dir ns r)" for dir ns
    using take_cached_ok len by simp
  ultimately show ?thesis
    unfolding reply_fetched_def r Let_def by (simp add: reply_ok_def [of _ _ NoReply] split: prod.split bool.split)
qed

lemma ask_upstreams_ok: "reply_ok (Suc count) after (fst (ask_upstreams count after w rd cached os))"
  by (induction os) (simp_all add: reply_ok_def [of _ _ NoReply] reply_fetched_ok split: fetch_outcome.split)

definition newer_imgs :: "int \<Rightarrow> nat \<Rightarrow> img_info list" where
  "newer_imgs after n = map (\<lambda>i. \<lparr>img_Millisecond = after + 1 + int i, img_Bytes = []\<rparr>) [0..<n]"

lemma take_fetched_all:
  "length acc + length imgs \<le> Suc count \<Longrightarrow> \<forall>i \<in> set imgs. after < img_Millisecond i \<Longrightarrow>
     take_fetched count after imgs acc = (acc @ imgs, True)"
  by (induction imgs arbitrary: acc) auto

lemma write_imgs_ok: "\<forall>n. writable n \<Longrightarrow> \<exists>dir'. write_imgs writable imgs dir = (True, dir')"
  by (induction imgs arbitrary: dir) auto

lemma reply_fetched_one_more:
  "fst (reply_fetched count after (\<lambda>_. True) readable [] (newer_imgs after (Suc count))) = ReplyImgs (newer_imgs after (Suc count))"
proof -
  have "take_fetched count after (newer_imgs after (Suc count)) [] = (newer_imgs after (Suc count), True)"
    using take_fetched_all [of "[]" "newer_imgs after (Suc count)" count after] by (auto simp: newer_imgs_def)
  moreover obtain dir where "write_imgs (\<lambda>_. True) (newer_imgs after (Suc count)) [] = (True, dir)"
    using write_imgs_ok [of "\<lambda>_. True"] by blast
  ultimately show ?thesis by (simp add: reply_fetched_def)
qed

text \<open>
  The reply to a request for the latest snapshots. Every image in it is newer than the request's
  \<open>after\<close>. For a local station it has at most \<open>LatestSnapshotCount\<close> images, for a station of an upstream
  at most one more; that one more is reached for every configured count, when an upstream sends one
  image more than the count.
\<close>

theorem camera_reply_bounds:
  "reply_ok count after (local_snapshots count after tree) \<and>
   reply_ok (Suc count) after (fst (upstream_snapshots count after writable readable rd fetch)) \<and>
   fst (upstream_snapshots count after (\<lambda>_. True) readable (DirEntries []) (\<lambda>_. [Fetched (newer_imgs after (Suc count))])) =
     ReplyImgs (newer_imgs after (Suc count))"
proof (intro conjI)
  show "reply_ok count after (local_snapshots count after tree)"
    by (simp add: local_snapshots_def Let_def reply_ok_def [of _ _ ReplyError] local_loop_ok split: sum.split)
  show "reply_ok (Suc count) after (fst (upstream_snapshots count after writable readable rd fetch))"
    by (simp add: upstream_snapshots_def reply_ok_def [of _ _ NoReply] ask_upstreams_ok split: dir_read.split option.split)
qed (simp add: upstream_snapshots_def reply_fetched_one_more)

end
