(* ===== verification/Api.thy ===== *)
theory Api
  imports UserManager Camera StationServer
begin

text \<open>
  The HTTP interface of the server: the handlers of \<^verbatim>\<open>controller/auth.go\<close>, \<^verbatim>\<open>station.go\<close>, \<^verbatim>\<open>log.go\<close> and
  \<^verbatim>\<open>camera.go\<close>, the request context (\<^verbatim>\<open>request_context.go\<close>), the helpers of \<^verbatim>\<open>http_helpers.go\<close> and the
  middlewares and route table of \<^verbatim>\<open>router.go\<close>.

  A handler takes the request and the server's state and returns the response and the new state; a
  handler that returns without writing sends status 200 with an empty body, as \<^verbatim>\<open>net/http\<close> does. The
  mutex \<^verbatim>\<open>editMu\<close> makes the editing handlers run one after the other. What a request reads from
  outside is the record \<open>api_env\<close>: the user manager, the JSON decoders (one per destination type), the
  UUID parser, the clock, a fresh UUID, the answers of a station and of an upstream to snapshot
  requests, and the camera directories. Mails and the goroutines that follow an upstream are recorded
  in the state.

  The table \<open>routes\<close> holds the patterns of \<^verbatim>\<open>setupRouter\<close> whose handlers answer a request from the tables. The other patterns it registers
  are not in it, and \<open>ServeHTTP\<close> is not meant for requests that match them: the sessions \<^verbatim>\<open>/sync\<close> (\<open>V1Relay\<close>) and \<^verbatim>\<open>/sync_v2/station\<close>,
  \<^verbatim>\<open>/sync_v2/relay\<close> (\<open>StationSession\<close>, \<open>HttpServer\<close>), \<^verbatim>\<open>/ws/global\<close> and \<^verbatim>\<open>/ws/data\<close> (\<open>Websocket\<close>), the six sea-level routes
  (\<open>SeaLevel\<close>) and \<^verbatim>\<open>/debug/pprof/\<close> (Go's profiler, not modelled).
\<close>

datatype http_body =
    NoBody
  | OkText
  | JUsers "user list"
  | JUser user
  | JPermissions uuid_strings_map
  | JCameras "(uuid, raw_message) go_map"
  | JUpstreams "upstream list"
  | JStations "station list"
  | JDevices "device list"
  | JDeviceRecords "DeviceRecord list"
  | JItems "item list"
  | JHistory "data_time list"
  | JStatusLogs int "(uuid \<times> string \<times> status \<times> unix_ms) list"
  | JToken string
  | JImgs "img_info list"
  | Jpeg "byte list"

record http_response =
  rs_status :: int
  rs_body :: http_body

definition silent :: http_response where "silent = \<lparr>rs_status = 200, rs_body = NoBody\<rparr>"
definition statusOnly :: "int \<Rightarrow> http_response" where "statusOnly c = \<lparr>rs_status = c, rs_body = NoBody\<rparr>"
definition writeOK :: http_response where "writeOK = \<lparr>rs_status = 200, rs_body = OkText\<rparr>"
definition writeJSON :: "int \<Rightarrow> http_body \<Rightarrow> http_response" where "writeJSON c b = \<lparr>rs_status = c, rs_body = b\<rparr>"

lemmas response_defs = silent_def statusOnly_def writeOK_def writeJSON_def

datatype conn_key = KStation uuid | KUpstream int

text \<open>An entry of \<^verbatim>\<open>recvConnections\<close>: a station's session or an upstream's state, and whether it was closed.\<close>

datatype recv_conn = StationConn bool | UpstreamConn upstream bool

record api_state =
  api_db :: tide_db
  api_hub :: sync_hub
  recvConnections :: "(conn_key, recv_conn) go_map"
  api_mails :: "(string list \<times> string) list"
  api_syncs :: "upstream list"
  api_cache :: "uuid \<times> string \<Rightarrow> snap_cache"

record json_dec =
  jd_user :: "string \<Rightarrow> user option"
  jd_base :: "string \<Rightarrow> user_base_info option"
  jd_names :: "string \<Rightarrow> string list option"
  jd_permission :: "string \<Rightarrow> (string \<times> uuid_strings_map option) option"
  jd_upstream :: "string \<Rightarrow> upstream option"
  jd_id :: "string \<Rightarrow> int option"
  jd_station :: "string \<Rightarrow> station option"
  jd_device :: "string \<Rightarrow> device option"
  jd_record :: "string \<Rightarrow> DeviceRecord option"

text \<open>What the session of a station of the old protocol answers to a snapshot request.\<close>

datatype v1_snapshot = V1Rejected | V1Silent | V1Bytes "byte list"

record camera_env =
  cam_count :: nat
  cam_tree :: "uuid \<Rightarrow> string \<Rightarrow> fs_entry list option"
  cam_dir :: "uuid \<Rightarrow> string \<Rightarrow> dir_read"
  cam_writable :: "string \<Rightarrow> bool"
  cam_readable :: "string \<Rightarrow> bool"
  cam_fetch :: "upstream \<Rightarrow> uuid \<Rightarrow> string \<Rightarrow> unix_ms \<Rightarrow> fetch_outcome"

record api_env =
  env_um :: user_manager
  env_json :: json_dec
  uuid_Parse :: "string \<Rightarrow> uuid option"
  env_now :: unix_ms
  env_now_s :: int
  env_newUUID :: "uuid result"
  env_smtp :: bool
  env_v2_snapshot :: "uuid \<Rightarrow> string \<Rightarrow> byte list result"
  env_v1_snapshot :: "uuid \<Rightarrow> string \<Rightarrow> v1_snapshot"
  env_camera :: camera_env

type_synonym reply = "http_response \<times> api_state"
type_synonym handler = "api_env \<Rightarrow> http_request \<Rightarrow> api_state \<Rightarrow> reply"

section \<open>Steps of a handler\<close>

text \<open>A database call; \<open>tryDB\<close> is the idiom that logs an error and returns without writing.\<close>

definition on_db :: "'a db_op \<Rightarrow> api_state \<Rightarrow> 'a result \<times> api_state" where
  "on_db m st = (case m (api_db st) of (r, db) \<Rightarrow> (r, st\<lparr>api_db := db\<rparr>))"

definition tryDB :: "'a db_op \<Rightarrow> ('a \<Rightarrow> api_state \<Rightarrow> reply) \<Rightarrow> api_state \<Rightarrow> reply" where
  "tryDB m k st = (case on_db m st of (Inl _, st') \<Rightarrow> (silent, st') | (Inr a, st') \<Rightarrow> k a st')"

definition readJSON :: "(string \<Rightarrow> 'a option) \<Rightarrow> http_request \<Rightarrow> ('a \<Rightarrow> api_state \<Rightarrow> reply) \<Rightarrow> api_state \<Rightarrow> reply" where
  "readJSON dec r k st = (case dec (rq_body r) of None \<Rightarrow> (statusOnly 400, st) | Some a \<Rightarrow> k a st)"

definition on_hub :: "(sync_hub \<Rightarrow> sync_hub) \<Rightarrow> api_state \<Rightarrow> api_state" where
  "on_hub f st = st\<lparr>api_hub := f (api_hub st)\<rparr>"

definition publish_config :: "string \<Rightarrow> msg_body \<Rightarrow> api_state \<Rightarrow> api_state" where
  "publish_config typ body = on_hub (hub_Publish BrokerConfig (SendMsg typ body) None)"

definition update_permissions :: "string \<Rightarrow> uuid_strings_map option \<Rightarrow> api_state \<Rightarrow> api_state" where
  "update_permissions username p st =
     on_hub (UpdatePermissions (fst (GetAvailableItems (api_db st))) username p) st"

definition ok_reply :: "api_state \<Rightarrow> reply" where "ok_reply st = (writeOK, st)"

definition SendMail :: "api_env \<Rightarrow> string list \<Rightarrow> string \<Rightarrow> api_state \<Rightarrow> api_state" where
  "SendMail env addrs body st = (if env_smtp env \<and> addrs \<noteq> [] then st\<lparr>api_mails := api_mails st @ [(addrs, body)]\<rparr> else st)"

definition mailDelUser :: "api_env \<Rightarrow> string \<Rightarrow> string \<Rightarrow> api_state \<Rightarrow> api_state" where
  "mailDelUser env username addr = SendMail env [addr] (''Account: '' @ username @ '' has been deleted.'')"

section \<open>The request context\<close>

definition withRequestUser :: "http_request \<Rightarrow> string \<Rightarrow> user \<Rightarrow> http_request" where
  "withRequestUser r username u = r\<lparr>rq_ctx := Some (username, u)\<rparr>"

definition requestUsername :: "http_request \<Rightarrow> string" where
  "requestUsername r = (case rq_ctx r of None \<Rightarrow> [] | Some (username, _) \<Rightarrow> username)"

definition requestRole :: "http_request \<Rightarrow> int" where
  "requestRole r = (case rq_ctx r of None \<Rightarrow> 0 | Some (_, u) \<Rightarrow> ua_Role u)"

definition requestLiveCamera :: "http_request \<Rightarrow> bool" where
  "requestLiveCamera r = (case rq_ctx r of None \<Rightarrow> False | Some (_, u) \<Rightarrow> ua_Role u = NormalUser \<and> ua_LiveCamera u)"

section \<open>Users (\<open>auth.go\<close>)\<close>

definition Login :: handler where
  "Login env r st =
     (case um_Login (env_um env) (env_now_s env) r (api_db st) of
        Inl code \<Rightarrow> (statusOnly code, st) | Inr token \<Rightarrow> (writeJSON 200 (JToken token), st))"

definition Logout :: handler where
  "Logout env r st = (statusOnly 204, st)"

definition ListUser :: handler where
  "ListUser env r =
     (let (condition, role) = (if Query_Get r ''application'' = ''true'' then (0, DisabledUser) else (1, NormalUser)) in
      tryDB (um_ListUsers (env_um env) condition role) (\<lambda>us st. (writeJSON 200 (JUsers us), st)))"

definition UserInfo :: handler where
  "UserInfo env r st =
     (case rq_ctx r of None \<Rightarrow> (statusOnly 401, st) | Some (_, u) \<Rightarrow> (writeJSON 200 (JUser u), st))"

text \<open>The tail of an edit of another account: \<open>pre\<close> is the account before, \<open>u\<close> the one just stored.\<close>

definition after_edit_user :: "user \<Rightarrow> user \<Rightarrow> api_state \<Rightarrow> reply" where
  "after_edit_user pre u st =
     (if ub_Password u \<noteq> [] \<or> ua_Role u = DisabledUser
      then ok_reply (on_hub (DisconnectUser (ub_Username u) connTypeAny) st)
      else if ua_Role pre \<noteq> ua_Role u then
        (if ua_Role u = NormalUser
         then tryDB (GetPermissions (ub_Username u)) (\<lambda>p st'. ok_reply (update_permissions (ub_Username u) (Some p) st')) st
         else ok_reply (update_permissions (ub_Username u) None st))
      else ok_reply st)"

definition edit_other_user :: "api_env \<Rightarrow> user \<Rightarrow> api_state \<Rightarrow> reply" where
  "edit_other_user env u st =
     (if SuperAdmin \<le> ua_Role u then (silent, st)
      else case on_db (um_GetUser (env_um env) (ub_Username u)) st of
        (Inr pre, st1) \<Rightarrow>
          if SuperAdmin \<le> ua_Role pre then (silent, st1)
          else tryDB (um_EditUser (env_um env) u) (\<lambda>_. after_edit_user pre u) st1
      | (Inl e, st1) \<Rightarrow>
          if errors_is e ErrUserNotFound then tryDB (um_AddUser (env_um env) u) (\<lambda>_. ok_reply) st1
          else (silent, st1))"

definition EditUser :: handler where
  "EditUser env r =
     (let loginRole = requestRole r; loginUsername = requestUsername r in
      if loginRole = NormalUser then
        readJSON (jd_base (env_json env)) r (\<lambda>reqUser.
          tryDB (um_EditUserBaseInfo (env_um env) (reqUser\<lparr>ub_Username := loginUsername\<rparr>)) (\<lambda>_. ok_reply))
      else
        readJSON (jd_user (env_json env)) r (\<lambda>reqUser0.
          let reqUser = (if ub_Username reqUser0 = [] then reqUser0\<lparr>ub_Username := loginUsername\<rparr> else reqUser0) in
          if ub_Username reqUser = loginUsername
          then tryDB (um_EditUserBaseInfo (env_um env) (user_base_info.truncate reqUser)) (\<lambda>_. ok_reply)
          else edit_other_user env reqUser))"

primrec del_users :: "api_env \<Rightarrow> string list \<Rightarrow> api_state \<Rightarrow> reply" where
  "del_users env [] = ok_reply"
| "del_users env (username # rest) =
     tryDB (um_GetUser (env_um env) username) (\<lambda>u.
       if ua_Role u \<le> AdminRole
       then tryDB (um_DelUser (env_um env) username) (\<lambda>_ st.
              del_users env rest (mailDelUser env (ub_Username u) (ub_Email u) (on_hub (DisconnectUser username connTypeAny) st)))
       else del_users env rest)"

definition DelUser :: handler where
  "DelUser env r = readJSON (jd_names (env_json env)) r (del_users env)"

definition applied_user :: "user_base_info \<Rightarrow> user" where
  "applied_user b = \<lparr>ub_Username = ub_Username b, ub_Password = ub_Password b, ub_Email = ub_Email b,
     ua_Role = DisabledUser, ua_LiveCamera = False\<rparr>"

definition mail_admins :: "api_env \<Rightarrow> api_state \<Rightarrow> api_state" where
  "mail_admins env st =
     (case on_db (um_ListUsers (env_um env) 1 AdminRole) st of
        (Inl _, st') \<Rightarrow> st'
      | (Inr us, st') \<Rightarrow> SendMail env (filter (\<lambda>e. e \<noteq> []) (map ub_Email us)) ''Have a new account application'' st')"

definition ApplyAccount :: handler where
  "ApplyAccount env r = readJSON (jd_base (env_json env)) r (\<lambda>b.
     tryDB (um_AddUser (env_um env) (applied_user b)) (\<lambda>_ st. ok_reply (mail_admins env st)))"

primrec pass_users :: "api_env \<Rightarrow> string list \<Rightarrow> api_state \<Rightarrow> reply" where
  "pass_users env [] = ok_reply"
| "pass_users env (username # rest) =
     tryDB (um_GetUser (env_um env) username) (\<lambda>u.
       if ua_Role u = DisabledUser
       then tryDB (um_EditUser (env_um env) (u\<lparr>ua_Role := NormalUser\<rparr>)) (\<lambda>_ st.
              pass_users env rest (SendMail env [ub_Email u] ''Account application is successful'' st))
       else pass_users env rest)"

definition PassApplication :: handler where
  "PassApplication env r = readJSON (jd_names (env_json env)) r (pass_users env)"

section \<open>Permissions and upstreams (\<open>auth.go\<close>, \<open>camera.go\<close>)\<close>

text \<open>Whose permissions a listing request asks for; \<open>None\<close> for a role below a normal user's.\<close>

definition listed_user :: "http_request \<Rightarrow> string option" where
  "listed_user r =
     (if requestRole r = NormalUser then Some (requestUsername r)
      else if AdminRole \<le> requestRole r then Some (Query_Get r ''username'') else None)"

definition all_items_map :: "item list \<Rightarrow> uuid_strings_map" where
  "all_items_map is = group_items (map (\<lambda>i. (i_StationId i, i_Name i)) is)"

definition ListPermission :: handler where
  "ListPermission env r st =
     (case listed_user r of
        None \<Rightarrow> (silent, st)
      | Some username \<Rightarrow>
          if AdminRole \<le> requestRole r \<and> username = []
          then tryDB (GetItems uuid_Nil) (\<lambda>is st. (writeJSON 200 (JPermissions (all_items_map is)), st)) st
          else tryDB (GetPermissions username) (\<lambda>p st. (writeJSON 200 (JPermissions p), st)) st)"

text \<open>
  A body without \<^verbatim>\<open>scopes\<close> decodes to the nil map (\<open>None\<close>): a loop over it does nothing, and
  \<open>UpdatePermissions\<close> takes it for \<^emph>\<open>no restriction\<close>.
\<close>

definition range_map :: "uuid_strings_map option \<Rightarrow> uuid_strings_map" where
  "range_map scopes = (case scopes of None \<Rightarrow> [] | Some m \<Rightarrow> m)"

definition api_EditPermission :: handler where
  "api_EditPermission env r = readJSON (jd_permission (env_json env)) r (\<lambda>(username, scopes) st.
     if username = [] then (statusOnly 400, st)
     else tryDB (um_GetUser (env_um env) username) (\<lambda>dstUser st.
       if AdminRole \<le> ua_Role dstUser then (silent, st)
       else tryDB (EditPermission username (range_map scopes)) (\<lambda>_ st. ok_reply (update_permissions username scopes st)) st) st)"

definition ListCameraStatusPermission :: handler where
  "ListCameraStatusPermission env r st =
     (case listed_user r of
        None \<Rightarrow> (silent, st)
      | Some username \<Rightarrow>
          if AdminRole \<le> requestRole r \<and> username = []
          then tryDB GetStations (\<lambda>ss st.
                 (writeJSON 200 (JCameras (fold (\<lambda>s. AList.update (s_Id s) (s_Cameras s)) ss [])), st)) st
          else tryDB (GetCameraStatusPermissions username) (\<lambda>p st. (writeJSON 200 (JPermissions p), st)) st)"

definition api_EditCameraStatusPermission :: handler where
  "api_EditCameraStatusPermission env r = readJSON (jd_permission (env_json env)) r (\<lambda>(username, scopes) st.
     if username = [] then (statusOnly 400, st)
     else tryDB (um_GetUser (env_um env) username) (\<lambda>dstUser st.
       if AdminRole \<le> ua_Role dstUser then (silent, st)
       else tryDB (EditCameraStatusPermission username (range_map scopes)) (\<lambda>_. ok_reply) st) st)"

definition ListUpstream :: handler where
  "ListUpstream env r = tryDB GetUpstreams (\<lambda>us st. (writeJSON 200 (JUpstreams us), st))"

definition close_conn :: "conn_key \<Rightarrow> api_state \<Rightarrow> api_state" where
  "close_conn k st =
     (case map_of (recvConnections st) k of
        None \<Rightarrow> st
      | Some (StationConn _) \<Rightarrow> st\<lparr>recvConnections := AList.update k (StationConn True) (recvConnections st)\<rparr>
      | Some (UpstreamConn u _) \<Rightarrow> st\<lparr>recvConnections := AList.update k (UpstreamConn u True) (recvConnections st)\<rparr>)"

definition api_EditUpstream :: handler where
  "api_EditUpstream env r = readJSON (jd_upstream (env_json env)) r (\<lambda>up.
     tryDB (EditUpstream up) (\<lambda>up' st.
       let st1 = close_conn (KUpstream (u_Id up')) st in ok_reply (st1\<lparr>api_syncs := api_syncs st1 @ [up']\<rparr>)))"

text \<open>The goroutine the handler starts stores its state first.\<close>

definition startSync :: "upstream \<Rightarrow> api_state \<Rightarrow> api_state" where
  "startSync up st = st\<lparr>recvConnections := AList.update (KUpstream (u_Id up)) (UpstreamConn up False) (recvConnections st)\<rparr>"

definition form_id :: "http_request \<Rightarrow> string" where
  "form_id r = (case rq_form r of Inl _ \<Rightarrow> [] | Inr f \<Rightarrow> map_index [] f ''id'')"

definition del_upstream_id :: "api_env \<Rightarrow> http_request \<Rightarrow> int option" where
  "del_upstream_id env r =
     (if form_id r \<noteq> [] then (case Atoi (form_id r) of Inl _ \<Rightarrow> None | Inr i \<Rightarrow> Some i)
      else jd_id (env_json env) (rq_body r))"

definition api_DelUpstream :: handler where
  "api_DelUpstream env r st =
     (case del_upstream_id env r of
        None \<Rightarrow> (statusOnly 400, st)
      | Some uid \<Rightarrow>
          if uid = 0 then (statusOnly 400, st)
          else tryDB (DelUpstream uid) (\<lambda>stationIds st.
            let st1 = fold (\<lambda>sid. publish_config kMsgDelUpstreamStation (BStationId sid)) stationIds st;
                st2 = close_conn (KUpstream uid) st1
            in ok_reply (st2\<lparr>recvConnections := AList.delete (KUpstream uid) (recvConnections st2)\<rparr>)) st)"

section \<open>Stations, devices, data (\<open>station.go\<close>, \<open>log.go\<close>)\<close>

definition ListStation :: handler where
  "ListStation env r = tryDB GetStations (\<lambda>ss st. (writeJSON 200 (JStations ss), st))"

definition api_EditStation :: handler where
  "api_EditStation env r = readJSON (jd_station (env_json env)) r (\<lambda>s.
     tryDB (EditStation (env_newUUID env) s) (\<lambda>s' st.
       ok_reply (if s_Upstream s' then st else publish_config kMsgSyncStation (BStation s') st)))"

definition DelStation :: handler where
  "DelStation env r st =
     (case rq_form r of
        Inl _ \<Rightarrow> (statusOnly 400, st)
      | Inr _ \<Rightarrow>
          (case uuid_Parse env (form_id r) of
             None \<Rightarrow> (statusOnly 400, st)
           | Some sid \<Rightarrow> tryDB (DelLocalStation (env_now env) sid) (\<lambda>n st.
               ok_reply (if 0 < n then publish_config kMsgDelUpstreamStation (BStationId sid) (close_conn (KStation sid) st)
                         else st)) st))"

definition ListDevice :: handler where
  "ListDevice env r =
     (let sid = (case uuid_Parse env (Query_Get r ''station_id'') of None \<Rightarrow> uuid_Nil | Some u \<Rightarrow> u) in
      tryDB (GetDevices sid) (\<lambda>ds st. (writeJSON 200 (JDevices ds), st)))"

text \<open>The guard of the editing handlers: only devices of a known local station may be edited.\<close>

definition if_local :: "uuid \<Rightarrow> (api_state \<Rightarrow> reply) \<Rightarrow> api_state \<Rightarrow> reply" where
  "if_local sid k = tryDB (IsUpstreamStation sid) (\<lambda>up st. if up then (silent, st) else k st)"

definition api_EditDevice :: handler where
  "api_EditDevice env r = readJSON (jd_device (env_json env)) r (\<lambda>d.
     if_local (d_StationId d) (tryDB (EditDevice d) (\<lambda>_ st. ok_reply (publish_config kMsgSyncDevice (BDevice d) st))))"

definition ListDeviceRecord :: handler where
  "ListDeviceRecord env r = tryDB GetDeviceRecords (\<lambda>drs st. (writeJSON 200 (JDeviceRecords drs), st))"

definition api_EditDeviceRecord :: handler where
  "api_EditDeviceRecord env r = readJSON (jd_record (env_json env)) r (\<lambda>dr.
     let edit = tryDB (EditDeviceRecord (env_newUUID env) (env_now env) dr) (\<lambda>dr' st.
                  ok_reply (publish_config kMsgEditDeviceRecord (BDeviceRecord dr') st))
     in if r_Id dr = uuid_Nil then if_local (r_StationId dr) edit else edit)"

definition ListItem :: handler where
  "ListItem env r st =
     (let raw = Query_Get r ''station_id'' in
      case (if raw = [] then Some uuid_Nil else uuid_Parse env raw) of
        None \<Rightarrow> (statusOnly 400, st)
      | Some sid \<Rightarrow> tryDB (GetItems sid) (\<lambda>is st. (writeJSON 200 (JItems is), st)) st)"

definition DataHistory :: handler where
  "DataHistory env r st =
     (let itemName = Query_Get r ''item_name'' in
      if itemName = [] then (statusOnly 400, st)
      else case uuid_Parse env (Query_Get r ''station_id'') of
        None \<Rightarrow> (statusOnly 400, st)
      | Some sid \<Rightarrow>
          let start = fst (ParseInt (Query_Get r ''start'')); stop = fst (ParseInt (Query_Get r ''end'')) in
          if requestRole r < AdminRole \<and> \<not> CheckPermission (requestUsername r) sid itemName (api_db st)
          then (statusOnly 401, st)
          else tryDB (GetDataHistory sid itemName start stop) (\<lambda>ds st. (writeJSON 200 (JHistory ds), st)) st)"

text \<open>
  \<^verbatim>\<open>PagedItemStatusLogs\<close>: the number of rows, and one page of the log from the newest entry. The offset is
  computed in uint64; the driver refuses an argument of 2^63 or more.
\<close>

definition err_high_bit :: go_error where
  "err_high_bit = ErrorString ''uint64 values with high bit set are not supported''"

definition page_offset :: "64 word \<Rightarrow> 64 word \<Rightarrow> 64 word" where
  "page_offset pageNum pageSize = (pageNum - 1) * pageSize"

definition newest_first :: "tide_db \<Rightarrow> (uuid \<times> string \<times> status \<times> unix_ms) list" where
  "newest_first db = map (\<lambda>(k, row). (fst k, sl_item_name row, sl_status row, sl_changed_at row))
     (sort_key (\<lambda>(_, row). - sl_changed_at row) (item_status_log db))"

definition PagedItemStatusLogs :: "64 word \<Rightarrow> 64 word \<Rightarrow> (int \<times> (uuid \<times> string \<times> status \<times> unix_ms) list) db_op" where
  "PagedItemStatusLogs pageNum pageSize =
     (let lim = unat pageSize; off = unat (page_offset pageNum pageSize) in
      readE (\<lambda>db. if 2 ^ 63 \<le> lim \<or> 2 ^ 63 \<le> off then Inl err_high_bit
                  else Inr (int (length (item_status_log db)), take lim (drop off (newest_first db)))))"

definition page_param :: "string \<Rightarrow> nat \<Rightarrow> nat \<Rightarrow> nat option" where
  "page_param raw dflt maxv =
     (if raw = [] then Some dflt
      else case ParseUint raw of Inl _ \<Rightarrow> None | Inr n \<Rightarrow> if n < 1 \<or> maxv < n then None else Some n)"

definition ListItemStatusLogs :: handler where
  "ListItemStatusLogs env r st =
     (case page_param (Query_Get r ''page_num'') 1 (2 ^ 64 - 1) of
        None \<Rightarrow> (statusOnly 400, st)
      | Some pageNum \<Rightarrow>
          (case page_param (Query_Get r ''page_size'') 20 100 of
             None \<Rightarrow> (statusOnly 400, st)
           | Some pageSize \<Rightarrow>
               (case on_db (PagedItemStatusLogs (of_nat pageNum) (of_nat pageSize)) st of
                  (Inl _, st') \<Rightarrow> (statusOnly 500, st')
                | (Inr (n, ds), st') \<Rightarrow> (writeJSON 200 (JStatusLogs n ds), st'))))"

section \<open>Cameras (\<open>camera.go\<close>)\<close>

definition CameraLiveSnapshot :: handler where
  "CameraLiveSnapshot env r st =
     (let name = Query_Get r ''name''; raw = Query_Get r ''station_id'' in
      if name = [] \<or> raw = [] then (statusOnly 400, st)
      else case uuid_Parse env raw of
        None \<Rightarrow> (statusOnly 400, st)
      | Some sid \<Rightarrow>
          (case env_v2_snapshot env sid name of
             Inr b \<Rightarrow> (writeJSON 200 (Jpeg b), st)
           | Inl e \<Rightarrow>
               if \<not> errors_is e ErrStationNotConnected then (statusOnly 400, st)
               else (case map_of (recvConnections st) (KStation sid) of
                 None \<Rightarrow> (silent, st)
               | Some _ \<Rightarrow>
                   (case env_v1_snapshot env sid name of
                      V1Rejected \<Rightarrow> (statusOnly 400, st) | V1Silent \<Rightarrow> (silent, st)
                    | V1Bytes b \<Rightarrow> (writeJSON 200 (Jpeg b), st)))))"

definition camera_response :: "camera_reply \<Rightarrow> http_response" where
  "camera_response c = (case c of NoReply \<Rightarrow> silent | ReplyError \<Rightarrow> statusOnly 500 | ReplyImgs imgs \<Rightarrow> writeJSON 200 (JImgs imgs))"

definition upstream_answers :: "api_env \<Rightarrow> api_state \<Rightarrow> upstream list \<Rightarrow> uuid \<Rightarrow> string \<Rightarrow> unix_ms \<Rightarrow> fetch_outcome list" where
  "upstream_answers env st ups sid name latest =
     map (\<lambda>up. case map_of (recvConnections st) (KUpstream (u_Id up)) of
            Some (UpstreamConn u _) \<Rightarrow> cam_fetch (env_camera env) u sid name latest
          | _ \<Rightarrow> NotConnected) ups"

definition CameraLatestSnapShot :: handler where
  "CameraLatestSnapShot env r st =
     (let name = Query_Get r ''name''; raw = Query_Get r ''station_id''; cam = env_camera env in
      if name = [] \<or> raw = [] then (statusOnly 400, st)
      else case uuid_Parse env raw of
        None \<Rightarrow> (statusOnly 400, st)
      | Some sid \<Rightarrow>
          let after = fst (ParseInt (Query_Get r ''after'')) in
          if requestRole r < AdminRole \<and> \<not> CheckCameraStatusPermission (requestUsername r) sid name (api_db st)
          then (statusOnly 401, st)
          else (case on_db (IsUpstreamStation sid) st of
            (Inl _, st') \<Rightarrow> (statusOnly 500, st')
          | (Inr False, st') \<Rightarrow> (camera_response (local_snapshots (cam_count cam) after (cam_tree cam sid name)), st')
          | (Inr True, st') \<Rightarrow>
              tryDB (GetUpstreamsByStationId sid) (\<lambda>ups st.
                case upstream_snapshots (cam_count cam) after (cam_writable cam) (cam_readable cam) (cam_dir cam sid name)
                       (upstream_answers env st ups sid name) of
                  (c, dir) \<Rightarrow> (camera_response c, st\<lparr>api_cache := (api_cache st)((sid, name) := dir)\<rparr>)) st'))"

section \<open>Middlewares and routes (\<open>router.go\<close>)\<close>

type_synonym middleware = "handler \<Rightarrow> handler"

definition chain :: "handler \<Rightarrow> middleware list \<Rightarrow> handler" where
  "chain h mws = foldr (\<lambda>mw h. mw h) mws h"

definition attachAuthenticatedUser :: "api_env \<Rightarrow> http_request \<Rightarrow> string \<Rightarrow> api_state \<Rightarrow> int + http_request" where
  "attachAuthenticatedUser env r username st =
     (if username = [] then Inl 401
      else case fst (um_GetUser (env_um env) username (api_db st)) of
        Inl _ \<Rightarrow> Inl 500 | Inr u \<Rightarrow> Inr (withRequestUser r username u))"

definition authenticateRequest :: "api_env \<Rightarrow> http_request \<Rightarrow> api_state \<Rightarrow> int + http_request" where
  "authenticateRequest env r st =
     (case um_GetLoginUser (env_um env) (env_now_s env) r of
        Inl _ \<Rightarrow> Inl 500 | Inr username \<Rightarrow> attachAuthenticatedUser env r username st)"

definition validateMiddleware :: middleware where
  "validateMiddleware next env r st =
     (case authenticateRequest env r st of Inl code \<Rightarrow> (statusOnly code, st) | Inr r' \<Rightarrow> next env r' st)"

definition validateAdminMiddleware :: middleware where
  "validateAdminMiddleware next env r st =
     (if requestRole r < AdminRole then (statusOnly 403, st) else next env r st)"

definition validateLiveSnapshotMiddleware :: middleware where
  "validateLiveSnapshotMiddleware next env r st =
     (if requestRole r = NormalUser \<and> \<not> requestLiveCamera r then (statusOnly 403, st) else next env r st)"

abbreviation authMW :: "middleware list" where "authMW \<equiv> [validateMiddleware]"
abbreviation adminMW :: "middleware list" where "adminMW \<equiv> [validateMiddleware, validateAdminMiddleware]"

definition routes :: "((string \<times> string) \<times> handler) list" where
  "routes =
     [((''POST'', ''/applyAccount''), chain ApplyAccount []),
      ((''POST'', ''/login''), chain Login []),
      ((''POST'', ''/logout''), chain Logout authMW),
      ((''GET'', ''/listUpstream''), chain ListUpstream adminMW),
      ((''POST'', ''/editUpstream''), chain api_EditUpstream adminMW),
      ((''POST'', ''/delUpstream''), chain api_DelUpstream adminMW),
      ((''GET'', ''/listUser''), chain ListUser adminMW),
      ((''GET'', ''/userInfo''), chain UserInfo authMW),
      ((''POST'', ''/editUser''), chain EditUser authMW),
      ((''POST'', ''/passApplication''), chain PassApplication adminMW),
      ((''POST'', ''/delUser''), chain DelUser adminMW),
      ((''GET'', ''/listPermission''), chain ListPermission authMW),
      ((''POST'', ''/editPermission''), chain api_EditPermission adminMW),
      ((''GET'', ''/listCameraStatusPermission''), chain ListCameraStatusPermission authMW),
      ((''POST'', ''/editCameraStatusPermission''), chain api_EditCameraStatusPermission adminMW),
      ((''GET'', ''/dataHistory''), chain DataHistory authMW),
      ((''GET'', ''/itemStatusLogs''), chain ListItemStatusLogs authMW),
      ((''GET'', ''/listStation''), chain ListStation authMW),
      ((''POST'', ''/editStation''), chain api_EditStation adminMW),
      ((''POST'', ''/delStation''), chain DelStation adminMW),
      ((''GET'', ''/listDevice''), chain ListDevice authMW),
      ((''POST'', ''/editDevice''), chain api_EditDevice adminMW),
      ((''GET'', ''/listDeviceRecord''), chain ListDeviceRecord authMW),
      ((''POST'', ''/editDeviceRecord''), chain api_EditDeviceRecord adminMW),
      ((''GET'', ''/listItem''), chain ListItem authMW),
      ((''GET'', ''/cameraSnapshot''), chain CameraLiveSnapshot [validateMiddleware, validateLiveSnapshotMiddleware]),
      ((''GET'', ''/cameraLatestSnapshot''), chain CameraLatestSnapShot authMW)]"

definition ServeHTTP :: "string \<Rightarrow> string \<Rightarrow> handler" where
  "ServeHTTP method path env r st =
     (case map_of routes (method, path) of
        Some h \<Rightarrow> h env r st
      | None \<Rightarrow> (statusOnly (if path \<in> (\<lambda>x. snd (fst x)) ` set routes then 405 else 404), st))"

end
