(* ===== verification/ApiLaws.thy ===== *)
theory ApiLaws
  imports Api
begin

text \<open>
  What the HTTP interface guarantees about accounts: no request creates, changes or removes a super
  administrator; a normal user changes nothing but the own e-mail address and password; and what an
  account that waits for approval can do. The lemmas are proved on the contract \<open>user_accounts\<close> of the
  user manager and carried over to the local one by its interpretation.
\<close>

named_theorems hpres "structural rules for predicates a handler keeps"

section \<open>Predicates on the tables that a handler keeps\<close>

definition keepsDB :: "(tide_db \<Rightarrow> bool) \<Rightarrow> (api_state \<Rightarrow> reply) \<Rightarrow> bool" where
  "keepsDB Q m \<longleftrightarrow> (\<forall>st. Q (api_db st) \<longrightarrow> Q (api_db (snd (m st))))"

lemma keepsDB_D: "keepsDB Q m \<Longrightarrow> Q (api_db st) \<Longrightarrow> Q (api_db (snd (m st)))"
  by (simp add: keepsDB_def)

lemma api_db_simps [simp]:
  "api_db (on_hub f st) = api_db st" "api_db (publish_config t b st) = api_db st"
  "api_db (update_permissions u p st) = api_db st" "api_db (SendMail env addrs body st) = api_db st"
  "api_db (mailDelUser env u a st) = api_db st" "api_db (close_conn k st) = api_db st"
  "api_db (snd (ok_reply st)) = api_db st"
  by (simp_all add: on_hub_def publish_config_def update_permissions_def SendMail_def mailDelUser_def close_conn_def ok_reply_def
    split: option.split recv_conn.split)

lemma api_db_fold_publish [simp]: "api_db (fold (\<lambda>x. publish_config t (b x)) xs st) = api_db st"
  by (induction xs arbitrary: st) simp_all

lemma keepsDB_pair [hpres]: "(\<And>st. api_db (f st) = api_db st) \<Longrightarrow> keepsDB Q (\<lambda>st. (resp st, f st))"
  by (simp add: keepsDB_def)

lemma keepsDB_same [hpres]: "keepsDB Q (Pair resp)"
  by (simp add: keepsDB_def)

lemma keepsDB_ok [hpres]: "keepsDB Q ok_reply"
  by (simp add: keepsDB_def)

lemma keepsDB_ok_after [hpres]: "(\<And>st. api_db (f st) = api_db st) \<Longrightarrow> keepsDB Q (\<lambda>st. ok_reply (f st))"
  by (simp add: keepsDB_def)

lemma keepsDB_after: "(\<And>st. api_db (f st) = api_db st) \<Longrightarrow> keepsDB Q m \<Longrightarrow> keepsDB Q (\<lambda>st. m (f st))"
  by (simp add: keepsDB_def)

lemma api_db_on_db: "api_db (snd (on_db m st)) = snd (m (api_db st))" "fst (on_db m st) = fst (m (api_db st))"
  by (simp_all add: on_db_def case_prod_unfold)

lemma snd_tryDB:
  "snd (tryDB m k st) = (case fst (m (api_db st)) of Inl _ \<Rightarrow> st\<lparr>api_db := snd (m (api_db st))\<rparr>
     | Inr a \<Rightarrow> snd (k a (st\<lparr>api_db := snd (m (api_db st))\<rparr>)))"
  by (simp add: tryDB_def on_db_def case_prod_unfold split: sum.split)

lemma keepsDB_tryDB [hpres]:
  assumes "preserves Q m" "\<And>a. keepsDB Q (k a)"
  shows "keepsDB Q (tryDB m k)"
  unfolding keepsDB_def snd_tryDB
  using preservesD [OF assms(1)] keepsDB_D [OF assms(2)] by (auto split: sum.split)

lemma keepsDB_readJSON [hpres]: "(\<And>a. keepsDB Q (k a)) \<Longrightarrow> keepsDB Q (readJSON dec r k)"
  by (auto simp: keepsDB_def readJSON_def split: option.split)

lemma keepsDB_if [hpres]: "keepsDB Q m \<Longrightarrow> keepsDB Q n \<Longrightarrow> keepsDB Q (\<lambda>st. if c then m st else n st)"
  by (simp add: keepsDB_def)

lemma keepsDB_if' [hpres]: "keepsDB Q m \<Longrightarrow> keepsDB Q n \<Longrightarrow> keepsDB Q (if c then m else n)"
  by simp

lemma keepsDB_state_if [hpres]: "keepsDB Q m \<Longrightarrow> keepsDB Q n \<Longrightarrow> keepsDB Q (\<lambda>st. if c st then m st else n st)"
  by (simp add: keepsDB_def)

lemma keepsDB_option [hpres]: "keepsDB Q m \<Longrightarrow> (\<And>a. keepsDB Q (f a)) \<Longrightarrow> keepsDB Q (\<lambda>st. case x of None \<Rightarrow> m st | Some a \<Rightarrow> f a st)"
  by (simp add: keepsDB_def split: option.split)

lemma keepsDB_sum [hpres]: "(\<And>e. keepsDB Q (g e)) \<Longrightarrow> (\<And>a. keepsDB Q (f a)) \<Longrightarrow> keepsDB Q (\<lambda>st. case x of Inl e \<Rightarrow> g e st | Inr a \<Rightarrow> f a st)"
  by (simp add: keepsDB_def split: sum.split)

lemma keepsDB_prod [hpres]: "(\<And>a b. keepsDB Q (f a b)) \<Longrightarrow> keepsDB Q (case x of (a, b) \<Rightarrow> f a b)"
  by (simp add: keepsDB_def split: prod.split)

section \<open>Statements that leave the account tables alone\<close>

definition acct :: "tide_db \<Rightarrow> (string, user_row) go_map \<times> permission_table \<times> permission_table" where
  "acct db = (users db, permissions_item_data db, permissions_camera_status db)"

lemma acct_auth_ok: "acct db' = acct db \<Longrightarrow> auth_ok db' = auth_ok db"
  by (simp add: acct_def auth_ok_def perms_ok_def)

lemma acct_roles: "acct db' = acct db \<Longrightarrow> roles db' = roles db"
  by (simp add: acct_def roles_def fun_eq_iff)

lemma acct_delete [simp]: "acct (delete_devices P db) = acct db" "acct (delete_stations R db) = acct db"
  by (simp_all add: acct_def delete_devices_def delete_stations_def)

lemma acct_station_ops:
  "acct (snd (EditStation u s db)) = acct db" "acct (snd (DelLocalStation now sid db)) = acct db"
  "acct (snd (EditDevice d db)) = acct db" "acct (snd (EditDeviceRecord u now dr db)) = acct db"
  "acct (snd (EditUpstream up db)) = acct db" "acct (snd (DelUpstream uid db)) = acct db"
proof -
  show "acct (snd (EditStation u s db)) = acct db"
    by (auto simp: EditStation_def create_station_def modify_station_def insert_station_def update_station_def txE_def bindE_def
      retE_def acct_def split: sum.split list.split option.split)
  show "acct (snd (DelLocalStation now sid db)) = acct db"
    by (simp add: DelLocalStation_def Let_def) (simp add: acct_def)
  show "acct (snd (EditDevice d db)) = acct db" "acct (snd (EditDeviceRecord u now dr db)) = acct db"
    by (auto simp: EditDevice_def EditDeviceRecord_def acct_def Let_def split: option.split sum.split)
  show "acct (snd (EditUpstream up db)) = acct db"
    by (simp add: EditUpstream_def Let_def acct_def)
  have "acct (delete_stations P (db\<lparr>upstream_stations := t\<rparr>)) = acct db" for P t
    by (simp add: acct_def delete_stations_def delete_devices_def)
  then show "acct (snd (DelUpstream uid db)) = acct db"
    by (simp add: DelUpstream_def Let_def acct_def)
qed

lemma preserves_acct:
  assumes "\<And>db. acct (snd (m db)) = acct db" "\<And>db db'. acct db' = acct db \<Longrightarrow> Q db \<Longrightarrow> Q db'"
  shows "preserves Q m"
  using assms by (auto simp: preserves_def)

section \<open>Super administrators\<close>

definition super_roles :: "role_view \<Rightarrow> role_view" where
  "super_roles \<rho> u = (case \<rho> u of Some r \<Rightarrow> if SuperAdmin \<le> r then Some r else None | None \<Rightarrow> None)"

definition supers_are :: "role_view \<Rightarrow> tide_db \<Rightarrow> bool" where
  "supers_are S db \<longleftrightarrow> auth_ok db \<and> super_roles (roles db) = S"

lemma supers_acct: "acct db' = acct db \<Longrightarrow> supers_are S db \<Longrightarrow> supers_are S db'"
  using acct_auth_ok [of db' db] acct_roles [of db' db] by (simp add: supers_are_def)

lemma super_roles_upd:
  "r < SuperAdmin \<Longrightarrow> super_roles \<rho> u = None \<Longrightarrow> super_roles (\<rho>(u \<mapsto> r)) = super_roles \<rho>"
  "super_roles \<rho> u = None \<Longrightarrow> super_roles (\<rho>(u := None)) = super_roles \<rho>"
  by (auto simp: super_roles_def fun_eq_iff)

lemma super_roles_None: "roles db u = None \<Longrightarrow> super_roles (roles db) u = None"
  by (simp add: super_roles_def)

lemma supers_permissions [hpres]:
  "preserves (supers_are S) (EditPermission u sc)" "preserves (supers_are S) (EditCameraStatusPermission u sc)"
proof -
  have "users (snd (EditPermission u sc db)) = users db" "users (snd (EditCameraStatusPermission u sc db)) = users db" for db
    by (simp_all add: EditPermission_def EditCameraStatusPermission_def split: sum.split)
  then have r: "roles (snd (EditPermission u sc db)) = roles db" "roles (snd (EditCameraStatusPermission u sc db)) = roles db" for db
    by (simp_all add: roles_def fun_eq_iff)
  show "preserves (supers_are S) (EditPermission u sc)" "preserves (supers_are S) (EditCameraStatusPermission u sc)"
    using preservesD [OF auth_ok_EditPermission] preservesD [OF auth_ok_EditCamera] r
    by (auto simp: preserves_def supers_are_def)
qed

lemmas supers_station_ops [hpres] = acct_station_ops [THEN preserves_acct, OF supers_acct]

lemmas query_defs = GetItems_def GetPermissions_def GetCameraStatusPermissions_def GetStations_def GetUpstreams_def GetDevices_def
  GetDeviceRecords_def IsUpstreamStation_def GetUpstreamsByStationId_def

lemma preserves_queries [hpres]:
  "preserves Q (GetItems sid)" "preserves Q (GetPermissions u)" "preserves Q (GetCameraStatusPermissions u)"
  "preserves Q GetStations" "preserves Q GetUpstreams" "preserves Q (GetDevices sid)" "preserves Q GetDeviceRecords"
  "preserves Q (IsUpstreamStation sid)" "preserves Q (GetUpstreamsByStationId sid)"
  by (simp_all add: query_defs preserves_read)

text \<open>A handler that changes no table.\<close>

definition reads :: "api_env \<Rightarrow> handler \<Rightarrow> bool" where
  "reads env h \<longleftrightarrow> (\<forall>Q r. keepsDB Q (h env r))"

lemma keepsDB_middlewares [hpres]:
  "(\<And>r. keepsDB Q (h env r)) \<Longrightarrow> keepsDB Q (validateMiddleware h env r)"
  "(\<And>r. keepsDB Q (h env r)) \<Longrightarrow> keepsDB Q (validateAdminMiddleware h env r)"
  "(\<And>r. keepsDB Q (h env r)) \<Longrightarrow> keepsDB Q (validateLiveSnapshotMiddleware h env r)"
  by (auto simp: keepsDB_def validateMiddleware_def validateAdminMiddleware_def validateLiveSnapshotMiddleware_def split: sum.split)

lemma keepsDB_ServeHTTP:
  "(\<And>k h. (k, h) \<in> set routes \<Longrightarrow> keepsDB Q (h env r)) \<Longrightarrow> keepsDB Q (ServeHTTP method path env r)"
  by (auto simp: keepsDB_def ServeHTTP_def split: option.split dest: map_of_SomeD)

text \<open>A sequence of requests, each with its own environment.\<close>

fun serve_all :: "(api_env \<times> string \<times> string \<times> http_request) list \<Rightarrow> api_state \<Rightarrow> api_state" where
  "serve_all [] st = st"
| "serve_all ((env, method, path, r) # rest) st = serve_all rest (snd (ServeHTTP method path env r st))"

text \<open>The tables after a request that is anonymous or comes from the normal user \<open>u\<close>.\<close>

definition confined :: "string \<Rightarrow> tide_db \<Rightarrow> tide_db \<Rightarrow> bool" where
  "confined u db db' \<longleftrightarrow> (\<exists>us. db' = db\<lparr>users := us\<rparr>) \<and>
     (\<forall>v row. v \<noteq> u \<and> map_of (users db) v = Some row \<longrightarrow> map_of (users db') v = Some row) \<and>
     (\<forall>v. roles db v \<noteq> None \<longrightarrow> roles db' v = roles db v) \<and>
     (\<forall>v. roles db v = None \<longrightarrow> roles db' v = None \<or> roles db' v = Some DisabledUser)"

text \<open>Who sends the request: nobody, or the normal user \<open>u\<close>.\<close>

definition normal_or_anonymous :: "api_env \<Rightarrow> http_request \<Rightarrow> api_state \<Rightarrow> string \<Rightarrow> bool" where
  "normal_or_anonymous env r st u \<longleftrightarrow>
     (case authenticateRequest env r st of Inl _ \<Rightarrow> True | Inr r' \<Rightarrow> requestRole r' = NormalUser \<and> requestUsername r' = u)"

definition confines :: "api_env \<Rightarrow> string \<Rightarrow> handler \<Rightarrow> bool" where
  "confines env u h \<longleftrightarrow> (\<forall>r st. normal_or_anonymous env r st u \<longrightarrow> confined u (api_db st) (api_db (snd (h env r st))))"

context account_store
begin

lemma get_result: "um_GetUser um u db = (Inr x, db') \<Longrightarrow> db' = db \<and> roles db u = Some (ua_Role x) \<and> ub_Username x = u"
  unfolding get by (auto simp: roles_def user_of_row_def split: option.splits)

lemma get_frame: "snd (um_GetUser um u db) = db"
  unfolding get by (simp split: option.split)

lemma supers_get [hpres]: "preserves Q (um_GetUser um u)"
  by (simp add: preserves_def get_frame)

lemma supers_list [hpres]: "preserves Q (um_ListUsers um c r)"
  by (simp add: preserves_def list_frame)

text \<open>A step on an account whose role was just read.\<close>

lemma keepsDB_get:
  assumes "\<And>u st. Q (api_db st) \<Longrightarrow> roles (api_db st) name = Some (ua_Role u) \<Longrightarrow> ub_Username u = name \<Longrightarrow>
             Q (api_db (snd (k u st)))"
  shows "keepsDB Q (tryDB (um_GetUser um name) k)"
  unfolding keepsDB_def snd_tryDB
proof (intro allI impI)
  fix st :: api_state
  assume q: "Q (api_db st)"
  show "Q (api_db (case fst (um_GetUser um name (api_db st)) of
      Inl e \<Rightarrow> st\<lparr>api_db := snd (um_GetUser um name (api_db st))\<rparr>
    | Inr a \<Rightarrow> snd (k a (st\<lparr>api_db := snd (um_GetUser um name (api_db st))\<rparr>))))"
    using q assms get_result [of name "api_db st"] get_frame [of name "api_db st"]
    by (cases "um_GetUser um name (api_db st)") (auto split: sum.split)
qed

lemma step_tryDB:
  assumes "Q (snd (m (api_db st)))" "\<And>a. keepsDB Q (k a)"
  shows "Q (api_db (snd (tryDB m k st)))"
  unfolding snd_tryDB using assms keepsDB_D [OF assms(2)] by (auto split: sum.split)

lemma edit_other_user_cases:
  assumes "env_um env = um" "\<not> SuperAdmin \<le> ua_Role u"
  shows "edit_other_user env u st =
     (case fst (um_GetUser um (ub_Username u) (api_db st)) of
        Inr pre \<Rightarrow> if SuperAdmin \<le> ua_Role pre then (silent, st)
                   else tryDB (um_EditUser um u) (\<lambda>_. after_edit_user pre u) st
      | Inl e \<Rightarrow> if errors_is e ErrUserNotFound then tryDB (um_AddUser um u) (\<lambda>_. ok_reply) st else (silent, st))"
  using assms get_frame [of "ub_Username u" "api_db st"]
  by (cases "um_GetUser um (ub_Username u) (api_db st)") (simp add: edit_other_user_def on_db_def split: sum.split)

lemma supers_mail_admins: "env_um env = um \<Longrightarrow> api_db (mail_admins env st) = api_db st"
  using list_frame [of 1 AdminRole "api_db st"]
  by (cases "um_ListUsers um 1 AdminRole (api_db st)") (simp add: mail_admins_def on_db_def split: sum.split)

lemma reading_handlers:
  assumes "env_um env = um"
  shows "keepsDB Q (Login env r)" "keepsDB Q (Logout env r)" "keepsDB Q (ListUpstream env r)" "keepsDB Q (ListUser env r)"
    "keepsDB Q (UserInfo env r)" "keepsDB Q (ListPermission env r)" "keepsDB Q (ListCameraStatusPermission env r)"
    "keepsDB Q (DataHistory env r)" "keepsDB Q (ListItemStatusLogs env r)" "keepsDB Q (ListStation env r)"
    "keepsDB Q (ListDevice env r)" "keepsDB Q (ListDeviceRecord env r)" "keepsDB Q (ListItem env r)"
    "keepsDB Q (CameraLiveSnapshot env r)" "keepsDB Q (CameraLatestSnapShot env r)"
proof -
  show "keepsDB Q (Login env r)" "keepsDB Q (Logout env r)"
    by (simp_all add: keepsDB_def Login_def Logout_def split: sum.split)
  show "keepsDB Q (ListUpstream env r)" "keepsDB Q (UserInfo env r)" "keepsDB Q (ListStation env r)"
    "keepsDB Q (ListDeviceRecord env r)" "keepsDB Q (ListDevice env r)"
    by (simp_all add: keepsDB_def ListUpstream_def UserInfo_def ListStation_def ListDeviceRecord_def ListDevice_def Let_def
      snd_tryDB query_defs readE_def split: option.split prod.split)
  show "keepsDB Q (ListUser env r)"
    unfolding ListUser_def assms by (simp add: Let_def split: if_split) (intro conjI impI hpres; simp)
  show "keepsDB Q (ListPermission env r)" "keepsDB Q (ListCameraStatusPermission env r)"
    by (simp_all add: keepsDB_def ListPermission_def ListCameraStatusPermission_def snd_tryDB query_defs readE_def split: option.split)
  show "keepsDB Q (DataHistory env r)"
    unfolding DataHistory_def Let_def by (intro hpres pres preserves_GetDataHistory; simp)
  show "keepsDB Q (ListItem env r)" "keepsDB Q (CameraLiveSnapshot env r)"
    by (simp_all add: keepsDB_def ListItem_def CameraLiveSnapshot_def Let_def snd_tryDB GetItems_def readE_def
      split: option.split sum.split v1_snapshot.split)
  show "keepsDB Q (ListItemStatusLogs env r)"
    by (simp add: keepsDB_def ListItemStatusLogs_def PagedItemStatusLogs_def on_db_def readE_def Let_def
      split: option.split sum.split prod.split)
  show "keepsDB Q (CameraLatestSnapShot env r)"
    by (simp add: keepsDB_def CameraLatestSnapShot_def on_db_def IsUpstreamStation_def GetUpstreamsByStationId_def readE_def Let_def
      snd_tryDB split: option.split sum.split prod.split bool.split)
qed

end

context user_accounts
begin

lemma supers_base [hpres]: "preserves (supers_are S) (um_EditUserBaseInfo um b)"
  using preservesD [OF ok(3)] by (simp add: preserves_def supers_are_def base_roles)

lemma supers_add: "ua_Role x < SuperAdmin \<Longrightarrow> preserves (supers_are S) (um_AddUser um x)"
proof (rule preservesI)
  fix db
  assume "ua_Role x < SuperAdmin" "supers_are S db"
  then show "supers_are S (snd (um_AddUser um x db))"
    using add_roles [of x db] preservesD [OF ok(1), of db x] super_roles_None [of db]
    by (auto simp: supers_are_def super_roles_upd)
qed

lemma supers_edit:
  assumes "supers_are S db" "ua_Role x < SuperAdmin" "super_roles (roles db) (ub_Username x) = None"
  shows "supers_are S (snd (um_EditUser um x db))"
  using assms edit_roles [of db x] preservesD [OF ok(2), of db x] by (auto simp: supers_are_def super_roles_upd)

lemma supers_del:
  assumes "supers_are S db" "super_roles (roles db) u = None"
  shows "supers_are S (snd (um_DelUser um u db))"
  using assms del_roles [of db u] preservesD [OF ok(4), of db u] by (auto simp: supers_are_def super_roles_upd)

lemma supers_after_edit: "keepsDB (supers_are S) (after_edit_user pre u)"
  unfolding after_edit_user_def by (intro hpres) simp_all

lemma supers_edit_other: "env_um env = um \<Longrightarrow> keepsDB (supers_are S) (edit_other_user env u)"
  unfolding keepsDB_def
proof (intro allI impI)
  fix st :: api_state
  assume env: "env_um env = um" and S: "supers_are S (api_db st)"
  show "supers_are S (api_db (snd (edit_other_user env u st)))"
  proof (cases "SuperAdmin \<le> ua_Role u")
    case False
    have add: "supers_are S (api_db (snd (tryDB (um_AddUser um u) (\<lambda>_. ok_reply) st)))"
      using False by (intro step_tryDB [where Q = "supers_are S"] preservesD [OF supers_add S] keepsDB_ok) simp
    have edit: "supers_are S (api_db (snd (tryDB (um_EditUser um u) (\<lambda>_. after_edit_user pre u) st)))"
      if "\<not> SuperAdmin \<le> ua_Role pre" "roles (api_db st) (ub_Username u) = Some (ua_Role pre)" for pre
      using that False
      by (intro step_tryDB [where Q = "supers_are S"] supers_edit [OF S] supers_after_edit) (simp_all add: super_roles_def)
    show ?thesis
    proof (cases "fst (um_GetUser um (ub_Username u) (api_db st))")
      case (Inl e)
      then show ?thesis using add S by (simp add: edit_other_user_cases [OF env False])
    next
      case (Inr pre)
      with get_result [of "ub_Username u" "api_db st" pre] have "roles (api_db st) (ub_Username u) = Some (ua_Role pre)"
        by (cases "um_GetUser um (ub_Username u) (api_db st)") auto
      then show ?thesis using Inr edit [of pre] S by (simp add: edit_other_user_cases [OF env False])
    qed
  qed (use S in \<open>simp add: edit_other_user_def\<close>)
qed

lemma supers_EditUser: "env_um env = um \<Longrightarrow> keepsDB (supers_are S) (EditUser env r)"
  unfolding EditUser_def Let_def by (simp, intro conjI impI hpres supers_edit_other) (simp_all add: supers_base)

lemma supers_del_users: "env_um env = um \<Longrightarrow> keepsDB (supers_are S) (del_users env us)"
proof (induction us)
  case (Cons u us)
  then have rest: "keepsDB (supers_are S) (del_users env us)" by simp
  have "supers_are S (api_db (snd (tryDB (um_DelUser um u) (\<lambda>_ st.
      del_users env us (mailDelUser env n a (on_hub (DisconnectUser u connTypeAny) st))) st)))"
    if "supers_are S (api_db st)" "roles (api_db st) u = Some (ua_Role x)" "ua_Role x \<le> AdminRole" for st and x :: user and n a
  proof (rule step_tryDB [where Q = "supers_are S"])
    show "supers_are S (snd (um_DelUser um u (api_db st)))"
      using that by (intro supers_del) (simp_all add: super_roles_def role_defs)
  qed (rule keepsDB_after [OF _ rest], simp)
  with rest show ?case
    unfolding del_users.simps Cons.prems by (intro keepsDB_get) (simp add: keepsDB_D)
qed (simp add: hpres)

lemma supers_pass_users: "env_um env = um \<Longrightarrow> keepsDB (supers_are S) (pass_users env us)"
proof (induction us)
  case (Cons u us)
  then have rest: "keepsDB (supers_are S) (pass_users env us)" by simp
  have "supers_are S (api_db (snd (tryDB (um_EditUser um (x\<lparr>ua_Role := NormalUser\<rparr>)) (\<lambda>_ st.
      pass_users env us (SendMail env a b st)) st)))"
    if "supers_are S (api_db st)" "roles (api_db st) (ub_Username x) = Some DisabledUser" for st and x :: user and a b
  proof (rule step_tryDB [where Q = "supers_are S"])
    show "supers_are S (snd (um_EditUser um (x\<lparr>ua_Role := NormalUser\<rparr>) (api_db st)))"
      using that by (intro supers_edit) (simp_all add: super_roles_def role_defs)
  qed (rule keepsDB_after [OF _ rest], simp)
  with rest show ?case
    unfolding pass_users.simps Cons.prems by (intro keepsDB_get) (simp add: keepsDB_D)
qed (simp add: hpres)

lemma supers_ApplyAccount: "env_um env = um \<Longrightarrow> keepsDB (supers_are S) (ApplyAccount env r)"
  unfolding ApplyAccount_def
  by (intro hpres) (simp_all add: supers_add applied_user_def role_defs supers_mail_admins)

lemma supers_edit_handlers:
  assumes "env_um env = um"
  shows "keepsDB (supers_are S) (DelUser env r)" "keepsDB (supers_are S) (PassApplication env r)"
    "keepsDB (supers_are S) (api_EditPermission env r)" "keepsDB (supers_are S) (api_EditCameraStatusPermission env r)"
    "keepsDB (supers_are S) (api_EditUpstream env r)" "keepsDB (supers_are S) (api_DelUpstream env r)"
    "keepsDB (supers_are S) (api_EditStation env r)" "keepsDB (supers_are S) (DelStation env r)"
    "keepsDB (supers_are S) (api_EditDevice env r)" "keepsDB (supers_are S) (api_EditDeviceRecord env r)"
proof -
  show "keepsDB (supers_are S) (DelUser env r)" "keepsDB (supers_are S) (PassApplication env r)"
    unfolding DelUser_def PassApplication_def by (intro hpres supers_del_users supers_pass_users assms)+
  show "keepsDB (supers_are S) (api_EditPermission env r)" "keepsDB (supers_are S) (api_EditCameraStatusPermission env r)"
    unfolding api_EditPermission_def api_EditCameraStatusPermission_def by (intro hpres; simp add: assms supers_get)+
  show "keepsDB (supers_are S) (api_EditUpstream env r)"
    unfolding api_EditUpstream_def Let_def by (intro hpres) simp_all
  show "keepsDB (supers_are S) (api_DelUpstream env r)"
    unfolding api_DelUpstream_def Let_def by (intro hpres) simp_all
  show "keepsDB (supers_are S) (api_EditStation env r)"
    unfolding api_EditStation_def by (intro hpres) simp_all
  show "keepsDB (supers_are S) (DelStation env r)"
    unfolding DelStation_def by (intro hpres) simp_all
  show "keepsDB (supers_are S) (api_EditDevice env r)"
    unfolding api_EditDevice_def if_local_def by (intro hpres) simp_all
  show "keepsDB (supers_are S) (api_EditDeviceRecord env r)"
    unfolding api_EditDeviceRecord_def if_local_def Let_def by (intro hpres) simp_all
qed

lemma supers_routes:
  assumes "env_um env = um" "(k, h) \<in> set routes"
  shows "keepsDB (supers_are S) (h env r)"
proof -
  note handlers = supers_ApplyAccount [OF assms(1)] supers_EditUser [OF assms(1)] supers_edit_handlers [OF assms(1)]
    reading_handlers [OF assms(1), where Q = "supers_are S"]
  have "list_all (\<lambda>(k, h). \<forall>r. keepsDB (supers_are S) (h env r)) routes"
    unfolding routes_def chain_def list.pred_inject foldr.simps comp_def id_def prod.case
    by (intro conjI allI keepsDB_middlewares handlers) simp
  with assms(2) show ?thesis by (auto simp: list_all_iff)
qed

lemma supers_serve_all:
  "\<forall>x \<in> set reqs. env_um (fst x) = um \<Longrightarrow> supers_are S (api_db st) \<Longrightarrow> supers_are S (api_db (serve_all reqs st))"
proof (induction reqs st rule: serve_all.induct)
  case (2 env verb url r rest st)
  then have "keepsDB (supers_are S) (ServeHTTP verb url env r)"
    by (intro keepsDB_ServeHTTP supers_routes) simp_all
  with 2 show ?case by (simp add: keepsDB_D)
qed simp

lemma confined_refl: "confined u db db"
  unfolding confined_def by (intro conjI exI [of _ "users db"]) simp_all

lemma confined_base: "confined u db (snd (um_EditUserBaseInfo um b db))" if "ub_Username b = u"
  unfolding confined_def base_roles using base_tables [of b db] base_others [of _ b db] that by auto

lemma confined_apply: "confined u db (snd (um_AddUser um (applied_user b) db))"
proof -
  have role: "ua_Role (applied_user b) = DisabledUser" by (simp add: applied_user_def)
  show ?thesis
    unfolding confined_def using add_tables [of "applied_user b" db] add_rows [of db _ _ "applied_user b"]
      add_roles [of "applied_user b" db] role by auto
qed

lemma confines_admin: "confines env u (chain h adminMW)"
  unfolding confines_def chain_def normal_or_anonymous_def
  by (auto simp: validateMiddleware_def validateAdminMiddleware_def role_defs confined_refl split: sum.split)

lemma reading_handlers_reads:
  assumes "env_um env = um"
  shows "reads env Login" "reads env Logout" "reads env ListUpstream" "reads env ListUser" "reads env UserInfo"
    "reads env ListPermission" "reads env ListCameraStatusPermission" "reads env DataHistory" "reads env ListItemStatusLogs"
    "reads env ListStation" "reads env ListDevice" "reads env ListDeviceRecord" "reads env ListItem"
    "reads env CameraLiveSnapshot" "reads env CameraLatestSnapShot"
  by (simp_all add: reads_def reading_handlers [OF assms])

lemma confines_auth:
  assumes "reads env h"
  shows "confines env u (chain h [validateMiddleware])" "confines env u (chain h [])"
    "confines env u (chain h [validateMiddleware, validateLiveSnapshotMiddleware])"
proof -
  have "api_db (snd (h env r st)) = api_db st" for r st
    using assms keepsDB_D [of "\<lambda>db. db = api_db st" "h env r" st] by (simp add: reads_def)
  then show "confines env u (chain h [validateMiddleware])" "confines env u (chain h [])"
    "confines env u (chain h [validateMiddleware, validateLiveSnapshotMiddleware])"
    by (simp_all add: confines_def chain_def validateMiddleware_def validateLiveSnapshotMiddleware_def confined_refl split: sum.split)
qed

lemma confines_EditUser: "env_um env = um \<Longrightarrow> confines env u (chain EditUser authMW)"
  unfolding confines_def chain_def normal_or_anonymous_def
  by (auto simp: validateMiddleware_def EditUser_def readJSON_def snd_tryDB confined_refl confined_base split: sum.split option.split)

lemma confines_ApplyAccount: "env_um env = um \<Longrightarrow> confines env u (chain ApplyAccount [])"
  unfolding confines_def chain_def
  by (auto simp: ApplyAccount_def readJSON_def snd_tryDB confined_refl confined_apply supers_mail_admins split: sum.split option.split)

lemma confines_routes:
  assumes "env_um env = um" "(k, h) \<in> set routes"
  shows "confines env u h"
proof -
  note handlers = confines_admin confines_EditUser [OF assms(1)] confines_ApplyAccount [OF assms(1)]
    reading_handlers_reads [OF assms(1), THEN confines_auth(1)] reading_handlers_reads [OF assms(1), THEN confines_auth(2)]
    reading_handlers_reads [OF assms(1), THEN confines_auth(3)]
  have "list_all (\<lambda>(k, h). confines env u h) routes"
    unfolding routes_def list.pred_inject prod.case by (intro conjI handlers) simp
  with assms(2) show ?thesis by (auto simp: list_all_iff)
qed

end

text \<open>
  C7: with the local user manager no sequence of requests to the routes of the table creates, changes or removes a super administrator. Whatever
  the requests are and whoever sends them, the accounts with a super administrator's role are the
  same afterwards, each with the same role, and the account tables stay consistent. (The Keycloak manager removes the row of any user, a
  super administrator included, whom the realm does not know.)
\<close>

theorem super_admins_fixed:
  assumes "auth_ok (api_db st)" "\<forall>x \<in> set reqs. env_um (fst x) = JwtManager lib jl j"
    and "\<forall>(env, method, path, r) \<in> set reqs. (method, path) \<in> fst ` set routes"
  shows "super_roles (roles (api_db (serve_all reqs st))) = super_roles (roles (api_db st)) \<and> auth_ok (api_db (serve_all reqs st))"
  using jwt_accounts.supers_serve_all [OF assms(2), where S = "super_roles (roles (api_db st))" and st = st] assms(1)
  by (simp add: supers_are_def)

text \<open>
  C6: with the local user manager a normal user is confined to the own account on every route of the table (the session routes \<^verbatim>\<open>/sync\<close>,
  \<^verbatim>\<open>/sync_v2/station\<close>, \<^verbatim>\<open>/sync_v2/relay\<close> and the websocket, sea-level and profiling routes are not in it). A request that carries no valid login,
  or the login of the normal user \<open>u\<close>, changes no table but \<open>users\<close>; there it changes no other account's row and no
  account's role, and the only rows it can add are accounts that wait for approval.
\<close>

theorem normal_user_confined:
  assumes "env_um env = JwtManager lib jl j" "normal_or_anonymous env r st u" "(method, path) \<in> fst ` set routes"
  shows "confined u (api_db st) (api_db (snd (ServeHTTP method path env r st)))"
proof -
  obtain h where h: "map_of routes (method, path) = Some h"
    using assms(3) map_of_eq_None_iff [of routes "(method, path)"] by blast
  then have "confines env u h"
    using jwt_accounts.confines_routes [OF assms(1)] by (blast dest: map_of_SomeD)
  with h assms(2) show ?thesis by (simp add: ServeHTTP_def confines_def)
qed

section \<open>Login\<close>

lemma route_simps:
  "map_of routes (''POST'', ''/login'') = Some Login"
  "map_of routes (''POST'', ''/applyAccount'') = Some ApplyAccount"
  "map_of routes (''POST'', ''/editUser'') = Some (validateMiddleware EditUser)"
  by (simp_all add: routes_def chain_def)

text \<open>
  What the code relies on of the JWT library: a signed token is not empty and parses, before it
  expires, to the claims it was signed with, for a key function that gives its key to HMAC tokens.
\<close>

definition jwt_accepts :: "jwt_lib \<Rightarrow> byte list \<Rightarrow> jwt_claims \<Rightarrow> bool" where
  "jwt_accepts jl key c \<longleftrightarrow> (\<exists>tok. SignedString jl key c = Inr tok \<and> tok \<noteq> [] \<and>
     (\<forall>now kf. kf True = Inr key \<and> now < jc_ExpiresAt c \<longrightarrow> ParseWithClaims jl now kf tok = Inr (c, True)))"

lemma token_of_bearer: "rq_authorization r = BearerPrefix @ tok \<Longrightarrow> token_of_request r = tok"
  by (simp add: token_of_request_def)

lemma login_token:
  assumes "jwt_accepts jl (signingKey j) (login_claims j t0 username)" "CheckUserPwd lib username password db"
    and "PostFormValue lr ''username'' = username" "PostFormValue lr ''password'' = password"
  shows "\<exists>tok. jwt_Login lib jl j t0 lr db = Inr tok \<and>
    (\<forall>r t. rq_authorization r = BearerPrefix @ tok \<longrightarrow> t < t0 + expire j \<longrightarrow> jwt_GetLoginUser jl j t r = Inr username)"
proof -
  obtain tok where tok: "SignedString jl (signingKey j) (login_claims j t0 username) = Inr tok" "tok \<noteq> []"
    and parse: "\<And>now kf. kf True = Inr (signingKey j) \<Longrightarrow> now < jc_ExpiresAt (login_claims j t0 username) \<Longrightarrow>
      ParseWithClaims jl now kf tok = Inr (login_claims j t0 username, True)"
    using assms(1) by (auto simp: jwt_accepts_def)
  have "jwt_Login lib jl j t0 lr db = Inr tok"
    using assms tok by (simp add: jwt_Login_def Let_def)
  moreover have "jwt_GetLoginUser jl j t r = Inr username"
    if "rq_authorization r = BearerPrefix @ tok" "t < t0 + expire j" for r t
    using that tok parse [of "hmac_key j" t]
    by (simp add: jwt_GetLoginUser_def Let_def token_of_bearer hmac_key_def login_claims_def)
  ultimately show ?thesis by auto
qed

lemma login_session_lemma:
  assumes "env_um env0 = JwtManager lib jl j" "jwt_accepts jl (signingKey j) (login_claims j (env_now_s env0) username)"
    and "CheckUserPwd lib username password (api_db st0)"
    and "PostFormValue lr ''username'' = username" "PostFormValue lr ''password'' = password"
  shows "\<exists>tok. ServeHTTP ''POST'' ''/login'' env0 lr st0 = (writeJSON 200 (JToken tok), st0) \<and>
     (\<forall>env r st. env_um env = JwtManager lib jl j \<and> rq_authorization r = BearerPrefix @ tok \<and>
        env_now_s env < env_now_s env0 + expire j \<longrightarrow>
        authenticateRequest env r st =
          (case map_of (users (api_db st)) username of
             None \<Rightarrow> Inl 500 | Some row \<Rightarrow> Inr (withRequestUser r username (user_of_row username row))))"
proof -
  obtain tok where tok: "jwt_Login lib jl j (env_now_s env0) lr (api_db st0) = Inr tok"
    "\<forall>r t. rq_authorization r = BearerPrefix @ tok \<longrightarrow> t < env_now_s env0 + expire j \<longrightarrow> jwt_GetLoginUser jl j t r = Inr username"
    using login_token [OF assms(2-5)] by auto
  have "username \<noteq> []" using assms(3) by (auto simp: CheckUserPwd_def)
  show ?thesis
  proof (intro exI [of _ tok] conjI allI impI)
    show "ServeHTTP ''POST'' ''/login'' env0 lr st0 = (writeJSON 200 (JToken tok), st0)"
      using tok(1) assms(1) by (simp add: ServeHTTP_def route_simps Login_def JwtManager_def)
    fix env :: api_env and r :: http_request and st :: api_state
    assume "env_um env = JwtManager lib jl j \<and> rq_authorization r = BearerPrefix @ tok \<and> env_now_s env < env_now_s env0 + expire j"
    then show "authenticateRequest env r st =
        (case map_of (users (api_db st)) username of
           None \<Rightarrow> Inl 500 | Some row \<Rightarrow> Inr (withRequestUser r username (user_of_row username row)))"
      using tok(2) \<open>username \<noteq> []\<close>
      by (simp add: authenticateRequest_def attachAuthenticatedUser_def JwtManager_def getUserFromDB_def readE_def split: option.split)
  qed
qed

text \<open>
  A login grants exactly what the account has at the time of each request. The login succeeds with
  a token when the password matches the stored hash; until the token expires, a request that carries
  it is authenticated as that user with the role, e-mail address and camera flag the account has then,
  and it is refused once the account is gone.
\<close>

theorem login_session:
  assumes "env_um env0 = JwtManager lib jl j" "jwt_accepts jl (signingKey j) (login_claims j (env_now_s env0) username)"
    and "CheckUserPwd lib username password (api_db st0)"
    and "PostFormValue lr ''username'' = username" "PostFormValue lr ''password'' = password"
  shows "\<exists>tok. ServeHTTP ''POST'' ''/login'' env0 lr st0 = (writeJSON 200 (JToken tok), st0) \<and>
     (\<forall>env r st. env_um env = JwtManager lib jl j \<and> rq_authorization r = BearerPrefix @ tok \<and>
        env_now_s env < env_now_s env0 + expire j \<longrightarrow>
        authenticateRequest env r st =
          (case map_of (users (api_db st)) username of
             None \<Rightarrow> Inl 500 | Some row \<Rightarrow> Inr (withRequestUser r username (user_of_row username row))))"
  by (rule login_session_lemma [OF assms])

section \<open>Accounts that wait for approval\<close>

definition applied_row :: "string \<Rightarrow> user_base_info \<Rightarrow> user_row" where
  "applied_row h b = \<lparr>ur_password_hash = h, ur_role = DisabledUser, ur_email = ToLower (ub_Email b), ur_live_camera = False\<rparr>"

lemma apply_account_stores:
  assumes "env_um env = JwtManager lib jl j" "jd_base (env_json env) (rq_body r) = Some b"
    and "ub_Username b \<noteq> []" "ub_Password b \<noteq> []" "ToLower (ub_Username b) = ub_Username b"
    and "CreateHash lib (ub_Password b) = Inr h" "map_of (users (api_db st)) (ub_Username b) = None"
  shows "api_db (snd (ServeHTTP ''POST'' ''/applyAccount'' env r st)) =
     (api_db st)\<lparr>users := sql_insert (ub_Username b) (applied_row h b) (users (api_db st))\<rparr>"
proof -
  have "um_AddUser (env_um env) (applied_user b) (api_db st) =
      (Inr (), (api_db st)\<lparr>users := sql_insert (ub_Username b) (applied_row h b) (users (api_db st))\<rparr>)"
    using assms by (simp add: JwtManager_def jwt_AddUser_def applied_user_def createPasswordHash_def applied_row_def smallint_def role_defs)
  then show ?thesis
    using assms(2) jwt_accounts.supers_mail_admins [OF assms(1)]
    by (simp add: ServeHTTP_def route_simps ApplyAccount_def readJSON_def snd_tryDB)
qed

lemma waiting_account_adds_admin:
  assumes "env_um env = JwtManager lib jl j" "authenticateRequest env r st = Inr (withRequestUser r n u)" "ua_Role u = DisabledUser"
    and "jd_user (env_json env) (rq_body r) = Some x" "ub_Username x \<noteq> []" "ub_Username x \<noteq> n" "ub_Password x \<noteq> []"
    and "ua_Role x = AdminRole" "ToLower (ub_Username x) = ub_Username x"
    and "CreateHash lib (ub_Password x) = Inr h" "map_of (users (api_db st)) (ub_Username x) = None"
  shows "roles (api_db (snd (ServeHTTP ''POST'' ''/editUser'' env r st))) (ub_Username x) = Some AdminRole"
proof -
  have ctx: "requestRole (withRequestUser r n u) = DisabledUser" "requestUsername (withRequestUser r n u) = n"
    "rq_body (withRequestUser r n u) = rq_body r"
    using assms(3) by (simp_all add: requestRole_def requestUsername_def withRequestUser_def)
  have "edit_other_user env x st = tryDB (um_AddUser (env_um env) x) (\<lambda>_. ok_reply) st"
    using assms by (simp add: edit_other_user_def on_db_def JwtManager_def getUserFromDB_def readE_def role_defs ErrUserNotFound_def)
  then have "ServeHTTP ''POST'' ''/editUser'' env r st = tryDB (um_AddUser (env_um env) x) (\<lambda>_. ok_reply) st"
    using assms(2,4-6) ctx by (simp add: ServeHTTP_def route_simps validateMiddleware_def EditUser_def readJSON_def Let_def role_defs)
  moreover have "roles (snd (jwt_AddUser lib x (api_db st))) (ub_Username x) = Some AdminRole \<and> fst (jwt_AddUser lib x (api_db st)) = Inr ()"
    using assms by (simp add: jwt_AddUser_def createPasswordHash_def roles_def smallint_def role_defs)
  ultimately show ?thesis
    using assms(1) by (simp add: snd_tryDB JwtManager_def)
qed

text \<open>
  C16: with the local user manager anybody can become an administrator, in any state in which the two names are not in use (names in lower case, as the
  application stores them). An account application needs no login and no approval to be
  used: after applying, the applicant can log in with the chosen password, and \<^verbatim>\<open>EditUser\<close>, which only
  tells normal users from all others, lets this disabled account create an administrator account of
  its choice.
\<close>

theorem anonymous_becomes_admin:
  assumes "env_um env = JwtManager lib jl j" "0 < expire j"
    and "jwt_accepts jl (signingKey j) (login_claims j (env_now_s env) (ub_Username b))"
    and "CreateHash lib (ub_Password b) = Inr h" "HasPrefix h ''$argon2''" "ComparePasswordAndHash lib (ub_Password b) h = Inr True"
    and "CreateHash lib (ub_Password x) = Inr h'"
    and "jd_base (env_json env) (rq_body r) = Some b" "jd_user (env_json env) body = Some x" "ua_Role x = AdminRole"
    and "ub_Username b \<noteq> []" "ub_Password b \<noteq> []" "ToLower (ub_Username b) = ub_Username b"
    and "ub_Username x \<noteq> []" "ub_Password x \<noteq> []" "ToLower (ub_Username x) = ub_Username x" "ub_Username x \<noteq> ub_Username b"
    and "map_of (users (api_db st)) (ub_Username b) = None" "map_of (users (api_db st)) (ub_Username x) = None"
    and "PostFormValue lr ''username'' = ub_Username b" "PostFormValue lr ''password'' = ub_Password b"
  shows "\<exists>tok. ServeHTTP ''POST'' ''/login'' env lr (snd (ServeHTTP ''POST'' ''/applyAccount'' env r st)) =
             (writeJSON 200 (JToken tok), snd (ServeHTTP ''POST'' ''/applyAccount'' env r st)) \<and>
           (\<forall>r'. rq_authorization r' = BearerPrefix @ tok \<and> rq_body r' = body \<longrightarrow>
              roles (api_db (snd (ServeHTTP ''POST'' ''/editUser'' env r' (snd (ServeHTTP ''POST'' ''/applyAccount'' env r st))))) (ub_Username x)
                = Some AdminRole)"
proof -
  define st1 where "st1 = snd (ServeHTTP ''POST'' ''/applyAccount'' env r st)"
  have users1: "users (api_db st1) = sql_insert (ub_Username b) (applied_row h b) (users (api_db st))"
    unfolding st1_def by (subst apply_account_stores [OF assms(1,8,11-13,4,18)]) simp
  have "h \<noteq> []" using assms(5) by (auto simp: HasPrefix_def)
  then have pwd: "CheckUserPwd lib (ub_Username b) (ub_Password b) (api_db st1)"
    using assms(5,6,11,12,18) by (simp add: CheckUserPwd_def users1 applied_row_def verifyPasswordHash_def)
  obtain tok where login: "ServeHTTP ''POST'' ''/login'' env lr st1 = (writeJSON 200 (JToken tok), st1)"
    and auth: "\<And>r'. rq_authorization r' = BearerPrefix @ tok \<Longrightarrow> authenticateRequest env r' st1 =
      Inr (withRequestUser r' (ub_Username b) (user_of_row (ub_Username b) (applied_row h b)))"
    using login_session_lemma [OF assms(1,3) pwd assms(20,21)] assms(1,2,18) by (auto simp: users1)
  have "roles (api_db (snd (ServeHTTP ''POST'' ''/editUser'' env r' st1))) (ub_Username x) = Some AdminRole"
    if "rq_authorization r' = BearerPrefix @ tok" "rq_body r' = body" for r'
    by (rule waiting_account_adds_admin [OF assms(1) auth [OF that(1)]])
      (use assms that users1 in \<open>simp_all add: user_of_row_def applied_row_def\<close>)
  with login show ?thesis unfolding st1_def by blast
qed

section \<open>Pages of the status log\<close>

lemma page_offset_exact:
  assumes "1 \<le> unat p" "(unat p - 1) * unat n < 2 ^ 64"
  shows "unat (page_offset p n) = (unat p - 1) * unat n"
proof -
  have "p \<noteq> 0" using assms(1) by (auto simp: unat_eq_zero)
  then have p1: "unat (p - 1) = unat p - 1" by (rule unat_minus_one)
  have "unat ((p - 1) * n) = (unat (p - 1) * unat n) mod 2 ^ 64"
    by (simp add: unat_word_ariths)
  with assms(2) p1 show ?thesis by (simp add: page_offset_def)
qed

lemma PagedItemStatusLogs_exact:
  assumes "1 \<le> unat p" "unat n < 2 ^ 63" "(unat p - 1) * unat n < 2 ^ 63"
  shows "PagedItemStatusLogs p n db =
     (Inr (int (length (item_status_log db)), take (unat n) (drop ((unat p - 1) * unat n) (newest_first db))), db)"
  using assms page_offset_exact [of p n] by (simp add: PagedItemStatusLogs_def readE_def Let_def)

lemma concat_pages: "concat (map (\<lambda>i. take n (drop (i * n) xs)) [0..<k]) = take (k * n) xs"
proof (induction k)
  case (Suc k)
  have "take (k * n) xs @ take n (drop (k * n) xs) = take (k * n + n) xs"
    by (simp add: take_add)
  with Suc show ?case by (simp add: add.commute)
qed simp

definition page_rows :: "nat \<Rightarrow> nat \<Rightarrow> tide_db \<Rightarrow> (uuid \<times> string \<times> status \<times> unix_ms) list" where
  "page_rows p n db = (case fst (PagedItemStatusLogs (of_nat p) (of_nat n) db) of Inl _ \<Rightarrow> [] | Inr (_, rows) \<Rightarrow> rows)"

text \<open>
  The pages of the status log. For a page size of 1 to 100 every page has at most that many rows,
  and the first \<open>k\<close> pages together are the first \<open>k\<close> times as many entries of the log from the newest, as
  long as the offsets stay below 2^63. Beyond, the offset is computed modulo 2^64: page 2^63 + 1 of size
  2 is page 1 again.
\<close>

theorem status_log_pages:
  assumes "1 \<le> n" "n \<le> 100" "k * n < 2 ^ 63"
  shows "length (page_rows p n db) \<le> n \<and>
     concat (map (\<lambda>i. page_rows (Suc i) n db) [0..<k]) = take (k * n) (newest_first db) \<and>
     PagedItemStatusLogs (2 ^ 63 + 1) 2 db = PagedItemStatusLogs 1 2 db"
proof (intro conjI)
  have n: "unat (of_nat n :: 64 word) = n"
    using assms(2) by (simp add: unat_of_nat)
  show "length (page_rows p n db) \<le> n"
    using n by (auto simp: page_rows_def PagedItemStatusLogs_def readE_def Let_def split: sum.split)
  have page: "page_rows (Suc i) n db = take n (drop (i * n) (newest_first db))" if "i < k" for i
  proof -
    have "i * n < k * n" using that assms(1) by simp
    with assms(3) have in63: "i * n < 2 ^ 63" by linarith
    moreover have "i \<le> i * n" using assms(1) by (cases n) auto
    ultimately have "i < 2 ^ 63" by (rule le_less_trans [rotated])
    then have "Suc i < 2 ^ 64" by simp
    then have "unat (of_nat (Suc i) :: 64 word) = Suc i"
      unfolding unat_of_nat by simp
    then show ?thesis
      using n in63 assms(2) PagedItemStatusLogs_exact [of "of_nat (Suc i)" "of_nat n" db] by (simp add: page_rows_def)
  qed
  show "concat (map (\<lambda>i. page_rows (Suc i) n db) [0..<k]) = take (k * n) (newest_first db)"
    unfolding concat_pages [symmetric] by (rule arg_cong [where f = concat]) (simp add: page)
  have "page_offset (2 ^ 63 + 1) 2 = page_offset 1 2"
    by (simp add: page_offset_def)
  then show "PagedItemStatusLogs (2 ^ 63 + 1) 2 db = PagedItemStatusLogs 1 2 db"
    by (simp add: PagedItemStatusLogs_def)
qed

theorem status_log_pages_witness:
  "length (page_rows 1 20 empty_db) \<le> 20 \<and> concat (map (\<lambda>i. page_rows (Suc i) 20 empty_db) [0..<3]) = []"
  using status_log_pages [of 20 3 1 empty_db] by (simp add: newest_first_def empty_db_def)

section \<open>A running server\<close>

text \<open>A server with the super administrator of \<^verbatim>\<open>schema.sql\<close> and a normal user; its tokens are user names.\<close>

definition demo_claims :: "string \<Rightarrow> jwt_claims" where
  "demo_claims n = \<lparr>jc_Subject = n, jc_Issuer = ''navi-tech.net'', jc_IssuedAt = 0, jc_ExpiresAt = 3600\<rparr>"

definition demo_jwt :: jwt_lib where
  "demo_jwt = \<lparr>SignedString = (\<lambda>key c. Inr (jc_Subject c)),
     ParseWithClaims = (\<lambda>now kf tok. case kf True of Inl e \<Rightarrow> Inl e | Inr _ \<Rightarrow> Inr (demo_claims tok, now < 3600))\<rparr>"

definition demo_manager :: jwt_manager where
  "demo_manager = \<lparr>signingKey = [1, 2], issuer = ''navi-tech.net'', expire = 3600\<rparr>"

definition demo_base :: user_base_info where
  "demo_base = \<lparr>ub_Username = ''mallory'', ub_Password = ''pw'', ub_Email = []\<rparr>"

definition demo_admin :: user where
  "demo_admin = \<lparr>ub_Username = ''eve'', ub_Password = ''pw'', ub_Email = [], ua_Role = 1, ua_LiveCamera = True\<rparr>"

definition demo_json :: json_dec where
  "demo_json = \<lparr>jd_user = (\<lambda>_. Some demo_admin), jd_base = (\<lambda>_. Some demo_base), jd_names = (\<lambda>_. Some [''tgm-admin'']),
     jd_permission = (\<lambda>_. None), jd_upstream = (\<lambda>_. None), jd_id = (\<lambda>_. None), jd_station = (\<lambda>_. None),
     jd_device = (\<lambda>_. None), jd_record = (\<lambda>_. None)\<rparr>"

definition demo_camera :: camera_env where
  "demo_camera = \<lparr>cam_count = 3, cam_tree = (\<lambda>_ _. None), cam_dir = (\<lambda>_ _. DirFails), cam_writable = (\<lambda>_. True),
     cam_readable = (\<lambda>_. True), cam_fetch = (\<lambda>_ _ _ _. NotConnected)\<rparr>"

definition demo_env :: api_env where
  "demo_env = \<lparr>env_um = JwtManager demo_lib demo_jwt demo_manager, env_json = demo_json, uuid_Parse = (\<lambda>_. None), env_now = 0,
     env_now_s = 0, env_newUUID = Inr 1, env_smtp = False, env_v2_snapshot = (\<lambda>_ _. Inl ErrStationNotConnected),
     env_v1_snapshot = (\<lambda>_ _. V1Silent), env_camera = demo_camera\<rparr>"

definition demo_row :: "int \<Rightarrow> user_row" where
  "demo_row role = \<lparr>ur_password_hash = ''$argon2id$pw'', ur_role = role, ur_email = [], ur_live_camera = True\<rparr>"

definition demo_state :: api_state where
  "demo_state = \<lparr>api_db = empty_db\<lparr>users := [(''tgm-admin'', demo_row 2), (''ann'', demo_row 0)]\<rparr>,
     api_hub = demo_hub, recvConnections = [], api_mails = [], api_syncs = [], api_cache = (\<lambda>_. [])\<rparr>"

definition demo_request :: "string \<Rightarrow> http_request" where
  "demo_request auth = \<lparr>rq_authorization = auth, rq_cookie_token = None, rq_query = [], rq_postform = [(''username'', ''mallory''), (''password'', ''pw'')],
     rq_form = Inr [], rq_body = [], rq_ctx = None\<rparr>"

lemma demo_state_ok: "auth_ok (api_db demo_state)"
  by (simp add: auth_ok_def perms_ok_def demo_state_def empty_db_def)

lemma demo_jwt_accepts: "jwt_accepts demo_jwt (signingKey demo_manager) (login_claims demo_manager 0 n)" if "n \<noteq> []"
  using that by (auto simp: jwt_accepts_def demo_jwt_def demo_manager_def login_claims_def demo_claims_def)

lemma demo_env_um [simp]: "env_um demo_env = JwtManager demo_lib demo_jwt demo_manager"
  by (simp add: demo_env_def)

theorem super_admins_fixed_witness:
  "super_roles (roles (api_db (serve_all [(demo_env, ''POST'', ''/delUser'', demo_request ''Bearer tgm-admin'')] demo_state))) ''tgm-admin'' = Some 2"
  using super_admins_fixed [OF demo_state_ok, where reqs = "[(demo_env, ''POST'', ''/delUser'', demo_request ''Bearer tgm-admin'')]"]
  by (simp add: super_roles_def roles_def demo_state_def demo_row_def role_defs routes_def)

theorem normal_user_confined_witness:
  "confined ''ann'' (api_db demo_state) (api_db (snd (ServeHTTP ''POST'' ''/editUser'' demo_env (demo_request ''Bearer ann'') demo_state)))"
proof (rule normal_user_confined [OF demo_env_um])
  show "(''POST'', ''/editUser'') \<in> fst ` set routes" by (simp add: routes_def)
  show "normal_or_anonymous demo_env (demo_request ''Bearer ann'') demo_state ''ann''"
    by (simp add: normal_or_anonymous_def authenticateRequest_def attachAuthenticatedUser_def JwtManager_def jwt_GetLoginUser_def
      token_of_request_def demo_request_def BearerPrefix_def HasPrefix_def demo_jwt_def demo_claims_def hmac_key_def demo_env_def
      getUserFromDB_def readE_def demo_state_def requestRole_def requestUsername_def withRequestUser_def user_of_row_def demo_row_def role_defs)
qed

theorem login_session_witness:
  "\<exists>tok. ServeHTTP ''POST'' ''/login'' demo_env ((demo_request [])\<lparr>rq_postform := [(''username'', ''ann''), (''password'', ''pw'')]\<rparr>) demo_state =
     (writeJSON 200 (JToken tok), demo_state)"
  using login_session [OF demo_env_um, where username = "''ann''" and password = "''pw''" and ?st0.0 = demo_state
    and lr = "(demo_request [])\<lparr>rq_postform := [(''username'', ''ann''), (''password'', ''pw'')]\<rparr>"] demo_jwt_accepts [of "''ann''"]
  by (force simp: CheckUserPwd_def demo_state_def demo_row_def verifyPasswordHash_def HasPrefix_def demo_lib_def
    PostFormValue_def map_index_def demo_request_def demo_env_def)

theorem anonymous_becomes_admin_witness:
  "\<exists>tok. ServeHTTP ''POST'' ''/login'' demo_env (demo_request []) (snd (ServeHTTP ''POST'' ''/applyAccount'' demo_env (demo_request []) demo_state)) =
     (writeJSON 200 (JToken tok), snd (ServeHTTP ''POST'' ''/applyAccount'' demo_env (demo_request []) demo_state))"
  using anonymous_becomes_admin [OF demo_env_um, where b = demo_base and x = demo_admin and h = "''$argon2id$pw''" and h' = "''$argon2id$pw''"
    and r = "demo_request []" and lr = "demo_request []" and st = demo_state and body = "[]"] demo_jwt_accepts [of "''mallory''"]
  by (force simp: demo_manager_def demo_base_def demo_admin_def demo_lib_def HasPrefix_def demo_env_def demo_json_def role_defs
    ToLower_def to_lower_char_def demo_state_def empty_db_def PostFormValue_def map_index_def demo_request_def)

end
