(* ===== verification/ApiTables.thy ===== *)
theory ApiTables
  imports ApiLaws
begin

text \<open>
  Every request to the server keeps the table invariant: the handlers reach the tables of stations,
  devices and items only through the operations that keep it, and an account operation changes the
  account tables only.
\<close>

lemma db_ok_accounts: "accounts_only db db' \<Longrightarrow> db_ok db' = db_ok db"
  by (elim accounts_only_def [THEN iffD1, elim_format] exE) (simp add: db_ok_defs)

lemma db_ok_permissions [hpres]:
  "preserves db_ok (EditPermission u sc)" "preserves db_ok (EditCameraStatusPermission u sc)"
  by (auto simp: preserves_def EditPermission_def EditCameraStatusPermission_def db_ok_defs split: sum.split)

lemmas db_ok_station_ops [hpres] =
  db_ok_EditStation db_ok_DelLocalStation db_ok_EditDevice db_ok_EditDeviceRecord db_ok_EditUpstream db_ok_DelUpstream

context account_store
begin

lemma tables_account_ops:
  "preserves db_ok (um_AddUser um x)" "preserves db_ok (um_EditUser um x)" "preserves db_ok (um_DelUser um u)"
  "preserves db_ok (um_EditUserBaseInfo um b)"
  by (simp_all add: preserves_def db_ok_accounts [OF frame(1)] db_ok_accounts [OF frame(2)] db_ok_accounts [OF frame(3)]
    db_ok_accounts [OF frame(4)])

lemma tables_del_users: "env_um env = um \<Longrightarrow> keepsDB db_ok (del_users env us)"
proof (induction us)
  case (Cons u us)
  then have rest: "keepsDB db_ok (del_users env us)" by simp
  show ?case
    unfolding del_users.simps Cons.prems by (intro keepsDB_tryDB keepsDB_if' tables_account_ops supers_get keepsDB_after [OF _ rest] rest) simp
qed (simp add: hpres)

lemma tables_pass_users: "env_um env = um \<Longrightarrow> keepsDB db_ok (pass_users env us)"
proof (induction us)
  case (Cons u us)
  then have rest: "keepsDB db_ok (pass_users env us)" by simp
  show ?case
    unfolding pass_users.simps Cons.prems by (intro keepsDB_tryDB keepsDB_if' tables_account_ops supers_get keepsDB_after [OF _ rest] rest) simp
qed (simp add: hpres)

lemma tables_edit_other: "env_um env = um \<Longrightarrow> keepsDB db_ok (edit_other_user env u)"
  unfolding keepsDB_def
proof (intro allI impI)
  fix st :: api_state
  assume env: "env_um env = um" and ok: "db_ok (api_db st)"
  show "db_ok (api_db (snd (edit_other_user env u st)))"
  proof (cases "SuperAdmin \<le> ua_Role u")
    case False
    have "db_ok (api_db (snd (tryDB (um_AddUser um u) (\<lambda>_. ok_reply) st)))"
      by (intro step_tryDB [where Q = db_ok] preservesD [OF tables_account_ops(1) ok] keepsDB_ok)
    moreover have "keepsDB db_ok (after_edit_user pre u)" for pre
      unfolding after_edit_user_def by (intro hpres) simp_all
    then have "db_ok (api_db (snd (tryDB (um_EditUser um u) (\<lambda>_. after_edit_user pre u) st)))" for pre
      by (intro step_tryDB [where Q = db_ok] preservesD [OF tables_account_ops(2) ok])
    ultimately show ?thesis using ok by (simp add: edit_other_user_cases [OF env False] split: sum.split)
  qed (use ok in \<open>simp add: edit_other_user_def\<close>)
qed

lemma tables_edit_handlers:
  assumes "env_um env = um"
  shows "keepsDB db_ok (ApplyAccount env r)" "keepsDB db_ok (EditUser env r)"
    "keepsDB db_ok (DelUser env r)" "keepsDB db_ok (PassApplication env r)"
    "keepsDB db_ok (api_EditPermission env r)" "keepsDB db_ok (api_EditCameraStatusPermission env r)"
    "keepsDB db_ok (api_EditUpstream env r)" "keepsDB db_ok (api_DelUpstream env r)"
    "keepsDB db_ok (api_EditStation env r)" "keepsDB db_ok (DelStation env r)"
    "keepsDB db_ok (api_EditDevice env r)" "keepsDB db_ok (api_EditDeviceRecord env r)"
proof -
  show "keepsDB db_ok (ApplyAccount env r)"
    unfolding ApplyAccount_def using assms by (intro hpres) (simp_all add: tables_account_ops supers_mail_admins)
  show "keepsDB db_ok (EditUser env r)"
    unfolding EditUser_def Let_def using assms by (simp, intro conjI impI hpres tables_edit_other) (simp_all add: tables_account_ops)
  show "keepsDB db_ok (DelUser env r)" "keepsDB db_ok (PassApplication env r)"
    unfolding DelUser_def PassApplication_def by (intro hpres tables_del_users tables_pass_users assms)+
  show "keepsDB db_ok (api_EditPermission env r)" "keepsDB db_ok (api_EditCameraStatusPermission env r)"
    unfolding api_EditPermission_def api_EditCameraStatusPermission_def by (intro hpres; simp add: assms supers_get)+
  show "keepsDB db_ok (api_EditUpstream env r)" "keepsDB db_ok (api_DelUpstream env r)"
    unfolding api_EditUpstream_def api_DelUpstream_def Let_def by (intro hpres; simp)+
  show "keepsDB db_ok (api_EditStation env r)" "keepsDB db_ok (DelStation env r)"
    unfolding api_EditStation_def DelStation_def by (intro hpres; simp)+
  show "keepsDB db_ok (api_EditDevice env r)" "keepsDB db_ok (api_EditDeviceRecord env r)"
    unfolding api_EditDevice_def api_EditDeviceRecord_def if_local_def Let_def by (intro hpres; simp)+
qed

lemma tables_routes:
  assumes "env_um env = um" "(k, h) \<in> set routes"
  shows "keepsDB db_ok (h env r)"
proof -
  have "list_all (\<lambda>(k, h). \<forall>r. keepsDB db_ok (h env r)) routes"
    unfolding routes_def chain_def list.pred_inject foldr.simps comp_def id_def prod.case
    by (intro conjI allI keepsDB_middlewares tables_edit_handlers [OF assms(1)] reading_handlers [OF assms(1), where Q = db_ok]) simp
  with assms(2) show ?thesis by (auto simp: list_all_iff)
qed

lemma request_keeps_tables: "env_um env = um \<Longrightarrow> db_ok (api_db st) \<Longrightarrow> db_ok (api_db (snd (ServeHTTP verb url env r st)))"
  by (intro keepsDB_D [of db_ok "ServeHTTP verb url env r"] keepsDB_ServeHTTP tables_routes)

end

end
