(* ===== verification/Websocket.thy ===== *)
theory Websocket
  imports ApiLaws
begin

text \<open>
  The browser connections of \<^verbatim>\<open>tide_server/controller/websocket.go\<close>. The loop of \<open>DataWebsocket\<close> is a
  program counter; its database reads and hub calls interleave with the permission edits of an
  administrator (\<^verbatim>\<open>EditPermission\<close> stores the permissions and then tells the hub) and with everything
  else the server does. What the client sends is an input of the steps. \<^verbatim>\<open>GlobalWebsocket\<close> has no loop.
\<close>

section \<open>Middlewares and registration\<close>

definition wsStatusUnauthorized :: int where "wsStatusUnauthorized = 4001"
definition wsStatusInternalServerError :: int where "wsStatusInternalServerError = 4002"

definition closeWSByHTTPStatus :: "int \<Rightarrow> int" where
  "closeWSByHTTPStatus statusCode = (if statusCode = 401 then wsStatusUnauthorized else wsStatusInternalServerError)"

text \<open>The close code sent to the client, or the request the handler gets.\<close>

definition validateWsMiddleware :: "api_env \<Rightarrow> http_request \<Rightarrow> api_state \<Rightarrow> int + http_request" where
  "validateWsMiddleware env r st =
     (case authenticateRequest env r st of Inl code \<Rightarrow> Inl (closeWSByHTTPStatus code) | Inr r' \<Rightarrow> Inr r')"

definition ws_open :: "string \<Rightarrow> sub_id \<Rightarrow> sync_hub \<Rightarrow> sync_hub" where
  "ws_open username s h = TrackSubscriber username s connTypeWebBrowser h"

definition ws_close :: "BrokerKind \<Rightarrow> string \<Rightarrow> sub_id \<Rightarrow> sync_hub \<Rightarrow> sync_hub" where
  "ws_close kind username s h = hub_Unsubscribe kind s (UntrackSubscriber username s h)"

text \<open>\<open>during\<close> is what happens to the hub until the connection's context is done.\<close>

definition GlobalWebsocket :: "string \<Rightarrow> sub_id \<Rightarrow> (sync_hub \<Rightarrow> sync_hub) \<Rightarrow> sync_hub \<Rightarrow> sync_hub" where
  "GlobalWebsocket username s during h =
     ws_close BrokerStatus username s (during (hub_Subscribe BrokerStatus s None (ws_open username s h)))"

section \<open>The data connection\<close>

datatype ws_pc =
    WsRead
  | WsCheck "station_item list" uuid_strings_map
  | WsSubscribe uuid_strings_map
  | WsDone

record ws_state =
  ws_db :: tide_db
  ws_hub :: sync_hub
  ws_at :: ws_pc
  ws_edit :: "uuid_strings_map option option"

text \<open>After a message that is not empty: users below an administrator have their items checked.\<close>

definition ws_received :: "int \<Rightarrow> uuid_strings_map \<Rightarrow> ws_pc" where
  "ws_received role msg = (if role < AdminRole then WsCheck (uuidStringsMapToTopics msg) msg else WsSubscribe msg)"

definition ws_subscribe :: "sub_id \<Rightarrow> uuid_strings_map \<Rightarrow> sync_hub \<Rightarrow> sync_hub" where
  "ws_subscribe s msg = hub_Subscribe BrokerData s (Some (uuidStringsMapToTopics msg))"

definition permitted :: "string \<Rightarrow> tide_db \<Rightarrow> station_item set" where
  "permitted username db = {(sid, name). CheckPermission username sid name db}"

text \<open>
  \<open>serial\<close> says that no edit of the user's permissions is stored between the first check of a message
  and its subscription, \<open>maps\<close> that every edit carries a permission map (a body without one decodes to nil). The last rule is any other step of the server: it leaves the user's permissions
  and the tracking of the connection alone and does not widen its subscription (a publication may end it).
\<close>

inductive ws_step :: "bool \<Rightarrow> bool \<Rightarrow> int \<Rightarrow> string \<Rightarrow> sub_id \<Rightarrow> ws_state \<Rightarrow> ws_state \<Rightarrow> bool"
  for serial :: bool and maps :: bool and role :: int and username :: string and s :: sub_id where
  read_empty: "ws_at st = WsRead \<Longrightarrow>
    ws_step serial maps role username s st (st\<lparr>ws_hub := hub_Unsubscribe BrokerData s (ws_hub st)\<rparr>)"
| read_msg: "ws_at st = WsRead \<Longrightarrow> msg \<noteq> [] \<Longrightarrow>
    ws_step serial maps role username s st (st\<lparr>ws_at := ws_received role msg\<rparr>)"
| read_error: "ws_at st = WsRead \<Longrightarrow>
    ws_step serial maps role username s st (st\<lparr>ws_at := WsDone, ws_hub := ws_close BrokerData username s (ws_hub st)\<rparr>)"
| check_ok: "ws_at st = WsCheck ((sid, name) # rest) msg \<Longrightarrow> CheckPermission username sid name (ws_db st) \<Longrightarrow>
    ws_step serial maps role username s st (st\<lparr>ws_at := WsCheck rest msg\<rparr>)"
| check_denied: "ws_at st = WsCheck ((sid, name) # rest) msg \<Longrightarrow> \<not> CheckPermission username sid name (ws_db st) \<Longrightarrow>
    ws_step serial maps role username s st (st\<lparr>ws_at := WsDone, ws_hub := ws_close BrokerData username s (ws_hub st)\<rparr>)"
| check_done: "ws_at st = WsCheck [] msg \<Longrightarrow>
    ws_step serial maps role username s st (st\<lparr>ws_at := WsSubscribe msg\<rparr>)"
| subscribe: "ws_at st = WsSubscribe msg \<Longrightarrow>
    ws_step serial maps role username s st (st\<lparr>ws_at := WsRead, ws_hub := ws_subscribe s msg (ws_hub st)\<rparr>)"
| edit: "ws_edit st = None \<Longrightarrow> (serial \<longrightarrow> ws_at st \<in> {WsRead, WsDone}) \<Longrightarrow> (maps \<longrightarrow> scopes \<noteq> None) \<Longrightarrow>
    EditPermission username (range_map scopes) (ws_db st) = (Inr (), db') \<Longrightarrow>
    ws_step serial maps role username s st (st\<lparr>ws_db := db', ws_edit := Some scopes\<rparr>)"
| update: "ws_edit st = Some scopes \<Longrightarrow>
    ws_step serial maps role username s st
      (st\<lparr>ws_edit := None, ws_hub := UpdatePermissions (fst (GetAvailableItems (ws_db st))) username scopes (ws_hub st)\<rparr>)"
| other: "permitted username db' = permitted username (ws_db st) \<Longrightarrow> auth_ok db' \<Longrightarrow>
    wf_map (dataBroker h') \<Longrightarrow> wf_map (subs_of username h') \<Longrightarrow>
    map_of (subs_of username h') s = map_of (subs_of username (ws_hub st)) s \<Longrightarrow>
    map_of (dataBroker h') s \<in> {None, map_of (dataBroker (ws_hub st)) s} \<Longrightarrow>
    ws_step serial maps role username s st (st\<lparr>ws_db := db', ws_hub := h'\<rparr>)"

section \<open>What a data connection receives\<close>

lemma EditPermission_permitted:
  assumes "auth_ok db" "EditPermission username scopes db = (Inr (), db')"
  shows "permitted username db' = set (uuidStringsMapToTopics scopes)"
proof -
  have wf: "wf_map (permissions_item_data db)" using assms(1) by (simp add: auth_ok_def perms_ok_def)
  from assms(2) obtain t where t: "insert_permissions username (uuidStringsMapToTopics scopes) db
      (sql_delete (\<lambda>k _. fst k = username) (permissions_item_data db)) = Inr t"
    and db': "db' = db\<lparr>permissions_item_data := t\<rparr>"
    by (auto simp: EditPermission_def split: sum.splits)
  show ?thesis
    using wf by (auto simp: permitted_def CheckPermission_iff db' insert_permissions_map_of [OF t] map_of_sql_delete split: if_splits option.splits)
qed

definition scope_within :: "sub_id \<Rightarrow> sync_hub \<Rightarrow> station_item set \<Rightarrow> bool" where
  "scope_within s h A \<longleftrightarrow> (\<forall>ts. map_of (dataBroker h) s = Some ts \<longrightarrow> (\<exists>xs. ts = Some xs \<and> set xs \<subseteq> A))"

definition ws_checked :: "station_item set \<Rightarrow> ws_pc \<Rightarrow> bool" where
  "ws_checked A pc = (case pc of
     WsCheck rest msg \<Rightarrow> set (uuidStringsMapToTopics msg) \<subseteq> A \<union> set rest
   | WsSubscribe msg \<Rightarrow> set (uuidStringsMapToTopics msg) \<subseteq> A
   | _ \<Rightarrow> True)"

definition ws_inv :: "string \<Rightarrow> sub_id \<Rightarrow> ws_state \<Rightarrow> bool" where
  "ws_inv username s st \<longleftrightarrow> auth_ok (ws_db st) \<and> wf_map (dataBroker (ws_hub st)) \<and> wf_map (subs_of username (ws_hub st)) \<and>
     (case ws_at st of WsDone \<Rightarrow> map_of (dataBroker (ws_hub st)) s = None
      | _ \<Rightarrow> map_of (subs_of username (ws_hub st)) s = Some connTypeWebBrowser) \<and>
     ws_checked (permitted username (ws_db st)) (ws_at st) \<and>
     (case ws_edit st of None \<Rightarrow> scope_within s (ws_hub st) (permitted username (ws_db st))
      | Some scopes \<Rightarrow> \<exists>m. scopes = Some m \<and> permitted username (ws_db st) = set (uuidStringsMapToTopics m))"

text \<open>The hub operations of the connection.\<close>

lemma subs_of_broker [simp]:
  "subs_of u (hub_Unsubscribe k s h) = subs_of u h" "subs_of u (hub_Subscribe k s ts h) = subs_of u h"
  by (simp_all add: subs_of_def hub_Unsubscribe_def hub_Subscribe_def set_broker_def split: BrokerKind.split)

lemma dataBroker_ops [simp]:
  "dataBroker (hub_Unsubscribe BrokerData s h) = Unsubscribe s (dataBroker h)"
  "dataBroker (hub_Subscribe BrokerData s ts h) = Subscribe s ts (dataBroker h)"
  "dataBroker (TrackSubscriber u s ct h) = dataBroker h" "dataBroker (UntrackSubscriber u s h) = dataBroker h"
  by (simp_all add: hub_Unsubscribe_def hub_Subscribe_def TrackSubscriber_def UntrackSubscriber_def set_broker_def brokerByKind_def Let_def)

lemma subs_of_track [simp]: "subs_of u (TrackSubscriber u s ct h) = AList.update s ct (subs_of u h)"
  by (simp add: subs_of_def TrackSubscriber_def map_index_def)

lemma wf_subs_untrack: "wf_map (subs_of u h) \<Longrightarrow> wf_map (subs_of u (UntrackSubscriber u s h))"
  by (auto simp: subs_of_def UntrackSubscriber_def map_index_def Let_def)

lemma subscribersByUser_fold:
  "subscribersByUser (fold hub_Cancel ss h) = subscribersByUser h"
  "subscribersByUser (fold (send_or_cancel m) ss h) = subscribersByUser h"
  by (induction ss arbitrary: h) simp_all

lemma subscribersByUser_permissions: "subscribersByUser (fold (permission_step al) us h) = subscribersByUser h"
proof (induction us arbitrary: h)
  case (Cons x us)
  then show ?case by (cases x) (simp add: permission_step_def Let_def)
qed simp

lemma subs_of_UpdatePermissions [simp]: "subs_of u (UpdatePermissions av username p h) = subs_of u h"
  by (simp add: subs_of_def UpdatePermissions_def Let_def subscribersByUser_fold subscribersByUser_permissions split: sum.split)

lemma UpdatePermissions_closed:
  assumes "wf_map (subs_of username h)" "wf_map (dataBroker h)" "map_of (dataBroker h) s = None"
  shows "map_of (dataBroker (UpdatePermissions av username p h)) s = None"
  using assms fold_permission_step_scope(2) [OF assms(1,2), of "map_option uuidStringsMapToTopics p" s]
  by (auto simp: UpdatePermissions_def Let_def fold_hub_Cancel fold_send_or_cancel RestrictTopics_def split: sum.split option.split)

lemma scope_within_simps [simp]:
  "scope_within s (hub_Unsubscribe BrokerData s h) A"
  "scope_within s (hub_Subscribe BrokerData s (Some xs) h) A \<longleftrightarrow> set xs \<subseteq> A"
  by (simp_all add: scope_within_def map_of_Subscribe map_of_Unsubscribe)

lemma scope_within_UpdatePermissions:
  assumes "wf_map (subs_of username h)" "wf_map (dataBroker h)" "map_of (subs_of username h) s = Some connTypeWebBrowser"
  shows "scope_within s (UpdatePermissions av username (Some scopes) h) (set (uuidStringsMapToTopics scopes))"
  unfolding scope_within_def
  using UpdatePermissions_scope [OF assms] by (auto simp: matches_def connType_defs)

lemma ws_close_simps [simp]:
  "map_of (dataBroker (ws_close BrokerData u s h)) s = None" "scope_within s (ws_close BrokerData u s h) A"
  "wf_map (dataBroker h) \<Longrightarrow> wf_map (dataBroker (ws_close BrokerData u s h))"
  "wf_map (subs_of u h) \<Longrightarrow> wf_map (subs_of u (ws_close BrokerData u s h))"
  by (simp_all add: ws_close_def map_of_Unsubscribe wf_subs_untrack)

lemma ws_step_inv:
  assumes "ws_step True True role username s st st'" "role < AdminRole" "ws_inv username s st"
  shows "ws_inv username s st'"
  using assms
proof (induction rule: ws_step.induct)
  case (update st scopes)
  then have "ws_at st = WsDone \<or> map_of (subs_of username (ws_hub st)) s = Some connTypeWebBrowser"
    by (auto simp: ws_inv_def split: ws_pc.splits)
  moreover have "scope_within s h A" if "map_of (dataBroker h) s = None" for h A using that by (simp add: scope_within_def)
  ultimately show ?case
    using update UpdatePermissions_wf [of username "ws_hub st"] UpdatePermissions_closed [of username "ws_hub st" s]
      scope_within_UpdatePermissions [of username "ws_hub st" s]
    by (auto simp: ws_inv_def split: ws_pc.splits)
next
  case (edit st scopes db')
  then have "auth_ok db'" using preservesD [OF auth_ok_EditPermission, of "ws_db st"] by (metis snd_conv ws_inv_def)
  with edit EditPermission_permitted [of "ws_db st" username "range_map scopes" db'] show ?case
    by (auto simp: ws_inv_def ws_checked_def range_map_def split: ws_pc.splits)
next
  case (other db' st h')
  then have "scope_within s h' A" if "scope_within s (ws_hub st) A" for A using that by (auto simp: scope_within_def)
  with other show ?case by (auto simp: ws_inv_def split: ws_pc.splits option.splits)
next
  case (check_ok st sid name rest msg)
  then show ?case by (auto simp: ws_inv_def ws_checked_def permitted_def split: option.splits)
qed (auto simp: ws_inv_def ws_checked_def ws_received_def ws_subscribe_def split: option.splits)

definition ws_start :: "string \<Rightarrow> sub_id \<Rightarrow> tide_db \<Rightarrow> sync_hub \<Rightarrow> ws_state" where
  "ws_start username s db h = \<lparr>ws_db = db, ws_hub = ws_open username s h, ws_at = WsRead, ws_edit = None\<rparr>"

definition fresh_connection :: "string \<Rightarrow> sub_id \<Rightarrow> tide_db \<Rightarrow> sync_hub \<Rightarrow> bool" where
  "fresh_connection username s db h \<longleftrightarrow>
     auth_ok db \<and> wf_map (dataBroker h) \<and> wf_map (subs_of username h) \<and> map_of (dataBroker h) s = None"

lemma ws_start_inv: "fresh_connection username s db h \<Longrightarrow> ws_inv username s (ws_start username s db h)"
  by (simp add: fresh_connection_def ws_inv_def ws_start_def ws_open_def ws_checked_def scope_within_def)

text \<open>
  C15: a browser of a normal user receives data of permitted items only. In every state the data
  connection reaches, over any interleaving of its messages with permission edits and the rest of the
  server in which every edit carries a permission map and no edit is stored between the checks of a message and its subscription, once the
  hub has been told of the last edit the connection is subscribed to nothing beyond the user's current
  permissions, and no stream of data published on other items changes what the connection receives.
\<close>

theorem websocket_confined:
  assumes "fresh_connection username s db h" "role < AdminRole"
    and "(ws_step True True role username s)\<^sup>*\<^sup>* (ws_start username s db h) st" "ws_edit st = None"
    and "\<And>m t. (m, t) \<in> set ms \<Longrightarrow> t \<notin> permitted username (ws_db st)"
  shows "scope_within s (ws_hub st) (permitted username (ws_db st)) \<and>
    fst (publish_stream Publish ms (hub_subs (ws_hub st), dataBroker (ws_hub st))) s = hub_subs (ws_hub st) s"
proof -
  from assms(3) have "ws_inv username s st"
    by (induction rule: rtranclp_induct) (auto intro: ws_start_inv [OF assms(1)] ws_step_inv [OF _ assms(2)])
  then have scope: "scope_within s (ws_hub st) (permitted username (ws_db st))" and "wf_map (dataBroker (ws_hub st))"
    using assms(4) by (simp_all add: ws_inv_def)
  then show ?thesis
    using pubsub.publish_stream_confined [of "(hub_subs (ws_hub st), dataBroker (ws_hub st))" s "permitted username (ws_db st)" ms] assms(5)
    by (simp add: scope_within_def)
qed

section \<open>Where a data connection is not confined\<close>

lemma UpdatePermissions_browser:
  assumes "wf_map (subs_of username h)" "map_of (subs_of username h) s = Some connTypeWebBrowser"
  shows "hub_subs (UpdatePermissions av username p h) s = hub_subs h s"
  using UpdatePermissions_sub [OF assms] by (simp add: matches_def connType_defs)

lemma UpdatePermissions_nil:
  assumes "wf_map (subs_of username h)" "wf_map (dataBroker h)"
  shows "map_of (dataBroker (UpdatePermissions av username None h)) s = map_of (dataBroker h) s"
  using fold_permission_step_scope(2) [OF assms, of None s]
  by (auto simp: UpdatePermissions_def Let_def fold_hub_Cancel fold_send_or_cancel RestrictTopics_def split: sum.split option.split)

lemma ws_open_simps [simp]:
  "hub_subs (ws_open u s h) = hub_subs h" "subs_of u (ws_open u s h) = AList.update s connTypeWebBrowser (subs_of u h)"
  "dataBroker (ws_open u s h) = dataBroker h"
  by (simp_all add: ws_open_def) (simp add: TrackSubscriber_def)

lemma ws_subscribe_simps [simp]:
  "hub_subs (ws_subscribe s msg h) = hub_subs h"
  "dataBroker (ws_subscribe s msg h) = Subscribe s (Some (uuidStringsMapToTopics msg)) (dataBroker h)"
  by (simp_all add: ws_subscribe_def) (simp add: hub_Subscribe_def set_broker_def)

lemma delivered:
  assumes "wf_map (dataBroker h)" "has_room (hub_subs h s)" "map_of (dataBroker h) s = Some (Some xs)" "t \<in> set xs"
  shows "sub_Ch (fst (Publish m (Some t) (hub_subs h, dataBroker h)) s) = sub_Ch (hub_subs h s) @ [m]"
  using assms by (simp add: Publish_heap offered_def admits_def)

lemma EditPermission_none: "\<exists>db'. EditPermission username [] db = (Inr (), db')"
  by (simp add: EditPermission_def uuidStringsMapToTopics_def)

lemma race_run:
  assumes "role < AdminRole" "CheckPermission username sid name db" "EditPermission username [] db = (Inr (), db')"
  shows "(ws_step False True role username s)\<^sup>*\<^sup>* (ws_start username s db h)
    \<lparr>ws_db = db', ws_hub = ws_subscribe s [(sid, [name])] (UpdatePermissions (fst (GetAvailableItems db')) username (Some []) (ws_open username s h)),
     ws_at = WsRead, ws_edit = None\<rparr>"
proof -
  let ?step = "ws_step False True role username s" and ?msg = "[(sid, [name])]" and ?h = "ws_open username s h"
  let ?h1 = "UpdatePermissions (fst (GetAvailableItems db')) username (Some []) ?h"
  let ?S = "\<lambda>db h pc e. \<lparr>ws_db = db, ws_hub = h, ws_at = pc, ws_edit = e\<rparr>"
  have "?step (?S db ?h WsRead None) (?S db ?h (WsCheck [(sid, name)] ?msg) None)"
    using ws_step.read_msg [of "?S db ?h WsRead None" ?msg False True role] assms(1) by (simp add: ws_received_def uuidStringsMapToTopics_def)
  moreover have "?step (?S db ?h (WsCheck [(sid, name)] ?msg) None) (?S db ?h (WsCheck [] ?msg) None)"
    using ws_step.check_ok [of "?S db ?h (WsCheck [(sid, name)] ?msg) None"] assms(2) by simp
  moreover have "?step (?S db ?h (WsCheck [] ?msg) None) (?S db ?h (WsSubscribe ?msg) None)"
    using ws_step.check_done [of "?S db ?h (WsCheck [] ?msg) None"] by simp
  moreover have "?step (?S db ?h (WsSubscribe ?msg) None) (?S db' ?h (WsSubscribe ?msg) (Some (Some [])))"
    using ws_step.edit [of "?S db ?h (WsSubscribe ?msg) None" False True "Some []" username db' role s] assms(3) by (simp add: range_map_def)
  moreover have "?step (?S db' ?h (WsSubscribe ?msg) (Some (Some []))) (?S db' ?h1 (WsSubscribe ?msg) None)"
    using ws_step.update [of "?S db' ?h (WsSubscribe ?msg) (Some (Some []))"] by simp
  moreover have "?step (?S db' ?h1 (WsSubscribe ?msg) None) (?S db' (ws_subscribe s ?msg ?h1) WsRead None)"
    using ws_step.subscribe [of "?S db' ?h1 (WsSubscribe ?msg) None"] by simp
  ultimately show ?thesis
    unfolding ws_start_def by (meson converse_rtranclp_into_rtranclp rtranclp.rtrancl_refl)
qed

text \<open>
  The checks of \<open>DataWebsocket\<close> race with a permission edit. Whenever a normal user may read an item, a
  run exists in which the administrator withdraws all permissions, the handler has stored them and
  told the hub, and the connection is subscribed to the item afterwards, so that the next measurement of the
  item is delivered: the subscription was checked before the edit and stored after the hub restricted it.
\<close>

theorem websocket_permission_race:
  assumes "fresh_connection username s db h" "role < AdminRole" "CheckPermission username sid name db" "has_room (hub_subs h s)"
  shows "\<exists>st. (ws_step False True role username s)\<^sup>*\<^sup>* (ws_start username s db h) st \<and> ws_at st = WsRead \<and> ws_edit st = None \<and>
    permitted username (ws_db st) = {} \<and>
    sub_Ch (fst (Publish m (Some (sid, name)) (hub_subs (ws_hub st), dataBroker (ws_hub st))) s) = sub_Ch (hub_subs h s) @ [m]"
proof -
  let ?msg = "[(sid, [name])]" and ?h = "ws_open username s h"
  obtain db' where db': "EditPermission username [] db = (Inr (), db')" using EditPermission_none by blast
  let ?h1 = "UpdatePermissions (fst (GetAvailableItems db')) username (Some []) ?h"
  have wf: "wf_map (subs_of username ?h)" "wf_map (dataBroker ?h)"
    using assms(1) by (simp_all add: fresh_connection_def)
  have subs: "hub_subs (ws_subscribe s ?msg ?h1) s = hub_subs h s"
    using UpdatePermissions_browser [OF wf(1), of s] by simp
  have "sub_Ch (fst (Publish m (Some (sid, name)) (hub_subs (ws_subscribe s ?msg ?h1), dataBroker (ws_subscribe s ?msg ?h1))) s) =
      sub_Ch (hub_subs (ws_subscribe s ?msg ?h1) s) @ [m]"
    by (rule delivered [where xs = "[(sid, name)]"])
      (use UpdatePermissions_wf [OF wf] assms(4) subs in \<open>simp_all add: uuidStringsMapToTopics_def map_of_Subscribe\<close>)
  moreover have "permitted username db' = {}"
    using EditPermission_permitted [OF _ db'] assms(1) by (simp add: fresh_connection_def uuidStringsMapToTopics_def)
  ultimately show ?thesis
    using race_run [OF assms(2,3) db', of s h] subs by (intro exI conjI) (assumption, simp_all)
qed

lemma nil_edit_run:
  assumes "role < AdminRole" "CheckPermission username sid name db" "EditPermission username [] db = (Inr (), db')"
  shows "(ws_step True False role username s)\<^sup>*\<^sup>* (ws_start username s db h)
    \<lparr>ws_db = db', ws_hub = UpdatePermissions (fst (GetAvailableItems db')) username None (ws_subscribe s [(sid, [name])] (ws_open username s h)),
     ws_at = WsRead, ws_edit = None\<rparr>"
proof -
  let ?step = "ws_step True False role username s" and ?msg = "[(sid, [name])]" and ?h = "ws_open username s h"
  let ?h1 = "ws_subscribe s ?msg ?h"
  let ?S = "\<lambda>db h pc e. \<lparr>ws_db = db, ws_hub = h, ws_at = pc, ws_edit = e\<rparr>"
  have "?step (?S db ?h WsRead None) (?S db ?h (WsCheck [(sid, name)] ?msg) None)"
    using ws_step.read_msg [of "?S db ?h WsRead None" ?msg True False role] assms(1) by (simp add: ws_received_def uuidStringsMapToTopics_def)
  moreover have "?step (?S db ?h (WsCheck [(sid, name)] ?msg) None) (?S db ?h (WsCheck [] ?msg) None)"
    using ws_step.check_ok [of "?S db ?h (WsCheck [(sid, name)] ?msg) None"] assms(2) by simp
  moreover have "?step (?S db ?h (WsCheck [] ?msg) None) (?S db ?h (WsSubscribe ?msg) None)"
    using ws_step.check_done [of "?S db ?h (WsCheck [] ?msg) None"] by simp
  moreover have "?step (?S db ?h (WsSubscribe ?msg) None) (?S db ?h1 WsRead None)"
    using ws_step.subscribe [of "?S db ?h (WsSubscribe ?msg) None"] by simp
  moreover have "?step (?S db ?h1 WsRead None) (?S db' ?h1 WsRead (Some None))"
    using ws_step.edit [of "?S db ?h1 WsRead None" True False None username db' role s] assms(3) by (simp add: range_map_def)
  moreover have "?step (?S db' ?h1 WsRead (Some None)) (?S db' (UpdatePermissions (fst (GetAvailableItems db')) username None ?h1) WsRead None)"
    using ws_step.update [of "?S db' ?h1 WsRead (Some None)"] by simp
  ultimately show ?thesis
    unfolding ws_start_def by (meson converse_rtranclp_into_rtranclp rtranclp.rtrancl_refl)
qed

text \<open>
  C38: a permission edit whose body has no permission map withdraws the stored permissions but not the subscriptions. Whenever a normal user may read
  an item, a run exists in which no edit falls between the checks of a message and its subscription, an administrator's edit without a map
  has been stored and told to the hub, the user has no permission left, and the next measurement of the item is still delivered.
\<close>

theorem websocket_nil_edit:
  assumes "fresh_connection username s db h" "role < AdminRole" "CheckPermission username sid name db" "has_room (hub_subs h s)"
  shows "\<exists>st. (ws_step True False role username s)\<^sup>*\<^sup>* (ws_start username s db h) st \<and> ws_at st = WsRead \<and> ws_edit st = None \<and>
    permitted username (ws_db st) = {} \<and>
    sub_Ch (fst (Publish m (Some (sid, name)) (hub_subs (ws_hub st), dataBroker (ws_hub st))) s) = sub_Ch (hub_subs h s) @ [m]"
proof -
  let ?msg = "[(sid, [name])]" and ?h = "ws_subscribe s [(sid, [name])] (ws_open username s h)"
  obtain db' where db': "EditPermission username [] db = (Inr (), db')" using EditPermission_none by blast
  let ?h1 = "UpdatePermissions (fst (GetAvailableItems db')) username None ?h"
  have wf: "wf_map (subs_of username ?h)" "wf_map (dataBroker ?h)" and web: "map_of (subs_of username ?h) s = Some connTypeWebBrowser"
    using assms(1) by (simp_all add: fresh_connection_def ws_subscribe_def)
  have subs: "hub_subs ?h1 s = hub_subs h s" using UpdatePermissions_browser [OF wf(1) web] by simp
  have kept: "map_of (dataBroker ?h1) s = Some (Some [(sid, name)])"
    unfolding UpdatePermissions_nil [OF wf] by (simp add: uuidStringsMapToTopics_def map_of_Subscribe)
  have "sub_Ch (fst (Publish m (Some (sid, name)) (hub_subs ?h1, dataBroker ?h1)) s) = sub_Ch (hub_subs ?h1 s) @ [m]"
    by (rule delivered [where xs = "[(sid, name)]"]) (use UpdatePermissions_wf [OF wf] assms(4) subs kept in simp_all)
  moreover have "permitted username db' = {}"
    using EditPermission_permitted [OF _ db'] assms(1) by (simp add: fresh_connection_def uuidStringsMapToTopics_def)
  ultimately show ?thesis
    using nil_edit_run [OF assms(2,3) db', of s h] subs by (intro exI conjI) (assumption, simp_all)
qed

text \<open>What an administrator's edit of another account does when it makes an administrator a normal user.\<close>

lemma demotion:
  assumes "env_um env = JwtManager lib jl j" "roles (api_db st) (ub_Username u) = Some AdminRole"
    and "ua_Role u = NormalUser" "ub_Password u = []" "ub_Username u \<noteq> []"
  shows "\<exists>st' av p. edit_other_user env u st = (writeOK, st') \<and> roles (api_db st') (ub_Username u) = Some NormalUser \<and>
    permissions_item_data (api_db st') = permissions_item_data (api_db st) \<and>
    api_hub st' = UpdatePermissions av (ub_Username u) (Some p) (api_hub st)"
proof -
  let ?n = "ub_Username u"
  obtain row where row: "map_of (users (api_db st)) ?n = Some row" "ur_role row = AdminRole"
    using assms(2) by (auto simp: roles_def)
  let ?db = "update_user ?n (\<lambda>r. r\<lparr>ur_role := ua_Role u, ur_email := ub_Email u, ur_live_camera := ua_LiveCamera u\<rparr>) (api_db st)"
  have "sql_count (\<lambda>k _. k = ?n) (users (api_db st)) \<noteq> 0"
    using row(1) sql_count_pos_iff [of "\<lambda>k _. k = ?n" "users (api_db st)"] by (auto dest!: map_of_SomeD)
  then have edit: "jwt_EditUser lib u (api_db st) = (Inr (), ?db)"
    using assms(3-5) by (simp add: jwt_EditUser_def txE_def bindE_def retE_def exec_update_user_def smallint_def role_defs)
  have "roles ?db ?n = Some NormalUser" using row assms(3) by (simp add: roles_update_user)
  moreover have "permissions_item_data ?db = permissions_item_data (api_db st)" by (simp add: update_user_def)
  ultimately show ?thesis
    using assms row edit
    by (auto simp: edit_other_user_def on_db_def JwtManager_def getUserFromDB_def readE_def user_of_row_def tryDB_def after_edit_user_def
      GetPermissions_def update_permissions_def on_hub_def ok_reply_def role_defs)
qed

text \<open>
  An administrator who becomes a normal user keeps an administrator's data connection. The role that
  \<open>DataWebsocket\<close> tests is the one of the request that opened the connection: after the edit of the account
  succeeded, the permission change has been told to the hub and every earlier subscription is restricted, the
  next message of the open connection subscribes to any item without a check, and measurements of an item
  the user may not read are delivered.
\<close>

theorem demoted_admin_unconfined:
  assumes "env_um env = JwtManager lib jl j" "roles (api_db st) (ub_Username u) = Some AdminRole"
    and "ua_Role u = NormalUser" "ub_Password u = []" "ub_Username u \<noteq> []"
    and "wf_map (dataBroker (api_hub st))" "wf_map (subs_of (ub_Username u) (api_hub st))"
    and "map_of (subs_of (ub_Username u) (api_hub st)) s = Some connTypeWebBrowser" "has_room (hub_subs (api_hub st) s)"
    and "AdminRole \<le> role" "\<not> CheckPermission (ub_Username u) sid name (api_db st)"
  shows "\<exists>st' ws. edit_other_user env u st = (writeOK, st') \<and> roles (api_db st') (ub_Username u) = Some NormalUser \<and>
    (ws_step True True role (ub_Username u) s)\<^sup>*\<^sup>* \<lparr>ws_db = api_db st', ws_hub = api_hub st', ws_at = WsRead, ws_edit = None\<rparr> ws \<and>
    \<not> CheckPermission (ub_Username u) sid name (ws_db ws) \<and>
    sub_Ch (fst (Publish m (Some (sid, name)) (hub_subs (ws_hub ws), dataBroker (ws_hub ws))) s) = sub_Ch (hub_subs (api_hub st) s) @ [m]"
proof -
  let ?step = "ws_step True True role (ub_Username u) s" and ?msg = "[(sid, [name])]"
  let ?S = "\<lambda>db h pc. \<lparr>ws_db = db, ws_hub = h, ws_at = pc, ws_edit = None\<rparr>"
  from demotion [OF assms(1-5)] obtain st' av p where st': "edit_other_user env u st = (writeOK, st')"
    "roles (api_db st') (ub_Username u) = Some NormalUser" "permissions_item_data (api_db st') = permissions_item_data (api_db st)"
    "api_hub st' = UpdatePermissions av (ub_Username u) (Some p) (api_hub st)" by blast
  let ?db = "api_db st'" and ?h = "api_hub st'"
  have "?step (?S ?db ?h WsRead) (?S ?db ?h (WsSubscribe ?msg))"
    using ws_step.read_msg [of "?S ?db ?h WsRead" ?msg True True role] assms(10) by (simp add: ws_received_def)
  moreover have "?step (?S ?db ?h (WsSubscribe ?msg)) (?S ?db (ws_subscribe s ?msg ?h) WsRead)"
    using ws_step.subscribe [of "?S ?db ?h (WsSubscribe ?msg)" ?msg True True role] by simp
  ultimately have run: "?step\<^sup>*\<^sup>* (?S ?db ?h WsRead) (?S ?db (ws_subscribe s ?msg ?h) WsRead)" by (meson converse_rtranclp_into_rtranclp rtranclp.rtrancl_refl)
  have subs: "hub_subs ?h s = hub_subs (api_hub st) s"
    unfolding st'(4) by (rule UpdatePermissions_browser [OF assms(7,8)])
  have "sub_Ch (fst (Publish m (Some (sid, name)) (hub_subs (ws_subscribe s ?msg ?h), dataBroker (ws_subscribe s ?msg ?h))) s) =
      sub_Ch (hub_subs (ws_subscribe s ?msg ?h) s) @ [m]"
    by (rule delivered [where xs = "[(sid, name)]"])
      (use UpdatePermissions_wf [OF assms(7,6)] assms(9) subs st'(4) in \<open>simp_all add: uuidStringsMapToTopics_def map_of_Subscribe\<close>)
  moreover have "\<not> CheckPermission (ub_Username u) sid name ?db" using assms(11) st'(3) by (simp add: CheckPermission_def)
  ultimately show ?thesis using st'(1,2) run subs by (intro exI [of _ st'] exI [of _ "?S ?db (ws_subscribe s ?msg ?h) WsRead"]) simp
qed

section \<open>Examples\<close>

definition ann_db :: tide_db where
  "ann_db = one_user_db\<lparr>permissions_item_data := [((''ann'', 7, ''water''), ())]\<rparr>"

lemma ann_fresh: "fresh_connection ''ann'' 3 ann_db (NewSyncHub 0 (\<lambda>_. NewSubscriber 10))"
  by (simp add: fresh_connection_def auth_ok_def perms_ok_def ann_db_def one_user_db_def empty_db_def NewSyncHub_def NewBroker_def
    subs_of_def map_index_def)

theorem websocket_confined_witness:
  "\<exists>st. (ws_step True True NormalUser ''ann'' 3)\<^sup>*\<^sup>* (ws_start ''ann'' 3 ann_db (NewSyncHub 0 (\<lambda>_. NewSubscriber 10))) st \<and>
    fst (publish_stream Publish [(ForwardData kMsgData (8, ''air'') \<lparr>dt_value = 0, dt_msec = 0\<rparr>, (8, ''air''))]
      (hub_subs (ws_hub st), dataBroker (ws_hub st))) 3 = hub_subs (ws_hub st) 3"
proof -
  let ?st = "ws_start ''ann'' 3 ann_db (NewSyncHub 0 (\<lambda>_. NewSubscriber 10))"
  let ?st' = "?st\<lparr>ws_at := ws_received NormalUser [(7, [''water''])]\<rparr>"
  have run: "(ws_step True True NormalUser ''ann'' 3)\<^sup>*\<^sup>* ?st ?st'"
    by (intro r_into_rtranclp ws_step.read_msg) (simp_all add: ws_start_def)
  show ?thesis
    by (rule exI [of _ ?st'], rule conjI [OF run], rule websocket_confined [OF ann_fresh _ run, THEN conjunct2])
      (auto simp: ws_start_def role_defs permitted_def CheckPermission_iff ann_db_def)
qed

theorem websocket_permission_race_witness:
  "\<exists>st. (ws_step False True NormalUser ''ann'' 3)\<^sup>*\<^sup>* (ws_start ''ann'' 3 ann_db (NewSyncHub 0 (\<lambda>_. NewSubscriber 10))) st \<and>
    permitted ''ann'' (ws_db st) = {}"
  using websocket_permission_race [OF ann_fresh, of NormalUser 7 "''water''"]
  by (force simp: role_defs CheckPermission_iff ann_db_def has_room_def NewSubscriber_def NewSyncHub_def)

theorem websocket_nil_edit_witness:
  "\<exists>st. (ws_step True False NormalUser ''ann'' 3)\<^sup>*\<^sup>* (ws_start ''ann'' 3 ann_db (NewSyncHub 0 (\<lambda>_. NewSubscriber 10))) st \<and>
    permitted ''ann'' (ws_db st) = {}"
  using websocket_nil_edit [OF ann_fresh, of NormalUser 7 "''water''"]
  by (force simp: role_defs CheckPermission_iff ann_db_def has_room_def NewSubscriber_def NewSyncHub_def)

definition admin_db :: tide_db where
  "admin_db = empty_db\<lparr>users := [(''eve'', demo_row 1)]\<rparr>"

definition eve_demoted :: user where
  "eve_demoted = \<lparr>ub_Username = ''eve'', ub_Password = [], ub_Email = [], ua_Role = NormalUser, ua_LiveCamera = False\<rparr>"

definition eve_state :: api_state where
  "eve_state = demo_state\<lparr>api_db := admin_db, api_hub := ws_open ''eve'' 3 (NewSyncHub 0 (\<lambda>_. NewSubscriber 10))\<rparr>"

theorem demoted_admin_unconfined_witness:
  "\<exists>st'. edit_other_user demo_env eve_demoted eve_state = (writeOK, st') \<and> roles (api_db st') ''eve'' = Some NormalUser"
proof -
  have "roles (api_db eve_state) (ub_Username eve_demoted) = Some AdminRole"
    "\<not> CheckPermission (ub_Username eve_demoted) 7 ''water'' (api_db eve_state)"
    "has_room (hub_subs (api_hub eve_state) 3)" "wf_map (dataBroker (api_hub eve_state))"
    by (simp_all add: eve_state_def eve_demoted_def admin_db_def empty_db_def roles_def demo_row_def role_defs CheckPermission_def sql_count_def
      has_room_def NewSyncHub_def NewSubscriber_def NewBroker_def)
  moreover have "subs_of (ub_Username eve_demoted) (api_hub eve_state) = [(3, connTypeWebBrowser)]"
    by (simp add: eve_state_def eve_demoted_def NewSyncHub_def subs_of_def ws_open_def TrackSubscriber_def map_index_def)
  ultimately show ?thesis
    using demoted_admin_unconfined [OF demo_env_um, of eve_state eve_demoted 3 AdminRole 7 "''water''"] by (auto simp: eve_demoted_def)
qed

end
