(* ===== verification/StationSession.thy ===== *)
theory StationSession
  imports StationStatus
begin

text \<open>
  A whole station session (\<open>StreamStation\<close>): what every handler keeps of the store
  (\<open>store_invariant\<close>), the registry of connections, and the station status when the session ends.
\<close>

section \<open>Invariants of the store\<close>

text \<open>A predicate every operation of the store keeps is kept by every handler and by a session.\<close>

locale store_invariant =
  fixes store :: "'s station_store" and P :: "'s \<Rightarrow> bool"
  assumes ops: "preserves P (StationIDByIdentifier store ident)" "preserves P (SetStationIP store sid ip)"
      "preserves P (ItemsLatest store sid devs)" "preserves P (LatestStatusLogRowID store sid)"
      "preserves P (UpdateStationStatus_op store sid st t)" "preserves P (SaveRpiStatus_op store sid v t)"
      "preserves P (UpdateItemStatus_op store sid n st t)" "preserves P (SaveDataHistory_op store sid n v t)"
      "preserves P (SaveItemStatusLog_op store sid r n st t)" "preserves P (UpdateAndSaveStatusLog_op store sid r n st t)"
begin

lemma store_call: "preserves P m \<Longrightarrow> preserves (\<lambda>sn. P (fst sn)) (fstE m)"
  by (rule preserves_fst)

lemma notify_keeps: "preserves (\<lambda>sn. P (fst sn)) (notify f)"
  unfolding notify_def by (rule preserves_snd_other)

lemmas handler_rules = store_call notify_keeps ops pres

lemma handleDataBatch_keeps: "preserves (\<lambda>sn. P (fst sn)) (handleDataBatch store nt sid replay ps)"
  unfolding handleDataBatch_def
proof (rule preserves_for)
  fix p
  show "preserves (\<lambda>sn. P (fst sn)) (data_point_step store nt sid replay p)"
    unfolding data_point_step_def Let_def
    by (intro preserves_bind preserves_if preserves_ignore store_call notify_keeps ops preserves_ret)
qed

lemma handleItemStatusBatch_keeps:
  "preserves (\<lambda>sn. P (fst sn)) (handleItemStatusBatch visit store nt sid ident replay logs)"
  unfolding handleItemStatusBatch_def replay_update_step_def [abs_def] replay_log_step_def [abs_def]
    status_log_step_def [abs_def] Let_def
  by (intro preserves_if preserves_bind preserves_for store_call notify_keeps ops preserves_ret)

lemma updateStationStatusAndNotify_keeps:
  "preserves (\<lambda>sn. P (fst sn)) (updateStationStatusAndNotify store nt now sid ident st)"
  unfolding updateStationStatusAndNotify_def
  by (intro preserves_if preserves_bind store_call notify_keeps ops preserves_ret)

lemma station_frame_keeps:
  assumes "srv_Store s = store" and "\<And>info. preserves (\<lambda>sn. P (fst sn)) (srv_InfoSyncer s sid info)"
  shows "preserves (\<lambda>sn. P (fst sn)) (station_frame visit s sid ident frame)"
  unfolding station_frame_def assms(1)
  by (auto split: station_message.split simp: assms(2)
      intro!: handleDataBatch_keeps handleItemStatusBatch_keeps store_call ops pres)

lemma station_loop_keeps:
  assumes "srv_Store s = store" and "\<And>info. preserves (\<lambda>sn. P (fst sn)) (srv_InfoSyncer s sid info)"
  shows "preserves (\<lambda>sn. P (fst sn)) (station_loop visit s sid ident rs)"
proof (induction rs)
  case Nil
  then show ?case by (simp add: pres)
next
  case (Cons r rs)
  with station_frame_keeps [OF assms] show ?case by (cases r) (auto intro!: pres)
qed

text \<open>The store component of a session's state.\<close>

definition in_session :: "(('s, 'n, 'c) session_state) \<Rightarrow> bool" where
  "in_session st = P (fst (fst (fst st)))"

lemma in_session_serv: "preserves (\<lambda>sn. P (fst sn)) m \<Longrightarrow> preserves in_session (fstE (fstE m))"
  by (simp add: preserves_def in_session_def fstE_def case_prod_unfold)

lemma in_session_other: "preserves in_session (sndE m)" "preserves in_session (fstE (sndE m'))"
  by (simp_all add: preserves_def in_session_def sndE_def fstE_def case_prod_unfold)

lemmas session_rules = in_session_serv in_session_other store_call ops updateStationStatusAndNotify_keeps

lemma station_serve_keeps:
  assumes "srv_Store s = store" and "\<And>info. preserves (\<lambda>sn. P (fst sn)) (srv_InfoSyncer s sid info)"
  shows "preserves in_session (station_serve visit s now ip sid info)"
proof -
  have "preserves in_session (\<lambda>st. fstE (fstE (station_loop visit s sid ident (inbox (snd st)))) st)" for ident
    by (rule preservesI) (rule preservesD [OF in_session_serv [OF station_loop_keeps [OF assms]]])
  then show ?thesis
    unfolding station_serve_def assms(1)
    by (intro session_rules preserves_bind preserves_wrap assms(2))
qed

lemma StreamStation_keeps:
  assumes "srv_Store s = store" and "\<And>sid info. preserves (\<lambda>sn. P (fst sn)) (srv_InfoSyncer s sid info)"
  shows "preserves in_session (StreamStation visit s now1 now2 conn ip)"
  unfolding StreamStation_def registered_part_def assms(1)
  by (intro session_rules station_serve_keeps assms preserves_bind preserves_wrap preserves_if preserves_finally
      preserves_ignore preserves_throw)

end

lemma preserves_changed [pres]: "preserves P m \<Longrightarrow> preserves P (changedE m)"
  unfolding changedE_def by (intro preserves_bind preserves_ret)

interpretation db_ok_store: store_invariant DBStore db_ok
  by unfold_locales (auto simp: DBStore_def DBStore_ItemsLatest_def intro!: pres)

text \<open>A station once in the table stays there: no operation of the store deletes one.\<close>

lemma known_stations_kept:
  "preserves (\<lambda>db. db_known db sid) (EditStationNotSync i ip)"
  "preserves (\<lambda>db. db_known db sid) (UpdateStationStatus i st t)"
  "preserves (\<lambda>db. db_known db sid) (SaveRpiStatus i v t)"
  "preserves (\<lambda>db. db_known db sid) (UpdateItemStatus i n st t)"
  "preserves (\<lambda>db. db_known db sid) (SaveItemStatusLog i r n st t)"
  by (auto simp: preserves_def db_known_def EditStationNotSync_def modifyE_def update_station_def
      UpdateStationStatus_def SaveRpiStatus_def UpdateItemStatus_def SaveItemStatusLog_def Let_def)

lemma known_SaveDataHistory: "preserves (\<lambda>db. db_known db sid) (SaveDataHistory i n v t)"
  unfolding SaveDataHistory_def
  by (intro preserves_if preserves_throw preserves_bind preserves_read preserves_ret)
     (simp add: preserves_def modifyE_def db_known_def)

interpretation db_known_store: store_invariant DBStore "\<lambda>db. db_known db sid" for sid
  by unfold_locales
     (auto simp: DBStore_def DBStore_ItemsLatest_def UpdateAndSaveStatusLog_def
       intro!: pres known_stations_kept known_SaveDataHistory)

section \<open>The registry\<close>

definition reg_is :: "'c registry \<Rightarrow> ('s, 'n, 'c) session_state \<Rightarrow> bool" where
  "reg_is R st \<longleftrightarrow> snd (fst st) = R"

lemma reg_is_kept: "preserves (reg_is R) (fstE (fstE m))" "preserves (reg_is R) (sndE m')"
  by (simp_all add: preserves_def reg_is_def fstE_def sndE_def case_prod_unfold)

lemma reg_station_serve: "preserves (reg_is R) (station_serve visit s now ip sid info)"
proof -
  have "preserves (reg_is R) (\<lambda>st. fstE (fstE (station_loop visit s sid ident (inbox (snd st)))) st)" for ident
    by (rule preservesI) (rule preservesD [OF reg_is_kept(1)])
  then show ?thesis
    unfolding station_serve_def by (intro reg_is_kept preserves_bind preserves_wrap)
qed

lemma reg_registered_part: "preserves (reg_is R) (registered_part visit s t1 t2 ip ident sid)"
  unfolding registered_part_def
  by (intro reg_is_kept reg_station_serve preserves_bind preserves_if preserves_throw preserves_finally preserves_ignore)

lemma delete_update_absent: "map_of R sid = None \<Longrightarrow> map_of (AList.delete sid (AList.update sid c R)) = map_of R"
  by (simp add: fun_eq_iff)

text \<open>
  C24: whatever the peer sends and whichever calls fail, the registry of connections after a session
  is the registry before it: a session removes its own registration and never another one's.
\<close>

theorem registry_restored:
  "map_of (snd (fst (snd (StreamStation visit s t1 t2 conn ip st)))) = map_of (snd (fst st))"
proof -
  let ?R = "snd (fst st)"
  let ?P = "\<lambda>st'. map_of (snd (fst st')) = map_of ?R"
  have outer: "preserves (reg_is ?R) (sndE recvHello)"
    "\<And>i. preserves (reg_is ?R) (wrapE ''station not found'' (storeE (StationIDByIdentifier (srv_Store s) i)))"
    by (intro reg_is_kept preserves_wrap)+
  have inner: "?P (snd (bindE (regE (reg_LoadOrStore sid conn)) (\<lambda>loaded.
       if loaded then throwE err_already_connected
       else finallyE (regE (reg_Delete sid)) (registered_part visit s t1 t2 ip ident sid)) st'))"
    if "reg_is ?R st'" for sid ident st'
  proof (cases "map_of ?R sid")
    case (Some c)
    with that show ?thesis
      by (simp add: eff_simps reg_LoadOrStore_def reg_is_def case_prod_unfold)
  next
    case None
    let ?st = "((fst (fst st'), AList.update sid conn ?R), snd st')"
    have "reg_is (AList.update sid conn ?R) (snd (registered_part visit s t1 t2 ip ident sid ?st))"
      by (rule preservesD [OF reg_registered_part]) (simp add: reg_is_def)
    then have "?P (snd (finallyE (regE (reg_Delete sid)) (registered_part visit s t1 t2 ip ident sid) ?st))"
      using None by (simp add: finallyE_def case_prod_unfold eff_simps reg_Delete_def reg_is_def delete_update_absent)
    with that None show ?thesis
      by (simp add: bindE_def fstE_def sndE_def reg_LoadOrStore_def reg_is_def case_prod_unfold)
  qed
  have "reg_is ?R st" by (simp add: reg_is_def)
  then show ?thesis
    unfolding StreamStation_def
    by (rule bindE_post [where Q = ?P, OF outer(1)], simp add: reg_is_def)
       (rule bindE_post [where Q = ?P, OF outer(2)], assumption, simp add: reg_is_def, rule inner)
qed

section \<open>The status a session leaves behind\<close>

definition station_status_is :: "uuid \<Rightarrow> status \<Rightarrow> unix_ms \<Rightarrow> tide_db \<Rightarrow> bool" where
  "station_status_is sid st t db =
     (case map_of (stations db) sid of
        None \<Rightarrow> False
      | Some r \<Rightarrow> st_status r = st \<and> st_status_changed_at r = t)"

lemma UpdateStationStatus_sets:
  "db_known db sid \<Longrightarrow> station_status_is sid st t (snd (UpdateStationStatus sid st t db))"
  by (auto simp: db_known_def station_status_is_def UpdateStationStatus_def Let_def)

lemma updateStationStatusAndNotify_sets:
  assumes "db_known (fst sn) sid"
  shows "station_status_is sid st t (fst (snd (updateStationStatusAndNotify DBStore nt t sid ident st sn)))"
proof -
  let ?r = "UpdateStationStatus sid st t (fst sn)"
  have "fst ?r = Inr (sql_count (\<lambda>k r. k = sid \<and> (st_status r \<noteq> st \<or> st_status_changed_at r \<noteq> t)) (stations (fst sn)))"
    by (simp add: UpdateStationStatus_def Let_def)
  with UpdateStationStatus_sets [OF assms, of st t] show ?thesis
    by (cases ?r) (simp add: updateStationStatusAndNotify_def DBStore_def changedE_def eff_simps notify_def)
qed

lemma GetLocalStationIdByIdentifier_known:
  assumes "GetLocalStationIdByIdentifier ident db = (Inr sid, db')"
  shows "db_known db sid \<and> db' = db"
proof -
  let ?P = "\<lambda>(k, r). st_identifier r = ident \<and> \<not> st_upstream r \<and> st_deleted_at r = None"
  have q: "GetLocalStationIdByIdentifier ident db =
      (case filter ?P (stations db) of [] \<Rightarrow> Inl ErrNoRows | x # _ \<Rightarrow> Inr (fst x), db)"
    by (simp only: GetLocalStationIdByIdentifier_def readE_def)
  show ?thesis
  proof (cases "filter ?P (stations db)")
    case Nil
    with assms q show ?thesis by simp
  next
    case (Cons x xs)
    then have "x \<in> set (filter ?P (stations db))" by simp
    then have "fst x \<in> fst ` set (stations db)" by auto
    with assms q Cons show ?thesis by (simp add: db_known_def map_of_eq_None_iff)
  qed
qed

lemma registered_part_disconnects:
  assumes "srv_Store s = DBStore"
    and "\<And>info. preserves (\<lambda>sn. db_known (fst sn) sid) (srv_InfoSyncer s sid info)"
    and "db_known (fst (fst (fst st))) sid"
    and "inbox (snd st) = Inr (StationInfoFrame info) # rest" and "send_results (snd st) = []"
    and "pb_identifier info = ident" "ident \<noteq> []" "si_devices (PBToStationInfo info) \<noteq> []"
  shows "station_status_is sid Disconnected t2 (fst (fst (fst (snd (registered_part visit s t1 t2 ip ident sid st)))))"
proof -
  let ?info = "PBToStationInfo info"
  let ?str = "(snd st)\<lparr>outbox := outbox (snd st) @ [ServerHello ''sync-v2''], inbox := rest\<rparr>"
  let ?st = "(fst st, ?str)"
  have ident: "si_identifier ?info = ident" using assms(6) by (simp add: PBToStationInfo_def)
  have h: "sndE (Send (ServerHello ''sync-v2'')) st = (Inr (), (fst st, (snd st)\<lparr>outbox := outbox (snd st) @ [ServerHello ''sync-v2'']\<rparr>))"
    "sndE recvStationInfo (fst st, (snd st)\<lparr>outbox := outbox (snd st) @ [ServerHello ''sync-v2'']\<rparr>) = (Inr ?info, ?st)"
    using assms(4-8) ident by (simp_all add: eff_simps Send_def recvStationInfo_def Recv_def Let_def)
  have "registered_part visit s t1 t2 ip ident sid st =
      finallyE (ignoreE (servE (updateStationStatusAndNotify DBStore (srv_Notifier s) t2 sid ident Disconnected)))
              (station_serve visit s t1 ip sid ?info) ?st"
    using h ident assms(1) by (simp add: registered_part_def bindE_Inr)
  moreover have "db_known (fst (fst (fst (snd (station_serve visit s t1 ip sid ?info ?st))))) sid"
    using preservesD [OF db_known_store.station_serve_keeps [OF assms(1,2)], of ?st] assms(3)
    by (simp add: db_known_store.in_session_def)
  ultimately show ?thesis
    using updateStationStatusAndNotify_sets
    by (simp add: finallyE_def ignoreE_def fstE_def case_prod_unfold)
qed

text \<open>
  Once the handshake of a session is through (hello with a known identifier, no session of that
  station in the registry, station info with the same identifier), the session leaves the station
  marked \<open>Disconnected\<close> at the time of its end, however it ends: with an error of a handler, of the
  stream or of any later call.
\<close>

theorem session_ends_disconnected:
  assumes "srv_Store s = DBStore"
    and "\<And>info. preserves (\<lambda>sn. db_known (fst sn) sid) (srv_InfoSyncer s sid info)"
    and "GetLocalStationIdByIdentifier ident db = (Inr sid, db)" and "map_of reg sid = None"
    and "inbox str = Inr (ClientHello ident ver) # Inr (StationInfoFrame info) # rest" and "send_results str = []"
    and "TrimSpace ident \<noteq> []" "pb_identifier info = ident" "si_devices (PBToStationInfo info) \<noteq> []"
  shows "station_status_is sid Disconnected t2
           (fst (fst (fst (snd (StreamStation visit s t1 t2 conn ip (((db, n), reg), str))))))"
proof -
  let ?pre = "((db, n), reg)"
  let ?str = "str\<lparr>inbox := Inr (StationInfoFrame info) # rest\<rparr>"
  let ?st = "(((db, n), AList.update sid conn reg), ?str)"
  have ident: "ident \<noteq> []" using assms(7) by auto
  have h: "sndE recvHello (?pre, str) = (Inr ident, (?pre, ?str))"
    "wrapE ''station not found'' (storeE (StationIDByIdentifier (srv_Store s) ident)) (?pre, ?str) = (Inr sid, (?pre, ?str))"
    "regE (reg_LoadOrStore sid conn) (?pre, ?str) = (Inr False, ?st)"
    using assms by (simp_all add: eff_simps recvHello_def Recv_def DBStore_def reg_LoadOrStore_def)
  have "StreamStation visit s t1 t2 conn ip (?pre, str) =
      finallyE (regE (reg_Delete sid)) (registered_part visit s t1 t2 ip ident sid) ?st"
    using h by (simp add: StreamStation_def bindE_Inr) (simp add: bindE_def)
  moreover have "station_status_is sid Disconnected t2 (fst (fst (fst (snd (registered_part visit s t1 t2 ip ident sid ?st)))))"
    using assms ident GetLocalStationIdByIdentifier_known [OF assms(3)]
    by (intro registered_part_disconnects [where info = info and rest = rest]) simp_all
  ultimately show ?thesis
    by (simp add: finallyE_def eff_simps case_prod_unfold)
qed

definition idle_server :: "(tide_db, station_event list) station_server" where
  "idle_server = \<lparr>srv_Store = DBStore, srv_InfoSyncer = (\<lambda>_ _. retE ()), srv_Notifier = event_notifier\<rparr>"

definition hello_stream :: "station_message stream" where
  "hello_stream = new_stream [ClientHello ''s'' ''v2'',
     StationInfoFrame \<lparr>pb_identifier = ''s'', pb_devices = [(''d'', [(''w'', ''water'')])], pb_cameras = []\<rparr>]"

theorem session_ends_disconnected_witness:
  "GetLocalStationIdByIdentifier ''s'' one_item_db = (Inr 7, one_item_db) \<and>
   station_status_is 7 Disconnected 99
     (fst (fst (fst (snd (StreamStation id idle_server 1 99 True ''1.2.3.4'' (((one_item_db, []), []), hello_stream))))))"
proof -
  have q: "GetLocalStationIdByIdentifier ''s'' one_item_db = (Inr 7, one_item_db)"
    by (simp add: GetLocalStationIdByIdentifier_def readE_def one_item_db_def)
  have "si_devices (PBToStationInfo \<lparr>pb_identifier = ''s'', pb_devices = [(''d'', [(''w'', ''water'')])], pb_cameras = []\<rparr>) \<noteq> []"
    by (simp add: PBToStationInfo_def copy_devices_def)
  with q session_ends_disconnected [of idle_server 7 "''s''" one_item_db "[]" hello_stream "''v2''"
      "\<lparr>pb_identifier = ''s'', pb_devices = [(''d'', [(''w'', ''water'')])], pb_cameras = []\<rparr>" "[]" 99 id 1 True "''1.2.3.4''" "[]"]
  show ?thesis
    by (simp add: idle_server_def hello_stream_def new_stream_def preserves_ret TrimSpace_def trim_def trim_right_def is_space_def)
qed

end
