(* ===== verification/StationInfoSync.thy ===== *)
theory StationInfoSync
  imports StationSession SyncHub
begin

text \<open>
  Reconciling the tables with the devices and items a station reports: \<open>SyncStationInfo\<close> of
  \<^verbatim>\<open>tide_server/controller/station_sync_func.go\<close>, and its adapter in \<^verbatim>\<open>syncv2_adapters.go\<close>.

  The state is the database paired with the hub; \<open>'n info_hub\<close> holds the two calls on the hub. The
  Go function returns a bool; here \<open>Inl\<close> is the return of \<^verbatim>\<open>false\<close>. \<open>map_orders\<close> are the orders in
  which Go walks the three maps the function builds.
\<close>

record 'n info_hub =
  ih_publish :: "hub_message \<Rightarrow> 'n \<Rightarrow> 'n"
  ih_add_items :: "station_item list result \<Rightarrow> 'n \<Rightarrow> 'n"

record map_orders =
  vo_devices :: "string list \<Rightarrow> string list"
  vo_old_items :: "(string, item) go_map \<Rightarrow> (string, item) go_map"
  vo_new_items :: "(string, string \<times> string) go_map \<Rightarrow> (string, string \<times> string) go_map"

definition new_device :: "uuid \<Rightarrow> string \<Rightarrow> device" where
  "new_device sid n = \<lparr>d_StationId = sid, d_Name = n, d_Specs = None, d_LastMaintenance = 0\<rparr>"

definition new_item :: "uuid \<Rightarrow> string \<Rightarrow> string \<Rightarrow> string \<Rightarrow> item" where
  "new_item sid n ty dev = \<lparr>i_StationId = sid, i_Name = n, i_Type = ty, i_DeviceName = dev, i_Status = [],
     i_StatusChangedAt = 0, i_Available = False\<rparr>"

text \<open>\<open>newItems\<close>: item name to its type and device; the last entry for a name wins.\<close>

definition collect_items :: "string_map_map \<Rightarrow> (string, string \<times> string) go_map" where
  "collect_items devs =
     fold (\<lambda>(dev, its) m. fold (\<lambda>(ty, n). AList.update n (ty, dev)) its m) devs []"

definition add_device_step :: "'n info_hub \<Rightarrow> uuid \<Rightarrow> string list \<Rightarrow> string \<Rightarrow> (tide_db \<times> 'n, unit) eff" where
  "add_device_step ih sid oldDevices dev =
     (if dev \<in> set oldDevices then retE ()
      else bindE (fstE (EditDevice (new_device sid dev))) (\<lambda>_.
        notify (ih_publish ih (SendMsg kMsgSyncDevice (BDevice (new_device sid dev))))))"

definition del_device_step :: "'n info_hub \<Rightarrow> uuid \<Rightarrow> string_map_map \<Rightarrow> string \<Rightarrow> (tide_db \<times> 'n, unit) eff" where
  "del_device_step ih sid devs dev =
     (if dev \<in> fst ` set devs then retE ()
      else bindE (fstE (DelDevice sid dev)) (\<lambda>_.
        notify (ih_publish ih (SendMsg kMsgDelDevice (BDevice (new_device sid dev))))))"

definition del_item_step ::
  "'n info_hub \<Rightarrow> uuid \<Rightarrow> (string, string \<times> string) go_map \<Rightarrow> string \<Rightarrow> (tide_db \<times> 'n, unit) eff" where
  "del_item_step ih sid newItems n =
     (if map_of newItems n \<noteq> None then retE ()
      else bindE (fstE (DelItem sid n)) (\<lambda>_.
        notify (ih_publish ih (SendMsg kMsgDelItem (BItem (new_item sid n [] []))))))"

text \<open>The test whether an item changed, as the code has it: it compares the old name, not the old
  device name, with the new device name.\<close>

definition item_changed :: "(string, item) go_map \<Rightarrow> string \<Rightarrow> string \<Rightarrow> string \<Rightarrow> bool" where
  "item_changed oldItems n ty dev =
     (case map_of oldItems n of None \<Rightarrow> True | Some old \<Rightarrow> i_Name old \<noteq> dev \<or> i_Type old \<noteq> ty)"

definition edit_item_step ::
  "'n info_hub \<Rightarrow> uuid \<Rightarrow> (string, item) go_map \<Rightarrow> string \<times> string \<times> string \<Rightarrow> (tide_db \<times> 'n, unit) eff" where
  "edit_item_step ih sid oldItems x =
     (case x of (n, ty, dev) \<Rightarrow>
        if \<not> item_changed oldItems n ty dev then retE ()
        else bindE (fstE (EditItem (new_item sid n ty dev))) (\<lambda>_.
          notify (ih_publish ih (SendMsg kMsgSyncItem (BItem (new_item sid n ty dev))))))"

definition cameras_json :: "string list \<Rightarrow> json" where
  "cameras_json cams = JArr (map JStr cams)"

definition cameras_body :: "uuid \<Rightarrow> json \<Rightarrow> station" where
  "cameras_body sid cams = \<lparr>s_Id = sid, s_Identifier = [], s_Name = [], s_IpAddr = [], s_Location = None, s_Partner = None,
     s_Cameras = Some cams, s_Status = [], s_StatusChangedAt = 0, s_Upstream = False\<rparr>"

text \<open>\<^verbatim>\<open>json.Marshal\<close> of a nil slice is \<open>null\<close>; \<open>cams_nil\<close> tells a nil from an empty slice.\<close>

definition sync_cameras :: "'n info_hub \<Rightarrow> uuid \<Rightarrow> bool \<Rightarrow> string list \<Rightarrow> (tide_db \<times> 'n, unit) eff" where
  "sync_cameras ih sid cams_nil cams =
     (let j = (if cams_nil then JNull else cameras_json cams) in
      bindE (fstE (SyncStationCannotEdit sid (Some j))) (\<lambda>n.
        if 0 < n then notify (ih_publish ih (SendMsg kMsgSyncStationCannotEdit (BStation (cameras_body sid j)))) else retE ()))"

definition old_items_map :: "item list \<Rightarrow> (string, item) go_map" where
  "old_items_map is = fold (\<lambda>i. AList.update (i_Name i) i) is []"

definition SyncStationInfo :: "'n info_hub \<Rightarrow> map_orders \<Rightarrow> bool \<Rightarrow> uuid \<Rightarrow> station_info \<Rightarrow> (tide_db \<times> 'n, unit) eff" where
  "SyncStationInfo ih vo cams_nil sid info =
     bindE (fstE (GetDevices sid)) (\<lambda>ds. let oldDevices = remdups (map d_Name ds) in
     bindE (fstE (GetItems sid)) (\<lambda>is. let oldItems = old_items_map is; newItems = collect_items (si_devices info) in
     bindE (forE (add_device_step ih sid oldDevices) (map fst (si_devices info))) (\<lambda>_.
     bindE (forE (del_device_step ih sid (si_devices info)) (vo_devices vo oldDevices)) (\<lambda>_.
     bindE (forE (del_item_step ih sid newItems) (map fst (vo_old_items vo oldItems))) (\<lambda>_.
     bindE (forE (edit_item_step ih sid oldItems) (vo_new_items vo newItems)) (\<lambda>_.
     bindE (if \<exists>x \<in> set newItems. map_of oldItems (fst x) = None
            then bindE (fstE (tryE GetAvailableItems)) (\<lambda>av. notify (ih_add_items ih av)) else retE ()) (\<lambda>_.
       sync_cameras ih sid cams_nil (si_cameras info))))))))"

definition err_sync_station_info :: go_error where
  "err_sync_station_info = ErrorString ''failed to sync station info''"

text \<open>The adapter: any failure becomes one error. A decoded protobuf list without elements is nil.\<close>

definition syncV2StationInfoSyncer :: "'n info_hub \<Rightarrow> map_orders \<Rightarrow> uuid \<Rightarrow> station_info \<Rightarrow> (tide_db \<times> 'n, unit) eff" where
  "syncV2StationInfoSyncer ih vo sid info =
     bindE (tryE (SyncStationInfo ih vo (si_cameras info = []) sid info)) (\<lambda>r.
       if isOk r then retE () else throwE err_sync_station_info)"

section \<open>The adapters on the hub (\<open>syncv2_adapters.go\<close>)\<close>

definition syncV2StationNotifier :: "sync_hub notifier" where
  "syncV2StationNotifier =
     \<lparr>PublishMissData = (\<lambda>k d. hub_Publish BrokerMissingData (ForwardData kMsgMissData k d) (Some k)),
      PublishRealtimeData = (\<lambda>k d gpio. PublishDelayedData (ForwardData (if gpio then kMsgDataGpio else kMsgData) k d) (Some k)),
      PublishMissItemStatus = (\<lambda>f. hub_Publish BrokerConfig (SendMsg kMsgMissItemStatus (BFullItemStatus f)) None),
      PublishUpdateItemStatus = (\<lambda>f. hub_Publish BrokerStatus (SendMsg kMsgUpdateItemStatus (BFullItemStatus f)) None),
      PublishStationStatus = (\<lambda>s. hub_Publish BrokerStatus (SendMsg kMsgUpdateStationStatus (BStationStatus s)) None)\<rparr>"

definition hub_info :: "(string \<Rightarrow> int result) \<Rightarrow> (string \<Rightarrow> uuid_strings_map result) \<Rightarrow> sync_hub info_hub" where
  "hub_info getRole getPermissions =
     \<lparr>ih_publish = (\<lambda>m. hub_Publish BrokerConfig m None), ih_add_items = BroadcastAddItems getRole getPermissions\<rparr>"

section \<open>Invariants\<close>

lemma notify_pres: "preserves (\<lambda>sn. P (fst sn)) (notify f)"
  unfolding notify_def by (rule preserves_snd_other)

text \<open>A predicate on the tables that the six operations keep is kept by the whole reconciliation.\<close>

lemma SyncStationInfo_preserves:
  assumes "\<And>d. preserves P (EditDevice d)" "\<And>sid n. preserves P (DelDevice sid n)" "\<And>sid n. preserves P (DelItem sid n)"
    "\<And>i. preserves P (EditItem i)" "\<And>sid c. preserves P (SyncStationCannotEdit sid c)"
  shows "preserves (\<lambda>sn. P (fst sn)) (SyncStationInfo ih vo cn sid info)"
proof -
  have steps: "preserves (\<lambda>sn. P (fst sn)) (add_device_step ih sid od d)"
    "preserves (\<lambda>sn. P (fst sn)) (del_device_step ih sid devs d)"
    "preserves (\<lambda>sn. P (fst sn)) (del_item_step ih sid ni d)"
    "preserves (\<lambda>sn. P (fst sn)) (sync_cameras ih sid cn cams)" for od d devs ni cams
    unfolding add_device_step_def del_device_step_def del_item_step_def sync_cameras_def Let_def
    by (intro preserves_if preserves_bind preserves_fst preserves_ret notify_pres assms)+
  have step4: "preserves (\<lambda>sn. P (fst sn)) (edit_item_step ih sid oi x)" for oi x
    unfolding edit_item_step_def
    by (cases x) (auto intro!: preserves_if preserves_bind preserves_fst preserves_ret notify_pres assms)
  show ?thesis
    unfolding SyncStationInfo_def Let_def
    by (intro preserves_bind preserves_for preserves_if preserves_fst preserves_try preserves_ret notify_pres steps step4
        preserves_station_reads preserves_GetItems preserves_GetAvailableItems)
qed

lemma syncer_preserves:
  assumes "preserves (\<lambda>sn. P (fst sn)) (SyncStationInfo ih vo (si_cameras info = []) sid info)"
  shows "preserves (\<lambda>sn. P (fst sn)) (syncV2StationInfoSyncer ih vo sid info)"
  unfolding syncV2StationInfoSyncer_def
  by (intro preserves_bind preserves_try preserves_if preserves_ret preserves_throw assms)

lemma known_config_ops:
  "preserves (\<lambda>db. db_known db u) (EditDevice d)" "preserves (\<lambda>db. db_known db u) (DelDevice sid n)"
  "preserves (\<lambda>db. db_known db u) (DelItem sid n)" "preserves (\<lambda>db. db_known db u) (SyncStationCannotEdit sid c)"
  by (auto simp: preserves_def db_known_def EditDevice_def DelDevice_def delete_devices_def DelItem_def
      SyncStationCannotEdit_def Let_def split: option.split)

lemma known_EditItem: "preserves (\<lambda>db. db_known db u) (EditItem i)"
  unfolding EditItem_def
  by (rule preserves_bind) (auto simp: preserves_def db_known_def MakeSureTableExist_def Let_def)

definition hub_server ::
  "'n info_hub \<Rightarrow> map_orders \<Rightarrow> 'n notifier \<Rightarrow> (tide_db, 'n) station_server" where
  "hub_server ih vo nt = \<lparr>srv_Store = DBStore, srv_InfoSyncer = syncV2StationInfoSyncer ih vo, srv_Notifier = nt\<rparr>"

text \<open>
  A whole station session on the server's own store and reconciliation keeps the table
  invariant, whatever the peer sends and however the session ends.
\<close>

theorem session_keeps_tables:
  assumes "db_ok (fst (fst (fst st)))"
  shows "db_ok (fst (fst (fst (snd (StreamStation visit (hub_server ih vo nt) t1 t2 conn ip st)))))"
proof -
  have "preserves (\<lambda>sn. db_ok (fst sn)) (srv_InfoSyncer (hub_server ih vo nt) sid info)" for sid info
    unfolding hub_server_def station_server.simps
    by (intro syncer_preserves SyncStationInfo_preserves db_ok_EditDevice db_ok_DelDevice db_ok_DelItem db_ok_EditItem
        db_ok_SyncStationCannotEdit)
  from preservesD [OF db_ok_store.StreamStation_keeps [of "hub_server ih vo nt", OF _ this], of st] assms show ?thesis
    by (simp add: hub_server_def db_ok_store.in_session_def)
qed

definition silent_hub :: "unit info_hub" where
  "silent_hub = \<lparr>ih_publish = (\<lambda>_ u. u), ih_add_items = (\<lambda>_ u. u)\<rparr>"

definition list_orders :: map_orders where
  "list_orders = \<lparr>vo_devices = id, vo_old_items = rev, vo_new_items = rev\<rparr>"

definition silent_notifier :: "unit notifier" where
  "silent_notifier = \<lparr>PublishMissData = (\<lambda>_ _ u. u), PublishRealtimeData = (\<lambda>_ _ _ u. u),
     PublishMissItemStatus = (\<lambda>_ u. u), PublishUpdateItemStatus = (\<lambda>_ u. u), PublishStationStatus = (\<lambda>_ u. u)\<rparr>"

theorem session_keeps_tables_witness:
  "db_ok empty_db \<and>
   db_ok (fst (fst (fst (snd (StreamStation id (hub_server silent_hub list_orders silent_notifier) 1 2 True ''ip''
     (((empty_db, ()), []), hello_stream))))))"
  using session_keeps_tables [of "(((empty_db, ()), []), hello_stream)" id silent_hub list_orders silent_notifier 1 2 True "''ip''"]
    db_ok_empty by simp

end
