(* ===== verification/V1Station.thy ===== *)
theory V1Station
  imports StationInfoSync StationClient
begin

text \<open>
  The first version of the station protocol, JSON values over a multiplexed TCP connection: the
  server's end in \<^verbatim>\<open>tide_server/controller/station_sync.go\<close>, \<^verbatim>\<open>sync_common.go\<close> and the second half
  of \<^verbatim>\<open>station_sync_func.go\<close>, the station's end in \<^verbatim>\<open>tide_client/controller/station_conn.go\<close>.

  What each call of \<^verbatim>\<open>Decode\<close> returns is a field of \<open>v1_input\<close>, so that every outcome of the JSON
  decoder is covered; the values the server encodes go to a stream. A Go function that returns
  \<^verbatim>\<open>false\<close> is a computation that fails here. \<open>visit\<close> is the order in which \<^verbatim>\<open>range\<close> walks the
  map of newest entries; the decoded maps are lists in the order of their walk.
\<close>

text \<open>A message of the realtime phase: its type and the outcome of decoding its body.\<close>

datatype v1_msg =
    V1Data "(string \<times> data_time) result"
  | V1Gpio "(string \<times> data_time) result"
  | V1Rpi "(float64 \<times> unix_ms) result"
  | V1Status "row_item_status result"
  | V1Other

type_synonym miss_data = "(string, data_time list) go_map"

text \<open>\<open>v1_info\<close> also tells whether the camera list is nil.\<close>

record v1_input =
  v1_info :: "(bool \<times> station_info) result"
  v1_missData :: "miss_data result"
  v1_missLogs :: "row_item_status list result"
  v1_msgs :: "v1_msg result list"

datatype v1_reply = V1ItemsLatest "(string, int) go_map" | V1RowId int

type_synonym hub_state = "tide_db \<times> sync_hub"
type_synonym 'c v1_state = "(hub_state \<times> 'c registry) \<times> v1_reply stream"
type_synonym index_order = "(string, nat) go_map \<Rightarrow> (string, nat) go_map"

section \<open>The server's end\<close>

definition v1_return :: go_error where "v1_return = ErrorString ''return''"

definition updateStationStatusAndBroadcast :: "unix_ms \<Rightarrow> uuid \<Rightarrow> string \<Rightarrow> status \<Rightarrow> (hub_state, unit) eff" where
  "updateStationStatusAndBroadcast now sid identifier status =
     bindE (fstE (UpdateStationStatus sid status now)) (\<lambda>n.
       if 0 < n then notify (hub_Publish BrokerStatus (SendMsg kMsgUpdateStationStatus (BStationStatus
         \<lparr>ss_station_id = sid, ss_identifier = identifier, ss_status = status, ss_changed_at = now\<rparr>)) None)
       else retE ())"

definition WriteItemsLatest :: "uuid \<Rightarrow> string_map_map \<Rightarrow> ('c v1_state, unit) eff" where
  "WriteItemsLatest sid devs =
     bindE (fstE (fstE (fstE (GetItemsLatest sid (zero_items devs))))) (\<lambda>itemsLatest.
       sndE (Send (V1ItemsLatest itemsLatest)))"

definition WriteLatestStatusLogRowId :: "uuid \<Rightarrow> ('c v1_state, unit) eff" where
  "WriteLatestStatusLogRowId sid =
     bindE (fstE (fstE (fstE (GetLatestStatusLogRowId sid)))) (\<lambda>row. sndE (Send (V1RowId row)))"

definition miss_data_step :: "uuid \<Rightarrow> string \<Rightarrow> data_time \<Rightarrow> (hub_state, unit) eff" where
  "miss_data_step sid itemName d =
     bindE (fstE (SaveDataHistory sid itemName (dt_value d) (dt_msec d))) (\<lambda>n.
       if 0 < n then notify (hub_Publish BrokerMissingData (ForwardData kMsgMissData (sid, itemName) d) (Some (sid, itemName)))
       else retE ())"

definition ReadMissData :: "uuid \<Rightarrow> miss_data result \<Rightarrow> (hub_state, unit) eff" where
  "ReadMissData sid input =
     bindE (liftR input) (\<lambda>missData. forE (\<lambda>(itemName, ds). forE (miss_data_step sid itemName) ds) missData)"

definition latestLogIndexByItem :: "row_item_status list \<Rightarrow> (string, nat) go_map" where
  "latestLogIndexByItem logs = fold (\<lambda>(i, l). AList.update (rs_item_name l) i) (enumerate 0 logs) []"

definition miss_update_step :: "uuid \<Rightarrow> row_item_status \<Rightarrow> (hub_state, unit) eff" where
  "miss_update_step sid l =
     bindE (fstE (UpdateItemStatus sid (rs_item_name l) (rs_status l) (rs_changed_at l))) (\<lambda>_. retE ())"

definition miss_log_step :: "uuid \<Rightarrow> row_item_status \<Rightarrow> (hub_state, unit) eff" where
  "miss_log_step sid l =
     bindE (fstE (SaveItemStatusLog sid (rs_row_id l) (rs_item_name l) (rs_status l) (rs_changed_at l))) (\<lambda>n.
       if 0 < n then notify (hub_Publish BrokerConfig (SendMsg kMsgMissItemStatus (BFullItemStatus (full_status sid [] l))) None)
       else retE ())"

definition ReadMissStatusLogs :: "index_order \<Rightarrow> uuid \<Rightarrow> row_item_status list result \<Rightarrow> (hub_state, unit) eff" where
  "ReadMissStatusLogs visit sid input =
     bindE (liftR input) (\<lambda>logs.
     bindE (forE (\<lambda>(_, i). miss_update_step sid (logs ! i)) (visit (latestLogIndexByItem logs))) (\<lambda>_.
       forE (miss_log_step sid) logs))"

definition saveAndUpdateItemStatus :: "uuid \<Rightarrow> string \<Rightarrow> row_item_status \<Rightarrow> (hub_state, unit) eff" where
  "saveAndUpdateItemStatus sid identifier l =
     bindE (tryE (fstE (UpdateAndSaveStatusLog sid (rs_row_id l) (rs_item_name l) (rs_status l) (rs_changed_at l)))) (\<lambda>r.
       case r of
         Inl _ \<Rightarrow> retE ()
       | Inr n \<Rightarrow> if 0 < n then notify (hub_Publish BrokerStatus (SendMsg kMsgUpdateItemStatus
                    (BFullItemStatus (full_status sid identifier l))) None)
                  else retE ())"

definition v1_msg_step :: "uuid \<Rightarrow> string \<Rightarrow> v1_msg \<Rightarrow> (hub_state, unit) eff" where
  "v1_msg_step sid identifier msg =
     (case msg of
        V1Data body \<Rightarrow> bindE (liftR body) (\<lambda>(item, d).
          bindE (fstE (SaveDataHistory sid item (dt_value d) (dt_msec d))) (\<lambda>_.
            notify (PublishDelayedData (ForwardData kMsgData (sid, item) d) (Some (sid, item)))))
      | V1Gpio body \<Rightarrow> bindE (liftR body) (\<lambda>(item, d).
          bindE (fstE (UpdateItemStatus sid item NoStatus (dt_msec d))) (\<lambda>_.
          bindE (fstE (SaveDataHistory sid item (dt_value d) (dt_msec d))) (\<lambda>_.
            notify (PublishDelayedData (ForwardData kMsgDataGpio (sid, item) d) (Some (sid, item))))))
      | V1Rpi body \<Rightarrow> bindE (liftR body) (\<lambda>(temp, tm). ignoreE (fstE (SaveRpiStatus sid temp tm)))
      | V1Status body \<Rightarrow> bindE (liftR body) (saveAndUpdateItemStatus sid identifier)
      | V1Other \<Rightarrow> retE ())"

text \<open>The receive loop; a failing \<^verbatim>\<open>Decode\<close> breaks it.\<close>

fun v1_loop :: "uuid \<Rightarrow> string \<Rightarrow> v1_msg result list \<Rightarrow> (hub_state, unit) eff" where
  "v1_loop sid identifier [] = retE ()"
| "v1_loop sid identifier (Inl e # rs) = retE ()"
| "v1_loop sid identifier (Inr msg # rs) = bindE (v1_msg_step sid identifier msg) (\<lambda>_. v1_loop sid identifier rs)"

text \<open>What a registered connection does, up to the end of the receive loop.\<close>

definition v1_serve ::
  "index_order \<Rightarrow> sync_hub info_hub \<Rightarrow> map_orders \<Rightarrow> unix_ms \<Rightarrow> string \<Rightarrow> v1_input \<Rightarrow> uuid \<Rightarrow> bool \<Rightarrow> station_info
     \<Rightarrow> ('c v1_state, unit) eff" where
  "v1_serve visit ih vo now remoteAddr input sid cams_nil info =
     bindE (fstE (fstE (updateStationStatusAndBroadcast now sid (si_identifier info) Normal))) (\<lambda>_.
     bindE (fstE (fstE (fstE (EditStationNotSync sid remoteAddr)))) (\<lambda>_.
     bindE (fstE (fstE (SyncStationInfo ih vo cams_nil sid info))) (\<lambda>_.
     bindE (WriteItemsLatest sid (si_devices info)) (\<lambda>_.
     bindE (WriteLatestStatusLogRowId sid) (\<lambda>_.
     bindE (fstE (fstE (ReadMissData sid (v1_missData input)))) (\<lambda>_.
     bindE (fstE (fstE (ReadMissStatusLogs visit sid (v1_missLogs input)))) (\<lambda>_.
       fstE (fstE (v1_loop sid (si_identifier info) (v1_msgs input))))))))))"

definition v1_deferred :: "unix_ms \<Rightarrow> uuid \<Rightarrow> string \<Rightarrow> ('c v1_state, unit) eff" where
  "v1_deferred now sid identifier =
     bindE (ignoreE (fstE (fstE (updateStationStatusAndBroadcast now sid identifier Disconnected)))) (\<lambda>_.
       fstE (sndE (reg_Delete sid)))"

definition handleStationConnStream1 ::
  "index_order \<Rightarrow> sync_hub info_hub \<Rightarrow> map_orders \<Rightarrow> unix_ms \<Rightarrow> unix_ms \<Rightarrow> 'c \<Rightarrow> string \<Rightarrow> v1_input
     \<Rightarrow> ('c v1_state, unit) eff" where
  "handleStationConnStream1 visit ih vo now_connect now_end session remoteAddr input =
     bindE (liftR (v1_info input)) (\<lambda>(cams_nil, info).
       if si_identifier info = [] \<or> si_devices info = [] then throwE v1_return
       else bindE (fstE (fstE (fstE (GetLocalStationIdByIdentifier (si_identifier info))))) (\<lambda>sid.
            bindE (fstE (sndE (reg_LoadOrStore sid session))) (\<lambda>loaded.
              if loaded then throwE v1_return
              else finallyE (v1_deferred now_end sid (si_identifier info))
                     (v1_serve visit ih vo now_connect remoteAddr input sid cams_nil info))))"

text \<open>\<open>yamux\<close> is what opening the first stream of the multiplexed connection gives.\<close>

definition handleStationConn ::
  "index_order \<Rightarrow> sync_hub info_hub \<Rightarrow> map_orders \<Rightarrow> unix_ms \<Rightarrow> unix_ms \<Rightarrow> string \<Rightarrow> ('c \<times> v1_input \<times> v1_reply stream) result
     \<Rightarrow> hub_state \<times> 'c registry \<Rightarrow> hub_state \<times> 'c registry" where
  "handleStationConn visit ih vo now_connect now_end remoteAddr yamux st =
     (case yamux of
        Inl _ \<Rightarrow> st
      | Inr (session, input, stream) \<Rightarrow>
          fst (snd (handleStationConnStream1 visit ih vo now_connect now_end session remoteAddr input (st, stream))))"

section \<open>The station's end\<close>

datatype v1_upload = UpInfo station_info | UpMissData miss_data | UpMissLogs "row_item_status list" | UpMsg client_msg

type_synonym v1_io = "ingest \<times> v1_upload stream"

definition collect_miss :: "(string, int) go_map \<Rightarrow> string \<Rightarrow> (v1_io \<times> miss_data, unit) eff" where
  "collect_miss itemsLatest itemName =
     bindE (fstE (fstE (on_db (ClientGetDataHistory itemName (map_index 0 itemsLatest itemName) 0)))) (\<lambda>ds.
       if 0 < length ds then sndE (modifyE (AList.update itemName ds)) else retE ())"

definition v1_missing :: "string_map_map \<Rightarrow> (string, int) go_map \<Rightarrow> (v1_io, miss_data) eff" where
  "v1_missing devs itemsLatest io =
     (case forE (\<lambda>dv. forE (\<lambda>it. collect_miss itemsLatest (snd it)) (snd dv)) devs (io, []) of
        (Inl e, (io', _)) \<Rightarrow> (Inl e, io')
      | (Inr _, (io', m)) \<Rightarrow> (Inr m, io'))"

text \<open>The goroutine of \<open>newSubscriber\<close>: it writes what the channel delivers until a write fails.\<close>

definition v1_forward :: "client_msg list \<Rightarrow> (v1_io, unit) eff" where
  "v1_forward msgs = ignoreE (forE (\<lambda>m. sndE (Send (UpMsg m))) msgs)"

definition v1_subscribe :: "sub_id \<Rightarrow> ingest \<Rightarrow> ingest" where
  "v1_subscribe sub s = s\<lparr>ig_heap := (ig_heap s)(sub := NewSubscriber 1000), ig_broker := Subscribe sub None (ig_broker s)\<rparr>"

text \<open>
  \<open>itemsLatest\<close> and \<open>rowId\<close> are what the two calls of \<^verbatim>\<open>Decode\<close> return, \<open>msgs\<close> what the subscriber's
  channel delivers until the connection ends.
\<close>

definition stationConn ::
  "station_info \<Rightarrow> sub_id \<Rightarrow> (string, int) go_map result \<Rightarrow> int result \<Rightarrow> client_msg list \<Rightarrow> (v1_io, unit) eff" where
  "stationConn info sub itemsLatest rowId msgs =
     bindE (sndE (Send (UpInfo info))) (\<lambda>_.
     bindE (liftR itemsLatest) (\<lambda>latest.
     bindE (liftR rowId) (\<lambda>row.
     bindE (v1_missing (si_devices info) latest) (\<lambda>missData.
     bindE (sndE (Send (UpMissData missData))) (\<lambda>_.
     bindE (fstE (on_db (GetItemStatusLogAfter row))) (\<lambda>missLogs.
     bindE (sndE (Send (UpMissLogs missLogs))) (\<lambda>_.
     bindE (fstE (modifyE (v1_subscribe sub))) (\<lambda>_.
       finallyE (fstE (modifyE (\<lambda>s. s\<lparr>ig_broker := Unsubscribe sub (ig_broker s)\<rparr>))) (v1_forward msgs)))))))))"

definition cameraSnapshot ::
  "(string, string \<times> string \<times> string) go_map \<Rightarrow> (string \<times> string \<times> string \<Rightarrow> byte list result) \<Rightarrow> string result
     \<Rightarrow> byte list option" where
  "cameraSnapshot cameras onvifSnapshot name =
     (case name of
        Inl _ \<Rightarrow> None
      | Inr n \<Rightarrow>
          (case map_of cameras n of
             None \<Rightarrow> None
           | Some cam \<Rightarrow> (case onvifSnapshot cam of Inl _ \<Rightarrow> None | Inr bs \<Rightarrow> Some bs)))"

end
