(* ===== verification/V1Laws.thy ===== *)
theory V1Laws
  imports V1Station
begin

text \<open>
  The two versions of the station protocol leave the same tables. \<open>agree R m m'\<close> is a relational
  form of \<open>preserves\<close>: from related states the two computations both succeed, with the same value, or
  both fail, and the states stay related.
\<close>

lemma bindE_lift [simp]: "bindE (liftR (Inr x)) f = f x"
  by (rule ext) (simp add: eff_simps)

section \<open>Computations that agree\<close>

named_theorems agreeing "structural rules for computations that agree"

definition agree :: "('s \<Rightarrow> 't \<Rightarrow> bool) \<Rightarrow> ('s, 'a) eff \<Rightarrow> ('t, 'a) eff \<Rightarrow> bool" where
  "agree R m m' \<longleftrightarrow> (\<forall>s t. R s t \<longrightarrow> rel_sum (\<lambda>_ _. True) (=) (fst (m s)) (fst (m' t)) \<and> R (snd (m s)) (snd (m' t)))"

definition same_end :: "('s \<Rightarrow> 't \<Rightarrow> bool) \<Rightarrow> ('s, 'a) eff \<Rightarrow> ('t, 'b) eff \<Rightarrow> bool" where
  "same_end R m m' \<longleftrightarrow> (\<forall>s t. R s t \<longrightarrow> R (snd (m s)) (snd (m' t)))"

lemma agree_ret [agreeing]: "agree R (retE a) (retE a)"
  by (simp add: agree_def retE_def)

lemma agree_lift [agreeing]: "agree R (liftR r) (liftR r)"
  by (cases r) (simp_all add: agree_def liftR_def)

lemma agree_bindD:
  assumes "agree R m m'" "R s t"
  obtains (ok) a s' t' where "m s = (Inr a, s')" "m' t = (Inr a, t')" "R s' t'"
  | (fail) e e' s' t' where "m s = (Inl e, s')" "m' t = (Inl e', t')" "R s' t'"
  using assms unfolding agree_def
  by (cases "m s"; cases "m' t"; cases "fst (m s)"; cases "fst (m' t)") fastforce+

lemma agree_bind [agreeing]:
  assumes "agree R m m'" and "\<And>a. agree R (f a) (g a)"
  shows "agree R (bindE m f) (bindE m' g)"
  unfolding agree_def
proof (intro allI impI)
  fix s t
  assume "R s t"
  with assms(1) show "rel_sum (\<lambda>_ _. True) (=) (fst (bindE m f s)) (fst (bindE m' g t)) \<and> R (snd (bindE m f s)) (snd (bindE m' g t))"
  proof (cases rule: agree_bindD)
    case (ok a s' t')
    with assms(2) [of a] show ?thesis by (simp add: bindE_def agree_def)
  qed (simp add: bindE_def)
qed

lemma same_end_bind:
  assumes "agree R m m'" and "\<And>a. same_end R (f a) (g a)"
  shows "same_end R (bindE m f) (bindE m' g)"
  unfolding same_end_def
proof (intro allI impI)
  fix s t
  assume "R s t"
  with assms(1) show "R (snd (bindE m f s)) (snd (bindE m' g t))"
  proof (cases rule: agree_bindD)
    case (ok a s' t')
    with assms(2) [of a] show ?thesis by (simp add: bindE_def same_end_def)
  qed (simp add: bindE_def)
qed

lemma agree_same_end: "agree R m m' \<Longrightarrow> same_end R m m'"
  by (simp add: agree_def same_end_def)

lemma snd_then_throw: "snd (bindE m (\<lambda>_. throwE e) s) = snd (m s)"
  by (simp add: bindE_def throwE_def split: prod.split sum.split)

lemma same_end_throw: "agree R m m' \<Longrightarrow> same_end R m (bindE m' (\<lambda>_. throwE e))"
  by (simp add: agree_def same_end_def snd_then_throw)

lemma agree_for: "list_all2 (\<lambda>x y. agree R (f x) (g y)) xs ys \<Longrightarrow> agree R (forE f xs) (forE g ys)"
  by (induction rule: list_all2_induct) (auto intro!: agreeing)

lemma agree_for_same [agreeing]: "(\<And>x. agree R (f x) (g x)) \<Longrightarrow> agree R (forE f xs) (forE g xs)"
  by (rule agree_for) (simp add: list_all2_same)

lemma agree_if [agreeing]: "agree R m m' \<Longrightarrow> agree R n n' \<Longrightarrow> agree R (if b then m else n) (if b then m' else n')"
  by simp

lemma agree_wrap: "agree R m m' \<Longrightarrow> agree R m (wrapE msg m')" for m' :: "('t, 'a) eff"
proof -
  have "snd (wrapE msg m' t) = snd (m' t)" "rel_sum (\<lambda>_ _. True) (=) r (fst (wrapE msg m' t)) = rel_sum (\<lambda>_ _. True) (=) r (fst (m' t))"
    for r :: "'a result" and t by (cases r; auto simp: wrapE_def split: prod.split sum.split)+
  then show "agree R m m' \<Longrightarrow> agree R m (wrapE msg m')" by (simp add: agree_def)
qed

lemma agree_tried: "agree R m m' \<Longrightarrow> agree R m (bindE (tryE m') (\<lambda>r. if isOk r then retE () else throwE e))"
proof -
  have run: "bindE (tryE m') (\<lambda>r. if isOk r then retE () else throwE e) t =
      (if isOk (fst (m' t)) then Inr () else Inl e, snd (m' t))" for t
    by (cases "m' t") (simp add: eff_simps)
  have rel: "rel_sum (\<lambda>_ _. True) (=) r r' \<Longrightarrow> rel_sum (\<lambda>_ _. True) (=) r (if isOk r' then Inr () else Inl e)" for r r' :: "unit result"
    by (cases r; cases r') simp_all
  show "agree R m m' \<Longrightarrow> agree R m (bindE (tryE m') (\<lambda>r. if isOk r then retE () else throwE e))"
    unfolding agree_def run by (simp add: rel)
qed

lemma same_end_finally:
  "same_end R c c' \<Longrightarrow> same_end R m m' \<Longrightarrow> same_end R (finallyE c m) (finallyE c' m')"
  by (simp add: same_end_def finallyE_def case_prod_unfold)

lemma same_end_ignore: "same_end R m m' \<Longrightarrow> same_end R (ignoreE m) (ignoreE m')"
  by (simp add: same_end_def ignoreE_def)

section \<open>The same tables, different subscribers\<close>

definition same_tables :: "('d \<Rightarrow> bool) \<Rightarrow> 'd \<times> 'h \<Rightarrow> 'd \<times> 'n \<Rightarrow> bool" where
  "same_tables P s t \<longleftrightarrow> fst s = fst t \<and> P (fst s)"

lemma agree_fst: "preserves P m \<Longrightarrow> agree (same_tables P) (fstE m) (fstE m)"
  by (auto simp: agree_def same_tables_def fstE_def preserves_def case_prod_unfold sum.rel_refl)

lemma agree_fst_on:
  assumes "\<And>d. P d \<Longrightarrow> rel_sum (\<lambda>_ _. True) (=) (fst (m d)) (fst (m' d)) \<and> snd (m d) = snd (m' d) \<and> P (snd (m d))"
  shows "agree (same_tables P) (fstE m) (fstE m')"
  using assms by (fastforce simp: agree_def same_tables_def fstE_def case_prod_unfold)

lemma agree_notify [agreeing]: "agree (same_tables P) (notify f) (notify g)"
  "agree (same_tables P) (notify f) (retE ())" "agree (same_tables P) (retE ()) (notify g)"
  by (simp_all add: agree_def same_tables_def notify_def eff_simps)

text \<open>The number of changed rows on one side, whether there are any on the other.\<close>

lemma fstE_changed: "fstE (changedE m) = bindE (fstE m) (\<lambda>n. retE (0 < n))"
  by (rule ext) (simp add: changedE_def eff_simps split: prod.split sum.split)

lemma agree_changed:
  assumes "preserves P m" and "\<And>n. agree (same_tables P) (f n) (g (0 < n))"
  shows "agree (same_tables P) (bindE (fstE m) f) (bindE (fstE (changedE m)) g)"
  by (simp add: fstE_changed bindE_assoc agree_bind agree_fst assms)

section \<open>Handlers\<close>

abbreviation known_tables :: "uuid \<Rightarrow> tide_db \<times> 'h \<Rightarrow> tide_db \<times> 'n \<Rightarrow> bool" where
  "known_tables sid \<equiv> same_tables (\<lambda>db. db_known db sid)"

lemmas known_ops = known_stations_kept known_SaveDataHistory

lemma known_UpdateAndSave: "preserves (\<lambda>db. db_known db sid) (UpdateAndSaveStatusLog i r n st t)"
  unfolding UpdateAndSaveStatusLog_def
  by (intro preserves_tx preserves_bind preserves_if preserves_ret known_ops)

lemma known_Sync: "preserves (\<lambda>sn. db_known (fst sn) u) (SyncStationInfo ih vo cn sid info)"
  by (intro SyncStationInfo_preserves known_config_ops known_EditItem)

lemma DBStore_simps:
  "UpdateStationStatus_op DBStore sid st t = changedE (UpdateStationStatus sid st t)"
  "SaveRpiStatus_op DBStore = SaveRpiStatus"
  "UpdateItemStatus_op DBStore sid n st t = changedE (UpdateItemStatus sid n st t)"
  "SaveDataHistory_op DBStore sid n v t = changedE (SaveDataHistory sid n v t)"
  "SaveItemStatusLog_op DBStore sid r n st t = changedE (SaveItemStatusLog sid r n st t)"
  "UpdateAndSaveStatusLog_op DBStore sid r n st t = changedE (UpdateAndSaveStatusLog sid r n st t)"
  "SetStationIP DBStore = EditStationNotSync" "LatestStatusLogRowID DBStore = GetLatestStatusLogRowId"
  "ItemsLatest DBStore sid devs = GetItemsLatest sid (zero_items devs)"
  "StationIDByIdentifier DBStore = GetLocalStationIdByIdentifier"
  by (simp_all add: DBStore_def DBStore_ItemsLatest_def)

lemma agree_status:
  "agree (known_tables u) (updateStationStatusAndBroadcast now sid ident st) (updateStationStatusAndNotify DBStore nt now sid ident st)"
  unfolding updateStationStatusAndBroadcast_def updateStationStatusAndNotify_def DBStore_simps
  by (intro agree_changed known_ops agreeing)

lemma agree_miss_point: "agree (known_tables u) (miss_data_step sid item d) (data_point_step DBStore nt sid True (replay_pt item d))"
  unfolding miss_data_step_def data_point_step_def DBStore_simps Let_def replay_pt_def data_point.simps
  by (simp, intro agree_changed known_ops) (auto intro: agreeing)

lemma ignore_UpdateItemStatus:
  "ignoreE (fstE (changedE (UpdateItemStatus sid n st t))) = bindE (fstE (UpdateItemStatus sid n st t)) (\<lambda>_. retE ())"
  by (rule ext) (simp add: changedE_def eff_simps UpdateItemStatus_def Let_def)

lemma agree_data_msg:
  "agree (known_tables u) (v1_msg_step sid ident (V1Data (Inr (item, d))))
     (data_point_step DBStore nt sid False \<lparr>pt_item_name = item, pt_value = dt_value d, pt_unix_ms = dt_msec d, pt_kind = DATA_KIND_NORMAL\<rparr>)"
  "agree (known_tables u) (v1_msg_step sid ident (V1Gpio (Inr (item, d))))
     (data_point_step DBStore nt sid False \<lparr>pt_item_name = item, pt_value = dt_value d, pt_unix_ms = dt_msec d, pt_kind = DATA_KIND_GPIO\<rparr>)"
proof -
  have save: "agree (known_tables u) (bindE (fstE (SaveDataHistory sid item (dt_value d) (dt_msec d))) (\<lambda>_. notify f))
    (bindE (fstE (changedE (SaveDataHistory sid item (dt_value d) (dt_msec d)))) (\<lambda>inserted. if \<not> inserted then retE () else notify g))" for f g
    by (intro agree_changed known_ops) (auto intro: agreeing)
  show "agree (known_tables u) (v1_msg_step sid ident (V1Data (Inr (item, d))))
     (data_point_step DBStore nt sid False \<lparr>pt_item_name = item, pt_value = dt_value d, pt_unix_ms = dt_msec d, pt_kind = DATA_KIND_NORMAL\<rparr>)"
    using save by (simp add: v1_msg_step_def data_point_step_def DBStore_simps Let_def cong: if_cong)
  show "agree (known_tables u) (v1_msg_step sid ident (V1Gpio (Inr (item, d))))
     (data_point_step DBStore nt sid False \<lparr>pt_item_name = item, pt_value = dt_value d, pt_unix_ms = dt_msec d, pt_kind = DATA_KIND_GPIO\<rparr>)"
    using agree_bind [OF agree_fst [OF known_ops(4)] save]
    by (simp add: v1_msg_step_def data_point_step_def DBStore_simps Let_def ignore_UpdateItemStatus bindE_assoc cong: if_cong)
qed

lemma agree_status_msg:
  "agree (known_tables sid) (saveAndUpdateItemStatus sid ident l) (status_log_step DBStore nt sid ident (pb_log l))"
proof -
  obtain f where f: "saveAndUpdateItemStatus sid ident l =
      bindE (tryE (fstE (UpdateAndSaveStatusLog sid (rs_row_id l) (rs_item_name l) (rs_status l) (rs_changed_at l))))
        (\<lambda>r. case r of Inl _ \<Rightarrow> retE () | Inr n \<Rightarrow> if 0 < n then notify f else retE ())"
    by (auto simp: saveAndUpdateItemStatus_def)
  have ok: "\<exists>n. fst (UpdateAndSaveStatusLog sid r n' st t db) = Inr n" if "db_known db sid" for r n' st t db
    using that by (auto simp: UpdateAndSaveStatusLog_def SaveItemStatusLog_def UpdateItemStatus_def eff_simps db_known_def Let_def)
  have "agree (known_tables sid) (saveAndUpdateItemStatus sid ident l)
     (bindE (fstE (UpdateAndSaveStatusLog sid (rs_row_id l) (rs_item_name l) (rs_status l) (rs_changed_at l)))
        (\<lambda>n. if 0 < n then notify g else retE ()))" for g :: "'n \<Rightarrow> 'n"
    unfolding agree_def
  proof (intro allI impI)
    fix s :: hub_state and t :: "tide_db \<times> 'n"
    assume st: "known_tables sid s t"
    obtain n db' where run: "UpdateAndSaveStatusLog sid (rs_row_id l) (rs_item_name l) (rs_status l) (rs_changed_at l) (fst s) = (Inr n, db')"
      using ok [of "fst s"] st by (metis prod.collapse same_tables_def)
    moreover from preservesD [OF known_UpdateAndSave, of "fst s" sid sid] st run have "db_known db' sid"
      by (metis same_tables_def snd_conv)
    ultimately show "rel_sum (\<lambda>_ _. True) (=) (fst (saveAndUpdateItemStatus sid ident l s))
        (fst (bindE (fstE (UpdateAndSaveStatusLog sid (rs_row_id l) (rs_item_name l) (rs_status l) (rs_changed_at l)))
          (\<lambda>n. if 0 < n then notify g else retE ()) t)) \<and>
      known_tables sid (snd (saveAndUpdateItemStatus sid ident l s))
        (snd (bindE (fstE (UpdateAndSaveStatusLog sid (rs_row_id l) (rs_item_name l) (rs_status l) (rs_changed_at l)))
          (\<lambda>n. if 0 < n then notify g else retE ()) t))"
      using st by (auto simp: f eff_simps same_tables_def notify_def)
  qed
  then show ?thesis
    by (simp add: status_log_step_def DBStore_simps fstE_changed bindE_assoc pb_log_def pbToItemStatusLog_def Let_def)
qed

section \<open>The newest entries, in any order\<close>

definition newest_update :: "uuid \<Rightarrow> row_item_status \<Rightarrow> tide_db \<Rightarrow> tide_db" where
  "newest_update sid l db = snd (UpdateItemStatus sid (rs_item_name l) (rs_status l) (rs_changed_at l) db)"

lemma UpdateItemStatus_newest:
  "\<exists>n. UpdateItemStatus sid (rs_item_name l) (rs_status l) (rs_changed_at l) db = (Inr n, newest_update sid l db)"
  by (simp add: newest_update_def UpdateItemStatus_def Let_def)

lemma newest_update_commute:
  assumes "rs_item_name l \<noteq> rs_item_name l'"
  shows "newest_update sid l \<circ> newest_update sid l' = newest_update sid l' \<circ> newest_update sid l"
  using assms
  by (auto simp: fun_eq_iff newest_update_def UpdateItemStatus_def Let_def sql_update_def intro!: tide_db.equality)

lemma miss_updates: "forE (miss_update_step sid) ls (db, h) = (Inr (), (fold (newest_update sid) ls db, h))"
proof (induction ls arbitrary: db)
  case (Cons l ls)
  obtain n where "UpdateItemStatus sid (rs_item_name l) (rs_status l) (rs_changed_at l) db = (Inr n, newest_update sid l db)"
    using UpdateItemStatus_newest by blast
  with Cons show ?case by (simp add: miss_update_step_def eff_simps)
qed (simp add: eff_simps)

lemma replay_updates_fold:
  "forE (replay_update_step DBStore sid) kvs (db, h) = (Inr (), (fold (newest_update sid) (map snd kvs) db, h))"
proof (induction kvs arbitrary: db)
  case (Cons kv kvs)
  obtain n where "UpdateItemStatus sid (rs_item_name (snd kv)) (rs_status (snd kv)) (rs_changed_at (snd kv)) db =
      (Inr n, newest_update sid (snd kv) db)"
    using UpdateItemStatus_newest by blast
  with Cons show ?case by (simp add: replay_update_step_def DBStore_simps changedE_def eff_simps Let_def)
qed (simp add: eff_simps)

lemma fold_newest_perm:
  assumes "mset ls = mset ls'" and "distinct (map rs_item_name ls)"
  shows "fold (newest_update sid) ls = fold (newest_update sid) ls'"
proof (rule fold_multiset_equiv [OF _ assms(1)])
  fix l l'
  assume "l \<in> set ls" "l' \<in> set ls"
  then show "newest_update sid l \<circ> newest_update sid l' = newest_update sid l' \<circ> newest_update sid l"
    using assms(2) newest_update_commute [of l l'] by (cases "l = l'") (auto simp: distinct_map inj_on_def)
qed

lemma map_snd_update: "map (\<lambda>(k, v). (k, f v)) (AList.update k v m) = AList.update k (f v) (map (\<lambda>(k, v). (k, f v)) m)"
  by (induction m) auto

lemma set_update_subset: "set (AList.update k v m) \<subseteq> insert (k, v) (set m)"
  by (induction m) auto

lemma pb_log_inverse [simp]: "pbToItemStatusLog (pb_log l) = l" "lm_item_name (pb_log l) = rs_item_name l"
  by (simp_all add: pb_log_def pbToItemStatusLog_def)

lemma latest_index_bound: "kv \<in> set (latestLogIndexByItem logs) \<Longrightarrow> snd kv < length logs"
proof (induction logs rule: rev_induct)
  case (snoc l logs)
  then have "kv \<in> insert (rs_item_name l, length logs) (set (latestLogIndexByItem logs))"
    using set_update_subset by (fastforce simp: latestLogIndexByItem_def enumerate_append_eq)
  with snoc.IH show ?case by auto
qed (simp add: latestLogIndexByItem_def)

lemma latest_index_logs:
  "map (\<lambda>(k, i). (k, logs ! i)) (latestLogIndexByItem logs) = latestByItem (map pb_log logs)"
proof (induction logs rule: rev_induct)
  case (snoc l logs)
  have "map (\<lambda>(k, i). (k, (logs @ [l]) ! i)) (latestLogIndexByItem logs) = map (\<lambda>(k, i). (k, logs ! i)) (latestLogIndexByItem logs)"
    using latest_index_bound [of _ logs] by (force simp: nth_append)
  with snoc.IH show ?case
    by (simp add: latestLogIndexByItem_def latestByItem_def enumerate_append_eq map_snd_update)
qed (simp add: latestLogIndexByItem_def latestByItem_def)

lemma known_newest: "db_known db u \<Longrightarrow> db_known (fold (newest_update sid) ls db) u"
proof (induction ls arbitrary: db)
  case (Cons l ls)
  then show ?case using preservesD [OF known_ops(4), of db u sid] by (simp add: newest_update_def)
qed simp

lemma agree_newest:
  assumes "\<And>m. mset (visit m) = mset m" and "\<And>m. mset (visit' m) = mset m"
  shows "agree (known_tables u) (forE (\<lambda>(_, i). miss_update_step sid (logs ! i)) (visit (latestLogIndexByItem logs)))
     (forE (replay_update_step DBStore sid) (visit' (latestByItem (map pb_log logs))))"
proof -
  let ?newest = "latestByItem (map pb_log logs)"
  let ?ls = "map (\<lambda>(_, i). logs ! i) (visit (latestLogIndexByItem logs))"
  have loop: "forE (\<lambda>(_, i). miss_update_step sid (logs ! i)) (visit (latestLogIndexByItem logs)) = forE (miss_update_step sid) ?ls"
    by (simp add: forE_map case_prod_unfold)
  have "map snd ?newest = map (\<lambda>(_, i). logs ! i) (latestLogIndexByItem logs)"
    unfolding latest_index_logs [symmetric] by (simp add: case_prod_unfold)
  then have perm: "mset (map snd (visit' ?newest)) = mset ?ls"
    using assms by (metis mset_map)
  have "rs_item_name (snd kv) = fst kv" if "kv \<in> set (visit' ?newest)" for kv
    using that latestByItem_key [of "fst kv" "snd kv"] mset_eq_setD [OF assms(2), of ?newest] by simp
  then have "map rs_item_name (map snd (visit' ?newest)) = map fst (visit' ?newest)"
    unfolding map_map comp_def by (intro map_cong) simp_all
  then have "distinct (map rs_item_name (map snd (visit' ?newest)))"
    using map_of_visit(1) [OF wf_latestByItem assms(2) [of ?newest]] by (simp only: wf_map_def)
  from fold_newest_perm [OF perm this] show ?thesis
    unfolding loop
    by (auto simp: agree_def same_tables_def miss_updates replay_updates_fold known_newest split: prod.splits)
qed

lemma agree_logs:
  assumes "\<And>m. mset (visit m) = mset m" and "\<And>m. mset (visit' m) = mset m"
  shows "agree (known_tables u) (ReadMissStatusLogs visit sid (Inr logs))
     (handleItemStatusBatch visit' DBStore nt sid ident True (map pb_log logs))"
proof -
  have step: "agree (known_tables u) (miss_log_step sid l) (replay_log_step DBStore nt sid ident (pb_log l))" for l
    unfolding miss_log_step_def replay_log_step_def DBStore_simps Let_def pb_log_inverse
    by (intro agree_changed known_ops agreeing)
  have "ReadMissStatusLogs visit sid (Inr logs) =
     bindE (forE (\<lambda>(_, i). miss_update_step sid (logs ! i)) (visit (latestLogIndexByItem logs))) (\<lambda>_. forE (miss_log_step sid) logs)"
    by (simp add: ReadMissStatusLogs_def)
  then show ?thesis
    by (simp add: handleItemStatusBatch_def forE_map agree_bind agree_newest agree_for_same step assms)
qed

text \<open>The points of a map of missing data, in the order of its walk.\<close>

definition miss_points :: "miss_data \<Rightarrow> data_point list" where
  "miss_points m = concat (map (\<lambda>(item, ds). map (replay_pt item) ds) m)"

lemma agree_miss_data:
  "agree (known_tables u) (ReadMissData sid (Inr m)) (handleDataBatch DBStore nt sid True (miss_points m))"
proof -
  have "handleDataBatch DBStore nt sid True (miss_points m) =
      forE (\<lambda>(item, ds). forE (\<lambda>d. data_point_step DBStore nt sid True (replay_pt item d)) ds) m"
    by (simp add: handleDataBatch_def miss_points_def forE_concat [symmetric] forE_map case_prod_unfold)
  moreover have "ReadMissData sid (Inr m) = forE (\<lambda>(item, ds). forE (miss_data_step sid item) ds) m"
    by (simp add: ReadMissData_def)
  ultimately show ?thesis
    by (auto intro!: agree_for_same agree_miss_point)
qed

lemma agree_Sync:
  "agree (known_tables u) (SyncStationInfo ih vo (si_cameras info = []) sid info) (syncV2StationInfoSyncer ih' vo sid info)"
proof -
  note ops = known_config_ops known_EditItem preserves_station_reads preserves_GetItems preserves_GetAvailableItems
  have steps: "agree (known_tables u) (add_device_step ih sid od d) (add_device_step ih' sid od d)"
    "agree (known_tables u) (del_device_step ih sid devs d) (del_device_step ih' sid devs d)"
    "agree (known_tables u) (del_item_step ih sid ni d) (del_item_step ih' sid ni d)"
    "agree (known_tables u) (sync_cameras ih sid cn cams) (sync_cameras ih' sid cn cams)" for od d devs ni cn cams
    unfolding add_device_step_def del_device_step_def del_item_step_def sync_cameras_def Let_def
    by (intro agreeing agree_fst ops)+
  have step4: "agree (known_tables u) (edit_item_step ih sid oi x) (edit_item_step ih' sid oi x)" for oi x
    unfolding edit_item_step_def by (cases x) (auto intro!: agreeing agree_fst ops)
  have "agree (known_tables u) (SyncStationInfo ih vo cn sid info) (SyncStationInfo ih' vo cn sid info)" for cn
    unfolding SyncStationInfo_def Let_def
    by (intro agreeing agree_fst preserves_try ops steps step4)
  then show ?thesis unfolding syncV2StationInfoSyncer_def by (rule agree_tried)
qed

section \<open>Sessions\<close>

text \<open>A message whose body is the one its type announces.\<close>

definition typed_msg :: "client_msg \<Rightarrow> bool" where
  "typed_msg m \<longleftrightarrow>
     (case cm_body m of
        DataBody _ _ \<Rightarrow> cm_type m = MsgData \<or> cm_type m = MsgGpioData
      | StatusBody _ \<Rightarrow> cm_type m = MsgItemStatus
      | RpiBody _ _ \<Rightarrow> cm_type m = MsgRpiStatus)"

text \<open>What the server decodes of the JSON text of such a message.\<close>

definition v1_of_client :: "client_msg \<Rightarrow> v1_msg" where
  "v1_of_client m =
     (case cm_body m of
        DataBody item d \<Rightarrow> if cm_type m = MsgGpioData then V1Gpio (Inr (item, d)) else V1Data (Inr (item, d))
      | StatusBody l \<Rightarrow> V1Status (Inr l)
      | RpiBody temp tm \<Rightarrow> V1Rpi (Inr (temp, tm)))"

text \<open>What a station sends in the two versions: the replay of the same readings and log entries, then the same messages.\<close>

definition v1_session :: "station_info \<Rightarrow> miss_data \<Rightarrow> row_item_status list \<Rightarrow> client_msg list \<Rightarrow> v1_input" where
  "v1_session info m logs msgs =
     \<lparr>v1_info = Inr (si_cameras info = [], info), v1_missData = Inr m, v1_missLogs = Inr logs,
      v1_msgs = map (Inr \<circ> v1_of_client) msgs\<rparr>"

definition v2_frames :: "data_point list list \<Rightarrow> row_item_status list \<Rightarrow> client_msg list \<Rightarrow> station_message list" where
  "v2_frames cs logs msgs =
     map (DataBatch True) cs @ (if logs = [] then [] else [ItemStatusBatch True (map pb_log logs)]) @
     List.map_filter buildRealtimeFrame msgs"

definition v2_session :: "station_info \<Rightarrow> data_point list list \<Rightarrow> row_item_status list \<Rightarrow> client_msg list \<Rightarrow> station_message list" where
  "v2_session info cs logs msgs =
     ClientHello (si_identifier info) ProtocolVersion # StationInfoFrame (StationInfoToPB info) # v2_frames cs logs msgs"

lemma bindE_ret_right [simp]: "bindE m retE = m"
  by (rule ext) (simp add: eff_simps split: prod.split sum.split)

lemma bindE_ret_unit [simp]: "bindE m (\<lambda>_. retE ()) = m" for m :: "('s, unit) eff"
  using bindE_ret_right [of m] by simp

lemma hub_server_simps [simp]:
  "srv_Store (hub_server ih vo nt) = DBStore" "srv_InfoSyncer (hub_server ih vo nt) = syncV2StationInfoSyncer ih vo"
  "srv_Notifier (hub_server ih vo nt) = nt"
  by (simp_all add: hub_server_def)

lemma typed_frames:
  assumes "typed_msg m"
  obtains frame where "buildRealtimeFrame m = Some frame"
    "\<And>sid ident visit ih vo nt. agree (known_tables sid) (v1_msg_step sid ident (v1_of_client m)) (station_frame visit (hub_server ih vo nt) sid ident frame)"
proof (cases "cm_body m")
  case (DataBody item d)
  let ?kind = "if cm_type m = MsgGpioData then DATA_KIND_GPIO else DATA_KIND_NORMAL"
  let ?p = "\<lparr>pt_item_name = item, pt_value = dt_value d, pt_unix_ms = dt_msec d, pt_kind = ?kind\<rparr>"
  show ?thesis
  proof (rule that [of "DataBatch False [?p]"])
    show "buildRealtimeFrame m = Some (DataBatch False [?p])"
      using assms DataBody by (auto simp: typed_msg_def buildRealtimeFrame_def)
  qed (use DataBody in \<open>simp add: v1_of_client_def station_frame_def handleDataBatch_def agree_data_msg\<close>)
next
  case (StatusBody l)
  show ?thesis
  proof (rule that [of "ItemStatusBatch False [pb_log l]"])
    show "buildRealtimeFrame m = Some (ItemStatusBatch False [pb_log l])"
      using assms StatusBody by (auto simp: typed_msg_def buildRealtimeFrame_def pb_log_def msg_type_defs)
    show "agree (known_tables sid) (v1_msg_step sid ident (v1_of_client m))
        (station_frame visit (hub_server ih vo nt) sid ident (ItemStatusBatch False [pb_log l]))" for sid ident visit ih vo nt
      using StatusBody agree_status_msg [of sid ident l nt]
      by (simp add: v1_of_client_def v1_msg_step_def station_frame_def handleItemStatusBatch_def)
  qed
next
  case (RpiBody temp tm)
  show ?thesis
  proof (rule that [of "RpiStatusFrame temp tm"])
    show "buildRealtimeFrame m = Some (RpiStatusFrame temp tm)"
      using assms RpiBody by (auto simp: typed_msg_def buildRealtimeFrame_def msg_type_defs)
    show "agree (known_tables sid) (v1_msg_step sid ident (v1_of_client m))
        (station_frame visit (hub_server ih vo nt) sid ident (RpiStatusFrame temp tm))" for sid ident visit ih vo nt
      using RpiBody
      by (auto simp: v1_of_client_def v1_msg_step_def station_frame_def DBStore_simps agree_def same_tables_def SaveRpiStatus_def
          db_known_def eff_simps)
  qed
qed

lemma agree_msgs:
  assumes "list_all typed_msg msgs"
  shows "agree (known_tables sid) (v1_loop sid ident (map (Inr \<circ> v1_of_client) msgs))
     (forE (station_frame visit (hub_server ih vo nt) sid ident) (List.map_filter buildRealtimeFrame msgs))"
  using assms
proof (induction msgs)
  case (Cons m msgs)
  then obtain frame where "buildRealtimeFrame m = Some frame"
    "agree (known_tables sid) (v1_msg_step sid ident (v1_of_client m)) (station_frame visit (hub_server ih vo nt) sid ident frame)"
    by (metis list.pred_inject(2) typed_frames)
  with Cons show ?case by (simp add: map_filter_simps agree_bind)
qed (simp add: map_filter_simps agree_ret)

lemma station_loop_for:
  "station_loop visit s sid ident (map Inr fs) = bindE (forE (station_frame visit s sid ident) fs) (\<lambda>_. throwE io_EOF)"
  by (induction fs) (simp_all add: bindE_assoc)

lemma agree_replay:
  assumes "\<And>m. mset (visit m) = mset m" and "\<And>m. mset (visit' m) = mset m" and "concat cs = miss_points m"
    and "list_all typed_msg msgs"
  shows "same_end (known_tables sid)
     (bindE (ReadMissData sid (Inr m)) (\<lambda>_. bindE (ReadMissStatusLogs visit sid (Inr logs)) (\<lambda>_.
        v1_loop sid ident (map (Inr \<circ> v1_of_client) msgs))))
     (station_loop visit' (hub_server ih vo nt) sid ident (map Inr (v2_frames cs logs msgs)))"
proof -
  let ?frame = "station_frame visit' (hub_server ih vo nt) sid ident"
  have data: "forE ?frame (map (DataBatch True) cs) = handleDataBatch DBStore nt sid True (miss_points m)"
    unfolding assms(3) [symmetric] by (simp add: forE_map station_frame_def handleDataBatch_def forE_concat [of _ id, simplified])
  have none: "visit' [] = []" using assms(2) [of "[]"] by simp
  have logs: "forE ?frame (if logs = [] then [] else [ItemStatusBatch True (map pb_log logs)]) =
      handleItemStatusBatch visit' DBStore nt sid ident True (map pb_log logs)"
    by (simp add: station_frame_def handleItemStatusBatch_def latestByItem_def none)
  show ?thesis
    unfolding station_loop_for v2_frames_def forE_append data logs
    by (intro same_end_throw agree_bind agree_miss_data agree_logs agree_msgs assms)
qed

text \<open>Two sessions with the same tables, on streams that accept every frame; \<open>fs\<close> is still to be received.\<close>

definition same_session ::
  "uuid \<Rightarrow> station_message list \<Rightarrow> 'c v1_state \<Rightarrow> (tide_db, 'n, 'd) session_state \<Rightarrow> bool" where
  "same_session sid fs s t \<longleftrightarrow> known_tables sid (fst (fst s)) (fst (fst t)) \<and>
     send_results (snd s) = [] \<and> send_results (snd t) = [] \<and> inbox (snd t) = map Inr fs"

lemma agree_serv: "agree (known_tables sid) m m' \<Longrightarrow> agree (same_session sid fs) (fstE (fstE m)) (fstE (fstE m'))"
  by (simp add: agree_def same_session_def fstE_def case_prod_unfold)

lemma same_end_serv: "same_end (known_tables sid) m m' \<Longrightarrow> same_end (same_session sid fs) (fstE (fstE m)) (fstE (fstE m'))"
  by (simp add: same_end_def same_session_def fstE_def case_prod_unfold)

lemma agree_Send: "agree (same_session sid fs) (sndE (Send a)) (sndE (Send b))"
  by (simp add: agree_def same_session_def sndE_def Send_def)

lemma bind_serv: "bindE (fstE (fstE m)) (\<lambda>a. fstE (fstE (f a))) = fstE (fstE (bindE m f))"
  by (rule ext) (simp add: eff_simps split: prod.split sum.split)

lemma known_reads:
  "preserves (\<lambda>db. db_known db u) (GetItemsLatest sid m)" "preserves (\<lambda>db. db_known db u) (GetLatestStatusLogRowId sid)"
  by (intro preserves_GetItemsLatest preserves_GetLatestStatusLogRowId)+

lemma same_end_serve:
  assumes "\<And>m. mset (visit m) = mset m" and "\<And>m. mset (visit' m) = mset m" and "concat cs = miss_points m"
    and "list_all typed_msg msgs"
  shows "same_end (same_session sid (v2_frames cs logs msgs))
     (v1_serve visit ih vo now ip (v1_session info m logs msgs) sid (si_cameras info = []) info)
     (station_serve visit' (hub_server ih' vo nt) now ip sid info)"
proof -
  let ?R = "same_session sid (v2_frames cs logs msgs)"
  let ?loop = "station_loop visit' (hub_server ih' vo nt) sid (si_identifier info)"
  have ip: "agree ?R (fstE (fstE (fstE (EditStationNotSync sid ip)))) (wrapE msg (fstE (fstE (fstE (EditStationNotSync sid ip)))))" for msg
    by (intro agree_wrap agree_serv agree_fst known_ops)
  have reads: "agree ?R (fstE (fstE (fstE (GetItemsLatest sid mp)))) (wrapE msg (fstE (fstE (fstE (GetItemsLatest sid mp)))))"
    "agree ?R (fstE (fstE (fstE (GetLatestStatusLogRowId sid)))) (wrapE msg (fstE (fstE (fstE (GetLatestStatusLogRowId sid)))))" for msg mp
    by (intro agree_wrap agree_serv agree_fst known_reads)+
  have last: "same_end ?R
      (fstE (fstE (bindE (ReadMissData sid (Inr m)) (\<lambda>_. bindE (ReadMissStatusLogs visit sid (Inr logs)) (\<lambda>_.
        v1_loop sid (si_identifier info) (map (Inr \<circ> v1_of_client) msgs))))))
      (\<lambda>st. servE (?loop (inbox (snd st))) st)"
    using same_end_serv [OF agree_replay [OF assms(1,2,3,4)]] by (simp add: same_end_def same_session_def)
  show ?thesis
    unfolding v1_serve_def station_serve_def WriteItemsLatest_def WriteLatestStatusLogRowId_def bindE_assoc hub_server_simps
      v1_session_def v1_input.simps bind_serv DBStore_simps
    by (intro same_end_bind agree_serv agree_status agree_Sync ip reads agree_Send last)
qed

lemma finally_two: "finallyE (bindE (ignoreE c) (\<lambda>_. d)) m = finallyE d (finallyE (ignoreE c) m)"
  by (rule ext) (simp add: eff_simps split: prod.split)

lemma finally_start: "m s = m' s' \<Longrightarrow> finallyE c m s = finallyE c m' s'"
  by (simp add: finallyE_def)

lemma same_end_registry: "same_end (same_session sid fs) (fstE (sndE c)) (fstE (sndE d))"
  by (simp add: same_end_def same_session_def fstE_def sndE_def case_prod_unfold)

text \<open>The first frames of the second version, up to the point where the two versions meet.\<close>

definition v2_ready :: "station_info \<Rightarrow> station_message list \<Rightarrow> station_message stream" where
  "v2_ready info fs = (new_stream fs)\<lparr>outbox := [ServerHello ''sync-v2'']\<rparr>"

lemma v2_handshake:
  assumes "TrimSpace (si_identifier info) \<noteq> []" "wf_devices (si_devices info)" "si_devices info \<noteq> []"
    "fst (GetLocalStationIdByIdentifier (si_identifier info) db) = Inr sid" "map_of reg sid = None"
  shows "StreamStation visit (hub_server ih vo nt) t1 t2 c ip (((db, n), reg), new_stream (v2_session info cs logs msgs)) =
     finallyE (fstE (sndE (reg_Delete sid))) (finallyE (ignoreE (servE (updateStationStatusAndNotify DBStore nt t2 sid (si_identifier info) Disconnected)))
       (station_serve visit (hub_server ih vo nt) t1 ip sid info)) (((db, n), AList.update sid c reg), v2_ready info (v2_frames cs logs msgs))"
proof -
  have info: "PBToStationInfo (StationInfoToPB info) = info"
    using assms(2) by (simp add: PBToStationInfo_def StationInfoToPB_def copy_devices_id)
  have ident: "si_identifier info \<noteq> []" using assms(1) by (auto simp: TrimSpace_Nil)
  have look: "GetLocalStationIdByIdentifier (si_identifier info) db = (Inr sid, db)"
    using assms(4) by (simp add: GetLocalStationIdByIdentifier_def readE_def)
  let ?rest = "StationInfoFrame (StationInfoToPB info) # v2_frames cs logs msgs"
  have hello: "recvHello (new_stream (v2_session info cs logs msgs)) = (Inr (si_identifier info), new_stream ?rest)"
    using assms(1) by (simp add: recvHello_def v2_session_def new_stream_def bindE_def Recv_def retE_def)
  have inf: "recvStationInfo ((new_stream ?rest)\<lparr>outbox := [ServerHello ''sync-v2'']\<rparr>) = (Inr info, v2_ready info (v2_frames cs logs msgs))"
    using assms(3) ident by (simp add: recvStationInfo_def bindE_def Recv_def retE_def new_stream_def v2_ready_def info Let_def)
  have send: "Send (ServerHello ''sync-v2'') (new_stream ?rest) = (Inr (), (new_stream ?rest)\<lparr>outbox := [ServerHello ''sync-v2'']\<rparr>)"
    by (simp add: Send_def new_stream_def)
  have part: "registered_part visit (hub_server ih vo nt) t1 t2 ip (si_identifier info) sid ((x, reg'), new_stream ?rest) =
      finallyE (ignoreE (servE (updateStationStatusAndNotify DBStore nt t2 sid (si_identifier info) Disconnected)))
       (station_serve visit (hub_server ih vo nt) t1 ip sid info) ((x, reg'), v2_ready info (v2_frames cs logs msgs))" for x reg'
    unfolding registered_part_def bindE_def by (simp add: sndE_def send inf)
  show ?thesis
    unfolding StreamStation_def
    by (simp add: bindE_def sndE_def hello wrapE_def fstE_def DBStore_simps look reg_LoadOrStore_def assms(5))
      (rule finally_start, rule part)
qed

text \<open>A session that is refused before it starts leaves the tables as they are, in both versions.\<close>

definition refused :: "station_info \<Rightarrow> tide_db \<Rightarrow> 'c registry \<Rightarrow> bool" where
  "refused info db reg \<longleftrightarrow> si_devices info = [] \<or>
     (case fst (GetLocalStationIdByIdentifier (si_identifier info) db) of Inl _ \<Rightarrow> True | Inr sid \<Rightarrow> map_of reg sid \<noteq> None)"

lemma lookup_state: "GetLocalStationIdByIdentifier ident db = (fst (GetLocalStationIdByIdentifier ident db), db)"
  by (simp add: GetLocalStationIdByIdentifier_def readE_def)

lemma v1_refused:
  assumes "refused info db reg"
  shows "fst (fst (fst (snd (handleStationConnStream1 visit ih vo t1 t2 c ip (v1_session info m logs msgs) (((db, h), reg), st))))) = db"
  using assms lookup_state [of "si_identifier info" db]
  by (cases "fst (GetLocalStationIdByIdentifier (si_identifier info) db)")
    (auto simp: handleStationConnStream1_def v1_session_def refused_def bindE_def throwE_def fstE_def sndE_def reg_LoadOrStore_def)

lemma v2_refused:
  assumes "TrimSpace (si_identifier info) \<noteq> []" "wf_devices (si_devices info)" "refused info db reg"
  shows "fst (fst (fst (snd (StreamStation visit (hub_server ih vo nt) t1 t2 c ip (((db, n), reg), new_stream (v2_session info cs logs msgs)))))) = db"
proof -
  have info: "PBToStationInfo (StationInfoToPB info) = info"
    using assms(2) by (simp add: PBToStationInfo_def StationInfoToPB_def copy_devices_id)
  let ?rest = "StationInfoFrame (StationInfoToPB info) # v2_frames cs logs msgs"
  have hello: "recvHello (new_stream (v2_session info cs logs msgs)) = (Inr (si_identifier info), new_stream ?rest)"
    using assms(1) by (simp add: recvHello_def v2_session_def new_stream_def bindE_def Recv_def retE_def)
  have part: "fst (fst (fst (snd (registered_part visit (hub_server ih vo nt) t1 t2 ip (si_identifier info) sid ((x, reg'), new_stream ?rest))))) = fst x"
    if "si_devices info = []" for sid x reg'
    using that by (simp add: registered_part_def recvStationInfo_def bindE_def sndE_def Send_def new_stream_def Recv_def info Let_def throwE_def)
  show ?thesis
    using assms(3) lookup_state [of "si_identifier info" db] part
    by (cases "fst (GetLocalStationIdByIdentifier (si_identifier info) db)")
      (auto simp: StreamStation_def refused_def bindE_def sndE_def hello wrapE_def fstE_def DBStore_simps reg_LoadOrStore_def throwE_def
        finallyE_def case_prod_unfold split: option.split)
qed

text \<open>
  C23: the two versions of the station protocol are equivalent for the tables, as long as no statement fails for a reason outside
  the tables: whatever a station has to replay and to report, a session of the first version and one of the second, in whatever
  batches and whatever order Go walks its maps, leave the server's database in the same state, also
  when a measurement has no table or the session is refused. A statement that fails because the connection to the database is lost is not
  part of the statement: the versions differ there (the first ends the session at a failed update for a digital input, the second ignores it;
  the first goes on after a failed temperature or status, the second ends the session).
\<close>

theorem v1_v2_same_tables:
  assumes "\<And>m. mset (visit m) = mset m" and "\<And>m. mset (visit' m) = mset m" and "concat cs = miss_points m"
    and "list_all typed_msg msgs" and "TrimSpace (si_identifier info) \<noteq> []" and "wf_devices (si_devices info)"
    and "dom (map_of reg) = dom (map_of reg')"
  shows "fst (fst (fst (snd (handleStationConnStream1 visit ih vo t1 t2 c ip (v1_session info m logs msgs) (((db, h), reg), new_stream []))))) =
    fst (fst (fst (snd (StreamStation visit' (hub_server ih' vo nt) t1 t2 c' ip (((db, n), reg'), new_stream (v2_session info cs logs msgs))))))"
proof (cases "refused info db reg")
  case True
  then have "refused info db reg'" using assms(7) by (auto simp: refused_def dom_def split: sum.splits)
  then show ?thesis using v1_refused [OF True] v2_refused [OF assms(5,6)] by metis
next
  case False
  then obtain sid where sid: "fst (GetLocalStationIdByIdentifier (si_identifier info) db) = Inr sid" "map_of reg sid = None"
      and devs: "si_devices info \<noteq> []"
    by (auto simp: refused_def split: sum.splits)
  with assms(7) have free: "map_of reg' sid = None" by (metis domIff)
  let ?R = "same_session sid (v2_frames cs logs msgs)"
  let ?s = "(((db, h), AList.update sid c reg), new_stream [])" and ?t = "(((db, n), AList.update sid c' reg'), v2_ready info (v2_frames cs logs msgs))"
  have ident: "si_identifier info \<noteq> []" using assms(5) by (auto simp: TrimSpace_Nil)
  have "handleStationConnStream1 visit ih vo t1 t2 c ip (v1_session info m logs msgs) (((db, h), reg), new_stream []) =
      finallyE (v1_deferred t2 sid (si_identifier info))
        (v1_serve visit ih vo t1 ip (v1_session info m logs msgs) sid (si_cameras info = []) info) ?s"
    using ident devs sid lookup_state [of "si_identifier info" db]
    by (simp add: handleStationConnStream1_def v1_session_def bindE_def fstE_def sndE_def reg_LoadOrStore_def)
  moreover have "same_end ?R
      (finallyE (v1_deferred t2 sid (si_identifier info)) (v1_serve visit ih vo t1 ip (v1_session info m logs msgs) sid (si_cameras info = []) info))
      (finallyE (fstE (sndE (reg_Delete sid))) (finallyE (ignoreE (servE (updateStationStatusAndNotify DBStore nt t2 sid (si_identifier info) Disconnected)))
        (station_serve visit' (hub_server ih' vo nt) t1 ip sid info)))"
    unfolding v1_deferred_def finally_two
    by (intro same_end_finally same_end_registry same_end_ignore agree_same_end agree_serv agree_status same_end_serve assms)
  moreover have "?R ?s ?t"
    using GetLocalStationIdByIdentifier_known [of "si_identifier info" db sid db] sid lookup_state [of "si_identifier info" db]
    by (simp add: same_session_def same_tables_def new_stream_def v2_ready_def)
  ultimately show ?thesis
    unfolding v2_handshake [OF assms(5,6) devs sid(1) free] same_end_def same_session_def same_tables_def by metis
qed

definition gauge_info :: station_info where
  "gauge_info = \<lparr>si_identifier = ''s'', si_devices = [(''e'', [(''w'', ''water'')])], si_cameras = [''cam'']\<rparr>"

definition gauge_msgs :: "client_msg list" where
  "gauge_msgs = [\<lparr>cm_type = MsgGpioData, cm_body = DataBody ''water'' \<lparr>dt_value = 3, dt_msec = 9\<rparr>\<rparr>,
     \<lparr>cm_type = MsgRpiStatus, cm_body = RpiBody 40 10\<rparr>]"

definition gauge_logs :: "row_item_status list" where
  "gauge_logs = [\<lparr>rs_row_id = 1, rs_item_name = ''water'', rs_status = Abnormal, rs_changed_at = 2\<rparr>]"

theorem v1_v2_same_tables_witness:
  "fst (fst (fst (snd (handleStationConnStream1 rev (hub_info (\<lambda>_. Inr 0) (\<lambda>_. Inr [])) list_orders 1 20 True ''ip''
      (v1_session gauge_info [(''water'', [\<lparr>dt_value = 1, dt_msec = 5\<rparr>, \<lparr>dt_value = 2, dt_msec = 6\<rparr>])] gauge_logs gauge_msgs)
      (((one_item_db, NewSyncHub 0 (\<lambda>_. NewSubscriber 10)), []), new_stream []))))) =
   fst (fst (fst (snd (StreamStation id (hub_server silent_hub list_orders silent_notifier) 1 20 False ''ip''
      (((one_item_db, ()), []), new_stream (v2_session gauge_info
         [[replay_pt ''water'' \<lparr>dt_value = 1, dt_msec = 5\<rparr>], [replay_pt ''water'' \<lparr>dt_value = 2, dt_msec = 6\<rparr>]] gauge_logs gauge_msgs))))))"
proof (rule v1_v2_same_tables)
  show "concat [[replay_pt ''water'' \<lparr>dt_value = 1, dt_msec = 5\<rparr>], [replay_pt ''water'' \<lparr>dt_value = 2, dt_msec = 6\<rparr>]] =
    miss_points [(''water'', [\<lparr>dt_value = 1, dt_msec = 5\<rparr>, \<lparr>dt_value = 2, dt_msec = 6\<rparr>])]"
    by (simp add: miss_points_def)
  show "list_all typed_msg gauge_msgs" by (simp add: gauge_msgs_def typed_msg_def)
  show "TrimSpace (si_identifier gauge_info) \<noteq> []" unfolding gauge_info_def by code_simp
  show "wf_devices (si_devices gauge_info)" by (simp add: gauge_info_def wf_devices_def)
qed simp_all

section \<open>Messages carry the body of their type\<close>

definition queued_typed :: "ingest \<Rightarrow> bool" where
  "queued_typed s \<longleftrightarrow> wf_map (ig_broker s) \<and> (\<forall>sub. list_all typed_msg (sub_Ch (ig_heap s sub)))"

definition typed_reading :: "unix_ms \<times> item_data \<Rightarrow> bool" where
  "typed_reading x \<longleftrightarrow> id_Typ (snd x) = MsgData \<or> id_Typ (snd x) = MsgGpioData"

text \<open>What happens at the station between two moments: a batch of readings arrives or the temperature job runs.\<close>

datatype station_event = Readings "(unix_ms \<times> item_data) list" | RpiJob "float64 result" unix_ms

primrec station_step :: "station_event \<Rightarrow> ingest \<Rightarrow> ingest" where
  "station_step (Readings xs) s = receive_batch xs s"
| "station_step (RpiJob stat now) s = rpi_job stat now s"

primrec typed_event :: "station_event \<Rightarrow> bool" where
  "typed_event (Readings xs) = list_all typed_reading xs"
| "typed_event (RpiJob stat now) = True"

lemma queued_publishC: "typed_msg m \<Longrightarrow> queued_typed s \<Longrightarrow> queued_typed (publishC m s)"
  using wf_Publish [of "(ig_heap s, ig_broker s)" m None]
  by (auto simp: queued_typed_def publishC_def Let_def publish_simps offered_def split: option.split)

lemma queued_frame [simp]: "queued_typed (s\<lparr>ig_db := d\<rparr>) = queued_typed s" "queued_typed (s\<lparr>ig_status := c\<rparr>) = queued_typed s"
  by (simp_all add: queued_typed_def)

lemma queued_item: "typed_reading x \<Longrightarrow> queued_typed s \<Longrightarrow> queued_typed (ingest_item x s)"
proof -
  have noted: "queued_typed s \<Longrightarrow> queued_typed (note_status n st t s)" for n st t s
    by (cases rule: note_status_cases [of n s st t]) (auto simp: logged_change_def typed_msg_def intro!: queued_publishC)
  have "queued_typed s \<Longrightarrow> ty = MsgData \<or> ty = MsgGpioData \<Longrightarrow> queued_typed (save_value ty n v t s)" for ty n v t s
    unfolding save_value_def by (intro queued_publishC) (auto simp: typed_msg_def)
  then show "typed_reading x \<Longrightarrow> queued_typed s \<Longrightarrow> queued_typed (ingest_item x s)"
    by (auto simp: ingest_item_def Let_def typed_reading_def noted split: option.split)
qed

lemma queued_step: "typed_event ev \<Longrightarrow> queued_typed s \<Longrightarrow> queued_typed (station_step ev s)"
proof (cases ev)
  case (Readings xs)
  have "list_all typed_reading xs \<Longrightarrow> queued_typed s \<Longrightarrow> queued_typed (fold ingest_item xs s)"
    by (induction xs arbitrary: s) (simp_all add: queued_item)
  then show "typed_event ev \<Longrightarrow> queued_typed s \<Longrightarrow> queued_typed (station_step ev s)"
    using Readings by (simp add: receive_batch_def)
qed (auto simp: rpi_job_def typed_msg_def intro!: queued_publishC split: sum.split)

text \<open>
  C32: every message the station puts on a session's queue carries the body its type announces,
  so the encoder of the second version never drops one and the server of the first version never
  meets a body it cannot decode.
\<close>

theorem station_messages_typed:
  assumes "list_all typed_event evs" and "queued_typed s" and "m \<in> set (sub_Ch (ig_heap (fold station_step evs s) sub))"
  shows "typed_msg m \<and> buildRealtimeFrame m \<noteq> None"
proof -
  have "queued_typed (fold station_step evs s)"
    using assms(1,2) by (induction evs arbitrary: s) (simp_all add: queued_step)
  with assms(3) have "typed_msg m" by (auto simp: queued_typed_def list_all_iff)
  then show ?thesis using typed_frames [of m] by (metis option.distinct(1))
qed

definition idle_ingest :: ingest where
  "idle_ingest = \<lparr>ig_db = empty_client_db, ig_status = [], ig_heap = (\<lambda>_. NewSubscriber 10), ig_broker = [(3, None)]\<rparr>"

theorem station_messages_typed_witness:
  "let m = \<lparr>cm_type = MsgRpiStatus, cm_body = RpiBody 40 10\<rparr> in
   m \<in> set (sub_Ch (ig_heap (fold station_step [RpiJob (Inr 40) 10] idle_ingest) 3)) \<and> typed_msg m \<and> buildRealtimeFrame m \<noteq> None"
proof -
  have "\<lparr>cm_type = MsgRpiStatus, cm_body = RpiBody 40 10\<rparr> \<in> set (sub_Ch (ig_heap (fold station_step [RpiJob (Inr 40) 10] idle_ingest) 3))"
    by (simp add: idle_ingest_def rpi_job_def publishC_def Publish_def admits_def has_room_def NewSubscriber_def)
  with station_messages_typed [of "[RpiJob (Inr 40) 10]" idle_ingest _ 3] show ?thesis
    by (simp add: idle_ingest_def queued_typed_def NewSubscriber_def Let_def)
qed

end
