(* ===== verification/RelayProto.thy ===== *)
theory RelayProto
  imports StationProto ServerDB SyncHub
begin

text \<open>
  The frames of the relay protocol between servers (\<^verbatim>\<open>proto/sync/v2/sync_v2.proto\<close>) and the
  conversions of \<^verbatim>\<open>tide_server/syncv2/relay/apply.go\<close>.

  UUIDs travel as text. Their printer and parser belong to \<^verbatim>\<open>github.com/google/uuid\<close> and are the
  parameter \<open>uuid_codec\<close>; the parser returns a value beside its error, because the program ignores the
  error in places. \<open>uuid_roundtrip\<close> is the documented behaviour the relay relies on. The payload of a
  config event is a JSON document (\<open>json\<close>), and what decoding it into each Go type yields is the
  parameter \<open>event_decoder\<close>.
\<close>

record uuid_codec =
  uu_String :: "uuid \<Rightarrow> string"
  uu_Parse :: "string \<Rightarrow> uuid \<times> go_error option"

definition uuid_roundtrip :: "uuid_codec \<Rightarrow> bool" where
  "uuid_roundtrip c \<longleftrightarrow> (\<forall>u. uu_Parse c (uu_String c u) = (u, None) \<and> uu_String c u \<noteq> [])"

lemma uuid_roundtripD:
  assumes "uuid_roundtrip c"
  shows "uu_Parse c (uu_String c u) = (u, None)" "uu_String c u \<noteq> []" "uu_String c u = uu_String c v \<longleftrightarrow> u = v"
  using assms unfolding uuid_roundtrip_def by (auto dest: arg_cong [of _ _ "uu_Parse c"])

record relay_device =
  rd_station_id :: string
  rd_name :: string

record relay_item =
  ri_station_id :: string
  ri_name :: string
  ri_type :: string
  ri_device_name :: string
  ri_status :: status
  ri_status_changed_at_ms :: int
  ri_available :: bool

record relay_station_full =
  rf_id :: string
  rf_identifier :: string
  rf_name :: string
  rf_ip_addr :: string
  rf_location :: raw_message
  rf_partner :: raw_message
  rf_cameras :: raw_message
  rf_status :: status
  rf_status_changed_at_ms :: int
  rf_upstream :: bool
  rf_devices :: "relay_device list"
  rf_items :: "relay_item list"

record relay_device_record =
  rr_id :: string
  rr_station_id :: string
  rr_device_name :: string
  rr_config :: string

record relay_config_event =
  ev_type :: string
  ev_payload :: json

record relay_status_event =
  se_station_id :: string
  se_identifier :: string
  se_row_id :: int
  se_item_name :: string
  se_status :: status
  se_changed_at_unix_ms :: int

record relay_config_batch =
  cb_full_sync :: bool
  cb_stations :: "relay_station_full list"
  cb_device_records :: "relay_device_record list"
  cb_events :: "relay_config_event list"

record relay_data_batch =
  rb_station_id :: string
  rb_data_type :: string
  rb_points :: "data_point list"

datatype relay_message =
    RDownstreamHello string string
  | RUpstreamHello string
  | RConfigBatch relay_config_batch
  | RDataBatch relay_data_batch
  | RStatusEvent relay_status_event
  | RAvailableItems "(string, string list) go_map"
  | RStationsItemsLatest "(string, (string, int) go_map) go_map"
  | RStationsStatusLatest "(string, int) go_map"
  | RError string string bool
  | REmptyBody

record event_decoder =
  dec_station :: "json \<Rightarrow> station result"
  dec_station_id :: "json \<Rightarrow> uuid result"
  dec_device :: "json \<Rightarrow> device result"
  dec_item :: "json \<Rightarrow> item result"
  dec_device_record :: "json \<Rightarrow> DeviceRecord result"
  dec_station_status :: "json \<Rightarrow> station_status result"
  dec_full_status :: "json \<Rightarrow> full_item_status result"
  dec_available :: "json \<Rightarrow> uuid_strings_map result"

section \<open>Conversions (\<open>apply.go\<close>)\<close>

definition dbStationFullToProto :: "uuid_codec \<Rightarrow> station_full_info \<Rightarrow> relay_station_full" where
  "dbStationFullToProto c sf =
     (let s = sfi_Station sf in
      \<lparr>rf_id = uu_String c (s_Id s), rf_identifier = s_Identifier s, rf_name = s_Name s, rf_ip_addr = s_IpAddr s,
       rf_location = s_Location s, rf_partner = s_Partner s, rf_cameras = s_Cameras s, rf_status = s_Status s,
       rf_status_changed_at_ms = s_StatusChangedAt s, rf_upstream = s_Upstream s,
       rf_devices = map (\<lambda>d. \<lparr>rd_station_id = uu_String c (d_StationId d), rd_name = d_Name d\<rparr>) (sfi_Devices sf),
       rf_items = map (\<lambda>i. \<lparr>ri_station_id = uu_String c (i_StationId i), ri_name = i_Name i, ri_type = i_Type i,
          ri_device_name = i_DeviceName i, ri_status = i_Status i, ri_status_changed_at_ms = i_StatusChangedAt i,
          ri_available = i_Available i\<rparr>) (sfi_Items sf)\<rparr>)"

definition dbDeviceRecordToProto :: "uuid_codec \<Rightarrow> DeviceRecord \<Rightarrow> relay_device_record" where
  "dbDeviceRecordToProto c dr =
     \<lparr>rr_id = uu_String c (r_Id dr), rr_station_id = uu_String c (r_StationId dr), rr_device_name = r_DeviceName dr,
      rr_config = r_Record dr\<rparr>"

definition protoToDbStation :: "uuid_codec \<Rightarrow> relay_station_full \<Rightarrow> station" where
  "protoToDbStation c pb =
     \<lparr>s_Id = fst (uu_Parse c (rf_id pb)), s_Identifier = rf_identifier pb, s_Name = rf_name pb, s_IpAddr = rf_ip_addr pb,
      s_Location = rf_location pb, s_Partner = rf_partner pb, s_Cameras = rf_cameras pb, s_Status = rf_status pb,
      s_StatusChangedAt = rf_status_changed_at_ms pb, s_Upstream = rf_upstream pb\<rparr>"

definition protoToDbDevice :: "uuid_codec \<Rightarrow> relay_device \<Rightarrow> uuid \<Rightarrow> device" where
  "protoToDbDevice c pb stationID =
     \<lparr>d_StationId = (if stationID = uuid_Nil then fst (uu_Parse c (rd_station_id pb)) else stationID), d_Name = rd_name pb,
      d_Specs = None, d_LastMaintenance = 0\<rparr>"

definition protoToDbItem :: "uuid_codec \<Rightarrow> relay_item \<Rightarrow> item" where
  "protoToDbItem c pb =
     \<lparr>i_StationId = fst (uu_Parse c (ri_station_id pb)), i_Name = ri_name pb, i_Type = ri_type pb,
      i_DeviceName = ri_device_name pb, i_Status = ri_status pb, i_StatusChangedAt = ri_status_changed_at_ms pb,
      i_Available = ri_available pb\<rparr>"

definition protoToDbDeviceRecord :: "uuid_codec \<Rightarrow> relay_device_record \<Rightarrow> DeviceRecord" where
  "protoToDbDeviceRecord c pb =
     \<lparr>r_Id = fst (uu_Parse c (rr_id pb)), r_StationId = fst (uu_Parse c (rr_station_id pb)),
      r_DeviceName = rr_device_name pb, r_Record = rr_config pb, r_CreatedAt = 0, r_UpdatedAt = 0, r_Version = 0\<rparr>"

text \<open>What survives the round trip: a station and an item in full, a device record without its version.\<close>

lemma relay_station_roundtrip:
  assumes "uuid_roundtrip c"
  shows "protoToDbStation c (dbStationFullToProto c sf) = sfi_Station sf"
  by (simp add: protoToDbStation_def dbStationFullToProto_def Let_def uuid_roundtripD [OF assms])

lemma relay_record_roundtrip:
  assumes "uuid_roundtrip c"
  shows "protoToDbDeviceRecord c (dbDeviceRecordToProto c dr) = dr\<lparr>r_CreatedAt := 0, r_UpdatedAt := 0, r_Version := 0\<rparr>"
  by (simp add: protoToDbDeviceRecord_def dbDeviceRecordToProto_def uuid_roundtripD [OF assms])

end
