(* ===== verification/RelayDownstream.thy ===== *)
theory RelayDownstream
  imports RelayProto StationStatus
begin

text \<open>
  The downstream end of the relay: \<^verbatim>\<open>apply.go\<close>, \<^verbatim>\<open>downstream.go\<close> and \<open>DBDownstreamStore\<close> of
  \<^verbatim>\<open>store_db.go\<close> in \<^verbatim>\<open>tide_server/syncv2/relay\<close>, and the notifier of
  \<^verbatim>\<open>controller/syncv2_adapters.go\<close>.

  As on the station side the Go interfaces are records of operations. The edit lock makes an applied
  event one transition. The order of a Go map that the code builds is its argument \<open>visit\<close>.
\<close>

record 's downstream_store =
  ds_UpdateAvailableItems :: "int \<Rightarrow> uuid_strings_map \<Rightarrow> ('s, bool) eff"
  ds_RemoveAvailableByUpstreamID :: "int \<Rightarrow> ('s, unit) eff"
  ds_GetStationsByUpstreamID :: "int \<Rightarrow> ('s, station list) eff"
  ds_GetDevices :: "uuid \<Rightarrow> ('s, device list) eff"
  ds_GetItems :: "uuid \<Rightarrow> ('s, item list) eff"
  ds_SyncStation :: "int \<Rightarrow> station \<Rightarrow> ('s, bool) eff"
  ds_SyncStationCannotEdit :: "uuid \<Rightarrow> raw_message \<Rightarrow> ('s, bool) eff"
  ds_DelUpstreamStation :: "int \<Rightarrow> uuid \<Rightarrow> ('s, bool) eff"
  ds_UpdateStationStatus :: "uuid \<Rightarrow> status \<Rightarrow> unix_ms \<Rightarrow> ('s, bool) eff"
  ds_SyncDevice :: "device \<Rightarrow> ('s, bool) eff"
  ds_DelDevice :: "uuid \<Rightarrow> string \<Rightarrow> ('s, bool) eff"
  ds_SyncItem :: "item \<Rightarrow> ('s, bool) eff"
  ds_DelItem :: "uuid \<Rightarrow> string \<Rightarrow> ('s, bool) eff"
  ds_SyncDeviceRecord :: "DeviceRecord \<Rightarrow> ('s, bool) eff"
  ds_LatestStatusLogRowID :: "uuid \<Rightarrow> ('s, int) eff"
  ds_SaveItemStatusLog :: "uuid \<Rightarrow> int \<Rightarrow> string \<Rightarrow> status \<Rightarrow> unix_ms \<Rightarrow> ('s, bool) eff"
  ds_UpdateAndSaveStatusLog :: "uuid \<Rightarrow> int \<Rightarrow> string \<Rightarrow> status \<Rightarrow> unix_ms \<Rightarrow> ('s, bool) eff"
  ds_UpdateItemStatus :: "uuid \<Rightarrow> string \<Rightarrow> status \<Rightarrow> unix_ms \<Rightarrow> ('s, bool) eff"
  ds_GetAllItems :: "('s, item list) eff"
  ds_ItemsLatest :: "uuid \<Rightarrow> string list \<Rightarrow> ('s, (string, int) go_map) eff"
  ds_EnsureDataTable :: "string \<Rightarrow> ('s, unit) eff"
  ds_SaveDataHistory :: "uuid \<Rightarrow> string \<Rightarrow> float64 \<Rightarrow> unix_ms \<Rightarrow> ('s, bool) eff"

record 'n relay_notifier =
  rn_PublishConfig :: "string \<Rightarrow> msg_body \<Rightarrow> 'n \<Rightarrow> 'n"
  rn_PublishStatus :: "string \<Rightarrow> msg_body \<Rightarrow> 'n \<Rightarrow> 'n"
  rn_BroadcastAvailableChange :: "uuid_strings_map \<Rightarrow> 'n \<Rightarrow> 'n"
  rn_PublishMissData :: "station_item \<Rightarrow> data_time \<Rightarrow> 'n \<Rightarrow> 'n"
  rn_PublishData :: "station_item \<Rightarrow> data_time \<Rightarrow> bool \<Rightarrow> 'n \<Rightarrow> 'n"

record ('s, 'n) relay_deps =
  rl_Store :: "'s downstream_store"
  rl_Notifier :: "'n relay_notifier"
  rl_uuid :: uuid_codec
  rl_decode :: event_decoder

section \<open>The store on the server's tables (\<open>store_db.go\<close>)\<close>

definition DBDownstream_ItemsLatest :: "uuid \<Rightarrow> string list \<Rightarrow> (string, int) go_map db_op" where
  "DBDownstream_ItemsLatest sid names = GetItemsLatest sid (fold (\<lambda>name m. AList.update name 0 m) names [])"

definition DBDownstreamStore :: "tide_db downstream_store" where
  "DBDownstreamStore =
     \<lparr>ds_UpdateAvailableItems = (\<lambda>u m. changedE (UpdateAvailableItems u m)),
      ds_RemoveAvailableByUpstreamID = RemoveAvailableByUpstreamId,
      ds_GetStationsByUpstreamID = GetStationsByUpstreamId,
      ds_GetDevices = GetDevices,
      ds_GetItems = GetItems,
      ds_SyncStation = (\<lambda>u s. changedE (SyncStation u s)),
      ds_SyncStationCannotEdit = (\<lambda>sid c. changedE (SyncStationCannotEdit sid c)),
      ds_DelUpstreamStation = (\<lambda>u sid. changedE (DelUpstreamStation u sid)),
      ds_UpdateStationStatus = (\<lambda>sid st t. changedE (UpdateStationStatus sid st t)),
      ds_SyncDevice = (\<lambda>d. changedE (SyncDevice d)),
      ds_DelDevice = (\<lambda>sid n. changedE (DelDevice sid n)),
      ds_SyncItem = (\<lambda>i. changedE (SyncItem i)),
      ds_DelItem = (\<lambda>sid n. changedE (DelItem sid n)),
      ds_SyncDeviceRecord = (\<lambda>dr. changedE (SyncDeviceRecord dr)),
      ds_LatestStatusLogRowID = GetLatestStatusLogRowId,
      ds_SaveItemStatusLog = (\<lambda>sid r n st t. changedE (SaveItemStatusLog sid r n st t)),
      ds_UpdateAndSaveStatusLog = (\<lambda>sid r n st t. changedE (UpdateAndSaveStatusLog sid r n st t)),
      ds_UpdateItemStatus = (\<lambda>sid n st t. changedE (UpdateItemStatus sid n st t)),
      ds_GetAllItems = GetItems uuid_Nil,
      ds_ItemsLatest = DBDownstream_ItemsLatest,
      ds_EnsureDataTable = MakeSureTableExist,
      ds_SaveDataHistory = (\<lambda>sid n v t. changedE (SaveDataHistory sid n v t))\<rparr>"

section \<open>Applying what the upstream sends (\<open>apply.go\<close>)\<close>

text \<open>\<^verbatim>\<open>if changed, err := ...; err != nil { return err } else if changed { publish }\<close>.\<close>

definition changed_then :: "('s, bool) eff \<Rightarrow> ('n \<Rightarrow> 'n) \<Rightarrow> ('s \<times> 'n, unit) eff" where
  "changed_then m f = bindE (fstE m) (\<lambda>changed. if changed then notify f else retE ())"

definition parsed :: "uuid_codec \<Rightarrow> string \<Rightarrow> uuid option" where
  "parsed c s = (case uu_Parse c s of (u, None) \<Rightarrow> Some u | (_, Some _) \<Rightarrow> None)"

definition available_body :: "uuid_codec \<Rightarrow> (string, string list) go_map \<Rightarrow> uuid_strings_map" where
  "available_body c av =
     fold (\<lambda>(s, names) m. case parsed c s of None \<Rightarrow> m | Some u \<Rightarrow> AList.update u names m) av []"

definition applyAvailableItems ::
  "('s, 'n) relay_deps \<Rightarrow> int \<Rightarrow> (string, string list) go_map \<Rightarrow> ('s \<times> 'n, unit) eff" where
  "applyAvailableItems deps upstreamID av =
     (let body = available_body (rl_uuid deps) av in
      changed_then (ds_UpdateAvailableItems (rl_Store deps) upstreamID body)
        (rn_BroadcastAvailableChange (rl_Notifier deps) body))"

definition full_device_step :: "('s, 'n) relay_deps \<Rightarrow> relay_device \<Rightarrow> ('s \<times> 'n, unit) eff" where
  "full_device_step deps pbDev =
     (let device = protoToDbDevice (rl_uuid deps) pbDev (fst (uu_Parse (rl_uuid deps) (rd_station_id pbDev))) in
      changed_then (ds_SyncDevice (rl_Store deps) device)
        (rn_PublishConfig (rl_Notifier deps) kMsgSyncDevice (BDevice device)))"

definition device_key :: "uuid_codec \<Rightarrow> uuid \<Rightarrow> string \<Rightarrow> string" where
  "device_key c sid name = uu_String c sid @ name"

definition full_del_device_step ::
  "('s, 'n) relay_deps \<Rightarrow> relay_device list \<Rightarrow> device \<Rightarrow> ('s \<times> 'n, unit) eff" where
  "full_del_device_step deps pbs d =
     (let c = rl_uuid deps;
          newDeviceSet = map (\<lambda>pb. device_key c (fst (uu_Parse c (rd_station_id pb))) (rd_name pb)) pbs in
      if device_key c (d_StationId d) (d_Name d) \<in> set newDeviceSet then retE ()
      else changed_then (ds_DelDevice (rl_Store deps) (d_StationId d) (d_Name d))
             (rn_PublishConfig (rl_Notifier deps) kMsgDelDevice (BDevice d)))"

definition full_item_step :: "('s, 'n) relay_deps \<Rightarrow> relay_item \<Rightarrow> ('s \<times> 'n, unit) eff" where
  "full_item_step deps pbItem =
     (let item = protoToDbItem (rl_uuid deps) pbItem in
      changed_then (ds_SyncItem (rl_Store deps) item)
        (rn_PublishConfig (rl_Notifier deps) kMsgSyncItem (BItem item)))"

definition full_del_item_step :: "('s, 'n) relay_deps \<Rightarrow> relay_item list \<Rightarrow> item \<Rightarrow> ('s \<times> 'n, unit) eff" where
  "full_del_item_step deps pbs i =
     (let newItemSet = map (\<lambda>pb. (fst (uu_Parse (rl_uuid deps) (ri_station_id pb)), ri_name pb)) pbs in
      if (i_StationId i, i_Name i) \<in> set newItemSet then retE ()
      else changed_then (ds_DelItem (rl_Store deps) (i_StationId i) (i_Name i))
             (rn_PublishConfig (rl_Notifier deps) kMsgDelItem (BItem i)))"

text \<open>A read whose error is dropped yields the empty slice.\<close>

definition or_empty :: "('s, 'a list) eff \<Rightarrow> ('s, 'a list) eff" where
  "or_empty m = bindE (tryE m) (\<lambda>r. retE (case r of Inl _ \<Rightarrow> [] | Inr xs \<Rightarrow> xs))"

definition full_station_step ::
  "('s, 'n) relay_deps \<Rightarrow> int \<Rightarrow> relay_station_full \<Rightarrow> ('s \<times> 'n, unit) eff" where
  "full_station_step deps upstreamID pb =
     (case parsed (rl_uuid deps) (rf_id pb) of
        None \<Rightarrow> retE ()
      | Some sid \<Rightarrow>
          (let st = rl_Store deps; nt = rl_Notifier deps; station = protoToDbStation (rl_uuid deps) pb in
           bindE (fstE (or_empty (ds_GetDevices st sid))) (\<lambda>oldDevices.
           bindE (fstE (or_empty (ds_GetItems st sid))) (\<lambda>oldItems.
           bindE (changed_then (ds_SyncStation st upstreamID station)
             (rn_PublishConfig nt kMsgSyncStation (BStation station))) (\<lambda>_.
           bindE (changed_then (ds_SyncStationCannotEdit st sid (s_Cameras station))
             (rn_PublishConfig nt kMsgSyncStationCannotEdit (BStation station))) (\<lambda>_.
           bindE (changed_then (ds_UpdateStationStatus st sid (rf_status pb) (rf_status_changed_at_ms pb))
             (rn_PublishConfig nt kMsgUpdateStationStatus (BStationStatus
               \<lparr>ss_station_id = sid, ss_identifier = rf_identifier pb, ss_status = rf_status pb,
                ss_changed_at = rf_status_changed_at_ms pb\<rparr>))) (\<lambda>_.
           bindE (forE (full_device_step deps) (rf_devices pb)) (\<lambda>_.
           bindE (forE (full_del_device_step deps (rf_devices pb)) oldDevices) (\<lambda>_.
           bindE (forE (full_item_step deps) (rf_items pb)) (\<lambda>_.
             forE (full_del_item_step deps (rf_items pb)) oldItems))))))))))"

definition new_stations :: "uuid_codec \<Rightarrow> relay_station_full list \<Rightarrow> uuid list" where
  "new_stations c pbs = concat (map (\<lambda>pb. case parsed c (rf_id pb) of None \<Rightarrow> [] | Some u \<Rightarrow> [u]) pbs)"

definition full_del_station_step ::
  "('s, 'n) relay_deps \<Rightarrow> int \<Rightarrow> relay_station_full list \<Rightarrow> station \<Rightarrow> ('s \<times> 'n, unit) eff" where
  "full_del_station_step deps upstreamID pbs station =
     (if s_Id station \<in> set (new_stations (rl_uuid deps) pbs) then retE ()
      else changed_then (ds_DelUpstreamStation (rl_Store deps) upstreamID (s_Id station))
             (rn_PublishConfig (rl_Notifier deps) kMsgDelUpstreamStation (BStationId (s_Id station))))"

definition full_record_step :: "('s, 'n) relay_deps \<Rightarrow> relay_device_record \<Rightarrow> ('s \<times> 'n, unit) eff" where
  "full_record_step deps pb =
     (let dr = protoToDbDeviceRecord (rl_uuid deps) pb in
      changed_then (ds_SyncDeviceRecord (rl_Store deps) dr)
        (rn_PublishConfig (rl_Notifier deps) kMsgEditDeviceRecord (BDeviceRecord dr)))"

definition applyFullConfig ::
  "('s, 'n) relay_deps \<Rightarrow> int \<Rightarrow> relay_config_batch \<Rightarrow> ('s \<times> 'n, unit) eff" where
  "applyFullConfig deps upstreamID batch =
     bindE (fstE (ds_GetStationsByUpstreamID (rl_Store deps) upstreamID)) (\<lambda>oldStations.
     bindE (forE (full_station_step deps upstreamID) (cb_stations batch)) (\<lambda>_.
     bindE (forE (full_del_station_step deps upstreamID (cb_stations batch)) oldStations) (\<lambda>_.
       forE (full_record_step deps) (cb_device_records batch))))"

text \<open>The events of an incremental batch; an unknown type is ignored.\<close>

definition applyConfigEvent :: "('s, 'n) relay_deps \<Rightarrow> int \<Rightarrow> relay_config_event \<Rightarrow> ('s \<times> 'n, unit) eff" where
  "applyConfigEvent deps upstreamID evt =
     (let st = rl_Store deps; nt = rl_Notifier deps; dec = rl_decode deps; ty = ev_type evt; p = ev_payload evt;
          publish = rn_PublishConfig nt ty (BJson p); publishStatus = rn_PublishStatus nt ty (BJson p) in
      if ty = kMsgSyncStation then
        bindE (liftR (dec_station dec p)) (\<lambda>s. changed_then (ds_SyncStation st upstreamID s) publish)
      else if ty = kMsgSyncStationCannotEdit then
        bindE (liftR (dec_station dec p)) (\<lambda>s. changed_then (ds_SyncStationCannotEdit st (s_Id s) (s_Cameras s)) publish)
      else if ty = kMsgDelUpstreamStation then
        bindE (liftR (dec_station_id dec p)) (\<lambda>u. changed_then (ds_DelUpstreamStation st upstreamID u) publish)
      else if ty = kMsgSyncDevice then
        bindE (liftR (dec_device dec p)) (\<lambda>d. changed_then (ds_SyncDevice st d) publish)
      else if ty = kMsgDelDevice then
        bindE (liftR (dec_device dec p)) (\<lambda>d. changed_then (ds_DelDevice st (d_StationId d) (d_Name d)) publish)
      else if ty = kMsgSyncItem then
        bindE (liftR (dec_item dec p)) (\<lambda>i. changed_then (ds_SyncItem st i) publish)
      else if ty = kMsgDelItem then
        bindE (liftR (dec_item dec p)) (\<lambda>i. changed_then (ds_DelItem st (i_StationId i) (i_Name i)) publish)
      else if ty = kMsgEditDeviceRecord then
        bindE (liftR (dec_device_record dec p)) (\<lambda>r. changed_then (ds_SyncDeviceRecord st r) publish)
      else if ty = kMsgUpdateStationStatus then
        bindE (liftR (dec_station_status dec p)) (\<lambda>b.
          changed_then (ds_UpdateStationStatus st (ss_station_id b) (ss_status b) (ss_changed_at b)) publishStatus)
      else if ty = kMsgMissItemStatus \<or> ty = kMsgUpdateItemStatus then
        bindE (liftR (dec_full_status dec p)) (\<lambda>b. let l = fs_row b in
          changed_then (ds_UpdateAndSaveStatusLog st (fs_station_id b) (rs_row_id l) (rs_item_name l) (rs_status l)
            (rs_changed_at l)) publishStatus)
      else if ty = kMsgUpdateAvailable then
        bindE (liftR (dec_available dec p)) (\<lambda>b.
          changed_then (ds_UpdateAvailableItems st upstreamID b) (rn_BroadcastAvailableChange nt b))
      else retE ())"

definition applyStatusEvent :: "('s, 'n) relay_deps \<Rightarrow> relay_status_event \<Rightarrow> ('s \<times> 'n, unit) eff" where
  "applyStatusEvent deps evt =
     (case parsed (rl_uuid deps) (se_station_id evt) of
        None \<Rightarrow> retE ()
      | Some sid \<Rightarrow>
          (let st = rl_Store deps; nt = rl_Notifier deps in
           if se_item_name evt = [] then
             ignoreE (changed_then (ds_UpdateStationStatus st sid (se_status evt) (se_changed_at_unix_ms evt))
               (rn_PublishStatus nt kMsgUpdateStationStatus (BStationStatus
                 \<lparr>ss_station_id = sid, ss_identifier = se_identifier evt, ss_status = se_status evt,
                  ss_changed_at = se_changed_at_unix_ms evt\<rparr>)))
           else
             (let l = \<lparr>rs_row_id = se_row_id evt, rs_item_name = se_item_name evt, rs_status = se_status evt,
                       rs_changed_at = se_changed_at_unix_ms evt\<rparr> in
              ignoreE (changed_then (ds_UpdateAndSaveStatusLog st sid (rs_row_id l) (rs_item_name l) (rs_status l)
                  (rs_changed_at l))
                (rn_PublishStatus nt kMsgUpdateItemStatus (BFullItemStatus
                  \<lparr>fs_station_id = sid, fs_identifier = se_identifier evt, fs_row = l\<rparr>))))))"

definition relay_point_step ::
  "('s, 'n) relay_deps \<Rightarrow> uuid \<Rightarrow> string \<Rightarrow> data_point \<Rightarrow> ('s \<times> 'n, unit) eff" where
  "relay_point_step deps sid dataType point =
     (let st = rl_Store deps; nt = rl_Notifier deps; item = pt_item_name point; tm = pt_unix_ms point;
          gpio = (pt_kind point = DATA_KIND_GPIO); data = \<lparr>dt_value = pt_value point, dt_msec = tm\<rparr> in
      bindE (fstE (ds_EnsureDataTable st item)) (\<lambda>_.
      bindE (fstE (ds_SaveDataHistory st sid item (pt_value point) tm)) (\<lambda>inserted.
        if \<not> inserted then retE ()
        else bindE (if gpio then ignoreE (fstE (ds_UpdateItemStatus st sid item NoStatus tm)) else retE ()) (\<lambda>_.
          if dataType = kMsgMissData then notify (rn_PublishMissData nt (sid, item) data)
          else notify (rn_PublishData nt (sid, item) data gpio)))))"

text \<open>The first error ends the batch; the caller never sees it.\<close>

definition applyDataBatch :: "('s, 'n) relay_deps \<Rightarrow> relay_data_batch \<Rightarrow> ('s \<times> 'n, unit) eff" where
  "applyDataBatch deps batch =
     (if rb_station_id batch = [] \<or> rb_points batch = [] then retE ()
      else case parsed (rl_uuid deps) (rb_station_id batch) of
        None \<Rightarrow> retE ()
      | Some sid \<Rightarrow> ignoreE (forE (relay_point_step deps sid (rb_data_type batch)) (rb_points batch)))"

section \<open>The session (\<open>downstream.go\<close>)\<close>

type_synonym ('s, 'n) relay_state = "('s \<times> 'n) \<times> relay_message stream"

definition status_latest_step ::
  "('s, 'n) relay_deps \<Rightarrow> relay_station_full list \<Rightarrow> ('s, (string, int) go_map) eff" where
  "status_latest_step deps pbs s =
     (case forE (\<lambda>pb. case parsed (rl_uuid deps) (rf_id pb) of
                    None \<Rightarrow> retE ()
                  | Some sid \<Rightarrow> bindE (fstE (ds_LatestStatusLogRowID (rl_Store deps) sid)) (\<lambda>row.
                      sndE (modifyE (AList.update (rf_id pb) row)))) pbs (s, []) of
        (Inl e, (s', _)) \<Rightarrow> (Inl e, s')
      | (Inr _, (s', m)) \<Rightarrow> (Inr m, s'))"

definition miss_status_step :: "('s, 'n) relay_deps \<Rightarrow> relay_config_event \<Rightarrow> ('s \<times> 'n, unit) eff" where
  "miss_status_step deps evt =
     (if ev_type evt \<noteq> kMsgMissItemStatus then retE ()
      else ignoreE (bindE (liftR (dec_full_status (rl_decode deps) (ev_payload evt))) (\<lambda>b. let l = fs_row b in
        bindE (fstE (ds_UpdateItemStatus (rl_Store deps) (fs_station_id b) (rs_item_name l) (rs_status l) (rs_changed_at l))) (\<lambda>_.
          changed_then (ds_SaveItemStatusLog (rl_Store deps) (fs_station_id b) (rs_row_id l) (rs_item_name l) (rs_status l)
              (rs_changed_at l))
            (rn_PublishConfig (rl_Notifier deps) kMsgMissItemStatus (BFullItemStatus b))))))"

definition syncMissStatus ::
  "('s, 'n) relay_deps \<Rightarrow> relay_station_full list \<Rightarrow> (('s, 'n) relay_state, unit) eff" where
  "syncMissStatus deps pbs =
     bindE (fstE (fstE (status_latest_step deps pbs))) (\<lambda>latest.
     bindE (sndE (Send (RStationsStatusLatest latest))) (\<lambda>_.
     bindE (sndE Recv) (\<lambda>frame.
       case frame of
         RConfigBatch cb \<Rightarrow> fstE (forE (miss_status_step deps) (cb_events cb))
       | _ \<Rightarrow> throwE (ErrorString ''expected config batch with miss status logs''))))"

definition miss_point_step :: "('s, 'n) relay_deps \<Rightarrow> uuid \<Rightarrow> data_point \<Rightarrow> ('s \<times> 'n, unit) eff" where
  "miss_point_step deps sid point =
     (let st = rl_Store deps; item = pt_item_name point; tm = pt_unix_ms point in
      bindE (fstE (ds_EnsureDataTable st item)) (\<lambda>_.
      changed_then (ds_SaveDataHistory st sid item (pt_value point) tm)
        (rn_PublishMissData (rl_Notifier deps) (sid, item) \<lparr>dt_value = pt_value point, dt_msec = tm\<rparr>)))"

text \<open>The receive loop of \<open>syncMissData\<close>; an empty batch ends it.\<close>

fun miss_data_loop ::
  "('s, 'n) relay_deps \<Rightarrow> relay_message result list \<Rightarrow> ('s \<times> 'n, relay_message result list) eff" where
  "miss_data_loop deps [] = throwE io_EOF"
| "miss_data_loop deps (Inl e # rs) = throwE e"
| "miss_data_loop deps (Inr frame # rs) =
     (case frame of
        RDataBatch b \<Rightarrow>
          if rb_station_id b = [] \<and> rb_points b = [] then retE rs
          else (case parsed (rl_uuid deps) (rb_station_id b) of
                  None \<Rightarrow> miss_data_loop deps rs
                | Some sid \<Rightarrow> bindE (forE (miss_point_step deps sid) (rb_points b)) (\<lambda>_. miss_data_loop deps rs))
      | _ \<Rightarrow> throwE (ErrorString ''unexpected frame during miss data sync''))"

definition items_latest_step ::
  "('s, 'n) relay_deps \<Rightarrow> uuid_strings_map \<Rightarrow> ('s, (string, (string, int) go_map) go_map) eff" where
  "items_latest_step deps byStation s =
     (case forE (\<lambda>(sid, names). bindE (fstE (ds_ItemsLatest (rl_Store deps) sid names)) (\<lambda>latest.
                  sndE (modifyE (AList.update (uu_String (rl_uuid deps) sid) latest)))) byStation (s, []) of
        (Inl e, (s', _)) \<Rightarrow> (Inl e, s')
      | (Inr _, (s', m)) \<Rightarrow> (Inr m, s'))"

definition syncMissData ::
  "(uuid_strings_map \<Rightarrow> uuid_strings_map) \<Rightarrow> ('s, 'n) relay_deps \<Rightarrow> (('s, 'n) relay_state, unit) eff" where
  "syncMissData visit deps =
     bindE (fstE (fstE (ds_GetAllItems (rl_Store deps)))) (\<lambda>all_items.
     bindE (fstE (fstE (items_latest_step deps (visit (group_items (map (\<lambda>i. (i_StationId i, i_Name i)) all_items)))))) (\<lambda>latest.
     bindE (sndE (Send (RStationsItemsLatest latest))) (\<lambda>_ st.
       (case miss_data_loop deps (inbox (snd st)) (fst st) of
          (Inl e, sn) \<Rightarrow> (Inl e, (sn, (snd st)\<lparr>inbox := []\<rparr>))
        | (Inr rs, sn) \<Rightarrow> (Inr (), (sn, (snd st)\<lparr>inbox := rs\<rparr>))))))"

definition runDownstreamHandshake :: "string \<Rightarrow> (relay_message stream, unit) eff" where
  "runDownstreamHandshake username =
     bindE (Send (RDownstreamHello username ''v2'')) (\<lambda>_.
     bindE Recv (\<lambda>frame. case frame of RUpstreamHello _ \<Rightarrow> retE () | _ \<Rightarrow> throwE (ErrorString ''expected upstream_hello'')))"

definition runDownstreamBootstrap ::
  "(uuid_strings_map \<Rightarrow> uuid_strings_map) \<Rightarrow> ('s, 'n) relay_deps \<Rightarrow> int \<Rightarrow> (('s, 'n) relay_state, unit) eff" where
  "runDownstreamBootstrap visit deps upstreamID =
     bindE (sndE Recv) (\<lambda>f1.
       case f1 of
         RAvailableItems av \<Rightarrow>
           bindE (fstE (applyAvailableItems deps upstreamID av)) (\<lambda>_.
           bindE (sndE Recv) (\<lambda>f2.
             case f2 of
               RConfigBatch cb \<Rightarrow>
                 if \<not> cb_full_sync cb then throwE (ErrorString ''expected full config batch'')
                 else bindE (fstE (applyFullConfig deps upstreamID cb)) (\<lambda>_.
                      bindE (syncMissStatus deps (cb_stations cb)) (\<lambda>_. syncMissData visit deps))
             | _ \<Rightarrow> throwE (ErrorString ''expected full config batch'')))
       | _ \<Rightarrow> throwE (ErrorString ''expected available_items''))"

text \<open>The incremental loop; an end of stream is not an error.\<close>

fun runDownstreamIncremental ::
  "('s, 'n) relay_deps \<Rightarrow> int \<Rightarrow> relay_message result list \<Rightarrow> ('s \<times> 'n, unit) eff" where
  "runDownstreamIncremental deps up [] = retE ()"
| "runDownstreamIncremental deps up (Inl e # rs) = (if errors_is e io_EOF then retE () else throwE e)"
| "runDownstreamIncremental deps up (Inr frame # rs) =
     (case frame of
        RConfigBatch cb \<Rightarrow> bindE (forE (\<lambda>evt. ignoreE (applyConfigEvent deps up evt)) (cb_events cb))
                             (\<lambda>_. runDownstreamIncremental deps up rs)
      | RStatusEvent evt \<Rightarrow> bindE (applyStatusEvent deps evt) (\<lambda>_. runDownstreamIncremental deps up rs)
      | RDataBatch b \<Rightarrow> bindE (applyDataBatch deps b) (\<lambda>_. runDownstreamIncremental deps up rs)
      | RAvailableItems av \<Rightarrow> bindE (ignoreE (applyAvailableItems deps up av)) (\<lambda>_. runDownstreamIncremental deps up rs)
      | RError _ msg retryable \<Rightarrow> if retryable then runDownstreamIncremental deps up rs else throwE (ErrorString msg)
      | _ \<Rightarrow> runDownstreamIncremental deps up rs)"

definition RunDownstream ::
  "(uuid_strings_map \<Rightarrow> uuid_strings_map) \<Rightarrow> ('s, 'n) relay_deps \<Rightarrow> int \<Rightarrow> string \<Rightarrow> (('s, 'n) relay_state, unit) eff" where
  "RunDownstream visit deps upstreamID username =
     bindE (sndE (runDownstreamHandshake username)) (\<lambda>_.
     bindE (runDownstreamBootstrap visit deps upstreamID) (\<lambda>_ st.
       fstE (runDownstreamIncremental deps upstreamID (inbox (snd st))) st))"

section \<open>The notifier on the hub (\<open>syncv2_adapters.go\<close>)\<close>

definition syncV2RelayDownstreamNotifier ::
  "(string \<Rightarrow> int result) \<Rightarrow> (string \<Rightarrow> uuid_strings_map result) \<Rightarrow> sync_hub relay_notifier" where
  "syncV2RelayDownstreamNotifier getRole getPermissions =
     \<lparr>rn_PublishConfig = (\<lambda>ty b. hub_Publish BrokerConfig (SendMsg ty b) None),
      rn_PublishStatus = (\<lambda>ty b. hub_Publish BrokerStatus (SendMsg ty b) None),
      rn_BroadcastAvailableChange = BroadcastAvailableChange getRole getPermissions,
      rn_PublishMissData = (\<lambda>k d. hub_Publish BrokerMissingData (ForwardData kMsgMissData k d) (Some k)),
      rn_PublishData = (\<lambda>k d gpio. hub_Publish BrokerData (ForwardData (if gpio then kMsgDataGpio else kMsgData) k d) (Some k))\<rparr>"

end
