(* ===== verification/RelaySession.thy ===== *)
theory RelaySession
  imports RelayDownstream
begin

text \<open>
  What a relay session does to the downstream server: it keeps every predicate its store operations
  keep (\<open>relay_invariant\<close>), measurements are stored and forwarded exactly once, and a full
  configuration that names a device is always refused by the tables.
\<close>

section \<open>Invariants of a session\<close>

locale relay_invariant =
  fixes store :: "'s downstream_store" and P :: "'s \<Rightarrow> bool"
  assumes relay_ops: "preserves P (ds_UpdateAvailableItems store u m)" "preserves P (ds_GetStationsByUpstreamID store u)"
      "preserves P (ds_GetDevices store sid)" "preserves P (ds_GetItems store sid)"
      "preserves P (ds_SyncStation store u s)" "preserves P (ds_SyncStationCannotEdit store sid c)"
      "preserves P (ds_DelUpstreamStation store u sid)" "preserves P (ds_UpdateStationStatus store sid st t)"
      "preserves P (ds_SyncDevice store d)" "preserves P (ds_DelDevice store sid n)"
      "preserves P (ds_SyncItem store i)" "preserves P (ds_DelItem store sid n)"
      "preserves P (ds_SyncDeviceRecord store r)" "preserves P (ds_LatestStatusLogRowID store sid)"
      "preserves P (ds_SaveItemStatusLog store sid row n st t)" "preserves P (ds_UpdateAndSaveStatusLog store sid row n st t)"
      "preserves P (ds_UpdateItemStatus store sid n st t)" "preserves P (ds_GetAllItems store)"
      "preserves P (ds_ItemsLatest store sid names)" "preserves P (ds_EnsureDataTable store n)"
      "preserves P (ds_SaveDataHistory store sid n v t)"
begin

abbreviation keeps :: "('s \<times> 'n, 'a) eff \<Rightarrow> bool" where
  "keeps m \<equiv> preserves (\<lambda>sn. P (fst sn)) m"

lemma keeps_store: "preserves P m \<Longrightarrow> keeps (fstE m)"
  by (rule preserves_fst)

lemma keepsD: "keeps m \<Longrightarrow> m sn = (r, sn') \<Longrightarrow> P (fst sn) \<Longrightarrow> P (fst sn')"
  using preservesD [of "\<lambda>sn. P (fst sn)" m sn] by simp

lemma keeps_snd: "keeps (sndE m)"
  by (rule preserves_snd_other)

lemma keeps_changed: "preserves P m \<Longrightarrow> keeps (changed_then m f)"
  unfolding changed_then_def notify_def by (intro preserves_bind preserves_if keeps_store keeps_snd preserves_ret)

lemma keeps_or_empty: "preserves P m \<Longrightarrow> preserves P (or_empty m)"
  unfolding or_empty_def by (intro preserves_bind preserves_try preserves_ret)

lemmas keeps_rules = preserves_bind preserves_if preserves_ret preserves_throw preserves_lift preserves_ignore preserves_for
  preserves_option keeps_changed keeps_store keeps_snd keeps_or_empty relay_ops

lemma full_station_keeps: "rl_Store deps = store \<Longrightarrow> keeps (full_station_step deps u pb)"
  unfolding full_station_step_def full_device_step_def [abs_def] full_del_device_step_def [abs_def]
    full_item_step_def [abs_def] full_del_item_step_def [abs_def] Let_def
  by (simp only:) (intro keeps_rules)

lemma applyFullConfig_keeps: "rl_Store deps = store \<Longrightarrow> keeps (applyFullConfig deps u cb)"
  unfolding applyFullConfig_def full_del_station_step_def [abs_def] full_record_step_def [abs_def] Let_def
  by (simp only:) (intro keeps_rules full_station_keeps)

lemma applyAvailableItems_keeps: "rl_Store deps = store \<Longrightarrow> keeps (applyAvailableItems deps u av)"
  unfolding applyAvailableItems_def Let_def by (simp only:) (intro keeps_rules)

lemma applyConfigEvent_keeps: "rl_Store deps = store \<Longrightarrow> keeps (applyConfigEvent deps u evt)"
  unfolding applyConfigEvent_def Let_def by (simp only:) (intro keeps_rules)

lemma applyStatusEvent_keeps: "rl_Store deps = store \<Longrightarrow> keeps (applyStatusEvent deps evt)"
  unfolding applyStatusEvent_def Let_def by (simp only:) (intro keeps_rules)

lemma applyDataBatch_keeps: "rl_Store deps = store \<Longrightarrow> keeps (applyDataBatch deps b)"
  unfolding applyDataBatch_def relay_point_step_def [abs_def] notify_def Let_def
  by (simp only:) (intro keeps_rules)

lemma miss_steps_keep:
  assumes "rl_Store deps = store"
  shows "keeps (miss_status_step deps evt)" "keeps (miss_point_step deps sid p)"
  unfolding miss_status_step_def miss_point_step_def Let_def assms by (intro keeps_rules)+

lemma miss_data_loop_keeps:
  assumes "rl_Store deps = store"
  shows "keeps (miss_data_loop deps rs)"
proof (induction rs)
  case Nil
  then show ?case by (simp add: pres)
next
  case (Cons r rs)
  show ?case
  proof (cases r)
    case (Inr f)
    then show ?thesis
      using Cons by (cases f) (auto intro!: pres miss_steps_keep [OF assms])
  qed (simp add: pres)
qed

lemma incremental_keeps:
  assumes "rl_Store deps = store"
  shows "keeps (runDownstreamIncremental deps u rs)"
proof (induction rs)
  case Nil
  then show ?case by (simp add: pres)
next
  case (Cons r rs)
  show ?case
  proof (cases r)
    case (Inr f)
    then show ?thesis
      using Cons by (cases f) (auto intro!: pres applyConfigEvent_keeps applyStatusEvent_keeps applyDataBatch_keeps
        applyAvailableItems_keeps assms)
  qed (simp add: pres)
qed

lemma latest_steps_keep:
  assumes "rl_Store deps = store"
  shows "preserves P (status_latest_step deps pbs)" "preserves P (items_latest_step deps bs)"
proof -
  let ?f = "\<lambda>pb. case parsed (rl_uuid deps) (rf_id pb) of
      None \<Rightarrow> retE ()
    | Some sid \<Rightarrow> bindE (fstE (ds_LatestStatusLogRowID (rl_Store deps) sid)) (\<lambda>row.
        sndE (modifyE (AList.update (rf_id pb) row)))"
  let ?g = "\<lambda>(sid, names). bindE (fstE (ds_ItemsLatest (rl_Store deps) sid names)) (\<lambda>latest.
      sndE (modifyE (AList.update (uu_String (rl_uuid deps) sid) latest)))"
  have f: "keeps (forE ?f pbs)" unfolding assms by (intro keeps_rules)
  have g: "keeps (forE ?g bs)" unfolding assms case_prod_unfold by (intro keeps_rules)
  show "preserves P (status_latest_step deps pbs)"
    using keepsD [OF f] by (fastforce simp: preserves_def status_latest_step_def split: prod.split sum.split)
  show "preserves P (items_latest_step deps bs)"
    using keepsD [OF g] by (fastforce simp: preserves_def items_latest_step_def split: prod.split sum.split)
qed

text \<open>The whole session; \<open>in_relay\<close> is the predicate on the session's state.\<close>

abbreviation in_relay :: "('s \<times> 'n) \<times> relay_message stream \<Rightarrow> bool" where
  "in_relay st \<equiv> P (fst (fst st))"

lemma relay_lift: "keeps m \<Longrightarrow> preserves in_relay (fstE m)" "preserves in_relay (sndE m')"
  by (simp_all add: preserves_def fstE_def sndE_def case_prod_unfold)

lemma syncMissStatus_keeps:
  assumes "rl_Store deps = store"
  shows "preserves in_relay (syncMissStatus deps pbs)"
  unfolding syncMissStatus_def
  by (intro preserves_bind relay_lift keeps_store latest_steps_keep [OF assms])
    (auto split: relay_message.split intro!: relay_lift pres miss_steps_keep [OF assms])

lemma syncMissData_keeps:
  fixes deps :: "('s, 'n) relay_deps"
  assumes "rl_Store deps = store"
  shows "preserves in_relay (syncMissData visit deps)"
proof -
  have loop: "preserves in_relay (\<lambda>st. case miss_data_loop deps (inbox (snd st)) (fst st) of
      (Inl e, sn) \<Rightarrow> (Inl e, (sn, (snd st)\<lparr>inbox := []\<rparr>)) | (Inr rs, sn) \<Rightarrow> (Inr (), (sn, (snd st)\<lparr>inbox := rs\<rparr>)))"
  proof (rule preservesI)
    fix st :: "('s \<times> 'n) \<times> relay_message stream"
    assume "in_relay st"
    with keepsD [OF miss_data_loop_keeps [OF assms], of "inbox (snd st)" "fst st"]
    show "in_relay (snd (case miss_data_loop deps (inbox (snd st)) (fst st) of
        (Inl e, sn) \<Rightarrow> (Inl e, (sn, (snd st)\<lparr>inbox := []\<rparr>)) | (Inr rs, sn) \<Rightarrow> (Inr (), (sn, (snd st)\<lparr>inbox := rs\<rparr>))))"
      by (auto split: prod.split sum.split)
  qed
  show ?thesis
    unfolding syncMissData_def
    by (intro preserves_bind relay_lift keeps_store latest_steps_keep [OF assms] loop) (simp add: assms relay_ops)
qed

lemma bootstrap_keeps:
  assumes "rl_Store deps = store"
  shows "preserves in_relay (runDownstreamBootstrap visit deps u)"
proof -
  have full: "preserves in_relay (case f of
        RConfigBatch cb \<Rightarrow>
          if \<not> cb_full_sync cb then throwE (ErrorString ''expected full config batch'')
          else bindE (fstE (applyFullConfig deps u cb)) (\<lambda>_.
               bindE (syncMissStatus deps (cb_stations cb)) (\<lambda>_. syncMissData visit deps))
      | _ \<Rightarrow> throwE (ErrorString ''expected full config batch''))" for f
    by (cases f) (auto intro!: pres relay_lift applyFullConfig_keeps syncMissStatus_keeps syncMissData_keeps assms)
  show ?thesis
    unfolding runDownstreamBootstrap_def
  proof (intro preserves_bind relay_lift)
    fix f
    show "preserves in_relay (case f of
        RAvailableItems av \<Rightarrow> bindE (fstE (applyAvailableItems deps u av)) (\<lambda>_. bindE (sndE Recv) (\<lambda>f2.
          case f2 of
            RConfigBatch cb \<Rightarrow>
              if \<not> cb_full_sync cb then throwE (ErrorString ''expected full config batch'')
              else bindE (fstE (applyFullConfig deps u cb)) (\<lambda>_.
                   bindE (syncMissStatus deps (cb_stations cb)) (\<lambda>_. syncMissData visit deps))
          | _ \<Rightarrow> throwE (ErrorString ''expected full config batch'')))
      | _ \<Rightarrow> throwE (ErrorString ''expected available_items''))"
      by (cases f) (simp_all add: preserves_throw preserves_bind relay_lift applyAvailableItems_keeps assms full)
  qed
qed

theorem RunDownstream_keeps:
  assumes "rl_Store deps = store"
  shows "preserves in_relay (RunDownstream visit deps u username)"
proof -
  have "preserves in_relay (\<lambda>st. fstE (runDownstreamIncremental deps u (inbox (snd st))) st)"
    by (rule preservesI) (rule preservesD [OF relay_lift(1) [OF incremental_keeps [OF assms]]])
  then show ?thesis
    unfolding RunDownstream_def by (intro preserves_bind relay_lift bootstrap_keeps assms)
qed

end

lemma changedE_pres: "preserves P m \<Longrightarrow> preserves P (changedE m)"
  unfolding changedE_def by (intro preserves_bind preserves_ret)

interpretation db_ok_relay: relay_invariant DBDownstreamStore db_ok
  by unfold_locales
    (simp_all add: DBDownstreamStore_def DBDownstream_ItemsLatest_def changedE_pres pres)

text \<open>
  A whole relay session on the server's tables keeps the table invariant, for every behaviour of
  the upstream, every decoder, every map order and every way the session ends.
\<close>

theorem relay_session_keeps_tables:
  assumes "db_ok (fst (fst st))" and "rl_Store deps = DBDownstreamStore"
  shows "db_ok (fst (fst (snd (RunDownstream visit deps upstreamID username st))))"
  using preservesD [OF db_ok_relay.RunDownstream_keeps [OF assms(2)], of st] assms(1) by simp

definition sample_codec :: uuid_codec where
  "sample_codec = \<lparr>uu_String = (\<lambda>u. CHR ''u'' # replicate (unat u) CHR ''1''),
     uu_Parse = (\<lambda>s. if s \<noteq> [] \<and> hd s = CHR ''u'' then (of_nat (length (tl s)), None)
                     else (0, Some (ErrorString ''invalid UUID format'')))\<rparr>"

lemma sample_codec_roundtrip: "uuid_roundtrip sample_codec"
  by (simp add: uuid_roundtrip_def sample_codec_def)

definition no_decoder :: event_decoder where
  "no_decoder = \<lparr>dec_station = (\<lambda>_. Inl io_EOF), dec_station_id = (\<lambda>_. Inl io_EOF), dec_device = (\<lambda>_. Inl io_EOF),
     dec_item = (\<lambda>_. Inl io_EOF), dec_device_record = (\<lambda>_. Inl io_EOF), dec_station_status = (\<lambda>_. Inl io_EOF),
     dec_full_status = (\<lambda>_. Inl io_EOF), dec_available = (\<lambda>_. Inl io_EOF)\<rparr>"

section \<open>A notifier that records what is published\<close>

datatype relay_event =
    EvConfig string msg_body
  | EvStatus string msg_body
  | EvAvailable uuid_strings_map
  | EvMissData station_item data_time
  | EvData station_item data_time bool

definition relay_log :: "relay_event list relay_notifier" where
  "relay_log =
     \<lparr>rn_PublishConfig = (\<lambda>ty b evs. evs @ [EvConfig ty b]),
      rn_PublishStatus = (\<lambda>ty b evs. evs @ [EvStatus ty b]),
      rn_BroadcastAvailableChange = (\<lambda>m evs. evs @ [EvAvailable m]),
      rn_PublishMissData = (\<lambda>k d evs. evs @ [EvMissData k d]),
      rn_PublishData = (\<lambda>k d g evs. evs @ [EvData k d g])\<rparr>"

definition db_relay :: "uuid_codec \<Rightarrow> event_decoder \<Rightarrow> (tide_db, relay_event list) relay_deps" where
  "db_relay c dec = \<lparr>rl_Store = DBDownstreamStore, rl_Notifier = relay_log, rl_uuid = c, rl_decode = dec\<rparr>"

theorem relay_session_keeps_tables_witness:
  "db_ok (fst (fst (snd (RunDownstream id (db_relay sample_codec no_decoder) 1 ''u''
     ((empty_db, []), new_stream [RUpstreamHello ''x'', RAvailableItems []])))))"
  using relay_session_keeps_tables [of "((empty_db, []), new_stream [RUpstreamHello ''x'', RAvailableItems []])"
      "db_relay sample_codec no_decoder" id 1 "''u''"]
  by (simp add: db_relay_def db_ok_empty)

section \<open>Measurements\<close>

definition relay_data_event :: "uuid \<Rightarrow> string \<Rightarrow> data_point \<Rightarrow> relay_event" where
  "relay_data_event sid ty p =
     (let d = \<lparr>dt_value = pt_value p, dt_msec = pt_unix_ms p\<rparr>; k = (sid, pt_item_name p) in
      if ty = kMsgMissData then EvMissData k d else EvData k d (pt_kind p = DATA_KIND_GPIO))"

text \<open>Names for which \<open>MakeSureTableExist\<close> gives a measurement table.\<close>

definition creatable :: "string \<Rightarrow> bool" where
  "creatable n \<longleftrightarrow> \<not> ContainsIllegalCharacter n \<and> sql_table_name n \<and> n \<notin> set schema_relations"

lemma EnsureDataTable_result:
  assumes "creatable n"
  shows "\<exists>db'. MakeSureTableExist n db = (Inr (), db') \<and> has_item_table db' n \<and> db_saved db' = db_saved db"
proof (cases "map_of (item_tables db) n")
  case None
  let ?db = "db\<lparr>item_tables := item_tables db @ [(n, [])]\<rparr>"
  have "db_saved ?db = db_saved db"
    using None by (auto simp: db_saved_def fun_eq_iff map_add_def split: option.split)
  with None assms show ?thesis
    by (auto simp: MakeSureTableExist_def creatable_def has_item_table_def map_add_def)
next
  case (Some tab)
  with assms show ?thesis by (auto simp: MakeSureTableExist_def creatable_def has_item_table_def)
qed

lemma snd_changedE [simp]: "snd (changedE m s) = snd (m s)"
  by (simp add: changedE_def bindE_def retE_def split: prod.split sum.split)

lemma relay_point:
  assumes "creatable (pt_item_name p)"
  shows "\<exists>db'. relay_point_step (db_relay c dec) sid ty p (db, evs) =
      (Inr (), (db', if db_saved db (point_key sid p) = None then evs @ [relay_data_event sid ty p] else evs)) \<and>
    db_saved db' = record_point sid p (db_saved db)"
proof -
  let ?n = "pt_item_name p" and ?t = "pt_unix_ms p"
  obtain db1 where 1: "MakeSureTableExist ?n db = (Inr (), db1)" "has_item_table db1 ?n" "db_saved db1 = db_saved db"
    using EnsureDataTable_result [OF assms] by blast
  obtain db2 where 2: "SaveDataHistory sid ?n (pt_value p) ?t db1 =
      (Inr (if db_saved db (point_key sid p) = None then 1 else 0), db2)"
    "db_saved db2 = record_point sid p (db_saved db)"
    using SaveDataHistory_result [OF 1(2), of sid "pt_value p" ?t] 1(3) by (auto simp: point_key_def record_point_def)
  let ?upd = "UpdateItemStatus sid ?n NoStatus ?t db2"
  have 3: "db_saved (snd ?upd) = db_saved db2" by (simp add: db_saved_def)
  let ?new = "db_saved db (point_key sid p) = None"
  have save: "changedE (SaveDataHistory sid ?n (pt_value p) ?t) db1 = (Inr ?new, db2)"
    using 2(1) by (simp add: changedE_def bindE_def retE_def)
  have "relay_point_step (db_relay c dec) sid ty p (db, evs) =
      (Inr (), (if ?new \<and> pt_kind p = DATA_KIND_GPIO then snd ?upd else db2,
                if ?new then evs @ [relay_data_event sid ty p] else evs))"
    using 1(1) save
    by (simp add: relay_point_step_def Let_def db_relay_def DBDownstreamStore_def fstE_def bindE_def retE_def ignoreE_def
      notify_def sndE_def modifyE_def relay_log_def relay_data_event_def case_prod_unfold)
  with 2(2) 3 show ?thesis by simp
qed

lemma relay_points:
  assumes "\<And>p. p \<in> set ps \<Longrightarrow> creatable (pt_item_name p)"
  shows "\<exists>db'. forE (relay_point_step (db_relay c dec) sid ty) ps (db, evs) =
      (Inr (), (db', evs @ map (relay_data_event sid ty) (fresh sid (db_saved db) ps))) \<and>
    db_saved db' = fold (record_point sid) ps (db_saved db)"
  using assms
proof (induction ps arbitrary: db evs)
  case Nil
  then show ?case by (simp add: retE_def)
next
  case (Cons p ps)
  let ?evs = "if db_saved db (point_key sid p) = None then evs @ [relay_data_event sid ty p] else evs"
  obtain db1 where 1: "relay_point_step (db_relay c dec) sid ty p (db, evs) = (Inr (), (db1, ?evs))"
      "db_saved db1 = record_point sid p (db_saved db)"
    using relay_point [of p c dec sid ty db evs] Cons.prems by auto
  from Cons.IH [of db1 ?evs] Cons.prems 1 show ?case
    by (auto simp: bindE_Inr record_point_known)
qed

text \<open>
  A data batch from the upstream is applied exactly once: missing tables are created, every point
  with a new (station, item, timestamp) is stored and no value is overwritten, and exactly the new
  points are published, as replayed or as realtime data, in the order of the batch.
\<close>

theorem relay_batch_exactly_once:
  assumes "rb_station_id b \<noteq> []" and "parsed c (rb_station_id b) = Some sid"
    and "\<And>p. p \<in> set (rb_points b) \<Longrightarrow> creatable (pt_item_name p)"
  shows "\<exists>db'. applyDataBatch (db_relay c dec) b (db, evs) =
      (Inr (), (db', evs @ map (relay_data_event sid (rb_data_type b)) (fresh sid (db_saved db) (rb_points b)))) \<and>
    db_saved db' = fold (record_point sid) (rb_points b) (db_saved db)"
proof (cases "rb_points b = []")
  case True
  then show ?thesis by (simp add: applyDataBatch_def retE_def)
next
  case False
  obtain db' where "forE (relay_point_step (db_relay c dec) sid (rb_data_type b)) (rb_points b) (db, evs) =
      (Inr (), (db', evs @ map (relay_data_event sid (rb_data_type b)) (fresh sid (db_saved db) (rb_points b))))"
    "db_saved db' = fold (record_point sid) (rb_points b) (db_saved db)"
    using relay_points [of "rb_points b" c dec sid "rb_data_type b" db evs] assms(3) by blast
  moreover have "rl_uuid (db_relay c dec) = c" by (simp add: db_relay_def)
  ultimately show ?thesis using False assms(1,2) by (simp add: applyDataBatch_def ignoreE_def)
qed

theorem relay_batch_exactly_once_witness:
  "\<exists>db'. applyDataBatch (db_relay sample_codec no_decoder)
       \<lparr>rb_station_id = ''u1111111'', rb_data_type = kMsgMissData, rb_points = two_points\<rparr> (one_table_db, []) =
     (Inr (), (db', [EvMissData (7, ''water'') \<lparr>dt_value = 6, dt_msec = 20\<rparr>]))"
proof -
  let ?b = "\<lparr>rb_station_id = ''u1111111'', rb_data_type = kMsgMissData, rb_points = two_points\<rparr>"
  have "parsed sample_codec (rb_station_id ?b) = Some 7" by (simp add: parsed_def sample_codec_def)
  moreover have "creatable (pt_item_name p)" if "p \<in> set (rb_points ?b)" for p
    using has_table_example [of p] that by (simp add: creatable_def has_item_table_def)
  moreover have "fresh 7 (db_saved one_table_db) two_points = [two_points ! 1]"
    by (simp add: two_points_def one_table_db_def db_saved_def point_key_def record_point_def)
  ultimately show ?thesis
    using relay_batch_exactly_once [of ?b sample_codec 7 no_decoder one_table_db "[]"]
    by (auto simp: relay_data_event_def two_points_def)
qed

section \<open>A full configuration with devices\<close>

definition never_ok :: "('s, 'a) eff \<Rightarrow> bool" where
  "never_ok m \<longleftrightarrow> (\<forall>s. \<not> isOk (fst (m s)))"

lemma never_ok_bind: "never_ok m \<or> (\<forall>a. never_ok (f a)) \<Longrightarrow> never_ok (bindE m f)"
  unfolding never_ok_def bindE_def by (auto split: prod.split sum.split) (metis fst_conv isOk_simps(1))

lemma never_ok_for: "x \<in> set xs \<Longrightarrow> never_ok (body x) \<Longrightarrow> never_ok (forE body xs)"
  by (induction xs) (auto intro: never_ok_bind)

lemma never_ok_fst: "never_ok m \<Longrightarrow> never_ok (fstE m)"
  by (simp add: never_ok_def fstE_def case_prod_unfold)

lemma device_step_rejected:
  assumes "rl_Store deps = DBDownstreamStore"
  shows "never_ok (full_device_step deps pb)"
  unfolding full_device_step_def changed_then_def Let_def assms
  by (intro never_ok_bind disjI1 never_ok_fst)
    (simp add: never_ok_def DBDownstreamStore_def changedE_def bindE_def SyncDevice_def protoToDbDevice_def)

lemma station_step_rejected:
  assumes "rl_Store deps = DBDownstreamStore" and "parsed (rl_uuid deps) (rf_id pb) \<noteq> None" and "rf_devices pb \<noteq> []"
  shows "never_ok (full_station_step deps u pb)"
proof -
  have "never_ok (forE (full_device_step deps) (rf_devices pb))"
    using assms(3) device_step_rejected [OF assms(1)] by (cases "rf_devices pb") (auto intro!: never_ok_bind)
  then show ?thesis
    using assms(2) unfolding full_station_step_def Let_def by (auto intro!: never_ok_bind)
qed

text \<open>
  C40: A full configuration batch never applies when one of its stations lists a device: the relay
  frame of a device carries no specifications, so the row the downstream inserts has a \<open>NULL\<close> in a
  column the schema declares \<^verbatim>\<open>not null\<close>, and the session ends with that error before it
  reaches the incremental phase.
\<close>

theorem relay_full_config_rejects_devices:
  assumes "rl_Store deps = DBDownstreamStore" and "pb \<in> set (cb_stations cb)"
    and "parsed (rl_uuid deps) (rf_id pb) \<noteq> None" and "rf_devices pb \<noteq> []"
  shows "\<not> isOk (fst (applyFullConfig deps upstreamID cb st))"
proof -
  have "never_ok (forE (full_station_step deps upstreamID) (cb_stations cb))"
    by (rule never_ok_for [where x = pb]) (simp_all add: assms(2) station_step_rejected [OF assms(1,3,4)])
  then have "never_ok (applyFullConfig deps upstreamID cb)"
    unfolding applyFullConfig_def by (auto intro!: never_ok_bind)
  then show ?thesis unfolding never_ok_def by blast
qed

definition device_batch :: relay_config_batch where
  "device_batch = \<lparr>cb_full_sync = True, cb_stations = [\<lparr>rf_id = ''u1'', rf_identifier = ''s'', rf_name = ''s'', rf_ip_addr = [],
     rf_location = Some JNull, rf_partner = Some JNull, rf_cameras = Some JNull, rf_status = Normal, rf_status_changed_at_ms = 1,
     rf_upstream = False, rf_devices = [\<lparr>rd_station_id = ''u1'', rd_name = ''gauge''\<rparr>], rf_items = []\<rparr>],
     cb_device_records = [], cb_events = []\<rparr>"

theorem relay_full_config_rejects_devices_witness:
  "\<not> isOk (fst (applyFullConfig (db_relay sample_codec no_decoder) 1 device_batch (empty_db, [])))"
  using relay_full_config_rejects_devices [of "db_relay sample_codec no_decoder" "hd (cb_stations device_batch)" device_batch 1 "(empty_db, [])"]
  by (simp add: device_batch_def db_relay_def parsed_def sample_codec_def)

end
