(* ===== verification/RelayUpstream.thy ===== *)
theory RelayUpstream
  imports RelaySession
begin

text \<open>
  The upstream end of the relay: \<^verbatim>\<open>tide_server/syncv2/relay/upstream.go\<close>, \<open>DBUpstreamStore\<close> of
  \<^verbatim>\<open>store_db.go\<close> and the frame source of \<^verbatim>\<open>controller/syncv2_adapters.go\<close>.

  What the user manager and the permission store return, and the JSON encoder (\<open>enc\<close>), are arguments;
  \<open>visit_status\<close> and \<open>visit_perms\<close> are the orders in which the two maps are walked. The goroutines
  between a subscriber's channel and the frame channel only convert messages; what the select of
  \<open>forwardIncremental\<close> receives is a list of events.
\<close>

record 's upstream_store =
  us_GetAvailableItems :: "('s, station_item list) eff"
  us_GetStationsFullInfo :: "('s, station_full_info list) eff"
  us_GetDeviceRecords :: "('s, DeviceRecord list) eff"
  us_GetItemStatusLogs :: "uuid \<Rightarrow> int \<Rightarrow> ('s, row_item_status list) eff"
  us_GetItemsAllStations :: "('s, item list) eff"
  us_GetDataHistory :: "uuid \<Rightarrow> string \<Rightarrow> unix_ms \<Rightarrow> ('s, data_time list) eff"

definition DBUpstreamStore :: "tide_db upstream_store" where
  "DBUpstreamStore =
     \<lparr>us_GetAvailableItems = GetAvailableItems,
      us_GetStationsFullInfo = GetStationsFullInfo,
      us_GetDeviceRecords = GetDeviceRecords,
      us_GetItemStatusLogs = GetItemStatusLogs,
      us_GetItemsAllStations = GetItems uuid_Nil,
      us_GetDataHistory = (\<lambda>sid name after. GetDataHistory sid name after 0)\<rparr>"

type_synonym 's up_state = "'s \<times> relay_message stream"

record up_env =
  ue_uuid :: uuid_codec
  ue_enc :: "msg_body \<Rightarrow> json result"
  ue_visit_status :: "(string, int) go_map \<Rightarrow> (string, int) go_map"
  ue_visit_perms :: "uuid_strings_map \<Rightarrow> uuid_strings_map"

definition sendFrame :: "relay_message \<Rightarrow> ('s up_state, unit) eff" where
  "sendFrame f = sndE (Send f)"

section \<open>Bootstrap\<close>

definition recvDownstreamHello :: "(relay_message stream, string) eff" where
  "recvDownstreamHello = bindE Recv (\<lambda>first.
     case first of
       RDownstreamHello username _ \<Rightarrow>
         if TrimSpace username = [] then throwE (ErrorString ''username is required'') else retE username
     | _ \<Rightarrow> throwE (ErrorString ''first frame must be downstream_hello''))"

definition available_frame :: "uuid_codec \<Rightarrow> station_item topic_set \<Rightarrow> station_item list \<Rightarrow> (string, string list) go_map" where
  "available_frame c topics av =
     group_items (map (\<lambda>(sid, n). (uu_String c sid, n)) (filter (is_allowed topics) av))"

definition sendAvailableItems :: "up_env \<Rightarrow> 's upstream_store \<Rightarrow> station_item topic_set \<Rightarrow> ('s up_state, unit) eff" where
  "sendAvailableItems env st topics =
     bindE (wrapE ''failed to get available items'' (fstE (us_GetAvailableItems st))) (\<lambda>av.
       sendFrame (RAvailableItems (available_frame (ue_uuid env) topics av)))"

definition sendFullConfig :: "up_env \<Rightarrow> 's upstream_store \<Rightarrow> ('s up_state, unit) eff" where
  "sendFullConfig env st =
     bindE (wrapE ''failed to get stations full info'' (fstE (us_GetStationsFullInfo st))) (\<lambda>full.
     bindE (wrapE ''failed to get device records'' (fstE (us_GetDeviceRecords st))) (\<lambda>records.
       sendFrame (RConfigBatch \<lparr>cb_full_sync = True, cb_stations = map (dbStationFullToProto (ue_uuid env)) full,
         cb_device_records = map (dbDeviceRecordToProto (ue_uuid env)) records, cb_events = []\<rparr>)))"

definition miss_events :: "up_env \<Rightarrow> uuid \<Rightarrow> row_item_status list \<Rightarrow> relay_config_event list" where
  "miss_events env sid logs = concat (map (\<lambda>l.
     case ue_enc env (BFullItemStatus \<lparr>fs_station_id = sid, fs_identifier = [], fs_row = l\<rparr>) of
       Inl _ \<Rightarrow> []
     | Inr p \<Rightarrow> [\<lparr>ev_type = kMsgMissItemStatus, ev_payload = p\<rparr>]) logs)"

fun miss_status_events ::
  "up_env \<Rightarrow> 's upstream_store \<Rightarrow> (string, int) go_map \<Rightarrow> ('s, relay_config_event list) eff" where
  "miss_status_events env st [] = retE []"
| "miss_status_events env st ((idStr, latest) # rest) =
     (case parsed (ue_uuid env) idStr of
        None \<Rightarrow> miss_status_events env st rest
      | Some sid \<Rightarrow>
          bindE (wrapE ''failed to get item status logs'' (us_GetItemStatusLogs st sid latest)) (\<lambda>logs.
          bindE (miss_status_events env st rest) (\<lambda>evs. retE (miss_events env sid logs @ evs))))"

definition handleMissStatusSync :: "up_env \<Rightarrow> 's upstream_store \<Rightarrow> ('s up_state, unit) eff" where
  "handleMissStatusSync env st =
     bindE (sndE Recv) (\<lambda>frame.
       case frame of
         RStationsStatusLatest latest \<Rightarrow>
           bindE (fstE (miss_status_events env st (ue_visit_status env latest))) (\<lambda>evs.
             sendFrame (RConfigBatch \<lparr>cb_full_sync = False, cb_stations = [], cb_device_records = [], cb_events = evs\<rparr>))
       | _ \<Rightarrow> throwE (ErrorString ''expected stations_status_latest frame''))"

definition miss_item_step ::
  "up_env \<Rightarrow> 's upstream_store \<Rightarrow> uuid \<Rightarrow> (string, int) go_map \<Rightarrow> string \<Rightarrow> ('s up_state, unit) eff" where
  "miss_item_step env st sid latest itemName =
     (let afterMs = map_index 0 latest itemName in
      if afterMs \<le> 0 then retE ()
      else bindE (tryE (fstE (us_GetDataHistory st sid itemName afterMs))) (\<lambda>r.
        case r of
          Inl e \<Rightarrow> if e = undefined_table then retE () else throwE (Wrapped ''failed to get data history'' e)
        | Inr ds \<Rightarrow>
            if ds = [] then retE ()
            else sendFrame (RDataBatch \<lparr>rb_station_id = uu_String (ue_uuid env) sid, rb_data_type = kMsgMissData,
              rb_points = map (\<lambda>d. \<lparr>pt_item_name = itemName, pt_value = dt_value d, pt_unix_ms = dt_msec d,
                pt_kind = DATA_KIND_NORMAL\<rparr>) ds\<rparr>)))"

definition effective_perms :: "'s upstream_store \<Rightarrow> uuid_strings_map option \<Rightarrow> ('s, uuid_strings_map) eff" where
  "effective_perms st permissions =
     (case permissions of
        Some p \<Rightarrow> retE p
      | None \<Rightarrow> bindE (wrapE ''failed to get all items'' (us_GetItemsAllStations st)) (\<lambda>all_items.
          retE (group_items (map (\<lambda>i. (i_StationId i, i_Name i)) all_items))))"

definition handleMissDataSync ::
  "up_env \<Rightarrow> 's upstream_store \<Rightarrow> uuid_strings_map option \<Rightarrow> ('s up_state, unit) eff" where
  "handleMissDataSync env st permissions =
     bindE (sndE Recv) (\<lambda>frame.
       case frame of
         RStationsItemsLatest latest \<Rightarrow>
           bindE (fstE (effective_perms st permissions)) (\<lambda>perms.
           bindE (forE (\<lambda>(sid, names). forE (miss_item_step env st sid
                    (map_index [] latest (uu_String (ue_uuid env) sid))) names) (ue_visit_perms env perms)) (\<lambda>_.
             sendFrame (RDataBatch \<lparr>rb_station_id = [], rb_data_type = [], rb_points = []\<rparr>)))
       | _ \<Rightarrow> throwE (ErrorString ''expected stations_items_latest frame''))"

definition runBootstrapSync ::
  "up_env \<Rightarrow> 's upstream_store \<Rightarrow> station_item topic_set \<Rightarrow> uuid_strings_map option \<Rightarrow> ('s up_state, unit) eff" where
  "runBootstrapSync env st topics permissions =
     bindE (sendFrame (RUpstreamHello ''sync-v2-upstream'')) (\<lambda>_.
     bindE (sendAvailableItems env st topics) (\<lambda>_.
     bindE (sendFullConfig env st) (\<lambda>_.
     bindE (handleMissStatusSync env st) (\<lambda>_. handleMissDataSync env st permissions))))"

section \<open>Incremental forwarding\<close>

datatype upstream_event =
    UpCtxDone go_error
  | UpRecvEnded go_error
  | UpConfig "relay_message option"
  | UpData "relay_message option"

fun forwardIncremental :: "upstream_event list \<Rightarrow> ('s up_state, unit) eff" where
  "forwardIncremental [] = throwE (ErrorString ''still running'')"
| "forwardIncremental (UpCtxDone e # evs) = throwE e"
| "forwardIncremental (UpRecvEnded e # evs) = throwE e"
| "forwardIncremental (UpConfig None # evs) = throwE (ErrorString ''config subscriber closed'')"
| "forwardIncremental (UpData None # evs) = throwE (ErrorString ''data subscriber closed'')"
| "forwardIncremental (UpConfig (Some f) # evs) = bindE (sendFrame f) (\<lambda>_. forwardIncremental evs)"
| "forwardIncremental (UpData (Some f) # evs) = bindE (sendFrame f) (\<lambda>_. forwardIncremental evs)"

text \<open>The permissions of a session: nil unless the role is that of a normal user.\<close>

definition session_permissions ::
  "(string \<Rightarrow> int result) \<Rightarrow> (string \<Rightarrow> uuid_strings_map result) \<Rightarrow> string \<Rightarrow> uuid_strings_map option result" where
  "session_permissions getRole getPermissions username =
     (case getRole username of
        Inl e \<Rightarrow> Inl (Wrapped ''failed to get user info'' e)
      | Inr role \<Rightarrow>
          if role = NormalUser
          then (case getPermissions username of
                  Inl e \<Rightarrow> Inl (Wrapped ''failed to get user permissions'' e) | Inr p \<Rightarrow> Inr (Some p))
          else Inr None)"

text \<open>\<open>subscribe\<close> and \<open>stop\<close> are the frame source; the hub is the second component of the state.\<close>

definition StreamRelay ::
  "up_env \<Rightarrow> 's upstream_store \<Rightarrow> (string \<Rightarrow> int result) \<Rightarrow> (string \<Rightarrow> uuid_strings_map result)
     \<Rightarrow> (string \<Rightarrow> station_item topic_set \<Rightarrow> 'h \<Rightarrow> 'h) \<Rightarrow> (string \<Rightarrow> 'h \<Rightarrow> 'h)
     \<Rightarrow> string \<Rightarrow> upstream_event list \<Rightarrow> ('s up_state \<times> 'h, unit) eff" where
  "StreamRelay env st getRole getPermissions subscribe stop authenticatedUsername evs =
     bindE (fstE (sndE recvDownstreamHello)) (\<lambda>hello.
       let username = TrimSpace hello in
       if username = [] then throwE (ErrorString ''empty username in downstream_hello'')
       else if username \<noteq> authenticatedUsername then throwE (ErrorString ''username mismatch'')
       else bindE (liftR (session_permissions getRole getPermissions username)) (\<lambda>permissions.
         let topics = map_option uuidStringsMapToTopics permissions in
         bindE (sndE (modifyE (subscribe username topics))) (\<lambda>_.
           finallyE (sndE (modifyE (stop username)))
             (bindE (fstE (runBootstrapSync env st topics permissions)) (\<lambda>_. fstE (forwardIncremental evs))))))"

section \<open>The frame source on the hub (\<open>syncv2_adapters.go\<close>)\<close>

definition relay_Subscribe :: "sub_id \<Rightarrow> sub_id \<Rightarrow> string \<Rightarrow> station_item topic_set \<Rightarrow> sync_hub \<Rightarrow> sync_hub" where
  "relay_Subscribe cs ds username topics h =
     (let h0 = h\<lparr>hub_subs := (hub_subs h)(cs := NewSubscriber 10000, ds := NewSubscriber 10000)\<rparr>;
          h1 = hub_Subscribe BrokerConfig cs None h0;
          h2 = hub_Subscribe BrokerStatus cs None h1;
          h3 = hub_Subscribe BrokerData ds topics h2;
          h4 = hub_Subscribe BrokerMissingData ds topics h3
      in TrackSubscriber username ds connTypeSyncData (TrackSubscriber username cs connTypeSyncConfig h4))"

definition relay_stop :: "sub_id \<Rightarrow> sub_id \<Rightarrow> string \<Rightarrow> sync_hub \<Rightarrow> sync_hub" where
  "relay_stop cs ds username h =
     (let h1 = UntrackSubscriber username ds (UntrackSubscriber username cs h)
      in hub_Unsubscribe BrokerMissingData ds (hub_Unsubscribe BrokerData ds
           (hub_Unsubscribe BrokerStatus cs (hub_Unsubscribe BrokerConfig cs h1))))"

definition relayConfigMessageToFrame :: "uuid_codec \<Rightarrow> (msg_body \<Rightarrow> json result) \<Rightarrow> hub_message \<Rightarrow> relay_message option" where
  "relayConfigMessageToFrame c enc val =
     (case val of
        ForwardData _ _ _ \<Rightarrow> None
      | SendMsg ty body \<Rightarrow>
          let generic = (case enc body of
                Inl _ \<Rightarrow> None
              | Inr p \<Rightarrow> Some (RConfigBatch \<lparr>cb_full_sync = False, cb_stations = [], cb_device_records = [],
                            cb_events = [\<lparr>ev_type = ty, ev_payload = p\<rparr>]\<rparr>)) in
          if ty = kMsgUpdateItemStatus \<or> ty = kMsgMissItemStatus then
            (case body of
               BFullItemStatus f \<Rightarrow> Some (RStatusEvent
                 \<lparr>se_station_id = uu_String c (fs_station_id f), se_identifier = fs_identifier f,
                  se_row_id = rs_row_id (fs_row f), se_item_name = rs_item_name (fs_row f),
                  se_status = rs_status (fs_row f), se_changed_at_unix_ms = rs_changed_at (fs_row f)\<rparr>)
             | _ \<Rightarrow> generic)
          else if ty = kMsgUpdateStationStatus then
            (case body of
               BStationStatus s \<Rightarrow> Some (RStatusEvent
                 \<lparr>se_station_id = uu_String c (ss_station_id s), se_identifier = ss_identifier s, se_row_id = 0,
                  se_item_name = [], se_status = ss_status s, se_changed_at_unix_ms = ss_changed_at s\<rparr>)
             | _ \<Rightarrow> generic)
          else generic)"

definition relayDataMessageToFrame :: "uuid_codec \<Rightarrow> hub_message \<Rightarrow> relay_message option" where
  "relayDataMessageToFrame c val =
     (case val of
        SendMsg _ _ \<Rightarrow> None
      | ForwardData ty k d \<Rightarrow> Some (RDataBatch
          \<lparr>rb_station_id = uu_String c (fst k), rb_data_type = ty,
           rb_points = [\<lparr>pt_item_name = snd k, pt_value = dt_value d, pt_unix_ms = dt_msec d,
             pt_kind = (if ty = kMsgDataGpio then DATA_KIND_GPIO else DATA_KIND_NORMAL)\<rparr>]\<rparr>))"

end
