(* ===== verification/RelayLaws.thy ===== *)
theory RelayLaws
  imports RelayUpstream Replay
begin

text \<open>
  Properties of the relay that involve both of its ends: what a normal user's session may carry, that
  forwarded events arrive unchanged, and what the exchange of missing data transfers.
\<close>

section \<open>Confinement of a normal user\<close>

text \<open>
  The items of which a frame carries measurements or which it announces as available. The frames of the configuration and of missing
  statuses name items as well; they are not filtered by permission and not meant here.
\<close>

definition measured_items :: "uuid_codec \<Rightarrow> relay_message \<Rightarrow> station_item list" where
  "measured_items c f =
     (case f of
        RAvailableItems m \<Rightarrow> concat (map (\<lambda>(s, names). map (\<lambda>n. (fst (uu_Parse c s), n)) names) m)
      | RDataBatch b \<Rightarrow> map (\<lambda>p. (fst (uu_Parse c (rb_station_id b)), pt_item_name p)) (rb_points b)
      | _ \<Rightarrow> [])"

definition data_confined :: "uuid_codec \<Rightarrow> station_item set \<Rightarrow> relay_message stream \<Rightarrow> bool" where
  "data_confined c T st \<longleftrightarrow> (\<forall>f \<in> set (outbox st). set (measured_items c f) \<subseteq> T)"

lemma group_items_mem: "(k, vs) \<in> set (group_items xs) \<Longrightarrow> v \<in> set vs \<Longrightarrow> (k, v) \<in> set xs"
  using map_index_group_items [of xs k] wf_map_map_of_iff [OF wf_group_items, of xs k vs]
  by (auto simp: map_index_def)

lemma confined_send:
  "set (measured_items c f) \<subseteq> T \<Longrightarrow> preserves (\<lambda>io. data_confined c T (snd io)) (sendFrame f)"
  unfolding sendFrame_def
  by (rule preserves_snd) (auto simp: preserves_def data_confined_def Send_def split: list.split option.split)

lemma confined_Recv: "preserves (\<lambda>io. data_confined c T (snd io)) (sndE Recv)"
  by (rule preserves_snd) (auto simp: preserves_def data_confined_def Recv_def split: list.split)

lemma confined_store: "preserves (\<lambda>io. data_confined c T (snd io)) (fstE m)"
  by (rule preserves_fst_other)

lemmas confined_rules = preserves_bind preserves_wrap preserves_if preserves_try preserves_ret preserves_throw
  preserves_for confined_store confined_Recv

lemma confined_available:
  assumes "uuid_roundtrip (ue_uuid env)"
  shows "preserves (\<lambda>io. data_confined (ue_uuid env) (set ts) (snd io)) (sendAvailableItems env st (Some ts))"
proof -
  have "set (measured_items (ue_uuid env) (RAvailableItems (available_frame (ue_uuid env) (Some ts) av))) \<subseteq> set ts" for av
    by (auto simp: measured_items_def available_frame_def is_allowed_def uuid_roundtripD [OF assms] dest!: group_items_mem)
  then show ?thesis
    unfolding sendAvailableItems_def by (intro confined_rules confined_send)
qed

lemma confined_full: "preserves (\<lambda>io. data_confined c T (snd io)) (sendFullConfig env st)"
  unfolding sendFullConfig_def by (intro confined_rules confined_send) (simp add: measured_items_def)

lemma confined_miss_status: "preserves (\<lambda>io. data_confined c T (snd io)) (handleMissStatusSync env st)"
  unfolding handleMissStatusSync_def
proof (intro preserves_bind confined_Recv)
  fix f
  show "preserves (\<lambda>io. data_confined c T (snd io)) (case f of
      RStationsStatusLatest latest \<Rightarrow> bindE (fstE (miss_status_events env st (ue_visit_status env latest))) (\<lambda>evs.
        sendFrame (RConfigBatch \<lparr>cb_full_sync = False, cb_stations = [], cb_device_records = [], cb_events = evs\<rparr>))
    | _ \<Rightarrow> throwE (ErrorString ''expected stations_status_latest frame''))"
    by (cases f) (auto intro!: confined_rules confined_send simp: measured_items_def)
qed

lemma confined_miss_item:
  assumes "uuid_roundtrip (ue_uuid env)" and "(sid, n) \<in> T"
  shows "preserves (\<lambda>io. data_confined (ue_uuid env) T (snd io)) (miss_item_step env st sid latest n)"
  unfolding miss_item_step_def Let_def
  by (intro confined_rules preserves_sum confined_send) (auto simp: measured_items_def uuid_roundtripD [OF assms(1)] assms(2))

lemma confined_miss_data:
  assumes "uuid_roundtrip (ue_uuid env)" and "set (ue_visit_perms env p) = set p"
  shows "preserves (\<lambda>io. data_confined (ue_uuid env) (set (uuidStringsMapToTopics p)) (snd io)) (handleMissDataSync env st (Some p))"
proof -
  have items: "preserves (\<lambda>io. data_confined (ue_uuid env) (set (uuidStringsMapToTopics p)) (snd io))
      (miss_item_step env st sid latest n)" if "(sid, names) \<in> set (ue_visit_perms env p)" "n \<in> set names" for sid names n latest
    using that assms by (intro confined_miss_item) (auto simp: set_uuidStringsMapToTopics)
  show ?thesis
    unfolding handleMissDataSync_def effective_perms_def option.case bindE_retE
  proof (intro preserves_bind confined_Recv)
    fix f
    show "preserves (\<lambda>io. data_confined (ue_uuid env) (set (uuidStringsMapToTopics p)) (snd io)) (case f of
        RStationsItemsLatest latest \<Rightarrow>
          bindE (fstE (retE p)) (\<lambda>perms.
          bindE (forE (\<lambda>(sid, names). forE (miss_item_step env st sid
                   (map_index [] latest (uu_String (ue_uuid env) sid))) names) (ue_visit_perms env perms)) (\<lambda>_.
            sendFrame (RDataBatch \<lparr>rb_station_id = [], rb_data_type = [], rb_points = []\<rparr>)))
      | _ \<Rightarrow> throwE (ErrorString ''expected stations_items_latest frame''))"
    proof (cases f)
      case (RStationsItemsLatest latest)
      have retp: "fstE (retE p) = retE p" by (rule ext) (simp add: fstE_def retE_def)
      show ?thesis
        unfolding RStationsItemsLatest relay_message.case retp bindE_retE
        by (intro preserves_bind preserves_for confined_send)
          (auto intro!: preserves_for items simp: measured_items_def)
    qed (simp_all add: preserves_throw)
  qed
qed

lemma confined_bootstrap:
  assumes "uuid_roundtrip (ue_uuid env)" and "set (ue_visit_perms env p) = set p"
  shows "preserves (\<lambda>io. data_confined (ue_uuid env) (set (uuidStringsMapToTopics p)) (snd io))
    (runBootstrapSync env st (Some (uuidStringsMapToTopics p)) (Some p))"
  unfolding runBootstrapSync_def
  by (intro preserves_bind confined_available confined_full confined_miss_status confined_miss_data confined_send assms)
    (simp add: measured_items_def)

lemma relay_Subscribe_data:
  assumes "cs \<noteq> ds"
  shows "dataBroker (relay_Subscribe cs ds u topics h) = Subscribe ds topics (dataBroker h)"
    and "missingDataBroker (relay_Subscribe cs ds u topics h) = Subscribe ds topics (missingDataBroker h)"
    and "hub_subs (relay_Subscribe cs ds u topics h) ds = NewSubscriber 10000"
  using assms by (simp_all add: relay_Subscribe_def Let_def hub_Subscribe_def set_broker_def brokerByKind_def TrackSubscriber_def)

text \<open>
  C3: The measurements of a relay session of a normal user are confined to the user's permissions: in the bootstrap the
  list of available items and every batch of measurements are about permitted items only, whatever
  the store returns and the peer sends; and no message published outside the permissions on either
  data broker reaches the session's data subscriber. The configuration and the missing statuses are sent unfiltered; they are
  not part of this statement.
\<close>

theorem relay_user_confined:
  assumes codec: "uuid_roundtrip (ue_uuid env)" and visit: "set (ue_visit_perms env p) = set p"
    and role: "session_permissions getRole getPermissions username = Inr (Some p)"
    and wf: "wf_map (dataBroker h)" "wf_map (missingDataBroker h)" "cs \<noteq> ds"
    and out: "\<And>m t. (m, t) \<in> set ms \<Longrightarrow> t \<notin> set (uuidStringsMapToTopics p)"
  shows "data_confined (ue_uuid env) (set (uuidStringsMapToTopics p))
      (snd (snd (runBootstrapSync env st (Some (uuidStringsMapToTopics p)) (Some p) (s, new_stream frames)))) \<and>
    (let h' = relay_Subscribe cs ds username (Some (uuidStringsMapToTopics p)) h in
     sub_Ch (fst (publish_stream Publish ms (hub_subs h', dataBroker h')) ds) = [] \<and>
     sub_Ch (fst (publish_stream Publish ms (hub_subs h', missingDataBroker h')) ds) = [])"
proof -
  have "data_confined (ue_uuid env) (set (uuidStringsMapToTopics p)) (new_stream frames)"
    by (simp add: data_confined_def new_stream_def)
  with preservesD [OF confined_bootstrap [OF codec visit], of "(s, new_stream frames)" st]
  show ?thesis
    using pubsub.subscribed_sees_nothing_outside [OF wf(1), of ms "uuidStringsMapToTopics p" _ ds]
      pubsub.subscribed_sees_nothing_outside [OF wf(2), of ms "uuidStringsMapToTopics p" _ ds] out
    by (simp add: Let_def relay_Subscribe_data [OF wf(3)] NewSubscriber_def)
qed

definition sample_env :: up_env where
  "sample_env = \<lparr>ue_uuid = sample_codec, ue_enc = (\<lambda>_. Inr JNull), ue_visit_status = id, ue_visit_perms = rev\<rparr>"

theorem relay_user_confined_witness:
  "data_confined sample_codec {(7, ''water'')} (snd (snd (runBootstrapSync sample_env DBUpstreamStore (Some [(7, ''water'')])
     (Some [(7, [''water''])]) (one_item_db, new_stream []))))"
proof -
  have "session_permissions (\<lambda>_. Inr NormalUser) (\<lambda>_. Inr [(7, [''water''])]) ''u'' = Inr (Some [(7, [''water''])])"
    by (simp add: session_permissions_def)
  from relay_user_confined [OF _ _ this, of sample_env "NewSyncHub 0 (\<lambda>_. NewSubscriber 1)" 1 2 "[]" DBUpstreamStore one_item_db "[]"]
  show ?thesis
    by (simp add: sample_env_def sample_codec_roundtrip NewSyncHub_def NewBroker_def uuidStringsMapToTopics_def)
qed

text \<open>What has been sent stays sent.\<close>

lemma sent_Send: "preserves (\<lambda>io. f \<in> set (outbox (snd io))) (sendFrame g)"
  unfolding sendFrame_def
  by (rule preserves_snd) (auto simp: preserves_def Send_def split: list.split option.split)

lemma sent_Recv: "preserves (\<lambda>io. f \<in> set (outbox (snd io))) (sndE Recv)"
  by (rule preserves_snd) (auto simp: preserves_def Recv_def split: list.split)

lemma sent_store: "preserves (\<lambda>io. f \<in> set (outbox (snd io))) (fstE m)"
  by (rule preserves_fst_other)

lemmas sent_rules = preserves_bind preserves_wrap preserves_if preserves_try preserves_ret preserves_throw
  preserves_for preserves_sum sent_store sent_Recv sent_Send

lemma sent_miss_status: "preserves (\<lambda>io. f \<in> set (outbox (snd io))) (handleMissStatusSync env st)"
  unfolding handleMissStatusSync_def by (intro sent_rules) (auto intro!: sent_rules split: relay_message.split)

lemma sent_miss_data: "preserves (\<lambda>io. f \<in> set (outbox (snd io))) (handleMissDataSync env st perms)"
  unfolding handleMissDataSync_def miss_item_step_def Let_def
  by (intro sent_rules) (auto intro!: sent_rules split: relay_message.split)

text \<open>
  The configuration a relay session sends is not filtered by permission: for every permission map, also the
  empty one of a normal user, the bootstrap of a session whose sends succeed contains one frame with every station of the server and all
  its devices and items, and every device record.
\<close>

theorem relay_config_unfiltered:
  assumes "GetStationsFullInfo db = (Inr full, db)" and "GetDeviceRecords db = (Inr records, db)"
  shows "RConfigBatch \<lparr>cb_full_sync = True, cb_stations = map (dbStationFullToProto (ue_uuid env)) full,
      cb_device_records = map (dbDeviceRecordToProto (ue_uuid env)) records, cb_events = []\<rparr>
    \<in> set (outbox (snd (snd (runBootstrapSync env DBUpstreamStore topics perms (db, new_stream frames)))))"
proof -
  let ?f = "RConfigBatch \<lparr>cb_full_sync = True, cb_stations = map (dbStationFullToProto (ue_uuid env)) full,
      cb_device_records = map (dbDeviceRecordToProto (ue_uuid env)) records, cb_events = []\<rparr>"
  let ?rest = "bindE (handleMissStatusSync env DBUpstreamStore) (\<lambda>_. handleMissDataSync env DBUpstreamStore perms)"
  have "\<exists>io. bindE (sendFrame (RUpstreamHello ''sync-v2-upstream'')) (\<lambda>_. bindE (sendAvailableItems env DBUpstreamStore topics) (\<lambda>_.
      bindE (sendFullConfig env DBUpstreamStore) (\<lambda>_. rest))) (db, new_stream frames) = rest io \<and> ?f \<in> set (outbox (snd io))"
    for rest :: "(tide_db up_state, unit) eff"
    using assms
    by (intro exI [of _ "(db, (new_stream frames)\<lparr>outbox := [RUpstreamHello ''sync-v2-upstream'',
        RAvailableItems (available_frame (ue_uuid env) topics (map fst (filter (\<lambda>(_, r). it_available r \<noteq> []) (items db)))), ?f]\<rparr>)"])
      (simp add: sendAvailableItems_def sendFullConfig_def sendFrame_def bindE_def wrapE_def fstE_def sndE_def
      Send_def new_stream_def DBUpstreamStore_def GetAvailableItems_def readE_def)
  then have "\<exists>io. runBootstrapSync env DBUpstreamStore topics perms (db, new_stream frames) = ?rest io \<and> ?f \<in> set (outbox (snd io))"
    unfolding runBootstrapSync_def .
  moreover have "preserves (\<lambda>io. ?f \<in> set (outbox (snd io))) ?rest"
    by (intro preserves_bind sent_miss_status sent_miss_data)
  ultimately show ?thesis using preservesD by metis
qed

theorem relay_config_unfiltered_witness:
  "\<exists>sf records. RConfigBatch \<lparr>cb_full_sync = True, cb_stations = [sf], cb_device_records = records, cb_events = []\<rparr>
     \<in> set (outbox (snd (snd (runBootstrapSync sample_env DBUpstreamStore (Some []) (Some []) (one_item_db, new_stream []))))) \<and>
   map ri_name (rf_items sf) = [''water'']"
proof -
  obtain sf records where "GetStationsFullInfo one_item_db = (Inr [sf], one_item_db)" "map i_Name (sfi_Items sf) = [''water'']"
    "GetDeviceRecords one_item_db = (Inr records, one_item_db)"
    by (simp add: one_item_db_def GetStationsFullInfo_def GetStations_def GetItems_def GetDevices_def GetDeviceRecords_def
      bindE_def retE_def readE_def station_of_row_def item_of_row_def)
  from relay_config_unfiltered [OF this(1,3), of sample_env "Some []" "Some []" "[]"] this(2) show ?thesis
    by (intro exI [of _ "dbStationFullToProto (ue_uuid sample_env) sf"] exI) (simp add: dbStationFullToProto_def Let_def comp_def)
qed

section \<open>Forwarding\<close>

lemma relay_data_forwarded:
  assumes codec: "uuid_roundtrip c" and item: "creatable (snd k)"
  shows "\<exists>b db'. relayDataMessageToFrame c (ForwardData dty k d) = Some (RDataBatch b) \<and>
     applyDataBatch (db_relay c dec) b (db, evs) =
       (Inr (), (db', if db_saved db (fst k, snd k, dt_msec d) = None
          then evs @ [if dty = kMsgMissData then EvMissData k d else EvData k d (dty = kMsgDataGpio)] else evs)) \<and>
     db_saved db' (fst k, snd k, dt_msec d) =
       (case db_saved db (fst k, snd k, dt_msec d) of None \<Rightarrow> Some (dt_value d) | Some v \<Rightarrow> Some v)"
proof -
  let ?p = "\<lparr>pt_item_name = snd k, pt_value = dt_value d, pt_unix_ms = dt_msec d,
             pt_kind = (if dty = kMsgDataGpio then DATA_KIND_GPIO else DATA_KIND_NORMAL)\<rparr>"
  let ?b = "\<lparr>rb_station_id = uu_String c (fst k), rb_data_type = dty, rb_points = [?p]\<rparr>"
  have "creatable (pt_item_name p)" if "p \<in> set (rb_points ?b)" for p using that item by auto
  from relay_points [OF this, of "rb_points ?b" c dec "fst k" dty db evs] obtain db' where
    run: "forE (relay_point_step (db_relay c dec) (fst k) dty) (rb_points ?b) (db, evs) =
      (Inr (), (db', evs @ map (relay_data_event (fst k) dty) (fresh (fst k) (db_saved db) (rb_points ?b))))"
    and saved: "db_saved db' = fold (record_point (fst k)) (rb_points ?b) (db_saved db)" by auto
  have "applyDataBatch (db_relay c dec) ?b (db, evs) =
      (Inr (), (db', if db_saved db (fst k, snd k, dt_msec d) = None
            then evs @ [if dty = kMsgMissData then EvMissData k d else EvData k d (dty = kMsgDataGpio)] else evs))"
    using run uuid_roundtripD [OF codec]
    by (auto simp: applyDataBatch_def ignoreE_def db_relay_def point_key_def relay_data_event_def parsed_def)
  moreover have "db_saved db' (fst k, snd k, dt_msec d) =
         (case db_saved db (fst k, snd k, dt_msec d) of None \<Rightarrow> Some (dt_value d) | Some v \<Rightarrow> Some v)"
    using saved by (auto simp: record_point_def point_key_def split: option.split)
  ultimately show ?thesis
    by (intro exI [of _ ?b] exI [of _ db']) (simp add: relayDataMessageToFrame_def)
qed

text \<open>
  An event that the upstream forwards is applied downstream with its own values: an item status
  or station status message becomes a frame whose application performs the corresponding store
  operation with the station, row id, name, status and time of the message and publishes the same
  body when the row is new; a measurement message becomes a batch whose application stores the value
  under its own station, item and time unless one is stored, and republishes it with its kind.
\<close>

theorem relay_forwarding_faithful:
  assumes codec: "uuid_roundtrip c" and deps: "rl_uuid deps = c" and name: "rs_item_name (fs_row f) \<noteq> []"
    and ty: "ty \<in> {kMsgUpdateItemStatus, kMsgMissItemStatus}" and item: "creatable (snd k)"
    and kind: "dty \<in> {kMsgMissData, kMsgData, kMsgDataGpio}"
  shows "(\<exists>e. relayConfigMessageToFrame c enc (SendMsg ty (BFullItemStatus f)) = Some (RStatusEvent e) \<and>
       applyStatusEvent deps e = ignoreE (changed_then (ds_UpdateAndSaveStatusLog (rl_Store deps) (fs_station_id f)
         (rs_row_id (fs_row f)) (rs_item_name (fs_row f)) (rs_status (fs_row f)) (rs_changed_at (fs_row f)))
         (rn_PublishStatus (rl_Notifier deps) kMsgUpdateItemStatus (BFullItemStatus f)))) \<and>
    (\<exists>e. relayConfigMessageToFrame c enc (SendMsg kMsgUpdateStationStatus (BStationStatus s)) = Some (RStatusEvent e) \<and>
       applyStatusEvent deps e = ignoreE (changed_then (ds_UpdateStationStatus (rl_Store deps) (ss_station_id s)
         (ss_status s) (ss_changed_at s)) (rn_PublishStatus (rl_Notifier deps) kMsgUpdateStationStatus (BStationStatus s)))) \<and>
    (\<exists>b db'. relayDataMessageToFrame c (ForwardData dty k d) = Some (RDataBatch b) \<and>
       applyDataBatch (db_relay c dec) b (db, evs) =
         (Inr (), (db', if db_saved db (fst k, snd k, dt_msec d) = None
            then evs @ [if dty = kMsgMissData then EvMissData k d else EvData k d (dty = kMsgDataGpio)] else evs)) \<and>
       db_saved db' (fst k, snd k, dt_msec d) =
         (case db_saved db (fst k, snd k, dt_msec d) of None \<Rightarrow> Some (dt_value d) | Some v \<Rightarrow> Some v))"
proof (intro conjI)
  have parse: "parsed c (uu_String c u) = Some u" for u
    by (simp add: parsed_def uuid_roundtripD [OF codec])
  have row: "\<lparr>rs_row_id = rs_row_id (fs_row f), rs_item_name = rs_item_name (fs_row f), rs_status = rs_status (fs_row f),
      rs_changed_at = rs_changed_at (fs_row f)\<rparr> = fs_row f" by simp
  have full: "\<lparr>fs_station_id = fs_station_id f, fs_identifier = fs_identifier f, fs_row = fs_row f\<rparr> = f"
    "\<lparr>ss_station_id = ss_station_id s, ss_identifier = ss_identifier s, ss_status = ss_status s, ss_changed_at = ss_changed_at s\<rparr> = s"
    by simp_all
  show "\<exists>e. relayConfigMessageToFrame c enc (SendMsg ty (BFullItemStatus f)) = Some (RStatusEvent e) \<and>
       applyStatusEvent deps e = ignoreE (changed_then (ds_UpdateAndSaveStatusLog (rl_Store deps) (fs_station_id f)
         (rs_row_id (fs_row f)) (rs_item_name (fs_row f)) (rs_status (fs_row f)) (rs_changed_at (fs_row f)))
         (rn_PublishStatus (rl_Notifier deps) kMsgUpdateItemStatus (BFullItemStatus f)))"
    using ty name by (auto simp: relayConfigMessageToFrame_def applyStatusEvent_def deps parse Let_def row full)
  show "\<exists>e. relayConfigMessageToFrame c enc (SendMsg kMsgUpdateStationStatus (BStationStatus s)) = Some (RStatusEvent e) \<and>
       applyStatusEvent deps e = ignoreE (changed_then (ds_UpdateStationStatus (rl_Store deps) (ss_station_id s)
         (ss_status s) (ss_changed_at s)) (rn_PublishStatus (rl_Notifier deps) kMsgUpdateStationStatus (BStationStatus s)))"
    by (auto simp: relayConfigMessageToFrame_def applyStatusEvent_def deps parse Let_def full kMsg_defs)
qed (rule relay_data_forwarded [OF codec item])

definition sample_status :: full_item_status where
  "sample_status = \<lparr>fs_station_id = 7, fs_identifier = ''s'',
     fs_row = \<lparr>rs_row_id = 1, rs_item_name = ''water'', rs_status = Normal, rs_changed_at = 5\<rparr>\<rparr>"

lemma water_creatable: "creatable ''water''"
  by (simp add: creatable_def ContainsIllegalCharacter_def legal_char_def sql_table_name_def sql_keywords_def schema_relations_def)

theorem relay_forwarding_faithful_witness:
  "\<exists>b db'. relayDataMessageToFrame sample_codec (ForwardData kMsgData (7, ''water'') \<lparr>dt_value = 3, dt_msec = 40\<rparr>) = Some (RDataBatch b) \<and>
     applyDataBatch (db_relay sample_codec no_decoder) b (one_table_db, []) =
       (Inr (), (db', [EvData (7, ''water'') \<lparr>dt_value = 3, dt_msec = 40\<rparr> False])) \<and>
     db_saved db' (7, ''water'', 40) = Some 3"
proof -
  let ?s = "\<lparr>ss_station_id = 7, ss_identifier = ''s'', ss_status = Normal, ss_changed_at = 5\<rparr>"
  have "db_saved one_table_db (7, ''water'', 40) = None" by (simp add: db_saved_def one_table_db_def)
  with relay_forwarding_faithful [of sample_codec "db_relay sample_codec no_decoder" sample_status kMsgUpdateItemStatus
      "(7, ''water'')" kMsgData "\<lambda>_. Inr JNull" ?s "\<lparr>dt_value = 3, dt_msec = 40\<rparr>" no_decoder one_table_db "[]"]
  show ?thesis
    by (auto simp: sample_codec_roundtrip db_relay_def sample_status_def water_creatable kMsg_defs)
qed

section \<open>Missing data\<close>

definition newer_points :: "tide_db \<Rightarrow> uuid \<Rightarrow> string \<Rightarrow> int \<Rightarrow> data_point list" where
  "newer_points up sid n a = map (replay_pt n)
     (filter (\<lambda>d. a < dt_msec d) (sort_key dt_msec (station_rows sid (map_index [] (item_tables up) n))))"

definition miss_frames :: "uuid_codec \<Rightarrow> tide_db \<Rightarrow> uuid \<Rightarrow> string \<Rightarrow> int \<Rightarrow> relay_data_batch list" where
  "miss_frames c up sid n a =
     (if a \<le> 0 \<or> newer_points up sid n a = [] then []
      else [\<lparr>rb_station_id = uu_String c sid, rb_data_type = kMsgMissData, rb_points = newer_points up sid n a\<rparr>])"

definition all_miss_frames ::
  "uuid_codec \<Rightarrow> tide_db \<Rightarrow> (string, (string, int) go_map) go_map \<Rightarrow> uuid_strings_map \<Rightarrow> relay_data_batch list" where
  "all_miss_frames c up latest p = concat (map (\<lambda>(sid, n). miss_frames c up sid n
     (map_index 0 (map_index [] latest (uu_String c sid)) n)) (uuidStringsMapToTopics p))"

lemma forE_sends:
  assumes "\<And>x st. x \<in> set xs \<Longrightarrow> send_results st = [] \<Longrightarrow>
      body x (s, st) = (Inr (), (s, st\<lparr>outbox := outbox st @ g x\<rparr>))" and "send_results st = []"
  shows "forE body xs (s, st) = (Inr (), (s, st\<lparr>outbox := outbox st @ concat (map g xs)\<rparr>))"
  using assms by (induction xs arbitrary: st) (simp_all add: retE_def bindE_Inr)

lemma miss_item_sends:
  assumes "has_item_table up n" and "send_results st = []"
  shows "miss_item_step env DBUpstreamStore sid latest n (up, st) =
    (Inr (), (up, st\<lparr>outbox := outbox st @ map RDataBatch (miss_frames (ue_uuid env) up sid n (map_index 0 latest n))\<rparr>))"
proof -
  from assms(1) obtain tab where tab: "map_of (item_tables up) n = Some tab" "item_table n up = Inr tab" "\<not> ContainsIllegalCharacter n"
    by (auto simp: has_item_table_def item_table_def)
  then show ?thesis
    using assms(2)
    by (auto simp: miss_item_step_def Let_def DBUpstreamStore_def GetDataHistory_def eff_simps miss_frames_def newer_points_def
      map_index_def sendFrame_def Send_ok replay_pt_def comp_def)
qed

lemma handleMissDataSync_sends:
  assumes inb: "inbox st = Inr (RStationsItemsLatest latest) # rs" and up: "send_results st = []"
    and tables: "\<And>sid n. (sid, n) \<in> set (uuidStringsMapToTopics p) \<Longrightarrow> has_item_table udb n"
    and visit: "set (ue_visit_perms env p) = set p"
  shows "handleMissDataSync env DBUpstreamStore (Some p) (udb, st) =
    (Inr (), (udb, st\<lparr>inbox := rs, outbox := outbox st @
       map RDataBatch (all_miss_frames (ue_uuid env) udb latest (ue_visit_perms env p) @ [\<lparr>rb_station_id = [], rb_data_type = [], rb_points = []\<rparr>])\<rparr>))"
proof -
  let ?st = "st\<lparr>inbox := rs\<rparr>" and ?c = "ue_uuid env"
  let ?body = "\<lambda>(sid, names). forE (miss_item_step env DBUpstreamStore sid (map_index [] latest (uu_String ?c sid))) names"
  let ?g = "\<lambda>(sid, names). concat (map (\<lambda>n. map RDataBatch (miss_frames ?c udb sid n
      (map_index 0 (map_index [] latest (uu_String ?c sid)) n))) names)"
  have "forE ?body (ue_visit_perms env p) (udb, ?st) =
      (Inr (), (udb, ?st\<lparr>outbox := outbox ?st @ concat (map ?g (ue_visit_perms env p))\<rparr>))"
  proof (rule forE_sends)
    fix x st'
    assume x: "x \<in> set (ue_visit_perms env p)" and st': "send_results (st' :: relay_message stream) = []"
    obtain sid names where sn: "x = (sid, names)" by (cases x)
    have "has_item_table udb n" if "n \<in> set names" for n
      by (rule tables [of sid]) (use x visit sn that in \<open>auto simp: set_uuidStringsMapToTopics\<close>)
    with st' show "?body x (udb, st') = (Inr (), (udb, st'\<lparr>outbox := outbox st' @ ?g x\<rparr>))"
      unfolding sn by (auto intro!: forE_sends miss_item_sends)
  qed (simp add: up)
  moreover have "concat (map ?g xs) = map RDataBatch (all_miss_frames ?c udb latest xs)" for xs
    by (induction xs) (auto simp: all_miss_frames_def uuidStringsMapToTopics_def map_concat comp_def)
  ultimately show ?thesis
    using inb up
    by (simp add: handleMissDataSync_def Recv_def sndE_def fstE_def bindE_def retE_def effective_perms_def sendFrame_def Send_ok)
qed


text \<open>The history after the frames of the missing data.\<close>

definition record_frame :: "uuid_codec \<Rightarrow> relay_data_batch \<Rightarrow> history \<Rightarrow> history" where
  "record_frame c b h = fold (record_point (fst (uu_Parse c (rb_station_id b)))) (rb_points b) h"

lemma miss_point:
  assumes "creatable (pt_item_name p)"
  shows "\<exists>db' evs'. miss_point_step (db_relay c dec) sid p (db, evs) = (Inr (), (db', evs')) \<and>
    db_saved db' = record_point sid p (db_saved db)"
proof -
  let ?n = "pt_item_name p" and ?t = "pt_unix_ms p"
  obtain db1 where 1: "MakeSureTableExist ?n db = (Inr (), db1)" "has_item_table db1 ?n" "db_saved db1 = db_saved db"
    using EnsureDataTable_result [OF assms] by blast
  obtain db2 where 2: "SaveDataHistory sid ?n (pt_value p) ?t db1 =
      (Inr (if db_saved db (point_key sid p) = None then 1 else 0), db2)"
    "db_saved db2 = record_point sid p (db_saved db)"
    using SaveDataHistory_result [OF 1(2), of sid "pt_value p" ?t] 1(3) by (auto simp: point_key_def record_point_def)
  then show ?thesis
    using 1(1)
    by (auto simp: miss_point_step_def Let_def changed_then_def db_relay_def DBDownstreamStore_def changedE_def eff_simps notify_def)
qed

lemma miss_points:
  assumes "\<And>p. p \<in> set ps \<Longrightarrow> creatable (pt_item_name p)"
  shows "\<exists>db' evs'. forE (miss_point_step (db_relay c dec) sid) ps (db, evs) = (Inr (), (db', evs')) \<and>
    db_saved db' = fold (record_point sid) ps (db_saved db)"
  using assms
proof (induction ps arbitrary: db evs)
  case Nil
  then show ?case by (simp add: retE_def)
next
  case (Cons p ps)
  obtain db1 evs1 where 1: "miss_point_step (db_relay c dec) sid p (db, evs) = (Inr (), (db1, evs1))"
      "db_saved db1 = record_point sid p (db_saved db)"
    using miss_point [of p c dec sid db evs] Cons.prems by auto
  from Cons.IH [of db1 evs1] Cons.prems 1 show ?case by (auto simp: bindE_Inr)
qed

lemma miss_frames_received:
  assumes "\<And>b. b \<in> set bs \<Longrightarrow> rb_station_id b \<noteq> [] \<and> parsed c (rb_station_id b) \<noteq> None \<and>
      (\<forall>p \<in> set (rb_points b). creatable (pt_item_name p))"
  shows "\<exists>db' evs'. miss_data_loop (db_relay c dec)
      (map (Inr \<circ> RDataBatch) (bs @ [\<lparr>rb_station_id = [], rb_data_type = [], rb_points = []\<rparr>]) @ rs) (db, evs) = (Inr rs, (db', evs')) \<and>
    db_saved db' = fold (record_frame c) bs (db_saved db)"
  using assms
proof (induction bs arbitrary: db evs)
  case Nil
  then show ?case by (simp add: retE_def)
next
  case (Cons b bs)
  obtain sid where sid: "parsed c (rb_station_id b) = Some sid" "rb_station_id b \<noteq> []" using Cons.prems by auto
  have sid': "fst (uu_Parse c (rb_station_id b)) = sid"
    using sid(1) by (auto simp: parsed_def split: prod.splits option.splits)
  obtain db1 evs1 where 1: "forE (miss_point_step (db_relay c dec) sid) (rb_points b) (db, evs) = (Inr (), (db1, evs1))"
      "db_saved db1 = fold (record_point sid) (rb_points b) (db_saved db)"
    using miss_points [of "rb_points b" c dec sid db evs] Cons.prems by auto
  from Cons.IH [of db1 evs1] Cons.prems 1 sid show ?case
    by (auto simp: bindE_Inr record_frame_def sid' db_relay_def)
qed

lemma fold_record_frame:
  shows "h k \<noteq> None \<Longrightarrow> fold (record_frame c) bs h k = h k"
    and "b \<in> set bs \<Longrightarrow> q \<in> set (rb_points b) \<Longrightarrow> fold (record_frame c) bs h (point_key (fst (uu_Parse c (rb_station_id b))) q) \<noteq> None"
    and "fold (record_frame c) bs h k = Some v \<Longrightarrow> h k = Some v \<or>
      (\<exists>b \<in> set bs. \<exists>q \<in> set (rb_points b). k = point_key (fst (uu_Parse c (rb_station_id b))) q \<and> v = pt_value q)"
proof -
  have mono: "h k \<noteq> None \<Longrightarrow> fold (record_frame c) bs h k = h k" for bs h k
    by (induction bs arbitrary: h) (simp_all add: record_frame_def record_points_mono)
  then show "h k \<noteq> None \<Longrightarrow> fold (record_frame c) bs h k = h k" .
  show "b \<in> set bs \<Longrightarrow> q \<in> set (rb_points b) \<Longrightarrow> fold (record_frame c) bs h (point_key (fst (uu_Parse c (rb_station_id b))) q) \<noteq> None"
  proof (induction bs arbitrary: h)
    case (Cons b' bs)
    show ?case
    proof (cases "b = b'")
      case True
      have "record_frame c b h (point_key (fst (uu_Parse c (rb_station_id b))) q) \<noteq> None"
        unfolding record_frame_def by (rule record_points_present [OF Cons.prems(2)])
      with mono True show ?thesis by simp
    next
      case False
      with Cons show ?thesis by simp
    qed
  qed simp
  show "fold (record_frame c) bs h k = Some v \<Longrightarrow> h k = Some v \<or>
      (\<exists>b \<in> set bs. \<exists>q \<in> set (rb_points b). k = point_key (fst (uu_Parse c (rb_station_id b))) q \<and> v = pt_value q)"
  proof (induction bs arbitrary: h)
    case (Cons b bs)
    from Cons.IH [of "record_frame c b h"] Cons.prems
      record_points_new [of "fst (uu_Parse c (rb_station_id b))" "rb_points b" h k v]
    show ?case by (auto simp: record_frame_def)
  qed simp
qed


text \<open>What the downstream said is its newest row of an item.\<close>

definition said_latest :: "uuid_codec \<Rightarrow> (string, (string, int) go_map) go_map \<Rightarrow> uuid \<Rightarrow> string \<Rightarrow> int" where
  "said_latest c latest sid n = map_index 0 (map_index [] latest (uu_String c sid)) n"

lemma newer_points_mem:
  assumes "db_ok up"
  shows "q \<in> set (newer_points up sid n a) \<longleftrightarrow>
    (\<exists>t v. db_saved up (sid, n, t) = Some v \<and> a < t \<and> q = replay_pt n \<lparr>dt_value = v, dt_msec = t\<rparr>)"
proof (cases "map_of (item_tables up) n")
  case None
  then show ?thesis by (simp add: newer_points_def map_index_def station_rows_def db_saved_def)
next
  case (Some tab)
  then have wf: "wf_map tab" using assms by (auto simp: db_ok_def item_tables_ok_def)
  have "q \<in> set (newer_points up sid n a) \<longleftrightarrow>
      (\<exists>t v. ((sid, t), v) \<in> set tab \<and> a < t \<and> q = replay_pt n \<lparr>dt_value = v, dt_msec = t\<rparr>)"
    using Some by (force simp: newer_points_def map_index_def station_rows_def)
  with Some show ?thesis by (simp add: db_saved_def wf_map_map_of_iff [OF wf])
qed

lemma all_miss_frames_mem:
  "b \<in> set (all_miss_frames c up latest p) \<longleftrightarrow> (\<exists>sid n. (sid, n) \<in> set (uuidStringsMapToTopics p) \<and>
     0 < said_latest c latest sid n \<and> newer_points up sid n (said_latest c latest sid n) \<noteq> [] \<and>
     b = \<lparr>rb_station_id = uu_String c sid, rb_data_type = kMsgMissData,
          rb_points = newer_points up sid n (said_latest c latest sid n)\<rparr>)"
  by (force simp: all_miss_frames_def miss_frames_def said_latest_def split: if_splits)

definition transferred ::
  "uuid_codec \<Rightarrow> tide_db \<Rightarrow> (string, (string, int) go_map) go_map \<Rightarrow> uuid_strings_map \<Rightarrow> history \<Rightarrow> history" where
  "transferred c up latest p h = fold (record_frame c) (all_miss_frames c up latest p) h"

lemma miss_frames_wf:
  assumes "uuid_roundtrip c" and "\<And>sid n. (sid, n) \<in> set (uuidStringsMapToTopics p) \<Longrightarrow> has_item_table up n"
    and "b \<in> set (all_miss_frames c up latest p)"
  shows "rb_station_id b \<noteq> [] \<and> parsed c (rb_station_id b) \<noteq> None \<and> (\<forall>p \<in> set (rb_points b). creatable (pt_item_name p))"
proof -
  from assms(3) obtain sid n where b: "(sid, n) \<in> set (uuidStringsMapToTopics p)"
    "b = \<lparr>rb_station_id = uu_String c sid, rb_data_type = kMsgMissData, rb_points = newer_points up sid n (said_latest c latest sid n)\<rparr>"
    by (auto simp: all_miss_frames_mem)
  from assms(2) [OF b(1)] have "creatable n" by (simp add: has_item_table_def creatable_def)
  then show ?thesis
    unfolding b(2) by (auto simp: uuid_roundtripD [OF assms(1)] parsed_def newer_points_def replay_pt_def)
qed

lemma transferred_new:
  assumes c: "uuid_roundtrip c" and ok: "db_ok up" and k: "(sid, n) \<in> set (uuidStringsMapToTopics p)"
    and t: "0 < said_latest c latest sid n" "said_latest c latest sid n < t" "db_saved up (sid, n, t) \<noteq> None"
  shows "transferred c up latest p h (sid, n, t) \<noteq> None"
proof -
  let ?b = "\<lparr>rb_station_id = uu_String c sid, rb_data_type = kMsgMissData, rb_points = newer_points up sid n (said_latest c latest sid n)\<rparr>"
  from t(3) obtain v where v: "db_saved up (sid, n, t) = Some v" by auto
  let ?q = "replay_pt n \<lparr>dt_value = v, dt_msec = t\<rparr>"
  have q: "?q \<in> set (newer_points up sid n (said_latest c latest sid n))"
    unfolding newer_points_mem [OF ok] using v t(2) by blast
  then have "?b \<in> set (all_miss_frames c up latest p)"
    unfolding all_miss_frames_mem using k t(1) by (metis empty_iff list.set(1))
  from fold_record_frame(2) [OF this, of ?q c h] q show ?thesis
    by (simp add: transferred_def uuid_roundtripD [OF c] replay_pt_def point_key_def)
qed

lemma transferred_changed:
  assumes c: "uuid_roundtrip c" and ok: "db_ok up" and "transferred c up latest p h (sid, n, t) \<noteq> h (sid, n, t)"
  shows "(sid, n) \<in> set (uuidStringsMapToTopics p) \<and> 0 < said_latest c latest sid n \<and>
    said_latest c latest sid n < t \<and> transferred c up latest p h (sid, n, t) = db_saved up (sid, n, t)"
proof -
  let ?bs = "all_miss_frames c up latest p"
  from assms(3) fold_record_frame(1) [of h "(sid, n, t)" c ?bs] obtain v where
    v: "h (sid, n, t) = None" "transferred c up latest p h (sid, n, t) = Some v"
    unfolding transferred_def by (cases "h (sid, n, t)"; cases "fold (record_frame c) ?bs h (sid, n, t)") auto
  from fold_record_frame(3) [of c ?bs h "(sid, n, t)" v] v obtain b q where
    bq: "b \<in> set ?bs" "q \<in> set (rb_points b)" "(sid, n, t) = point_key (fst (uu_Parse c (rb_station_id b))) q" "v = pt_value q"
    unfolding transferred_def by auto
  from bq(1) obtain sid' n' where b: "(sid', n') \<in> set (uuidStringsMapToTopics p)" "0 < said_latest c latest sid' n'"
    "b = \<lparr>rb_station_id = uu_String c sid', rb_data_type = kMsgMissData, rb_points = newer_points up sid' n' (said_latest c latest sid' n')\<rparr>"
    by (auto simp: all_miss_frames_mem)
  from bq(2) b(3) obtain t' v' where "db_saved up (sid', n', t') = Some v'" "said_latest c latest sid' n' < t'"
    "q = replay_pt n' \<lparr>dt_value = v', dt_msec = t'\<rparr>"
    by (auto simp: newer_points_mem [OF ok])
  with bq(3,4) b v show ?thesis by (auto simp: uuid_roundtripD [OF c] point_key_def replay_pt_def)
qed

text \<open>The exchange of missing data between the two servers.\<close>

lemma missing_data_exchange:
  assumes codec: "uuid_roundtrip (ue_uuid env)" and ok: "db_ok udb"
    and inb: "inbox st = Inr (RStationsItemsLatest latest) # rs" and up: "send_results st = []"
    and all_tables: "\<forall>(sid, n) \<in> set (uuidStringsMapToTopics p). has_item_table udb n"
    and visit: "set (ue_visit_perms env p) = set p"
  shows "\<exists>bs ddb' evs'.
    handleMissDataSync env DBUpstreamStore (Some p) (udb, st) = (Inr (), (udb, st\<lparr>inbox := rs, outbox := outbox st @ map RDataBatch bs\<rparr>)) \<and>
    miss_data_loop (db_relay (ue_uuid env) dec) (map (Inr \<circ> RDataBatch) bs @ rest) (ddb, evs) = (Inr rest, (ddb', evs')) \<and>
    (\<forall>sid n t. (sid, n) \<in> set (uuidStringsMapToTopics p) \<and> 0 < said_latest (ue_uuid env) latest sid n \<and>
       said_latest (ue_uuid env) latest sid n < t \<and> db_saved udb (sid, n, t) \<noteq> None \<longrightarrow> db_saved ddb' (sid, n, t) \<noteq> None) \<and>
    (\<forall>k. db_saved ddb k \<noteq> None \<longrightarrow> db_saved ddb' k = db_saved ddb k) \<and>
    (\<forall>sid n t. db_saved ddb' (sid, n, t) \<noteq> db_saved ddb (sid, n, t) \<longrightarrow>
       (sid, n) \<in> set (uuidStringsMapToTopics p) \<and> 0 < said_latest (ue_uuid env) latest sid n \<and>
       said_latest (ue_uuid env) latest sid n < t \<and> db_saved ddb' (sid, n, t) = db_saved udb (sid, n, t))"
proof -
  have tables: "\<And>sid n. (sid, n) \<in> set (uuidStringsMapToTopics p) \<Longrightarrow> has_item_table udb n" using all_tables by blast
  let ?c = "ue_uuid env" and ?p = "ue_visit_perms env p"
  let ?bs = "all_miss_frames ?c udb latest ?p" and ?fin = "\<lparr>rb_station_id = [], rb_data_type = [], rb_points = []\<rparr> :: relay_data_batch"
  have topics: "set (uuidStringsMapToTopics ?p) = set (uuidStringsMapToTopics p)"
    using visit by (auto simp: set_uuidStringsMapToTopics)
  have send: "handleMissDataSync env DBUpstreamStore (Some p) (udb, st) =
      (Inr (), (udb, st\<lparr>inbox := rs, outbox := outbox st @ map RDataBatch (?bs @ [?fin])\<rparr>))"
    by (rule handleMissDataSync_sends [OF inb up tables visit])
  have "rb_station_id b \<noteq> [] \<and> parsed ?c (rb_station_id b) \<noteq> None \<and> (\<forall>p \<in> set (rb_points b). creatable (pt_item_name p))"
    if "b \<in> set ?bs" for b
    using miss_frames_wf [OF codec _ that] tables topics by simp
  from miss_frames_received [of ?bs ?c dec rest ddb evs, OF this] obtain ddb' evs' where
    recv: "miss_data_loop (db_relay ?c dec) (map (Inr \<circ> RDataBatch) (?bs @ [?fin]) @ rest) (ddb, evs) =
      (Inr rest, (ddb', evs'))" and saved: "db_saved ddb' = transferred ?c udb latest ?p (db_saved ddb)"
    unfolding transferred_def by blast
  have "db_saved ddb k \<noteq> None \<Longrightarrow> db_saved ddb' k = db_saved ddb k" for k
    unfolding saved transferred_def by (rule fold_record_frame(1))
  then show ?thesis
    using send recv transferred_new [OF codec ok, where p = ?p and latest = latest and h = "db_saved ddb"]
      transferred_changed [OF codec ok, where p = ?p and latest = latest and h = "db_saved ddb"]
    unfolding topics saved
    by (intro exI [of _ "?bs @ [?fin]"] exI [of _ ddb'] exI [of _ evs']) (auto simp: saved)
qed

text \<open>
  C18: The exchange of missing data: the upstream answers the downstream's newest timestamps with
  batches the downstream stores completely. Afterwards the downstream has every row of every
  permitted item that is newer than the newest it reported, nothing it had is overwritten, and
  whatever changed is a row of the upstream of a permitted item for which the downstream had reported
  a positive newest timestamp: an item of which the downstream has no row yet gets nothing.
\<close>

theorem relay_missing_data_transfer:
  assumes codec: "uuid_roundtrip (ue_uuid env)" and ok: "db_ok udb"
    and inb: "inbox st = Inr (RStationsItemsLatest latest) # rs" and up: "send_results st = []"
    and tables: "\<And>sid n. (sid, n) \<in> set (uuidStringsMapToTopics p) \<Longrightarrow> has_item_table udb n"
    and visit: "set (ue_visit_perms env p) = set p"
  shows "\<exists>bs ddb' evs'.
    handleMissDataSync env DBUpstreamStore (Some p) (udb, st) = (Inr (), (udb, st\<lparr>inbox := rs, outbox := outbox st @ map RDataBatch bs\<rparr>)) \<and>
    miss_data_loop (db_relay (ue_uuid env) dec) (map (Inr \<circ> RDataBatch) bs @ rest) (ddb, evs) = (Inr rest, (ddb', evs')) \<and>
    (\<forall>sid n t. (sid, n) \<in> set (uuidStringsMapToTopics p) \<and> 0 < said_latest (ue_uuid env) latest sid n \<and>
       said_latest (ue_uuid env) latest sid n < t \<and> db_saved udb (sid, n, t) \<noteq> None \<longrightarrow> db_saved ddb' (sid, n, t) \<noteq> None) \<and>
    (\<forall>k. db_saved ddb k \<noteq> None \<longrightarrow> db_saved ddb' k = db_saved ddb k) \<and>
    (\<forall>sid n t. db_saved ddb' (sid, n, t) \<noteq> db_saved ddb (sid, n, t) \<longrightarrow>
       (sid, n) \<in> set (uuidStringsMapToTopics p) \<and> 0 < said_latest (ue_uuid env) latest sid n \<and>
       said_latest (ue_uuid env) latest sid n < t \<and> db_saved ddb' (sid, n, t) = db_saved udb (sid, n, t))"
  using tables by (intro missing_data_exchange [OF codec ok inb up _ visit]) blast

definition up_db :: tide_db where
  "up_db = empty_db\<lparr>item_tables := [(''water'', [((7, 10), 5), ((7, 20), 6)])]\<rparr>"

theorem relay_missing_data_transfer_witness:
  "\<exists>bs ddb' evs'. handleMissDataSync sample_env DBUpstreamStore (Some [(7, [''water''])])
       (up_db, new_stream [RStationsItemsLatest [(''u1111111'', [(''water'', 10)])]]) =
       (Inr (), (up_db, (new_stream [])\<lparr>outbox := map RDataBatch bs\<rparr>)) \<and>
     miss_data_loop (db_relay sample_codec no_decoder) (map (Inr \<circ> RDataBatch) bs) (one_table_db, []) = (Inr [], (ddb', evs')) \<and>
     db_saved ddb' (7, ''water'', 20) \<noteq> None"
proof -
  let ?latest = "[(''u1111111'', [(''water'', 10)])]" and ?st = "new_stream [RStationsItemsLatest [(''u1111111'', [(''water'', 10)])]]"
  have ok: "db_ok up_db"
    using water_creatable by (auto simp: up_db_def db_ok_defs empty_db_def creatable_def)
  have tab: "has_item_table up_db n" if "(sid, n) \<in> set (uuidStringsMapToTopics [(7, [''water''])])" for sid n
    using that water_creatable by (auto simp: uuidStringsMapToTopics_def has_item_table_def creatable_def up_db_def)
  have "unat (7 :: uuid) = 7" "replicate 7 CHR ''1'' = ''1111111''"
    by (simp, simp add: numeral_eq_Suc)
  then have said: "said_latest sample_codec ?latest 7 ''water'' = 10"
    by (simp add: said_latest_def sample_codec_def map_index_def)
  have env: "ue_uuid sample_env = sample_codec" "set (ue_visit_perms sample_env [(7, [''water''])]) = set [(7, [''water''])]"
    by (simp_all add: sample_env_def)
  from relay_missing_data_transfer [of sample_env up_db ?st ?latest "[]" "[(7, [''water''])]" no_decoder "[]" one_table_db "[]"]
  obtain bs ddb' evs' where
    "handleMissDataSync sample_env DBUpstreamStore (Some [(7, [''water''])]) (up_db, ?st) =
       (Inr (), (up_db, ?st\<lparr>inbox := [], outbox := outbox ?st @ map RDataBatch bs\<rparr>))"
    "miss_data_loop (db_relay sample_codec no_decoder) (map (Inr \<circ> RDataBatch) bs @ []) (one_table_db, []) = (Inr [], (ddb', evs'))"
    and new: "\<forall>sid n t. (sid, n) \<in> set (uuidStringsMapToTopics [(7, [''water''])]) \<and> 0 < said_latest sample_codec ?latest sid n \<and>
       said_latest sample_codec ?latest sid n < t \<and> db_saved up_db (sid, n, t) \<noteq> None \<longrightarrow> db_saved ddb' (sid, n, t) \<noteq> None"
    unfolding env(1) using ok tab env(2) sample_codec_roundtrip by (auto simp: new_stream_def)
  moreover have "db_saved up_db (7, ''water'', 20) \<noteq> None" by (simp add: db_saved_def up_db_def)
  ultimately show ?thesis
    using said by (auto simp: new_stream_def uuidStringsMapToTopics_def)
qed

end
