(* ===== verification/V1Relay.thy ===== *)
theory V1Relay
  imports V1Laws RelayLaws
begin

text \<open>
  The first version of the relay between two servers, JSON values over four streams of a
  multiplexed connection: the upstream's end in \<^verbatim>\<open>tide_server/controller/sync_server.go\<close>, the
  downstream's end in \<^verbatim>\<open>sync_client.go\<close>, \<^verbatim>\<open>sync_client_config.go\<close> and \<^verbatim>\<open>sync_client_data.go\<close>.

  As for the stations, what each call of \<^verbatim>\<open>Decode\<close> returns is an input and the encoded values go to
  a stream, the four streams in the order of their use. A function that returns \<^verbatim>\<open>false\<close> fails.
  What the user manager and the permission store return is an argument. The goroutines of a session
  interleave; the steps they take are a list in the order they happen.
\<close>

datatype v1_value =
    RvAvailable uuid_strings_map
  | RvStations "station_full_info list"
  | RvRecords "DeviceRecord list"
  | RvRowIds "(uuid, int) go_map"
  | RvMissLogs "(uuid, row_item_status list) go_map"
  | RvPermissions uuid_strings_map
  | RvItemsLatest "(uuid, (string, int) go_map) go_map"
  | RvMissData "(uuid, miss_data) go_map"

type_synonym v1_relay_state = "hub_state \<times> v1_value stream"

definition v1_send :: "v1_value \<Rightarrow> (v1_relay_state, unit) eff" where
  "v1_send v = sndE (Send v)"

abbreviation dbE :: "'a db_op \<Rightarrow> (v1_relay_state, 'a) eff" where
  "dbE m \<equiv> fstE (fstE m)"

section \<open>The upstream's end (\<open>sync_server.go\<close>)\<close>

fun miss_logs_map ::
  "(uuid \<times> int) list \<Rightarrow> (uuid, row_item_status list) go_map \<Rightarrow> (uuid, row_item_status list) go_map db_op" where
  "miss_logs_map [] m = retE m"
| "miss_logs_map ((sid, row) # rest) m =
     bindE (GetItemStatusLogs sid row) (\<lambda>hs. miss_logs_map rest (if hs = [] then m else AList.update sid hs m))"

definition fullSyncConfigServer :: "(uuid, int) go_map result \<Rightarrow> (v1_relay_state, unit) eff" where
  "fullSyncConfigServer rowIds =
     bindE (dbE GetStationsFullInfo) (\<lambda>full.
     bindE (v1_send (RvStations full)) (\<lambda>_.
     bindE (dbE GetDeviceRecords) (\<lambda>records.
     bindE (v1_send (RvRecords records)) (\<lambda>_.
     bindE (liftR rowIds) (\<lambda>latest.
     bindE (dbE (miss_logs_map latest [])) (\<lambda>m. v1_send (RvMissLogs m)))))))"

text \<open>The scope of a data stream: nil (\<open>None\<close>) is every topic, an error is no topic.\<close>

definition currentSyncDataScope ::
  "(string \<Rightarrow> int result) \<Rightarrow> (string \<Rightarrow> uuid_strings_map result) \<Rightarrow> string \<Rightarrow> uuid_strings_map option" where
  "currentSyncDataScope getRole getPermissions username =
     (case getRole username of
        Inl _ \<Rightarrow> Some []
      | Inr role \<Rightarrow>
          if role \<noteq> NormalUser then None
          else (case getPermissions username of Inl _ \<Rightarrow> Some [] | Inr p \<Rightarrow> Some p))"

fun station_miss_data :: "uuid \<Rightarrow> (string, int) go_map \<Rightarrow> string list \<Rightarrow> miss_data \<Rightarrow> miss_data db_op" where
  "station_miss_data sid latest [] m = retE m"
| "station_miss_data sid latest (itemName # names) m =
     (let msec = map_index 0 latest itemName in
      if 0 < msec then
        bindE (tryE (GetDataHistory sid itemName msec 0)) (\<lambda>r.
          case r of
            Inl e \<Rightarrow> if e = undefined_table then station_miss_data sid latest names m else throwE e
          | Inr ds \<Rightarrow> station_miss_data sid latest names (if 0 < length ds then AList.update itemName ds m else m))
      else station_miss_data sid latest names m)"

fun stations_miss_data ::
  "(uuid, (string, int) go_map) go_map \<Rightarrow> uuid_strings_map \<Rightarrow> (uuid, miss_data) go_map \<Rightarrow> (uuid, miss_data) go_map db_op" where
  "stations_miss_data latest [] m = retE m"
| "stations_miss_data latest ((sid, names) # rest) m =
     bindE (station_miss_data sid (map_index [] latest sid) names []) (\<lambda>missData.
       stations_miss_data latest rest (AList.update sid missData m))"

definition fillMissDataServer ::
  "(uuid_strings_map \<Rightarrow> uuid_strings_map) \<Rightarrow> uuid_strings_map option \<Rightarrow> (uuid, (string, int) go_map) go_map result
     \<Rightarrow> (v1_relay_state, unit) eff" where
  "fillMissDataServer visit permissions latest =
     bindE (case permissions of
              Some p \<Rightarrow> retE p
            | None \<Rightarrow> bindE (dbE (GetItems uuid_Nil)) (\<lambda>its. retE (group_items (map (\<lambda>i. (i_StationId i, i_Name i)) its)))) (\<lambda>perms.
     bindE (v1_send (RvPermissions perms)) (\<lambda>_.
     bindE (liftR latest) (\<lambda>l.
     bindE (dbE (stations_miss_data l (visit perms) [])) (\<lambda>m. v1_send (RvMissData m)))))"

definition v1_data_subscribe :: "sub_id \<Rightarrow> string \<Rightarrow> station_item topic_set \<Rightarrow> sync_hub \<Rightarrow> sync_hub" where
  "v1_data_subscribe sub username topics h =
     (let h0 = h\<lparr>hub_subs := (hub_subs h)(sub := NewSubscriber 1000)\<rparr>;
          h1 = TrackSubscriber username sub connTypeSyncData h0
      in hub_Subscribe BrokerMissingData sub topics (hub_Subscribe BrokerData sub topics h1))"

definition v1_data_unsubscribe :: "sub_id \<Rightarrow> string \<Rightarrow> sync_hub \<Rightarrow> sync_hub" where
  "v1_data_unsubscribe sub username h =
     UntrackSubscriber username sub (hub_Unsubscribe BrokerData sub (hub_Unsubscribe BrokerMissingData sub h))"

text \<open>
  One round of the data streams. \<open>rd_getRole\<close> and \<open>rd_getPermissions\<close> are what the user manager and the
  permission store answer when the round begins (they may change between rounds), \<open>rd_open3\<close> and \<open>rd_open4\<close> tell whether the peer opens the two
  streams, \<open>rd_meanwhile\<close> is what the other goroutines do until the peer or a cancellation closes the
  third stream.
\<close>

record v1_round =
  rd_sub :: sub_id
  rd_getRole :: "string \<Rightarrow> int result"
  rd_getPermissions :: "string \<Rightarrow> uuid_strings_map result"
  rd_open3 :: bool
  rd_open4 :: bool
  rd_visit :: "uuid_strings_map \<Rightarrow> uuid_strings_map"
  rd_latest :: "(uuid, (string, int) go_map) go_map result"
  rd_meanwhile :: "hub_state \<Rightarrow> hub_state"

definition syncDataServer :: "string \<Rightarrow> v1_round \<Rightarrow> (v1_relay_state, unit) eff" where
  "syncDataServer username rd =
     (if \<not> rd_open3 rd then throwE v1_return
      else let permissions = currentSyncDataScope (rd_getRole rd) (rd_getPermissions rd) username;
               topics = map_option uuidStringsMapToTopics permissions in
        bindE (fstE (sndE (modifyE (v1_data_subscribe (rd_sub rd) username topics)))) (\<lambda>_.
          finallyE (fstE (sndE (modifyE (v1_data_unsubscribe (rd_sub rd) username))))
            (if \<not> rd_open4 rd then throwE v1_return
             else bindE (ignoreE (fillMissDataServer (rd_visit rd) permissions (rd_latest rd))) (\<lambda>_.
               fstE (modifyE (rd_meanwhile rd))))))"

definition v1_available :: "station_item topic_set \<Rightarrow> (v1_relay_state, unit) eff" where
  "v1_available topics =
     bindE (dbE GetAvailableItems) (\<lambda>av.
       let downstreamAvail = filter_available topics av in
       if 0 < length downstreamAvail then v1_send (RvAvailable downstreamAvail) else retE ())"

definition v1_config_subscribe :: "sub_id \<Rightarrow> string \<Rightarrow> sync_hub \<Rightarrow> sync_hub" where
  "v1_config_subscribe sub username h =
     (let h0 = h\<lparr>hub_subs := (hub_subs h)(sub := NewSubscriber 1000)\<rparr>;
          h1 = TrackSubscriber username sub connTypeSyncConfig h0
      in hub_Subscribe BrokerStatus sub None (hub_Subscribe BrokerConfig sub None h1))"

definition v1_config_unsubscribe :: "sub_id \<Rightarrow> string \<Rightarrow> sync_hub \<Rightarrow> sync_hub" where
  "v1_config_unsubscribe sub username h =
     UntrackSubscriber username sub (hub_Unsubscribe BrokerConfig sub (hub_Unsubscribe BrokerStatus sub h))"

text \<open>\<open>open2\<close>: whether the peer opens the second stream; \<open>rounds\<close>: the data rounds until the session ends.\<close>

definition handleSyncServerConn ::
  "sub_id \<Rightarrow> string \<Rightarrow> uuid_strings_map option \<Rightarrow> bool \<Rightarrow> (uuid, int) go_map result \<Rightarrow> v1_round list \<Rightarrow> (v1_relay_state, unit) eff" where
  "handleSyncServerConn sub username permissions open2 rowIds rounds =
     bindE (v1_available (map_option uuidStringsMapToTopics permissions)) (\<lambda>_.
     bindE (fstE (sndE (modifyE (v1_config_subscribe sub username)))) (\<lambda>_.
       finallyE (fstE (sndE (modifyE (v1_config_unsubscribe sub username))))
         (if \<not> open2 then throwE v1_return
          else bindE (ignoreE (fullSyncConfigServer rowIds)) (\<lambda>_.
            forE (syncDataServer username) rounds))))"

definition v1_Sync ::
  "(string \<Rightarrow> uuid_strings_map result) \<Rightarrow> sub_id \<Rightarrow> string \<Rightarrow> int \<Rightarrow> bool \<Rightarrow> (uuid, int) go_map result \<Rightarrow> v1_round list \<Rightarrow> (v1_relay_state, unit) eff" where
  "v1_Sync getPermissions sub username role open2 rowIds rounds =
     bindE (if role = NormalUser then bindE (liftR (getPermissions username)) (\<lambda>p. retE (Some p)) else retE None) (\<lambda>permissions.
       handleSyncServerConn sub username permissions open2 rowIds rounds)"

section \<open>The downstream's end: full configuration (\<open>sync_client_config.go\<close>)\<close>

definition v1_publish :: "BrokerKind \<Rightarrow> string \<Rightarrow> msg_body \<Rightarrow> int \<Rightarrow> (hub_state, unit) eff" where
  "v1_publish kind ty body n = (if 0 < n then notify (hub_Publish kind (SendMsg ty body) None) else retE ())"

definition v1_device_step :: "device \<Rightarrow> (hub_state, unit) eff" where
  "v1_device_step d = bindE (fstE (SyncDevice d)) (v1_publish BrokerConfig kMsgSyncDevice (BDevice d))"

definition v1_del_device_step :: "uuid_codec \<Rightarrow> device list \<Rightarrow> device \<Rightarrow> (hub_state, unit) eff" where
  "v1_del_device_step c new_devs d =
     (if device_key c (d_StationId d) (d_Name d) \<in> set (map (\<lambda>n. device_key c (d_StationId n) (d_Name n)) new_devs) then retE ()
      else bindE (fstE (DelDevice (d_StationId d) (d_Name d))) (v1_publish BrokerConfig kMsgDelDevice (BDevice d)))"

definition v1_item_step :: "item \<Rightarrow> (hub_state, unit) eff" where
  "v1_item_step i = bindE (fstE (SyncItem i)) (v1_publish BrokerConfig kMsgSyncItem (BItem i))"

definition v1_del_item_step :: "item list \<Rightarrow> item \<Rightarrow> (hub_state, unit) eff" where
  "v1_del_item_step new_its i =
     (if (i_StationId i, i_Name i) \<in> set (map (\<lambda>n. (i_StationId n, i_Name n)) new_its) then retE ()
      else bindE (fstE (DelItem (i_StationId i) (i_Name i))) (v1_publish BrokerConfig kMsgDelItem (BItem i)))"

definition v1_station_step :: "uuid_codec \<Rightarrow> int \<Rightarrow> station_full_info \<Rightarrow> (hub_state, unit) eff" where
  "v1_station_step c upstreamId full =
     (let s = sfi_Station full; sid = s_Id s in
      bindE (fstE (GetDevices sid)) (\<lambda>oldDs.
      bindE (fstE (GetItems sid)) (\<lambda>oldIs.
      bindE (bindE (fstE (SyncStation upstreamId s)) (v1_publish BrokerConfig kMsgSyncStation (BStation s))) (\<lambda>_.
      bindE (bindE (fstE (SyncStationCannotEdit sid (s_Cameras s))) (v1_publish BrokerConfig kMsgSyncStationCannotEdit (BStation s))) (\<lambda>_.
      bindE (bindE (fstE (UpdateStationStatus sid (s_Status s) (s_StatusChangedAt s)))
        (v1_publish BrokerConfig kMsgUpdateStationStatus (BStationStatus
          \<lparr>ss_station_id = sid, ss_identifier = s_Identifier s, ss_status = s_Status s, ss_changed_at = s_StatusChangedAt s\<rparr>))) (\<lambda>_.
      bindE (forE v1_device_step (sfi_Devices full)) (\<lambda>_.
      bindE (forE (v1_del_device_step c (sfi_Devices full)) oldDs) (\<lambda>_.
      bindE (forE v1_item_step (sfi_Items full)) (\<lambda>_.
        forE (v1_del_item_step (sfi_Items full)) oldIs)))))))))"

definition v1_del_station_step :: "int \<Rightarrow> station_full_info list \<Rightarrow> station \<Rightarrow> (hub_state, unit) eff" where
  "v1_del_station_step upstreamId newSs s =
     (if s_Id s \<in> set (map (s_Id \<circ> sfi_Station) newSs) then retE ()
      else bindE (fstE (DelUpstreamStation upstreamId (s_Id s))) (v1_publish BrokerConfig kMsgDelUpstreamStation (BStationId (s_Id s))))"

definition v1_record_step :: "DeviceRecord \<Rightarrow> (hub_state, unit) eff" where
  "v1_record_step dr = bindE (fstE (SyncDeviceRecord dr)) (v1_publish BrokerConfig kMsgEditDeviceRecord (BDeviceRecord dr))"

fun latest_row_ids :: "station_full_info list \<Rightarrow> (uuid, int) go_map \<Rightarrow> (uuid, int) go_map db_op" where
  "latest_row_ids [] m = retE m"
| "latest_row_ids (full # rest) m =
     bindE (GetLatestStatusLogRowId (s_Id (sfi_Station full))) (\<lambda>row.
       latest_row_ids rest (AList.update (s_Id (sfi_Station full)) row m))"

text \<open>The missing log entries of one station are applied as those a station replays.\<close>

definition v1_miss_logs_step :: "index_order \<Rightarrow> uuid \<times> row_item_status list \<Rightarrow> (hub_state, unit) eff" where
  "v1_miss_logs_step visit x = ReadMissStatusLogs visit (fst x) (Inr (snd x))"

record v1_full_input =
  fi_stations :: "station_full_info list result"
  fi_records :: "DeviceRecord list result"
  fi_missLogs :: "(uuid, row_item_status list) go_map result"

definition fullSyncConfigClient ::
  "uuid_codec \<Rightarrow> index_order \<Rightarrow> int \<Rightarrow> v1_full_input \<Rightarrow> (v1_relay_state, unit) eff" where
  "fullSyncConfigClient c visit upstreamId input =
     bindE (dbE (GetStationsByUpstreamId upstreamId)) (\<lambda>oldSs.
     bindE (liftR (fi_stations input)) (\<lambda>newSs.
     bindE (fstE (forE (v1_station_step c upstreamId) newSs)) (\<lambda>_.
     bindE (fstE (forE (v1_del_station_step upstreamId newSs) oldSs)) (\<lambda>_.
     bindE (liftR (fi_records input)) (\<lambda>newDrs.
     bindE (fstE (forE v1_record_step newDrs)) (\<lambda>_.
     bindE (dbE (latest_row_ids newSs [])) (\<lambda>rows.
     bindE (v1_send (RvRowIds rows)) (\<lambda>_.
     bindE (liftR (fi_missLogs input)) (\<lambda>miss.
       fstE (forE (v1_miss_logs_step visit) miss))))))))))"

section \<open>The downstream's end: increments\<close>

text \<open>A message of the first stream: its type, its body, and \<open>json.Unmarshal\<close> of bodies (\<open>dec\<close>).\<close>

type_synonym rcv_msg = "string \<times> json"

definition handleSyncConfigMsg ::
  "event_decoder \<Rightarrow> (string \<Rightarrow> int result) \<Rightarrow> (string \<Rightarrow> uuid_strings_map result) \<Rightarrow> int \<Rightarrow> rcv_msg \<Rightarrow> (hub_state, unit) eff" where
  "handleSyncConfigMsg dec getRole getPermissions upstreamId msg =
     (let ty = fst msg; body = snd msg;
          forward = v1_publish (if ty = kMsgUpdateStationStatus \<or> ty = kMsgUpdateItemStatus then BrokerStatus else BrokerConfig)
            ty (BJson body) in
      if ty = kMsgSyncStation then
        bindE (liftR (dec_station dec body)) (\<lambda>s. bindE (fstE (SyncStation upstreamId s)) forward)
      else if ty = kMsgSyncStationCannotEdit then
        bindE (liftR (dec_station dec body)) (\<lambda>s. bindE (fstE (SyncStationCannotEdit (s_Id s) (s_Cameras s))) forward)
      else if ty = kMsgDelUpstreamStation then
        bindE (liftR (dec_station_id dec body)) (\<lambda>u. bindE (fstE (DelUpstreamStation upstreamId u)) forward)
      else if ty = kMsgSyncDevice then
        bindE (liftR (dec_device dec body)) (\<lambda>d. bindE (fstE (SyncDevice d)) forward)
      else if ty = kMsgDelDevice then
        bindE (liftR (dec_device dec body)) (\<lambda>d. bindE (fstE (DelDevice (d_StationId d) (d_Name d))) forward)
      else if ty = kMsgSyncItem then
        bindE (liftR (dec_item dec body)) (\<lambda>i. bindE (fstE (SyncItem i)) forward)
      else if ty = kMsgDelItem then
        bindE (liftR (dec_item dec body)) (\<lambda>i. bindE (fstE (DelItem (i_StationId i) (i_Name i))) forward)
      else if ty = kMsgEditDeviceRecord then
        bindE (liftR (dec_device_record dec body)) (\<lambda>dr. bindE (fstE (SyncDeviceRecord dr)) forward)
      else if ty = kMsgUpdateStationStatus then
        bindE (liftR (dec_station_status dec body)) (\<lambda>b.
          bindE (fstE (UpdateStationStatus (ss_station_id b) (ss_status b) (ss_changed_at b))) forward)
      else if ty = kMsgMissItemStatus \<or> ty = kMsgUpdateItemStatus then
        bindE (liftR (dec_full_status dec body)) (\<lambda>b. let l = fs_row b in
          bindE (fstE (UpdateAndSaveStatusLog (fs_station_id b) (rs_row_id l) (rs_item_name l) (rs_status l) (rs_changed_at l))) forward)
      else if ty = kMsgUpdateAvailable then
        bindE (liftR (dec_available dec body)) (\<lambda>b. bindE (fstE (UpdateAvailableItems upstreamId b)) (\<lambda>n.
          if 0 < n then notify (BroadcastAvailableChange getRole getPermissions b) else retE ()))
      else retE ())"

section \<open>The downstream's end: data (\<open>sync_client_data.go\<close>)\<close>

type_synonym forward_data = "string \<times> station_item \<times> data_time"

text \<open>One message of the third stream; \<open>known\<close> tells whether its item was received before.\<close>

definition data_msg_step :: "bool \<Rightarrow> forward_data \<Rightarrow> (hub_state, unit) eff" where
  "data_msg_step known msg =
     (case msg of (ty, k, d) \<Rightarrow>
        bindE (if known then retE () else fstE (MakeSureTableExist (snd k))) (\<lambda>_.
        bindE (fstE (SaveDataHistory (fst k) (snd k) (dt_value d) (dt_msec d))) (\<lambda>n.
          if 0 < n then
            bindE (if ty = kMsgDataGpio then ignoreE (fstE (UpdateItemStatus (fst k) (snd k) NoStatus (dt_msec d))) else retE ()) (\<lambda>_.
              notify (hub_Publish (if ty = kMsgMissData then BrokerMissingData else BrokerData) (ForwardData ty k d) (Some k)))
          else retE ())))"

fun syncDataClient :: "station_item list \<Rightarrow> forward_data result list \<Rightarrow> (hub_state, unit) eff" where
  "syncDataClient received [] = retE ()"
| "syncDataClient received (Inl e # rest) = retE ()"
| "syncDataClient received (Inr msg # rest) =
     (let k = fst (snd msg) in
      bindE (data_msg_step (k \<in> set received) msg) (\<lambda>_. syncDataClient (k # received) rest))"

fun stations_items_latest ::
  "uuid_strings_map \<Rightarrow> (uuid, (string, int) go_map) go_map \<Rightarrow> (uuid, (string, int) go_map) go_map db_op" where
  "stations_items_latest [] m = retE m"
| "stations_items_latest ((sid, names) # rest) m =
     bindE (GetItemsLatest sid (fold (\<lambda>n. AList.update n 0) names [])) (\<lambda>latest.
       stations_items_latest rest (AList.update sid latest m))"

definition fill_point :: "uuid \<Rightarrow> string \<Rightarrow> data_time \<Rightarrow> (hub_state, unit) eff" where
  "fill_point sid itemName d = bindE (fstE (MakeSureTableExist itemName)) (\<lambda>_. miss_data_step sid itemName d)"

definition fillMissDataClient ::
  "uuid_strings_map result \<Rightarrow> (uuid, miss_data) go_map result \<Rightarrow> (v1_relay_state, unit) eff" where
  "fillMissDataClient permissions miss =
     bindE (liftR permissions) (\<lambda>perms.
     bindE (dbE (stations_items_latest perms [])) (\<lambda>latest.
     bindE (v1_send (RvItemsLatest latest)) (\<lambda>_.
     bindE (liftR miss) (\<lambda>m.
       fstE (forE (\<lambda>(sid, missData). forE (\<lambda>(itemName, ds). forE (fill_point sid itemName) ds) missData) m)))))"

section \<open>The downstream's session (\<open>sync_client.go\<close>)\<close>

text \<open>
  What the two goroutines of a session do, step by step: a message of the first stream, the start
  of a data round, a message of the third stream.
\<close>

datatype v1_client_step =
    VConfig "rcv_msg result"
  | VRound "uuid_strings_map result" "(uuid, miss_data) go_map result"
  | VData "forward_data result"

text \<open>
  A failed \<open>VConfig\<close> or \<open>VRound\<close> ends the session; a failed \<open>VData\<close> only its round: the third stream
  is closed and its messages are not read until the next round. \<open>received\<close> is the set
  \<^verbatim>\<open>receivedItems\<close> of the round, \<open>None\<close> outside a round.
\<close>

fun v1_client_loop ::
  "(rcv_msg \<Rightarrow> (hub_state, unit) eff) \<Rightarrow> station_item list option \<Rightarrow> v1_client_step list \<Rightarrow> (v1_relay_state, unit) eff" where
  "v1_client_loop handle received [] = retE ()"
| "v1_client_loop handle received (VConfig (Inl e) # rest) = retE ()"
| "v1_client_loop handle received (VConfig (Inr msg) # rest) =
     bindE (fstE (handle msg)) (\<lambda>_. v1_client_loop handle received rest)"
| "v1_client_loop handle received (VRound permissions miss # rest) =
     bindE (fillMissDataClient permissions miss) (\<lambda>_. v1_client_loop handle (Some []) rest)"
| "v1_client_loop handle None (VData d # rest) = v1_client_loop handle None rest"
| "v1_client_loop handle (Some received) (VData (Inl e) # rest) = v1_client_loop handle None rest"
| "v1_client_loop handle (Some received) (VData (Inr msg) # rest) =
     bindE (tryE (fstE (data_msg_step (fst (snd msg) \<in> set received) msg))) (\<lambda>r.
       v1_client_loop handle (case r of Inl _ \<Rightarrow> None | Inr _ \<Rightarrow> Some (fst (snd msg) # received)) rest)"

definition handleSyncClientConn ::
  "uuid_codec \<Rightarrow> event_decoder \<Rightarrow> (string \<Rightarrow> int result) \<Rightarrow> (string \<Rightarrow> uuid_strings_map result) \<Rightarrow> index_order \<Rightarrow> int
     \<Rightarrow> bool \<Rightarrow> v1_full_input \<Rightarrow> v1_client_step list \<Rightarrow> (v1_relay_state, unit) eff" where
  "handleSyncClientConn c dec getRole getPermissions visit upstreamId opened input steps =
     finallyE (ignoreE (dbE (RemoveAvailableByUpstreamId upstreamId)))
       (if \<not> opened then throwE v1_return
        else bindE (fullSyncConfigClient c visit upstreamId input) (\<lambda>_.
          v1_client_loop (handleSyncConfigMsg dec getRole getPermissions upstreamId) None steps))"

end
