(* ===== verification/Reconcile.thy ===== *)
theory Reconcile
  imports StationInfoSync
begin

text \<open>
  Correctness of the reconciliation: after \<open>SyncStationInfo\<close> the station's devices and items are
  exactly the reported ones and no other station's rows have changed.
\<close>

section \<open>Views of the tables\<close>

definition dev_names :: "tide_db \<Rightarrow> uuid \<Rightarrow> string set" where
  "dev_names db sid = {n. map_of (devices db) (sid, n) \<noteq> None}"

definition item_cols :: "tide_db \<Rightarrow> uuid \<Rightarrow> string \<Rightarrow> (string \<times> string) option" where
  "item_cols db sid n = map_option (\<lambda>r. (it_type r, it_device_name r)) (map_of (items db) (sid, n))"

definition same_elsewhere :: "uuid \<Rightarrow> tide_db \<Rightarrow> tide_db \<Rightarrow> bool" where
  "same_elsewhere sid db db' \<longleftrightarrow>
     (\<forall>u n. u \<noteq> sid \<longrightarrow> map_of (devices db') (u, n) = map_of (devices db) (u, n) \<and>
                      map_of (items db') (u, n) = map_of (items db) (u, n))"

lemma same_elsewhere_refl [simp]: "same_elsewhere sid db db"
  by (simp add: same_elsewhere_def)

lemma same_elsewhere_trans: "same_elsewhere sid a b \<Longrightarrow> same_elsewhere sid b c \<Longrightarrow> same_elsewhere sid a c"
  by (simp add: same_elsewhere_def)

definition good :: "uuid \<Rightarrow> tide_db \<Rightarrow> tide_db \<Rightarrow> bool" where
  "good sid db0 db \<longleftrightarrow> db_ok db \<and> db_known db sid \<and> same_elsewhere sid db0 db"

text \<open>A step that keeps the invariant and the station and changes only the station's rows.\<close>

lemma good_step:
  assumes "good sid db0 db" "preserves db_ok m" "preserves (\<lambda>db. db_known db sid) m" "same_elsewhere sid db (snd (m db))"
  shows "good sid db0 (snd (m db))"
  using assms preservesD [OF assms(2), of db] preservesD [OF assms(3), of db]
  by (auto simp: good_def intro: same_elsewhere_trans)

lemma good_wf: "good sid db0 db \<Longrightarrow> wf_map (devices db) \<and> wf_map (items db) \<and> wf_map (stations db)"
  by (simp add: good_def db_ok_def tables_wf_def)

lemma EditDevice_runs:
  assumes "good sid db0 db"
  shows "runs (EditDevice (new_device sid n)) db (\<lambda>_ db'. good sid db0 db' \<and>
     dev_names db' sid = insert n (dev_names db sid) \<and> item_cols db' sid = item_cols db sid)"
proof -
  let ?m = "EditDevice (new_device sid n)"
  have k: "map_of (stations db) sid \<noteq> None" using assms by (simp add: good_def db_known_def)
  have "same_elsewhere sid db (snd (?m db))"
    by (auto simp: same_elsewhere_def EditDevice_def new_device_def Let_def)
  from good_step [OF assms db_ok_EditDevice known_config_ops(1) this]
  have g: "good sid db0 (snd (?m db))" .
  moreover have "fst (?m db) = Inr ()"
    using k by (auto simp: EditDevice_def new_device_def Let_def)
  moreover have "dev_names (snd (?m db)) sid = insert n (dev_names db sid)" "item_cols (snd (?m db)) sid = item_cols db sid"
    using k by (auto simp: EditDevice_def new_device_def Let_def dev_names_def item_cols_def fun_eq_iff)
  ultimately show ?thesis by (cases "?m db") (auto intro: runsI)
qed

text \<open>The items that remain when the devices \<open>gone\<close> are deleted.\<close>

definition drop_devices :: "string set \<Rightarrow> (string \<Rightarrow> (string \<times> string) option) \<Rightarrow> string \<Rightarrow> (string \<times> string) option" where
  "drop_devices gone v = (\<lambda>m. case v m of Some (ty, d) \<Rightarrow> if d \<in> gone then None else Some (ty, d) | None \<Rightarrow> None)"

lemma drop_devices_empty [simp]: "drop_devices {} v = v"
  by (auto simp: drop_devices_def fun_eq_iff split: option.split)

lemma drop_devices_insert: "drop_devices (insert n gone) v = drop_devices {n} (drop_devices gone v)"
  by (auto simp: drop_devices_def fun_eq_iff split: option.split)

lemma DelDevice_runs:
  assumes "good sid db0 db" "n \<noteq> []"
  shows "runs (DelDevice sid n) db (\<lambda>_ db'. good sid db0 db' \<and>
     dev_names db' sid = dev_names db sid - {n} \<and>
     item_cols db' sid = drop_devices {n} (item_cols db sid))"
proof -
  let ?m = "DelDevice sid n"
  note wf = good_wf [OF assms(1)]
  have "same_elsewhere sid db (snd (?m db))"
    using wf by (auto simp: same_elsewhere_def DelDevice_def Let_def delete_devices_def map_of_sql_delete split: option.split)
  from good_step [OF assms(1) db_ok_DelDevice known_config_ops(2) this]
  have g: "good sid db0 (snd (?m db))" .
  moreover have "dev_names (snd (?m db)) sid = dev_names db sid - {n}"
    using wf assms(2) by (auto simp: DelDevice_def Let_def delete_devices_def dev_names_def map_of_sql_delete split: option.splits)
  moreover have "item_cols (snd (?m db)) sid m = drop_devices {n} (item_cols db sid) m" for m
    using wf assms(2) by (cases "map_of (items db) (sid, m)")
      (auto simp: DelDevice_def Let_def delete_devices_def item_cols_def map_of_sql_delete drop_devices_def)
  ultimately show ?thesis
    by (intro runsI [where a = "sql_count (\<lambda>k _. fst k = sid \<and> (n = [] \<or> snd k = n)) (devices db)" and s' = "snd (?m db)"])
       (auto simp: DelDevice_def Let_def fun_eq_iff)
qed

lemma DelItem_runs:
  assumes "good sid db0 db"
  shows "runs (DelItem sid n) db (\<lambda>_ db'. good sid db0 db' \<and>
     dev_names db' sid = dev_names db sid \<and> item_cols db' sid = (item_cols db sid)(n := None))"
proof -
  let ?m = "DelItem sid n"
  note wf = good_wf [OF assms(1)]
  have "same_elsewhere sid db (snd (?m db))"
    using wf by (auto simp: same_elsewhere_def DelItem_def map_of_sql_delete split: option.split)
  from good_step [OF assms(1) db_ok_DelItem known_config_ops(3) this]
  have g: "good sid db0 (snd (?m db))" .
  moreover have "dev_names (snd (?m db)) sid = dev_names db sid"
    by (simp add: DelItem_def dev_names_def)
  moreover have "item_cols (snd (?m db)) sid m = ((item_cols db sid)(n := None)) m" for m
    using wf by (cases "map_of (items db) (sid, m)") (auto simp: DelItem_def item_cols_def map_of_sql_delete)
  ultimately show ?thesis
    by (intro runsI [where a = "sql_count (\<lambda>k _. k = (sid, n)) (items db)" and s' = "snd (?m db)"]) (auto simp: DelItem_def)
qed

definition usable_name :: "string \<Rightarrow> bool" where
  "usable_name n \<longleftrightarrow> \<not> ContainsIllegalCharacter n \<and> sql_table_name n"

lemma EditItem_runs:
  assumes "good sid db0 db" "usable_name n" "dev \<in> dev_names db sid"
  shows "runs (EditItem (new_item sid n ty dev)) db (\<lambda>_ db'. good sid db0 db' \<and>
     dev_names db' sid = dev_names db sid \<and> item_cols db' sid = (item_cols db sid)(n \<mapsto> (ty, dev)))"
proof -
  let ?m = "EditItem (new_item sid n ty dev)"
  let ?db1 = "snd (MakeSureTableExist n db)"
  have 1: "fst (MakeSureTableExist n db) = Inr ()" "devices ?db1 = devices db" "items ?db1 = items db"
    using assms(2) by (simp_all add: MakeSureTableExist_def usable_name_def)
  let ?db2 = "?db1\<lparr>items := (case map_of (items db) (sid, n) of
          None \<Rightarrow> sql_insert (sid, n) (new_item_row (new_item sid n ty dev) [0] ?db1) (items db)
        | Some _ \<Rightarrow> sql_update (\<lambda>k _. k = (sid, n)) (set_item_columns (new_item sid n ty dev)) (items db))\<rparr>"
  have run: "?m db = (Inr (), ?db2)"
    using 1 assms(3) by (cases "MakeSureTableExist n db")
      (auto simp: EditItem_def new_item_def bindE_def Let_def dev_names_def split: option.split)
  have "same_elsewhere sid db (snd (?m db))"
    using 1 unfolding run by (auto simp: same_elsewhere_def option.map_ident split: option.split)
  from good_step [OF assms(1) db_ok_EditItem known_EditItem this]
  have "good sid db0 ?db2" unfolding run by simp
  moreover have "dev_names ?db2 sid = dev_names db sid" using 1 by (simp add: dev_names_def)
  moreover have "item_cols ?db2 sid m = ((item_cols db sid)(n \<mapsto> (ty, dev))) m" for m
    by (auto simp: item_cols_def new_item_row_def set_item_columns_def new_item_def option.map_ident
        split: option.split prod.split)
  ultimately show ?thesis by (intro runsI [where m = ?m and s = db, OF run]) auto
qed

section \<open>The loops\<close>

lemma runs_notify: "Q () (fst st, f (snd st)) \<Longrightarrow> runs (notify f) st Q"
  by (simp add: runs_def notify_def sndE_def modifyE_def)

lemma runs_step:
  assumes "runs m (fst st) (\<lambda>_ db'. R db')"
  shows "runs (bindE (fstE m) (\<lambda>_. notify f)) st (\<lambda>_ sn. R (fst sn))"
  unfolding runs_bind by (rule runs_fst, rule runs_mono [OF assms], rule runs_notify) simp

lemma add_devices_run:
  fixes st :: "tide_db \<times> 'n"
  assumes "good sid db0 (fst st)" "dev_names (fst st) sid = set od"
  shows "runs (forE (add_device_step ih sid od) ns) st (\<lambda>_ sn. good sid db0 (fst sn) \<and>
     dev_names (fst sn) sid = set od \<union> set ns \<and> item_cols (fst sn) sid = item_cols (fst st) sid)"
proof (rule runs_for [where I = "\<lambda>xs sn. good sid db0 (fst sn) \<and>
     dev_names (fst sn) sid = set od \<union> set xs \<and> item_cols (fst sn) sid = item_cols (fst st) sid"])
  show "good sid db0 (fst st) \<and> dev_names (fst st) sid = set od \<union> set [] \<and> item_cols (fst st) sid = item_cols (fst st) sid"
    using assms by simp
next
  fix xs x and sn :: "tide_db \<times> 'n"
  assume I: "good sid db0 (fst sn) \<and> dev_names (fst sn) sid = set od \<union> set xs \<and> item_cols (fst sn) sid = item_cols (fst st) sid"
  then have "runs (EditDevice (new_device sid x)) (fst sn) (\<lambda>_ db'. good sid db0 db' \<and>
     dev_names db' sid = set od \<union> set (xs @ [x]) \<and> item_cols db' sid = item_cols (fst st) sid)"
    using EditDevice_runs [of sid db0 "fst sn" x] by (auto elim!: runs_mono)
  from runs_step [OF this] I
  show "runs (add_device_step ih sid od x) sn (\<lambda>_ sn. good sid db0 (fst sn) \<and>
     dev_names (fst sn) sid = set od \<union> set (xs @ [x]) \<and> item_cols (fst sn) sid = item_cols (fst st) sid)"
    by (auto simp: add_device_step_def)
qed

lemma del_devices_run:
  fixes st :: "tide_db \<times> 'n"
  assumes "good sid db0 (fst st)" "[] \<notin> set ns"
  shows "runs (forE (del_device_step ih sid devs) ns) st (\<lambda>_ sn. good sid db0 (fst sn) \<and>
     dev_names (fst sn) sid = dev_names (fst st) sid - (set ns - fst ` set devs) \<and>
     item_cols (fst sn) sid = drop_devices (set ns - fst ` set devs) (item_cols (fst st) sid))"
proof (rule runs_for [where I = "\<lambda>xs sn. good sid db0 (fst sn) \<and>
     dev_names (fst sn) sid = dev_names (fst st) sid - (set xs - fst ` set devs) \<and>
     item_cols (fst sn) sid = drop_devices (set xs - fst ` set devs) (item_cols (fst st) sid)"])
  show "good sid db0 (fst st) \<and> dev_names (fst st) sid = dev_names (fst st) sid - (set [] - fst ` set devs) \<and>
     item_cols (fst st) sid = drop_devices (set [] - fst ` set devs) (item_cols (fst st) sid)"
    using assms by simp
next
  fix xs x and sn :: "tide_db \<times> 'n"
  let ?J = "\<lambda>xs db. good sid db0 db \<and> dev_names db sid = dev_names (fst st) sid - (set xs - fst ` set devs) \<and>
     item_cols db sid = drop_devices (set xs - fst ` set devs) (item_cols (fst st) sid)"
  assume I: "?J xs (fst sn)" and x: "x \<in> set ns"
  show "runs (del_device_step ih sid devs x) sn (\<lambda>_ sn. ?J (xs @ [x]) (fst sn))"
  proof (cases "x \<in> fst ` set devs")
    case True
    then have "set (xs @ [x]) - fst ` set devs = set xs - fst ` set devs" by auto
    with True I show ?thesis by (simp add: del_device_step_def)
  next
    case False
    then have s: "set (xs @ [x]) - fst ` set devs = insert x (set xs - fst ` set devs)" by auto
    have "x \<noteq> []" using x assms(2) by auto
    with I have "runs (DelDevice sid x) (fst sn) (\<lambda>_ db'. ?J (xs @ [x]) db')"
      unfolding s drop_devices_insert [of x "set xs - fst ` set devs"]
      by (intro runs_mono [OF DelDevice_runs [of sid db0 "fst sn" x]]) auto
    from runs_step [OF this] False show ?thesis by (simp add: del_device_step_def)
  qed
qed

lemma del_items_run:
  fixes st :: "tide_db \<times> 'n"
  assumes "good sid db0 (fst st)"
  shows "runs (forE (del_item_step ih sid ni) ns) st (\<lambda>_ sn. good sid db0 (fst sn) \<and>
     dev_names (fst sn) sid = dev_names (fst st) sid \<and>
     item_cols (fst sn) sid = (\<lambda>n. if n \<in> set ns \<and> map_of ni n = None then None else item_cols (fst st) sid n))"
proof (rule runs_for [where I = "\<lambda>xs sn. good sid db0 (fst sn) \<and> dev_names (fst sn) sid = dev_names (fst st) sid \<and>
     item_cols (fst sn) sid = (\<lambda>n. if n \<in> set xs \<and> map_of ni n = None then None else item_cols (fst st) sid n)"])
  show "good sid db0 (fst st) \<and> dev_names (fst st) sid = dev_names (fst st) sid \<and>
     item_cols (fst st) sid = (\<lambda>n. if n \<in> set [] \<and> map_of ni n = None then None else item_cols (fst st) sid n)"
    using assms by simp
next
  fix xs x and sn :: "tide_db \<times> 'n"
  let ?J = "\<lambda>xs db. good sid db0 db \<and> dev_names db sid = dev_names (fst st) sid \<and>
     item_cols db sid = (\<lambda>n. if n \<in> set xs \<and> map_of ni n = None then None else item_cols (fst st) sid n)"
  assume I: "?J xs (fst sn)"
  show "runs (del_item_step ih sid ni x) sn (\<lambda>_ sn. ?J (xs @ [x]) (fst sn))"
  proof (cases "map_of ni x")
    case (Some v)
    with I show ?thesis by (auto simp: del_item_step_def fun_eq_iff)
  next
    case None
    then have "runs (DelItem sid x) (fst sn) (\<lambda>_ db'. ?J (xs @ [x]) db')"
      using DelItem_runs [of sid db0 "fst sn" x] I by (auto elim!: runs_mono simp: fun_eq_iff)
    from runs_step [OF this] None show ?thesis by (simp add: del_item_step_def)
  qed
qed

lemma edit_items_run:
  fixes st :: "tide_db \<times> 'n"
  assumes "good sid db0 (fst st)"
    and "\<And>n ty d. (n, ty, d) \<in> set ns \<Longrightarrow> usable_name n \<and> d \<in> dev_names (fst st) sid \<and> item_changed oi n ty d"
  shows "runs (forE (edit_item_step ih sid oi) ns) st (\<lambda>_ sn. good sid db0 (fst sn) \<and>
     dev_names (fst sn) sid = dev_names (fst st) sid \<and>
     item_cols (fst sn) sid = item_cols (fst st) sid ++ map_of (rev ns))"
proof (rule runs_for [where I = "\<lambda>xs sn. good sid db0 (fst sn) \<and> dev_names (fst sn) sid = dev_names (fst st) sid \<and>
     item_cols (fst sn) sid = item_cols (fst st) sid ++ map_of (rev xs)"])
  show "good sid db0 (fst st) \<and> dev_names (fst st) sid = dev_names (fst st) sid \<and>
     item_cols (fst st) sid = item_cols (fst st) sid ++ map_of (rev [])"
    using assms(1) by simp
next
  fix xs x and sn :: "tide_db \<times> 'n"
  let ?J = "\<lambda>xs db. good sid db0 db \<and> dev_names db sid = dev_names (fst st) sid \<and>
     item_cols db sid = item_cols (fst st) sid ++ map_of (rev xs)"
  assume I: "?J xs (fst sn)" and x: "x \<in> set ns"
  obtain n ty d where nx: "x = (n, ty, d)" by (cases x)
  with assms(2) x have ok: "usable_name n" "d \<in> dev_names (fst sn) sid" "item_changed oi n ty d" using I by auto
  have "runs (EditItem (new_item sid n ty d)) (fst sn) (\<lambda>_ db'. ?J (xs @ [x]) db')"
    using EditItem_runs [OF _ ok(1,2), of db0 ty] I nx by (auto elim!: runs_mono)
  from runs_step [OF this] ok(3) nx show "runs (edit_item_step ih sid oi x) sn (\<lambda>_ sn. ?J (xs @ [x]) (fst sn))"
    by (simp add: edit_item_step_def)
qed

section \<open>The maps the function builds\<close>

lemma GetDevices_names:
  assumes "sid \<noteq> uuid_Nil"
  shows "runs (GetDevices sid) db (\<lambda>ds db'. db' = db \<and> set (map d_Name ds) = dev_names db sid)"
proof -
  have "set (map d_Name (map (\<lambda>(k, r). \<lparr>d_StationId = fst k, d_Name = snd k, d_Specs = Some (dev_specs r),
       d_LastMaintenance = dev_last_maintenance r\<rparr>) (filter (\<lambda>(k, _). sid = uuid_Nil \<or> fst k = sid) (devices db)))) = dev_names db sid"
    using assms by (force simp: dev_names_def map_of_eq_None_iff image_iff simp del: not_None_eq)
  then show ?thesis unfolding runs_def GetDevices_def readE_def by blast
qed

lemma GetItems_names:
  assumes "sid \<noteq> uuid_Nil"
  shows "runs (GetItems sid) db (\<lambda>is db'. db' = db \<and> i_Name ` set is = {n. item_cols db sid n \<noteq> None})"
proof -
  have "i_Name ` set (map item_of_row (filter (\<lambda>(k, _). sid = uuid_Nil \<or> fst k = sid) (items db))) = {n. item_cols db sid n \<noteq> None}"
    using assms by (force simp: item_cols_def item_of_row_def map_of_eq_None_iff image_iff simp del: not_None_eq)
  then show ?thesis unfolding runs_def GetItems_def readE_def by blast
qed

lemma old_items_map_dom: "fst ` set (old_items_map is) = i_Name ` set is"
proof -
  have "fst ` set (fold (\<lambda>i. AList.update (i_Name i) i) is m) = fst ` set m \<union> i_Name ` set is" for m
    by (induction "is" arbitrary: m) (auto simp: dom_update)
  then show ?thesis by (simp add: old_items_map_def)
qed

lemma map_of_old_items: "map_of (old_items_map is) n = Some i \<Longrightarrow> i_Name i = n"
proof -
  have "map_of (fold (\<lambda>i. AList.update (i_Name i) i) is m) n = Some i \<Longrightarrow> i_Name i = n"
    if "\<forall>n i. map_of m n = Some i \<longrightarrow> i_Name i = n" for m
    using that
  proof (induction "is" arbitrary: m)
    case (Cons a xs)
    show ?case by (rule Cons.IH [of "AList.update (i_Name a) a m"]) (use Cons.prems in auto)
  qed simp
  from this [of "[]"] show "map_of (old_items_map is) n = Some i \<Longrightarrow> i_Name i = n" by (simp add: old_items_map_def)
qed

lemma wf_collect_items: "wf_map (collect_items devs)"
proof -
  have inner: "wf_map m \<Longrightarrow> wf_map (fold (\<lambda>(ty, n). AList.update n (ty, d)) its m)" for its m and d :: string
    by (induction its arbitrary: m) auto
  have "wf_map m \<Longrightarrow> wf_map (fold (\<lambda>(dev, its) m. fold (\<lambda>(ty, n). AList.update n (ty, dev)) its m) devs m)" for m
    by (induction devs arbitrary: m) (auto simp: inner)
  then show ?thesis by (simp add: collect_items_def)
qed

lemma collect_items_mem:
  assumes "(n, ty, d) \<in> set (collect_items devs)"
  shows "\<exists>its. (d, its) \<in> set devs \<and> (ty, n) \<in> set its"
proof -
  have inner: "map_of (fold (\<lambda>(ty, n). AList.update n (ty, d)) its m) n = Some (ty, d') \<Longrightarrow>
     map_of m n = Some (ty, d') \<or> (d' = d \<and> (ty, n) \<in> set its)" for its m n ty d d'
    by (induction its arbitrary: m) (fastforce split: if_splits)+
  have outer: "map_of (fold (\<lambda>(dev, its) m. fold (\<lambda>(ty, n). AList.update n (ty, dev)) its m) devs m) n = Some (ty, d) \<Longrightarrow>
     map_of m n = Some (ty, d) \<or> (\<exists>its. (d, its) \<in> set devs \<and> (ty, n) \<in> set its)" for m
  proof (induction devs arbitrary: m)
    case (Cons x devs)
    then show ?case using inner by (cases x) fastforce
  qed simp
  show ?thesis
    using outer [of "[]"] assms wf_map_map_of_iff [OF wf_collect_items, of devs n "(ty, d)"] by (simp add: collect_items_def)
qed

definition orders_permute :: "map_orders \<Rightarrow> bool" where
  "orders_permute vo \<longleftrightarrow> (\<forall>xs. set (vo_devices vo xs) = set xs) \<and> (\<forall>m. mset (vo_old_items vo m) = mset m) \<and>
     (\<forall>m. mset (vo_new_items vo m) = mset m)"

section \<open>The whole reconciliation\<close>

lemma sync_cameras_runs:
  "runs (sync_cameras ih sid cn cams) st (\<lambda>_ sn. devices (fst sn) = devices (fst st) \<and> items (fst sn) = items (fst st))"
  unfolding sync_cameras_def Let_def runs_bind
  by (rule runs_fst) (auto simp: runs_def SyncStationCannotEdit_def Let_def notify_def eff_simps)

lemma announce_runs:
  "runs (if b then bindE (fstE (tryE GetAvailableItems)) (\<lambda>av. notify (f av)) else retE ()) st (\<lambda>_ sn. fst sn = fst st)"
  by (cases st) (simp add: runs_def eff_simps notify_def GetAvailableItems_def)

lemma announce_cameras_runs:
  "runs (bindE (if b then bindE (fstE (tryE GetAvailableItems)) (\<lambda>av. notify (f av)) else retE ()) (\<lambda>_.
      sync_cameras ih sid cn cams)) st (\<lambda>_ sn. devices (fst sn) = devices (fst st) \<and> items (fst sn) = items (fst st))"
  unfolding runs_bind
proof (rule runs_mono [OF announce_runs])
  fix u and sn :: "tide_db \<times> 'a"
  assume "fst sn = fst st"
  then show "runs (sync_cameras ih sid cn cams) sn (\<lambda>_ sn. devices (fst sn) = devices (fst st) \<and> items (fst sn) = items (fst st))"
    using sync_cameras_runs [of ih sid cn cams sn] by simp
qed

lemma reconcile_final_items:
  assumes "{n. old n \<noteq> None} \<subseteq> names"
  shows "(\<lambda>n. if n \<in> names \<and> ni n = None then None else drop_devices gone old n) ++ ni = ni"
  using assms by (auto simp: fun_eq_iff map_add_def drop_devices_def split: option.split)

text \<open>The four loops, given what the two queries returned.\<close>

lemma reconcile_loops:
  fixes st :: "tide_db \<times> 'n"
  assumes g: "good sid db0 (fst st)" and od: "set od = dev_names (fst st) sid" "[] \<notin> set od" "set od' = set od"
    and oi: "{n. item_cols (fst st) sid n \<noteq> None} \<subseteq> set ons"
    and ni: "map_of (rev ni') = map_of ni" "set ni' = set ni"
    and items_ok: "\<And>n ty d. (n, ty, d) \<in> set ni \<Longrightarrow> usable_name n \<and> d \<in> fst ` set devs \<and> item_changed oi n ty d"
  shows "runs (bindE (forE (add_device_step ih sid od) (map fst devs)) (\<lambda>_.
     bindE (forE (del_device_step ih sid devs) od') (\<lambda>_.
     bindE (forE (del_item_step ih sid ni) ons) (\<lambda>_. forE (edit_item_step ih sid oi) ni')))) st (\<lambda>_ sn.
     good sid db0 (fst sn) \<and> dev_names (fst sn) sid = fst ` set devs \<and> item_cols (fst sn) sid = map_of ni)"
  unfolding runs_bind
proof (rule runs_mono [OF add_devices_run [OF g, of od]], goal_cases)
  case (2 _ s1)
  then have s1: "good sid db0 (fst s1)" "dev_names (fst s1) sid = set od \<union> fst ` set devs"
    "item_cols (fst s1) sid = item_cols (fst st) sid" by auto
  show ?case
  proof (rule runs_mono [OF del_devices_run [OF s1(1)]], goal_cases)
    case (2 _ s2)
    then have s2: "good sid db0 (fst s2)" "dev_names (fst s2) sid = fst ` set devs"
      "item_cols (fst s2) sid = drop_devices (set od - fst ` set devs) (item_cols (fst st) sid)"
      using s1 od by auto
    show ?case
    proof (rule runs_mono [OF del_items_run [OF s2(1)]], goal_cases)
      case (1 _ s3)
      then have s3: "good sid db0 (fst s3)" "dev_names (fst s3) sid = fst ` set devs"
        "item_cols (fst s3) sid ++ map_of ni = map_of ni"
        using s2(2) reconcile_final_items [OF oi, of "map_of ni"] unfolding s2(3) by auto
      have ok: "usable_name n \<and> d \<in> dev_names (fst s3) sid \<and> item_changed oi n ty d" if "(n, ty, d) \<in> set ni'" for n ty d
        using that items_ok [of n ty d] ni(2) s3(2) by simp
      show ?case
        by (rule runs_mono [OF edit_items_run [OF s3(1) ok]]) (use s3 ni(1) in auto)
    qed
  qed (use od in simp)
qed (use od in simp)

text \<open>
  C8: from tables that satisfy the invariant and contain the station, and for a report of usable item names none of which is also a
  device name, \<open>SyncStationInfo\<close> succeeds in
  every order in which Go may walk its maps, and afterwards the station's devices are exactly the
  reported ones and its items are exactly the reported ones with their types and devices, while no
  row of any other station has changed. The item names must be usable as table names and, because
  of the comparison the code makes, no item may be named like a device; no stored device has an
  empty name.
\<close>

theorem reconcile_exact:
  assumes "db_ok db" "db_known db sid" "sid \<noteq> uuid_Nil" "[] \<notin> dev_names db sid" "orders_permute vo"
    and names: "\<And>dev its ty n. (dev, its) \<in> set (si_devices info) \<Longrightarrow> (ty, n) \<in> set its \<Longrightarrow>
       usable_name n \<and> n \<notin> fst ` set (si_devices info)"
  shows "\<exists>sn. SyncStationInfo ih vo cams_nil sid info (db, h) = (Inr (), sn) \<and>
     dev_names (fst sn) sid = fst ` set (si_devices info) \<and>
     item_cols (fst sn) sid = map_of (collect_items (si_devices info)) \<and> same_elsewhere sid db (fst sn)"
proof -
  let ?devs = "si_devices info" and ?ni = "collect_items (si_devices info)"
  have vo: "set (vo_devices vo xs) = set xs" "mset (vo_old_items vo m) = mset m" "mset (vo_new_items vo m') = mset m'" for xs m m'
    using assms(5) by (simp_all add: orders_permute_def)
  have new: "map_of (rev (vo_new_items vo ?ni)) = map_of ?ni" "set (vo_new_items vo ?ni) = set ?ni"
    using map_of_visit(2) [OF wf_collect_items, of "rev (vo_new_items vo ?ni)" ?devs] vo(3) mset_eq_setD [OF vo(3)]
    by (auto simp: fun_eq_iff)
  have g: "good sid db (fst (db, h))" using assms(1,2) by (simp add: good_def)
  obtain ds where ds: "fstE (GetDevices sid) (db, h) = (Inr ds, (db, h))" "set (map d_Name ds) = dev_names db sid"
    using runsD [OF GetDevices_names [OF assms(3), of db]] by (auto simp: fstE_def)
  obtain its where its: "fstE (GetItems sid) (db, h) = (Inr its, (db, h))" "i_Name ` set its = {n. item_cols db sid n \<noteq> None}"
    using runsD [OF GetItems_names [OF assms(3), of db]] by (auto simp: fstE_def)
  let ?od = "remdups (map d_Name ds)" and ?oi = "old_items_map its"
  let ?loops = "bindE (forE (add_device_step ih sid ?od) (map fst ?devs)) (\<lambda>_.
     bindE (forE (del_device_step ih sid ?devs) (vo_devices vo ?od)) (\<lambda>_.
     bindE (forE (del_item_step ih sid ?ni) (map fst (vo_old_items vo ?oi))) (\<lambda>_.
       forE (edit_item_step ih sid ?oi) (vo_new_items vo ?ni))))"
  have "set (map fst (vo_old_items vo ?oi)) = {n. item_cols db sid n \<noteq> None}"
    using mset_eq_setD [OF vo(2)] old_items_map_dom its(2) by auto
  moreover have "usable_name n \<and> d \<in> fst ` set ?devs \<and> item_changed ?oi n ty d" if "(n, ty, d) \<in> set ?ni" for n ty d
    using collect_items_mem [OF that] names map_of_old_items [of its n]
    by (force simp: item_changed_def split: option.split)
  ultimately obtain s4 where s4: "?loops (db, h) = (Inr (), s4)"
    "good sid db (fst s4)" "dev_names (fst s4) sid = fst ` set ?devs" "item_cols (fst s4) sid = map_of ?ni"
    using runsD [OF reconcile_loops [OF g, of ?od "vo_devices vo ?od" "map fst (vo_old_items vo ?oi)"
        "vo_new_items vo ?ni" ?ni ?devs ?oi ih]] ds(2) assms(4) vo(1) new by auto
  let ?rest = "bindE (if \<exists>x \<in> set ?ni. map_of ?oi (fst x) = None
      then bindE (fstE (tryE GetAvailableItems)) (\<lambda>av. notify (ih_add_items ih av)) else retE ()) (\<lambda>_.
        sync_cameras ih sid cams_nil (si_cameras info))"
  obtain s6 where s6: "?rest s4 = (Inr (), s6)"
    "devices (fst s6) = devices (fst s4)" "items (fst s6) = items (fst s4)"
    using runsD [OF announce_cameras_runs [where st = s4 and f = "ih_add_items ih" and ih = ih and sid = sid and
        cn = cams_nil and cams = "si_cameras info" and b = "\<exists>x \<in> set ?ni. map_of ?oi (fst x) = None"]] by auto
  have "SyncStationInfo ih vo cams_nil sid info (db, h) = bindE ?loops (\<lambda>_. ?rest) (db, h)"
    using ds(1) its(1) by (simp add: SyncStationInfo_def Let_def bindE_Inr bindE_assoc)
  also have "\<dots> = (Inr (), s6)"
    using s4(1) s6(1) by (simp only: bindE_Inr)
  finally have "SyncStationInfo ih vo cams_nil sid info (db, h) = (Inr (), s6)" .
  with s4 s6(2,3) show ?thesis
    by (auto simp: dev_names_def item_cols_def [abs_def] good_def same_elsewhere_def)
qed

definition moved_info :: station_info where
  "moved_info = \<lparr>si_identifier = ''s'', si_devices = [(''e'', [(''w'', ''water''), (''t'', ''temp'')])], si_cameras = [''cam'']\<rparr>"

lemma one_item_db_ok: "db_ok one_item_db"
  by (simp add: db_ok_defs one_item_db_def empty_db_def)

lemma list_orders_permute: "orders_permute list_orders"
  by (simp add: orders_permute_def list_orders_def)

lemma moved_info_names:
  assumes "(dev, its) \<in> set (si_devices moved_info)" "(ty, n) \<in> set its"
  shows "usable_name n \<and> n \<notin> fst ` set (si_devices moved_info)"
  using assms by (auto simp: moved_info_def usable_name_def ContainsIllegalCharacter_def legal_char_def sql_table_name_def sql_keywords_def)

theorem reconcile_exact_witness:
  "\<exists>sn. SyncStationInfo silent_hub list_orders False 7 moved_info (one_item_db, ()) = (Inr (), sn) \<and>
     dev_names (fst sn) 7 = {''e''} \<and> item_cols (fst sn) 7 ''water'' = Some (''w'', ''e'') \<and> same_elsewhere 7 one_item_db (fst sn)"
proof -
  have k: "db_known one_item_db 7" "[] \<notin> dev_names one_item_db 7"
    by (simp_all add: db_known_def one_item_db_def dev_names_def)
  have "map_of (collect_items (si_devices moved_info)) ''water'' = Some (''w'', ''e'')" "fst ` set (si_devices moved_info) = {''e''}"
    by (simp_all add: collect_items_def moved_info_def)
  with reconcile_exact [where db = one_item_db and sid = 7 and vo = list_orders and info = moved_info and
      ih = silent_hub and cams_nil = False and h = "()"] one_item_db_ok k list_orders_permute moved_info_names
  show ?thesis by auto
qed

section \<open>An item named like its new device\<close>




end
