(* ===== verification/V1Mirror.thy ===== *)
theory V1Mirror
  imports V1Relay Reconcile
begin

text \<open>
  The full synchronisation of the first relay version is a refinement: seen through \<open>cfg_view\<close>, the
  abstract configuration of an upstream, a run of \<open>fullSyncConfigClient\<close> on what the upstream sends
  replaces the downstream's configuration by the upstream's.
\<close>

section \<open>The abstract configuration\<close>

text \<open>
  The columns the synchronisation carries: of every station row whether it is deleted, its location,
  cameras and status; the stations that belong to the upstream; the device rows; type and device of
  the items.
\<close>

type_synonym station_cols = "bool \<times> json \<times> json \<times> status \<times> unix_ms"

record cfg =
  cv_S :: "uuid \<Rightarrow> station_cols option"
  cv_U :: "uuid \<Rightarrow> bool"
  cv_D :: "uuid \<times> string \<Rightarrow> device_row option"
  cv_I :: "uuid \<times> string \<Rightarrow> (string \<times> string) option"

definition row_cols :: "station_row \<Rightarrow> station_cols" where
  "row_cols r = (st_deleted_at r \<noteq> None, st_location r, st_cameras r, st_status r, st_status_changed_at r)"

definition cfg_view :: "int \<Rightarrow> tide_db \<Rightarrow> cfg" where
  "cfg_view up db =
     \<lparr>cv_S = (\<lambda>sid. map_option row_cols (map_of (stations db) sid)),
      cv_U = upstream_has db up,
      cv_D = map_of (devices db),
      cv_I = (\<lambda>k. map_option (\<lambda>r. (it_type r, it_device_name r)) (map_of (items db) k))\<rparr>"

text \<open>What a run needs of the downstream's tables and keeps; a device without a name would make \<open>DelDevice\<close> delete them all.\<close>

definition syncable :: "int \<Rightarrow> tide_db \<Rightarrow> bool" where
  "syncable up db \<longleftrightarrow> db_ok db \<and> map_of (upstreams db) up \<noteq> None \<and> (\<forall>sid. map_of (devices db) (sid, []) = None)"

lemma syncable_wf:
  "syncable up db \<Longrightarrow> wf_map (stations db) \<and> wf_map (devices db) \<and> wf_map (items db) \<and> wf_map (upstream_stations db)"
  by (simp add: syncable_def db_ok_def tables_wf_def)

lemma map_of_update_key: "map_of (sql_update (\<lambda>k _. k = key) f t) k = (if k = key then map_option f (map_of t k) else map_of t k)"
  by (cases "map_of t k") auto

text \<open>A statement that succeeds, keeps \<open>syncable\<close> and acts on the abstract configuration as \<open>f\<close>.\<close>

definition acts :: "int \<Rightarrow> ('s \<Rightarrow> tide_db) \<Rightarrow> ('s, 'a) eff \<Rightarrow> (cfg \<Rightarrow> cfg) \<Rightarrow> 's \<Rightarrow> bool" where
  "acts up tab m f s \<longleftrightarrow> runs m s (\<lambda>_ s'. syncable up (tab s') \<and> cfg_view up (tab s') = f (cfg_view up (tab s)))"

lemma actsI:
  assumes "isOk (fst (m db))" "preserves db_ok m" "syncable up db" "upstreams (snd (m db)) = upstreams db"
    "cfg_view up (snd (m db)) = f (cfg_view up db)" "\<And>sid. map_of (devices (snd (m db))) (sid, []) = None"
  shows "acts up id m f db"
  using assms preservesD [OF assms(2), of db]
  by (cases "m db") (auto simp: acts_def syncable_def runs_def elim: isOkE)

lemma acts_SyncDevice:
  assumes "syncable up db" "d_Specs d = Some j" "d_Name d \<noteq> []" "map_of (stations db) (d_StationId d) \<noteq> None"
  shows "acts up id (SyncDevice d)
    (\<lambda>v. v\<lparr>cv_D := (cv_D v)((d_StationId d, d_Name d) \<mapsto> \<lparr>dev_specs = j, dev_last_maintenance = d_LastMaintenance d\<rparr>)\<rparr>) db"
proof -
  have nil: "map_of (devices db) (sid, []) = None" for sid using assms(1) by (simp add: syncable_def)
  show ?thesis
  proof (cases "map_of (devices db) (d_StationId d, d_Name d)")
    case None
    then show ?thesis
      using assms nil by (intro actsI db_ok_SyncDevice) (auto simp: SyncDevice_def Let_def cfg_view_def upstream_has_def fun_eq_iff map_of_update_key simp del: map_of_sql_update)
  next
    case (Some r)
    then show ?thesis
      using assms nil by (intro actsI db_ok_SyncDevice) (auto simp: SyncDevice_def Let_def cfg_view_def upstream_has_def fun_eq_iff map_of_update_key simp del: map_of_sql_update)
  qed
qed

definition drop_device :: "uuid \<times> string \<Rightarrow> cfg \<Rightarrow> cfg" where
  "drop_device k v = v\<lparr>cv_D := (cv_D v)(k := None),
     cv_I := (\<lambda>q. case cv_I v q of None \<Rightarrow> None | Some (ty, dev) \<Rightarrow> if (fst q, dev) = k then None else Some (ty, dev))\<rparr>"

lemma acts_DelDevice:
  assumes "syncable up db" "n \<noteq> []"
  shows "acts up id (DelDevice sid n) (drop_device (sid, n)) db"
proof -
  have key: "fst k = sid \<and> (n = [] \<or> snd k = n) \<longleftrightarrow> k = (sid, n)" for k using assms(2) by (cases k) auto
  show ?thesis
    using assms syncable_wf [OF assms(1)]
    by (intro actsI db_ok_DelDevice)
      (auto simp: DelDevice_def Let_def cfg_view_def upstream_has_def fun_eq_iff delete_devices_def map_of_delete_key key
        map_of_sql_delete drop_device_def syncable_def split: option.split)
qed

lemma acts_SyncItem:
  assumes "syncable up db" "map_of (devices db) (i_StationId i, i_DeviceName i) \<noteq> None"
  shows "acts up id (SyncItem i) (\<lambda>v. v\<lparr>cv_I := (cv_I v)((i_StationId i, i_Name i) \<mapsto> (i_Type i, i_DeviceName i))\<rparr>) db"
proof -
  have nil: "map_of (devices db) (sid, []) = None" for sid using assms(1) by (simp add: syncable_def)
  show ?thesis
    using assms nil
    by (intro actsI db_ok_SyncItem)
      (auto simp: SyncItem_def Let_def cfg_view_def upstream_has_def fun_eq_iff new_item_row_def set_item_columns_def
        map_of_update_key simp del: map_of_sql_update split: option.splits prod.splits)
qed

lemma acts_DelItem:
  assumes "syncable up db"
  shows "acts up id (DelItem sid n) (\<lambda>v. v\<lparr>cv_I := (cv_I v)((sid, n) := None)\<rparr>) db"
  using assms
  by (intro actsI db_ok_DelItem) (auto simp: DelItem_def cfg_view_def upstream_has_def fun_eq_iff map_of_delete_key syncable_def)

lemma acts_SyncStation:
  assumes "syncable up db"
  shows "acts up id (SyncStation up s) (\<lambda>v. v\<lparr>cv_S := (cv_S v)(s_Id s \<mapsto>
      (case cv_S v (s_Id s) of
         None \<Rightarrow> row_cols (new_station_row s JNull True)
       | Some (_, _, c, st, t) \<Rightarrow> (False, coalesce_null (s_Location s), c, st, t))),
     cv_U := (cv_U v)(s_Id s := True)\<rparr>) db"
proof -
  let ?db = "snd (upsert_station s db)"
  have up: "isOk (fst (upsert_station s db))" by (simp add: upsert_station_def Let_def split: option.split)
  have frame: "upstreams ?db = upstreams db" "upstream_stations ?db = upstream_stations db" "devices ?db = devices db" "items ?db = items db"
    by (simp_all add: upsert_station_def Let_def split: option.split)
  have rows: "map_option row_cols (map_of (stations ?db) sid) =
      (if sid = s_Id s then Some (case map_option row_cols (map_of (stations db) sid) of
         None \<Rightarrow> row_cols (new_station_row s JNull True)
       | Some (_, _, c, st, t) \<Rightarrow> (False, coalesce_null (s_Location s), c, st, t))
       else map_option row_cols (map_of (stations db) sid))" for sid
    by (auto simp: upsert_station_def Let_def row_cols_def option.map_ident split: option.split)
  then have "map_of (stations ?db) (s_Id s) \<noteq> None" by (metis map_option_is_None option.distinct(1))
  moreover have "map_of (upstreams ?db) up \<noteq> None" using assms frame(1) by (simp add: syncable_def)
  ultimately have run: "SyncStation up s db = (fst (upsert_station s db),
      ?db\<lparr>upstream_stations := sql_insert (up, s_Id s) () (upstream_stations ?db)\<rparr>)"
    using up by (cases "upsert_station s db"; cases "fst (upsert_station s db)")
      (auto simp: SyncStation_def eff_simps insert_upstream_station_def sql_insert_def)
  show ?thesis
  proof (rule actsI)
    show "cfg_view up (snd (SyncStation up s db)) = (\<lambda>v. v\<lparr>cv_S := (cv_S v)(s_Id s \<mapsto>
      (case cv_S v (s_Id s) of
         None \<Rightarrow> row_cols (new_station_row s JNull True)
       | Some (_, _, c, st, t) \<Rightarrow> (False, coalesce_null (s_Location s), c, st, t))),
     cv_U := (cv_U v)(s_Id s := True)\<rparr>) (cfg_view up db)"
      using rows by (auto simp: run cfg_view_def frame upstream_has_def fun_eq_iff)
  qed (use assms up in \<open>auto simp: run frame syncable_def db_ok_SyncStation\<close>)
qed

lemma acts_Cameras:
  assumes "syncable up db"
  shows "acts up id (SyncStationCannotEdit sid (Some c)) (\<lambda>v. v\<lparr>cv_S := (cv_S v)(sid :=
     (case cv_S v sid of None \<Rightarrow> None | Some (d, l, _, st, t) \<Rightarrow> Some (d, l, c, st, t)))\<rparr>) db"
  using assms
  by (intro actsI db_ok_SyncStationCannotEdit)
    (auto simp: SyncStationCannotEdit_def Let_def cfg_view_def upstream_has_def fun_eq_iff row_cols_def syncable_def
      map_option_case split: option.split)

lemma acts_Status:
  assumes "syncable up db"
  shows "acts up id (UpdateStationStatus sid st t) (\<lambda>v. v\<lparr>cv_S := (cv_S v)(sid :=
     (case cv_S v sid of None \<Rightarrow> None | Some (d, l, c, _, _) \<Rightarrow> Some (d, l, c, st, t)))\<rparr>) db"
  using assms
  by (intro actsI db_ok_UpdateStationStatus)
    (auto simp: UpdateStationStatus_def Let_def cfg_view_def upstream_has_def fun_eq_iff row_cols_def syncable_def
      map_option_case split: option.split)

section \<open>Composition\<close>

lemma acts_ret: "syncable up (tab s) \<Longrightarrow> acts up tab (retE a) id s"
  by (simp add: acts_def)

lemma acts_bind:
  assumes "acts up tab m f s"
    and "\<And>a s'. syncable up (tab s') \<Longrightarrow> cfg_view up (tab s') = f (cfg_view up (tab s)) \<Longrightarrow> acts up tab (g a) h s'"
  shows "acts up tab (bindE m g) (h \<circ> f) s"
  using assms(1) unfolding acts_def runs_bind
  by (rule runs_mono) (use assms(2) in \<open>simp add: acts_def\<close>)

lemma acts_seq:
  assumes "acts up tab m f s" and "f (cfg_view up (tab s)) = v"
    and "\<And>a s'. syncable up (tab s') \<Longrightarrow> cfg_view up (tab s') = v \<Longrightarrow> acts up tab (g a) h s'" and "h v = w"
  shows "acts up tab (bindE m g) (\<lambda>_. w) s"
  using acts_bind [OF assms(1), of g h] assms(2-4) by (simp add: acts_def)

lemma acts_start: "m s = m' s \<Longrightarrow> acts up tab m' f s \<Longrightarrow> acts up tab m f s"
  by (simp add: acts_def runs_def)

lemma acts_published:
  assumes "acts up id m f (fst st)"
  shows "acts up fst (bindE (fstE m) (v1_publish k ty b)) f st"
  unfolding acts_def runs_bind
  by (rule runs_fst, rule runs_mono [OF assms [unfolded acts_def]])
    (auto simp: v1_publish_def runs_def notify_def eff_simps)

lemma acts_for:
  assumes "syncable up (tab s)" and "Inv (cfg_view up (tab s))"
    and "\<And>x s'. x \<in> set xs \<Longrightarrow> syncable up (tab s') \<Longrightarrow> Inv (cfg_view up (tab s')) \<Longrightarrow> acts up tab (body x) (f x) s'"
    and "\<And>x v. x \<in> set xs \<Longrightarrow> Inv v \<Longrightarrow> Inv (f x v)"
  shows "acts up tab (forE body xs) (fold f xs) s"
  using assms
proof (induction xs arbitrary: s)
  case Nil
  then show ?case by (simp add: acts_def)
next
  case (Cons x xs)
  have "acts up tab (body x) (f x) s" using Cons.prems by simp
  moreover have "acts up tab (forE body xs) (fold f xs) s'"
    if "syncable up (tab s')" "cfg_view up (tab s') = f x (cfg_view up (tab s))" for s'
    using that Cons.prems by (intro Cons.IH) simp_all
  ultimately show ?case
    using acts_bind [of up tab "body x" "f x" s "\<lambda>_. forE body xs" "fold f xs"] by (simp add: comp_def)
qed

lemma acts_cong: "acts up tab m f s \<Longrightarrow> f (cfg_view up (tab s)) = g (cfg_view up (tab s)) \<Longrightarrow> acts up tab m g s"
  by (simp add: acts_def)

section \<open>One station\<close>

text \<open>What an upstream with the tables \<open>udb\<close> sends of a station.\<close>

definition sent_devices :: "tide_db \<Rightarrow> uuid \<Rightarrow> device list" where
  "sent_devices udb sid = map (\<lambda>(k, r). \<lparr>d_StationId = fst k, d_Name = snd k, d_Specs = Some (dev_specs r),
     d_LastMaintenance = dev_last_maintenance r\<rparr>) (filter (\<lambda>(k, _). fst k = sid) (devices udb))"

definition sent_items :: "tide_db \<Rightarrow> uuid \<Rightarrow> item list" where
  "sent_items udb sid = map item_of_row (filter (\<lambda>(k, _). fst k = sid) (items udb))"

definition sent_full :: "tide_db \<Rightarrow> uuid \<times> station_row \<Rightarrow> station_full_info" where
  "sent_full udb x = \<lparr>sfi_Station = station_of_row x, sfi_Items = sent_items udb (fst x), sfi_Devices = sent_devices udb (fst x)\<rparr>"

lemma Gets:
  "sid \<noteq> uuid_Nil \<Longrightarrow> GetDevices sid db = (Inr (sent_devices db sid), db)"
  "sid \<noteq> uuid_Nil \<Longrightarrow> GetItems sid db = (Inr (sent_items db sid), db)"
  by (simp_all add: GetDevices_def GetItems_def readE_def sent_devices_def sent_items_def)

lemma map_of_station_rows: "map_of (filter (\<lambda>(k, _). fst k = sid) t) k = (if fst k = sid then map_of t k else None)"
  by (induction t) auto

lemma fold_upd: "fold (\<lambda>(k, v) m. m(k \<mapsto> v)) xs m = m ++ map_of (rev xs)"
  by (induction xs arbitrary: m) (auto simp: map_add_def fun_eq_iff split: option.split)

lemma map_of_rev_wf: "wf_map xs \<Longrightarrow> map_of (rev xs) = map_of xs"
  using map_of_visit(2) [of xs "rev xs"] by (simp add: fun_eq_iff)

lemma wf_filter: "wf_map t \<Longrightarrow> wf_map (filter P t)"
  by (simp add: wf_map_def distinct_map_filter)

definition dev_row :: "device \<Rightarrow> device_row" where
  "dev_row d = \<lparr>dev_specs = the (d_Specs d), dev_last_maintenance = d_LastMaintenance d\<rparr>"

lemma dev_row_sent: "dev_row \<lparr>d_StationId = a, d_Name = n, d_Specs = Some (dev_specs r), d_LastMaintenance = dev_last_maintenance r\<rparr> = r"
  by (cases r) (simp add: dev_row_def)

definition dkey :: "device \<Rightarrow> uuid \<times> string" where "dkey d = (d_StationId d, d_Name d)"
definition ikey :: "item \<Rightarrow> uuid \<times> string" where "ikey i = (i_StationId i, i_Name i)"

text \<open>The rows of one station.\<close>

definition of_station :: "uuid \<Rightarrow> (uuid \<times> string \<Rightarrow> 'a option) \<Rightarrow> uuid \<times> string \<Rightarrow> 'a option" where
  "of_station sid m k = (if fst k = sid then m k else None)"

lemma station_rows: "map_of (filter (\<lambda>(k, _). fst k = sid) t) = of_station sid (map_of t)"
  by (simp add: fun_eq_iff of_station_def map_of_station_rows)

lemma fold_devices:
  assumes "wf_map (devices udb)"
  shows "fold (\<lambda>d v. v\<lparr>cv_D := (cv_D v)(dkey d \<mapsto> dev_row d)\<rparr>) (sent_devices udb sid) v =
     v\<lparr>cv_D := cv_D v ++ of_station sid (map_of (devices udb))\<rparr>"
proof -
  have "fold (\<lambda>d v. v\<lparr>cv_D := (cv_D v)(dkey d \<mapsto> dev_row d)\<rparr>) (map (\<lambda>(k, r). \<lparr>d_StationId = fst k, d_Name = snd k, d_Specs = Some (dev_specs r),
     d_LastMaintenance = dev_last_maintenance r\<rparr>) rows) v = v\<lparr>cv_D := fold (\<lambda>(k, r) m. m(k \<mapsto> r)) rows (cv_D v)\<rparr>" for rows
    by (induction rows arbitrary: v) (auto simp: dkey_def dev_row_sent)
  with assms show ?thesis
    by (simp add: sent_devices_def fold_upd map_of_rev_wf wf_filter station_rows)
qed

lemma fold_items:
  assumes "wf_map (items udb)"
  shows "fold (\<lambda>i v. v\<lparr>cv_I := (cv_I v)(ikey i \<mapsto> (i_Type i, i_DeviceName i))\<rparr>) (sent_items udb sid) v =
     v\<lparr>cv_I := cv_I v ++ of_station sid (cv_I (cfg_view up udb))\<rparr>"
proof -
  let ?cols = "\<lambda>r. (it_type r, it_device_name r)"
  have "fold (\<lambda>i v. v\<lparr>cv_I := (cv_I v)(ikey i \<mapsto> (i_Type i, i_DeviceName i))\<rparr>) (map item_of_row rows) v =
      v\<lparr>cv_I := fold (\<lambda>(k, r) m. m(k \<mapsto> r)) (map (\<lambda>(k, r). (k, ?cols r)) rows) (cv_I v)\<rparr>" for rows
    by (induction rows arbitrary: v) (auto simp: ikey_def item_of_row_def)
  moreover have "map_of (rev (map (\<lambda>(k, r). (k, ?cols r)) rows)) k = map_option ?cols (map_of rows k)" if "wf_map rows"
    for rows :: "((uuid \<times> string) \<times> item_row) list" and k
    using map_of_rev_wf [OF that] by (simp add: rev_map map_of_map)
  then have "map_of (rev (map (\<lambda>(k, r). (k, ?cols r)) (filter (\<lambda>(k, _). fst k = sid) (items udb)))) = of_station sid (cv_I (cfg_view up udb))"
    using assms by (simp add: fun_eq_iff wf_filter map_of_station_rows of_station_def cfg_view_def)
  ultimately show ?thesis by (simp add: sent_items_def fold_upd)
qed

definition drop_devs :: "(uuid \<times> string) set \<Rightarrow> cfg \<Rightarrow> cfg" where
  "drop_devs gone v = v\<lparr>cv_D := (\<lambda>k. if k \<in> gone then None else cv_D v k),
     cv_I := (\<lambda>q. case cv_I v q of None \<Rightarrow> None | Some (ty, dev) \<Rightarrow> if (fst q, dev) \<in> gone then None else Some (ty, dev))\<rparr>"

lemma drop_devs_simps: "drop_devs {} v = v" "drop_devs gone (drop_device k v) = drop_devs (insert k gone) v"
  by (auto simp: drop_devs_def drop_device_def fun_eq_iff split: option.split intro!: cfg.equality)

lemma fold_drop_devs:
  "fold (\<lambda>d v. if dkey d \<in> new then v else drop_device (dkey d) v) ds v = drop_devs (dkey ` set ds - new) v"
proof (induction ds arbitrary: v)
  case Nil
  then show ?case by (simp add: drop_devs_simps)
next
  case (Cons d ds)
  have "dkey ` set (d # ds) - new = (if dkey d \<in> new then dkey ` set ds - new else insert (dkey d) (dkey ` set ds - new))" by auto
  with Cons show ?case by (simp add: drop_devs_simps)
qed

lemma fold_drop_items:
  "fold (\<lambda>i v. if ikey i \<in> new then v else v\<lparr>cv_I := (cv_I v)(ikey i := None)\<rparr>) is v =
     v\<lparr>cv_I := (\<lambda>k. if k \<in> ikey ` set is - new then None else cv_I v k)\<rparr>"
  by (induction "is" arbitrary: v) (auto simp: fun_eq_iff intro!: cfg.equality)

lemma sent_keys:
  "dkey ` set (sent_devices db sid) = {k \<in> dom (map_of (devices db)). fst k = sid}"
  "ikey ` set (sent_items db sid) = {k \<in> dom (map_of (items db)). fst k = sid}"
  by (force simp: sent_devices_def sent_items_def dkey_def ikey_def item_of_row_def dom_map_of_conv_image_fst)+

text \<open>The documented form of a UUID: \<open>Parse\<close> inverts \<open>String\<close>, and all texts have one length (36).\<close>

definition uuid_text :: "uuid_codec \<Rightarrow> bool" where
  "uuid_text c \<longleftrightarrow> uuid_roundtrip c \<and> (\<exists>l. \<forall>u. length (uu_String c u) = l)"

lemma device_key_eq: "uuid_text c \<Longrightarrow> device_key c a n = device_key c b m \<longleftrightarrow> a = b \<and> n = m"
  unfolding uuid_text_def device_key_def using uuid_roundtripD(3) by (metis append_eq_append_conv)

definition sendable :: "tide_db \<Rightarrow> bool" where
  "sendable udb \<longleftrightarrow> db_ok udb \<and> map_of (stations udb) uuid_Nil = None \<and> (\<forall>sid. map_of (devices udb) (sid, []) = None)"

lemma sendable_wf: "sendable udb \<Longrightarrow> wf_map (stations udb) \<and> wf_map (devices udb) \<and> wf_map (items udb) \<and> wf_map (device_record udb)"
  by (simp add: sendable_def db_ok_def tables_wf_def)

lemma view_known: "cv_S (cfg_view up db) sid \<noteq> None \<longleftrightarrow> map_of (stations db) sid \<noteq> None"
  by (simp add: cfg_view_def)

lemma acts_devices:
  assumes "sendable udb" "syncable up (fst st)" "cv_S (cfg_view up (fst st)) sid \<noteq> None"
  shows "acts up fst (forE v1_device_step (sent_devices udb sid)) (\<lambda>v. v\<lparr>cv_D := cv_D v ++ of_station sid (map_of (devices udb))\<rparr>) st"
proof -
  have dev: "d_StationId d = sid \<and> d_Name d \<noteq> [] \<and> d_Specs d = Some (dev_specs (dev_row d))" if "d \<in> set (sent_devices udb sid)" for d
  proof -
    from that obtain k r where "(k, r) \<in> set (devices udb)" "fst k = sid" "d_Name d = snd k"
        "d_StationId d = fst k" "d_Specs d = Some (dev_specs r)"
      by (auto simp: sent_devices_def)
    moreover from this sendable_wf [OF assms(1)] have "map_of (devices udb) k = Some r" by (simp add: wf_map_map_of_iff)
    ultimately show ?thesis using assms(1) by (cases k) (auto simp: sendable_def dev_row_def)
  qed
  have "acts up fst (forE v1_device_step (sent_devices udb sid))
      (fold (\<lambda>d v. v\<lparr>cv_D := (cv_D v)(dkey d \<mapsto> dev_row d)\<rparr>) (sent_devices udb sid)) st"
  proof (rule acts_for [where Inv = "\<lambda>v. cv_S v sid \<noteq> None"])
    fix d and s' :: hub_state
    assume "d \<in> set (sent_devices udb sid)" "syncable up (fst s')" and S: "cv_S (cfg_view up (fst s')) sid \<noteq> None"
    with dev [of d] acts_SyncDevice [of up "fst s'" d "dev_specs (dev_row d)"]
    show "acts up fst (v1_device_step d) (\<lambda>v. v\<lparr>cv_D := (cv_D v)(dkey d \<mapsto> dev_row d)\<rparr>) s'"
      unfolding v1_device_step_def by (intro acts_published) (use S [unfolded view_known] in \<open>simp add: dkey_def dev_row_def\<close>)
  qed (use assms in auto)
  then show ?thesis by (rule acts_cong) (simp add: fold_devices sendable_wf assms(1))
qed

lemma acts_del_devices:
  assumes "uuid_text c" "syncable up (fst st)" "\<forall>d \<in> set ds. d_Name d \<noteq> []"
  shows "acts up fst (forE (v1_del_device_step c new) ds) (drop_devs (dkey ` set ds - dkey ` set new)) st"
proof -
  have "acts up fst (forE (v1_del_device_step c new) ds)
      (fold (\<lambda>d v. if dkey d \<in> dkey ` set new then v else drop_device (dkey d) v) ds) st"
  proof (rule acts_for [where Inv = "\<lambda>_. True"])
    fix d and s' :: hub_state
    assume d: "d \<in> set ds" and s': "syncable up (fst s')"
    have "device_key c (d_StationId d) (d_Name d) \<in> set (map (\<lambda>n. device_key c (d_StationId n) (d_Name n)) new) \<longleftrightarrow> dkey d \<in> dkey ` set new"
      using device_key_eq [OF assms(1)] by (auto simp: dkey_def image_iff)
    with d s' assms(3) acts_ret [where tab = fst, OF s'] show "acts up fst (v1_del_device_step c new d)
        (\<lambda>v. if dkey d \<in> dkey ` set new then v else drop_device (dkey d) v) s'"
      unfolding v1_del_device_step_def by (auto simp: id_def dkey_def intro!: acts_published acts_DelDevice)
  qed (use assms in auto)
  then show ?thesis by (rule acts_cong) (simp add: fold_drop_devs)
qed

lemma acts_items:
  assumes "sendable udb" "syncable up (fst st)"
    "\<forall>k. fst k = sid \<longrightarrow> cv_D (cfg_view up (fst st)) k = map_of (devices udb) k"
  shows "acts up fst (forE v1_item_step (sent_items udb sid)) (\<lambda>v. v\<lparr>cv_I := cv_I v ++ of_station sid (cv_I (cfg_view up udb))\<rparr>) st"
proof -
  have item: "i_StationId i = sid \<and> map_of (devices udb) (sid, i_DeviceName i) \<noteq> None" if "i \<in> set (sent_items udb sid)" for i
  proof -
    from that obtain n r where "((sid, n), r) \<in> set (items udb)" "i = item_of_row ((sid, n), r)"
      by (auto simp: sent_items_def)
    moreover from this sendable_wf [OF assms(1)] have "map_of (items udb) (sid, n) = Some r" by (simp add: wf_map_map_of_iff)
    ultimately show ?thesis using assms(1) by (auto simp: sendable_def db_ok_def refs_ok_def item_of_row_def)
  qed
  have "acts up fst (forE v1_item_step (sent_items udb sid))
      (fold (\<lambda>i v. v\<lparr>cv_I := (cv_I v)(ikey i \<mapsto> (i_Type i, i_DeviceName i))\<rparr>) (sent_items udb sid)) st"
  proof (rule acts_for [where Inv = "\<lambda>v. \<forall>k. fst k = sid \<longrightarrow> cv_D v k = map_of (devices udb) k"])
    fix i and s' :: hub_state
    assume i: "i \<in> set (sent_items udb sid)" "syncable up (fst s')"
      "\<forall>k. fst k = sid \<longrightarrow> cv_D (cfg_view up (fst s')) k = map_of (devices udb) k"
    with item [of i] have "map_of (devices (fst s')) (i_StationId i, i_DeviceName i) \<noteq> None" by (simp add: cfg_view_def)
    with i show "acts up fst (v1_item_step i) (\<lambda>v. v\<lparr>cv_I := (cv_I v)(ikey i \<mapsto> (i_Type i, i_DeviceName i))\<rparr>) s'"
      unfolding v1_item_step_def ikey_def by (intro acts_published acts_SyncItem)
  qed (use assms in auto)
  then show ?thesis by (rule acts_cong) (simp add: fold_items [of udb _ _ up] sendable_wf assms(1))
qed

lemma acts_del_items:
  assumes "syncable up (fst st)"
  shows "acts up fst (forE (v1_del_item_step new) ds)
    (\<lambda>v. v\<lparr>cv_I := (\<lambda>k. if k \<in> ikey ` set ds - ikey ` set new then None else cv_I v k)\<rparr>) st"
proof -
  have "acts up fst (forE (v1_del_item_step new) ds)
      (fold (\<lambda>i v. if ikey i \<in> ikey ` set new then v else v\<lparr>cv_I := (cv_I v)(ikey i := None)\<rparr>) ds) st"
  proof (rule acts_for [where Inv = "\<lambda>_. True"])
    fix i and s' :: hub_state
    assume s': "syncable up (fst s')"
    then show "acts up fst (v1_del_item_step new i)
        (\<lambda>v. if ikey i \<in> ikey ` set new then v else v\<lparr>cv_I := (cv_I v)(ikey i := None)\<rparr>) s'"
      using acts_ret [where tab = fst, OF s'] unfolding v1_del_item_step_def ikey_def
      by (auto simp: id_def intro!: acts_published acts_DelItem)
  qed (use assms in auto)
  then show ?thesis by (rule acts_cong) (simp add: fold_drop_items)
qed

definition copy_station :: "cfg \<Rightarrow> uuid \<Rightarrow> cfg \<Rightarrow> cfg" where
  "copy_station u sid v = v\<lparr>cv_S := (cv_S v)(sid := cv_S u sid), cv_U := (cv_U v)(sid := True),
     cv_D := (\<lambda>k. if fst k = sid then cv_D u k else cv_D v k), cv_I := (\<lambda>k. if fst k = sid then cv_I u k else cv_I v k)\<rparr>"

lemma acts_station_row:
  assumes "syncable up (fst st)" "s = station_of_row (sid, r)" "st_deleted_at r = None"
  shows "acts up fst
    (bindE (bindE (fstE (SyncStation up s)) (v1_publish BrokerConfig kMsgSyncStation (BStation s))) (\<lambda>_.
     bindE (bindE (fstE (SyncStationCannotEdit sid (s_Cameras s))) (v1_publish BrokerConfig kMsgSyncStationCannotEdit (BStation s))) (\<lambda>_.
       bindE (fstE (UpdateStationStatus sid (s_Status s) (s_StatusChangedAt s))) (v1_publish BrokerConfig kMsgUpdateStationStatus b))))
    (\<lambda>v. v\<lparr>cv_S := (cv_S v)(sid \<mapsto> row_cols r), cv_U := (cv_U v)(sid := True)\<rparr>) st"
proof -
  have s: "s_Id s = sid" "s_Cameras s = Some (st_cameras r)" "s_Location s = Some (st_location r)" "s_Status s = st_status r"
      "s_StatusChangedAt s = st_status_changed_at r"
    using assms(2) by (simp_all add: station_of_row_def)
  show ?thesis
    unfolding s(2)
    by (rule acts_cong, rule acts_bind, rule acts_published, rule acts_SyncStation, rule assms(1), rule acts_bind,
        rule acts_published, rule acts_Cameras, assumption, rule acts_published, rule acts_Status, assumption)
      (auto simp: s row_cols_def assms(3) new_station_row_def coalesce_null_def fun_eq_iff split: option.split intro!: cfg.equality)
qed

lemma copy_by_steps:
  fixes up :: int and db udb :: tide_db and sid :: uuid and r :: station_row
  defines "v \<equiv> cfg_view up db" and "gone \<equiv> dkey ` set (sent_devices db sid) - dkey ` set (sent_devices udb sid)"
  assumes "map_of (stations udb) sid = Some r"
  shows "cv_D (drop_devs gone (v\<lparr>cv_S := (cv_S v)(sid \<mapsto> row_cols r), cv_U := (cv_U v)(sid := True)\<rparr>
        \<lparr>cv_D := cv_D (v\<lparr>cv_S := (cv_S v)(sid \<mapsto> row_cols r), cv_U := (cv_U v)(sid := True)\<rparr>) ++ of_station sid (map_of (devices udb))\<rparr>)) k =
      (if fst k = sid then map_of (devices udb) k else cv_D v k)"
    and "(let v3 = drop_devs gone (v\<lparr>cv_S := (cv_S v)(sid \<mapsto> row_cols r), cv_U := (cv_U v)(sid := True)\<rparr>
        \<lparr>cv_D := cv_D (v\<lparr>cv_S := (cv_S v)(sid \<mapsto> row_cols r), cv_U := (cv_U v)(sid := True)\<rparr>) ++ of_station sid (map_of (devices udb))\<rparr>) in
      v3\<lparr>cv_I := \<lambda>k. if k \<in> ikey ` set (sent_items db sid) - ikey ` set (sent_items udb sid) then None
        else (cv_I v3 ++ of_station sid (cv_I (cfg_view up udb))) k\<rparr>) = copy_station (cfg_view up udb) sid v"
proof -
  let ?v3 = "drop_devs gone (v\<lparr>cv_S := (cv_S v)(sid \<mapsto> row_cols r), cv_U := (cv_U v)(sid := True)\<rparr>
        \<lparr>cv_D := cv_D (v\<lparr>cv_S := (cv_S v)(sid \<mapsto> row_cols r), cv_U := (cv_U v)(sid := True)\<rparr>) ++ of_station sid (map_of (devices udb))\<rparr>)"
  show D3: "cv_D ?v3 k = (if fst k = sid then map_of (devices udb) k else cv_D v k)" for k
    by (cases "map_of (devices udb) k")
      (auto simp: drop_devs_def of_station_def map_add_def sent_keys v_def gone_def cfg_view_def domIff split: option.split)
  show "(let v3 = ?v3 in v3\<lparr>cv_I := \<lambda>k. if k \<in> ikey ` set (sent_items db sid) - ikey ` set (sent_items udb sid) then None
        else (cv_I v3 ++ of_station sid (cv_I (cfg_view up udb))) k\<rparr>) = copy_station (cfg_view up udb) sid v"
    using assms(3) D3
    by (auto simp: Let_def copy_station_def fun_eq_iff drop_devs_def of_station_def map_add_def sent_keys v_def gone_def cfg_view_def
        domIff split: option.split intro!: cfg.equality)
qed

lemma acts_station:
  assumes "uuid_text c" "sendable udb" "map_of (stations udb) sid = Some r" "st_deleted_at r = None" "syncable up (fst st)"
  shows "acts up fst (v1_station_step c up (sent_full udb (sid, r))) (copy_station (cfg_view up udb) sid) st"
proof -
  let ?old = "sent_devices (fst st) sid" and ?oldI = "sent_items (fst st) sid" and ?v = "cfg_view up (fst st)"
  define s where "s = station_of_row (sid, r)"
  define b where "b = BStationStatus \<lparr>ss_station_id = sid, ss_identifier = s_Identifier s, ss_status = s_Status s, ss_changed_at = s_StatusChangedAt s\<rparr>"
  define v1 where "v1 = ?v\<lparr>cv_S := (cv_S ?v)(sid \<mapsto> row_cols r), cv_U := (cv_U ?v)(sid := True)\<rparr>"
  define v2 where "v2 = v1\<lparr>cv_D := cv_D v1 ++ of_station sid (map_of (devices udb))\<rparr>"
  define v3 where "v3 = drop_devs (dkey ` set ?old - dkey ` set (sent_devices udb sid)) v2"
  have nil: "sid \<noteq> uuid_Nil" using assms(2,3) by (auto simp: sendable_def)
  have sid: "s_Id (station_of_row (sid, r)) = sid" by (simp add: station_of_row_def)
  have step: "v1_station_step c up (sent_full udb (sid, r)) st =
     bindE (bindE (bindE (fstE (SyncStation up s)) (v1_publish BrokerConfig kMsgSyncStation (BStation s))) (\<lambda>_.
       bindE (bindE (fstE (SyncStationCannotEdit sid (s_Cameras s))) (v1_publish BrokerConfig kMsgSyncStationCannotEdit (BStation s))) (\<lambda>_.
         bindE (fstE (UpdateStationStatus sid (s_Status s) (s_StatusChangedAt s))) (v1_publish BrokerConfig kMsgUpdateStationStatus b)))) (\<lambda>_.
     bindE (forE v1_device_step (sent_devices udb sid)) (\<lambda>_.
     bindE (forE (v1_del_device_step c (sent_devices udb sid)) ?old) (\<lambda>_.
     bindE (forE v1_item_step (sent_items udb sid)) (\<lambda>_. forE (v1_del_item_step (sent_items udb sid)) ?oldI)))) st"
    using Gets [OF nil, of "fst st"]
    by (simp add: v1_station_step_def sent_full_def sid Let_def s_def b_def bindE_assoc bindE_def [of "fstE (GetDevices _)"]
        bindE_def [of "fstE (GetItems _)"] fstE_def)
  have names: "\<forall>d \<in> set ?old. d_Name d \<noteq> []"
    using assms(5) by (fastforce simp: sent_devices_def syncable_def map_of_eq_None_iff image_iff)
  note copied = copy_by_steps [OF assms(3), where up = up and db = "fst st", folded v1_def, folded v2_def, folded v3_def]
  have items: "acts up fst (bindE (forE v1_item_step (sent_items udb sid)) (\<lambda>_. forE (v1_del_item_step (sent_items udb sid)) ?oldI))
      (\<lambda>_. copy_station (cfg_view up udb) sid ?v) s'" if "syncable up (fst s')" "cfg_view up (fst s') = v3" for s'
    by (rule acts_seq, rule acts_items [OF assms(2)], rule that, simp add: that copied(1), rule refl, rule acts_del_items, assumption)
      (use copied(2) in \<open>simp add: that cong: if_cong\<close>)
  have devs: "acts up fst (bindE (forE (v1_del_device_step c (sent_devices udb sid)) ?old) (\<lambda>_.
       bindE (forE v1_item_step (sent_items udb sid)) (\<lambda>_. forE (v1_del_item_step (sent_items udb sid)) ?oldI)))
      (\<lambda>_. copy_station (cfg_view up udb) sid ?v) s'" if "syncable up (fst s')" "cfg_view up (fst s') = v2" for s'
    by (rule acts_seq [OF acts_del_devices [OF assms(1) that(1) names] _ items]) (simp_all add: that v3_def)
  have all: "acts up fst (bindE (forE v1_device_step (sent_devices udb sid)) (\<lambda>_.
       bindE (forE (v1_del_device_step c (sent_devices udb sid)) ?old) (\<lambda>_.
       bindE (forE v1_item_step (sent_items udb sid)) (\<lambda>_. forE (v1_del_item_step (sent_items udb sid)) ?oldI))))
      (\<lambda>_. copy_station (cfg_view up udb) sid ?v) s'" if "syncable up (fst s')" "cfg_view up (fst s') = v1" for s'
    by (rule acts_seq [OF acts_devices [OF assms(2) that(1), of sid] _ devs]) (simp_all add: that v2_def, simp add: v1_def row_cols_def)
  have "acts up fst (v1_station_step c up (sent_full udb (sid, r))) (\<lambda>_. copy_station (cfg_view up udb) sid ?v) st"
    by (rule acts_start, rule step, rule acts_seq [OF acts_station_row [OF assms(5) s_def assms(4)] _ all])
      (simp_all add: v1_def)
  then show ?thesis by (rule acts_cong) simp
qed

section \<open>All stations\<close>

definition live_rows :: "tide_db \<Rightarrow> (uuid \<times> station_row) list" where
  "live_rows udb = filter (\<lambda>(_, r). st_deleted_at r = None) (stations udb)"

definition live :: "tide_db \<Rightarrow> uuid set" where
  "live udb = fst ` set (live_rows udb)"

lemma full_info_sent:
  assumes "\<forall>x \<in> set rows. fst x \<noteq> uuid_Nil"
  shows "full_info_loop (map station_of_row rows) udb = (Inr (map (sent_full udb) rows), udb)"
  using assms
proof (induction rows)
  case (Cons x rows)
  then show ?case by (cases x) (simp add: Gets bindE_def retE_def station_of_row_def sent_full_def)
qed (simp add: retE_def)

lemma GetStationsFullInfo_sent:
  assumes "sendable udb"
  shows "GetStationsFullInfo udb = (Inr (map (sent_full udb) (live_rows udb)), udb)"
proof -
  have "\<forall>x \<in> set (live_rows udb). fst x \<noteq> uuid_Nil"
    using assms by (force simp: sendable_def live_rows_def map_of_eq_None_iff)
  from full_info_sent [OF this, of udb] show ?thesis
    by (simp add: GetStationsFullInfo_def GetStations_def bindE_def readE_def live_rows_def)
qed

lemma live_iff: "sendable udb \<Longrightarrow> sid \<in> live udb \<longleftrightarrow> (\<exists>r. map_of (stations udb) sid = Some r \<and> st_deleted_at r = None)"
  using sendable_wf [of udb] by (force simp: live_def live_rows_def wf_map_map_of_iff image_iff)

definition copy_all :: "cfg \<Rightarrow> uuid set \<Rightarrow> cfg \<Rightarrow> cfg" where
  "copy_all u X v = \<lparr>cv_S = (\<lambda>s. if s \<in> X then cv_S u s else cv_S v s), cv_U = (\<lambda>s. s \<in> X \<or> cv_U v s),
     cv_D = (\<lambda>k. if fst k \<in> X then cv_D u k else cv_D v k), cv_I = (\<lambda>k. if fst k \<in> X then cv_I u k else cv_I v k)\<rparr>"

lemma fold_copy: "fold (copy_station u) ids v = copy_all u (set ids) v"
proof (induction ids arbitrary: v)
  case Nil
  then show ?case by (simp add: copy_all_def)
next
  case (Cons sid ids)
  then show ?case by (auto simp: copy_all_def copy_station_def fun_eq_iff)
qed

lemma acts_stations:
  assumes "uuid_text c" "sendable udb" "syncable up (fst st)"
  shows "acts up fst (forE (v1_station_step c up) (map (sent_full udb) (live_rows udb))) (copy_all (cfg_view up udb) (live udb)) st"
proof -
  have "acts up fst (forE (v1_station_step c up) (map (sent_full udb) (live_rows udb)))
      (fold (\<lambda>x. copy_station (cfg_view up udb) (s_Id (sfi_Station x))) (map (sent_full udb) (live_rows udb))) st"
  proof (rule acts_for [where Inv = "\<lambda>_. True"])
    fix x and s' :: hub_state
    assume "x \<in> set (map (sent_full udb) (live_rows udb))" and s': "syncable up (fst s')"
    then obtain sid r where x: "x = sent_full udb (sid, r)" "(sid, r) \<in> set (stations udb)" "st_deleted_at r = None"
      by (auto simp: live_rows_def)
    then have "map_of (stations udb) sid = Some r" using sendable_wf [OF assms(2)] by (simp add: wf_map_map_of_iff)
    from acts_station [OF assms(1,2) this x(3) s'] x(1)
    show "acts up fst (v1_station_step c up x) (copy_station (cfg_view up udb) (s_Id (sfi_Station x))) s'"
      by (simp add: sent_full_def station_of_row_def)
  qed (use assms in auto)
  moreover have "fold (\<lambda>x. copy_station u (s_Id (sfi_Station x))) (map (sent_full udb) rows) v = copy_all u (fst ` set rows) v" for u rows v
    using fold_copy [of u "map fst rows" v] by (simp add: fold_map comp_def sent_full_def station_of_row_def case_prod_unfold)
  ultimately show ?thesis by (simp add: live_def acts_def)
qed

definition same_station :: "cfg \<Rightarrow> cfg \<Rightarrow> uuid \<Rightarrow> bool" where
  "same_station v v' sid \<longleftrightarrow> cv_S v' sid = cv_S v sid \<and>
     (\<forall>n. cv_D v' (sid, n) = cv_D v (sid, n) \<and> cv_I v' (sid, n) = cv_I v (sid, n))"

lemma DelUpstreamStation_runs:
  assumes "syncable up db"
  shows "runs (DelUpstreamStation up sid) db (\<lambda>_ db'. syncable up db' \<and> cv_U (cfg_view up db') = (cv_U (cfg_view up db))(sid := False) \<and>
     (\<forall>s. s \<noteq> sid \<longrightarrow> same_station (cfg_view up db) (cfg_view up db') s))"
proof -
  let ?db = "snd (DelUpstreamStation up sid db)"
  have ok: "db_ok ?db" using preservesD [OF db_ok_DelUpstreamStation, of db] assms by (simp add: syncable_def)
  have "syncable up ?db"
    using ok assms by (simp add: syncable_def DelUpstreamStation_def Let_def delete_stations_def delete_devices_def map_of_delete_key)
  moreover have "cv_U (cfg_view up ?db) = (cv_U (cfg_view up db))(sid := False)"
    by (auto simp: cfg_view_def upstream_has_def DelUpstreamStation_def Let_def delete_stations_def delete_devices_def map_of_delete_key
        station_in_upstreams_def fun_eq_iff)
  moreover have "same_station (cfg_view up db) (cfg_view up ?db) s" if "s \<noteq> sid" for s
    using that syncable_wf [OF assms]
    by (auto simp: same_station_def cfg_view_def DelUpstreamStation_def Let_def delete_stations_def delete_devices_def map_of_delete_key
        map_of_sql_delete split: option.split)
  ultimately show ?thesis by (auto simp: runs_def DelUpstreamStation_def Let_def)
qed

lemma same_station_trans: "same_station a b s \<Longrightarrow> same_station b c s \<Longrightarrow> same_station a c s"
  by (simp add: same_station_def)

lemma del_stations_run:
  assumes "syncable up (fst st)" and N: "set (map (s_Id \<circ> sfi_Station) newSs) = N"
  shows "runs (forE (v1_del_station_step up newSs) ss) st (\<lambda>_ s'. syncable up (fst s') \<and>
     (\<forall>sid. cv_U (cfg_view up (fst s')) sid \<longleftrightarrow> cv_U (cfg_view up (fst st)) sid \<and> sid \<notin> s_Id ` set ss - N) \<and>
     (\<forall>sid \<in> N. same_station (cfg_view up (fst st)) (cfg_view up (fst s')) sid))"
proof -
  define I where "I ss db \<longleftrightarrow> syncable up db \<and>
     (\<forall>sid. cv_U (cfg_view up db) sid \<longleftrightarrow> cv_U (cfg_view up (fst st)) sid \<and> sid \<notin> s_Id ` set ss - N) \<and>
     (\<forall>sid \<in> N. same_station (cfg_view up (fst st)) (cfg_view up db) sid)" for ss :: "station list" and db
  have "runs (v1_del_station_step up newSs x) s' (\<lambda>_ s''. I (xs @ [x]) (fst s''))" if "I xs (fst s')" for xs x and s' :: hub_state
  proof (cases "s_Id x \<in> N")
    case True
    with that show ?thesis unfolding v1_del_station_step_def N by (auto simp: I_def)
  next
    case False
    have "runs (DelUpstreamStation up (s_Id x)) (fst s') (\<lambda>_ db'. I (xs @ [x]) db')"
      using that False unfolding I_def
      by (intro runs_mono [OF DelUpstreamStation_runs]) (auto, metis same_station_trans)
    then show ?thesis
      unfolding v1_del_station_step_def N runs_bind if_not_P [OF False]
      by (intro runs_fst) (auto elim!: runs_mono simp: v1_publish_def runs_def notify_def eff_simps)
  qed
  from runs_for [where I = "\<lambda>ss s'. I ss (fst s')", of st ss "v1_del_station_step up newSs"] this assms(1)
  show ?thesis by (simp add: I_def same_station_def)
qed

section \<open>Records and log entries\<close>

lemma acts_record:
  assumes "syncable up (fst st)" "cv_S (cfg_view up (fst st)) (r_StationId dr) \<noteq> None"
  shows "acts up fst (v1_record_step dr) id st"
proof -
  have "acts up id (SyncDeviceRecord dr) id (fst st)"
    using assms(1) assms(2) [unfolded view_known]
    by (intro actsI db_ok_SyncDeviceRecord)
      (auto simp: SyncDeviceRecord_def cfg_view_def upstream_has_def [abs_def] syncable_def split: option.split)
  then show ?thesis unfolding v1_record_step_def by (rule acts_published)
qed

lemma latest_row_ids_reads: "\<exists>m'. latest_row_ids ss m db = (Inr m', db)"
  by (induction ss arbitrary: m) (auto simp: eff_simps GetLatestStatusLogRowId_def Let_def)

lemma fold_newest_view:
  assumes "syncable up db"
  shows "syncable up (fold (newest_update sid) ls db) \<and> cfg_view up (fold (newest_update sid) ls db) = cfg_view up db"
  using assms
proof (induction ls arbitrary: db)
  case (Cons l ls)
  have "acts up id (UpdateItemStatus sid (rs_item_name l) (rs_status l) (rs_changed_at l)) id db"
    using Cons.prems
    by (intro actsI db_ok_UpdateItemStatus)
      (auto simp: UpdateItemStatus_def Let_def cfg_view_def upstream_has_def [abs_def] syncable_def fun_eq_iff map_option_case split: option.split)
  then have "syncable up (newest_update sid l db) \<and> cfg_view up (newest_update sid l db) = cfg_view up db"
    by (auto simp: acts_def runs_def newest_update_def)
  with Cons.IH show ?case by simp
qed simp

lemma acts_miss_logs:
  assumes "syncable up (fst st)" "cv_S (cfg_view up (fst st)) (fst x) \<noteq> None"
  shows "acts up fst (v1_miss_logs_step visit x) id st"
proof -
  let ?ls = "map (\<lambda>(_, i). snd x ! i) (visit (latestLogIndexByItem (snd x)))"
  have step: "acts up fst (miss_log_step (fst x) l) id s'" if "syncable up (fst s')" "cv_S (cfg_view up (fst s')) (fst x) \<noteq> None"
    for l and s' :: hub_state
  proof -
    have "acts up id (SaveItemStatusLog (fst x) (rs_row_id l) (rs_item_name l) (rs_status l) (rs_changed_at l)) id (fst s')"
      using that(1) that(2) [unfolded view_known]
      by (intro actsI db_ok_SaveItemStatusLog)
        (auto simp: SaveItemStatusLog_def cfg_view_def upstream_has_def [abs_def] syncable_def)
    from acts_published [OF this, of BrokerConfig kMsgMissItemStatus "BFullItemStatus (full_status (fst x) [] l)"]
    show ?thesis by (simp add: miss_log_step_def v1_publish_def [abs_def])
  qed
  have keep: "fold (\<lambda>_. id) xs = (id :: cfg \<Rightarrow> cfg)" for xs :: "row_item_status list" by (induction xs) simp_all
  have logs: "acts up fst (forE (miss_log_step (fst x)) (snd x)) (fold (\<lambda>_. id) (snd x)) s'"
    if "syncable up (fst s')" "cv_S (cfg_view up (fst s')) (fst x) \<noteq> None" for s' :: hub_state
    by (rule acts_for [where Inv = "\<lambda>v. cv_S v (fst x) \<noteq> None"]) (use step that in auto)
  have "forE (\<lambda>(_, i). miss_update_step (fst x) (snd x ! i)) (visit (latestLogIndexByItem (snd x))) st =
      (Inr (), (fold (newest_update (fst x)) ?ls (fst st), snd st))"
    using miss_updates [of "fst x" ?ls "fst st" "snd st"] by (simp add: forE_map case_prod_unfold)
  then have upd: "acts up fst (forE (\<lambda>(_, i). miss_update_step (fst x) (snd x ! i)) (visit (latestLogIndexByItem (snd x)))) id st"
    using fold_newest_view [OF assms(1), of "fst x" ?ls] by (simp add: acts_def runs_def)
  have "acts up fst (v1_miss_logs_step visit x) (fold (\<lambda>_. id) (snd x) \<circ> id) st"
    unfolding v1_miss_logs_step_def ReadMissStatusLogs_def bindE_lift
    by (rule acts_bind [OF upd], rule logs) (use assms(2) in simp_all)
  then show ?thesis by (simp add: keep)
qed

section \<open>The refinement\<close>

text \<open>The configuration of an upstream, as the downstream has it, and of a server's own live stations.\<close>

type_synonym site_config = "station_cols option \<times> (string \<Rightarrow> device_row option) \<times> (string \<Rightarrow> (string \<times> string) option)"

definition site :: "cfg \<Rightarrow> uuid \<Rightarrow> site_config" where
  "site v sid = (cv_S v sid, (\<lambda>n. cv_D v (sid, n)), (\<lambda>n. cv_I v (sid, n)))"

definition upstream_config :: "int \<Rightarrow> tide_db \<Rightarrow> uuid \<Rightarrow> site_config option" where
  "upstream_config up db sid = (if upstream_has db up sid then Some (site (cfg_view up db) sid) else None)"

definition own_config :: "int \<Rightarrow> tide_db \<Rightarrow> uuid \<Rightarrow> site_config option" where
  "own_config up db sid = (if sid \<in> live db then Some (site (cfg_view up db) sid) else None)"

text \<open>What the downstream has once its loops have run: the upstream's live stations, each as the upstream has it.\<close>

definition mirrored :: "int \<Rightarrow> tide_db \<Rightarrow> tide_db \<Rightarrow> bool" where
  "mirrored up udb db \<longleftrightarrow> syncable up db \<and> (\<forall>sid. cv_U (cfg_view up db) sid \<longleftrightarrow> sid \<in> live udb) \<and>
     (\<forall>sid \<in> live udb. same_station (cfg_view up udb) (cfg_view up db) sid)"

lemma mirrored_config: "mirrored up udb db \<Longrightarrow> upstream_config up db = own_config up udb"
  by (auto simp: mirrored_def upstream_config_def own_config_def fun_eq_iff site_def same_station_def cfg_view_def)

lemma mirrored_syncable: "mirrored up udb db \<Longrightarrow> syncable up db"
  by (simp add: mirrored_def)

lemma mirrored_known: "mirrored up udb db \<Longrightarrow> sendable udb \<Longrightarrow> sid \<in> live udb \<Longrightarrow> cv_S (cfg_view up db) sid \<noteq> None"
  using live_iff [of udb sid] by (auto simp: mirrored_def same_station_def cfg_view_def)

lemma acts_id_mirrored: "acts up fst m id st \<Longrightarrow> mirrored up udb (fst st) \<Longrightarrow> runs m st (\<lambda>_ s'. mirrored up udb (fst s'))"
  unfolding acts_def by (erule runs_mono) (simp add: mirrored_def)

lemma stations_mirrored:
  assumes "uuid_text c" "sendable udb" "syncable up (fst st)" "\<forall>sid. upstream_has (fst st) up sid \<longrightarrow> sid \<in> s_Id ` set oldSs"
  shows "runs (bindE (forE (v1_station_step c up) (map (sent_full udb) (live_rows udb))) (\<lambda>_.
      forE (v1_del_station_step up (map (sent_full udb) (live_rows udb))) oldSs)) st (\<lambda>_ s'. mirrored up udb (fst s'))"
  unfolding runs_bind
proof (rule runs_mono [OF acts_stations [OF assms(1-3), unfolded acts_def]])
  fix a and s' :: hub_state
  assume s': "syncable up (fst s') \<and> cfg_view up (fst s') = copy_all (cfg_view up udb) (live udb) (cfg_view up (fst st))"
  have N: "set (map (s_Id \<circ> sfi_Station) (map (sent_full udb) (live_rows udb))) = live udb"
    by (force simp: live_def sent_full_def station_of_row_def)
  have U: "cv_U (cfg_view up (fst st)) sid \<longrightarrow> sid \<in> s_Id ` set oldSs" for sid using assms(4) by (simp add: cfg_view_def)
  have copied: "cv_U (cfg_view up (fst s')) sid \<longleftrightarrow> sid \<in> live udb \<or> cv_U (cfg_view up (fst st)) sid"
      "sid \<in> live udb \<Longrightarrow> same_station (cfg_view up udb) (cfg_view up (fst s')) sid" for sid
    using s' by (simp_all add: copy_all_def same_station_def)
  show "runs (forE (v1_del_station_step up (map (sent_full udb) (live_rows udb))) oldSs) s' (\<lambda>_ s'. mirrored up udb (fst s'))"
    by (rule runs_mono [OF del_stations_run [OF _ N]])
      (use s' copied U in \<open>auto simp: mirrored_def, metis same_station_trans\<close>)
qed

text \<open>The loops that follow keep it, also next to a stream.\<close>

lemma loop_mirrored:
  assumes "\<And>x s'. x \<in> set xs \<Longrightarrow> mirrored up udb (fst s') \<Longrightarrow> acts up fst (body x) id s'" and "mirrored up udb (fst (fst st))"
  shows "runs (fstE (forE body xs)) st (\<lambda>_ s'. mirrored up udb (fst (fst s')) \<and> snd s' = snd st)"
  by (rule runs_fst, simp, rule runs_for [where I = "\<lambda>_ s'. mirrored up udb (fst s')"])
    (use assms acts_id_mirrored in blast)+

lemma fstE_bind: "fstE (bindE m f) = bindE (fstE m) (\<lambda>a. fstE (f a))"
  by (rule ext) (simp add: eff_simps split: prod.split sum.split)

lemma record_stations: "sendable udb \<Longrightarrow> fst (GetDeviceRecords udb) = Inr drs \<Longrightarrow> dr \<in> set drs \<Longrightarrow> r_StationId dr \<in> live udb"
  by (auto simp: GetDeviceRecords_def readE_def device_record_of_row_def live_iff station_not_deleted_def split: option.splits)

lemma rest_mirrored:
  assumes "sendable udb" "fst (GetDeviceRecords udb) = Inr drs" "fst ` set miss \<subseteq> live udb" "send_results (snd st) = []"
    "mirrored up udb (fst (fst st))"
  shows "runs (bindE (fstE (forE v1_record_step drs)) (\<lambda>_. bindE (dbE (latest_row_ids newSs [])) (\<lambda>rows.
    bindE (v1_send (RvRowIds rows)) (\<lambda>_. fstE (forE (v1_miss_logs_step visit) miss))))) st (\<lambda>_ s'. mirrored up udb (fst (fst s')))"
proof -
  have known: "syncable up (fst s') \<and> cv_S (cfg_view up (fst s')) sid \<noteq> None"
    if "sid \<in> live udb" "mirrored up udb (fst s')" for sid and s' :: hub_state
    using that mirrored_known [OF that(2) assms(1) that(1)] by (simp add: mirrored_def)
  have records: "runs (fstE (forE v1_record_step drs)) st (\<lambda>_ s'. mirrored up udb (fst (fst s')) \<and> snd s' = snd st)"
    by (rule loop_mirrored [OF _ assms(5)]) (use known record_stations [OF assms(1,2)] in \<open>blast intro: acts_record\<close>)
  have logs: "runs (fstE (forE (v1_miss_logs_step visit) miss)) s' (\<lambda>_ s''. mirrored up udb (fst (fst s'')) \<and> snd s'' = snd s')"
    if "mirrored up udb (fst (fst s'))" for s' :: v1_relay_state
    by (rule loop_mirrored [OF _ that]) (use known assms(3) in \<open>blast intro: acts_miss_logs\<close>)
  show ?thesis
    unfolding runs_bind [of "fstE (forE v1_record_step drs)"]
  proof (rule runs_mono [OF records])
    fix a and s' :: v1_relay_state
    assume s': "mirrored up udb (fst (fst s')) \<and> snd s' = snd st"
    obtain m where "latest_row_ids newSs [] (fst (fst s')) = (Inr m, fst (fst s'))" using latest_row_ids_reads by blast
    then have "bindE (dbE (latest_row_ids newSs [])) (\<lambda>rows. bindE (v1_send (RvRowIds rows)) (\<lambda>_. fstE (forE (v1_miss_logs_step visit) miss))) s' =
        fstE (forE (v1_miss_logs_step visit) miss) (fst s', (snd st)\<lparr>outbox := outbox (snd st) @ [RvRowIds m]\<rparr>)"
      using s' assms(4) by (simp add: bindE_def fstE_def v1_send_def sndE_def Send_ok)
    with logs [of "(fst s', (snd st)\<lparr>outbox := outbox (snd st) @ [RvRowIds m]\<rparr>)"] s'
    show "runs (bindE (dbE (latest_row_ids newSs [])) (\<lambda>rows. bindE (v1_send (RvRowIds rows)) (\<lambda>_.
        fstE (forE (v1_miss_logs_step visit) miss)))) s' (\<lambda>_ s'. mirrored up udb (fst (fst s')))"
      by (auto simp: runs_def)
  qed
qed

text \<open>
  C22: full synchronisation refines the replacement of the abstract configuration: a run of the
  downstream on what the upstream's tables yield succeeds, and afterwards the stations of the
  upstream, with their location, cameras, status, device rows and items, are exactly the live
  stations of the upstream as the upstream has them.
\<close>

theorem v1_full_sync_mirrors:
  assumes "uuid_text c" "sendable udb" "syncable up db" "\<forall>sid. upstream_has db up sid \<longrightarrow> sid \<in> live db"
    and "fi_stations input = fst (GetStationsFullInfo udb)" "fi_records input = fst (GetDeviceRecords udb)"
    and "fi_missLogs input = Inr miss" "fst ` set miss \<subseteq> live udb" "send_results str = []"
  shows "runs (fullSyncConfigClient c visit up input) ((db, h), str)
     (\<lambda>_ s'. syncable up (fst (fst s')) \<and> upstream_config up (fst (fst s')) = own_config up udb)"
proof -
  let ?sent = "map (sent_full udb) (live_rows udb)"
  obtain drs where drs: "fst (GetDeviceRecords udb) = Inr drs" by (simp add: GetDeviceRecords_def readE_def)
  obtain oldSs where old: "GetStationsByUpstreamId up db = (Inr oldSs, db)" and ids: "s_Id ` set oldSs = {sid \<in> live db. upstream_has db up sid}"
    by (force simp: GetStationsByUpstreamId_def readE_def station_of_row_def live_def live_rows_def)
  have first: "runs (fstE (bindE (forE (v1_station_step c up) ?sent) (\<lambda>_. forE (v1_del_station_step up ?sent) oldSs))) ((db, h), str)
      (\<lambda>_ s'. mirrored up udb (fst (fst s')) \<and> snd s' = str)"
    by (rule runs_fst, simp, rule stations_mirrored) (use assms ids in auto)
  have "dbE (GetStationsByUpstreamId up) ((db, h), str) = (Inr oldSs, ((db, h), str))" by (simp add: fstE_def old)
  then have run: "fullSyncConfigClient c visit up input ((db, h), str) =
      bindE (fstE (bindE (forE (v1_station_step c up) ?sent) (\<lambda>_. forE (v1_del_station_step up ?sent) oldSs))) (\<lambda>_.
        bindE (fstE (forE v1_record_step drs)) (\<lambda>_. bindE (dbE (latest_row_ids ?sent [])) (\<lambda>rows.
        bindE (v1_send (RvRowIds rows)) (\<lambda>_. fstE (forE (v1_miss_logs_step visit) miss))))) ((db, h), str)"
    using assms(5-7) drs GetStationsFullInfo_sent [OF assms(2)]
    by (simp add: fullSyncConfigClient_def bindE_Inr fstE_bind bindE_assoc)
  have "runs (bindE (fstE (bindE (forE (v1_station_step c up) ?sent) (\<lambda>_. forE (v1_del_station_step up ?sent) oldSs))) (\<lambda>_.
        bindE (fstE (forE v1_record_step drs)) (\<lambda>_. bindE (dbE (latest_row_ids ?sent [])) (\<lambda>rows.
        bindE (v1_send (RvRowIds rows)) (\<lambda>_. fstE (forE (v1_miss_logs_step visit) miss)))))) ((db, h), str)
      (\<lambda>_ s'. syncable up (fst (fst s')) \<and> upstream_config up (fst (fst s')) = own_config up udb)"
    unfolding runs_bind [of "fstE (bindE _ _)"]
    by (rule runs_mono [OF first], rule runs_mono [OF rest_mirrored [where up = up, OF assms(2) drs assms(8)]])
      (simp_all add: assms(9) mirrored_config mirrored_syncable)
  then show ?thesis by (simp add: run runs_def)
qed

text \<open>A codec with texts of one length, and two servers.\<close>

definition bit_codec :: uuid_codec where
  "bit_codec = \<lparr>uu_String = (\<lambda>u. map (\<lambda>i. if bit u i then CHR ''1'' else CHR ''0'') [0..<128]),
     uu_Parse = (\<lambda>s. if length s = 128 then (horner_sum of_bool 2 (map (\<lambda>ch. ch = CHR ''1'') s), None)
                     else (0, Some (ErrorString ''invalid UUID format'')))\<rparr>"

lemma bit_codec_text: "uuid_text bit_codec"
proof -
  have "horner_sum of_bool 2 (map (bit u) [0..<128]) = u" for u :: uuid
    by (simp add: horner_sum_bit_eq_take_bit take_bit_word_eq_self)
  moreover have "(\<lambda>i. (if bit u i then CHR ''1'' else CHR ''0'') = CHR ''1'') = bit u" for u :: uuid by auto
  ultimately show ?thesis by (simp add: uuid_text_def uuid_roundtrip_def bit_codec_def comp_def)
qed

definition follower_db :: tide_db where
  "follower_db = empty_db\<lparr>upstreams := [(1, \<lparr>up_username = ''u'', up_password = ''p'', up_url = ''http://up''\<rparr>)]\<rparr>"

theorem v1_full_sync_mirrors_witness:
  "\<exists>s'. fullSyncConfigClient bit_codec id 1
       \<lparr>fi_stations = fst (GetStationsFullInfo one_item_db), fi_records = fst (GetDeviceRecords one_item_db),
        fi_missLogs = Inr [(7, gauge_logs)]\<rparr>
       ((follower_db, NewSyncHub 0 (\<lambda>_. NewSubscriber 10)), new_stream []) = (Inr (), s') \<and>
     upstream_config 1 (fst (fst s')) = own_config 1 one_item_db"
proof -
  have "sendable one_item_db"
    unfolding sendable_def by (intro conjI one_item_db_ok) (simp_all add: one_item_db_def empty_db_def)
  moreover have "syncable 1 follower_db" by (simp add: syncable_def follower_db_def empty_db_def db_ok_defs)
  moreover have "\<forall>sid. upstream_has follower_db 1 sid \<longrightarrow> sid \<in> live follower_db"
    by (simp add: upstream_has_def follower_db_def empty_db_def)
  moreover have "fst ` set [(7, gauge_logs)] \<subseteq> live one_item_db"
    by (simp add: live_def live_rows_def one_item_db_def)
  ultimately show ?thesis
    using v1_full_sync_mirrors [OF bit_codec_text, of one_item_db 1 follower_db
        "\<lparr>fi_stations = fst (GetStationsFullInfo one_item_db), fi_records = fst (GetDeviceRecords one_item_db),
          fi_missLogs = Inr [(7, gauge_logs)]\<rparr>" "[(7, gauge_logs)]" "new_stream []" id "NewSyncHub 0 (\<lambda>_. NewSubscriber 10)"]
    by (auto simp: runs_def new_stream_def)
qed

end
