(* ===== verification/V1Tables.thy ===== *)
theory V1Tables
  imports V1Mirror
begin

text \<open>
  The sessions of the first protocol keep the table invariant of the server's database: a station's
  connection and a downstream's connection to its upstream, however they end.
\<close>

definition hub_ok :: "hub_state \<Rightarrow> bool" where
  "hub_ok hs \<longleftrightarrow> db_ok (fst hs)"

lemma hub_ok_db [pres]: "preserves db_ok m \<Longrightarrow> preserves hub_ok (fstE m)"
  unfolding hub_ok_def by (rule preserves_fst)

lemma hub_ok_notify [pres]: "preserves hub_ok (notify f)"
  unfolding hub_ok_def notify_def by (rule preserves_snd_other)

lemma preserves_prod [pres]: "(\<And>a b. preserves P (f a b)) \<Longrightarrow> preserves P (case x of (a, b) \<Rightarrow> f a b)"
  by (simp split: prod.split)

lemma hub_ok_publish [pres]: "preserves hub_ok (v1_publish kind ty body n)"
  unfolding v1_publish_def by (intro pres)

section \<open>A station's connection\<close>

lemma hub_ok_status [pres]: "preserves hub_ok (updateStationStatusAndBroadcast now sid identifier st)"
  unfolding updateStationStatusAndBroadcast_def by (intro pres)

lemma hub_ok_miss_data [pres]: "preserves hub_ok (ReadMissData sid miss)"
  unfolding ReadMissData_def miss_data_step_def by (intro pres)

lemma hub_ok_miss_logs [pres]: "preserves hub_ok (ReadMissStatusLogs visit sid logs)"
  unfolding ReadMissStatusLogs_def miss_update_step_def miss_log_step_def Let_def by (intro pres)

lemma hub_ok_msg [pres]: "preserves hub_ok (v1_msg_step sid identifier msg)"
  unfolding v1_msg_step_def saveAndUpdateItemStatus_def
  by (cases msg) (auto intro!: pres split: prod.split)

lemma hub_ok_loop [pres]: "preserves hub_ok (v1_loop sid identifier rs)"
proof (induction rs)
  case (Cons r rs)
  then show ?case by (cases r) (auto intro!: pres)
qed (simp add: preserves_ret)

lemma hub_ok_info [pres]: "preserves hub_ok (SyncStationInfo ih vo cams_nil sid info)"
  unfolding hub_ok_def
  by (intro SyncStationInfo_preserves db_ok_EditDevice db_ok_DelDevice db_ok_DelItem db_ok_EditItem db_ok_SyncStationCannotEdit)

text \<open>The invariant on the state of a station's connection.\<close>

lemma v1_hub_part: "preserves hub_ok m \<Longrightarrow> preserves (\<lambda>st. hub_ok (fst (fst st))) (fstE (fstE m))"
  by (rule preserves_fst [where P = "\<lambda>st. hub_ok (fst st)"], rule preserves_fst)

lemma v1_registry_part: "preserves (\<lambda>st. hub_ok (fst (fst st))) (fstE (sndE m))"
  by (rule preserves_fst [where P = "\<lambda>st. hub_ok (fst st)"], rule preserves_snd_other)

lemma v1_stream_part: "preserves (\<lambda>st. hub_ok (fst (fst st))) (sndE m)"
  by (rule preserves_snd_other [where P = "\<lambda>st. hub_ok (fst st)"])

lemmas v1_station_rules = preserves_bind preserves_finally preserves_ignore preserves_if preserves_throw preserves_lift preserves_prod
  v1_hub_part v1_registry_part v1_stream_part

lemma station_conn_keeps:
  "preserves (\<lambda>st. hub_ok (fst (fst st))) (handleStationConnStream1 visit ih vo t1 t2 session ip input)"
  unfolding handleStationConnStream1_def v1_serve_def v1_deferred_def WriteItemsLatest_def WriteLatestStatusLogRowId_def
  by (intro v1_station_rules hub_ok_db hub_ok_status hub_ok_info hub_ok_miss_data hub_ok_miss_logs hub_ok_loop pres)

section \<open>A connection to an upstream\<close>

lemma hub_ok_station_step: "preserves hub_ok (v1_station_step c up full)"
  unfolding v1_station_step_def Let_def v1_device_step_def v1_del_device_step_def v1_item_step_def v1_del_item_step_def by (intro pres)

lemma hub_ok_del_station_step: "preserves hub_ok (v1_del_station_step up new_ss s)"
  unfolding v1_del_station_step_def by (intro pres)

lemma hub_ok_record_step: "preserves hub_ok (v1_record_step dr)"
  unfolding v1_record_step_def by (intro pres)

lemma preserves_latest_row_ids: "preserves P (latest_row_ids fulls m)"
  by (induction fulls arbitrary: m) (auto intro!: pres)

lemma preserves_items_latest: "preserves P (stations_items_latest perms m)"
  by (induction perms m rule: stations_items_latest.induct) (auto intro!: pres)

lemma hub_ok_config_msg: "preserves hub_ok (handleSyncConfigMsg dec gr gp up msg)"
  unfolding handleSyncConfigMsg_def Let_def by (intro pres)

lemma hub_ok_data_msg: "preserves hub_ok (data_msg_step known msg)"
  unfolding data_msg_step_def by (intro pres)

lemma hub_ok_fill: "preserves hub_ok (fill_point sid n d)"
  unfolding fill_point_def miss_data_step_def by (intro pres)

lemma relay_hub_part: "preserves hub_ok m \<Longrightarrow> preserves (\<lambda>st. hub_ok (fst st)) (fstE m)"
  by (rule preserves_fst)

lemma relay_stream_part: "preserves (\<lambda>st. hub_ok (fst st)) (v1_send v)"
  unfolding v1_send_def by (rule preserves_snd_other)

lemmas v1_relay_rules = preserves_bind preserves_finally preserves_ignore preserves_try preserves_if preserves_throw preserves_ret preserves_lift
  preserves_prod relay_stream_part relay_hub_part

lemma full_sync_keeps: "preserves (\<lambda>st. hub_ok (fst st)) (fullSyncConfigClient c visit up input)"
  unfolding fullSyncConfigClient_def v1_miss_logs_step_def
  by (intro v1_relay_rules hub_ok_db preserves_for hub_ok_station_step hub_ok_del_station_step hub_ok_record_step preserves_latest_row_ids
      hub_ok_miss_logs pres)

lemma fill_keeps: "preserves (\<lambda>st. hub_ok (fst st)) (fillMissDataClient perms miss)"
  unfolding fillMissDataClient_def
  by (intro v1_relay_rules hub_ok_db preserves_for hub_ok_fill preserves_items_latest)

lemma client_loop_keeps:
  "(\<And>msg. preserves hub_ok (handle msg)) \<Longrightarrow>
    preserves (\<lambda>st. hub_ok (fst st)) (v1_client_loop handle received steps)"
  by (induction handle received steps rule: v1_client_loop.induct)
    (auto intro!: v1_relay_rules fill_keeps hub_ok_data_msg)

lemma upstream_conn_keeps:
  "preserves (\<lambda>st. hub_ok (fst st)) (handleSyncClientConn c dec gr gp visit up opened input steps)"
  unfolding handleSyncClientConn_def
  by (intro v1_relay_rules hub_ok_db full_sync_keeps client_loop_keeps hub_ok_config_msg db_ok_RemoveAvailableByUpstreamId)

end
