(* ===== verification/V1RelayLaws.thy ===== *)
theory V1RelayLaws
  imports V1Relay
begin

text \<open>
  Confinement in the first relay protocol: the measurements of a normal user's session are those of
  permitted items.
\<close>

section \<open>Confinement of a normal user\<close>





















end
