(* ===== verification/V1Forward.thy ===== *)
theory V1Forward
  imports V1Relay
begin

text \<open>
  The bodies that \<^verbatim>\<open>incrementSyncConfigClient\<close> (\<^verbatim>\<open>tide_server/controller/sync_client_config.go\<close>)
  forwards, at the level of Go slices. The loop decodes every message into one variable \<^verbatim>\<open>msg\<close>
  declared before the loop. The field \<^verbatim>\<open>Body\<close> is a \<^verbatim>\<open>json.RawMessage\<close>, whose decoder appends the text
  to \<^verbatim>\<open>(*m)[0:0]\<close>: it reuses the array of the previous body when the text fits. A message that changed
  a row goes to the channel of a subscriber as \<^verbatim>\<open>SendMsgStruct{Body: msg.Body}\<close>, so the channel holds a
  slice of that array; the subscriber's goroutine reads it when it encodes the message.
\<close>

section \<open>Slices\<close>

text \<open>Arrays by their address; a slice is an array and a length, from the first byte.\<close>

type_synonym arrays = "string list"
type_synonym slice = "nat \<times> nat"

definition read_slice :: "arrays \<Rightarrow> slice \<Rightarrow> string" where
  "read_slice as sl = take (snd sl) (as ! fst sl)"

text \<open>
  \<^verbatim>\<open>append(s[0:0], data...)\<close>: in place when the capacity suffices, a new array of capacity
  \<open>grow n\<close> otherwise (how much an append grows is up to the runtime).
\<close>

definition append_reusing :: "(nat \<Rightarrow> nat) \<Rightarrow> string \<Rightarrow> arrays \<times> slice \<Rightarrow> arrays \<times> slice" where
  "append_reusing grow data x =
     (let as = fst x; a = fst (snd x) in
      if length data \<le> length (as ! a)
      then (as[a := data @ drop (length data) (as ! a)], (a, length data))
      else (as @ [data @ replicate (grow (length data) - length data) (CHR 0x00)], (length as, length data)))"

section \<open>The receive loop and one subscriber\<close>

record forward_state =
  fw_arrays :: arrays
  fw_body :: slice
  fw_subscribed :: bool
  fw_queue :: "(string \<times> slice) list"
  fw_handled :: "(string \<times> string) list"
  fw_sent :: "(string \<times> string) list"

text \<open>The zero value of \<^verbatim>\<open>msg\<close> (a nil body) and a subscriber that has just subscribed.\<close>

definition forward_init :: forward_state where
  "forward_init = \<lparr>fw_arrays = [[]], fw_body = (0, 0), fw_subscribed = True, fw_queue = [], fw_handled = [], fw_sent = []\<rparr>"

text \<open>
  A message arrives (its type, the text of its body, whether applying it changes a row), or the
  subscriber's goroutine takes the next message from its channel and encodes it.
\<close>

datatype forward_event = Arrive string string bool | Encode

fun forward_step :: "(nat \<Rightarrow> nat) \<Rightarrow> forward_event \<Rightarrow> forward_state \<Rightarrow> forward_state" where
  "forward_step grow (Arrive ty bytes changed) s =
     (let (as, body) = append_reusing grow bytes (fw_arrays s, fw_body s);
          s1 = s\<lparr>fw_arrays := as, fw_body := body, fw_handled := fw_handled s @ [(ty, read_slice as body)]\<rparr>
      in if \<not> changed \<or> \<not> fw_subscribed s then s1
         else if length (fw_queue s) < 1000 then s1\<lparr>fw_queue := fw_queue s @ [(ty, body)]\<rparr>
         else s1\<lparr>fw_subscribed := False\<rparr>)"
| "forward_step grow Encode s =
     (case fw_queue s of
        [] \<Rightarrow> s
      | (ty, body) # rest \<Rightarrow> s\<lparr>fw_queue := rest, fw_sent := fw_sent s @ [(ty, read_slice (fw_arrays s) body)]\<rparr>)"

definition forward_run :: "(nat \<Rightarrow> nat) \<Rightarrow> forward_event list \<Rightarrow> forward_state \<Rightarrow> forward_state" where
  "forward_run grow = fold (forward_step grow)"

section \<open>What is handled and what is sent\<close>

definition body_ok :: "forward_state \<Rightarrow> bool" where
  "body_ok s \<longleftrightarrow> fst (fw_body s) < length (fw_arrays s)"

lemma body_ok_step: "body_ok s \<Longrightarrow> body_ok (forward_step grow e s)"
  by (cases e) (auto simp: body_ok_def append_reusing_def Let_def split: list.split)

lemma body_ok_run: "body_ok (forward_run grow es forward_init)"
proof -
  have "body_ok s \<Longrightarrow> body_ok (fold (forward_step grow) es s)" for s
    by (induction es arbitrary: s) (simp_all add: body_ok_step)
  then show ?thesis by (simp add: forward_run_def body_ok_def forward_init_def)
qed

lemma append_reusing_read:
  assumes "append_reusing grow bytes (as, body) = (as', body')" and "fst body < length as"
  shows "read_slice as' body' = bytes"
  using assms by (auto simp: append_reusing_def Let_def read_slice_def split: if_splits)

text \<open>The array of the new body has room for the text, so a shorter text overwrites it.\<close>

lemma append_reusing_again:
  assumes "append_reusing grow t1 (as, body) = (as1, b1)" and "append_reusing grow t2 (as1, b1) = (as2, b2)"
    and "fst body < length as" and "length t2 \<le> length t1"
  shows "read_slice as2 b1 = t2 @ drop (length t2) t1"
proof -
  obtain rest where arr: "as1 ! fst b1 = t1 @ rest" "fst b1 < length as1" "snd b1 = length t1"
    using assms(1,3) by (auto simp: append_reusing_def Let_def nth_append split: if_splits)
  moreover have "as2 = as1[fst b1 := t2 @ drop (length t2) (as1 ! fst b1)]"
    using assms(2,4) arr by (auto simp: append_reusing_def Let_def split: if_splits)
  ultimately show ?thesis using assms(4) by (simp add: read_slice_def)
qed

text \<open>
  The forwarding of configuration changes is not faithful when the subscriber is slower than
  the upstream. From every reachable state with an empty channel: if two changes arrive before the
  subscriber encodes the first, and the second body is not longer, then both are applied with their
  own bodies but the subscriber sends the first with its bytes overwritten by those of the second
  (the second body in full when they are equally long). If each is encoded before the next arrives,
  both are sent as they were received.
\<close>

theorem forwarded_body_overwritten:
  assumes s: "s = forward_run grow es forward_init" "fw_queue s = []" "fw_subscribed s" and len: "length b2 \<le> length b1"
  shows "fw_sent (forward_run grow [Arrive t1 b1 True, Arrive t2 b2 True, Encode, Encode] s) =
           fw_sent s @ [(t1, b2 @ drop (length b2) b1), (t2, b2)] \<and>
         fw_handled (forward_run grow [Arrive t1 b1 True, Arrive t2 b2 True, Encode, Encode] s) = fw_handled s @ [(t1, b1), (t2, b2)] \<and>
         fw_sent (forward_run grow [Arrive t1 b1 True, Encode, Arrive t2 b2 True, Encode] s) = fw_sent s @ [(t1, b1), (t2, b2)]"
proof -
  obtain as1 c1 where one: "append_reusing grow b1 (fw_arrays s, fw_body s) = (as1, c1)"
    by (cases "append_reusing grow b1 (fw_arrays s, fw_body s)")
  obtain as2 c2 where two: "append_reusing grow b2 (as1, c1) = (as2, c2)" by (cases "append_reusing grow b2 (as1, c1)")
  have ok: "fst (fw_body s) < length (fw_arrays s)" using body_ok_run [of grow es] s(1) by (simp add: body_ok_def)
  then have ok1: "fst c1 < length as1" using one by (auto simp: append_reusing_def Let_def split: if_splits)
  show ?thesis
    using append_reusing_read [OF one ok] append_reusing_read [OF two ok1] append_reusing_again [OF one two ok len] s(2,3) one two
    by (simp add: forward_run_def)
qed

theorem forwarded_body_overwritten_witness:
  "fw_sent (forward_run id [Arrive ''a'' ''on-1'' True, Arrive ''b'' ''on-2'' True, Encode, Encode] forward_init) =
     [(''a'', ''on-2''), (''b'', ''on-2'')]"
  using forwarded_body_overwritten [of forward_init id "[]" "''on-2''" "''on-1''" "''a''" "''b''"]
  by (simp add: forward_run_def forward_init_def)

end
