(* ===== verification/DiskClean.thy ===== *)
theory DiskClean
  imports ClientDB "HOL-Library.Word" "HOL-Library.Sublist" "HOL-Library.List_Lexorder" "HOL-Library.Char_ord"
begin

text \<open>
  The daily removal of outdated data (\<^verbatim>\<open>tide_client/controller/disk_clean.go\<close>): camera and GNSS files
  an FTP server wrote, and old rows of the station's database.

  The file system is the list of its paths (component lists), each a directory or a file with its
  modification time in nanoseconds; a symbolic link is a file, as for \<^verbatim>\<open>DirEntry.IsDir\<close>. Which system
  calls fail is an argument, and one instant stands for the clock readings of a run. \<open>cleanDir\<close> recurses over the directories it finds on disk, so it takes
  fuel, and \<open>None\<close> is a run that has not returned.
\<close>

section \<open>The file system\<close>

type_synonym path = "string list"

datatype fs_node = FFile int | FDir

type_synonym file_system = "(path \<times> fs_node) list"

text \<open>\<^verbatim>\<open>os.ReadDir\<close>: name and kind of every entry, sorted by name.\<close>

definition dir_entries :: "path \<Rightarrow> file_system \<Rightarrow> (string \<times> bool) list" where
  "dir_entries p fs = map (\<lambda>n. (n, (p @ [n], FDir) \<in> set fs))
     (sort (remdups (map (last \<circ> fst) (filter (\<lambda>x. fst x \<noteq> [] \<and> butlast (fst x) = p) fs))))"

definition mod_time :: "path \<Rightarrow> file_system \<Rightarrow> int option" where
  "mod_time p fs = (case map_of fs p of Some (FFile t) \<Rightarrow> Some t | _ \<Rightarrow> None)"

record fs_faults =
  fl_ReadDir :: "path \<Rightarrow> bool"
  fl_Info :: "path \<Rightarrow> bool"
  fl_Remove :: "path \<Rightarrow> bool"
  fl_Open :: "path \<Rightarrow> bool"

definition os_Remove :: "fs_faults \<Rightarrow> path \<Rightarrow> file_system \<Rightarrow> file_system" where
  "os_Remove fl p fs = (if fl_Remove fl p \<or> dir_entries p fs \<noteq> [] then fs else filter (\<lambda>x. fst x \<noteq> p) fs)"

text \<open>\<^verbatim>\<open>isDirEmpty\<close>: \<open>None\<close> is an error.\<close>

definition isDirEmpty :: "fs_faults \<Rightarrow> path \<Rightarrow> file_system \<Rightarrow> bool option" where
  "isDirEmpty fl p fs = (if fl_Open fl p \<or> (p, FDir) \<notin> set fs then None else Some (dir_entries p fs = []))"

section \<open>\<open>cleanDir\<close>\<close>

definition clean_file :: "fs_faults \<Rightarrow> int \<Rightarrow> path \<Rightarrow> file_system \<Rightarrow> file_system" where
  "clean_file fl cutoff p fs =
     (if fl_Info fl p then fs
      else case mod_time p fs of None \<Rightarrow> fs | Some t \<Rightarrow> if t < cutoff then os_Remove fl p fs else fs)"

definition remove_if_empty :: "fs_faults \<Rightarrow> path \<Rightarrow> file_system \<Rightarrow> file_system" where
  "remove_if_empty fl p fs =
     (case isDirEmpty fl p fs of None \<Rightarrow> fs | Some isEmpty \<Rightarrow> if isEmpty then os_Remove fl p fs else fs)"

text \<open>The loop over the entries, with the recursive call as an argument.\<close>

fun clean_entries ::
  "(path \<Rightarrow> file_system \<Rightarrow> file_system option) \<Rightarrow> (path \<Rightarrow> file_system \<Rightarrow> file_system) \<Rightarrow> path \<Rightarrow> (string \<times> bool) list
     \<Rightarrow> file_system \<Rightarrow> file_system option" where
  "clean_entries onDir onFile parentPath [] fs = Some fs"
| "clean_entries onDir onFile parentPath ((name, isDir) # entries) fs =
     (case (if isDir then onDir (parentPath @ [name]) fs else Some (onFile (parentPath @ [name]) fs)) of
        None \<Rightarrow> None
      | Some fs1 \<Rightarrow> clean_entries onDir onFile parentPath entries fs1)"

fun cleanDir :: "fs_faults \<Rightarrow> nat \<Rightarrow> path \<Rightarrow> nat \<Rightarrow> nat \<Rightarrow> int \<Rightarrow> file_system \<Rightarrow> file_system option" where
  "cleanDir fl 0 parentPath maxDepth currentDepth cutoffTime fs = None"
| "cleanDir fl (Suc fuel) parentPath maxDepth currentDepth cutoffTime fs =
     (if fl_ReadDir fl parentPath \<or> (parentPath, FDir) \<notin> set fs then Some fs
      else case clean_entries (\<lambda>p. cleanDir fl fuel p maxDepth (currentDepth + 1) cutoffTime) (clean_file fl cutoffTime)
             parentPath (dir_entries parentPath fs) fs of
        None \<Rightarrow> None
      | Some fs1 \<Rightarrow> Some (if currentDepth > maxDepth then remove_if_empty fl parentPath fs1 else fs1))"

section \<open>The job\<close>

record ftp_config =
  ftp_Path :: path
  ftp_HoldDays :: "64 word"

definition CheckFtpConfig :: "ftp_config \<Rightarrow> bool result" where
  "CheckFtpConfig ftp =
     (if ftp_Path ftp = [] \<and> ftp_HoldDays ftp = 0 then Inr False
      else if sint (ftp_HoldDays ftp) < 3 then Inl (ErrorString ''holdDays must >= 3'')
      else Inr True)"

text \<open>\<^verbatim>\<open>time.Now().Add(-HoldDays*24*time.Hour)\<close>: the product is an \<^verbatim>\<open>int64\<close> number of nanoseconds.\<close>

definition cutoff_time :: "int \<Rightarrow> 64 word \<Rightarrow> int" where
  "cutoff_time now days = now + sint (- days * 24 * 3600000000000)"

definition minDiskThreshold :: int where
  "minDiskThreshold = 128 * 1024 * 1024"

text \<open>\<open>CheckDiskSpace\<close>: \<^verbatim>\<open>stat.Bavail * uint64(stat.Bsize)\<close> of what \<^verbatim>\<open>statfs\<close> reports.\<close>

definition CheckDiskSpace :: "(path \<Rightarrow> (64 word \<times> 64 word) result) \<Rightarrow> path \<Rightarrow> 64 word result" where
  "CheckDiskSpace statfs p = (case statfs p of Inl e \<Rightarrow> Inl e | Inr st \<Rightarrow> Inr (fst st * snd st))"

type_synonym job_state = "file_system \<times> client_db"

definition check_space :: "(path \<Rightarrow> (64 word \<times> 64 word) result) \<Rightarrow> ftp_config \<Rightarrow> (job_state, unit) eff" where
  "check_space statfs ftp =
     (case CheckDiskSpace statfs (ftp_Path ftp) of
        Inl e \<Rightarrow> throwE e
      | Inr avail \<Rightarrow> if uint avail < minDiskThreshold then throwE (ErrorString ''Insufficient disk space'') else retE ())"

text \<open>The process exits where the job fails. \<open>fuel\<close> bounds the depth of the directories.\<close>

definition clean_ftp :: "fs_faults \<Rightarrow> nat \<Rightarrow> int \<Rightarrow> ftp_config \<Rightarrow> (job_state, unit) eff" where
  "clean_ftp fl fuel now ftp st =
     (case cleanDir fl fuel (ftp_Path ftp) 1 0 (cutoff_time now (ftp_HoldDays ftp)) (fst st) of
        None \<Rightarrow> (Inl (ErrorString ''out of fuel''), st)
      | Some fs \<Rightarrow> (Inr (), (fs, snd st)))"

definition removeOutdatedDataJob ::
  "fs_faults \<Rightarrow> (path \<Rightarrow> (64 word \<times> 64 word) result) \<Rightarrow> nat \<Rightarrow> int \<Rightarrow> 64 word \<Rightarrow> ftp_config list \<Rightarrow> (job_state, unit) eff" where
  "removeOutdatedDataJob fl statfs fuel now dbHoldDays validFtps =
     bindE (forE (clean_ftp fl fuel now) validFtps) (\<lambda>_.
     bindE (forE (check_space statfs) validFtps) (\<lambda>_.
       sndE (CleanDBData (cutoff_time now dbHoldDays div 1000000))))"

fun valid_ftps :: "ftp_config list \<Rightarrow> ftp_config list result" where
  "valid_ftps [] = Inr []"
| "valid_ftps (ftp # ftps) =
     (case CheckFtpConfig ftp of
        Inl e \<Rightarrow> Inl e
      | Inr ok \<Rightarrow> (case valid_ftps ftps of Inl e \<Rightarrow> Inl e | Inr vs \<Rightarrow> Inr (if ok then ftp # vs else vs)))"

definition scheduleRemoveOutdatedData ::
  "fs_faults \<Rightarrow> (path \<Rightarrow> (64 word \<times> 64 word) result) \<Rightarrow> nat \<Rightarrow> int \<Rightarrow> 64 word \<Rightarrow> ftp_config list \<Rightarrow> (job_state, unit) eff" where
  "scheduleRemoveOutdatedData fl statfs fuel now dbHoldDays ftps =
     bindE (liftR (valid_ftps ftps)) (removeOutdatedDataJob fl statfs fuel now dbHoldDays)"

section \<open>What stays\<close>

text \<open>A file system: paths are distinct and not empty, and every proper ancestor of a path is a directory.\<close>

definition fs_ok :: "file_system \<Rightarrow> bool" where
  "fs_ok fs \<longleftrightarrow> distinct (map fst fs) \<and>
     (\<forall>(p, x) \<in> set fs. p \<noteq> [] \<and> (\<forall>q. q \<noteq> [] \<longrightarrow> strict_prefix q p \<longrightarrow> (q, FDir) \<in> set fs))"

text \<open>A directory holds a recent file, at any depth.\<close>

definition has_recent :: "int \<Rightarrow> file_system \<Rightarrow> path \<Rightarrow> bool" where
  "has_recent cutoff fs d \<longleftrightarrow> (\<exists>(p, x) \<in> set fs. case x of FFile t \<Rightarrow> cutoff \<le> t \<and> strict_prefix d p | FDir \<Rightarrow> False)"

text \<open>
  What a cleaning of \<open>base\<close> must keep: whatever is elsewhere, recent files, directories down to the
  given depth, and deeper directories that hold a recent file.
\<close>

definition must_stay :: "path \<Rightarrow> nat \<Rightarrow> int \<Rightarrow> file_system \<Rightarrow> path \<times> fs_node \<Rightarrow> bool" where
  "must_stay base maxDepth cutoff fs x \<longleftrightarrow> \<not> prefix base (fst x) \<or>
     (case snd x of FFile t \<Rightarrow> cutoff \<le> t
      | FDir \<Rightarrow> length (fst x) \<le> length base + maxDepth \<or> has_recent cutoff fs (fst x))"

lemma has_recent_iff: "has_recent cutoff fs d \<longleftrightarrow> (\<exists>p t. (p, FFile t) \<in> set fs \<and> cutoff \<le> t \<and> strict_prefix d p)"
  unfolding has_recent_def by (force split: fs_node.splits)

lemma must_stay_simps:
  "must_stay base maxDepth cutoff fs (p, FFile t) \<longleftrightarrow> \<not> prefix base p \<or> cutoff \<le> t"
  "must_stay base maxDepth cutoff fs (p, FDir) \<longleftrightarrow> \<not> prefix base p \<or> length p \<le> length base + maxDepth \<or> has_recent cutoff fs p"
  by (simp_all add: must_stay_def)

text \<open>A state on the way from \<open>fs0\<close>: nothing was added and all that must stay is there.\<close>

definition on_the_way :: "path \<Rightarrow> nat \<Rightarrow> int \<Rightarrow> file_system \<Rightarrow> file_system \<Rightarrow> bool" where
  "on_the_way base maxDepth cutoff fs0 fs \<longleftrightarrow> set fs \<subseteq> set fs0 \<and> fs_ok fs \<and>
     (\<forall>x \<in> set fs0. must_stay base maxDepth cutoff fs0 x \<longrightarrow> x \<in> set fs)"

lemma fs_okD: "fs_ok fs \<Longrightarrow> (p, x) \<in> set fs \<Longrightarrow> strict_prefix q p \<Longrightarrow> q \<noteq> [] \<Longrightarrow> (q, FDir) \<in> set fs"
  by (fastforce simp: fs_ok_def)

lemma fs_ok_nonempty: "fs_ok fs \<Longrightarrow> (p, x) \<in> set fs \<Longrightarrow> p \<noteq> []"
  by (fastforce simp: fs_ok_def)

lemma fs_ok_unique: "fs_ok fs \<Longrightarrow> (p, x) \<in> set fs \<Longrightarrow> (p, y) \<in> set fs \<Longrightarrow> x = y"
  unfolding fs_ok_def using eq_key_imp_eq_value by metis

lemma entry_names: "n \<in> (last \<circ> fst) ` {x \<in> set fs. fst x \<noteq> [] \<and> butlast (fst x) = p} \<longleftrightarrow> (\<exists>y. (p @ [n], y) \<in> set fs)"
proof
  assume "n \<in> (last \<circ> fst) ` {x \<in> set fs. fst x \<noteq> [] \<and> butlast (fst x) = p}"
  then obtain q y where "(q, y) \<in> set fs" "q \<noteq> []" "butlast q = p" "last q = n" by auto
  then show "\<exists>y. (p @ [n], y) \<in> set fs" using append_butlast_last_id [of q] by metis
next
  assume "\<exists>y. (p @ [n], y) \<in> set fs"
  then obtain y where "(p @ [n], y) \<in> set fs" by blast
  then show "n \<in> (last \<circ> fst) ` {x \<in> set fs. fst x \<noteq> [] \<and> butlast (fst x) = p}" by (intro image_eqI [of _ _ "(p @ [n], y)"]) auto
qed

lemma dir_entries_iff: "(n, b) \<in> set (dir_entries p fs) \<longleftrightarrow> (\<exists>x. (p @ [n], x) \<in> set fs) \<and> b = ((p @ [n], FDir) \<in> set fs)"
proof -
  have "(n, b) \<in> set (dir_entries p fs) \<longleftrightarrow>
      n \<in> (last \<circ> fst) ` {x \<in> set fs. fst x \<noteq> [] \<and> butlast (fst x) = p} \<and> b = ((p @ [n], FDir) \<in> set fs)"
    by (auto simp only: dir_entries_def set_map set_sort set_remdups set_filter image_iff prod.inject)
  then show ?thesis unfolding entry_names .
qed

lemma dir_entries_empty_iff: "dir_entries p fs = [] \<longleftrightarrow> (\<forall>n x. (p @ [n], x) \<notin> set fs)"
proof -
  have "dir_entries p fs = [] \<longleftrightarrow> (\<forall>n b. (n, b) \<notin> set (dir_entries p fs))"
    by (metis empty_iff empty_set list.set_intros(1) neq_Nil_conv surj_pair)
  then show ?thesis unfolding dir_entries_iff by blast
qed

text \<open>A path below another starts with one of its children.\<close>

lemma strict_prefix_child: "strict_prefix d p \<Longrightarrow> \<exists>n. p = d @ [n] \<or> strict_prefix (d @ [n]) p"
  by (auto simp: strict_prefix_def prefix_def) (metis append_Cons append_Nil neq_Nil_conv)

lemma child_present:
  assumes "fs_ok fs" and "(p, x) \<in> set fs" and "strict_prefix d p"
  shows "\<exists>n y. (d @ [n], y) \<in> set fs \<and> prefix (d @ [n]) p"
  using strict_prefix_child [OF assms(3)] fs_okD [OF assms(1,2)] assms(2) by (metis prefix_order.refl snoc_eq_iff_butlast strict_prefix_def)

lemma os_Remove_cases:
  "os_Remove fl p fs = fs \<or> (os_Remove fl p fs = filter (\<lambda>x. fst x \<noteq> p) fs \<and> \<not> fl_Remove fl p \<and> dir_entries p fs = [])"
  by (simp add: os_Remove_def)

lemma fs_ok_remove:
  assumes "fs_ok fs" and "dir_entries p fs = []"
  shows "fs_ok (filter (\<lambda>x. fst x \<noteq> p) fs)"
proof -
  have "\<not> strict_prefix p q" if "(q, x) \<in> set fs" for q x
    using child_present [OF assms(1) that] assms(2) by (auto simp: dir_entries_empty_iff)
  then show ?thesis using assms(1) unfolding fs_ok_def by (auto simp: distinct_map_filter)
qed

lemma on_the_way_remove:
  assumes "on_the_way base maxDepth cutoff fs0 fs" and "dir_entries p fs = []"
    and "\<And>x. (p, x) \<in> set fs \<Longrightarrow> \<not> must_stay base maxDepth cutoff fs0 (p, x)"
  shows "on_the_way base maxDepth cutoff fs0 (filter (\<lambda>x. fst x \<noteq> p) fs)"
  using assms fs_ok_remove [OF _ assms(2)] unfolding on_the_way_def by auto

text \<open>Removing a file removes one that need not stay.\<close>

lemma clean_file_ok:
  assumes "on_the_way base maxDepth cutoff fs0 fs" and "prefix base p"
  shows "on_the_way base maxDepth cutoff fs0 (clean_file fl cutoff p fs)" and "set (clean_file fl cutoff p fs) \<subseteq> set fs"
proof -
  have "on_the_way base maxDepth cutoff fs0 (clean_file fl cutoff p fs) \<and> set (clean_file fl cutoff p fs) \<subseteq> set fs"
  proof (cases "clean_file fl cutoff p fs = fs")
    case False
    then obtain t where t: "mod_time p fs = Some t" "t < cutoff" and r: "clean_file fl cutoff p fs = filter (\<lambda>x. fst x \<noteq> p) fs"
        and e: "dir_entries p fs = []"
      using os_Remove_cases [of fl p fs] by (auto simp: clean_file_def split: if_splits option.splits)
    then have "(p, FFile t) \<in> set fs" by (auto simp: mod_time_def dest!: map_of_SomeD split: option.splits fs_node.splits)
    then have only: "x = FFile t" if "(p, x) \<in> set fs" for x using assms(1) that fs_ok_unique by (auto simp: on_the_way_def)
    have "\<not> must_stay base maxDepth cutoff fs0 (p, x)" if "(p, x) \<in> set fs" for x
      unfolding only [OF that] using assms(2) t(2) by (simp add: must_stay_simps)
    then show ?thesis using r on_the_way_remove [OF assms(1) e] by auto
  qed (use assms in simp)
  then show "on_the_way base maxDepth cutoff fs0 (clean_file fl cutoff p fs)" "set (clean_file fl cutoff p fs) \<subseteq> set fs" by auto
qed

text \<open>A recent file below a directory keeps a child of that directory in place.\<close>

lemma recent_child_present:
  assumes "on_the_way base maxDepth cutoff fs0 fs" and "has_recent cutoff fs0 d"
  shows "dir_entries d fs \<noteq> []"
proof -
  from assms(2) obtain p t where p: "(p, FFile t) \<in> set fs0" "cutoff \<le> t" "strict_prefix d p" by (auto simp: has_recent_iff)
  with assms(1) have "(p, FFile t) \<in> set fs" by (auto simp: on_the_way_def must_stay_simps)
  with child_present [of fs p "FFile t" d] p(3) assms(1) show ?thesis by (fastforce simp: on_the_way_def dir_entries_empty_iff)
qed

lemma remove_if_empty_ok:
  assumes ok: "on_the_way base maxDepth cutoff fs0 fs" and p: "prefix base p" "length base + maxDepth < length p"
  shows "on_the_way base maxDepth cutoff fs0 (remove_if_empty fl p fs)" and "set (remove_if_empty fl p fs) \<subseteq> set fs"
proof -
  have "on_the_way base maxDepth cutoff fs0 (remove_if_empty fl p fs) \<and> set (remove_if_empty fl p fs) \<subseteq> set fs"
  proof (cases "remove_if_empty fl p fs = fs")
    case False
    then have r: "remove_if_empty fl p fs = filter (\<lambda>x. fst x \<noteq> p) fs" and e: "dir_entries p fs = []" and d: "(p, FDir) \<in> set fs"
      using os_Remove_cases [of fl p fs] by (auto simp: remove_if_empty_def isDirEmpty_def split: if_splits option.splits)
    have dir: "x = FDir" if "(p, x) \<in> set fs" for x using ok d that fs_ok_unique by (auto simp: on_the_way_def)
    have "\<not> must_stay base maxDepth cutoff fs0 (p, x)" if "(p, x) \<in> set fs" for x
      unfolding dir [OF that] using recent_child_present [OF ok, of p] e p by (auto simp: must_stay_simps)
    then show ?thesis using r on_the_way_remove [OF ok e] by auto
  qed (use ok in simp)
  then show "on_the_way base maxDepth cutoff fs0 (remove_if_empty fl p fs)" "set (remove_if_empty fl p fs) \<subseteq> set fs" by auto
qed

section \<open>Termination and effect\<close>

definition no_faults :: fs_faults where
  "no_faults = \<lparr>fl_ReadDir = \<lambda>_. False, fl_Info = \<lambda>_. False, fl_Remove = \<lambda>_. False, fl_Open = \<lambda>_. False\<rparr>"

text \<open>The loop over the entries, for any invariant \<open>W\<close> and any statement \<open>S\<close> about what is left below an entry.\<close>

lemma clean_entries_ok:
  assumes "\<And>n fs. (n, True) \<in> set es \<Longrightarrow> W fs \<Longrightarrow>
      \<exists>fs'. onDir (p @ [n]) fs = Some fs' \<and> W fs' \<and> set fs' \<subseteq> set fs \<and> (E \<longrightarrow> (\<forall>x \<in> set fs'. prefix (p @ [n]) (fst x) \<longrightarrow> S x))"
    and "\<And>n fs. (n, False) \<in> set es \<Longrightarrow> W fs \<Longrightarrow>
      W (onFile (p @ [n]) fs) \<and> set (onFile (p @ [n]) fs) \<subseteq> set fs \<and> (E \<longrightarrow> (\<forall>x \<in> set (onFile (p @ [n]) fs). prefix (p @ [n]) (fst x) \<longrightarrow> S x))"
    and "W fs"
  shows "\<exists>fs'. clean_entries onDir onFile p es fs = Some fs' \<and> W fs' \<and> set fs' \<subseteq> set fs \<and>
    (E \<longrightarrow> (\<forall>x \<in> set fs'. \<forall>n \<in> fst ` set es. prefix (p @ [n]) (fst x) \<longrightarrow> S x))"
  using assms
proof (induction es arbitrary: fs)
  case (Cons e es)
  obtain n b where e: "e = (n, b)" by (cases e)
  obtain fs1 where one: "(if b then onDir (p @ [n]) fs else Some (onFile (p @ [n]) fs)) = Some fs1"
    and fs1: "W fs1" "set fs1 \<subseteq> set fs" "E \<longrightarrow> (\<forall>x \<in> set fs1. prefix (p @ [n]) (fst x) \<longrightarrow> S x)"
    using Cons.prems(1) [of n fs] Cons.prems(2) [of n fs] Cons.prems(3) e by (cases b) auto
  obtain fs2 where "clean_entries onDir onFile p es fs1 = Some fs2" "W fs2" "set fs2 \<subseteq> set fs1"
    "E \<longrightarrow> (\<forall>x \<in> set fs2. \<forall>n \<in> fst ` set es. prefix (p @ [n]) (fst x) \<longrightarrow> S x)"
    using Cons.IH [OF Cons.prems(1,2) fs1(1)] by (metis list.set_intros(2))
  then show ?case using one fs1 e by (intro exI [of _ fs2]) auto
qed simp

text \<open>After the loop a file that was an entry is gone or recent.\<close>

lemma clean_file_exact:
  assumes ok: "on_the_way base maxDepth cutoff fs0 fs" "fs_ok fs0" and leaf0: "(p, FFile t) \<in> set fs0"
    and x: "x \<in> set (clean_file no_faults cutoff p fs)" "prefix p (fst x)"
  shows "must_stay base maxDepth cutoff fs0 x"
proof -
  have leaf: "\<not> strict_prefix p q" if "(q, y) \<in> set fs0" for q y
    using fs_okD [OF ok(2) that, of p] fs_ok_unique [OF ok(2) leaf0, of FDir] fs_ok_nonempty [OF ok(2) leaf0] by auto
  have sub: "set (clean_file no_faults cutoff p fs) \<subseteq> set fs"
    using os_Remove_cases [of no_faults p fs] by (auto simp: clean_file_def split: option.split)
  with x ok(1) have "x \<in> set fs" "x \<in> set fs0" by (auto simp: on_the_way_def)
  obtain q y where q: "x = (q, y)" by (cases x)
  with \<open>x \<in> set fs0\<close> leaf x(2) have "q = p" by (auto simp: strict_prefix_def)
  with q \<open>x \<in> set fs0\<close> have xp: "x = (p, FFile t)" using fs_ok_unique [OF ok(2) leaf0, of y] by simp
  have "cutoff \<le> t"
  proof (rule ccontr)
    assume "\<not> cutoff \<le> t"
    moreover have "map_of fs p = Some (FFile t)"
      using \<open>x \<in> set fs\<close> xp ok(1) by (simp add: on_the_way_def fs_ok_def)
    moreover have "dir_entries p fs = []"
      unfolding dir_entries_empty_iff
    proof (intro allI notI)
      fix n y
      assume "(p @ [n], y) \<in> set fs"
      with ok(1) have "(p @ [n], y) \<in> set fs0" by (auto simp: on_the_way_def)
      with leaf [of "p @ [n]" y] show False by (auto simp: strict_prefix_def)
    qed
    ultimately have "clean_file no_faults cutoff p fs = filter (\<lambda>x. fst x \<noteq> p) fs"
      by (simp add: clean_file_def mod_time_def os_Remove_def no_faults_def)
    with x(1) xp show False by simp
  qed
  then show ?thesis using xp by (simp add: must_stay_simps)
qed

text \<open>A directory that is left after its entries were cleaned is shallow or holds a recent file.\<close>

lemma remove_if_empty_exact:
  assumes ok: "on_the_way base maxDepth cutoff fs0 fs" and p: "prefix base p" "length base + maxDepth < length p"
    and below: "\<And>x. x \<in> set fs \<Longrightarrow> strict_prefix p (fst x) \<Longrightarrow> must_stay base maxDepth cutoff fs0 x"
    and left: "(p, FDir) \<in> set (remove_if_empty no_faults p fs)"
  shows "has_recent cutoff fs0 p"
proof -
  have "(p, FDir) \<in> set fs" using remove_if_empty_ok(2) [OF ok p] left by blast
  with left have "dir_entries p fs \<noteq> []"
    by (auto simp: remove_if_empty_def isDirEmpty_def os_Remove_def no_faults_def)
  then obtain n y where c: "(p @ [n], y) \<in> set fs" by (auto simp: dir_entries_empty_iff)
  then have m: "must_stay base maxDepth cutoff fs0 (p @ [n], y)" and c0: "(p @ [n], y) \<in> set fs0"
    using below [of "(p @ [n], y)"] ok by (auto simp: strict_prefix_def on_the_way_def)
  have s: "strict_prefix p (p @ [n])" "prefix base (p @ [n])" using p(1) by (auto simp: strict_prefix_def prefix_def)
  show ?thesis
  proof (cases y)
    case (FFile t)
    then show ?thesis using m c0 s by (auto simp: must_stay_simps has_recent_iff)
  next
    case FDir
    with m s(2) p(2) have "has_recent cutoff fs0 (p @ [n])" by (auto simp: must_stay_simps)
    then show ?thesis using s(1) by (auto simp: has_recent_iff intro: prefix_order.less_trans)
  qed
qed

lemma entry_file:
  assumes "(n, False) \<in> set (dir_entries p fs)"
  shows "\<exists>t. (p @ [n], FFile t) \<in> set fs"
proof -
  from assms obtain x where "(p @ [n], x) \<in> set fs" "x \<noteq> FDir" by (auto simp: dir_entries_iff)
  then show ?thesis by (cases x) auto
qed

text \<open>From the entries of a directory to the directory.\<close>

lemma directory_done:
  assumes ok: "on_the_way base maxDepth cutoff fs0 fs" "on_the_way base maxDepth cutoff fs0 fs1" "set fs1 \<subseteq> set fs"
    and p: "prefix base p" "length p = length base + depth" "(p, FDir) \<in> set fs0" and fs0: "fs_ok fs0"
    and exact: "fl = no_faults \<longrightarrow> (\<forall>x \<in> set fs1. \<forall>n \<in> fst ` set (dir_entries p fs). prefix (p @ [n]) (fst x) \<longrightarrow> must_stay base maxDepth cutoff fs0 x)"
  defines "fs2 \<equiv> if depth > maxDepth then remove_if_empty fl p fs1 else fs1"
  shows "on_the_way base maxDepth cutoff fs0 fs2 \<and> set fs2 \<subseteq> set fs \<and>
    (fl = no_faults \<longrightarrow> (\<forall>x \<in> set fs2. prefix p (fst x) \<longrightarrow> must_stay base maxDepth cutoff fs0 x))"
proof (intro conjI impI ballI)
  show way: "on_the_way base maxDepth cutoff fs0 fs2"
    using remove_if_empty_ok(1) [OF ok(2) p(1)] p(2) ok(2) by (auto simp: fs2_def)
  have sub: "set fs2 \<subseteq> set fs1" using remove_if_empty_ok(2) [OF ok(2) p(1)] p(2) by (auto simp: fs2_def)
  then show "set fs2 \<subseteq> set fs" using ok(3) by blast
  fix x
  assume nf: "fl = no_faults" and x: "x \<in> set fs2" "prefix p (fst x)"
  obtain q y where q: "x = (q, y)" by (cases x)
  have below: "must_stay base maxDepth cutoff fs0 z" if z: "z \<in> set fs1" "strict_prefix p (fst z)" for z
  proof -
    obtain n w where n: "(p @ [n], w) \<in> set fs" "prefix (p @ [n]) (fst z)"
      using child_present [of fs "fst z" "snd z" p] z ok by (auto simp: on_the_way_def)
    then have "(n, (p @ [n], FDir) \<in> set fs) \<in> set (dir_entries p fs)" by (auto simp: dir_entries_iff)
    then have "n \<in> fst ` set (dir_entries p fs)" by force
    then show ?thesis using exact nf z(1) n(2) by blast
  qed
  show "must_stay base maxDepth cutoff fs0 x"
  proof (cases "q = p")
    case True
    have "x \<in> set fs0" using x(1) way by (auto simp: on_the_way_def)
    then have dir: "y = FDir" using fs_ok_unique q True p(3) fs0 by blast
    show ?thesis
    proof (cases "depth > maxDepth")
      case deep: True
      then have "has_recent cutoff fs0 p"
        using remove_if_empty_exact [OF ok(2) p(1)] below x(1) q True dir nf p(2) by (auto simp: fs2_def)
      then show ?thesis using q True dir by (simp add: must_stay_simps)
    qed (use q True dir p(2) in \<open>simp add: must_stay_simps\<close>)
  qed (use below [of x] x sub q in \<open>auto simp: strict_prefix_def\<close>)
qed

lemma cleanDir_ok:
  assumes fs0: "fs_ok fs0" and "on_the_way base maxDepth cutoff fs0 fs" and "prefix base p" and "length p = length base + depth"
    and "\<forall>x \<in> set fs0. length (fst x) < length p + fuel" and "0 < fuel"
  shows "\<exists>fs'. cleanDir fl fuel p maxDepth depth cutoff fs = Some fs' \<and> on_the_way base maxDepth cutoff fs0 fs' \<and> set fs' \<subseteq> set fs \<and>
    (fl = no_faults \<and> p \<noteq> [] \<and> (\<forall>t. (p, FFile t) \<notin> set fs0) \<longrightarrow> (\<forall>x \<in> set fs'. prefix p (fst x) \<longrightarrow> must_stay base maxDepth cutoff fs0 x))"
  using assms(2-)
proof (induction fuel arbitrary: p depth fs)
  case (Suc fuel)
  let ?W = "on_the_way base maxDepth cutoff fs0" and ?S = "must_stay base maxDepth cutoff fs0"
  have fs: "fs_ok fs" "set fs \<subseteq> set fs0" using Suc.prems(1) by (auto simp: on_the_way_def)
  show ?case
  proof (cases "fl_ReadDir fl p \<or> (p, FDir) \<notin> set fs")
    case True
    have "False" if "fl = no_faults" "p \<noteq> []" "\<forall>t. (p, FFile t) \<notin> set fs0" "x \<in> set fs" "prefix p (fst x)" for x
    proof -
      obtain q y where q: "x = (q, y)" by (cases x)
      have "(p, FDir) \<notin> set fs" using True that(1) by (simp add: no_faults_def)
      then show False using that q fs fs_okD [OF fs(1), of q y p] by (cases y) (auto simp: strict_prefix_def)
    qed
    then show ?thesis using True Suc.prems(1) by auto
  next
    case False
    have dirs: "\<exists>fs'. cleanDir fl fuel (p @ [n]) maxDepth (depth + 1) cutoff g = Some fs' \<and> ?W fs' \<and> set fs' \<subseteq> set g \<and>
        (fl = no_faults \<longrightarrow> (\<forall>x \<in> set fs'. prefix (p @ [n]) (fst x) \<longrightarrow> ?S x))" if n: "(n, True) \<in> set (dir_entries p fs)" and g: "?W g" for n g
    proof -
      have c: "(p @ [n], FDir) \<in> set fs0" using n fs(2) by (auto simp: dir_entries_iff)
      then have "\<forall>t. (p @ [n], FFile t) \<notin> set fs0" using fs_ok_unique [OF fs0 c] by blast
      moreover have "0 < fuel" using Suc.prems(4) c by fastforce
      ultimately show ?thesis using Suc.IH [OF g, of "p @ [n]" "depth + 1"] Suc.prems by (auto simp: prefix_def)
    qed
    have files: "?W (clean_file fl cutoff (p @ [n]) g) \<and> set (clean_file fl cutoff (p @ [n]) g) \<subseteq> set g \<and>
        (fl = no_faults \<longrightarrow> (\<forall>x \<in> set (clean_file fl cutoff (p @ [n]) g). prefix (p @ [n]) (fst x) \<longrightarrow> ?S x))"
      if n: "(n, False) \<in> set (dir_entries p fs)" and g: "?W g" for n g
    proof -
      obtain t where t: "(p @ [n], FFile t) \<in> set fs0" using entry_file [OF n] fs(2) by auto
      have "prefix base (p @ [n])" using Suc.prems(2) by simp
      then show ?thesis using clean_file_ok [OF g] clean_file_exact [OF g fs0 t] by blast
    qed
    obtain fs1 where fs1: "clean_entries (\<lambda>q. cleanDir fl fuel q maxDepth (depth + 1) cutoff) (clean_file fl cutoff) p (dir_entries p fs) fs = Some fs1"
        "?W fs1" "set fs1 \<subseteq> set fs"
        "fl = no_faults \<longrightarrow> (\<forall>x \<in> set fs1. \<forall>n \<in> fst ` set (dir_entries p fs). prefix (p @ [n]) (fst x) \<longrightarrow> ?S x)"
      using clean_entries_ok [of "dir_entries p fs" ?W "\<lambda>q. cleanDir fl fuel q maxDepth (depth + 1) cutoff" p "fl = no_faults" ?S
          "clean_file fl cutoff", OF dirs files Suc.prems(1)] by blast
    have "(p, FDir) \<in> set fs0" using False fs(2) by auto
    from directory_done [OF Suc.prems(1) fs1(2,3) Suc.prems(2,3) this fs0 fs1(4)] show ?thesis
      using False fs1(1) by auto
  qed
qed simp

text \<open>
  C31: \<open>cleanDir\<close> returns on every file system, whichever system calls fail: its recursion ends within
  the depth of the tree (enough fuel gives a result). Nothing outside the directory, no recent
  file, no directory down to the given depth and no directory that holds a recent file is removed; and
  when no call fails, everything else below the directory is.
\<close>

theorem cleanDir_terminates:
  assumes "fs_ok fs" and "\<forall>x \<in> set fs. length (fst x) < length p + fuel" and "0 < fuel"
  shows "\<exists>fs'. cleanDir fl fuel p maxDepth 0 cutoff fs = Some fs' \<and> fs_ok fs' \<and> set fs' \<subseteq> set fs \<and>
    (\<forall>x \<in> set fs. must_stay p maxDepth cutoff fs x \<longrightarrow> x \<in> set fs') \<and>
    (fl = no_faults \<and> p \<noteq> [] \<and> (\<forall>t. (p, FFile t) \<notin> set fs) \<longrightarrow> set fs' = {x \<in> set fs. must_stay p maxDepth cutoff fs x})"
proof -
  have "on_the_way p maxDepth cutoff fs fs" using assms(1) by (simp add: on_the_way_def)
  from cleanDir_ok [OF assms(1) this, of p 0 fuel fl] assms(2,3) obtain fs' where
    run: "cleanDir fl fuel p maxDepth 0 cutoff fs = Some fs'" and way: "on_the_way p maxDepth cutoff fs fs'"
    and exact: "fl = no_faults \<and> p \<noteq> [] \<and> (\<forall>t. (p, FFile t) \<notin> set fs) \<longrightarrow> (\<forall>x \<in> set fs'. prefix p (fst x) \<longrightarrow> must_stay p maxDepth cutoff fs x)"
    by auto
  have "set fs' = {x \<in> set fs. must_stay p maxDepth cutoff fs x}" if nf: "fl = no_faults \<and> p \<noteq> [] \<and> (\<forall>t. (p, FFile t) \<notin> set fs)"
  proof -
    have "must_stay p maxDepth cutoff fs x" if "x \<in> set fs'" for x
      using exact nf that by (cases "prefix p (fst x)") (auto simp: must_stay_def)
    then show ?thesis using way by (auto simp: on_the_way_def)
  qed
  then show ?thesis using run way unfolding on_the_way_def by blast
qed

definition sample_fs :: file_system where
  "sample_fs = [([''ftp''], FDir), ([''ftp'', ''cam''], FDir), ([''ftp'', ''cam'', ''d1''], FDir), ([''ftp'', ''cam'', ''d2''], FDir),
     ([''ftp'', ''cam'', ''d1'', ''a.jpg''], FFile 10), ([''ftp'', ''cam'', ''d2'', ''b.jpg''], FFile 99), ([''etc''], FDir)]"

lemma sample_fs_ok: "fs_ok sample_fs"
  unfolding fs_ok_def strict_prefix_def sample_fs_def by (auto simp: prefix_Cons)

theorem cleanDir_terminates_witness:
  "\<exists>fs'. cleanDir no_faults 5 [''ftp''] 1 0 50 sample_fs = Some fs' \<and> set fs' = {x \<in> set sample_fs. must_stay [''ftp''] 1 50 sample_fs x}"
proof -
  have "\<forall>x \<in> set sample_fs. length (fst x) < length [''ftp''] + 5" by (simp add: sample_fs_def)
  moreover have "\<forall>t. ([''ftp''], FFile t) \<notin> set sample_fs" by (simp add: sample_fs_def)
  ultimately show ?thesis using cleanDir_terminates [OF sample_fs_ok, of "[''ftp'']" 5 no_faults 1 50] by auto
qed

section \<open>The retention period\<close>

definition day_ns :: int where
  "day_ns = 24 * 3600000000000"

lemma cutoff_wraps: "cutoff_time now (word_of_int days) = now + signed_take_bit 63 (- days * day_ns)"
proof -
  have "- word_of_int days * 24 * 3600000000000 = (word_of_int (- days * day_ns) :: 64 word)"
    by (simp add: day_ns_def)
  moreover have "sint (word_of_int k :: 64 word) = signed_take_bit 63 k" for k by transfer simp
  ultimately show ?thesis unfolding cutoff_time_def by metis
qed

lemma cutoff_exact: "0 \<le> days \<Longrightarrow> days \<le> 106751 \<Longrightarrow> cutoff_time now (word_of_int days) = now - days * day_ns"
  by (simp add: cutoff_wraps signed_take_bit_int_eq_self day_ns_def)

lemma cutoff_overflow:
  assumes "106752 \<le> days" and "days \<le> 213503"
  shows "now < cutoff_time now (word_of_int days)"
proof -
  have "signed_take_bit 63 (- days * day_ns) = signed_take_bit 63 (- days * day_ns + 2 ^ 64)"
    by (simp add: signed_take_bit_eq_iff_take_bit_eq take_bit_eq_mod)
  also have "\<dots> = - days * day_ns + 2 ^ 64" using assms by (intro signed_take_bit_int_eq_self) (simp_all add: day_ns_def)
  finally show ?thesis using assms by (simp add: cutoff_wraps day_ns_def)
qed

lemma clean_ftp_keeps:
  assumes "fs_ok fs" and "\<forall>x \<in> set fs. length (fst x) < fuel" and "0 < fuel"
  shows "\<exists>fs'. clean_ftp fl fuel now ftp (fs, db) = (Inr (), (fs', db)) \<and> fs_ok fs' \<and> set fs' \<subseteq> set fs \<and>
    (\<forall>p t. (p, FFile t) \<in> set fs \<and> (prefix (ftp_Path ftp) p \<longrightarrow> cutoff_time now (ftp_HoldDays ftp) \<le> t) \<longrightarrow> (p, FFile t) \<in> set fs')"
proof -
  have way: "on_the_way (ftp_Path ftp) 1 (cutoff_time now (ftp_HoldDays ftp)) fs fs" using assms(1) by (simp add: on_the_way_def)
  have "\<forall>x \<in> set fs. length (fst x) < length (ftp_Path ftp) + fuel" using assms(2) by fastforce
  from cleanDir_ok [OF assms(1) way _ _ this assms(3), of 0 fl] obtain fs' where
    "cleanDir fl fuel (ftp_Path ftp) 1 0 (cutoff_time now (ftp_HoldDays ftp)) fs = Some fs'"
    "on_the_way (ftp_Path ftp) 1 (cutoff_time now (ftp_HoldDays ftp)) fs fs'" by auto
  then show ?thesis by (auto simp: clean_ftp_def on_the_way_def must_stay_simps)
qed

lemma clean_ftps_keep:
  assumes "fs_ok fs" and "\<forall>x \<in> set fs. length (fst x) < fuel" and "0 < fuel"
    and "(p, FFile t) \<in> set fs" and "\<forall>ftp \<in> set vs. prefix (ftp_Path ftp) p \<longrightarrow> cutoff_time now (ftp_HoldDays ftp) \<le> t"
  shows "\<exists>fs'. forE (clean_ftp fl fuel now) vs (fs, db) = (Inr (), (fs', db)) \<and> (p, FFile t) \<in> set fs'"
  using assms
proof (induction vs arbitrary: fs)
  case (Cons v vs)
  from clean_ftp_keeps [OF Cons.prems(1-3)] obtain fs1 where
    one: "clean_ftp fl fuel now v (fs, db) = (Inr (), (fs1, db))" "fs_ok fs1" "set fs1 \<subseteq> set fs"
    and kept: "\<forall>p t. (p, FFile t) \<in> set fs \<and> (prefix (ftp_Path v) p \<longrightarrow> cutoff_time now (ftp_HoldDays v) \<le> t) \<longrightarrow> (p, FFile t) \<in> set fs1" by blast
  have "\<forall>x \<in> set fs1. length (fst x) < fuel" using one(3) Cons.prems(2) by blast
  moreover have "(p, FFile t) \<in> set fs1" using kept Cons.prems(4,5) by simp
  ultimately obtain fs' where "forE (clean_ftp fl fuel now) vs (fs1, db) = (Inr (), (fs', db))" "(p, FFile t) \<in> set fs'"
    using Cons.IH [OF one(2) _ Cons.prems(3)] Cons.prems(5) by auto
  then show ?case using one(1) by (auto simp: bindE_def)
qed (simp add: retE_def)

lemma check_space_state: "snd (forE (check_space statfs) vs st) = st"
  by (induction vs) (auto simp: check_space_def bindE_def retE_def throwE_def split: sum.split)

lemma valid_ftps_hold: "valid_ftps ftps = Inr vs \<Longrightarrow> ftp \<in> set vs \<Longrightarrow> 3 \<le> sint (ftp_HoldDays ftp)"
  by (induction ftps arbitrary: vs) (auto simp: CheckFtpConfig_def split: sum.splits if_splits)

text \<open>
  C35: The cleaning job keeps what the configuration promises to keep, as long as the hold times are
  at most 106751 days: whichever system calls fail, a file that was modified within the hold time of
  every FTP directory above it is still there after the job. From 106752 to 213503 days the product of days and
  nanoseconds overflows to a negative number and the cutoff lies in the future: every file of the past counts as outdated.
\<close>

theorem retention_window:
  assumes fs: "fs_ok fs" "\<forall>x \<in> set fs. length (fst x) < fuel" "0 < fuel"
    and vs: "valid_ftps ftps = Inr vs" "\<forall>ftp \<in> set vs. sint (ftp_HoldDays ftp) \<le> 106751"
    and recent: "(p, FFile t) \<in> set fs" "\<forall>ftp \<in> set vs. prefix (ftp_Path ftp) p \<longrightarrow> now - sint (ftp_HoldDays ftp) * day_ns \<le> t"
  shows "(p, FFile t) \<in> set (fst (snd (scheduleRemoveOutdatedData fl statfs fuel now dbHoldDays ftps (fs, db)))) \<and>
    (106752 \<le> d \<and> d \<le> 213503 \<longrightarrow> now < cutoff_time now (word_of_int d))"
proof -
  have "cutoff_time now (ftp_HoldDays ftp) = now - sint (ftp_HoldDays ftp) * day_ns" if "ftp \<in> set vs" for ftp
    using cutoff_exact [of "sint (ftp_HoldDays ftp)" now] valid_ftps_hold [OF vs(1) that] vs(2) that by simp
  with recent(2) have "\<forall>ftp \<in> set vs. prefix (ftp_Path ftp) p \<longrightarrow> cutoff_time now (ftp_HoldDays ftp) \<le> t" by simp
  from clean_ftps_keep [OF fs recent(1) this] obtain fs' where
    run: "forE (clean_ftp fl fuel now) vs (fs, db) = (Inr (), (fs', db))" and kept: "(p, FFile t) \<in> set fs'" by blast
  have "fst (snd (scheduleRemoveOutdatedData fl statfs fuel now dbHoldDays ftps (fs, db))) = fs'"
    using check_space_state [of statfs vs "(fs', db)"] run vs(1)
    by (auto simp: scheduleRemoveOutdatedData_def removeOutdatedDataJob_def liftR_def bindE_def sndE_def split: prod.splits sum.splits)
  then show ?thesis using kept cutoff_overflow by simp
qed

theorem retention_window_witness:
  "([''ftp'', ''cam'', ''d2'', ''b.jpg''], FFile 99) \<in> set (fst (snd (scheduleRemoveOutdatedData no_faults (\<lambda>_. Inr (1, 0)) 5
     (50 + 3 * day_ns) 90 [\<lparr>ftp_Path = [], ftp_HoldDays = 0\<rparr>, \<lparr>ftp_Path = [''ftp''], ftp_HoldDays = 3\<rparr>] (sample_fs, empty_client_db))))"
  using retention_window [OF sample_fs_ok, of 5 "[\<lparr>ftp_Path = [], ftp_HoldDays = 0\<rparr>, \<lparr>ftp_Path = [''ftp''], ftp_HoldDays = 3\<rparr>]"
      "[\<lparr>ftp_Path = [''ftp''], ftp_HoldDays = 3\<rparr>]" "[''ftp'', ''cam'', ''d2'', ''b.jpg'']" 99 "50 + 3 * day_ns" no_faults "\<lambda>_. Inr (1, 0)"
      90 empty_client_db 0]
  by (simp add: CheckFtpConfig_def sample_fs_def day_ns_def)

end
