(* ===== verification/DeviceBus.thy ===== *)
theory DeviceBus
  imports GoStrconv
begin

text \<open>
  The shared bus of a station's sensors (\<^verbatim>\<open>tide_client/connWrap/bus.go\<close>, \<^verbatim>\<open>error.go\<close>) and the request
  and response protocols on it: \<^verbatim>\<open>protocol/textline\<close>, \<^verbatim>\<open>protocol/sdi12\<close> and \<^verbatim>\<open>protocol/arduino\<close>.

  A session holds the bus lock for a whole exchange, so an exchange is one transition of the bus. What
  the line delivers is an input: the bytes that arrive until a read fails, and that failure (a
  time-out, an I/O error, end of file). The protocols return at the first failing read, so nothing
  after it matters. \<^verbatim>\<open>strconv.ParseFloat\<close> is an argument, since its result is rounded; the token that
  \<^verbatim>\<open>fmt.Fscan\<close> hands to it is computed here.
\<close>

section \<open>The bus\<close>

record bus =
  bus_in :: string
  bus_fail :: go_error
  bus_writes :: "string list"
  bus_write_fails :: "go_error option list"

definition ErrTimeout :: go_error where "ErrTimeout = ErrorString ''timeout''"

text \<open>\<^verbatim>\<open>connWrap.Error\<close> by its type; \<^verbatim>\<open>Unwrap\<close> gives the cause.\<close>

definition ErrIO :: "go_error \<Rightarrow> go_error" where "ErrIO e = Wrapped ''ErrIO'' e"
definition ErrParse :: "go_error \<Rightarrow> go_error" where "ErrParse e = Wrapped ''ErrParse'' e"

text \<open>\<open>Bus.Write\<close>: \<^verbatim>\<open>ResetInputBuffer\<close> and then the write; \<open>bus_write_fails\<close> is their outcome.\<close>

definition bus_Write :: "string \<Rightarrow> (bus, unit) eff" where
  "bus_Write input b =
     (case bus_write_fails b of
        Some e # rest \<Rightarrow> (Inl e, b\<lparr>bus_write_fails := rest\<rparr>)
      | fs \<Rightarrow> (Inr (), b\<lparr>bus_writes := bus_writes b @ [input], bus_write_fails := tl fs\<rparr>))"

definition map_error :: "(go_error \<Rightarrow> go_error) \<Rightarrow> ('s, 'a) eff \<Rightarrow> ('s, 'a) eff" where
  "map_error f m s = (case m s of (Inl e, s') \<Rightarrow> (Inl (f e), s') | (Inr a, s') \<Rightarrow> (Inr a, s'))"

text \<open>The next byte, without taking it (\<^verbatim>\<open>bufio.Reader.Peek(1)\<close>), and taking \<open>n\<close> bytes.\<close>

definition peek_byte :: "(bus, char) eff" where
  "peek_byte b = (case bus_in b of [] \<Rightarrow> (Inl (bus_fail b), b) | c # _ \<Rightarrow> (Inr c, b))"

definition discard :: "nat \<Rightarrow> (bus, unit) eff" where
  "discard n b =
     (if n \<le> length (bus_in b) then (Inr (), b\<lparr>bus_in := drop n (bus_in b)\<rparr>)
      else (Inl (bus_fail b), b\<lparr>bus_in := []\<rparr>))"

section \<open>Lines of text (\<open>protocol/textline\<close>)\<close>

text \<open>\<^verbatim>\<open>ReadString('\n')\<close>: the bytes up to the delimiter, or all of them with the error.\<close>

definition read_line :: "(bus, string) eff" where
  "read_line b =
     (case dropWhile (\<lambda>c. c \<noteq> CHR 0x0A) (bus_in b) of
        [] \<Rightarrow> (Inl (bus_fail b), b\<lparr>bus_in := []\<rparr>)
      | _ # rest \<Rightarrow> (Inr (takeWhile (\<lambda>c. c \<noteq> CHR 0x0A) (bus_in b) @ [CHR 0x0A]), b\<lparr>bus_in := rest\<rparr>))"

definition ReadLine :: "string \<Rightarrow> (bus, string) eff" where
  "ReadLine input = bindE (bus_Write input) (\<lambda>_. read_line)"

definition CustomCommand :: "string \<Rightarrow> (bus, string) eff" where
  "CustomCommand input = bindE (bus_Write input) (\<lambda>_ b.
     (if errors_is (bus_fail b) ErrTimeout \<and> bus_in b \<noteq> [] then Inr (bus_in b) else Inl (bus_fail b), b\<lparr>bus_in := []\<rparr>))"

section \<open>Scanning (\<open>fmt.Fscan\<close>, \<open>fmt.Fscanf\<close>)\<close>

text \<open>
  One rune, \<open>None\<close> at the end of file; another read error fails the scan. Skipping and accepting
  runs of runes look one rune ahead.
\<close>

definition getRune :: "(bus, char option) eff" where
  "getRune b =
     (case bus_in b of
        [] \<Rightarrow> (if bus_fail b = io_EOF then Inr None else Inl (bus_fail b), b)
      | c # rest \<Rightarrow> (Inr (Some c), b\<lparr>bus_in := rest\<rparr>))"

definition accept :: "string \<Rightarrow> (string \<times> bus, bool) eff" where
  "accept cs x =
     (case bus_in (snd x) of
        [] \<Rightarrow> (if bus_fail (snd x) = io_EOF then Inr False else Inl (bus_fail (snd x)), x)
      | c # rest \<Rightarrow> if c \<in> set cs then (Inr True, (fst x @ [c], (snd x)\<lparr>bus_in := rest\<rparr>)) else (Inr False, x))"

definition accept_run :: "string \<Rightarrow> (string \<times> bus, unit) eff" where
  "accept_run cs x =
     (let run = takeWhile (\<lambda>c. c \<in> set cs) (bus_in (snd x)); rest = dropWhile (\<lambda>c. c \<in> set cs) (bus_in (snd x)) in
      (if rest = [] \<and> bus_fail (snd x) \<noteq> io_EOF then Inl (bus_fail (snd x)) else Inr (), (fst x @ run, (snd x)\<lparr>bus_in := rest\<rparr>)))"

definition both :: "(string \<times> bus, bool) eff \<Rightarrow> (string \<times> bus, bool) eff \<Rightarrow> (string \<times> bus, bool) eff" where
  "both m n = bindE m (\<lambda>b. if b then n else retE False)"

text \<open>The token of a float (\<^verbatim>\<open>ss.floatToken\<close>).\<close>

definition float_digits :: "(string \<times> bus, unit) eff" where
  "float_digits =
     bindE (both (accept ''0'') (accept ''xX'')) (\<lambda>hex.
     let ds = (if hex then ''0123456789aAbBcCdDeEfF_'' else ''0123456789_''); ex = (if hex then ''pP'' else ''eEpP'') in
     bindE (accept_run ds) (\<lambda>_.
     bindE (accept ''.'') (\<lambda>dot.
     bindE (if dot then accept_run ds else retE ()) (\<lambda>_.
     bindE (accept ex) (\<lambda>expo.
       if expo then bindE (accept ''+-'') (\<lambda>_. accept_run ''0123456789_'') else retE ())))))"

definition floatToken :: "(string \<times> bus, unit) eff" where
  "floatToken =
     bindE (both (both (accept ''nN'') (accept ''aA'')) (accept ''nN'')) (\<lambda>nan.
     if nan then retE ()
     else bindE (accept ''+-'') (\<lambda>_.
       bindE (both (both (accept ''iI'') (accept ''nN'')) (accept ''fF'')) (\<lambda>inf.
         if inf then retE () else float_digits)))"

definition skip_spaces :: "(bus, unit) eff" where
  "skip_spaces b =
     (let rest = dropWhile is_space (bus_in b) in
      (if rest = [] then Inl (if bus_fail b = io_EOF then ErrorString ''unexpected EOF'' else bus_fail b) else Inr (),
       b\<lparr>bus_in := rest\<rparr>))"

text \<open>\<^verbatim>\<open>fmt.Fscan(reader, &f)\<close>.\<close>

definition scan_float :: "(string \<Rightarrow> float64 result) \<Rightarrow> (bus, float64) eff" where
  "scan_float parseFloat =
     bindE skip_spaces (\<lambda>_ b.
       case floatToken ([], b) of
         (Inl e, (_, b')) \<Rightarrow> (Inl e, b')
       | (Inr _, (token, b')) \<Rightarrow> (parseFloat token, b'))"

text \<open>
  \<^verbatim>\<open>fmt.Fscanf(bus, format)\<close> for a format without verbs (\<^verbatim>\<open>ss.advance\<close>): a newline of the format, with
  the spaces before it, matches spaces and a newline or the end of the input; another byte matches itself.
\<close>

fun skip_to_newline :: "string \<Rightarrow> string option" where
  "skip_to_newline [] = None"
| "skip_to_newline (c # rest) = (if c = CHR 0x0A then Some rest else if is_space c then skip_to_newline rest else None)"

definition match_newline :: "(bus, unit) eff" where
  "match_newline b =
     (case skip_to_newline (bus_in b) of
        Some rest \<Rightarrow> (Inr (), b\<lparr>bus_in := rest\<rparr>)
      | None \<Rightarrow>
          if list_all is_space (bus_in b) then (if bus_fail b = io_EOF then Inr () else Inl (bus_fail b), b\<lparr>bus_in := []\<rparr>)
          else (Inl (ErrorString ''newline in format does not match input''), b))"

fun match_format :: "string \<Rightarrow> (bus, unit) eff" where
  "match_format [] = retE ()"
| "match_format (c # fs) =
     (if c = CHR 0x0D \<and> HasPrefix fs [CHR 0x0A] then match_format fs
      else if c = CHR 0x0A then bindE match_newline (\<lambda>_. match_format fs)
      else bindE getRune (\<lambda>r.
        case r of
          None \<Rightarrow> throwE (ErrorString ''unexpected EOF'')
        | Some d \<Rightarrow> if c = d then match_format fs else throwE (ErrorString ''input does not match format'')))"

section \<open>SDI-12 (\<open>protocol/sdi12\<close>)\<close>

datatype mode = ModeNative | ModeArduino

definition command :: "mode \<Rightarrow> char \<Rightarrow> string \<Rightarrow> string" where
  "command m extraWakeTime cmd = (case m of ModeNative \<Rightarrow> cmd | ModeArduino \<Rightarrow> cmd @ [extraWakeTime, CHR 0xFF])"

definition ConcurrentMeasurement :: "mode \<Rightarrow> string \<Rightarrow> char \<Rightarrow> string \<Rightarrow> (bus, unit) eff" where
  "ConcurrentMeasurement m addr extraWakeTime output =
     bindE (map_error ErrIO (bus_Write (command m extraWakeTime (addr @ ''C!'')))) (\<lambda>_.
       map_error ErrParse (match_format output))"

definition wrong_number :: go_error where "wrong_number = ErrorString ''wrong number of data''"

text \<open>
  The values of one response, up to the carriage return. The loop ends because every pass takes at
  least one byte of what the line delivers; \<open>fuel\<close> is one more than the bytes there are.
\<close>

fun response_values :: "(string \<Rightarrow> float64 result) \<Rightarrow> nat \<Rightarrow> float64 list \<Rightarrow> (bus, float64 list) eff" where
  "response_values parseFloat 0 values = throwE (ErrorString ''out of fuel'')"
| "response_values parseFloat (Suc fuel) values =
     bindE (map_error ErrIO peek_byte) (\<lambda>c.
       if c = CHR 0x0D then
         bindE (map_error ErrIO (discard 2)) (\<lambda>_.
           if values = [] then throwE (ErrIO wrong_number) else retE values)
       else bindE (map_error ErrParse (scan_float parseFloat)) (\<lambda>f.
         response_values parseFloat fuel (values @ [f])))"

definition get_response :: "(string \<Rightarrow> float64 result) \<Rightarrow> mode \<Rightarrow> string \<Rightarrow> char \<Rightarrow> nat \<Rightarrow> (bus, float64 list) eff" where
  "get_response parseFloat m addr extraWakeTime cmdNumber =
     bindE (map_error ErrIO (bus_Write (command m extraWakeTime (addr @ ''D'' @ decimal cmdNumber @ ''!'')))) (\<lambda>_.
     bindE (map_error ErrIO (discard 1)) (\<lambda>_ b.
       response_values parseFloat (Suc (length (bus_in b))) [] b))"

function get_data_loop ::
  "(string \<Rightarrow> float64 result) \<Rightarrow> mode \<Rightarrow> string \<Rightarrow> char \<Rightarrow> nat \<Rightarrow> nat \<Rightarrow> float64 list \<Rightarrow> (bus, float64 list) eff" where
  "get_data_loop parseFloat m addr extraWakeTime resultsExpected cmdNumber values =
     (if length values < resultsExpected \<and> cmdNumber \<le> 9 then
        bindE (get_response parseFloat m addr extraWakeTime cmdNumber) (\<lambda>vs.
          get_data_loop parseFloat m addr extraWakeTime resultsExpected (cmdNumber + 1) (values @ vs))
      else retE values)"
  by pat_completeness auto
termination by (relation "measure (\<lambda>(_, _, _, _, _, n, _). 10 - n)") auto

declare get_data_loop.simps [simp del]

definition GetData ::
  "(string \<Rightarrow> float64 result) \<Rightarrow> mode \<Rightarrow> string \<Rightarrow> char \<Rightarrow> nat \<Rightarrow> (bus, float64 list) eff" where
  "GetData parseFloat m addr extraWakeTime resultsExpected =
     bindE (get_data_loop parseFloat m addr extraWakeTime resultsExpected 0 []) (\<lambda>values.
       if length values \<noteq> resultsExpected then throwE (ErrParse wrong_number) else retE values)"

section \<open>The Arduino board (\<open>protocol/arduino\<close>)\<close>

text \<open>\<^verbatim>\<open>fmt.Fscanf(bus, "%d\r\n", &val)\<close>: the integer token and the end of the line; a newline before it is an error.\<close>

definition skip_blanks :: "(bus, unit) eff" where
  "skip_blanks b =
     (let rest = dropWhile (\<lambda>c. is_space c \<and> c \<noteq> CHR 0x0A) (bus_in b) in
      (if rest = [] then Inl (if bus_fail b = io_EOF then ErrorString ''unexpected EOF'' else bus_fail b)
       else if hd rest = CHR 0x0A then Inl (ErrorString ''unexpected newline'') else Inr (),
       b\<lparr>bus_in := rest\<rparr>))"

definition scan_int :: "(bus, int) eff" where
  "scan_int =
     bindE skip_blanks (\<lambda>_ b.
       case bindE (accept ''+-'') (\<lambda>_. accept_run ''0123456789'') ([], b) of
         (Inl e, (_, b')) \<Rightarrow> (Inl e, b')
       | (Inr _, (token, b')) \<Rightarrow> (case Atoi token of Inl e \<Rightarrow> (Inl e, b') | Inr v \<Rightarrow> (Inr v, b')))"

definition AnalogRead :: "char \<Rightarrow> (bus, int) eff" where
  "AnalogRead pin =
     bindE (map_error ErrIO (bus_Write [pin, CHR 0xFF])) (\<lambda>_.
     bindE (map_error ErrParse scan_int) (\<lambda>v.
     bindE (map_error ErrParse (match_format [CHR 0x0D, CHR 0x0A])) (\<lambda>_. retE v)))"

section \<open>What a scan takes\<close>

text \<open>A scan takes its token from the front of the input and leaves the rest of the bus alone.\<close>

definition scans :: "(string \<times> bus, 'a) eff \<Rightarrow> bool" where
  "scans m \<longleftrightarrow> (\<forall>x. \<exists>u. fst (snd (m x)) = fst x @ u \<and> bus_in (snd x) = u @ bus_in (snd (snd (m x))) \<and>
     snd (snd (m x)) = (snd x)\<lparr>bus_in := bus_in (snd (snd (m x)))\<rparr>)"

lemma scans_ret: "scans (retE a)"
  by (simp add: scans_def retE_def)

lemma scans_accept: "scans (accept cs)"
  unfolding scans_def accept_def by (auto split: list.split)

lemma scans_accept_run: "scans (accept_run cs)"
  by (simp add: scans_def accept_run_def Let_def)

lemma scans_bind:
  assumes "scans m" and "\<And>a. scans (f a)"
  shows "scans (bindE m f)"
  unfolding scans_def
proof
  fix x
  obtain r y where m: "m x = (r, y)" by (cases "m x")
  with assms(1) obtain u where u: "fst y = fst x @ u" "bus_in (snd x) = u @ bus_in (snd y)" "snd y = (snd x)\<lparr>bus_in := bus_in (snd y)\<rparr>"
    unfolding scans_def by (metis snd_conv)
  show "\<exists>u. fst (snd (bindE m f x)) = fst x @ u \<and> bus_in (snd x) = u @ bus_in (snd (snd (bindE m f x))) \<and>
     snd (snd (bindE m f x)) = (snd x)\<lparr>bus_in := bus_in (snd (snd (bindE m f x)))\<rparr>"
  proof (cases r)
    case (Inl e)
    with m u show ?thesis by (auto simp: bindE_def)
  next
    case (Inr a)
    from assms(2) [of a] obtain v where v: "fst (snd (f a y)) = fst y @ v" "bus_in (snd y) = v @ bus_in (snd (snd (f a y)))"
      "snd (snd (f a y)) = (snd y)\<lparr>bus_in := bus_in (snd (snd (f a y)))\<rparr>" unfolding scans_def by metis
    have "snd (snd (f a y)) = (snd x)\<lparr>bus_in := bus_in (snd (snd (f a y)))\<rparr>"
      using u(3) v(3) by (metis bus.surjective bus.update_convs(1))
    then show ?thesis using m Inr u v by (intro exI [of _ "u @ v"]) (simp add: bindE_def)
  qed
qed

lemma scans_if: "scans m \<Longrightarrow> scans n \<Longrightarrow> scans (if c then m else n)"
  by simp

lemmas scans_rules = scans_bind scans_ret scans_accept scans_accept_run scans_if

lemma scans_both: "scans m \<Longrightarrow> scans n \<Longrightarrow> scans (both m n)"
  unfolding both_def by (intro scans_rules)

lemma scans_floatToken: "scans floatToken"
proof -
  have "scans float_digits"
    unfolding float_digits_def Let_def by (intro scans_rules scans_both)
  then show ?thesis
    unfolding floatToken_def by (intro scans_rules scans_both) (auto intro!: scans_rules scans_both)
qed

text \<open>A number that was scanned took at least one byte, since an empty token does not parse.\<close>

lemma scan_float_takes:
  assumes "\<not> isOk (parseFloat [])" and "scan_float parseFloat b = (Inr f, b')"
  shows "length (bus_in b') < length (bus_in b) \<and> b' = b\<lparr>bus_in := bus_in b'\<rparr>"
proof -
  let ?b1 = "b\<lparr>bus_in := dropWhile is_space (bus_in b)\<rparr>"
  obtain r t where tok: "floatToken ([], ?b1) = (r, (t, b'))" and r: "isOk r" "parseFloat t = Inr f"
    using assms(2) unfolding scan_float_def bindE_def skip_spaces_def Let_def by (auto split: if_splits prod.splits sum.splits)
  from scans_floatToken tok have u: "bus_in ?b1 = t @ bus_in b'" "b' = ?b1\<lparr>bus_in := bus_in b'\<rparr>"
    unfolding scans_def by (metis append_self_conv2 fst_conv snd_conv)+
  have "t \<noteq> []" using assms(1) r(2) by auto
  then have "length (bus_in b') < length (dropWhile is_space (bus_in b))" using u(1) by (cases t) auto
  also have "\<dots> \<le> length (bus_in b)" by (simp add: length_dropWhile_le)
  finally show ?thesis using u(2) by simp
qed

section \<open>Responses of an SDI-12 sensor\<close>

lemma response_values_fuel:
  assumes "\<not> isOk (parseFloat [])" and "length (bus_in b) < fuel"
  shows "response_values parseFloat (fuel + k) vs b = response_values parseFloat fuel vs b"
  using assms(2)
proof (induction fuel arbitrary: vs b)
  case (Suc fuel)
  have "response_values parseFloat (fuel + k) ws b' = response_values parseFloat fuel ws b'"
    if "scan_float parseFloat b = (Inr f, b')" for ws f b'
    using Suc.IH [of b' ws] scan_float_takes [OF assms(1) that] Suc.prems by simp
  then show ?case
    by (auto simp: bindE_def map_error_def peek_byte_def split: list.split prod.splits sum.splits)
qed simp

text \<open>A value as SDI-12 sends it: a sign, digits, and digits after a point.\<close>

definition is_digit :: "char \<Rightarrow> bool" where
  "is_digit c \<longleftrightarrow> c \<in> set ''0123456789''"

definition sdi_token :: "string \<Rightarrow> bool" where
  "sdi_token t \<longleftrightarrow> (\<exists>sg ds fr. t = sg # ds @ fr \<and> sg \<in> set ''+-'' \<and> ds \<noteq> [] \<and> list_all is_digit ds \<and>
     (fr = [] \<or> (\<exists>fs. fr = CHR ''.'' # fs \<and> list_all is_digit fs)))"

definition ends_token :: "string \<Rightarrow> bool" where
  "ends_token r \<longleftrightarrow> (\<exists>q r'. r = q # r' \<and> q \<in> set [CHR ''+'', CHR ''-'', CHR 0x0D])"

lemma digit_run:
  assumes "list_all is_digit ds" and "r \<noteq> []" and "hd r \<notin> set ''0123456789_''"
  shows "accept_run ''0123456789_'' (t, b\<lparr>bus_in := ds @ r\<rparr>) = (Inr (), (t @ ds, b\<lparr>bus_in := r\<rparr>))"
proof -
  have "takeWhile (\<lambda>c. c \<in> set ''0123456789_'') (ds @ r) = ds" "dropWhile (\<lambda>c. c \<in> set ''0123456789_'') (ds @ r) = r"
    using assms by (induction ds) (auto simp: is_digit_def takeWhile_eq_Nil_iff neq_Nil_conv)
  then show ?thesis using assms(2) by (simp add: accept_run_def Let_def)
qed

lemma accept_head: "accept cs (t, b\<lparr>bus_in := c # r\<rparr>) =
   (if c \<in> set cs then (Inr True, (t @ [c], b\<lparr>bus_in := r\<rparr>)) else (Inr False, (t, b\<lparr>bus_in := c # r\<rparr>)))"
  by (simp add: accept_def)

lemma leading_zero:
  assumes "list_all is_digit ds" and "ds \<noteq> []" and "r \<noteq> []" and "hd r \<notin> set ''xX''"
  shows "\<exists>z ds'. ds = z @ ds' \<and> both (accept ''0'') (accept ''xX'') (t, b\<lparr>bus_in := ds @ r\<rparr>) = (Inr False, (t @ z, b\<lparr>bus_in := ds' @ r\<rparr>))"
proof -
  obtain d ds1 where d: "ds = d # ds1" using assms(2) by (cases ds) auto
  show ?thesis
  proof (cases "d = CHR ''0''")
    case True
    obtain c rest where c: "ds1 @ r = c # rest" "c \<notin> set ''xX''"
      using assms d by (cases ds1) (auto simp: is_digit_def neq_Nil_conv)
    then show ?thesis using d True
      by (intro exI [of _ "[d]"] exI [of _ ds1]) (auto simp: both_def bindE_def accept_head simp flip: append.assoc)
  next
    case False
    then show ?thesis using d by (intro exI [of _ "[]"] exI [of _ ds]) (auto simp: both_def bindE_def accept_head retE_def)
  qed
qed

lemma float_digits_sdi:
  assumes ds: "list_all is_digit ds" "ds \<noteq> []" and fr: "fr = [] \<or> (\<exists>fs. fr = CHR ''.'' # fs \<and> list_all is_digit fs)" and r: "ends_token r"
  shows "float_digits (t, b\<lparr>bus_in := ds @ fr @ r\<rparr>) = (Inr (), (t @ ds @ fr, b\<lparr>bus_in := r\<rparr>))"
proof -
  from r obtain q r' where q: "r = q # r'" "q \<notin> set ''0123456789_''" "q \<notin> set ''xX''" "q \<noteq> CHR ''.''" "q \<notin> set ''eEpP''"
    by (auto simp: ends_token_def)
  then have tail: "fr @ r \<noteq> []" "hd (fr @ r) \<notin> set ''xX''" "hd (fr @ r) \<notin> set ''0123456789_''" using fr by auto
  from leading_zero [OF ds tail(1,2), of t b] obtain z ds' where z: "ds = z @ ds'"
    "both (accept ''0'') (accept ''xX'') (t, b\<lparr>bus_in := ds @ fr @ r\<rparr>) = (Inr False, (t @ z, b\<lparr>bus_in := ds' @ fr @ r\<rparr>))" by blast
  have run: "accept_run ''0123456789_'' (t @ z, b\<lparr>bus_in := ds' @ fr @ r\<rparr>) = (Inr (), (t @ ds, b\<lparr>bus_in := fr @ r\<rparr>))"
    using digit_run [OF _ tail(1,3), of ds' "t @ z" b] ds(1) z(1) by simp
  have last: "accept ''eEpP'' (t1, b\<lparr>bus_in := r\<rparr>) = (Inr False, (t1, b\<lparr>bus_in := r\<rparr>))" for t1
    using q by (simp add: accept_head)
  show ?thesis
  proof (cases fr)
    case Nil
    then show ?thesis using z(2) run last q
      by (simp add: float_digits_def Let_def bindE_Inr accept_head retE_def)
  next
    case (Cons c fs)
    then have c: "c = CHR ''.''" "list_all is_digit fs" using fr by auto
    have "accept_run ''0123456789_'' (t @ ds @ ''.'', b\<lparr>bus_in := fs @ r\<rparr>) = (Inr (), (t @ ds @ fr, b\<lparr>bus_in := r\<rparr>))"
      using digit_run [OF c(2), of r "t @ ds @ ''.''" b] q Cons c(1) by simp
    then show ?thesis using z(2) run last q Cons c(1)
      by (simp add: float_digits_def Let_def bindE_Inr accept_head retE_def)
  qed
qed

lemma scan_float_sdi:
  assumes t: "sdi_token t" "parseFloat t = Inr v" and r: "ends_token r" and b: "bus_in b = t @ r"
  shows "scan_float parseFloat b = (Inr v, b\<lparr>bus_in := r\<rparr>)"
proof -
  from t(1) obtain sg ds fr where tk: "t = sg # ds @ fr" "sg \<in> set ''+-''" and ds: "list_all is_digit ds" "ds \<noteq> []"
    and fr: "fr = [] \<or> (\<exists>fs. fr = CHR ''.'' # fs \<and> list_all is_digit fs)" unfolding sdi_token_def by blast
  obtain d ds1 where d: "ds = d # ds1" "d \<notin> set ''iI''" using ds by (cases ds) (auto simp: is_digit_def)
  have b': "b = b\<lparr>bus_in := sg # ds @ fr @ r\<rparr>" using b tk(1) by simp
  have "floatToken ([], b\<lparr>bus_in := sg # ds @ fr @ r\<rparr>) = (Inr (), (t, b\<lparr>bus_in := r\<rparr>))"
    using tk float_digits_sdi [OF ds fr r, of "[sg]" b] d
    by (auto simp: floatToken_def both_def bindE_def accept_head retE_def)
  moreover have "skip_spaces b = (Inr (), b)"
    using b tk by (auto simp: skip_spaces_def is_space_def)
  ultimately show ?thesis using t(2) b' by (simp add: scan_float_def bindE_def)
qed

lemma token_ends:
  assumes "\<forall>t \<in> set ts. sdi_token t"
  shows "ends_token (concat ts @ CHR 0x0D # rest)"
proof (cases ts)
  case Nil
  then show ?thesis by (simp add: ends_token_def)
next
  case (Cons t ts')
  then obtain sg ds where "t = sg # ds" "sg \<in> set ''+-''" using assms by (auto simp: sdi_token_def)
  then show ?thesis using Cons by (auto simp: ends_token_def)
qed

lemma response_decodes:
  assumes "\<forall>t \<in> set ts. sdi_token t \<and> parseFloat t = Inr (val t)" and "bus_in b = concat ts @ CHR 0x0D # CHR 0x0A # rest"
    and "length ts < fuel" and "vs \<noteq> [] \<or> ts \<noteq> []"
  shows "response_values parseFloat fuel vs b = (Inr (vs @ map val ts), b\<lparr>bus_in := rest\<rparr>)"
  using assms
proof (induction ts arbitrary: vs b fuel)
  case Nil
  then show ?case by (cases fuel) (auto simp: bindE_def map_error_def peek_byte_def discard_def retE_def)
next
  case (Cons t ts)
  let ?r = "concat ts @ CHR 0x0D # CHR 0x0A # rest"
  obtain f where f: "fuel = Suc f" using Cons.prems(3) by (cases fuel) auto
  have "scan_float parseFloat b = (Inr (val t), b\<lparr>bus_in := ?r\<rparr>)"
    using scan_float_sdi [of t parseFloat "val t" ?r b] token_ends [of ts "CHR 0x0A # rest"] Cons.prems(1,2) by auto
  moreover have "response_values parseFloat f (vs @ [val t]) (b\<lparr>bus_in := ?r\<rparr>) = (Inr (vs @ map val (t # ts)), b\<lparr>bus_in := rest\<rparr>)"
    using Cons.IH [of "b\<lparr>bus_in := ?r\<rparr>" f "vs @ [val t]"] Cons.prems(1,3) f by simp
  moreover have "\<exists>c cs. bus_in b = c # cs \<and> c \<noteq> CHR 0x0D"
    using Cons.prems(1,2) by (auto simp: sdi_token_def)
  ultimately show ?case using f by (auto simp: bindE_def map_error_def peek_byte_def)
qed

definition response :: "char \<Rightarrow> string list \<Rightarrow> string" where
  "response a ts = a # concat ts @ [CHR 0x0D, CHR 0x0A]"

definition data_command :: "mode \<Rightarrow> string \<Rightarrow> char \<Rightarrow> nat \<Rightarrow> string" where
  "data_command m addr w n = command m w (addr @ ''D'' @ decimal n @ ''!'')"

lemma get_response_decodes:
  assumes ts: "\<forall>t \<in> set ts. sdi_token t \<and> parseFloat t = Inr (val t)" "ts \<noteq> []"
    and b: "bus_in b = response a ts @ rest" "bus_write_fails b = []"
  shows "get_response parseFloat m addr w n b = (Inr (map val ts), b\<lparr>bus_in := rest, bus_writes := bus_writes b @ [data_command m addr w n]\<rparr>)"
proof -
  have len: "length ts \<le> length (concat ts)"
    using ts(1) by (induction ts) (auto simp: sdi_token_def)
  let ?b1 = "b\<lparr>bus_in := concat ts @ CHR 0x0D # CHR 0x0A # rest, bus_writes := bus_writes b @ [data_command m addr w n]\<rparr>"
  have "response_values parseFloat (Suc (length (bus_in ?b1))) [] ?b1 = (Inr (map val ts), ?b1\<lparr>bus_in := rest\<rparr>)"
    using response_decodes [OF ts(1), of ?b1 rest _ "[]"] ts(2) len by (simp del: response_values.simps)
  moreover have "bindE (map_error ErrIO (bus_Write (data_command m addr w n))) (\<lambda>_. map_error ErrIO (discard 1)) b = (Inr (), ?b1)"
    using b by (cases b) (simp add: bindE_def map_error_def bus_Write_def discard_def response_def)
  ultimately show ?thesis
    unfolding get_response_def data_command_def [symmetric] bindE_assoc [symmetric] by (simp add: bindE_Inr del: response_values.simps)
qed

lemma get_data_loop_decodes:
  assumes "\<forall>ts \<in> set rs. ts \<noteq> [] \<and> (\<forall>t \<in> set ts. sdi_token t \<and> parseFloat t = Inr (val t))"
    and "bus_in b = concat (map (response a) rs)" and "bus_write_fails b = []"
    and "length vs + length (concat rs) = resultsExpected" and "n + length rs \<le> 10"
  shows "get_data_loop parseFloat m addr w resultsExpected n vs b =
    (Inr (vs @ map val (concat rs)), b\<lparr>bus_in := [], bus_writes := bus_writes b @ map (data_command m addr w) [n..<n + length rs]\<rparr>)"
  using assms
proof (induction rs arbitrary: n vs b)
  case Nil
  then show ?case by (subst get_data_loop.simps) (simp add: retE_def)
next
  case (Cons ts rs)
  let ?b = "b\<lparr>bus_in := concat (map (response a) rs), bus_writes := bus_writes b @ [data_command m addr w n]\<rparr>"
  have "get_response parseFloat m addr w n b = (Inr (map val ts), ?b)"
    using get_response_decodes [of ts parseFloat val b a "concat (map (response a) rs)" m addr w n] Cons.prems by simp
  moreover have "length vs < resultsExpected \<and> n \<le> 9" using Cons.prems(1,4,5) by (cases ts) auto
  moreover have "get_data_loop parseFloat m addr w resultsExpected (n + 1) (vs @ map val ts) ?b =
      (Inr (vs @ map val (concat (ts # rs))), ?b\<lparr>bus_in := [], bus_writes := bus_writes ?b @ map (data_command m addr w) [n + 1..<n + 1 + length rs]\<rparr>)"
    using Cons.IH [of ?b "vs @ map val ts" "n + 1"] Cons.prems by simp
  moreover have "[n..<n + length (ts # rs)] = n # [n + 1..<n + 1 + length rs]"
    using upt_conv_Cons [of n "n + length (ts # rs)"] by (simp del: upt_Suc)
  ultimately show ?case by (subst get_data_loop.simps) (simp add: bindE_Inr)
qed

text \<open>Whatever the line delivers, the commands are those of the data requests in order.\<close>

lemma scan_float_writes: "bus_writes (snd (scan_float parseFloat b)) = bus_writes b"
proof -
  have "bus_writes (snd (snd (floatToken x))) = bus_writes (snd x)" for x
    using scans_floatToken unfolding scans_def by (metis bus.select_convs(3) bus.surjective bus.update_convs(1))
  then show ?thesis
    by (auto simp: scan_float_def bindE_def skip_spaces_def Let_def split: prod.splits sum.splits) (metis snd_conv bus.select_convs(3) bus.surjective bus.update_convs(1))+
qed

lemma response_values_writes: "bus_writes (snd (response_values parseFloat fuel vs c)) = bus_writes c"
proof (induction fuel arbitrary: vs c)
  case (Suc fuel)
  then show ?case
    using scan_float_writes [of parseFloat c]
    by (auto simp: bindE_def map_error_def peek_byte_def discard_def throwE_def retE_def split: list.splits prod.splits sum.splits)
qed (simp add: throwE_def)

lemma get_response_writes:
  "bus_writes (snd (get_response parseFloat m addr w n b)) \<in> {bus_writes b, bus_writes b @ [data_command m addr w n]}"
  using response_values_writes
  by (auto simp: get_response_def bindE_def map_error_def bus_Write_def discard_def data_command_def simp del: response_values.simps
      split: list.splits option.splits)

lemma get_response_ok_writes:
  "isOk (fst (get_response parseFloat m addr w n b)) \<Longrightarrow>
   bus_writes (snd (get_response parseFloat m addr w n b)) = bus_writes b @ [data_command m addr w n]"
  using response_values_writes
  by (auto simp: get_response_def bindE_def map_error_def bus_Write_def discard_def data_command_def simp del: response_values.simps
      split: list.splits option.splits if_splits)

lemma get_data_loop_writes:
  "n \<le> 10 \<Longrightarrow> \<exists>k. n \<le> k \<and> k \<le> 10 \<and>
     bus_writes (snd (get_data_loop parseFloat m addr w resultsExpected n vs b)) = bus_writes b @ map (data_command m addr w) [n..<k]"
proof (induction parseFloat m addr w resultsExpected n vs arbitrary: b rule: get_data_loop.induct)
  case (1 parseFloat m addr w resultsExpected n vs)
  show ?case
  proof (cases "length vs < resultsExpected \<and> n \<le> 9")
    case False
    then show ?thesis using "1.prems" by (subst get_data_loop.simps) (auto simp: retE_def)
  next
    case True
    obtain r b1 where g: "get_response parseFloat m addr w n b = (r, b1)" by (cases "get_response parseFloat m addr w n b")
    then have w1: "bus_writes b1 = bus_writes b \<or> bus_writes b1 = bus_writes b @ [data_command m addr w n]"
      using get_response_writes [of parseFloat m addr w n b] by auto
    show ?thesis
    proof (cases r)
      case (Inl e)
      with g True have "bus_writes (snd (get_data_loop parseFloat m addr w resultsExpected n vs b)) = bus_writes b1"
        by (subst get_data_loop.simps) (simp add: bindE_def)
      then show ?thesis using w1 True by (auto intro: exI [of _ n] exI [of _ "Suc n"])
    next
      case (Inr us)
      then have "bus_writes b1 = bus_writes b @ [data_command m addr w n]"
        using g get_response_ok_writes [of parseFloat m addr w n b] by simp
      moreover obtain k where "n + 1 \<le> k" "k \<le> 10"
        "bus_writes (snd (get_data_loop parseFloat m addr w resultsExpected (n + 1) (vs @ us) b1)) = bus_writes b1 @ map (data_command m addr w) [n + 1..<k]"
        using "1.IH" [OF True, of us b1] True by auto
      ultimately show ?thesis using g Inr True
        by (subst get_data_loop.simps) (auto intro!: exI [of _ k] simp: bindE_Inr upt_conv_Cons)
    qed
  qed
qed

text \<open>
  Reading an SDI-12 sensor. If the sensor answers the data requests with responses in its format,
  ten at most, that carry the expected number of values together, \<open>GetData\<close> returns exactly these values in
  order and has sent the requests \<^verbatim>\<open>D0\<close>, \<^verbatim>\<open>D1\<close>, ... one per response. Whatever the line delivers, a result
  has the expected number of values, the requests sent are a prefix of \<^verbatim>\<open>D0\<close> to \<^verbatim>\<open>D9\<close> in order, and the loop over
  a response ends: more fuel than the bytes that arrive does not change it.
\<close>

theorem sdi12_get_data:
  assumes "\<forall>ts \<in> set rs. ts \<noteq> [] \<and> (\<forall>t \<in> set ts. sdi_token t \<and> parseFloat t = Inr (val t))" and "length rs \<le> 10"
    and "bus_in b = concat (map (response a) rs)" and "bus_write_fails b = []" and "\<not> isOk (parseFloat [])"
  shows "GetData parseFloat m addr w (length (concat rs)) b =
      (Inr (map val (concat rs)), b\<lparr>bus_in := [], bus_writes := bus_writes b @ map (data_command m addr w) [0..<length rs]\<rparr>) \<and>
    (\<forall>vs. fst (GetData parseFloat m addr w expected c) = Inr vs \<longrightarrow> length vs = expected) \<and>
    (\<exists>k \<le> 10. bus_writes (snd (GetData parseFloat m addr w expected c)) = bus_writes c @ map (data_command m addr w) [0..<k]) \<and>
    response_values parseFloat (Suc (length (bus_in c)) + k) [] c = response_values parseFloat (Suc (length (bus_in c))) [] c"
proof (intro conjI)
  show "GetData parseFloat m addr w (length (concat rs)) b =
      (Inr (map val (concat rs)), b\<lparr>bus_in := [], bus_writes := bus_writes b @ map (data_command m addr w) [0..<length rs]\<rparr>)"
    using get_data_loop_decodes [OF assms(1,3,4), of "[]" "length (concat rs)" 0 m addr w] assms(2)
    by (simp add: GetData_def bindE_Inr retE_def del: length_concat)
  show "\<forall>vs. fst (GetData parseFloat m addr w expected c) = Inr vs \<longrightarrow> length vs = expected"
    by (auto simp: GetData_def bindE_def throwE_def retE_def split: prod.splits sum.splits if_splits)
  obtain n r d where "get_data_loop parseFloat m addr w expected 0 [] c = (r, d)" "n \<le> 10"
    "bus_writes d = bus_writes c @ map (data_command m addr w) [0..<n]"
    using get_data_loop_writes [of 0 parseFloat m addr w expected "[]" c] by (metis le0 prod.collapse)
  then show "\<exists>k \<le> 10. bus_writes (snd (GetData parseFloat m addr w expected c)) = bus_writes c @ map (data_command m addr w) [0..<k]"
    by (intro exI [of _ n]) (auto simp: GetData_def bindE_def throwE_def retE_def split: sum.splits)
  show "response_values parseFloat (Suc (length (bus_in c)) + k) [] c = response_values parseFloat (Suc (length (bus_in c))) [] c"
    using assms(5) by (intro response_values_fuel) simp_all
qed

text \<open>The decimal parser of the example: a sign, digits and one digit after the point.\<close>

definition sample_parse :: "string \<Rightarrow> float64 result" where
  "sample_parse t = (if t = ''+1.5'' then Inr (3 / 2) else if t = ''-2'' then Inr (- 2) else Inl err_syntax)"

theorem sdi12_get_data_witness:
  "fst (GetData sample_parse ModeNative ''0'' (CHR 0x00) 3
     \<lparr>bus_in = ''0+1.5-2'' @ [CHR 0x0D, CHR 0x0A] @ ''0+1.5'' @ [CHR 0x0D, CHR 0x0A], bus_fail = ErrTimeout, bus_writes = [], bus_write_fails = []\<rparr>) =
   Inr [3 / 2, - 2, 3 / 2]"
proof -
  let ?val = "\<lambda>t. if t = ''+1.5'' then 3 / 2 else - 2 :: real"
  let ?rs = "[[''+1.5'', ''-2''], [''+1.5'']]"
  have "sdi_token ''+1.5''" "sdi_token ''-2''"
    unfolding sdi_token_def by (rule exI [of _ "CHR ''+''"], rule exI [of _ "''1''"], rule exI [of _ "''.5''"], simp add: is_digit_def)
      (rule exI [of _ "CHR ''-''"], rule exI [of _ "''2''"], rule exI [of _ "[]"], simp add: is_digit_def)
  then have "\<forall>ts \<in> set ?rs. ts \<noteq> [] \<and> (\<forall>t \<in> set ts. sdi_token t \<and> sample_parse t = Inr (?val t))"
    by (simp add: sample_parse_def)
  moreover have "\<not> isOk (sample_parse [])" by (simp add: sample_parse_def)
  ultimately have "GetData sample_parse ModeNative ''0'' (CHR 0x00) (length (concat ?rs))
     \<lparr>bus_in = concat (map (response (CHR ''0'')) ?rs), bus_fail = ErrTimeout, bus_writes = [], bus_write_fails = []\<rparr> =
     (Inr (map ?val (concat ?rs)), \<lparr>bus_in = [], bus_fail = ErrTimeout, bus_writes = map (data_command ModeNative ''0'' (CHR 0x00)) [0..<2], bus_write_fails = []\<rparr>)"
    by (subst sdi12_get_data [where val = ?val and a = "CHR ''0''", THEN conjunct1]) (simp_all add: numeral_2_eq_2)
  then show ?thesis by (simp add: response_def numeral_3_eq_3)
qed

end
