(* ===== verification/Devices.thy ===== *)
theory Devices
  imports DeviceBus ClientIngest "HOL-Library.Signed_Division"
begin

unbundle bit_operations_syntax

text \<open>
  The sensors of a station (\<^verbatim>\<open>tide_client/device\<close>): the registry of models and the scheduled jobs of
  \<^verbatim>\<open>common.go\<close>, the text scanner of \<^verbatim>\<open>utils.go\<close>, the drivers that parse what a sensor answers, and the
  binary coded counter of \<^verbatim>\<open>i2c_pcf8583.go\<close>.

  A job is a computation on the bus. Its failure result is a run-time panic of the driver (an index
  out of range); an I/O or parse error is a job that returns nil, the empty map. The values that reach
  \<^verbatim>\<open>strconv.ParseFloat\<close> are computed, the conversion itself is an argument, as are the Modbus
  client and the I2C device. Arithmetic on float64 is that of the reals.
\<close>

section \<open>Registry and jobs (\<open>common.go\<close>)\<close>

datatype capability = SharedBus | I2C | SDI12 | GPIO

type_synonym registry = "(string, capability list) go_map"

definition RegisterDevice :: "string \<Rightarrow> capability list \<Rightarrow> registry \<Rightarrow> registry result" where
  "RegisterDevice name d devices =
     (if map_of devices name \<noteq> None then Inl (ErrorString (''Register called twice for device '' @ name))
      else Inr (AList.update name d devices))"

definition getRegisteredDevice :: "string \<Rightarrow> registry \<Rightarrow> capability list result" where
  "getRegisteredDevice name devices =
     (case map_of devices name of None \<Rightarrow> exit_with ''Unknown device model'' | Some d \<Rightarrow> Inr d)"

definition MustDevice :: "capability \<Rightarrow> string \<Rightarrow> registry \<Rightarrow> unit result" where
  "MustDevice cap name devices =
     (case getRegisteredDevice name devices of
        Inl e \<Rightarrow> Inl e
      | Inr d \<Rightarrow> if cap \<in> set d then Inr () else exit_with ''Device model does not support requested capability'')"

definition verifyItems :: "(string, string) go_map \<Rightarrow> string list \<Rightarrow> unit result" where
  "verifyItems its provideItems =
     (if its = [] then exit_with ''Items cannot be empty''
      else if list_all (\<lambda>it. fst it \<in> set provideItems) its then Inr ()
      else exit_with ''Item type does not exist'')"

type_synonym readings = "(string, float64 option) go_map"

text \<open>The batch a job sends: one reading per configured item, nil where the job has no value.\<close>

definition job_batch :: "(string, string) go_map \<Rightarrow> unix_ms \<Rightarrow> readings \<Rightarrow> item_data list" where
  "job_batch its tm tmpData =
     map (\<lambda>(itemType, itemName). \<lparr>id_At = tm, id_Typ = MsgData, id_ItemName = itemName, id_Value = map_index None tmpData itemType\<rparr>) its"

text \<open>\<open>inQuery\<close>: another run of the job has not returned. A panic is recovered by the scheduler; nothing is sent.\<close>

definition jobWrap :: "bool \<Rightarrow> (string, string) go_map \<Rightarrow> unix_ms \<Rightarrow> (bus, readings) eff \<Rightarrow> bus \<Rightarrow> item_data list option \<times> bus" where
  "jobWrap inQuery its tm job b =
     (if inQuery then (None, b)
      else case job b of (Inl _, b') \<Rightarrow> (None, b') | (Inr tmpData, b') \<Rightarrow> (Some (job_batch its tm tmpData), b'))"

definition AddCronJob ::
  "bool \<Rightarrow> (string, string) go_map \<Rightarrow> string list \<Rightarrow> unix_ms \<Rightarrow> (bus, readings) eff \<Rightarrow> bus \<Rightarrow> (item_data list option \<times> bus) result" where
  "AddCronJob inQuery its provideItems tm job b =
     (case verifyItems its provideItems of Inl e \<Rightarrow> Inl e | Inr _ \<Rightarrow> Inr (jobWrap inQuery its tm job b))"

definition AddCronJobWithOneItem ::
  "bool \<Rightarrow> string \<Rightarrow> unix_ms \<Rightarrow> (bus, float64 option) eff \<Rightarrow> bus \<Rightarrow> (item_data list option \<times> bus) result" where
  "AddCronJobWithOneItem inQuery itemName tm job b =
     (if itemName = [] then exit_with ''Item name cannot be empty''
      else Inr (if inQuery then (None, b)
        else case job b of
          (Inl _, b') \<Rightarrow> (None, b')
        | (Inr v, b') \<Rightarrow> (Some [\<lparr>id_At = tm, id_Typ = MsgData, id_ItemName = itemName, id_Value = v\<rparr>], b')))"

section \<open>Connections and their sub-devices\<close>

text \<open>
  A connection merges what its sub-devices provide: the shared bus of an RS485 line, one device of an RS232 line
  or of a TCP or UART connection, I2C and GPIO devices, the SDI-12 sensors and analog pins of an Arduino
  board. \<open>subs\<close> are the models and what their constructors return.
\<close>

fun merge_subdevices :: "capability \<Rightarrow> registry \<Rightarrow> (string \<times> string_map_map) list \<Rightarrow> string_map_map \<Rightarrow> string_map_map result" where
  "merge_subdevices cap devices [] info = Inr info"
| "merge_subdevices cap devices ((model, subInfo) # subs) info =
     (case MustDevice cap model devices of
        Inl e \<Rightarrow> Inl e
      | Inr _ \<Rightarrow> (case MergeInfo info subInfo of Inl e \<Rightarrow> Inl e | Inr info' \<Rightarrow> merge_subdevices cap devices subs info'))"

definition uartRs485_NewBusDevice :: "registry \<Rightarrow> (string \<times> string_map_map) list \<Rightarrow> string_map_map result" where
  "uartRs485_NewBusDevice devices subs = merge_subdevices SharedBus devices subs []"

definition uartRs232_NewBusDevice :: "registry \<Rightarrow> string \<times> string_map_map \<Rightarrow> string_map_map result" where
  "uartRs232_NewBusDevice devices sub = merge_subdevices SharedBus devices [sub] []"

definition arduino_NewBusDevice ::
  "registry \<Rightarrow> (string \<times> string_map_map) list \<Rightarrow> (string \<times> string \<times> string) list \<Rightarrow> string_map_map result" where
  "arduino_NewBusDevice devices sdi12 analog =
     (case merge_subdevices SDI12 devices sdi12 [] of
        Inl e \<Rightarrow> Inl e
      | Inr info \<Rightarrow> merge_all (map (\<lambda>(deviceName, itemType, itemName). [(deviceName, [(itemType, itemName)])]) analog) info)"

definition newTcpConn :: "registry \<Rightarrow> string \<times> string_map_map \<Rightarrow> string_map_map result" where
  "newTcpConn devices sub = merge_subdevices SharedBus devices [sub] []"

definition newUartConn :: "registry \<Rightarrow> string \<times> string_map_map \<Rightarrow> string_map_map result" where
  "newUartConn devices sub = merge_subdevices SharedBus devices [sub] []"

text \<open>Opening the I2C bus or the GPIO chip may fail (\<open>opened\<close>), which ends the process.\<close>

definition newI2cConn :: "unit result \<Rightarrow> registry \<Rightarrow> (string \<times> string_map_map) list \<Rightarrow> string_map_map result" where
  "newI2cConn opened devices subs = (case opened of Inl e \<Rightarrow> Inl e | Inr _ \<Rightarrow> merge_subdevices I2C devices subs [])"

definition newGpioConn :: "unit result \<Rightarrow> registry \<Rightarrow> (string \<times> string_map_map) list \<Rightarrow> string_map_map result" where
  "newGpioConn opened devices subs = (case opened of Inl e \<Rightarrow> Inl e | Inr _ \<Rightarrow> merge_subdevices GPIO devices subs [])"

section \<open>Text (\<open>utils.go\<close>)\<close>

definition getStringInBetween :: "string \<Rightarrow> string \<Rightarrow> string \<Rightarrow> string" where
  "getStringInBetween str start finish =
     (case Index str start of
        None \<Rightarrow> []
      | Some s \<Rightarrow> let newStr = drop (s + length start) str in
          (case Index newStr finish of None \<Rightarrow> [] | Some e \<Rightarrow> take e newStr))"

definition panic :: go_error where "panic = ErrorString ''index out of range''"

definition go_index :: "'a list \<Rightarrow> nat \<Rightarrow> ('s, 'a) eff" where
  "go_index xs i = (if i < length xs then retE (xs ! i) else throwE panic)"

definition go_slice :: "'a list \<Rightarrow> nat \<Rightarrow> nat \<Rightarrow> ('s, 'a list) eff" where
  "go_slice xs i j = (if i \<le> j \<and> j \<le> length xs then retE (take (j - i) (drop i xs)) else throwE panic)"

section \<open>Drivers of text sensors\<close>

type_synonym parser = "string \<Rightarrow> float64 result"

text \<open>\<open>nil_unless\<close>: the job returns nil on an error of a session.\<close>

definition nil_unless :: "('s, 'a) eff \<Rightarrow> 'b \<Rightarrow> ('a \<Rightarrow> ('s, 'b) eff) \<Rightarrow> ('s, 'b) eff" where
  "nil_unless m none f = bindE (tryE m) (\<lambda>r. case r of Inl _ \<Rightarrow> retE none | Inr a \<Rightarrow> f a)"

text \<open>The value between two marks of an HMP155 line: an error, nil for stars, or the number.\<close>

definition hmp155_value :: "parser \<Rightarrow> string \<Rightarrow> string \<Rightarrow> string \<Rightarrow> (bus, float64 option result) eff" where
  "hmp155_value parseFloat line start finish =
     (let val = TrimSpace (getStringInBetween line start finish) in
      if val = [] then retE (Inl err_syntax)
      else bindE (go_index val 0) (\<lambda>c.
        if c = CHR ''*'' then retE (Inr None)
        else retE (case parseFloat val of Inl e \<Rightarrow> Inl e | Inr f \<Rightarrow> Inr (Some f))))"

definition hmp155_job :: "parser \<Rightarrow> string \<Rightarrow> (bus, readings) eff" where
  "hmp155_job parseFloat addr =
     nil_unless (ReadLine (''SEND '' @ addr @ [CHR 0x0D, CHR 0x0A])) [] (\<lambda>line.
     bindE (go_index line 0) (\<lambda>c.
       if c = CHR ''*'' then retE []
       else bindE (hmp155_value parseFloat line ''RH='' ''%RH'') (\<lambda>rh.
         case rh of
           Inl _ \<Rightarrow> retE []
         | Inr humidity \<Rightarrow> bindE (hmp155_value parseFloat line ''T='' (CHR 0x27 # ''C'')) (\<lambda>t.
             case t of
               Inl _ \<Rightarrow> retE []
             | Inr temperature \<Rightarrow> retE [(''air_humidity'', humidity), (''air_temperature'', temperature)]))))"

definition ptb330_job :: "parser \<Rightarrow> string \<Rightarrow> (bus, readings) eff" where
  "ptb330_job parseFloat addr =
     nil_unless (ReadLine (''SEND '' @ addr @ [CHR 0x0D])) [] (\<lambda>line.
     bindE (go_index line 0) (\<lambda>c.
       if c = CHR ''*'' then retE []
       else retE [(''air_pressure'', case parseFloat (TrimSpace line) of Inl _ \<Rightarrow> None | Inr f \<Rightarrow> Some f)]))"

definition pwd50_job :: "parser \<Rightarrow> string \<Rightarrow> (bus, float64 option) eff" where
  "pwd50_job parseFloat addr =
     nil_unless (ReadLine ([CHR 0x0D, CHR 0x05] @ ''PW '' @ addr @ '' 0'' @ [CHR 0x0D])) None (\<lambda>line.
       if length line \<noteq> 25 then retE None
       else bindE (go_index line 8) (\<lambda>status.
         if status \<noteq> CHR ''0'' then
           bindE (ignoreE (CustomCommand ([CHR 0x0D, CHR 0x05] @ ''PW '' @ addr @ '' 3'' @ [CHR 0x0D]))) (\<lambda>_. retE None)
         else bindE (go_slice line 9 16) (\<lambda>field.
           let val1 = TrimSpace field in
           if val1 = [] then retE None
           else bindE (go_index val1 0) (\<lambda>c.
             if c = CHR ''/'' then retE None
             else retE (case parseFloat val1 of Inl _ \<Rightarrow> None | Inr f \<Rightarrow> Some f)))))"

definition wmt700_value :: "parser \<Rightarrow> string \<Rightarrow> string \<Rightarrow> string \<Rightarrow> float64 option result" where
  "wmt700_value parseFloat line start finish =
     (let val = TrimSpace (getStringInBetween line start finish) in
      if val = [] then Inl err_syntax
      else case parseFloat val of Inl e \<Rightarrow> Inl e | Inr f \<Rightarrow> Inr (if 999 \<le> f then None else Some f))"

definition wmt700_job :: "parser \<Rightarrow> string \<Rightarrow> (bus, readings) eff" where
  "wmt700_job parseFloat addr =
     nil_unless (ReadLine (''$'' @ addr @ ''POLL,21'' @ [CHR 0x0D, CHR 0x0A])) [] (\<lambda>line.
       case wmt700_value parseFloat line ''$'' '','' of
         Inl _ \<Rightarrow> retE []
       | Inr ws \<Rightarrow> (case wmt700_value parseFloat line '','' [CHR 0x0D] of
             Inl _ \<Rightarrow> retE []
           | Inr wd \<Rightarrow> retE [(''wind_speed'', ws), (''wind_direction'', wd)]))"

section \<open>Drivers of SDI-12 sensors\<close>

definition in_range :: "float64 \<Rightarrow> float64 \<Rightarrow> float64 \<Rightarrow> float64 option" where
  "in_range lo hi v = (if lo < v \<and> v < hi then Some v else None)"

text \<open>The items of a PLS-C with their ranges, in the order of the values.\<close>

definition plsc_ranges :: "(string \<times> float64 \<times> float64) list" where
  "plsc_ranges = [(''water_level'', - 1, 4), (''water_temperature'', - 8, 40), (''water_conductivity'', 1 / 10, 100),
     (''water_salinity'', 10, 50), (''water_total_dissolved_solids'', 10, 50)]"

fun plsc_items :: "(string \<times> float64 \<times> float64) list \<Rightarrow> nat \<Rightarrow> float64 list \<Rightarrow> (bus, readings) eff" where
  "plsc_items [] i values = retE []"
| "plsc_items ((name, lo, hi) # ranges) i values =
     bindE (go_index values i) (\<lambda>v. bindE (plsc_items ranges (i + 1) values) (\<lambda>rest. retE ((name, in_range lo hi v) # rest)))"

definition plsc_job :: "parser \<Rightarrow> mode \<Rightarrow> string \<Rightarrow> char \<Rightarrow> (bus, readings) eff" where
  "plsc_job parseFloat m addr extraWakeTime =
     nil_unless (ConcurrentMeasurement m addr extraWakeTime (addr @ ''00505'' @ [CHR 0x0D, CHR 0x0A])) [] (\<lambda>_.
     nil_unless (GetData parseFloat m addr extraWakeTime 5) [] (plsc_items plsc_ranges 0))"

definition se200_job :: "parser \<Rightarrow> mode \<Rightarrow> string \<Rightarrow> char \<Rightarrow> float64 \<Rightarrow> (bus, float64 option) eff" where
  "se200_job parseFloat m addr extraWakeTime correction =
     nil_unless (ConcurrentMeasurement m addr extraWakeTime (addr @ ''00101'' @ [CHR 0x0D, CHR 0x0A] @ addr @ [CHR 0x0D, CHR 0x0A])) None (\<lambda>_.
     nil_unless (GetData parseFloat m addr extraWakeTime 1) None (\<lambda>values.
       bindE (go_index values 0) (\<lambda>v. retE (in_range (- 30) 30 (v + correction)))))"

section \<open>Drivers of Modbus sensors and of the Arduino board\<close>

text \<open>\<open>regs\<close> is what \<^verbatim>\<open>ReadInputRegisters\<close> returns.\<close>

definition decodeAnalogVoltageModbusValue :: "8 word list \<Rightarrow> float64 result" where
  "decodeAnalogVoltageModbusValue results =
     (if length results \<noteq> 2 then Inl (ErrorString ''unexpected analog voltage Modbus payload length'')
      else let raw = 256 * unat (results ! 0) + unat (results ! 1) in Inr (of_nat (raw mod 10000) / 10 ^ (raw div 10000)))"

definition analogVoltage_job :: "8 word list result \<Rightarrow> (bus, float64 option) eff" where
  "analogVoltage_job regs =
     (case regs of
        Inl _ \<Rightarrow> retE None
      | Inr results \<Rightarrow> retE (case decodeAnalogVoltageModbusValue results of Inl _ \<Rightarrow> None | Inr v \<Rightarrow> Some v))"

text \<open>\<open>Float32To64\<close>: the shortest decimal of the float32 (\<open>formatFloat32\<close>, of its bits), parsed as a float64.\<close>

definition Float32To64 :: "(32 word \<Rightarrow> string) \<Rightarrow> parser \<Rightarrow> 32 word \<Rightarrow> float64" where
  "Float32To64 formatFloat32 parseFloat bits = (case parseFloat (formatFloat32 bits) of Inl _ \<Rightarrow> 0 | Inr f \<Rightarrow> f)"

definition BigEndian_Uint32 :: "8 word list \<Rightarrow> (bus, 32 word) eff" where
  "BigEndian_Uint32 bs =
     (if length bs < 4 then throwE panic
      else retE (push_bit 24 (ucast (bs ! 0)) OR push_bit 16 (ucast (bs ! 1)) OR push_bit 8 (ucast (bs ! 2)) OR ucast (bs ! 3)))"

definition vegapuls61_job :: "(32 word \<Rightarrow> string) \<Rightarrow> parser \<Rightarrow> 8 word list result \<Rightarrow> (bus, float64 option) eff" where
  "vegapuls61_job formatFloat32 parseFloat regs =
     (case regs of
        Inl _ \<Rightarrow> retE None
      | Inr results \<Rightarrow>
          bindE (go_index results 0) (\<lambda>st.
            if st \<noteq> 0 then retE None
            else bindE (go_slice results 4 (length results)) (\<lambda>tail.
              bindE (BigEndian_Uint32 tail) (\<lambda>bits. retE (Some (Float32To64 formatFloat32 parseFloat bits))))))"

text \<open>\<open>math.Round\<close> rounds half away from zero.\<close>

definition math_Round :: "float64 \<Rightarrow> float64" where
  "math_Round x = (if 0 \<le> x then of_int \<lfloor>x + 1 / 2\<rfloor> else - of_int \<lfloor>- x + 1 / 2\<rfloor>)"

definition analogPin_job :: "char \<Rightarrow> (bus, float64 option) eff" where
  "analogPin_job pin = nil_unless (AnalogRead pin) None (\<lambda>val. retE (Some (math_Round (of_int val / 1023 * 5 * 1000) / 1000)))"

section \<open>The event counter (\<open>i2c_pcf8583.go\<close>)\<close>

text \<open>The I2C device: writing bytes, and a transaction that writes and then fills a buffer of the given length.\<close>

record 's i2c_dev =
  i2c_Write :: "8 word list \<Rightarrow> ('s, unit) eff"
  i2c_Tx :: "8 word list \<Rightarrow> nat \<Rightarrow> ('s, 8 word list) eff"

definition locationControl :: "8 word" where "locationControl = 0x00"
definition locationCounter :: "8 word" where "locationCounter = 0x01"
definition modeEventCounter :: "8 word" where "modeEventCounter = 0x20"
definition CtrlStopCounting :: "8 word" where "CtrlStopCounting = 0x80"

lemmas pcf8583_consts = locationControl_def locationCounter_def modeEventCounter_def CtrlStopCounting_def

definition bcdToBYTE :: "8 word \<Rightarrow> 8 word" where
  "bcdToBYTE b = drop_bit 4 b * 10 + (b AND 0x0F)"

definition byteToBCD :: "8 word \<Rightarrow> 8 word" where
  "byteToBCD b = push_bit 4 (b div 10) OR (b mod 10)"

definition getCount :: "'s i2c_dev \<Rightarrow> ('s, int) eff" where
  "getCount d =
     bindE (i2c_Tx d [locationCounter] 3) (\<lambda>data.
       retE (uint (bcdToBYTE (data ! 0)) + uint (bcdToBYTE (data ! 1)) * 100 + uint (bcdToBYTE (data ! 2)) * 10000))"

definition setRegister :: "'s i2c_dev \<Rightarrow> 8 word \<Rightarrow> 8 word \<Rightarrow> ('s, unit) eff" where
  "setRegister d offset v = i2c_Write d [offset, v]"

definition getRegister :: "'s i2c_dev \<Rightarrow> 8 word \<Rightarrow> ('s, 8 word) eff" where
  "getRegister d offset = bindE (i2c_Tx d [offset] 1) (\<lambda>read. retE (read ! 0))"

text \<open>Division and remainder of an \<^verbatim>\<open>int32\<close> truncate; \<^verbatim>\<open>uint8\<close> keeps the low byte.\<close>

definition setCount :: "'s i2c_dev \<Rightarrow> int \<Rightarrow> ('s, unit) eff" where
  "setCount d cnt =
     bindE (getRegister d locationControl) (\<lambda>ctrlRegVal.
     bindE (setRegister d locationControl (ctrlRegVal OR CtrlStopCounting)) (\<lambda>_.
     bindE (i2c_Write d [locationCounter,
         byteToBCD (word_of_int (cnt smod 100)),
         byteToBCD (word_of_int ((cnt sdiv 100) smod 100)),
         byteToBCD (word_of_int ((cnt sdiv 10000) smod 100))]) (\<lambda>_.
       setRegister d locationControl (ctrlRegVal AND 0x7F))))"

text \<open>Start-up puts the chip into event mode and resets the counter; errors are dropped. A job reads, and resets when configured.\<close>

definition pcf8583_start :: "'s i2c_dev \<Rightarrow> ('s, unit) eff" where
  "pcf8583_start d = bindE (ignoreE (setRegister d locationControl modeEventCounter)) (\<lambda>_. ignoreE (setCount d 0))"

definition pcf8583_job :: "'s i2c_dev \<Rightarrow> bool \<Rightarrow> ('s, float64 option) eff" where
  "pcf8583_job d resetC =
     nil_unless (getCount d) None (\<lambda>cnt.
       bindE (if resetC then ignoreE (setCount d 0) else retE ()) (\<lambda>_. retE (Some (of_int (cnt * 2) / 10))))"

section \<open>GPIO and analog inputs\<close>

text \<open>A tipping bucket counts edges between two uploads (\<^verbatim>\<open>gpio_vaisala_rg13.go\<close>); the counter wraps at 64 bits.\<close>

definition rg13_edge :: "64 word \<Rightarrow> 64 word" where
  "rg13_edge counter = counter + 1"

definition rg13_job :: "float64 \<Rightarrow> 64 word \<Rightarrow> float64 \<times> 64 word" where
  "rg13_job resolution counter = (of_int (sint counter) * (if resolution = 0 then 1 / 5 else resolution), 0)"

text \<open>A GPIO input (\<^verbatim>\<open>gpio_state_detection.go\<close>): the bias option, and one reading per edge.\<close>

definition parseGPIOBias :: "string \<Rightarrow> string result" where
  "parseGPIOBias bias =
     (let b = ToLower bias in
      if b = [] \<or> b = ''pull_up'' then Inr ''pull_up''
      else if b = ''pull_down'' \<or> b = ''disabled'' \<or> b = ''as_is'' then Inr b
      else exit_with ''Invalid gpio bias'')"

definition gpio_event :: "string \<Rightarrow> unix_ms \<Rightarrow> bool \<Rightarrow> item_data" where
  "gpio_event itemName tm risingEdge =
     \<lparr>id_At = tm, id_Typ = MsgGpioData, id_ItemName = itemName, id_Value = Some (if risingEdge then 1 else 0)\<rparr>"

text \<open>An ADS1115 channel (\<^verbatim>\<open>i2c_ads1x15.go\<close>): the sampled voltage, in nanovolts as the library has it, scaled.\<close>

definition ads1115_job :: "int result \<Rightarrow> float64 \<Rightarrow> float64 \<Rightarrow> float64 option" where
  "ads1115_job sample chM chB =
     (case sample of Inl _ \<Rightarrow> None | Inr v \<Rightarrow> Some (of_int v / 1000000000 * chM + chB))"

section \<open>Readings of the drivers\<close>

text \<open>The drivers on a bus, with their configuration or what the Modbus client returns.\<close>

datatype driver =
    HMP155 string
  | PTB330 string
  | PWD50 string
  | WMT700 string
  | PLSC mode string char
  | SE200 mode string char float64
  | AnalogVoltage "8 word list result"
  | VEGAPULS61 "8 word list result"
  | AnalogPin string char

definition one_item :: "string \<Rightarrow> (bus, float64 option) eff \<Rightarrow> (bus, readings) eff" where
  "one_item itemType job = bindE job (\<lambda>v. retE [(itemType, v)])"

fun driver_job :: "(32 word \<Rightarrow> string) \<Rightarrow> parser \<Rightarrow> driver \<Rightarrow> (bus, readings) eff" where
  "driver_job fmt pf (HMP155 addr) = hmp155_job pf addr"
| "driver_job fmt pf (PTB330 addr) = ptb330_job pf addr"
| "driver_job fmt pf (PWD50 addr) = one_item ''air_visibility'' (pwd50_job pf addr)"
| "driver_job fmt pf (WMT700 addr) = wmt700_job pf addr"
| "driver_job fmt pf (PLSC m addr w) = plsc_job pf m addr w"
| "driver_job fmt pf (SE200 m addr w correction) = one_item ''water_distance'' (se200_job pf m addr w correction)"
| "driver_job fmt pf (AnalogVoltage regs) = one_item ''rain_intensity'' (analogVoltage_job regs)"
| "driver_job fmt pf (VEGAPULS61 regs) = one_item ''water_distance'' (vegapuls61_job fmt pf regs)"
| "driver_job fmt pf (AnalogPin itemType pin) = one_item itemType (analogPin_job pin)"

text \<open>
  The range of the values a driver reports, for the drivers that test it; the others pass every value on that they can parse.
  The numbers of the model are real: a parsed \<^verbatim>\<open>NaN\<close>, which passes the test \<^verbatim>\<open>f >= 999\<close> of the wind sensor, is outside of it.
\<close>

fun in_tested_range :: "driver \<Rightarrow> string \<Rightarrow> float64 \<Rightarrow> bool" where
  "in_tested_range (WMT700 _) itemType v = (v < 999)"
| "in_tested_range (PLSC _ _ _) itemType v = (\<exists>(n, lo, hi) \<in> set plsc_ranges. n = itemType \<and> lo < v \<and> v < hi)"
| "in_tested_range (SE200 _ _ _ _) itemType v = (- 30 < v \<and> v < 30)"
| "in_tested_range (AnalogVoltage _) itemType v = (0 \<le> v \<and> v < 10000)"
| "in_tested_range _ itemType v = True"

text \<open>The documented behaviour of the Modbus client: a register is two bytes, and a response has as many as were asked for.\<close>

fun modbus_length :: "driver \<Rightarrow> bool" where
  "modbus_length (VEGAPULS61 (Inr results)) = (length results = 2 * 4)"
| "modbus_length _ = True"

definition never_panics :: "('s, 'a) eff \<Rightarrow> ('a \<Rightarrow> bool) \<Rightarrow> bool" where
  "never_panics m P \<longleftrightarrow> (\<forall>s. \<exists>a s'. m s = (Inr a, s') \<and> P a)"

definition yields :: "('s, 'a) eff \<Rightarrow> ('a \<Rightarrow> bool) \<Rightarrow> bool" where
  "yields m Q \<longleftrightarrow> (\<forall>s a s'. m s = (Inr a, s') \<longrightarrow> Q a)"

lemma never_panics_ret: "P a \<Longrightarrow> never_panics (retE a) P"
  by (simp add: never_panics_def retE_def)

lemma never_panics_bind:
  assumes "never_panics m Q" and "\<And>a. Q a \<Longrightarrow> never_panics (f a) P"
  shows "never_panics (bindE m f) P"
  using assms unfolding never_panics_def bindE_def by (metis (no_types, lifting) case_prod_conv sum.case(2))

lemma never_panics_nil_unless:
  assumes "yields m Q" and "P none" and "\<And>a. Q a \<Longrightarrow> never_panics (f a) P"
  shows "never_panics (nil_unless m none f) P"
proof -
  have "\<exists>a s'. nil_unless m none f s = (Inr a, s') \<and> P a" for s
  proof (cases "m s")
    case (Pair r s1)
    show ?thesis
    proof (cases r)
      case (Inl e)
      with Pair assms(2) show ?thesis by (simp add: nil_unless_def bindE_def tryE_def retE_def)
    next
      case (Inr x)
      with Pair assms(1) have "Q x" by (auto simp: yields_def)
      from assms(3) [OF this] Pair Inr show ?thesis by (simp add: nil_unless_def bindE_def tryE_def never_panics_def)
    qed
  qed
  then show ?thesis by (simp add: never_panics_def)
qed

lemma never_panics_index: "i < length xs \<Longrightarrow> Q (xs ! i) \<Longrightarrow> never_panics (go_index xs i) Q"
  by (simp add: go_index_def never_panics_ret)

lemma never_panics_slice: "i \<le> j \<Longrightarrow> j \<le> length xs \<Longrightarrow> Q (take (j - i) (drop i xs)) \<Longrightarrow> never_panics (go_slice xs i j) Q"
  by (simp add: go_slice_def never_panics_ret)

lemma never_panics_ignore: "never_panics (ignoreE m) (\<lambda>_. True)"
  by (simp add: never_panics_def ignoreE_def)

lemma never_panics_if: "(c \<Longrightarrow> never_panics m P) \<Longrightarrow> (\<not> c \<Longrightarrow> never_panics n P) \<Longrightarrow> never_panics (if c then m else n) P"
  by simp

lemma ReadLine_nonempty: "yields (ReadLine input) (\<lambda>line. line \<noteq> [])"
  by (auto simp: yields_def ReadLine_def bindE_def read_line_def split: prod.splits sum.splits list.splits)

lemma GetData_length: "yields (GetData pf m addr w n) (\<lambda>vs. length vs = n)"
  by (auto simp: yields_def GetData_def bindE_def throwE_def retE_def split: prod.splits sum.splits if_splits)

lemma yields_anything: "yields m (\<lambda>_. True)"
  by (simp add: yields_def)

text \<open>The readings of a job are in the range its driver tests.\<close>

definition readings_ok :: "driver \<Rightarrow> readings \<Rightarrow> bool" where
  "readings_ok d tmp \<longleftrightarrow> (\<forall>(itemType, v) \<in> set tmp. case v of None \<Rightarrow> True | Some x \<Rightarrow> in_tested_range d itemType x)"

lemma readings_ok_Cons:
  "readings_ok d ((n, v) # rest) \<longleftrightarrow> (case v of None \<Rightarrow> True | Some x \<Rightarrow> in_tested_range d n x) \<and> readings_ok d rest"
  by (simp add: readings_ok_def)

lemma one_item_ok:
  assumes "never_panics job (\<lambda>v. case v of None \<Rightarrow> True | Some x \<Rightarrow> in_tested_range d itemType x)"
  shows "never_panics (one_item itemType job) (readings_ok d)"
  unfolding one_item_def by (rule never_panics_bind [OF assms]) (simp add: never_panics_ret readings_ok_def)

lemma hmp155_ok: "never_panics (hmp155_job pf addr) (readings_ok (HMP155 addr))"
proof -
  have val: "never_panics (hmp155_value pf line u v) (\<lambda>_. True)" for line u v
    unfolding hmp155_value_def Let_def
    by (intro never_panics_if never_panics_ret never_panics_bind [where Q = "\<lambda>_. True"] never_panics_index) auto
  show ?thesis
    unfolding hmp155_job_def
    by (intro never_panics_nil_unless [OF ReadLine_nonempty] never_panics_bind [where Q = "\<lambda>_. True"] never_panics_if never_panics_index val)
      (auto intro!: never_panics_ret never_panics_bind [OF val] simp: readings_ok_def split: sum.splits option.splits)
qed

lemma ptb330_ok: "never_panics (ptb330_job pf addr) (readings_ok (PTB330 addr))"
  unfolding ptb330_job_def
  by (intro never_panics_nil_unless [OF ReadLine_nonempty] never_panics_bind [where Q = "\<lambda>_. True"] never_panics_if never_panics_index never_panics_ret)
    (auto simp: readings_ok_def split: option.splits)

lemma pwd50_ok: "never_panics (pwd50_job pf addr) (\<lambda>_. True)"
  unfolding pwd50_job_def Let_def
  by (intro never_panics_nil_unless [OF ReadLine_nonempty] never_panics_bind [where Q = "\<lambda>_. True"] never_panics_if never_panics_index
      never_panics_slice never_panics_ignore never_panics_ret) auto

lemma wmt700_ok: "never_panics (wmt700_job pf addr) (readings_ok (WMT700 addr))"
  unfolding wmt700_job_def
  by (intro never_panics_nil_unless [OF ReadLine_nonempty])
    (auto intro!: never_panics_ret simp: readings_ok_def wmt700_value_def Let_def split: sum.splits option.splits if_splits)

lemma plsc_items_ok:
  assumes "set rs \<subseteq> set plsc_ranges" and "i + length rs \<le> length vs"
  shows "never_panics (plsc_items rs i vs) (readings_ok (PLSC m addr w))"
  using assms
proof (induction rs arbitrary: i)
  case Nil
  then show ?case by (simp add: never_panics_ret readings_ok_def)
next
  case (Cons r rs)
  obtain n lo hi where r: "r = (n, lo, hi)" by (cases r)
  have IH: "never_panics (plsc_items rs (i + 1) vs) (readings_ok (PLSC m addr w))" using Cons by simp
  have "never_panics (bindE (plsc_items rs (i + 1) vs) (\<lambda>rest. retE ((n, in_range lo hi v) # rest))) (readings_ok (PLSC m addr w))" for v
  proof (rule never_panics_bind [OF IH], rule never_panics_ret)
    fix rest
    assume "readings_ok (PLSC m addr w) rest"
    moreover have "(n, lo, hi) \<in> set plsc_ranges" using Cons.prems(1) r by simp
    ultimately show "readings_ok (PLSC m addr w) ((n, in_range lo hi v) # rest)"
      by (auto simp: readings_ok_Cons in_range_def intro!: bexI [of _ "(n, lo, hi)"])
  qed
  moreover have "never_panics (go_index vs i) (\<lambda>_. True)" using Cons.prems(2) by (intro never_panics_index) auto
  ultimately show ?case unfolding r plsc_items.simps by (intro never_panics_bind [where m = "go_index vs i" and Q = "\<lambda>_. True"])
qed

lemma plsc_ok: "never_panics (plsc_job pf m addr w) (readings_ok (PLSC m addr w))"
  unfolding plsc_job_def
  by (intro never_panics_nil_unless [OF yields_anything] never_panics_nil_unless [OF GetData_length] plsc_items_ok)
    (auto simp: readings_ok_def plsc_ranges_def)

lemma se200_ok: "never_panics (se200_job pf m addr w c) (\<lambda>v. case v of None \<Rightarrow> True | Some x \<Rightarrow> - 30 < x \<and> x < 30)"
  unfolding se200_job_def
  by (intro never_panics_nil_unless [OF yields_anything] never_panics_nil_unless [OF GetData_length] never_panics_bind [where Q = "\<lambda>_. True"]
      never_panics_index never_panics_ret) (auto simp: in_range_def)

lemma analogVoltage_ok: "never_panics (analogVoltage_job regs) (\<lambda>v. case v of None \<Rightarrow> True | Some x \<Rightarrow> 0 \<le> x \<and> x < 10000)"
proof -
  have "0 \<le> x \<and> x < 10000" if x: "decodeAnalogVoltageModbusValue results = Inr x" for results x
  proof -
    from x obtain raw where x: "x = of_nat (raw mod 10000) / 10 ^ (raw div 10000)"
      by (auto simp: decodeAnalogVoltageModbusValue_def Let_def split: if_splits)
    have "x \<le> of_nat (raw mod 10000) / 1" unfolding x by (rule divide_left_mono) simp_all
    also have "\<dots> < 10000" by (simp add: of_nat_less_numeral_iff)
    finally show ?thesis using x by simp
  qed
  then show ?thesis unfolding analogVoltage_job_def by (auto intro!: never_panics_ret split: sum.split)
qed

lemma vegapuls61_ok: "modbus_length (VEGAPULS61 regs) \<Longrightarrow> never_panics (vegapuls61_job fmt pf regs) (\<lambda>_. True)"
proof (cases regs)
  case (Inr results)
  assume "modbus_length (VEGAPULS61 regs)"
  with Inr have len: "length results = 8" by simp
  have "never_panics (bindE (BigEndian_Uint32 tail) (\<lambda>bits. retE (Some (Float32To64 fmt pf bits)))) (\<lambda>_. True)" if "length tail = 4" for tail
    using that by (intro never_panics_bind [where Q = "\<lambda>_. True"] never_panics_ret) (simp_all add: BigEndian_Uint32_def never_panics_ret)
  then have "never_panics (bindE (go_slice results 4 (length results)) (\<lambda>tail. bindE (BigEndian_Uint32 tail) (\<lambda>bits.
      retE (Some (Float32To64 fmt pf bits))))) (\<lambda>_. True)"
    using len by (intro never_panics_bind [where Q = "\<lambda>bs. length bs = 4"] never_panics_slice) auto
  moreover have "never_panics (go_index results 0) (\<lambda>_. True)" using len by (intro never_panics_index) auto
  ultimately show ?thesis
    unfolding vegapuls61_job_def Inr sum.case
    by (intro never_panics_bind [where m = "go_index results 0" and Q = "\<lambda>_. True"] never_panics_if never_panics_ret TrueI)
qed (simp add: vegapuls61_job_def never_panics_ret)

lemma analogPin_ok: "never_panics (analogPin_job pin) (\<lambda>_. True)"
  unfolding analogPin_job_def by (intro never_panics_nil_unless [OF yields_anything] never_panics_ret) simp_all

lemma never_panics_mono: "never_panics m P \<Longrightarrow> (\<And>a. P a \<Longrightarrow> R a) \<Longrightarrow> never_panics m R"
  unfolding never_panics_def by blast

lemma driver_job_ok: "modbus_length d \<Longrightarrow> never_panics (driver_job fmt pf d) (readings_ok d)"
proof (cases d)
  case (PWD50 addr)
  then show ?thesis by (auto intro!: one_item_ok never_panics_mono [OF pwd50_ok] split: option.split)
next
  case (SE200 m addr w c)
  then show ?thesis by (auto intro!: one_item_ok never_panics_mono [OF se200_ok] split: option.splits)
next
  case (AnalogVoltage regs)
  then show ?thesis by (auto intro!: one_item_ok never_panics_mono [OF analogVoltage_ok] split: option.splits)
next
  case (VEGAPULS61 regs)
  then show "modbus_length d \<Longrightarrow> never_panics (driver_job fmt pf d) (readings_ok d)"
    by (auto intro!: one_item_ok never_panics_mono [OF vegapuls61_ok] split: option.split)
next
  case (AnalogPin itemType pin)
  then show ?thesis by (auto intro!: one_item_ok never_panics_mono [OF analogPin_ok] split: option.split)
qed (auto intro!: hmp155_ok ptb330_ok wmt700_ok plsc_ok)

text \<open>
  The jobs of the bus drivers are safe: whatever bytes the line delivers and however the reads
  and writes fail, no driver indexes out of range (given that the Modbus client returns the
  registers it was asked for), every number it reports is in the range the driver tests, if it tests one (the ranges of PLS-C
  and SE200, below 999 for the wind sensor, a decoded register for the analog converter), and the batch it
  sends has exactly one reading per configured item, nil where there is no value.
\<close>

theorem driver_readings_safe:
  assumes "modbus_length d"
  shows "\<exists>tmp b'. driver_job fmt pf d b = (Inr tmp, b') \<and> readings_ok d tmp \<and>
    jobWrap False its tm (driver_job fmt pf d) b = (Some (job_batch its tm tmp), b') \<and>
    map (\<lambda>r. (id_ItemName r, id_Value r)) (job_batch its tm tmp) = map (\<lambda>(itemType, itemName). (itemName, map_index None tmp itemType)) its"
proof -
  from driver_job_ok [OF assms, of fmt pf] obtain tmp b' where "driver_job fmt pf d b = (Inr tmp, b')" "readings_ok d tmp"
    unfolding never_panics_def by blast
  then show ?thesis by (auto simp: jobWrap_def job_batch_def)
qed

theorem driver_readings_safe_witness:
  "\<exists>tmp b'. driver_job (\<lambda>_. ''1'') (\<lambda>_. Inr 1) (VEGAPULS61 (Inr (replicate 8 0)))
      \<lparr>bus_in = [], bus_fail = ErrTimeout, bus_writes = [], bus_write_fails = []\<rparr> = (Inr tmp, b') \<and>
    readings_ok (VEGAPULS61 (Inr (replicate 8 0))) tmp"
  using driver_readings_safe [of "VEGAPULS61 (Inr (replicate 8 0))" "\<lambda>_. ''1''" "\<lambda>_. Inr 1"
      "\<lparr>bus_in = [], bus_fail = ErrTimeout, bus_writes = [], bus_write_fails = []\<rparr>" "[(''water_distance'', ''level'')]" 5]
  by auto

section \<open>The counter of the PCF8583\<close>

text \<open>
  The documented behaviour of the chip while it does not count: a write stores the bytes from the
  given register on, a transaction reads from the given register on, and nothing fails.
\<close>

definition register_chip :: "'s i2c_dev \<Rightarrow> ('s \<Rightarrow> 8 word \<Rightarrow> 8 word) \<Rightarrow> bool" where
  "register_chip d regs \<longleftrightarrow>
     (\<forall>s off vs. \<exists>s'. i2c_Write d (off # vs) s = (Inr (), s') \<and>
        (\<forall>r. regs s' r = (if unat (r - off) < length vs then vs ! unat (r - off) else regs s r))) \<and>
     (\<forall>s off n. i2c_Tx d [off] n s = (Inr (map (\<lambda>i. regs s (off + word_of_nat i)) [0..<n]), s))"

lemma bcd_roundtrip:
  assumes "0 \<le> c" and "c < 100"
  shows "uint (bcdToBYTE (byteToBCD (word_of_int c))) = c"
proof -
  have "list_all (\<lambda>c. uint (bcdToBYTE (byteToBCD (word_of_int c))) = c) [0..99]" by code_simp
  then show ?thesis using assms by (simp add: list_all_iff)
qed

lemma chip_Write:
  assumes "register_chip d regs"
  obtains s' where "i2c_Write d (off # vs) s = (Inr (), s')"
    and "\<And>r. regs s' r = (if unat (r - off) < length vs then vs ! unat (r - off) else regs s r)"
  using assms unfolding register_chip_def by blast

lemma chip_Tx: "register_chip d regs \<Longrightarrow> i2c_Tx d [off] n s = (Inr (map (\<lambda>i. regs s (off + word_of_nat i)) [0..<n]), s)"
  by (simp add: register_chip_def)

lemma below_three: "unat (x :: 8 word) < 3 \<longleftrightarrow> x = 0 \<or> x = 1 \<or> x = 2"
proof -
  have "unat x < 3 \<longleftrightarrow> x < 3" by (simp add: word_less_nat_alt)
  moreover have "\<dots> \<longleftrightarrow> uint x = 0 \<or> uint x = 1 \<or> uint x = 2"
  proof -
    have "u < 3 \<longleftrightarrow> u = 0 \<or> u = 1 \<or> u = 2" if "0 \<le> u" for u :: int using that by presburger
    from this [OF uint_ge_0] show ?thesis by (simp add: word_less_def)
  qed
  moreover have "uint x = 1 \<longleftrightarrow> x = 1" "uint x = 2 \<longleftrightarrow> x = 2" "uint x = 0 \<longleftrightarrow> x = 0" by (simp_all add: word_uint_eq_iff)
  ultimately show ?thesis by simp
qed

lemma digits_of_count:
  assumes "0 \<le> c" and "c < 1000000"
  shows "(c smod 100) + ((c sdiv 100) smod 100) * 100 + ((c sdiv 10000) smod 100) * 10000 = (c :: int)"
    and "0 \<le> c smod 100" "c smod 100 < 100" "0 \<le> (c sdiv 100) smod 100" "(c sdiv 100) smod 100 < 100"
    and "0 \<le> (c sdiv 10000) smod 100" "(c sdiv 10000) smod 100 < 100"
proof -
  have sdiv: "a sdiv k = a div k" "a smod k = a mod k" if "0 \<le> a" "0 < k" for a k :: int
  proof -
    show d: "a sdiv k = a div k" using that by (cases "a = 0") (simp_all add: signed_divide_int_def)
    show "a smod k = a mod k" using that by (cases "a = 0") (simp_all add: signed_modulo_int_def)
  qed
  have nonneg: "0 \<le> c div 100" "0 \<le> c div 10000" using assms(1) by (simp_all add: pos_imp_zdiv_nonneg_iff)
  then have sm: "c smod 100 = c mod 100" "(c sdiv 100) smod 100 = (c div 100) mod 100" "(c sdiv 10000) smod 100 = (c div 10000) mod 100"
    using assms(1) by (simp_all add: sdiv)
  show "(c smod 100) + ((c sdiv 100) smod 100) * 100 + ((c sdiv 10000) smod 100) * 10000 = c"
  proof -
    let ?q = "c div 100"
    have "c div (100 * 100) = ?q div 100" by (rule zdiv_zmult2_eq) simp
    then have q: "c div 10000 = ?q div 100" by simp
    have "c div 10000 < 100" using assms(2) by (simp add: div_less_iff_less_mult)
    then have r: "?q div 100 mod 100 = ?q div 100" using nonneg(2) unfolding q by (rule mod_pos_pos_trivial [rotated])
    have split: "m + n * 100 + r * 10000 = x" if "x = 100 * y + m" "y = 100 * r + n" for m n r x y :: int using that by simp
    show ?thesis unfolding sm q r by (rule split [of c ?q]) simp_all
  qed
  show "0 \<le> c smod 100" "c smod 100 < 100" "0 \<le> (c sdiv 100) smod 100" "(c sdiv 100) smod 100 < 100"
    "0 \<le> (c sdiv 10000) smod 100" "(c sdiv 10000) smod 100 < 100" unfolding sm by simp_all
qed

text \<open>
  The counter of the PCF8583 is written and read back faithfully: for every count of six decimal
  digits, after \<open>setCount\<close> the count that \<open>getCount\<close> decodes from the three BCD registers is the one written,
  the stop bit of the control register is clear, its other bits are as before, and no other register
  changed.
\<close>

theorem pcf8583_count_roundtrip:
  assumes chip: "register_chip d regs" and c: "0 \<le> c" "c < 1000000"
  shows "\<exists>s'. setCount d c s = (Inr (), s') \<and> getCount d s' = (Inr c, s') \<and>
    regs s' 0 = regs s 0 AND 0x7F \<and> (\<forall>r. r \<notin> {0, 1, 2, 3} \<longrightarrow> regs s' r = regs s r)"
proof -
  let ?b0 = "byteToBCD (word_of_int (c smod 100))" and ?b1 = "byteToBCD (word_of_int ((c sdiv 100) smod 100))"
    and ?b2 = "byteToBCD (word_of_int ((c sdiv 10000) smod 100))"
  obtain s1 where s1: "i2c_Write d [0, regs s 0 OR 0x80] s = (Inr (), s1)"
    "\<And>r. regs s1 r = (if unat r < 1 then regs s 0 OR 0x80 else regs s r)"
    by (rule chip_Write [OF chip, of 0 "[regs s 0 OR 0x80]" s]) (auto simp: less_Suc_eq_0_disj)
  obtain s2 where s2: "i2c_Write d [1, ?b0, ?b1, ?b2] s1 = (Inr (), s2)"
    "\<And>r. regs s2 r = (if unat (r - 1) < 3 then [?b0, ?b1, ?b2] ! unat (r - 1) else regs s1 r)"
    by (rule chip_Write [OF chip, of 1 "[?b0, ?b1, ?b2]" s1]) auto
  obtain s3 where s3: "i2c_Write d [0, regs s 0 AND 0x7F] s2 = (Inr (), s3)"
    "\<And>r. regs s3 r = (if unat r < 1 then regs s 0 AND 0x7F else regs s2 r)"
    by (rule chip_Write [OF chip, of 0 "[regs s 0 AND 0x7F]" s2]) (auto simp: less_Suc_eq_0_disj)
  have "setCount d c s = (Inr (), s3)"
    using s1(1) s2(1) s3(1) by (simp add: setCount_def getRegister_def setRegister_def chip_Tx [OF chip] pcf8583_consts bindE_def retE_def)
  moreover have regs: "regs s3 1 = ?b0" "regs s3 2 = ?b1" "regs s3 3 = ?b2" "regs s3 0 = regs s 0 AND 0x7F"
    by (simp_all add: s3(2) s2(2))
  moreover have "getCount d s3 = (Inr c, s3)"
    using digits_of_count [OF c] bcd_roundtrip
    by (simp add: getCount_def chip_Tx [OF chip] pcf8583_consts bindE_def retE_def regs upt_rec)
  moreover have "regs s3 r = regs s r" if "r \<notin> {0, 1, 2, 3}" for r
  proof -
    have "r - 1 \<noteq> 0" "r - 1 \<noteq> 1" "r - 1 \<noteq> 2" "unat r \<noteq> 0" using that by (auto simp: diff_eq_eq unat_eq_zero)
    then show ?thesis by (simp add: s3(2) s2(2) s1(2) below_three)
  qed
  ultimately show ?thesis by blast
qed

text \<open>A register file as the example chip.\<close>

definition sample_chip :: "(8 word \<Rightarrow> 8 word) i2c_dev" where
  "sample_chip = \<lparr>
     i2c_Write = (\<lambda>bs s. (Inr (), \<lambda>r. if bs \<noteq> [] \<and> unat (r - hd bs) < length (tl bs) then tl bs ! unat (r - hd bs) else s r)),
     i2c_Tx = (\<lambda>bs n s. (Inr (map (\<lambda>i. s (hd bs + word_of_nat i)) [0..<n]), s))\<rparr>"

theorem pcf8583_count_roundtrip_witness:
  "\<exists>s'. setCount sample_chip 123456 (\<lambda>_. 0xA0) = (Inr (), s') \<and> getCount sample_chip s' = (Inr 123456, s') \<and> s' 0 = 0x20"
proof -
  have "register_chip sample_chip (\<lambda>s. s)" by (auto simp: register_chip_def sample_chip_def)
  from pcf8583_count_roundtrip [OF this, of 123456 "\<lambda>_. 0xA0"] show ?thesis by auto
qed

end
