(* ===== verification/DeviceSetup.thy ===== *)
theory DeviceSetup
  imports Devices
begin

text \<open>
  The constructors of the sensor drivers and connections (\<^verbatim>\<open>tide_client/device\<close>, \<^verbatim>\<open>tide_client/controller\<close>) with
  the Go maps they share. A constructor decodes its configuration, schedules the job of the driver and returns
  a map from the device name to the items; the item map of a driver with several items is the object its job
  ranges over at every run. \<open>MergeInfo\<close> keeps the first map of a device name and writes the items of later
  ones into it. Item maps therefore live in a store and are passed by reference; the outer maps are not
  shared. Decoded configurations are inputs, the GPIO, I2C and cron libraries parameters.
\<close>

section \<open>The store\<close>

text \<open>A scheduled job: with a reference to its items, or with one item name.\<close>

datatype sched = ItemsJob string nat | OneItemJob string string

record devices_state =
  su_maps :: "nat \<Rightarrow> (string, string) go_map"
  su_next :: nat
  su_jobs :: "sched list"
  su_sent :: "item_data list list"

type_synonym info = "(string, nat) go_map"
type_synonym 'a setup_op = "(devices_state, 'a) eff"

record setup_env =
  se_cron :: "string \<Rightarrow> unit result"
  se_lines :: "int \<Rightarrow> unit result"
  se_value :: "int \<Rightarrow> int result"
  se_ads :: "int \<Rightarrow> unit result"
  se_pin :: "int \<Rightarrow> int \<Rightarrow> unit result"
  se_now :: unix_ms

definition no_setup :: devices_state where
  "no_setup = \<lparr>su_maps = (\<lambda>_. []), su_next = 0, su_jobs = [], su_sent = []\<rparr>"

definition new_map :: "(string, string) go_map \<Rightarrow> nat setup_op" where
  "new_map m st = (Inr (su_next st), st\<lparr>su_maps := (su_maps st)(su_next st := m), su_next := Suc (su_next st)\<rparr>)"

text \<open>\<^verbatim>\<open>pkg.Must2(global.CronJob.AddFunc(cron, jobWrap))\<close>\<close>

definition add_func :: "setup_env \<Rightarrow> string \<Rightarrow> sched \<Rightarrow> unit setup_op" where
  "add_func env cron job = bindE (liftR (se_cron env cron)) (\<lambda>_. modifyE (\<lambda>st. st\<lparr>su_jobs := su_jobs st @ [job]\<rparr>))"

definition add_cron_job :: "setup_env \<Rightarrow> string \<Rightarrow> nat \<Rightarrow> string list \<Rightarrow> unit setup_op" where
  "add_cron_job env cron r provideItems =
     bindE (readE (\<lambda>st. verifyItems (su_maps st r) provideItems)) (\<lambda>_. add_func env cron (ItemsJob cron r))"

definition add_cron_job_one :: "setup_env \<Rightarrow> string \<Rightarrow> string \<Rightarrow> unit setup_op" where
  "add_cron_job_one env cron itemName =
     (if itemName = [] then liftR (exit_with ''Item name cannot be empty'') else add_func env cron (OneItemJob cron itemName))"

section \<open>Merging\<close>

text \<open>
  \<open>MergeInfo\<close> as Go runs it, on references to item maps that the drivers' jobs share. The function of the same name in
  \<open>ClientIngest\<close> is the same code read by value, for the theorems that do not depend on the sharing; \<open>merge_info_refines\<close> relates the two.
\<close>

definition insert_item :: "nat \<Rightarrow> string \<times> string \<Rightarrow> unit setup_op" where
  "insert_item dst it st =
     (if fst it = [] then (exit_with ''item_type is empty'', st)
      else if snd it = [] then (exit_with ''item_name is empty'', st)
      else if map_of (su_maps st dst) (fst it) \<noteq> None then (exit_with (fst it @ '' duplicate''), st)
      else (Inr (), st\<lparr>su_maps := (su_maps st)(dst := AList.update (fst it) (snd it) (su_maps st dst))\<rparr>))"

fun merge_device_refs :: "info \<Rightarrow> info \<Rightarrow> info setup_op" where
  "merge_device_refs [] dst st = (Inr dst, st)"
| "merge_device_refs ((deviceName, r) # src) dst st =
     (if deviceName = [] then (exit_with ''device_name is empty'', st)
      else if su_maps st r = [] then (exit_with ''srcItems length is 0'', st)
      else case map_of dst deviceName of
        Some d \<Rightarrow> bindE (forE (insert_item d) (su_maps st r)) (\<lambda>_. merge_device_refs src dst) st
      | None \<Rightarrow> merge_device_refs src (AList.update deviceName r dst) st)"

definition merge_info :: "info \<Rightarrow> info \<Rightarrow> info setup_op" where
  "merge_info dst src = (if src = [] then liftR (exit_with ''srcInfo length is 0'') else merge_device_refs src dst)"

section \<open>Drivers\<close>

definition items_device :: "setup_env \<Rightarrow> string list \<Rightarrow> string \<Rightarrow> string \<Rightarrow> (string, string) go_map \<Rightarrow> info setup_op" where
  "items_device env provideItems deviceName cron its =
     bindE (new_map its) (\<lambda>r. bindE (add_cron_job env cron r provideItems) (\<lambda>_. retE [(deviceName, r)]))"

definition one_item_device :: "setup_env \<Rightarrow> string \<Rightarrow> string \<Rightarrow> string \<Rightarrow> string \<Rightarrow> info setup_op" where
  "one_item_device env itemType deviceName cron itemName =
     bindE (add_cron_job_one env cron itemName) (\<lambda>_. bindE (new_map [(itemType, itemName)]) (\<lambda>r. retE [(deviceName, r)]))"

definition hmp155Items :: "string list" where "hmp155Items = [''air_humidity'', ''air_temperature'']"
definition ptb330Items :: "string list" where "ptb330Items = [''air_pressure'']"
definition wmt700Items :: "string list" where "wmt700Items = [''wind_speed'', ''wind_direction'']"
definition PLSCItems :: "string list" where
  "PLSCItems = [''water_level'', ''water_temperature'', ''water_conductivity'', ''water_salinity'', ''water_total_dissolved_solids'']"

text \<open>The models with several items, and the item type of those with one.\<close>

definition items_models :: "(string \<times> string list) list" where
  "items_models = [(''HMP155'', hmp155Items), (''PTB330'', ptb330Items), (''WMT700'', wmt700Items), (''PLS-C'', PLSCItems)]"

definition one_item_models :: "(string \<times> string) list" where
  "one_item_models = [(''PWD50'', ''air_visibility''), (''VEGAPULS61'', ''water_distance''), (''SE200'', ''water_distance''),
     (''ANALOG-VOLTAGE-MODBUS'', ''rain_intensity''), (''pcf8583'', ''pcf8583_counter'')]"

definition rg13_NewGPIODevice :: "setup_env \<Rightarrow> string \<Rightarrow> int \<Rightarrow> string \<Rightarrow> string \<Rightarrow> info setup_op" where
  "rg13_NewGPIODevice env deviceName pin itemName cron =
     bindE (liftR (se_lines env pin)) (\<lambda>_.
       one_item_device env ''rain_volume'' deviceName (if cron = [] then ''@every 1m'' else cron) itemName)"

definition gpioStateDetection_NewGPIODevice ::
  "setup_env \<Rightarrow> string \<Rightarrow> int \<Rightarrow> string \<Rightarrow> string \<Rightarrow> string \<Rightarrow> bool option \<Rightarrow> info setup_op" where
  "gpioStateDetection_NewGPIODevice env deviceName pin itemName itemType bias reportInitialValue =
     bindE (liftR (parseGPIOBias bias)) (\<lambda>_.
     bindE (liftR (se_lines env pin)) (\<lambda>_.
     bindE (if reportInitialValue = Some False then retE ()
            else bindE (liftR (se_value env pin)) (\<lambda>v. modifyE (\<lambda>st. st\<lparr>su_sent := su_sent st @
              [[\<lparr>id_At = se_now env, id_Typ = MsgGpioData, id_ItemName = itemName, id_Value = Some (of_int v)\<rparr>]]\<rparr>))) (\<lambda>_.
     bindE (new_map [(if itemType = [] then ''gpio_state'' else itemType, itemName)]) (\<lambda>r. retE [(deviceName, r)]))))"

record channel =
  ch_DeviceName :: string
  ch_Pin :: int
  ch_Cron :: string
  ch_ItemType :: string
  ch_ItemName :: string

text \<open>The loop over the analog channels of a converter or an Arduino board; \<open>pin\<close> requests the channel.\<close>

fun add_channels :: "setup_env \<Rightarrow> (int \<Rightarrow> unit result) \<Rightarrow> channel list \<Rightarrow> info \<Rightarrow> info setup_op" where
  "add_channels env pin [] dst = retE dst"
| "add_channels env pin (c # cs) dst =
     bindE (new_map [(ch_ItemType c, ch_ItemName c)]) (\<lambda>r.
     bindE (merge_info dst [(ch_DeviceName c, r)]) (\<lambda>dst'.
     bindE (liftR (pin (ch_Pin c))) (\<lambda>_.
     bindE (add_cron_job_one env (ch_Cron c) (ch_ItemName c)) (\<lambda>_. add_channels env pin cs dst'))))"

definition ads1115_NewI2CDevice :: "setup_env \<Rightarrow> int \<Rightarrow> channel list \<Rightarrow> info setup_op" where
  "ads1115_NewI2CDevice env i2c_addr cs = bindE (liftR (se_ads env i2c_addr)) (\<lambda>_. add_channels env (se_pin env i2c_addr) cs [])"

section \<open>Connections\<close>

text \<open>The decoded configuration of a model, by the shape of its structure.\<close>

datatype config =
    ItemsConf string string "(string, string) go_map"
  | OneItemConf string string string
  | RG13Conf string int string string
  | StateConf string int string string string "bool option"
  | AdsConf int "channel list"
  | SubConf sub
  | SubsConf "sub list"
  | ArduinoConf "sub list" "channel list"
and sub = Sub string config

definition known_devices :: Devices.registry where
  "known_devices = [(''HMP155'', [SharedBus]), (''PTB330'', [SharedBus]), (''WMT700'', [SharedBus]), (''PWD50'', [SharedBus]),
     (''VEGAPULS61'', [SharedBus]), (''ANALOG-VOLTAGE-MODBUS'', [SharedBus]), (''uart-rs485'', [SharedBus]), (''uart-rs232'', [SharedBus]),
     (''arduino'', [SharedBus]), (''PLS-C'', [SharedBus, SDI12]), (''SE200'', [SharedBus, SDI12]), (''pcf8583'', [I2C]), (''ads1115'', [I2C]),
     (''RG13'', [GPIO]), (''GPIOStateDetection'', [GPIO])]"

definition err_config :: go_error where "err_config = ErrorString ''json: cannot unmarshal''"

fun new_device :: "setup_env \<Rightarrow> string \<Rightarrow> config \<Rightarrow> info setup_op"
  and merge_subs :: "setup_env \<Rightarrow> capability \<Rightarrow> sub list \<Rightarrow> info \<Rightarrow> info setup_op" where
  "new_device env model (ItemsConf deviceName cron its) =
     (case map_of items_models model of Some provide \<Rightarrow> items_device env provide deviceName cron its | None \<Rightarrow> throwE err_config)"
| "new_device env model (OneItemConf deviceName cron itemName) =
     (case map_of one_item_models model of Some itemType \<Rightarrow> one_item_device env itemType deviceName cron itemName | None \<Rightarrow> throwE err_config)"
| "new_device env model (RG13Conf deviceName pin itemName cron) =
     (if model = ''RG13'' then rg13_NewGPIODevice env deviceName pin itemName cron else throwE err_config)"
| "new_device env model (StateConf deviceName pin itemName itemType bias report) =
     (if model = ''GPIOStateDetection'' then gpioStateDetection_NewGPIODevice env deviceName pin itemName itemType bias report else throwE err_config)"
| "new_device env model (AdsConf i2c_addr cs) =
     (if model = ''ads1115'' then ads1115_NewI2CDevice env i2c_addr cs else throwE err_config)"
| "new_device env model (SubConf s) = (if model = ''uart-rs232'' then merge_subs env SharedBus [s] [] else throwE err_config)"
| "new_device env model (SubsConf ss) = (if model = ''uart-rs485'' then merge_subs env SharedBus ss [] else throwE err_config)"
| "new_device env model (ArduinoConf ss cs) =
     (if model = ''arduino'' then bindE (merge_subs env SDI12 ss []) (add_channels env (\<lambda>_. Inr ()) cs) else throwE err_config)"
| "merge_subs env cap [] dst = retE dst"
| "merge_subs env cap (Sub model c # ss) dst =
     bindE (liftR (MustDevice cap model known_devices)) (\<lambda>_.
     bindE (new_device env model c) (\<lambda>subInfo. bindE (merge_info dst subInfo) (merge_subs env cap ss)))"

text \<open>The connection types; opening the bus or the chip may fail, which ends the process.\<close>

datatype conn_conf = TcpConf sub | UartConf "unit result" sub | I2cConf "unit result" "sub list" | GpioConf "unit result" "sub list"

fun new_conn :: "setup_env \<Rightarrow> conn_conf \<Rightarrow> info setup_op" where
  "new_conn env (TcpConf s) = merge_subs env SharedBus [s] []"
| "new_conn env (UartConf started s) = bindE (liftR started) (\<lambda>_. merge_subs env SharedBus [s] [])"
| "new_conn env (I2cConf opened_bus ss) = bindE (liftR opened_bus) (\<lambda>_. merge_subs env I2C ss [])"
| "new_conn env (GpioConf opened_chip ss) = bindE (liftR opened_chip) (\<lambda>_. merge_subs env GPIO ss [])"

text \<open>The first loop of \<open>addDevices\<close>.\<close>

fun setup_devices :: "setup_env \<Rightarrow> conn_conf list \<Rightarrow> info \<Rightarrow> info setup_op" where
  "setup_devices env [] dst = retE dst"
| "setup_devices env (c # cs) dst = bindE (new_conn env c) (\<lambda>subInfo. bindE (merge_info dst subInfo) (setup_devices env cs))"

section \<open>What the jobs range over\<close>

definition job_refs :: "sched list \<Rightarrow> nat list" where
  "job_refs js = List.map_filter (\<lambda>j. case j of ItemsJob _ r \<Rightarrow> Some r | OneItemJob _ _ \<Rightarrow> None) js"

lemma job_refs_simps [simp]:
  "job_refs [] = []" "job_refs (js @ ks) = job_refs js @ job_refs ks"
  "job_refs [ItemsJob cron r] = [r]" "job_refs [OneItemJob cron n] = []"
  by (simp_all add: job_refs_def List.map_filter_def)

text \<open>The device names of a configuration, and the items of its drivers with several items, in the order they are built.\<close>

fun conf_devices :: "config \<Rightarrow> string list" and subs_devices :: "sub list \<Rightarrow> string list" where
  "conf_devices (ItemsConf d _ _) = [d]"
| "conf_devices (OneItemConf d _ _) = [d]"
| "conf_devices (RG13Conf d _ _ _) = [d]"
| "conf_devices (StateConf d _ _ _ _ _) = [d]"
| "conf_devices (AdsConf _ cs) = remdups (map ch_DeviceName cs)"
| "conf_devices (SubConf s) = subs_devices [s]"
| "conf_devices (SubsConf ss) = subs_devices ss"
| "conf_devices (ArduinoConf ss cs) = subs_devices ss @ remdups (map ch_DeviceName cs)"
| "subs_devices [] = []"
| "subs_devices (Sub _ c # ss) = conf_devices c @ subs_devices ss"

fun conf_items :: "config \<Rightarrow> (string, string) go_map list" and subs_items :: "sub list \<Rightarrow> (string, string) go_map list" where
  "conf_items (ItemsConf _ _ its) = [its]"
| "conf_items (SubConf s) = subs_items [s]"
| "conf_items (SubsConf ss) = subs_items ss"
| "conf_items (ArduinoConf ss _) = subs_items ss"
| "conf_items _ = []"
| "subs_items [] = []"
| "subs_items (Sub _ c # ss) = conf_items c @ subs_items ss"

fun conn_subs :: "conn_conf \<Rightarrow> sub list" where
  "conn_subs (TcpConf s) = [s]"
| "conn_subs (UartConf _ s) = [s]"
| "conn_subs (I2cConf _ ss) = ss"
| "conn_subs (GpioConf _ ss) = ss"

text \<open>
  From \<open>st\<close> to \<open>st'\<close> jobs were added that range over \<open>its\<close>, and no map that existed was changed.
\<close>

definition grows :: "devices_state \<Rightarrow> devices_state \<Rightarrow> (string, string) go_map list \<Rightarrow> bool" where
  "grows st st' its \<longleftrightarrow> su_next st \<le> su_next st' \<and> (\<forall>r < su_next st. su_maps st' r = su_maps st r) \<and>
     (\<exists>js. su_jobs st' = su_jobs st @ js \<and> map (su_maps st') (job_refs js) = its \<and> (\<forall>r \<in> set (job_refs js). r < su_next st'))"

lemma grows_refl: "grows st st []"
  unfolding grows_def by (intro conjI exI [of _ "[]"]) simp_all

lemma grows_trans:
  assumes "grows st st1 a" "grows st1 st2 b"
  shows "grows st st2 (a @ b)"
proof -
  obtain js ks where j: "su_jobs st1 = su_jobs st @ js" "map (su_maps st1) (job_refs js) = a" "\<forall>r \<in> set (job_refs js). r < su_next st1"
    and k: "su_jobs st2 = su_jobs st1 @ ks" "map (su_maps st2) (job_refs ks) = b" "\<forall>r \<in> set (job_refs ks). r < su_next st2"
    using assms unfolding grows_def by blast
  have old: "su_maps st2 r = su_maps st1 r" if "r < su_next st1" for r using assms(2) that by (simp add: grows_def)
  have "map (su_maps st2) (job_refs js) = a" using j(2,3) old by (auto intro: map_cong)
  then show ?thesis
    using assms j k old unfolding grows_def by (intro conjI exI [of _ "js @ ks"]) (auto dest: order.strict_trans2)
qed

lemma grows_step:
  assumes "su_next st' = su_next st" "su_maps st' = su_maps st" "su_jobs st' = su_jobs st @ [OneItemJob c n] \<or> su_jobs st' = su_jobs st"
  shows "grows st st' []"
  using assms(3)
proof
  assume "su_jobs st' = su_jobs st @ [OneItemJob c n]"
  with assms(1,2) show ?thesis unfolding grows_def by (intro conjI exI [of _ "[OneItemJob c n]"]) simp_all
qed (use assms(1,2) in \<open>simp add: grows_def\<close>)

lemma grows_new_map: "new_map m st = (Inr r, st') \<Longrightarrow> grows st st' [] \<and> r = su_next st \<and> su_next st' = Suc r \<and> su_maps st' r = m"
  by (auto simp: new_map_def grows_def)

lemma grows_one:
  assumes "add_cron_job_one env cron n st = (Inr u, st')"
  shows "grows st st' [] \<and> su_next st' = su_next st \<and> su_maps st' = su_maps st"
  using assms by (auto simp: add_cron_job_one_def add_func_def eff_simps exit_with_def intro!: grows_step split: if_splits sum.splits)

lemma one_item_device_grows:
  assumes "one_item_device env t d cron n st = (Inr i, st')"
  shows "grows st st' [] \<and> map fst i = [d]"
proof -
  from assms obtain u st1 r where "add_cron_job_one env cron n st = (Inr u, st1)" "new_map [(t, n)] st1 = (Inr r, st')" "i = [(d, r)]"
    unfolding one_item_device_def by (auto elim!: bindE_cases simp: retE_def)
  then show ?thesis using grows_trans [of st st1 "[]" st' "[]"] grows_one grows_new_map by force
qed

lemma items_device_grows:
  assumes "items_device env provide d cron its st = (Inr i, st')"
  shows "grows st st' [its] \<and> map fst i = [d]"
proof -
  from assms obtain r st1 where "new_map its st = (Inr r, st1)" "i = [(d, r)]" "su_maps st' = su_maps st1" "su_next st' = su_next st1"
    "su_jobs st' = su_jobs st1 @ [ItemsJob cron r]"
    unfolding items_device_def add_cron_job_def add_func_def by (auto elim!: bindE_cases simp: retE_def readE_def liftR_def modifyE_def)
  then show ?thesis unfolding grows_def by (auto simp: new_map_def intro!: exI [of _ "[ItemsJob cron r]"])
qed

text \<open>Merging maps of new device names changes no map.\<close>

lemma update_absent: "k \<notin> fst ` set m \<Longrightarrow> AList.update k v m = m @ [(k, v)]"
  by (induction m) auto

lemma merge_disjoint:
  assumes "merge_info dst src st = (Inr dst', st')" "fst ` set src \<inter> fst ` set dst = {}" "wf_map src" "wf_map dst"
  shows "st' = st \<and> wf_map dst' \<and> fst ` set dst' = fst ` set dst \<union> fst ` set src"
proof -
  have "st' = st \<and> wf_map dst' \<and> fst ` set dst' = fst ` set dst \<union> fst ` set src"
    if "merge_device_refs src dst st = (Inr dst', st')" "fst ` set src \<inter> fst ` set dst = {}" "wf_map src" "wf_map dst" for src dst
    using that
  proof (induction src dst st rule: merge_device_refs.induct)
    case (2 d r src dst st)
    have d: "d \<notin> fst ` set dst" using "2.prems"(2) by auto
    then have new: "map_of dst d = None" by (simp add: map_of_eq_None_iff)
    with "2.prems"(1) have g: "d \<noteq> []" "su_maps st r \<noteq> []" and run: "merge_device_refs src (AList.update d r dst) st = (Inr dst', st')"
      by (simp_all add: exit_with_def split: if_splits)
    have "d \<notin> fst ` set src" "wf_map src" using "2.prems"(3) by (simp_all add: wf_map_def)
    moreover have "fst ` set (AList.update d r dst) = insert d (fst ` set dst)" using update_absent [OF d] by simp
    ultimately show ?case using "2.IH"(1) [OF g new run] "2.prems"(2,4) by auto
  qed simp_all
  then show ?thesis using assms by (auto simp: merge_info_def liftR_def exit_with_def split: if_splits)
qed

lemma insert_items_frame:
  assumes "forE (insert_item d) its st = (r, st')"
  shows "su_next st' = su_next st \<and> su_jobs st' = su_jobs st \<and> (\<forall>x. x \<noteq> d \<longrightarrow> su_maps st' x = su_maps st x)"
  using assms
proof (induction its arbitrary: st)
  case (Cons it its)
  then show ?case by (auto elim!: bindE_cases simp: insert_item_def split: if_splits)
qed (simp add: retE_def)

text \<open>One channel is merged into the map of its device, which is a map of this loop.\<close>

lemma merge_channel:
  assumes "merge_info dst [(d, r)] st = (Inr dst', st')" "wf_map dst"
  shows "wf_map dst' \<and> fst ` set dst' = insert d (fst ` set dst) \<and> su_next st' = su_next st \<and> su_jobs st' = su_jobs st \<and>
    (\<forall>x. (\<forall>y. (d, y) \<in> set dst \<longrightarrow> x \<noteq> y) \<longrightarrow> su_maps st' x = su_maps st x) \<and> set dst' \<subseteq> insert (d, r) (set dst)"
proof (cases "map_of dst d")
  case None
  then have "merge_info dst [(d, r)] st = (Inr (AList.update d r dst), st)" using assms(1)
    by (auto simp: merge_info_def exit_with_def split: if_splits)
  moreover have "AList.update d r dst = dst @ [(d, r)]" using None by (simp add: map_of_eq_None_iff update_absent)
  ultimately show ?thesis using assms None wf_map_update [OF assms(2), of d r] by auto
next
  case (Some y)
  then have y: "(d, y) \<in> set dst" by (rule map_of_SomeD)
  with assms(1) Some obtain u where "forE (insert_item y) (su_maps st r) st = (Inr u, st')" "dst' = dst"
    by (auto simp: merge_info_def exit_with_def retE_def elim!: bindE_cases split: if_splits)
  then show ?thesis using insert_items_frame [of y "su_maps st r" st] y assms(2) by (auto intro: rev_image_eqI)
qed

lemma add_channels_grows:
  assumes "add_channels env pin cs dst st = (Inr dst', st')" "wf_map dst"
    and "\<And>d r. (d, r) \<in> set dst \<Longrightarrow> d \<in> ch_DeviceName ` set cs \<Longrightarrow> base \<le> r" "base \<le> su_next st"
  shows "wf_map dst' \<and> fst ` set dst' = fst ` set dst \<union> ch_DeviceName ` set cs \<and> su_next st \<le> su_next st' \<and>
    (\<forall>r < base. su_maps st' r = su_maps st r) \<and> (\<exists>js. su_jobs st' = su_jobs st @ js \<and> job_refs js = [])"
  using assms
proof (induction cs arbitrary: dst st)
  case (Cons c cs)
  let ?d = "ch_DeviceName c"
  from Cons.prems(1) obtain r st1 dst1 st2 u st3 where r: "new_map [(ch_ItemType c, ch_ItemName c)] st = (Inr r, st1)"
    and m: "merge_info dst [(?d, r)] st1 = (Inr dst1, st2)"
    and j: "add_cron_job_one env (ch_Cron c) (ch_ItemName c) st2 = (Inr u, st3)" "add_channels env pin cs dst1 st3 = (Inr dst', st')"
    by (auto elim!: bindE_cases simp: liftR_def)
  have r': "r = su_next st" "su_next st1 = Suc r" "su_jobs st1 = su_jobs st" "\<forall>x. x \<noteq> r \<longrightarrow> su_maps st1 x = su_maps st x"
    using r by (auto simp: new_map_def)
  note ch = merge_channel [OF m Cons.prems(2)]
  have old: "su_maps st2 x = su_maps st x" if "x < base" for x
  proof -
    have "su_maps st2 x = su_maps st1 x" using ch that Cons.prems(3) [of ?d] by (metis image_eqI list.set_intros(1) not_le)
    with r' that Cons.prems(4) show ?thesis by simp
  qed
  have one: "su_next st3 = su_next st2" "su_maps st3 = su_maps st2" "\<exists>js. su_jobs st3 = su_jobs st2 @ js \<and> job_refs js = []"
    using grows_one [OF j(1)] by (auto simp: grows_def)
  have "wf_map dst' \<and> fst ` set dst' = fst ` set dst1 \<union> ch_DeviceName ` set cs \<and> su_next st3 \<le> su_next st' \<and>
    (\<forall>r < base. su_maps st' r = su_maps st3 r) \<and> (\<exists>js. su_jobs st' = su_jobs st3 @ js \<and> job_refs js = [])"
  proof (rule Cons.IH [OF j(2)])
    show "wf_map dst1" using ch by simp
    show "base \<le> su_next st3" using ch one r' Cons.prems(4) by simp
    show "base \<le> x" if "(d, x) \<in> set dst1" "d \<in> ch_DeviceName ` set cs" for d x
      using ch that Cons.prems(3) [of d x] Cons.prems(4) r'(1) by auto
  qed
  moreover have "\<exists>js. su_jobs st' = su_jobs st @ js \<and> job_refs js = []" 
    using calculation one(3) ch r'(3) by (metis append.assoc append_Nil job_refs_simps(2))
  ultimately show ?case using ch r' one old by auto
qed (simp add: retE_def)

text \<open>A constructor and a list of sub-devices, for pairwise distinct device names.\<close>

definition builds :: "info setup_op \<Rightarrow> string list \<Rightarrow> (string, string) go_map list \<Rightarrow> bool" where
  "builds m names its \<longleftrightarrow> (\<forall>st i st'. m st = (Inr i, st') \<longrightarrow> grows st st' its \<and> wf_map i \<and> fst ` set i = set names)"

lemma buildsD: "builds m names its \<Longrightarrow> m st = (Inr i, st') \<Longrightarrow> grows st st' its \<and> wf_map i \<and> fst ` set i = set names"
  by (simp add: builds_def)

lemma builds_device: "(\<And>st i st'. m st = (Inr i, st') \<Longrightarrow> grows st st' its \<and> map fst i = [d]) \<Longrightarrow> builds m [d] its"
  unfolding builds_def wf_map_def by (metis distinct_singleton list.set_map)

lemma builds_liftR: "builds m names its \<Longrightarrow> builds (bindE (liftR r) (\<lambda>_. m)) names its"
  unfolding builds_def by (cases r) (simp_all add: bindE_def liftR_def)

lemma builds_throw: "builds (throwE e) names its"
  by (simp add: builds_def throwE_def)

lemma builds_quiet:
  assumes "builds m names its" "\<And>st u st'. q st = (Inr u, st') \<Longrightarrow> grows st st' []"
  shows "builds (bindE q (\<lambda>_. m)) names its"
  unfolding builds_def
proof (intro allI impI)
  fix st i st'
  assume "bindE q (\<lambda>_. m) st = (Inr i, st')"
  then obtain u st1 where "q st = (Inr u, st1)" "m st1 = (Inr i, st')" by (auto elim: bindE_cases)
  then show "grows st st' its \<and> wf_map i \<and> fst ` set i = set names"
    using grows_trans [of st st1 "[]" st' its] assms(2) buildsD [OF assms(1)] by auto
qed

lemma builds_state: "builds (gpioStateDetection_NewGPIODevice env d pin n t bias report) [d] []"
  unfolding gpioStateDetection_NewGPIODevice_def
proof (intro builds_liftR builds_quiet)
  show "builds (bindE (new_map [(if t = [] then ''gpio_state'' else t, n)]) (\<lambda>r. retE [(d, r)])) [d] []"
    by (rule builds_device) (auto elim!: bindE_cases simp: retE_def dest!: grows_new_map)
qed (auto simp: liftR_def modifyE_def retE_def grows_refl elim!: bindE_cases intro!: grows_step split: if_splits)

lemma builds_channels:
  assumes "builds m names its" "set names \<inter> ch_DeviceName ` set cs = {}"
  shows "builds (bindE m (add_channels env pin cs)) (names @ remdups (map ch_DeviceName cs)) its"
  unfolding builds_def
proof (intro allI impI)
  fix st i st'
  assume "bindE m (add_channels env pin cs) st = (Inr i, st')"
  then obtain dst st1 where m: "m st = (Inr dst, st1)" and c: "add_channels env pin cs dst st1 = (Inr i, st')"
    by (auto elim: bindE_cases)
  note b = buildsD [OF assms(1) m]
  have "wf_map i \<and> fst ` set i = fst ` set dst \<union> ch_DeviceName ` set cs \<and> su_next st1 \<le> su_next st' \<and>
    (\<forall>r < su_next st1. su_maps st' r = su_maps st1 r) \<and> (\<exists>js. su_jobs st' = su_jobs st1 @ js \<and> job_refs js = [])"
    using b assms(2) by (intro add_channels_grows [OF c]) force+
  then have ch: "wf_map i" "fst ` set i = fst ` set dst \<union> ch_DeviceName ` set cs" "grows st1 st' []" by (auto simp: grows_def)
  show "grows st st' its \<and> wf_map i \<and> fst ` set i = set (names @ remdups (map ch_DeviceName cs))"
    using grows_trans [of st st1 its st' "[]"] b ch by auto
qed

lemma builds_merge:
  assumes "builds m names its" "set names \<inter> fst ` set dst = {}" "wf_map dst" "merge_info dst i st1 = (Inr dst', st2)" "m st = (Inr i, st1)"
  shows "grows st st2 its \<and> wf_map dst' \<and> fst ` set dst' = fst ` set dst \<union> set names"
  using buildsD [OF assms(1,5)] merge_disjoint [OF assms(4)] assms(2,3) by auto

lemma builds_bind_throw: "builds (if b then m else throwE e) names its \<longleftrightarrow> (b \<longrightarrow> builds m names its)"
  by (simp add: builds_throw)

definition merges :: "info \<Rightarrow> info setup_op \<Rightarrow> string list \<Rightarrow> (string, string) go_map list \<Rightarrow> bool" where
  "merges dst m names its \<longleftrightarrow>
     (\<forall>st i st'. m st = (Inr i, st') \<longrightarrow> grows st st' its \<and> wf_map i \<and> fst ` set i = fst ` set dst \<union> set names)"

lemma merges_Nil: "merges [] m names its \<longleftrightarrow> builds m names its"
  by (simp add: merges_def builds_def)

lemma setup_intact:
  "distinct (conf_devices c) \<Longrightarrow> builds (new_device env model c) (conf_devices c) (conf_items c)"
  "distinct (subs_devices ss) \<Longrightarrow> wf_map dst \<Longrightarrow> set (subs_devices ss) \<inter> fst ` set dst = {} \<Longrightarrow>
     merges dst (merge_subs env cap ss dst) (subs_devices ss) (subs_items ss)"
proof (induction env model c and env cap ss dst rule: new_device_merge_subs.induct)
  case (1 env model d cron its)
  then show ?case by (auto intro!: builds_device items_device_grows builds_throw split: option.split)
next
  case (2 env model d cron n)
  then show ?case by (auto intro!: builds_device one_item_device_grows builds_throw split: option.split)
next
  case (3 env model d pin n cron)
  have "builds (one_item_device env ''rain_volume'' d cron' n) [d] []" for cron' by (rule builds_device) (rule one_item_device_grows)
  then show ?case by (simp add: builds_bind_throw rg13_NewGPIODevice_def builds_liftR)
next
  case (4 env model d pin n t bias report)
  then show ?case by (simp add: builds_bind_throw builds_state)
next
  case (5 env model a cs)
  have "builds (retE []) [] []" by (simp add: builds_def retE_def grows_refl wf_map_def)
  then have "builds (bindE (retE []) (add_channels env (se_pin env a) cs)) ([] @ remdups (map ch_DeviceName cs)) []" by (rule builds_channels) simp
  then show ?case by (simp add: builds_bind_throw ads1115_NewI2CDevice_def builds_liftR)
next
  case (8 env model ss cs)
  then have "builds (merge_subs env SDI12 ss []) (subs_devices ss) (subs_items ss)" if "model = ''arduino''"
    using that by (simp add: merges_Nil wf_map_def)
  moreover have "set (subs_devices ss) \<inter> ch_DeviceName ` set cs = {}" using 8(2) by auto
  ultimately show ?case by (simp add: builds_bind_throw builds_channels)
next
  case (10 env cap model c ss dst)
  show ?case unfolding merges_def
  proof (intro allI impI)
    fix st dst' st'
    assume "merge_subs env cap (Sub model c # ss) dst st = (Inr dst', st')"
    then obtain i st1 dst1 st2 u where must: "MustDevice cap model known_devices = Inr u" and n: "new_device env model c st = (Inr i, st1)"
      and m: "merge_info dst i st1 = (Inr dst1, st2)" and rest: "merge_subs env cap ss dst1 st2 = (Inr dst', st')"
      by (auto elim!: bindE_cases simp: liftR_def)
    have b: "grows st st2 (conf_items c) \<and> wf_map dst1 \<and> fst ` set dst1 = fst ` set dst \<union> set (conf_devices c)"
      using "10.prems" by (intro builds_merge [OF "10.IH"(1) _ _ m n]) auto
    moreover have "merges dst1 (merge_subs env cap ss dst1) (subs_devices ss) (subs_items ss)"
      using "10.prems" b by (intro "10.IH"(2)) auto
    ultimately show "grows st st' (subs_items (Sub model c # ss)) \<and> wf_map dst' \<and>
        fst ` set dst' = fst ` set dst \<union> set (subs_devices (Sub model c # ss))"
      using rest grows_trans by (auto simp: merges_def)
  qed
qed (simp_all add: merges_Nil builds_bind_throw wf_map_def retE_def grows_refl, simp add: merges_def grows_refl wf_map_def retE_def)

lemma builds_conn: "distinct (subs_devices (conn_subs c)) \<Longrightarrow> builds (new_conn env c) (subs_devices (conn_subs c)) (subs_items (conn_subs c))"
  using setup_intact(2) [of "conn_subs c" "[]" env] by (cases c) (simp_all add: merges_Nil wf_map_def builds_liftR)

lemma setup_devices_intact:
  assumes "setup_devices env cs dst st = (Inr dst', st')" "distinct (concat (map (\<lambda>c. subs_devices (conn_subs c)) cs))" "wf_map dst"
    and "set (concat (map (\<lambda>c. subs_devices (conn_subs c)) cs)) \<inter> fst ` set dst = {}"
  shows "grows st st' (concat (map (\<lambda>c. subs_items (conn_subs c)) cs)) \<and>
    fst ` set dst' = fst ` set dst \<union> set (concat (map (\<lambda>c. subs_devices (conn_subs c)) cs))"
  using assms
proof (induction cs arbitrary: dst st)
  case (Cons c cs)
  from Cons.prems(1) obtain i st1 dst1 st2 where n: "new_conn env c st = (Inr i, st1)" and m: "merge_info dst i st1 = (Inr dst1, st2)"
    and rest: "setup_devices env cs dst1 st2 = (Inr dst', st')" by (auto elim!: bindE_cases)
  have b: "grows st st2 (subs_items (conn_subs c)) \<and> wf_map dst1 \<and> fst ` set dst1 = fst ` set dst \<union> set (subs_devices (conn_subs c))"
    using Cons.prems by (intro builds_merge [OF builds_conn _ _ m n]) auto
  then have "grows st2 st' (concat (map (\<lambda>c. subs_items (conn_subs c)) cs)) \<and>
      fst ` set dst' = fst ` set dst1 \<union> set (concat (map (\<lambda>c. subs_devices (conn_subs c)) cs))"
    using Cons.prems by (intro Cons.IH [OF rest]) auto
  with b show ?case using grows_trans by auto
qed (simp add: retE_def grows_refl)

text \<open>
  C13: the maps the drivers share with the station's description. When the configured device names
  are pairwise distinct, as the manual asks, and start-up succeeds, every scheduled job with several items ranges
  over exactly the items configured for its driver, and the station reports exactly the configured
  devices.
\<close>

theorem jobs_keep_items:
  assumes "setup_devices env cs [] no_setup = (Inr devs, st)" "distinct (concat (map (\<lambda>c. subs_devices (conn_subs c)) cs))"
  shows "map (su_maps st) (job_refs (su_jobs st)) = concat (map (\<lambda>c. subs_items (conn_subs c)) cs) \<and>
    fst ` set devs = set (concat (map (\<lambda>c. subs_devices (conn_subs c)) cs))"
  using setup_devices_intact [OF assms(1,2)] by (auto simp: grows_def no_setup_def wf_map_def)

definition bench_env :: setup_env where
  "bench_env = \<lparr>se_cron = (\<lambda>_. Inr ()), se_lines = (\<lambda>_. Inr ()), se_value = (\<lambda>_. Inr 1), se_ads = (\<lambda>_. Inr ()), se_pin = (\<lambda>_ _. Inr ()), se_now = 5\<rparr>"

definition bench_bus :: "string \<Rightarrow> string \<Rightarrow> conn_conf" where
  "bench_bus d d' = TcpConf (Sub ''uart-rs485'' (SubsConf [
     Sub ''HMP155'' (ItemsConf d ''@every 1m'' [(''air_humidity'', ''humidity'')]),
     Sub ''PTB330'' (ItemsConf d' ''@every 1m'' [(''air_pressure'', ''pressure'')])]))"

lemmas setup_simps = bench_bus_def bench_env_def no_setup_def eff_simps new_map_def items_device_def add_cron_job_def add_func_def
  merge_info_def insert_item_def items_models_def hmp155Items_def ptb330Items_def MustDevice_def getRegisteredDevice_def known_devices_def
  verifyItems_def

theorem jobs_keep_items_witness:
  "\<exists>devs st. setup_devices bench_env [bench_bus ''thermo'' ''baro''] [] no_setup = (Inr devs, st) \<and>
    map (su_maps st) (job_refs (su_jobs st)) = [[(''air_humidity'', ''humidity'')], [(''air_pressure'', ''pressure'')]]"
proof -
  let ?cs = "[bench_bus ''thermo'' ''baro'']"
  have "\<exists>devs st. setup_devices bench_env ?cs [] no_setup = (Inr devs, st)" by (simp add: setup_simps)
  then obtain devs st where run: "setup_devices bench_env ?cs [] no_setup = (Inr devs, st)" by blast
  from jobs_keep_items [OF this] show ?thesis using run by (simp add: bench_bus_def)
qed

section \<open>Maps by reference and by value\<close>

definition deref :: "devices_state \<Rightarrow> info \<Rightarrow> string_map_map" where
  "deref st i = map (\<lambda>(d, r). (d, su_maps st r)) i"

lemma deref_simps [simp]: "deref st [] = []" "deref st ((d, r) # i) = (d, su_maps st r) # deref st i"
  by (simp_all add: deref_def)

lemma map_of_deref: "map_of (deref st i) d = map_option (su_maps st) (map_of i d)"
  by (induction i) auto

lemma deref_update: "deref st (AList.update d r i) = AList.update d (su_maps st r) (deref st i)"
  by (induction i) auto

lemma deref_cong: "(\<And>r. r \<in> snd ` set i \<Longrightarrow> su_maps st' r = su_maps st r) \<Longrightarrow> deref st' i = deref st i"
  by (force simp: deref_def)

lemma deref_write:
  assumes "map_of i d = Some r" "distinct (map snd i)" "\<And>x. x \<noteq> r \<Longrightarrow> su_maps st' x = su_maps st x"
  shows "deref st' i = AList.update d (su_maps st' r) (deref st i)"
  using assms(1,2)
proof (induction i)
  case (Cons p i)
  obtain e x where p: "p = (e, x)" by (cases p)
  show ?case
  proof (cases "e = d")
    case True
    with Cons.prems p have "x = r" "deref st' i = deref st i" by (auto intro!: deref_cong assms(3) simp: image_iff)
    with True p show ?thesis by simp
  next
    case False
    with Cons.prems p have "x \<noteq> r" by (auto dest!: map_of_SomeD simp: image_iff)
    with False Cons p assms(3) show ?thesis by simp
  qed
qed simp

lemma insert_items_refine:
  "case forE (insert_item d) its st of
     (Inr u, st') \<Rightarrow> merge_items its (su_maps st d) = Inr (su_maps st' d)
   | (Inl e, st') \<Rightarrow> merge_items its (su_maps st d) = Inl e"
proof (induction its arbitrary: st)
  case (Cons it its)
  show ?case
  proof (cases "insert_item d it st")
    case (Pair r st1)
    show ?thesis using Cons.IH [of st1] Pair
      by (cases it) (auto simp: insert_item_def bindE_def exit_with_def split: if_splits sum.splits prod.splits)
  qed
qed (simp add: retE_def)

definition merge_refines :: "devices_state \<Rightarrow> info result \<times> devices_state \<Rightarrow> string_map_map result \<Rightarrow> bool" where
  "merge_refines st got want \<longleftrightarrow> (case got of (Inr i, st') \<Rightarrow> want = Inr (deref st' i) | (Inl e, _) \<Rightarrow> want = Inl e)"

lemma merge_devices_refine:
  assumes "distinct (map snd (src @ dst))" "wf_map dst"
  shows "merge_refines st (merge_device_refs src dst st) (merge_devices (deref st src) (deref st dst))"
  using assms
proof (induction src dst st rule: merge_device_refs.induct)
  case (2 d r src dst st)
  show ?case
  proof (cases "d = [] \<or> su_maps st r = []")
    case False
    then have g: "d \<noteq> []" "su_maps st r \<noteq> []" by simp_all
    show ?thesis
    proof (cases "map_of dst d")
      case None
      then have new: "AList.update d r dst = dst @ [(d, r)]" by (simp add: update_absent map_of_eq_None_iff)
      with "2.IH"(1) [OF g None] "2.prems" g None wf_map_update [OF "2.prems"(2), of d r] show ?thesis
        by (simp add: map_of_deref deref_update [symmetric] del: map_append) (auto simp: deref_def)
    next
      case (Some y)
      then have y: "y \<in> snd ` set dst" by (force dest: map_of_SomeD)
      obtain q st1 where run: "forE (insert_item y) (su_maps st r) st = (q, st1)" by fastforce
      have other: "su_maps st1 x = su_maps st x" if "x \<noteq> y" for x using insert_items_frame [OF run] that by simp
      have src: "deref st1 src = deref st src" using "2.prems"(1) y by (intro deref_cong other) auto
      have dst: "deref st1 dst = AList.update d (su_maps st1 y) (deref st dst)"
        using "2.prems"(1) other by (intro deref_write [OF Some]) auto
      have "merge_refines st1 (merge_device_refs src dst st1) (merge_devices (deref st1 src) (deref st1 dst))"
        using "2.IH"(2) [OF g Some] "2.prems" by simp
      then show ?thesis using g Some run insert_items_refine [where d = y and its = "su_maps st r" and st = st] src dst
        by (cases q) (simp_all add: map_of_deref bindE_def merge_refines_def)
    qed
  qed (auto simp: merge_refines_def exit_with_def)
qed (simp add: merge_refines_def)

text \<open>
  Merging maps by reference implements the merge by value. Whatever the maps are, as long as no item map
  occurs twice, \<open>MergeInfo\<close> on references succeeds or ends the process exactly as the merge of the maps' contents, and the
  merged references read as its result, whether device names are shared or not.
\<close>

theorem merge_info_refines:
  assumes "distinct (map snd (src @ dst))" "wf_map dst"
  shows "merge_refines st (merge_info dst src st) (MergeInfo (deref st dst) (deref st src))"
proof (cases "src = []")
  case False
  then have "deref st src \<noteq> []" by (cases src) auto
  with False merge_devices_refine [OF assms, of st] show ?thesis by (simp add: merge_info_def MergeInfo_def)
qed (simp add: merge_info_def MergeInfo_def merge_refines_def liftR_def exit_with_def)

theorem merge_info_refines_witness:
  "\<exists>i st'. merge_info [(''weather'', 0)] [(''weather'', 1)]
      \<lparr>su_maps = (\<lambda>r. if r = 0 then [(''air_humidity'', ''humidity'')] else [(''air_pressure'', ''pressure'')]), su_next = 2, su_jobs = [], su_sent = []\<rparr>
      = (Inr i, st') \<and>
    deref st' i = [(''weather'', [(''air_humidity'', ''humidity''), (''air_pressure'', ''pressure'')])]"
  using merge_info_refines [of "[(''weather'', 1)]" "[(''weather'', 0)]"
      "\<lparr>su_maps = (\<lambda>r. if r = 0 then [(''air_humidity'', ''humidity'')] else [(''air_pressure'', ''pressure'')]), su_next = 2, su_jobs = [], su_sent = []\<rparr>"]
  by (simp add: merge_refines_def wf_map_def merge_info_def insert_item_def eff_simps)

section \<open>Shared device names\<close>

lemma last_reading_job:
  assumes "distinct (map snd its)" and "(itemType, name) \<in> set its"
  shows "last_reading name (map (Pair received) (job_batch its tm tmp)) =
    Some \<lparr>id_At = tm, id_Typ = MsgData, id_ItemName = name, id_Value = map_index None tmp itemType\<rparr>"
  using assms
proof (induction its)
  case (Cons x its)
  have none: "last_reading name (map (Pair received) (job_batch ys tm tmp)) = None" if "name \<notin> snd ` set ys" for ys
    using that by (induction ys) (auto simp: last_reading_Cons job_batch_def, simp add: last_reading_def last_opt_def)
  show ?case
  proof (cases "x = (itemType, name)")
    case True
    with Cons.prems none [of its] show ?thesis by (simp add: last_reading_Cons job_batch_def)
  next
    case False
    with Cons show ?thesis by (auto simp: last_reading_Cons job_batch_def)
  qed
qed simp

lemma hmp155_no_pressure: "never_panics (hmp155_job pf addr) (\<lambda>tmp. map_index None tmp ''air_pressure'' = None)"
proof -
  have val: "never_panics (hmp155_value pf line u v) (\<lambda>_. True)" for line u v
    unfolding hmp155_value_def Let_def
    by (intro never_panics_if never_panics_ret never_panics_bind [where Q = "\<lambda>_. True"] never_panics_index) auto
  show ?thesis
    unfolding hmp155_job_def
    by (intro never_panics_nil_unless [OF ReadLine_nonempty] never_panics_bind [where Q = "\<lambda>_. True"] never_panics_if never_panics_index val)
      (auto intro!: never_panics_ret never_panics_bind [OF val] simp: map_index_def split: sum.splits option.splits)
qed

definition shared_bus :: "string \<Rightarrow> string \<Rightarrow> (string, string) go_map \<Rightarrow> string \<Rightarrow> string \<Rightarrow> conn_conf" where
  "shared_bus d c1 its c2 n = TcpConf (Sub ''uart-rs485'' (SubsConf [Sub ''HMP155'' (ItemsConf d c1 its), Sub ''PTB330'' (ItemsConf d c2 [(''air_pressure'', n)])]))"

lemma shared_bus_setup:
  assumes "d \<noteq> []" "its \<noteq> []" "fst ` set its \<subseteq> set hmp155Items" "n \<noteq> []" "\<And>cron. se_cron env cron = Inr ()"
  shows "\<exists>st. setup_devices env [shared_bus d c1 its c2 n] [] no_setup = (Inr [(d, 0)], st) \<and>
    su_jobs st = [ItemsJob c1 0, ItemsJob c2 1] \<and> su_maps st 0 = its @ [(''air_pressure'', n)]"
proof -
  have new: "''air_pressure'' \<notin> fst ` set its" using assms(3) by (auto simp: hmp155Items_def)
  then have "map_of its ''air_pressure'' = None" by (simp add: map_of_eq_None_iff)
  moreover have "list_all (\<lambda>it. fst it = ''air_humidity'' \<or> fst it = ''air_temperature'') its"
    using assms(3) by (auto simp: list_all_iff hmp155Items_def)
  ultimately show ?thesis using assms(1,2,4,5) update_absent [OF new] by (simp add: shared_bus_def setup_simps)
qed

text \<open>
  Two drivers with one device name. Start-up accepts the configuration and merges the items of the second
  driver into the map that the job of the first ranges over. Whatever the humidity sensor answers,
  its job then also sends a reading without a value for the pressure item, and the station gives the
  item the status abnormal.
\<close>

theorem shared_device_name_abnormal:
  assumes "d \<noteq> []" "its \<noteq> []" "fst ` set its \<subseteq> set hmp155Items" "distinct (map snd its)" "n \<noteq> []" "n \<notin> snd ` set its"
    and "\<And>cron. se_cron env cron = Inr ()"
  shows "\<exists>devs st batch b'. setup_devices env [shared_bus d c1 its c2 n] [] no_setup = (Inr devs, st) \<and>
    su_jobs st = [ItemsJob c1 0, ItemsJob c2 1] \<and>
    jobWrap False (su_maps st 0) tm (driver_job fmt pf (HMP155 addr)) b = (Some batch, b') \<and>
    cached_status n (receiveData [map (Pair received) batch] s) = Abnormal"
proof -
  from shared_bus_setup [OF assms(1-3,5,7)] obtain st where st: "setup_devices env [shared_bus d c1 its c2 n] [] no_setup = (Inr [(d, 0)], st)"
    "su_jobs st = [ItemsJob c1 0, ItemsJob c2 1]" "su_maps st 0 = its @ [(''air_pressure'', n)]" by blast
  from hmp155_no_pressure obtain tmp b' where tmp: "hmp155_job pf addr b = (Inr tmp, b')" "map_index None tmp ''air_pressure'' = None"
    unfolding never_panics_def by blast
  have "distinct (map snd (su_maps st 0))" "(''air_pressure'', n) \<in> set (su_maps st 0)" using st(3) assms(4,6) by auto
  from last_reading_job [OF this, of received tm tmp]
  have "cached_status n (receiveData [map (Pair received) (job_batch (su_maps st 0) tm tmp)] s) = Abnormal"
    using tmp(2) by (simp add: receiveData_concat cached_status_batch reading_status_def)
  then show ?thesis using st(1,2) tmp(1) by (auto simp: jobWrap_def)
qed

theorem shared_device_name_abnormal_witness:
  "\<exists>devs st batch b'. setup_devices bench_env [shared_bus ''weather'' ''@every 1m'' [(''air_humidity'', ''humidity'')] ''@every 1m'' ''pressure''] []
      no_setup = (Inr devs, st) \<and>
    jobWrap False (su_maps st 0) 5 (driver_job (\<lambda>_. ''1'') (\<lambda>_. Inr 1) (HMP155 ''0''))
      \<lparr>bus_in = [], bus_fail = ErrTimeout, bus_writes = [], bus_write_fails = []\<rparr> = (Some batch, b') \<and>
    cached_status ''pressure'' (receiveData [map (Pair 6) batch] idle_station) = Abnormal"
  using shared_device_name_abnormal [of "''weather''" "[(''air_humidity'', ''humidity'')]" "''pressure''" bench_env
      "''@every 1m''" "''@every 1m''" 5 "\<lambda>_. ''1''" "\<lambda>_. Inr 1" "''0''" "\<lparr>bus_in = [], bus_fail = ErrTimeout, bus_writes = [], bus_write_fails = []\<rparr>" 6 idle_station]
  by (auto simp: hmp155Items_def bench_env_def)

end
