(* ===== verification/UpstreamConn.thy ===== *)
theory UpstreamConn
  imports RelaySession V1Relay
begin

text \<open>
  How a server reaches its upstreams: the authenticated HTTP client of \<^verbatim>\<open>internal/upstreamauth/client.go\<close>,
  the connection attempts of both protocols and the loops that repeat them
  (\<^verbatim>\<open>tide_server/controller/sync_client.go\<close>, \<^verbatim>\<open>tide_server/syncv2/relay/downstream.go\<close>).

  The HTTP library is the record \<open>http_client\<close>: building a request for a URL, sending a login form and
  sending a request with a bearer token, each with a state of the network. \<open>au_sent\<close> is the trace of
  what was sent and \<open>au_open\<close> counts the response bodies that were received and not closed.
\<close>

section \<open>The client\<close>

record auth_config =
  cf_BaseURL :: string
  cf_Username :: string
  cf_Password :: string
  cf_LoginPath :: string
  cf_LoginTimeout :: int

record auth_client =
  ac_baseURL :: string
  ac_username :: string
  ac_password :: string
  ac_loginPath :: string
  ac_loginTimeout :: int

definition defaultLoginPath :: string where "defaultLoginPath = ''/login''"
definition defaultLoginTimeout :: int where "defaultLoginTimeout = 10 * 1000000000"

definition err_empty_base_url :: go_error where "err_empty_base_url = ErrorString ''empty base url''"
definition err_empty_username :: go_error where "err_empty_username = ErrorString ''empty username''"
definition err_empty_password :: go_error where "err_empty_password = ErrorString ''empty password''"

definition NewClient :: "auth_config \<Rightarrow> auth_client result" where
  "NewClient cfg =
     (let baseURL = TrimSpace (cf_BaseURL cfg); username = TrimSpace (cf_Username cfg) in
      if baseURL = [] then Inl err_empty_base_url
      else if \<not> Contains baseURL ''://'' then Inl err_no_scheme
      else if username = [] then Inl err_empty_username
      else if cf_Password cfg = [] then Inl err_empty_password
      else let p1 = TrimSpace (cf_LoginPath cfg);
               p2 = (if p1 = [] then defaultLoginPath else p1);
               loginPath = (if HasPrefix p2 ''/'' then p2 else ''/'' @ p2);
               loginTimeout = (if cf_LoginTimeout cfg \<le> 0 then defaultLoginTimeout else cf_LoginTimeout cfg)
           in Inr \<lparr>ac_baseURL = trim_right (\<lambda>c. c = CHR ''/'') baseURL, ac_username = username, ac_password = cf_Password cfg,
                   ac_loginPath = loginPath, ac_loginTimeout = loginTimeout\<rparr>)"

text \<open>A response: its status and, for a login, the decoded access token; for an upgrade, whether the body is writable.\<close>

record login_answer =
  la_status :: int
  la_token :: "string result"

record http_answer =
  ha_status :: int
  ha_duplex :: bool

record 's http_client =
  hc_NewRequest :: "string \<Rightarrow> unit result"
  hc_Login :: "string \<Rightarrow> string \<Rightarrow> string \<Rightarrow> ('s, login_answer) eff"
  hc_Do :: "string \<Rightarrow> string \<Rightarrow> ('s, http_answer) eff"

datatype sent = SentLogin string | SentRequest string string

record 's auth_state =
  au_token :: string
  au_net :: 's
  au_sent :: "sent list"
  au_open :: int

definition on_net :: "('s, 'a) eff \<Rightarrow> ('s auth_state, 'a) eff" where
  "on_net m st = (case m (au_net st) of (r, n) \<Rightarrow> (r, st\<lparr>au_net := n\<rparr>))"

definition trace :: "sent \<Rightarrow> ('s auth_state, unit) eff" where
  "trace e = modifyE (\<lambda>st. st\<lparr>au_sent := au_sent st @ [e]\<rparr>)"

definition opened :: "('s auth_state, unit) eff" where
  "opened = modifyE (\<lambda>st. st\<lparr>au_open := au_open st + 1\<rparr>)"

definition closed :: "('s auth_state, unit) eff" where
  "closed = modifyE (\<lambda>st. st\<lparr>au_open := au_open st - 1\<rparr>)"

definition err_login_status :: go_error where "err_login_status = ErrorString ''upstream login returned''"
definition err_empty_token :: go_error where "err_empty_token = ErrorString ''upstream login returned empty access_token''"

definition login :: "'s http_client \<Rightarrow> auth_client \<Rightarrow> ('s auth_state, string) eff" where
  "login hc c =
     (let loginURL = ac_baseURL c @ ac_loginPath c in
      bindE (liftR (hc_NewRequest hc loginURL)) (\<lambda>_.
      bindE (trace (SentLogin loginURL)) (\<lambda>_.
      bindE (on_net (hc_Login hc loginURL (ac_username c) (ac_password c))) (\<lambda>resp.
      bindE opened (\<lambda>_.
        finallyE closed
          (if la_status resp \<noteq> 200 then throwE err_login_status
           else bindE (liftR (la_token resp)) (\<lambda>tok.
             let token = TrimSpace tok in if token = [] then throwE err_empty_token else retE token)))))))"

definition getToken :: "'s http_client \<Rightarrow> auth_client \<Rightarrow> bool \<Rightarrow> ('s auth_state, string) eff" where
  "getToken hc c forceRefresh =
     bindE (modifyE (\<lambda>st. if forceRefresh then st\<lparr>au_token := []\<rparr> else st)) (\<lambda>_ st.
       let token = TrimSpace (au_token st) in
       if token \<noteq> [] then (Inr token, st)
       else bindE (login hc c) (\<lambda>tok. bindE (modifyE (\<lambda>st. st\<lparr>au_token := tok\<rparr>)) (\<lambda>_. retE tok)) st)"

text \<open>One request: the caller's factory builds it for \<open>url\<close> with the token, the library sends it.\<close>

definition do_request :: "'s http_client \<Rightarrow> string \<Rightarrow> string \<Rightarrow> ('s auth_state, http_answer) eff" where
  "do_request hc url token =
     bindE (liftR (hc_NewRequest hc url)) (\<lambda>_.
     bindE (trace (SentRequest url token)) (\<lambda>_.
     bindE (on_net (hc_Do hc url token)) (\<lambda>resp. bindE opened (\<lambda>_. retE resp))))"

definition DoWithAuth :: "'s http_client \<Rightarrow> auth_client \<Rightarrow> string \<Rightarrow> ('s auth_state, http_answer) eff" where
  "DoWithAuth hc c url =
     bindE (getToken hc c False) (\<lambda>token.
     bindE (do_request hc url token) (\<lambda>resp.
       if ha_status resp \<noteq> 401 then retE resp
       else bindE closed (\<lambda>_.
            bindE (getToken hc c True) (\<lambda>token'. do_request hc url token'))))"

section \<open>Connection attempts\<close>

definition syncPath :: string where "syncPath = ''/sync''"

text \<open>The client \<open>startSync\<close> makes for an upstream; \<open>None\<close> is the nil pointer after an error.\<close>

definition upstream_client :: "upstream \<Rightarrow> auth_client option" where
  "upstream_client up =
     (case NewClient \<lparr>cf_BaseURL = u_Url up, cf_Username = u_Username up, cf_Password = u_Password up,
        cf_LoginPath = ''/login'', cf_LoginTimeout = 10 * 1000000000\<rparr> of Inl _ \<Rightarrow> None | Inr c \<Rightarrow> Some c)"

text \<open>The first protocol: what the multiplexed session and its streams deliver is the argument \<open>session\<close>.\<close>

definition dialUpstream ::
  "'s http_client \<Rightarrow> upstream \<Rightarrow> (v1_relay_state, unit) eff \<Rightarrow> ('s auth_state \<times> v1_relay_state, unit) eff" where
  "dialUpstream hc up session =
     (case upstream_client up of
        None \<Rightarrow> retE ()
      | Some c \<Rightarrow>
          bindE (tryE (fstE (DoWithAuth hc c (u_Url up @ syncPath)))) (\<lambda>r.
            case r of
              Inl _ \<Rightarrow> retE ()
            | Inr resp \<Rightarrow>
                finallyE (fstE closed)
                  (if ha_status resp = 401 then retE ()
                   else if ha_status resp \<noteq> 101 then retE ()
                   else if \<not> ha_duplex resp then retE ()
                   else ignoreE (sndE session))))"

text \<open>\<open>stop\<close>: the context is cancelled while the loop waits.\<close>

fun fetchUpstreamLoop ::
  "'s http_client \<Rightarrow> upstream \<Rightarrow> ((v1_relay_state, unit) eff \<times> bool) list \<Rightarrow> ('s auth_state \<times> v1_relay_state, unit) eff" where
  "fetchUpstreamLoop hc up [] = retE ()"
| "fetchUpstreamLoop hc up ((session, stop) # rest) =
     bindE (dialUpstream hc up session) (\<lambda>_. if stop then retE () else fetchUpstreamLoop hc up rest)"

text \<open>The second protocol.\<close>

definition err_auth_failed :: go_error where "err_auth_failed = ErrorString ''upstream authentication failed''"
definition err_upgrade_status :: go_error where "err_upgrade_status = ErrorString ''unexpected upgrade status''"
definition err_not_duplex :: go_error where "err_not_duplex = ErrorString ''response body does not implement io.ReadWriteCloser''"
definition err_missing_client :: go_error where "err_missing_client = ErrorString ''missing auth client''"

definition openDownstreamStream :: "'s http_client \<Rightarrow> auth_client \<Rightarrow> string \<Rightarrow> ('s auth_state, unit) eff" where
  "openDownstreamStream hc c baseURL =
     bindE (liftR (RelayURL baseURL)) (\<lambda>relayURL.
     bindE (DoWithAuth hc c relayURL) (\<lambda>resp.
       if ha_status resp = 401 then bindE closed (\<lambda>_. throwE err_auth_failed)
       else if ha_status resp \<noteq> 101 then bindE closed (\<lambda>_. throwE err_upgrade_status)
       else if \<not> ha_duplex resp then bindE closed (\<lambda>_. throwE err_not_duplex)
       else retE ()))"

definition downstream_attempt ::
  "'s http_client \<Rightarrow> upstream \<Rightarrow> (tide_db, 'n) relay_deps \<Rightarrow> (uuid_strings_map \<Rightarrow> uuid_strings_map) \<Rightarrow> relay_message stream
     \<Rightarrow> ('s auth_state \<times> tide_db \<times> 'n, unit) eff" where
  "downstream_attempt hc up deps visit stream =
     (case upstream_client up of
        None \<Rightarrow> throwE err_missing_client
      | Some c \<Rightarrow>
          bindE (fstE (openDownstreamStream hc c (u_Url up))) (\<lambda>_.
            finallyE (fstE closed)
              (sndE (\<lambda>dn. case RunDownstream visit deps (u_Id up) (u_Username up) (dn, stream) of (r, (dn', _)) \<Rightarrow> (r, dn')))))"

record attempt =
  at_visit :: "uuid_strings_map \<Rightarrow> uuid_strings_map"
  at_stream :: "relay_message stream"
  at_cancelled :: bool
  at_stop :: bool

text \<open>\<open>RunDownstreamWithRetry\<close> with the callback that \<open>fetchUpstreamLoopV2\<close> passes.\<close>

fun fetchUpstreamLoopV2 ::
  "'s http_client \<Rightarrow> upstream \<Rightarrow> (tide_db, 'n) relay_deps \<Rightarrow> attempt list \<Rightarrow> ('s auth_state \<times> tide_db \<times> 'n, unit) eff" where
  "fetchUpstreamLoopV2 hc up deps [] = retE ()"
| "fetchUpstreamLoopV2 hc up deps (a # rest) =
     bindE (tryE (downstream_attempt hc up deps (at_visit a) (at_stream a))) (\<lambda>_.
       if at_cancelled a then retE ()
       else bindE (ignoreE (sndE (fstE (RemoveAvailableByUpstreamId (u_Id up))))) (\<lambda>_.
         if at_stop a then retE () else fetchUpstreamLoopV2 hc up deps rest))"

section \<open>What the client does on every network\<close>

lemma on_net_simps [simp]:
  "au_token (snd (on_net m st)) = au_token st" "au_sent (snd (on_net m st)) = au_sent st" "au_open (snd (on_net m st)) = au_open st"
  by (simp_all add: on_net_def split: prod.split)

text \<open>
  \<open>bodies m a e\<close>: the computation leaves \<open>a\<close> more response bodies open when it succeeds and \<open>e\<close> more when
  it fails.
\<close>

definition bodies :: "('s auth_state, 'a) eff \<Rightarrow> int \<Rightarrow> int \<Rightarrow> bool" where
  "bodies m a e \<longleftrightarrow> (\<forall>st. au_open (snd (m st)) = au_open st + (if isOk (fst (m st)) then a else e))"

named_theorems body_rules "rules for the response bodies a computation leaves open"

lemma bodies_ret [body_rules]: "bodies (retE x) 0 e"
  by (simp add: bodies_def retE_def)

lemma bodies_throw [body_rules]: "bodies (throwE err) a 0"
  by (simp add: bodies_def throwE_def)

lemma bodies_lift [body_rules]: "bodies (liftR r) 0 0"
  by (simp add: bodies_def liftR_def)

lemma bodies_opened [body_rules]: "bodies opened 1 e"
  by (simp add: bodies_def opened_def modifyE_def)

lemma bodies_closed [body_rules]: "bodies closed (- 1) e"
  by (simp add: bodies_def closed_def modifyE_def)

lemma bodies_trace [body_rules]: "bodies (trace ev) 0 0"
  by (simp add: bodies_def trace_def modifyE_def)

lemma bodies_net [body_rules]: "bodies (on_net m) 0 0"
  by (simp add: bodies_def)

lemma bodies_if [body_rules]: "bodies m a e \<Longrightarrow> bodies n a e \<Longrightarrow> bodies (if c then m else n) a e"
  by simp

lemma bodies_finally: "bodies m 0 0 \<Longrightarrow> bodies (finallyE closed m) (- 1) (- 1)"
  unfolding bodies_def finallyE_def closed_def modifyE_def by (auto split: prod.split) (metis snd_conv)

lemma bodies_bind:
  assumes "bodies m a e" "\<And>x. bodies (f x) b' e'" "b = a + b'" "e = a + e'"
  shows "bodies (bindE m f) b e"
  unfolding bodies_def
proof
  fix st
  obtain r st' where r: "m st = (r, st')" by fastforce
  have m: "au_open st' = au_open st + (if isOk r then a else e)" using assms(1) r unfolding bodies_def by (metis fst_conv snd_conv)
  show "au_open (snd (bindE m f st)) = au_open st + (if isOk (fst (bindE m f st)) then b else e)"
  proof (cases r)
    case (Inr x)
    with m r assms(2) [of x] assms(3,4) show ?thesis by (simp add: bindE_def bodies_def)
  qed (use r m in \<open>simp add: bindE_def\<close>)
qed

lemma bodies_then: "bodies m 0 e \<Longrightarrow> (\<And>x. bodies (f x) b e) \<Longrightarrow> bodies (bindE m f) b e"
  by (rule bodies_bind [where a = 0 and b' = b and e' = e]) simp_all

lemma bodies_login: "bodies (login hc c) 0 0"
proof -
  have fin: "bodies (finallyE closed (if la_status resp \<noteq> 200 then throwE err_login_status else bindE (liftR (la_token resp)) (\<lambda>tok.
      if TrimSpace tok = [] then throwE err_empty_token else retE (TrimSpace tok)))) (- 1) (- 1)" for resp
    by (intro bodies_finally body_rules bodies_then [OF bodies_lift])
  show ?thesis
    unfolding login_def Let_def
    by (intro bodies_then [OF bodies_lift] bodies_then [OF bodies_trace] bodies_then [OF bodies_net] bodies_bind [OF bodies_opened fin]) simp_all
qed

lemma bodies_getToken: "bodies (getToken hc c force) 0 0"
proof -
  have upd: "bodies (modifyE f) 0 0" if "\<And>st. au_open (f st) = au_open st" for f :: "'a auth_state \<Rightarrow> 'a auth_state"
    using that by (simp add: bodies_def modifyE_def)
  have fetch: "bodies (bindE (login hc c) (\<lambda>tok. bindE (modifyE (\<lambda>st. st\<lparr>au_token := tok\<rparr>)) (\<lambda>_. retE tok))) 0 0"
    by (intro bodies_then [OF bodies_login] bodies_then [OF upd] body_rules) simp
  show ?thesis
    unfolding getToken_def by (intro bodies_then [OF upd]) (use fetch in \<open>auto simp: bodies_def Let_def\<close>)
qed

lemma bodies_do_request: "bodies (do_request hc url token) 1 0"
  unfolding do_request_def
  by (intro bodies_then [OF bodies_lift] bodies_then [OF bodies_trace] bodies_then [OF bodies_net] bodies_bind [OF bodies_opened bodies_ret [where e = "- 1"]])
    simp_all

lemma bodies_DoWithAuth: "bodies (DoWithAuth hc c url) 1 0"
proof -
  have "bodies (bindE closed (\<lambda>_. bindE (getToken hc c True) (\<lambda>token'. do_request hc url token'))) 0 (- 1)"
    by (rule bodies_bind [OF bodies_closed bodies_then [OF bodies_getToken bodies_do_request]]) simp_all
  then have "bodies (bindE (do_request hc url token) (\<lambda>resp. if ha_status resp \<noteq> 401 then retE resp
      else bindE closed (\<lambda>_. bindE (getToken hc c True) (\<lambda>token'. do_request hc url token')))) 1 0" for token
    by (intro bodies_bind [OF bodies_do_request, of _ 0 "- 1"] bodies_if bodies_ret) simp_all
  then show ?thesis unfolding DoWithAuth_def by (intro bodies_then [OF bodies_getToken])
qed

lemma bodies_open: "bodies (openDownstreamStream hc c baseURL) 1 0"
proof -
  have fail: "bodies (bindE closed (\<lambda>_. throwE err)) 0 (- 1)" for err
    by (rule bodies_bind [OF bodies_closed bodies_throw]) simp_all
  show ?thesis
    unfolding openDownstreamStream_def
    by (intro bodies_then [OF bodies_lift] bodies_bind [OF bodies_DoWithAuth, of _ 0 "- 1"] bodies_if fail bodies_ret) simp_all
qed

text \<open>Connection attempts close what they open, whatever the network and the session do.\<close>

lemma fstE_open: "au_open (fst (snd (fstE m st))) = au_open (snd (m (fst st)))"
  by (simp add: fstE_def split: prod.split)

lemma fst_sndE [simp]: "fst (snd (sndE m st)) = fst st"
  by (simp add: sndE_def split: prod.split)

lemma fst_closed: "au_open (fst (snd (finallyE (fstE closed) m st))) = au_open (fst (snd (m st))) - 1"
  by (simp add: finallyE_def fstE_def closed_def modifyE_def split: prod.split)

lemma dialUpstream_closes: "au_open (fst (snd (dialUpstream hc up session st))) = au_open (fst st)"
proof (cases "upstream_client up")
  case (Some c)
  obtain r a where d: "DoWithAuth hc c (u_Url up @ syncPath) (fst st) = (r, a)" by fastforce
  with bodies_DoWithAuth [of hc c "u_Url up @ syncPath"] have "au_open a = au_open (fst st) + (if isOk r then 1 else 0)"
    unfolding bodies_def by (metis fst_conv snd_conv)
  with d Some show ?thesis
    by (cases r) (simp_all add: dialUpstream_def bindE_def tryE_def fstE_def retE_def fst_closed ignoreE_def)
qed (simp add: dialUpstream_def retE_def)

lemma downstream_attempt_closes: "au_open (fst (snd (downstream_attempt hc up deps visit stream st))) = au_open (fst st)"
proof (cases "upstream_client up")
  case (Some c)
  obtain r a where d: "openDownstreamStream hc c (u_Url up) (fst st) = (r, a)" by fastforce
  with bodies_open [of hc c "u_Url up"] have "au_open a = au_open (fst st) + (if isOk r then 1 else 0)"
    unfolding bodies_def by (metis fst_conv snd_conv)
  with d Some show ?thesis
    by (cases r) (simp_all add: downstream_attempt_def bindE_def fstE_def [of "openDownstreamStream hc c (u_Url up)"] fst_closed)
qed (simp add: downstream_attempt_def throwE_def)

lemma loops_close:
  "au_open (fst (snd (fetchUpstreamLoop hc up sessions st))) = au_open (fst st)"
  "au_open (fst (snd (fetchUpstreamLoopV2 hc up deps attempts st'))) = au_open (fst st')"
proof -
  show "au_open (fst (snd (fetchUpstreamLoop hc up sessions st))) = au_open (fst st)"
  proof (induction sessions arbitrary: st)
    case (Cons x rest)
    obtain session stop where x: "x = (session, stop)" by (cases x)
    obtain r st1 where d: "dialUpstream hc up session st = (r, st1)" by (cases "dialUpstream hc up session st")
    with dialUpstream_closes [of hc up session st] have "au_open (fst st1) = au_open (fst st)" by simp
    with d x Cons show ?case by (cases r) (simp_all add: bindE_def retE_def)
  qed (simp add: retE_def)
  show "au_open (fst (snd (fetchUpstreamLoopV2 hc up deps attempts st'))) = au_open (fst st')"
  proof (induction attempts arbitrary: st')
    case (Cons a rest)
    obtain r st1 where d: "downstream_attempt hc up deps (at_visit a) (at_stream a) st' = (r, st1)"
      by (cases "downstream_attempt hc up deps (at_visit a) (at_stream a) st'")
    with downstream_attempt_closes [of hc up deps "at_visit a" "at_stream a" st'] have "au_open (fst st1) = au_open (fst st')" by simp
    with d Cons show ?case by (simp add: bindE_def tryE_def retE_def ignoreE_def)
  qed (simp add: retE_def)
qed

section \<open>Recovery from an expired token\<close>

text \<open>
  The documented behaviour of an upstream with the client's account: a login is answered with the access
  token \<open>tok\<close>, a request to \<open>url\<close> with this token with \<open>ans\<close> and a request with another token with status 401.
\<close>

definition token_upstream :: "'s http_client \<Rightarrow> auth_client \<Rightarrow> string \<Rightarrow> string \<Rightarrow> http_answer \<Rightarrow> bool" where
  "token_upstream hc c url tok ans \<longleftrightarrow>
     (\<forall>u. hc_NewRequest hc u = Inr ()) \<and>
     (\<forall>n. \<exists>n'. hc_Login hc (ac_baseURL c @ ac_loginPath c) (ac_username c) (ac_password c) n = (Inr \<lparr>la_status = 200, la_token = Inr tok\<rparr>, n')) \<and>
     (\<forall>t n. \<exists>a n'. hc_Do hc url t n = (Inr a, n') \<and> (if t = tok then a = ans else ha_status a = 401))"

definition logged_in :: "auth_client \<Rightarrow> string \<Rightarrow> 's auth_state \<Rightarrow> 's auth_state \<Rightarrow> bool" where
  "logged_in c tok st st' \<longleftrightarrow> au_token st' = tok \<and> au_sent st' = au_sent st @ [SentLogin (ac_baseURL c @ ac_loginPath c)]"

lemma login_result:
  assumes "token_upstream hc c url tok ans" "TrimSpace tok = tok" "tok \<noteq> []"
  shows "\<exists>st'. login hc c st = (Inr tok, st') \<and> au_token st' = au_token st \<and> au_sent st' = au_sent st @ [SentLogin (ac_baseURL c @ ac_loginPath c)]"
proof -
  from assms(1) obtain n where "hc_Login hc (ac_baseURL c @ ac_loginPath c) (ac_username c) (ac_password c) (au_net st) =
      (Inr \<lparr>la_status = 200, la_token = Inr tok\<rparr>, n)" and "hc_NewRequest hc (ac_baseURL c @ ac_loginPath c) = Inr ()"
    unfolding token_upstream_def by blast
  with assms(2,3) show ?thesis
    by (simp add: login_def Let_def eff_simps trace_def on_net_def opened_def closed_def)
qed

lemma getToken_result:
  assumes "token_upstream hc c url tok ans" "TrimSpace tok = tok" "tok \<noteq> []"
  shows "force \<or> TrimSpace (au_token st) = [] \<Longrightarrow> \<exists>st'. getToken hc c force st = (Inr tok, st') \<and> logged_in c tok st st'"
    and "\<not> force \<Longrightarrow> TrimSpace (au_token st) \<noteq> [] \<Longrightarrow> getToken hc c force st = (Inr (TrimSpace (au_token st)), st)"
proof -
  have "TrimSpace [] = []" by (simp add: TrimSpace_def trim_def trim_right_def)
  then show "force \<or> TrimSpace (au_token st) = [] \<Longrightarrow> \<exists>st'. getToken hc c force st = (Inr tok, st') \<and> logged_in c tok st st'"
    using login_result [OF assms, of "if force then st\<lparr>au_token := []\<rparr> else st"]
    by (auto simp: getToken_def Let_def bindE_def modifyE_def retE_def logged_in_def split: if_splits)
  show "\<not> force \<Longrightarrow> TrimSpace (au_token st) \<noteq> [] \<Longrightarrow> getToken hc c force st = (Inr (TrimSpace (au_token st)), st)"
    by (simp add: getToken_def bindE_def modifyE_def)
qed

lemma do_request_result:
  assumes "token_upstream hc c url tok ans"
  shows "\<exists>a st'. do_request hc url t st = (Inr a, st') \<and> (if t = tok then a = ans else ha_status a = 401) \<and>
    au_token st' = au_token st \<and> au_sent st' = au_sent st @ [SentRequest url t]"
proof -
  from assms obtain a n where "hc_Do hc url t (au_net st) = (Inr a, n)" "if t = tok then a = ans else ha_status a = 401" "hc_NewRequest hc url = Inr ()"
    unfolding token_upstream_def by meson
  then show ?thesis by (simp add: do_request_def eff_simps trace_def on_net_def opened_def)
qed

lemma DoWithAuth_cached:
  assumes "token_upstream hc c url tok ans" "TrimSpace tok = tok" "tok \<noteq> []" "ha_status ans \<noteq> 401" "TrimSpace (au_token st) = tok"
  shows "\<exists>st'. DoWithAuth hc c url st = (Inr ans, st') \<and> TrimSpace (au_token st') = tok \<and> au_sent st' = au_sent st @ [SentRequest url tok]"
  using getToken_result(2) [OF assms(1-3), of False st] do_request_result [OF assms(1), of tok st] assms(3-5)
  by (auto simp: DoWithAuth_def bindE_def retE_def)

lemma DoWithAuth_fresh:
  assumes "token_upstream hc c url tok ans" "TrimSpace tok = tok" "tok \<noteq> []" "ha_status ans \<noteq> 401" "TrimSpace (au_token st) \<noteq> tok"
  shows "\<exists>st' old. DoWithAuth hc c url st = (Inr ans, st') \<and> TrimSpace (au_token st') = tok \<and> length old \<le> 1 \<and>
    au_sent st' = au_sent st @ old @ [SentLogin (ac_baseURL c @ ac_loginPath c), SentRequest url tok]"
proof (cases "TrimSpace (au_token st) = []")
  case True
  obtain st1 where st1: "getToken hc c False st = (Inr tok, st1)" "logged_in c tok st st1"
    using getToken_result(1) [OF assms(1-3)] True by blast
  with do_request_result [OF assms(1), of tok st1] assms(2,4) show ?thesis
    by (auto simp: DoWithAuth_def bindE_def retE_def logged_in_def)
next
  case False
  let ?t = "TrimSpace (au_token st)"
  obtain a st1 where st1: "do_request hc url ?t st = (Inr a, st1)" "ha_status a = 401" "au_sent st1 = au_sent st @ [SentRequest url ?t]"
    using do_request_result [OF assms(1), of ?t st] assms(5) by auto
  let ?st1 = "st1\<lparr>au_open := au_open st1 - 1\<rparr>"
  obtain st2 where st2: "getToken hc c True ?st1 = (Inr tok, st2)" "logged_in c tok ?st1 st2"
    using getToken_result(1) [OF assms(1-3)] by blast
  have old: "DoWithAuth hc c url st = do_request hc url tok st2"
    using st1 st2(1) getToken_result(2) [OF assms(1-3), of False st] False
    by (simp add: DoWithAuth_def bindE_def closed_def modifyE_def)
  obtain st3 where "do_request hc url tok st2 = (Inr ans, st3)" "au_token st3 = tok" "au_sent st3 = au_sent st2 @ [SentRequest url tok]"
    using do_request_result [OF assms(1), of tok st2] st2(2) by (auto simp: logged_in_def)
  then show ?thesis
    using old assms(2) st1(3) st2(2) by (intro exI [of _ st3] exI [of _ "[SentRequest url ?t]"]) (simp add: logged_in_def)
qed

text \<open>
  C30: the authenticated client recovers from an expired token. Against an upstream that accepts one access
  token, whatever the client has cached, \<open>DoWithAuth\<close> returns the answer to the request sent with this token: at once
  when it is cached, otherwise after one login and at most one rejected request. Afterwards the token is
  cached, exactly the returned body is open, and the next call is a single request.
\<close>

theorem auth_client_recovers:
  assumes "token_upstream hc c url tok ans" "TrimSpace tok = tok" "tok \<noteq> []" "ha_status ans \<noteq> 401"
  shows "\<exists>st' sent st''. DoWithAuth hc c url st = (Inr ans, st') \<and> au_open st' = au_open st + 1 \<and>
    au_sent st' = au_sent st @ sent @ [SentRequest url tok] \<and>
    (if TrimSpace (au_token st) = tok then sent = []
     else \<exists>old. length old \<le> 1 \<and> sent = old @ [SentLogin (ac_baseURL c @ ac_loginPath c)]) \<and>
    DoWithAuth hc c url st' = (Inr ans, st'') \<and> au_sent st'' = au_sent st' @ [SentRequest url tok]"
proof -
  obtain st' sent where st': "DoWithAuth hc c url st = (Inr ans, st')" "TrimSpace (au_token st') = tok"
    "au_sent st' = au_sent st @ sent @ [SentRequest url tok]"
    "if TrimSpace (au_token st) = tok then sent = [] else \<exists>old. length old \<le> 1 \<and> sent = old @ [SentLogin (ac_baseURL c @ ac_loginPath c)]"
  proof (cases "TrimSpace (au_token st) = tok")
    case True
    with DoWithAuth_cached [OF assms True] that [of _ "[]"] show thesis by auto
  next
    case False
    from DoWithAuth_fresh [OF assms False] obtain st1 old where o: "DoWithAuth hc c url st = (Inr ans, st1)" "TrimSpace (au_token st1) = tok"
      "length old \<le> 1" "au_sent st1 = au_sent st @ old @ [SentLogin (ac_baseURL c @ ac_loginPath c), SentRequest url tok]" by blast
    with False show thesis by (intro that [of st1 "old @ [SentLogin (ac_baseURL c @ ac_loginPath c)]"]) auto
  qed
  moreover have "au_open st' = au_open st + 1"
    using bodies_DoWithAuth [of hc c url] st'(1) unfolding bodies_def by (metis fst_conv isOk_simps(1) snd_conv)
  ultimately show ?thesis using DoWithAuth_cached [OF assms st'(2)] by blast
qed

definition sample_upstream :: "nat http_client" where
  "sample_upstream = \<lparr>hc_NewRequest = (\<lambda>_. Inr ()), hc_Login = (\<lambda>_ _ _ n. (Inr \<lparr>la_status = 200, la_token = Inr ''new''\<rparr>, n + 1)),
     hc_Do = (\<lambda>_ t n. (Inr \<lparr>ha_status = (if t = ''new'' then 101 else 401), ha_duplex = (t = ''new'')\<rparr>, n + 1))\<rparr>"

theorem auth_client_recovers_witness:
  "\<exists>c st'. NewClient \<lparr>cf_BaseURL = '' http://up/ '', cf_Username = ''u'', cf_Password = ''p'', cf_LoginPath = ''/login'', cf_LoginTimeout = 0\<rparr> = Inr c \<and>
     DoWithAuth sample_upstream c ''http://up/sync'' \<lparr>au_token = ''old'', au_net = 0, au_sent = [], au_open = 0\<rparr> = (Inr \<lparr>ha_status = 101, ha_duplex = True\<rparr>, st')"
proof -
  obtain c where c: "NewClient \<lparr>cf_BaseURL = '' http://up/ '', cf_Username = ''u'', cf_Password = ''p'', cf_LoginPath = ''/login'', cf_LoginTimeout = 0\<rparr> = Inr c"
    by (simp add: NewClient_def Let_def TrimSpace_def trim_def trim_right_def is_space_def Contains_def HasPrefix_def)
  have "token_upstream sample_upstream c ''http://up/sync'' ''new'' \<lparr>ha_status = 101, ha_duplex = True\<rparr>"
    by (simp add: token_upstream_def sample_upstream_def)
  from auth_client_recovers [OF this] c show ?thesis
    by (auto simp: TrimSpace_def trim_def trim_right_def is_space_def)
qed

section \<open>Nothing is available from an upstream that is not connected\<close>

lemma removed_available: "old_available up (snd (RemoveAvailableByUpstreamId up db)) = []"
  by (auto simp: RemoveAvailableByUpstreamId_def modifyE_def old_available_def filter_empty_conv sql_update_def upstream_has_def split: if_splits)

lemma v1_session_clears: "old_available up (fst (fst (snd (handleSyncClientConn c dec gr gp visit up streams_open input steps st)))) = []"
  unfolding handleSyncClientConn_def finallyE_def ignoreE_def
  by (auto simp: fstE_def split: prod.split) (metis removed_available snd_conv)+

text \<open>
  After each attempt of the second protocol that ends without the upstream being closed, no item is
  available from the upstream until the next attempt succeeds.
\<close>

lemma v2_loop_clears:
  assumes "attempts \<noteq> []" "list_all (\<lambda>a. \<not> at_cancelled a) attempts"
  shows "old_available (u_Id up) (fst (snd (snd (fetchUpstreamLoopV2 hc up deps attempts st)))) = []"
  using assms
proof (induction attempts arbitrary: st)
  case (Cons a rest)
  obtain r st1 where d: "downstream_attempt hc up deps (at_visit a) (at_stream a) st = (r, st1)"
    by (cases "downstream_attempt hc up deps (at_visit a) (at_stream a) st")
  let ?st2 = "snd (sndE (fstE (RemoveAvailableByUpstreamId (u_Id up))) st1)"
  have clear: "old_available (u_Id up) (fst (snd ?st2)) = []"
    by (auto simp: sndE_def fstE_def split: prod.split) (metis removed_available snd_conv)
  have step: "fetchUpstreamLoopV2 hc up deps (a # rest) st = (if at_stop a then (Inr (), ?st2) else fetchUpstreamLoopV2 hc up deps rest ?st2)"
    using d Cons.prems(2) by (simp add: bindE_def tryE_def ignoreE_def retE_def)
  show ?case
  proof (cases "at_stop a \<or> rest = []")
    case True
    with clear show ?thesis unfolding step by (auto simp: retE_def)
  next
    case False
    with Cons show ?thesis unfolding step by simp
  qed
qed simp

end
