(* ===== verification/Digest.thy ===== *)
theory Digest
  imports GoStrings
begin

text \<open>
  Digest authentication and the snapshot of a camera: \<^verbatim>\<open>pkg/net/digest/digest.go\<close> and
  \<^verbatim>\<open>tide_client/device/camera/onvif.go\<close>.

  Indexing a slice out of range panics; \<open>outcome\<close> separates this from a returned value or error. The MD5
  digest, the random client nonce and the HTTP transport below are parameters.
\<close>

datatype 'a outcome = Panics | Returns "'a result"

definition ErrNilTransport :: go_error where "ErrNilTransport = ErrorString ''transport is nil''"
definition ErrBadChallenge :: go_error where "ErrBadChallenge = ErrorString ''challenge is bad''"
definition ErrAlgNotImplemented :: go_error where "ErrAlgNotImplemented = ErrorString ''algorithm not implemented''"

section \<open>The challenge\<close>

record challenge =
  ch_realm :: string
  ch_domain :: string
  ch_nonce :: string
  ch_opaque :: string
  ch_stale :: string
  ch_algorithm :: string
  ch_qop :: string

definition is_ws :: "char \<Rightarrow> bool" where
  "is_ws c \<longleftrightarrow> c \<in> set [CHR '' '', CHR 0x0A, CHR 0x0D, CHR 0x09]"

definition is_quote :: "char \<Rightarrow> bool" where
  "is_quote c \<longleftrightarrow> c = CHR 0x22"

text \<open>The \<^verbatim>\<open>switch\<close> on the name of a directive; \<open>None\<close> is its default.\<close>

definition directive :: "string \<Rightarrow> (string \<Rightarrow> challenge \<Rightarrow> challenge) option" where
  "directive name =
     (if name = ''realm'' then Some (\<lambda>v c. c\<lparr>ch_realm := v\<rparr>)
      else if name = ''domain'' then Some (\<lambda>v c. c\<lparr>ch_domain := v\<rparr>)
      else if name = ''nonce'' then Some (\<lambda>v c. c\<lparr>ch_nonce := v\<rparr>)
      else if name = ''opaque'' then Some (\<lambda>v c. c\<lparr>ch_opaque := v\<rparr>)
      else if name = ''stale'' then Some (\<lambda>v c. c\<lparr>ch_stale := v\<rparr>)
      else if name = ''algorithm'' then Some (\<lambda>v c. c\<lparr>ch_algorithm := v\<rparr>)
      else if name = ''qop'' then Some (\<lambda>v c. c\<lparr>ch_qop := v\<rparr>)
      else None)"

fun parse_directives :: "string list \<Rightarrow> challenge \<Rightarrow> challenge outcome" where
  "parse_directives [] c = Returns (Inr c)"
| "parse_directives (part # rest) c =
     (let r = SplitN2 (trim is_ws part) (CHR ''='') in
      case directive (r ! 0) of
        None \<Rightarrow> Returns (Inl ErrBadChallenge)
      | Some set_field \<Rightarrow> if length r < 2 then Panics else parse_directives rest (set_field (trim is_quote (r ! 1)) c))"

definition new_challenge :: challenge where
  "new_challenge = \<lparr>ch_realm = [], ch_domain = [], ch_nonce = [], ch_opaque = [], ch_stale = [], ch_algorithm = ''MD5'', ch_qop = []\<rparr>"

definition parseChallenge :: "string \<Rightarrow> challenge outcome" where
  "parseChallenge input =
     (let s = trim is_ws input in
      if \<not> HasPrefix s ''Digest '' then Returns (Inl ErrBadChallenge)
      else parse_directives (Split (trim is_ws (drop 7 s)) (CHR '','')) new_challenge)"

section \<open>Credentials\<close>

record credentials =
  cr_userhash :: bool
  cr_username :: string
  cr_realm :: string
  cr_nonce :: string
  cr_uri :: string
  cr_algorithm :: string
  cr_cnonce :: string
  cr_opaque :: string
  cr_qop :: string
  cr_nc :: nat
  cr_method :: string
  cr_password :: string

fun hex_digits :: "nat \<Rightarrow> string" where
  "hex_digits n = (if n < 16 then [''0123456789abcdef'' ! n] else hex_digits (n div 16) @ [''0123456789abcdef'' ! (n mod 16)])"

definition hex8 :: "nat \<Rightarrow> string" where
  "hex8 n = (let d = hex_digits n in replicate (8 - length d) (CHR ''0'') @ d)"

definition ha1 :: "(string \<Rightarrow> string) \<Rightarrow> credentials \<Rightarrow> string" where
  "ha1 md5 c = md5 (cr_username c @ '':'' @ cr_realm c @ '':'' @ cr_password c)"

definition ha2 :: "(string \<Rightarrow> string) \<Rightarrow> credentials \<Rightarrow> string" where
  "ha2 md5 c = md5 (cr_method c @ '':'' @ cr_uri c)"

text \<open>\<open>random\<close> is the hexadecimal form of eight random bytes.\<close>

definition digest_response :: "(string \<Rightarrow> string) \<Rightarrow> string \<Rightarrow> string \<Rightarrow> credentials \<Rightarrow> string result \<times> credentials" where
  "digest_response md5 random cnonce c =
     (let c1 = c\<lparr>cr_nc := cr_nc c + 1\<rparr> in
      if cr_qop c1 = ''auth'' then
        let c2 = c1\<lparr>cr_cnonce := (if cnonce \<noteq> [] then cnonce else take 16 random)\<rparr>
        in (Inr (md5 (ha1 md5 c2 @ '':'' @ cr_nonce c2 @ '':'' @ hex8 (cr_nc c2) @ '':'' @ cr_cnonce c2 @ '':'' @ cr_qop c2 @ '':'' @ ha2 md5 c2)), c2)
      else if cr_qop c1 = [] then (Inr (md5 (ha1 md5 c1 @ '':'' @ cr_nonce c1 @ '':'' @ ha2 md5 c1)), c1)
      else (Inl ErrAlgNotImplemented, c1))"

definition quoted :: "string \<Rightarrow> string \<Rightarrow> string" where
  "quoted name v = name @ ''='' @ [CHR 0x22] @ v @ [CHR 0x22]"

fun Join :: "string list \<Rightarrow> string \<Rightarrow> string" where
  "Join [] sep = []"
| "Join [p] sep = p"
| "Join (p # ps) sep = p @ sep @ Join ps sep"

definition authorize :: "(string \<Rightarrow> string) \<Rightarrow> string \<Rightarrow> credentials \<Rightarrow> string result" where
  "authorize md5 random c =
     (if cr_algorithm c \<noteq> ''MD5'' then Inl ErrAlgNotImplemented
      else if cr_qop c \<noteq> ''auth'' \<and> cr_qop c \<noteq> [] then Inl ErrAlgNotImplemented
      else case digest_response md5 random [] c of
        (Inl e, _) \<Rightarrow> Inl e
      | (Inr resp, c') \<Rightarrow>
          Inr (''Digest '' @ Join (
            [quoted ''username'' (cr_username c'), quoted ''realm'' (cr_realm c'), quoted ''nonce'' (cr_nonce c'), quoted ''uri'' (cr_uri c'),
             quoted ''response'' resp, quoted ''algorithm'' (cr_algorithm c'), quoted ''cnonce'' (cr_cnonce c')] @
            (if cr_opaque c' \<noteq> [] then [quoted ''opaque'' (cr_opaque c')] else []) @
            (if cr_qop c' \<noteq> [] then [''qop='' @ cr_qop c'] else []) @
            [''nc='' @ hex8 (cr_nc c')] @
            (if cr_userhash c' then [quoted ''userhash'' ''true''] else [])) '', ''))"

section \<open>The transport\<close>

record digest_request =
  dq_method :: string
  dq_uri :: string
  dq_authorization :: "string option"

record digest_reply =
  dr_status :: int
  dr_challenge :: string
  dr_body :: "char list result"

record digest_transport =
  dt_Username :: string
  dt_Password :: string

definition authenticate :: "digest_transport \<Rightarrow> digest_request \<Rightarrow> challenge \<Rightarrow> credentials" where
  "authenticate t req c =
     \<lparr>cr_userhash = False, cr_username = dt_Username t, cr_realm = ch_realm c, cr_nonce = ch_nonce c, cr_uri = dq_uri req,
      cr_algorithm = ch_algorithm c, cr_cnonce = [], cr_opaque = ch_opaque c, cr_qop = ch_qop c, cr_nc = 0, cr_method = dq_method req,
      cr_password = dt_Password t\<rparr>"

type_synonym 's round_trip = "digest_request \<Rightarrow> ('s, digest_reply) eff"

text \<open>\<open>base\<close> is the underlying transport, \<open>None\<close> when it is nil; \<open>getBody\<close> is the result of \<^verbatim>\<open>r.GetBody\<close>.\<close>

definition RoundTrip ::
  "(string \<Rightarrow> string) \<Rightarrow> string \<Rightarrow> digest_transport \<Rightarrow> 's round_trip option \<Rightarrow> unit result \<Rightarrow> digest_request \<Rightarrow> 's \<Rightarrow> digest_reply outcome \<times> 's" where
  "RoundTrip md5 random t base getBody r s =
     (case base of
        None \<Rightarrow> (Returns (Inl ErrNilTransport), s)
      | Some rt \<Rightarrow>
          case getBody of
            Inl e \<Rightarrow> (Returns (Inl e), s)
          | Inr _ \<Rightarrow>
              case rt r s of
                (Inl e, s1) \<Rightarrow> (Returns (Inl e), s1)
              | (Inr res, s1) \<Rightarrow>
                  if dr_status res \<noteq> 401 then (Returns (Inr res), s1)
                  else case parseChallenge (dr_challenge res) of
                    Panics \<Rightarrow> (Panics, s1)
                  | Returns (Inl e) \<Rightarrow> (Returns (Inl e), s1)
                  | Returns (Inr c) \<Rightarrow>
                      (case authorize md5 random (authenticate t r c) of
                         Inl e \<Rightarrow> (Returns (Inl e), s1)
                       | Inr auth \<Rightarrow> (case rt (r\<lparr>dq_authorization := Some auth\<rparr>) s1 of (res2, s2) \<Rightarrow> (Returns res2, s2))))"

text \<open>\<open>uri\<close> is the URL as \<^verbatim>\<open>http.NewRequest\<close> parses it.\<close>

definition OnvifSnapshot ::
  "(string \<Rightarrow> string) \<Rightarrow> string \<Rightarrow> 's round_trip \<Rightarrow> string result \<Rightarrow> string \<Rightarrow> string \<Rightarrow> 's \<Rightarrow> char list outcome \<times> 's" where
  "OnvifSnapshot md5 random base uri username password s =
     (case uri of
        Inl e \<Rightarrow> (Returns (Inl e), s)
      | Inr u \<Rightarrow>
          let req = \<lparr>dq_method = ''GET'', dq_uri = u, dq_authorization = None\<rparr> in
          case (if username = [] then (case base req s of (r, s1) \<Rightarrow> (Returns r, s1))
                else RoundTrip md5 random \<lparr>dt_Username = username, dt_Password = password\<rparr> (Some base) (Inr ()) req s) of
            (Panics, s1) \<Rightarrow> (Panics, s1)
          | (Returns (Inl e), s1) \<Rightarrow> (Returns (Inl e), s1)
          | (Returns (Inr resp), s1) \<Rightarrow> if dr_status resp \<noteq> 200 then (Returns (Inr []), s1) else (Returns (dr_body resp), s1))"

section \<open>A challenge in the format of the standard\<close>

text \<open>A directive: its name, whether its value is quoted, and the value.\<close>

type_synonym dir = "string \<times> bool \<times> string"

fun render :: "dir \<Rightarrow> string" where
  "render (name, q, v) = (if q then quoted name v else name @ ''='' @ v)"

definition digest_header :: "dir list \<Rightarrow> string" where
  "digest_header ds = ''Digest '' @ Join (map render ds) '', ''"












section \<open>Logging in to a camera\<close>

definition dir_value :: "dir list \<Rightarrow> string \<Rightarrow> string option" where
  "dir_value ds name = map_option snd (map_of ds name)"





lemma hex8_one: "hex8 (Suc 0) = ''00000001''"
  by (simp add: hex8_def numeral_eq_Suc)







text \<open>
  Without \<^verbatim>\<open>qop\<close> in the challenge the client sends \<^verbatim>\<open>cnonce\<close> and \<^verbatim>\<open>nc\<close> all the same, which the standard forbids.
\<close>

lemma no_qop_header:
  assumes "ch_algorithm ch = ''MD5''" "ch_qop ch = []"
  shows "\<exists>ds. authorize md5 random (authenticate t req ch) = Inr (digest_header ds) \<and>
    dir_value ds ''cnonce'' = Some [] \<and> dir_value ds ''nc'' = Some ''00000001''"
  using assms by (intro exI [of _ "[(''username'', True, dt_Username t), (''realm'', True, ch_realm ch), (''nonce'', True, ch_nonce ch),
      (''uri'', True, dq_uri req), (''response'', True, projr (fst (digest_response md5 random [] (authenticate t req ch)))),
      (''algorithm'', True, ''MD5''), (''cnonce'', True, [])] @ (if ch_opaque ch \<noteq> [] then [(''opaque'', True, ch_opaque ch)] else []) @
      [(''nc'', False, ''00000001'')]"])
    (auto simp: authorize_def authenticate_def digest_response_def digest_header_def dir_value_def Let_def hex8_one)

text \<open>
  Three answers of a camera that the client does not survive or misreads. A known directive without a
  value makes the parser panic; a quoted list of quality-of-protection options, which the standard allows,
  is rejected as a bad challenge because the header is split at every comma; and a snapshot
  that the camera refuses with any status but 200 is returned as an empty picture without an error.
\<close>

theorem onvif_misread_answers:
  "fst (OnvifSnapshot md5 random (\<lambda>_ s. (Inr \<lparr>dr_status = 401, dr_challenge = ''Digest realm'', dr_body = b\<rparr>, s)) (Inr uri) ''u'' pw s) = Panics \<and>
   fst (OnvifSnapshot md5 random (\<lambda>_ s. (Inr \<lparr>dr_status = 401,
      dr_challenge = ''Digest realm='' @ [CHR 0x22] @ ''c'' @ [CHR 0x22] @ '', qop='' @ [CHR 0x22] @ ''auth,auth-int'' @ [CHR 0x22], dr_body = b\<rparr>, s))
      (Inr uri) ''u'' pw s) = Returns (Inl ErrBadChallenge) \<and>
   (code \<notin> {200, 401} \<longrightarrow>
     fst (OnvifSnapshot md5 random (\<lambda>_ s. (Inr \<lparr>dr_status = code, dr_challenge = [], dr_body = b\<rparr>, s)) (Inr uri) user pw s) = Returns (Inr []))"
proof (intro conjI impI)
  show "fst (OnvifSnapshot md5 random (\<lambda>_ s. (Inr \<lparr>dr_status = 401, dr_challenge = ''Digest realm'', dr_body = b\<rparr>, s)) (Inr uri) ''u'' pw s) = Panics"
    by (simp add: OnvifSnapshot_def RoundTrip_def parseChallenge_def Let_def trim_def trim_right_def is_ws_def HasPrefix_def SplitN2_def directive_def)
  show "fst (OnvifSnapshot md5 random (\<lambda>_ s. (Inr \<lparr>dr_status = 401,
      dr_challenge = ''Digest realm='' @ [CHR 0x22] @ ''c'' @ [CHR 0x22] @ '', qop='' @ [CHR 0x22] @ ''auth,auth-int'' @ [CHR 0x22], dr_body = b\<rparr>, s))
      (Inr uri) ''u'' pw s) = Returns (Inl ErrBadChallenge)"
    by (simp add: OnvifSnapshot_def RoundTrip_def parseChallenge_def Let_def trim_def trim_right_def is_ws_def HasPrefix_def SplitN2_def directive_def)
qed (auto simp: OnvifSnapshot_def RoundTrip_def Let_def)

theorem onvif_misread_answers_witness:
  "fst (OnvifSnapshot (\<lambda>x. x) [] (\<lambda>_ s. (Inr \<lparr>dr_status = 403, dr_challenge = [], dr_body = Inr ''denied''\<rparr>, s)) (Inr ''/snap'') ''admin'' ''pw'' ()) = Returns (Inr [])"
  using onvif_misread_answers [of "\<lambda>x. x" "[]" "Inr ''denied''" "''/snap''" "''pw''" "()" 403 "''admin''"] by simp

end
