(* ===== verification/SensorLine.thy ===== *)
theory SensorLine
  imports GoStrings
begin

text \<open>
  The connections to the sensors that reopen themselves: \<^verbatim>\<open>tide_client/connWrap/tcp/tcp.go\<close> and
  \<^verbatim>\<open>tide_client/connWrap/uart/uart.go\<close>. Both have the same reconnection code; the goroutines that run it and the
  operations in flight interleave. Handles are numbered in the order they are opened, \<open>ln_open\<close> holds the
  ones the operating system has open. What the operating system returns is an input. An attempt to open (the dial or \<^verbatim>\<open>serial.Open\<close>, the options
  of the socket or port, and \<^verbatim>\<open>storeConn\<close>, or the close after a failure) is one step of the model, since only the goroutine that makes it
  holds the new handle until it is stored: a handle counts as open from the moment it is published.
\<close>

section \<open>Results of single calls\<close>

definition line_ErrTimeout :: go_error where "line_ErrTimeout = ErrorString ''timeout''"
definition os_ErrInvalid :: go_error where "os_ErrInvalid = ErrorString ''invalid argument''"
definition os_ErrDeadlineExceeded :: go_error where "os_ErrDeadlineExceeded = ErrorString ''i/o timeout''"

text \<open>The handle of a failed attempt is closed again before the error is returned.\<close>

datatype open_result = NotOpened go_error | ClosedAgain go_error | Stored

definition tcp_open ::
  "unit result \<Rightarrow> unit result \<Rightarrow> unit result \<Rightarrow> unit result \<Rightarrow> unit result \<Rightarrow> go_error option \<Rightarrow> open_result" where
  "tcp_open dial keepAlive keepAlivePeriod syscallConn control sysErr =
     (case dial of Inl e \<Rightarrow> NotOpened e
      | Inr _ \<Rightarrow> (case keepAlive of Inl e \<Rightarrow> ClosedAgain e
      | Inr _ \<Rightarrow> (case keepAlivePeriod of Inl e \<Rightarrow> ClosedAgain e
      | Inr _ \<Rightarrow> (case syscallConn of Inl e \<Rightarrow> ClosedAgain e
      | Inr _ \<Rightarrow> (case control of Inl e \<Rightarrow> ClosedAgain e
      | Inr _ \<Rightarrow> (case sysErr of Some e \<Rightarrow> ClosedAgain e | None \<Rightarrow> Stored))))))"

definition uart_open :: "unit result \<Rightarrow> unit result \<Rightarrow> open_result" where
  "uart_open serialOpen setReadTimeout =
     (case serialOpen of Inl e \<Rightarrow> NotOpened e | Inr _ \<Rightarrow> (case setReadTimeout of Inl e \<Rightarrow> ClosedAgain e | Inr _ \<Rightarrow> Stored))"

text \<open>\<open>conn\<close> is the loaded handle, \<open>got\<close> the number of bytes and the error the system returns for it.\<close>

definition tcp_Read :: "'c option \<Rightarrow> nat \<times> go_error option \<Rightarrow> nat \<times> go_error option" where
  "tcp_Read conn got =
     (case conn of
        None \<Rightarrow> (0, Some os_ErrInvalid)
      | Some _ \<Rightarrow> (case snd got of
            Some e \<Rightarrow> if errors_is e os_ErrDeadlineExceeded then (0, Some line_ErrTimeout) else got
          | None \<Rightarrow> got))"

definition uart_Read :: "'c option \<Rightarrow> nat \<times> go_error option \<Rightarrow> nat \<times> go_error option" where
  "uart_Read conn got =
     (case conn of
        None \<Rightarrow> (0, Some os_ErrInvalid)
      | Some _ \<Rightarrow> if fst got = 0 \<and> snd got = None then (0, Some line_ErrTimeout) else got)"

definition line_Write :: "'c option \<Rightarrow> nat \<times> go_error option \<Rightarrow> nat \<times> go_error option" where
  "line_Write conn got = (case conn of None \<Rightarrow> (0, Some os_ErrInvalid) | Some _ \<Rightarrow> got)"

definition tcp_ResetInputBuffer :: "'c option \<Rightarrow> unit result \<Rightarrow> unit result \<Rightarrow> unit result \<Rightarrow> unit result" where
  "tcp_ResetInputBuffer conn syscallConn clearDeadline rawRead =
     (case conn of None \<Rightarrow> Inl os_ErrInvalid
      | Some _ \<Rightarrow> (case syscallConn of Inl e \<Rightarrow> Inl e
      | Inr _ \<Rightarrow> (case clearDeadline of Inl e \<Rightarrow> Inl e | Inr _ \<Rightarrow> rawRead)))"

definition uart_ResetInputBuffer :: "'c option \<Rightarrow> unit result \<Rightarrow> unit result" where
  "uart_ResetInputBuffer conn reset = (case conn of None \<Rightarrow> Inl os_ErrInvalid | Some _ \<Rightarrow> reset)"

text \<open>The test of \<open>handleErr\<close>: whether a returned error starts a reconnection.\<close>

definition handleErr :: "go_error option \<Rightarrow> bool" where
  "handleErr err = (case err of None \<Rightarrow> False | Some e \<Rightarrow> \<not> errors_is e line_ErrTimeout)"

datatype parity = NoParity | OddParity | EvenParity | MarkParity | SpaceParity

definition parityMap :: "(string \<times> parity) list" where
  "parityMap = [(''none'', NoParity), (''odd'', OddParity), (''even'', EvenParity), (''mark'', MarkParity), (''space'', SpaceParity)]"

definition getParity :: "string \<Rightarrow> parity" where
  "getParity p = (case map_of parityMap (ToLower p) of Some x \<Rightarrow> x | None \<Rightarrow> NoParity)"

section \<open>Reconnection\<close>

text \<open>Where a goroutine that runs \<open>reopenUntilSuccess\<close> is; \<open>GIdle\<close> before it starts and after it returned.\<close>

datatype reopen_pc = GIdle | GStart | GClose | GOpen | GDone

record line =
  ln_conn :: "nat option"
  ln_open :: "nat set"
  ln_next :: nat
  ln_inReconnect :: bool
  ln_gor :: "nat \<Rightarrow> reopen_pc"
  ln_ops :: "nat \<Rightarrow> nat option"

text \<open>\<open>StartTcp\<close> and \<open>StartUart\<close>: no handle, one goroutine started.\<close>

definition start_line :: line where
  "start_line = \<lparr>ln_conn = None, ln_open = {}, ln_next = 0, ln_inReconnect = False, ln_gor = (\<lambda>_. GIdle)(0 := GStart), ln_ops = (\<lambda>_. None)\<rparr>"

inductive line_step :: "line \<Rightarrow> line \<Rightarrow> bool" where
  cas_fails: "ln_gor s g = GStart \<Longrightarrow> ln_inReconnect s \<Longrightarrow> line_step s (s\<lparr>ln_gor := (ln_gor s)(g := GIdle)\<rparr>)"
| cas_swaps: "ln_gor s g = GStart \<Longrightarrow> \<not> ln_inReconnect s \<Longrightarrow>
    line_step s (s\<lparr>ln_inReconnect := True, ln_gor := (ln_gor s)(g := GClose)\<rparr>)"
| close_old: "ln_gor s g = GClose \<Longrightarrow>
    line_step s (s\<lparr>ln_open := ln_open s - set_option (ln_conn s), ln_gor := (ln_gor s)(g := GOpen)\<rparr>)"
| open_fails: "ln_gor s g = GOpen \<Longrightarrow> r \<noteq> Stored \<Longrightarrow>
    line_step s (s\<lparr>ln_next := (case r of NotOpened _ \<Rightarrow> ln_next s | _ \<Rightarrow> Suc (ln_next s))\<rparr>)"
| open_stores: "ln_gor s g = GOpen \<Longrightarrow>
    line_step s (s\<lparr>ln_conn := Some (ln_next s), ln_open := insert (ln_next s) (ln_open s), ln_next := Suc (ln_next s),
      ln_gor := (ln_gor s)(g := GDone)\<rparr>)"
| release: "ln_gor s g = GDone \<Longrightarrow> line_step s (s\<lparr>ln_inReconnect := False, ln_gor := (ln_gor s)(g := GIdle)\<rparr>)"
| op_start: "ln_ops s k = None \<Longrightarrow> ln_conn s = Some c \<Longrightarrow> line_step s (s\<lparr>ln_ops := (ln_ops s)(k := Some c)\<rparr>)"
| op_returns: "ln_ops s k = Some c \<Longrightarrow> \<not> handleErr err \<Longrightarrow> line_step s (s\<lparr>ln_ops := (ln_ops s)(k := None)\<rparr>)"
| op_fails: "ln_ops s k = Some c \<Longrightarrow> handleErr err \<Longrightarrow> ln_gor s g = GIdle \<Longrightarrow>
    line_step s (s\<lparr>ln_ops := (ln_ops s)(k := None), ln_gor := (ln_gor s)(g := GStart)\<rparr>)"

text \<open>The reconnection of a serial port is the same code.\<close>

definition uart_step :: "line \<Rightarrow> line \<Rightarrow> bool" where
  "uart_step = line_step"

definition reopening :: "reopen_pc \<Rightarrow> bool" where
  "reopening pc \<longleftrightarrow> pc \<in> {GClose, GOpen, GDone}"

text \<open>\<open>h\<close> is the goroutine that won the flag.\<close>

definition line_ok :: "nat option \<Rightarrow> line \<Rightarrow> bool" where
  "line_ok h s \<longleftrightarrow>
     (\<forall>g. reopening (ln_gor s g) \<longleftrightarrow> h = Some g) \<and> (ln_inReconnect s \<longleftrightarrow> h \<noteq> None) \<and>
     (\<forall>c. ln_conn s = Some c \<longrightarrow> c < ln_next s) \<and> (\<forall>k. ln_ops s k \<noteq> None \<longrightarrow> ln_conn s \<noteq> None) \<and>
     ln_open s = (case h of None \<Rightarrow> set_option (ln_conn s) | Some g \<Rightarrow> if ln_gor s g = GOpen then {} else set_option (ln_conn s))"

lemma reopening_simps [simp]: "reopening GClose" "reopening GOpen" "reopening GDone" "\<not> reopening GIdle" "\<not> reopening GStart"
  by (simp_all add: reopening_def)

lemma holder: "line_ok h s \<Longrightarrow> reopening (ln_gor s g) \<Longrightarrow> h = Some g"
  by (simp add: line_ok_def)

lemma line_ok_gor:
  assumes "line_ok h s" "\<not> reopening (ln_gor s g)" "\<not> reopening pc"
  shows "line_ok h (s\<lparr>ln_gor := (ln_gor s)(g := pc)\<rparr>)"
  using assms by (auto simp: line_ok_def split: option.split)

lemma line_ok_cas:
  assumes "line_ok h s" "\<not> ln_inReconnect s"
  shows "line_ok (Some g) (s\<lparr>ln_inReconnect := True, ln_gor := (ln_gor s)(g := GClose)\<rparr>)"
  using assms by (auto simp: line_ok_def)

lemma line_ok_open:
  assumes "line_ok (Some g) s" "ln_gor s g = GOpen"
  shows "line_ok (Some g) (s\<lparr>ln_conn := Some (ln_next s), ln_open := insert (ln_next s) (ln_open s), ln_next := Suc (ln_next s),
      ln_gor := (ln_gor s)(g := GDone)\<rparr>)"
  using assms by (auto simp: line_ok_def)

lemma line_step_ok: "line_step s s' \<Longrightarrow> line_ok h s \<Longrightarrow> \<exists>h'. line_ok h' s'"
proof (induction rule: line_step.induct)
  case (cas_fails s g)
  then show ?case using line_ok_gor [of h s g GIdle] by auto
next
  case (cas_swaps s g)
  then show ?case using line_ok_cas [of h s g] by blast
next
  case (close_old s g)
  then have "h = Some g" using holder [of h s g] by simp
  with close_old show ?case by (intro exI [of _ "Some g"]) (auto simp: line_ok_def)
next
  case (open_fails s g r)
  then show ?case by (intro exI [of _ h]) (auto simp: line_ok_def less_Suc_eq split: open_result.splits option.splits)
next
  case (open_stores s g)
  then show ?case using holder [of h s g] line_ok_open [of g s] by auto
next
  case (release s g)
  then have "h = Some g" using holder [of h s g] by simp
  with release show ?case by (intro exI [of _ None]) (auto simp: line_ok_def)
next
  case (op_start s k c)
  then show ?case by (intro exI [of _ h]) (auto simp: line_ok_def split: option.splits)
next
  case (op_returns s k c err)
  then show ?case by (intro exI [of _ h]) (auto simp: line_ok_def)
next
  case (op_fails s k c err g)
  have "line_ok h (s\<lparr>ln_ops := (ln_ops s)(k := None)\<rparr>)" using op_fails.prems by (auto simp: line_ok_def)
  from line_ok_gor [OF this, of g GStart] op_fails.hyps(3) show ?case by auto
qed

text \<open>
  C27: reconnection under every interleaving of operations, their errors and any number of goroutines: one
  goroutine at a time reopens the line; no handle is leaked, at most one is open and it is the published
  one; outside a reconnection the published handle is open; a line that was opened once never shows a nil
  handle again.
\<close>

theorem line_reconnect_safe:
  assumes "line_step\<^sup>*\<^sup>* start_line s"
  shows "(reopening (ln_gor s g) \<and> reopening (ln_gor s g') \<longrightarrow> g = g') \<and>
    ln_open s \<subseteq> set_option (ln_conn s) \<and> card (ln_open s) \<le> 1 \<and>
    (\<not> ln_inReconnect s \<longrightarrow> ln_open s = set_option (ln_conn s)) \<and>
    (line_step s s' \<and> ln_conn s \<noteq> None \<longrightarrow> ln_conn s' \<noteq> None)"
proof -
  have "line_ok None start_line" by (simp add: line_ok_def start_line_def)
  with assms have "\<exists>h. line_ok h s" by (induction rule: rtranclp_induct) (auto dest: line_step_ok)
  then obtain h where h: "line_ok h s" by blast
  then have sub: "ln_open s \<subseteq> set_option (ln_conn s)" by (auto simp: line_ok_def split: option.splits if_splits)
  then have "card (ln_open s) \<le> card (set_option (ln_conn s))" by (intro card_mono) (cases "ln_conn s", simp_all)
  also have "\<dots> \<le> 1" by (cases "ln_conn s") simp_all
  finally have "card (ln_open s) \<le> 1" .
  moreover have "ln_conn s' \<noteq> None" if "line_step s s'" "ln_conn s \<noteq> None" using that by (induction rule: line_step.induct) simp_all
  moreover have "ln_open s = set_option (ln_conn s)" if "\<not> ln_inReconnect s" using that h by (simp add: line_ok_def split: option.splits)
  moreover have "g = g'" if "reopening (ln_gor s g)" "reopening (ln_gor s g')" using holder [OF h that(1)] holder [OF h that(2)] by simp
  ultimately show ?thesis using sub by blast
qed

definition line_at :: "nat \<Rightarrow> nat set \<Rightarrow> bool \<Rightarrow> (nat \<Rightarrow> reopen_pc) \<Rightarrow> (nat \<Rightarrow> nat option) \<Rightarrow> line" where
  "line_at n opens lock gor ops = \<lparr>ln_conn = Some n, ln_open = opens, ln_next = Suc n, ln_inReconnect = lock, ln_gor = gor, ln_ops = ops\<rparr>"

abbreviation no_ops :: "nat \<Rightarrow> nat option" where "no_ops \<equiv> \<lambda>_. None"
abbreviation idle :: "nat \<Rightarrow> reopen_pc" where "idle \<equiv> \<lambda>_. GIdle"

text \<open>An operation on the published handle fails and starts goroutine \<open>g\<close>.\<close>

lemma failing_op:
  assumes "gor g = GIdle"
  shows "line_step\<^sup>*\<^sup>* (line_at n opens lock gor no_ops) (line_at n opens lock (gor(g := GStart)) no_ops)"
proof -
  let ?s = "line_at n opens lock gor no_ops"
  have "line_step ?s (line_at n opens lock gor (no_ops(0 := Some n)))"
    using line_step.op_start [of ?s 0 n] by (simp add: line_at_def)
  moreover have "line_step (line_at n opens lock gor (no_ops(0 := Some n))) (line_at n opens lock (gor(g := GStart)) no_ops)"
    using line_step.op_fails [of "line_at n opens lock gor (no_ops(0 := Some n))" 0 n "Some os_ErrInvalid" g] assms
    by (simp add: line_at_def handleErr_def os_ErrInvalid_def line_ErrTimeout_def)
  ultimately show ?thesis by (meson converse_rtranclp_into_rtranclp rtranclp.rtrancl_refl)
qed

text \<open>A started goroutine replaces the handle when the flag is free.\<close>

lemma replacing:
  assumes "gor g = GStart"
  shows "line_step\<^sup>*\<^sup>* (line_at n {n} False gor no_ops) (line_at (Suc n) {Suc n} False (gor(g := GIdle)) no_ops)"
proof -
  have "line_step (line_at n {n} False gor no_ops) (line_at n {n} True (gor(g := GClose)) no_ops)"
    using line_step.cas_swaps [of "line_at n {n} False gor no_ops" g] assms by (simp add: line_at_def)
  moreover have "line_step (line_at n {n} True (gor(g := GClose)) no_ops) (line_at n {} True (gor(g := GOpen)) no_ops)"
    using line_step.close_old [of "line_at n {n} True (gor(g := GClose)) no_ops" g] by (simp add: line_at_def)
  moreover have "line_step (line_at n {} True (gor(g := GOpen)) no_ops) (line_at (Suc n) {Suc n} True (gor(g := GDone)) no_ops)"
    using line_step.open_stores [of "line_at n {} True (gor(g := GOpen)) no_ops" g] by (simp add: line_at_def)
  moreover have "line_step (line_at (Suc n) {Suc n} True (gor(g := GDone)) no_ops) (line_at (Suc n) {Suc n} False (gor(g := GIdle)) no_ops)"
    using line_step.release [of "line_at (Suc n) {Suc n} True (gor(g := GDone)) no_ops" g] by (simp add: line_at_def)
  ultimately show ?thesis by (meson converse_rtranclp_into_rtranclp rtranclp.rtrancl_refl)
qed

lemma first_open: "line_step\<^sup>*\<^sup>* start_line (line_at 0 {0} False idle no_ops)"
proof -
  let ?S = "\<lambda>lock pc. start_line\<lparr>ln_inReconnect := lock, ln_gor := idle(0 := pc)\<rparr>"
  have "line_step start_line (?S True GClose)"
    using line_step.cas_swaps [of start_line 0] by (simp add: start_line_def)
  moreover have "line_step (?S True GClose) (?S True GOpen)"
    using line_step.close_old [of "?S True GClose" 0] by (simp add: start_line_def)
  moreover have "line_step (?S True GOpen) (line_at 0 {0} True (idle(0 := GDone)) no_ops)"
    using line_step.open_stores [of "?S True GOpen" 0] by (simp add: start_line_def line_at_def)
  moreover have "line_step (line_at 0 {0} True (idle(0 := GDone)) no_ops) (line_at 0 {0} False idle no_ops)"
    using line_step.release [of "line_at 0 {0} True (idle(0 := GDone)) no_ops" 0] by (simp add: line_at_def fun_upd_idem)
  ultimately show ?thesis by (meson converse_rtranclp_into_rtranclp rtranclp.rtrancl_refl)
qed

text \<open>
  A run in which a working handle that no operation has used yet is closed and replaced: two operations failed on
  the old handle, the first one's goroutine reopened the line, and the second one's goroutine starts only
  then.
\<close>

lemma late_error_closes_new_handle:
  "\<exists>s s'. line_step\<^sup>*\<^sup>* start_line s \<and> ln_conn s = Some 1 \<and> ln_open s = {1} \<and> ln_ops s = no_ops \<and>
     line_step\<^sup>*\<^sup>* s s' \<and> ln_conn s' = Some 2 \<and> 1 \<notin> ln_open s'"
proof -
  let ?two = "idle(1 := GStart, 2 := GStart)"
  have "line_step\<^sup>*\<^sup>* start_line (line_at 0 {0} False idle no_ops)" by (rule first_open)
  also have "line_step\<^sup>*\<^sup>* \<dots> (line_at 0 {0} False (idle(1 := GStart)) no_ops)" by (rule failing_op) simp
  also have "line_step\<^sup>*\<^sup>* \<dots> (line_at 0 {0} False ?two no_ops)" by (rule failing_op) simp
  also have "line_step\<^sup>*\<^sup>* \<dots> (line_at 1 {1} False (?two(1 := GIdle)) no_ops)" using replacing [of ?two 1 0] by simp
  finally have "line_step\<^sup>*\<^sup>* start_line (line_at 1 {1} False (?two(1 := GIdle)) no_ops)" .
  moreover have "line_step\<^sup>*\<^sup>* (line_at 1 {1} False (?two(1 := GIdle)) no_ops) (line_at 2 {2} False (?two(1 := GIdle, 2 := GIdle)) no_ops)"
    using replacing [of "?two(1 := GIdle)" 2 1] by (simp add: numeral_2_eq_2)
  ultimately show ?thesis
    by (intro exI [of _ "line_at 1 {1} False (?two(1 := GIdle)) no_ops"] exI [of _ "line_at 2 {2} False (?two(1 := GIdle, 2 := GIdle)) no_ops"])
      (simp add: line_at_def)
qed

theorem line_reconnect_safe_witness:
  "card (ln_open (line_at 0 {0} False idle no_ops)) \<le> 1 \<and> ln_open (line_at 0 {0} False idle no_ops) = {0}"
  using line_reconnect_safe [OF first_open] by (simp add: line_at_def)

end
