(* ===== verification/Keycloak.thy ===== *)
theory Keycloak
  imports ApiTables
begin

text \<open>
  The user manager of \<^verbatim>\<open>auth/usermanager/keycloak.go\<close>: accounts live in the \<open>users\<close> table and in a realm of a
  Keycloak server. The client library is the record \<open>gocloak\<close> of calls on a realm of type \<open>'k\<close>; \<open>gk_code\<close> is the HTTP
  status of an API error. A transaction covers the tables only: what a failed operation did to the realm stays.
\<close>

record kc_user =
  ku_ID :: string
  ku_Username :: string
  ku_Enabled :: bool

record 'k gocloak =
  gk_Login :: "string \<Rightarrow> string \<Rightarrow> ('k, string) eff"
  gk_Introspect :: "string \<Rightarrow> ('k, bool \<times> string) eff"
  gk_LoginAdmin :: "('k, unit) eff"
  gk_GetUsers :: "string \<Rightarrow> ('k, kc_user list) eff"
  gk_CreateUser :: "string \<Rightarrow> bool \<Rightarrow> ('k, string) eff"
  gk_UpdateUser :: "kc_user \<Rightarrow> ('k, unit) eff"
  gk_SetPassword :: "string \<Rightarrow> string \<Rightarrow> ('k, unit) eff"
  gk_DeleteUser :: "string \<Rightarrow> ('k, unit) eff"
  gk_code :: "go_error \<Rightarrow> int option"

type_synonym ('k, 'a) kc_op = "(tide_db \<times> 'k, 'a) eff"

section \<open>Logging in\<close>

definition kc_CheckUserPwd :: "'k gocloak \<Rightarrow> string \<Rightarrow> string \<Rightarrow> 'k \<Rightarrow> bool" where
  "kc_CheckUserPwd gc username password k = isOk (fst (gk_Login gc username password k))"

definition kc_Login :: "'k gocloak \<Rightarrow> http_request \<Rightarrow> 'k \<Rightarrow> int + string" where
  "kc_Login gc r k =
     (case fst (gk_Login gc (PostFormValue r ''username'') (PostFormValue r ''password'') k) of Inr jwt \<Rightarrow> Inr jwt | Inl _ \<Rightarrow> Inl 401)"

definition kc_token :: "http_request \<Rightarrow> string" where
  "kc_token r =
     (if HasPrefix (rq_authorization r) BearerPrefix then drop (length BearerPrefix) (rq_authorization r) else Query_Get r ''token'')"

text \<open>A header with the prefix and an empty token is sent to the server; only without the prefix an empty token means nobody.\<close>

definition kc_GetLoginUser :: "'k gocloak \<Rightarrow> http_request \<Rightarrow> 'k \<Rightarrow> string result" where
  "kc_GetLoginUser gc r k =
     (if \<not> HasPrefix (rq_authorization r) BearerPrefix \<and> Query_Get r ''token'' = [] then Inr []
      else case fst (gk_Introspect gc (kc_token r) k) of
        Inl e \<Rightarrow> Inl e
      | Inr (active, username) \<Rightarrow> if \<not> active then Inr [] else Inr username)"

section \<open>Accounts\<close>

text \<open>A transaction on the tables with its deferred rollback.\<close>

definition kc_tx :: "('k, 'a) kc_op \<Rightarrow> ('k, 'a) kc_op" where
  "kc_tx m st = (case m st of (Inl e, (_, k)) \<Rightarrow> (Inl e, (fst st, k)) | (Inr a, st') \<Rightarrow> (Inr a, st'))"

definition getKcUserByUsername :: "'k gocloak \<Rightarrow> string \<Rightarrow> ('k, kc_user) eff" where
  "getKcUserByUsername gc username =
     bindE (gk_GetUsers gc username) (\<lambda>kcUsers.
       case find (\<lambda>u. ku_Username u = username) kcUsers of Some u \<Rightarrow> retE u | None \<Rightarrow> throwE ErrUserNotFound)"

definition delete_user :: "string \<Rightarrow> tide_db \<Rightarrow> tide_db" where
  "delete_user username db =
     db\<lparr>users := sql_delete (\<lambda>k _. k = username) (users db),
        permissions_item_data := sql_delete (\<lambda>k _. fst k = username) (permissions_item_data db),
        permissions_camera_status := sql_delete (\<lambda>k _. fst k = username) (permissions_camera_status db)\<rparr>"

text \<open>Bringing the enabled flag of a realm user up to date.\<close>

definition set_enabled :: "'k gocloak \<Rightarrow> bool \<Rightarrow> kc_user \<Rightarrow> ('k, unit) eff" where
  "set_enabled gc enable u = (if ku_Enabled u \<noteq> enable then gk_UpdateUser gc (u\<lparr>ku_Enabled := enable\<rparr>) else retE ())"

definition insert_user :: "user \<Rightarrow> unit db_op" where
  "insert_user u db =
     (if \<not> smallint (ua_Role u) then (Inl err_smallint, db)
      else if map_of (users db) (ub_Username u) \<noteq> None then (Inl ErrUserDuplicate, db)
      else (Inr (), db\<lparr>users := sql_insert (ub_Username u)
              \<lparr>ur_password_hash = [], ur_role = ua_Role u, ur_email = ub_Email u, ur_live_camera = ua_LiveCamera u\<rparr> (users db)\<rparr>))"

text \<open>The realm's part of \<open>AddUser\<close>: the new user's identifier, or that of the user with the same name.\<close>

definition create_or_update :: "'k gocloak \<Rightarrow> string \<Rightarrow> bool \<Rightarrow> ('k, string) eff" where
  "create_or_update gc username enable =
     bindE (tryE (gk_CreateUser gc username enable)) (\<lambda>r.
       case r of
         Inr userUUID \<Rightarrow> retE userUUID
       | Inl e \<Rightarrow>
           if gk_code gc e \<noteq> Some 409 then throwE e
           else bindE (getKcUserByUsername gc username) (\<lambda>kcUser.
                bindE (set_enabled gc enable kcUser) (\<lambda>_. retE (ku_ID kcUser))))"

definition kc_AddUser :: "'k gocloak \<Rightarrow> user \<Rightarrow> ('k, unit) kc_op" where
  "kc_AddUser gc u =
     (if ub_Username u = [] \<or> ub_Password u = [] then throwE ErrUserEmpty
      else let u' = u\<lparr>ub_Username := ToLower (ub_Username u), ub_Email := ToLower (ub_Email u)\<rparr> in
        kc_tx (
          bindE (fstE (insert_user u')) (\<lambda>_.
          bindE (sndE (gk_LoginAdmin gc)) (\<lambda>_.
          bindE (sndE (create_or_update gc (ub_Username u') (NormalUser \<le> ua_Role u'))) (\<lambda>userUUID.
            sndE (gk_SetPassword gc userUUID (ub_Password u')))))))"

definition kc_EditUserBaseInfo :: "'k gocloak \<Rightarrow> 'z user_base_info_scheme \<Rightarrow> ('k, unit) kc_op" where
  "kc_EditUserBaseInfo gc u =
     (if ub_Username u = [] then throwE ErrUserEmpty
      else bindE (fstE (exec_update_user (ub_Username u) (\<lambda>r. r\<lparr>ur_email := ub_Email u\<rparr>))) (\<lambda>_.
        if ub_Password u = [] then retE ()
        else bindE (sndE (gk_LoginAdmin gc)) (\<lambda>_.
             bindE (tryE (sndE (getKcUserByUsername gc (ub_Username u)))) (\<lambda>r.
               case r of
                 Inl e \<Rightarrow> if errors_is e ErrUserNotFound
                          then bindE (fstE (modifyE (delete_user (ub_Username u)))) (\<lambda>_. throwE e) else throwE e
               | Inr kcUser \<Rightarrow> sndE (gk_SetPassword gc (ku_ID kcUser) (ub_Password u))))))"

text \<open>
  When the realm has no such user the row is deleted and committed; the variable \<^verbatim>\<open>err\<close> that is returned then
  holds the result of the deletion.
\<close>

definition kc_EditUser :: "'k gocloak \<Rightarrow> user \<Rightarrow> ('k, unit) kc_op" where
  "kc_EditUser gc u =
     (if ub_Username u = [] then throwE ErrUserEmpty
      else kc_tx (
        if \<not> smallint (ua_Role u) then throwE err_smallint
        else bindE (fstE (exec_update_user (ub_Username u)
               (\<lambda>r. r\<lparr>ur_role := ua_Role u, ur_email := ub_Email u, ur_live_camera := ua_LiveCamera u\<rparr>))) (\<lambda>_.
        bindE (sndE (gk_LoginAdmin gc)) (\<lambda>_.
        bindE (tryE (sndE (getKcUserByUsername gc (ub_Username u)))) (\<lambda>r.
          case r of
            Inl e \<Rightarrow> if errors_is e ErrUserNotFound then fstE (modifyE (delete_user (ub_Username u))) else throwE e
          | Inr kcUser \<Rightarrow>
              bindE (sndE (set_enabled gc (NormalUser \<le> ua_Role u) kcUser)) (\<lambda>_.
                if ub_Password u = [] then retE () else sndE (gk_SetPassword gc (ku_ID kcUser) (ub_Password u))))))))"

definition kc_DelUser :: "'k gocloak \<Rightarrow> string \<Rightarrow> ('k, unit) kc_op" where
  "kc_DelUser gc username =
     kc_tx (
       bindE (fstE (jwt_DelUser username)) (\<lambda>_.
       bindE (sndE (gk_LoginAdmin gc)) (\<lambda>_.
       bindE (tryE (sndE (getKcUserByUsername gc username))) (\<lambda>r.
         case r of
           Inl e \<Rightarrow> if errors_is e ErrUserNotFound then retE () else throwE e
         | Inr kcUser \<Rightarrow>
             bindE (tryE (sndE (gk_DeleteUser gc (ku_ID kcUser)))) (\<lambda>d.
               case d of Inr _ \<Rightarrow> retE () | Inl e \<Rightarrow> if gk_code gc e = Some 404 then retE () else throwE e)))))"

text \<open>The manager as the request handlers see it: the operations on the tables, with the realm as it is at the call.\<close>

definition KeycloakManager :: "'k gocloak \<Rightarrow> 'k \<Rightarrow> user_manager" where
  "KeycloakManager gc k =
     \<lparr>um_Login = (\<lambda>_ r _. kc_Login gc r k), um_GetLoginUser = (\<lambda>_ r. kc_GetLoginUser gc r k),
      um_AddUser = (\<lambda>u db. map_prod id fst (kc_AddUser gc u (db, k))), um_DelUser = (\<lambda>n db. map_prod id fst (kc_DelUser gc n (db, k))),
      um_EditUserBaseInfo = (\<lambda>b db. map_prod id fst (kc_EditUserBaseInfo gc b (db, k))),
      um_EditUser = (\<lambda>u db. map_prod id fst (kc_EditUser gc u (db, k))),
      um_ListUsers = listUsersFromDB, um_GetUser = getUserFromDB\<rparr>"

section \<open>The tables\<close>

text \<open>A relation between the tables before and after that every operation keeps, whatever the realm answers.\<close>

definition tables_rel :: "(tide_db \<Rightarrow> tide_db \<Rightarrow> bool) \<Rightarrow> ('k, 'a) kc_op \<Rightarrow> bool" where
  "tables_rel R m \<longleftrightarrow> (\<forall>st. R (fst st) (fst (snd (m st))))"

named_theorems kc_rules "rules for relations between the tables before and after an operation"

definition account_rel :: "(tide_db \<Rightarrow> tide_db \<Rightarrow> bool) \<Rightarrow> bool" where
  "account_rel R \<longleftrightarrow> (\<forall>db. R db db) \<and> (\<forall>a b c. R a b \<longrightarrow> R b c \<longrightarrow> R a c) \<and>
     (\<forall>u f db. R db (update_user u f db)) \<and> (\<forall>u db. R db (delete_user u db)) \<and> (\<forall>u db. R db (snd (insert_user u db)))"

lemma rel_ret [kc_rules]: "account_rel R \<Longrightarrow> tables_rel R (retE a)"
  by (simp add: tables_rel_def retE_def account_rel_def)

lemma rel_throw [kc_rules]: "account_rel R \<Longrightarrow> tables_rel R (throwE e)"
  by (simp add: tables_rel_def throwE_def account_rel_def)

lemma rel_bind [kc_rules]:
  assumes "account_rel R" "tables_rel R m" "\<And>a. tables_rel R (f a)"
  shows "tables_rel R (bindE m f)"
  unfolding tables_rel_def
proof
  fix st
  obtain r st1 where m: "m st = (r, st1)" by (cases "m st")
  then have 1: "R (fst st) (fst st1)" using assms(2) unfolding tables_rel_def by (metis snd_conv)
  show "R (fst st) (fst (snd (bindE m f st)))"
  proof (cases r)
    case (Inr a)
    have "R (fst st1) (fst (snd (f a st1)))" using assms(3) [of a] unfolding tables_rel_def by (rule spec)
    with 1 m Inr assms(1) show ?thesis unfolding account_rel_def bindE_def by auto
  qed (use 1 m in \<open>simp add: bindE_def\<close>)
qed

lemma rel_try [kc_rules]: "tables_rel R m \<Longrightarrow> tables_rel R (tryE m)"
  unfolding tables_rel_def tryE_def by (auto split: prod.split) (metis fst_conv snd_conv)

lemma rel_realm [kc_rules]: "account_rel R \<Longrightarrow> tables_rel R (sndE m)"
  by (simp add: tables_rel_def sndE_def account_rel_def split: prod.split)

lemma rel_tx [kc_rules]: "account_rel R \<Longrightarrow> tables_rel R m \<Longrightarrow> tables_rel R (kc_tx m)"
  unfolding tables_rel_def kc_tx_def account_rel_def by (auto split: prod.split sum.split) (metis fst_conv snd_conv)

lemma rel_if [kc_rules]: "tables_rel R m \<Longrightarrow> tables_rel R n \<Longrightarrow> tables_rel R (if c then m else n)"
  by simp

lemma rel_sum [kc_rules]: "(\<And>e. tables_rel R (g e)) \<Longrightarrow> (\<And>a. tables_rel R (f a)) \<Longrightarrow> tables_rel R (case x of Inl e \<Rightarrow> g e | Inr a \<Rightarrow> f a)"
  by (simp split: sum.split)

lemma rel_statements [kc_rules]:
  assumes "account_rel R"
  shows "tables_rel R (fstE (insert_user u))" "tables_rel R (fstE (exec_update_user n g))" "tables_rel R (fstE (modifyE (delete_user n)))"
    "tables_rel R (fstE (jwt_DelUser n))"
  using assms unfolding account_rel_def tables_rel_def fstE_def
  by (auto simp: exec_update_user_def modifyE_def jwt_DelUser_def delete_user_def [symmetric] split: prod.split) (metis snd_conv)+

lemma rel_operations:
  assumes "account_rel R"
  shows "tables_rel R (kc_AddUser gc u)" "tables_rel R (kc_EditUser gc u)" "tables_rel R (kc_DelUser gc n)" "tables_rel R (kc_EditUserBaseInfo gc b)"
  unfolding kc_AddUser_def kc_EditUser_def kc_DelUser_def kc_EditUserBaseInfo_def Let_def
  by (intro kc_rules assms)+

lemma accounts_rel: "account_rel accounts_only"
  unfolding account_rel_def
proof (intro conjI allI impI)
  show "accounts_only db (update_user u f db)" for u f db by (simp add: update_user_def accounts_only_users)
  show "accounts_only db (delete_user u db)" for u db by (auto simp: accounts_only_def delete_user_def)
  show "accounts_only db (snd (insert_user u db))" for u db by (simp add: insert_user_def accounts_only_users accounts_only_refl)
qed (auto intro: accounts_only_refl accounts_only_trans)

lemma auth_rel: "account_rel (\<lambda>db db'. auth_ok db \<longrightarrow> auth_ok db')"
  unfolding account_rel_def
proof (intro conjI allI impI)
  show "auth_ok (delete_user u db)" if "auth_ok db" for u db
    using that by (auto simp: auth_ok_def delete_user_def intro: perms_ok_del_user)
  show "auth_ok (snd (insert_user u db))" if "auth_ok db" for u db
    using that by (auto simp: auth_ok_def perms_ok_def insert_user_def)
qed simp_all

lemma manager_rel:
  assumes "account_rel R"
  shows "R db (snd (um_AddUser (KeycloakManager gc k) u db))" "R db (snd (um_EditUser (KeycloakManager gc k) u db))"
    "R db (snd (um_DelUser (KeycloakManager gc k) n db))" "R db (snd (um_EditUserBaseInfo (KeycloakManager gc k) b db))"
  using rel_operations(1) [OF assms, of gc u] rel_operations(2) [OF assms, of gc u] rel_operations(3) [OF assms, of gc n]
    rel_operations(4) [OF assms, of gc b]
  unfolding tables_rel_def KeycloakManager_def by (auto dest: spec [of _ "(db, k)"])

interpretation keycloak_accounts: account_store "KeycloakManager gc k" for gc k
proof unfold_locales
  let ?um = "KeycloakManager gc k"
  show "um_GetUser ?um u db =
      (case map_of (users db) u of None \<Rightarrow> (Inl ErrUserNotFound, db) | Some r \<Rightarrow> (Inr (user_of_row u r), db))" for u db
    by (simp add: KeycloakManager_def getUserFromDB_def readE_def split: option.split)
  show "snd (um_ListUsers ?um c r db) = db" for c r db
    by (simp add: KeycloakManager_def listUsersFromDB_def readE_def retE_def)
qed (simp_all add: preserves_def manager_rel [OF accounts_rel] manager_rel [OF auth_rel, rule_format])

section \<open>The realm\<close>

text \<open>
  The documented behaviour of the calls on a realm that answers: \<open>\<alpha>\<close> gives for each user name of the realm, which is in lower case, whether the
  user is enabled and the password, \<open>uid\<close> the identifier of the user, \<open>policy\<close> the passwords the realm accepts. User names of a login are matched
  without case, and before e-mail addresses; a password against the policy is refused and changes nothing.
\<close>

type_synonym realm_view = "string \<Rightarrow> (bool \<times> string) option"

abbreviation lower :: "string \<Rightarrow> bool" where "lower u \<equiv> ToLower u = u"

definition realm :: "'k gocloak \<Rightarrow> ('k \<Rightarrow> realm_view) \<Rightarrow> (string \<Rightarrow> string) \<Rightarrow> (string \<Rightarrow> bool) \<Rightarrow> bool" where
  "realm gc \<alpha> uid policy \<longleftrightarrow> inj uid \<and>
     (\<forall>u p k. isOk (fst (gk_Login gc u p k)) \<and> \<alpha> k (ToLower u) \<noteq> None \<longrightarrow> \<alpha> k (ToLower u) = Some (True, p)) \<and>
     (\<forall>k. \<exists>k'. gk_LoginAdmin gc k = (Inr (), k') \<and> \<alpha> k' = \<alpha> k) \<and>
     (\<forall>u k. lower u \<longrightarrow> (\<exists>us k'. gk_GetUsers gc u k = (Inr us, k') \<and> \<alpha> k' = \<alpha> k \<and>
        find (\<lambda>x. ku_Username x = u) us = map_option (\<lambda>(en, _). \<lparr>ku_ID = uid u, ku_Username = u, ku_Enabled = en\<rparr>) (\<alpha> k u))) \<and>
     (\<forall>u en k. lower u \<longrightarrow> (case \<alpha> k u of
        None \<Rightarrow> \<exists>k'. gk_CreateUser gc u en k = (Inr (uid u), k') \<and> \<alpha> k' = (\<alpha> k)(u \<mapsto> (en, []))
      | Some _ \<Rightarrow> \<exists>e k'. gk_CreateUser gc u en k = (Inl e, k') \<and> gk_code gc e = Some 409 \<and> \<alpha> k' = \<alpha> k)) \<and>
     (\<forall>u en old p k. \<alpha> k u = Some (old, p) \<longrightarrow>
        (\<exists>k'. gk_UpdateUser gc \<lparr>ku_ID = uid u, ku_Username = u, ku_Enabled = en\<rparr> k = (Inr (), k') \<and> \<alpha> k' = (\<alpha> k)(u \<mapsto> (en, p)))) \<and>
     (\<forall>u en old p k. \<alpha> k u = Some (en, old) \<longrightarrow>
        (if policy p then \<exists>k'. gk_SetPassword gc (uid u) p k = (Inr (), k') \<and> \<alpha> k' = (\<alpha> k)(u \<mapsto> (en, p))
         else \<exists>e k'. gk_SetPassword gc (uid u) p k = (Inl e, k') \<and> \<alpha> k' = \<alpha> k)) \<and>
     (\<forall>u k. \<alpha> k u \<noteq> None \<longrightarrow> (\<exists>k'. gk_DeleteUser gc (uid u) k = (Inr (), k') \<and> \<alpha> k' = (\<alpha> k)(u := None)))"

text \<open>
  Every account of the tables has a name in lower case and is a user of the realm, enabled exactly when its role is that of an approved user.
\<close>

definition accounts_match :: "('k \<Rightarrow> realm_view) \<Rightarrow> tide_db \<times> 'k \<Rightarrow> bool" where
  "accounts_match \<alpha> st \<longleftrightarrow> wf_map (users (fst st)) \<and>
     (\<forall>u r. roles (fst st) u = Some r \<longrightarrow> lower u \<and> (\<exists>p. \<alpha> (snd st) u = Some (NormalUser \<le> r, p)))"

lemma realm_laws:
  assumes "realm gc \<alpha> uid policy"
  shows "lower u \<Longrightarrow> \<exists>us k'. gk_GetUsers gc u k = (Inr us, k') \<and> \<alpha> k' = \<alpha> k \<and>
        find (\<lambda>x. ku_Username x = u) us = map_option (\<lambda>(en, _). \<lparr>ku_ID = uid u, ku_Username = u, ku_Enabled = en\<rparr>) (\<alpha> k u)"
    and "lower u \<Longrightarrow> case \<alpha> k u of
        None \<Rightarrow> \<exists>k'. gk_CreateUser gc u en k = (Inr (uid u), k') \<and> \<alpha> k' = (\<alpha> k)(u \<mapsto> (en, []))
      | Some _ \<Rightarrow> \<exists>e k'. gk_CreateUser gc u en k = (Inl e, k') \<and> gk_code gc e = Some 409 \<and> \<alpha> k' = \<alpha> k"
    and "\<alpha> k u = Some (old, p) \<Longrightarrow>
        \<exists>k'. gk_UpdateUser gc \<lparr>ku_ID = uid u, ku_Username = u, ku_Enabled = en\<rparr> k = (Inr (), k') \<and> \<alpha> k' = (\<alpha> k)(u \<mapsto> (en, p))"
    and "\<alpha> k u = Some (en, q) \<Longrightarrow> if policy p then \<exists>k'. gk_SetPassword gc (uid u) p k = (Inr (), k') \<and> \<alpha> k' = (\<alpha> k)(u \<mapsto> (en, p))
        else \<exists>e k'. gk_SetPassword gc (uid u) p k = (Inl e, k') \<and> \<alpha> k' = \<alpha> k"
    and "\<alpha> k u \<noteq> None \<Longrightarrow> \<exists>k'. gk_DeleteUser gc (uid u) k = (Inr (), k') \<and> \<alpha> k' = (\<alpha> k)(u := None)"
    and "\<exists>k'. gk_LoginAdmin gc k = (Inr (), k') \<and> \<alpha> k' = \<alpha> k"
    and "isOk (fst (gk_Login gc u p k)) \<Longrightarrow> \<alpha> k (ToLower u) \<noteq> None \<Longrightarrow> \<alpha> k (ToLower u) = Some (True, p)"
proof -
  note r = assms [unfolded realm_def]
  show "isOk (fst (gk_Login gc u p k)) \<Longrightarrow> \<alpha> k (ToLower u) \<noteq> None \<Longrightarrow> \<alpha> k (ToLower u) = Some (True, p)"
    by (rule r [THEN conjunct2, THEN conjunct1, rule_format], rule conjI)
  show "lower u \<Longrightarrow> case \<alpha> k u of
        None \<Rightarrow> \<exists>k'. gk_CreateUser gc u en k = (Inr (uid u), k') \<and> \<alpha> k' = (\<alpha> k)(u \<mapsto> (en, []))
      | Some _ \<Rightarrow> \<exists>e k'. gk_CreateUser gc u en k = (Inl e, k') \<and> gk_code gc e = Some 409 \<and> \<alpha> k' = \<alpha> k"
    by (rule r [THEN conjunct2, THEN conjunct2, THEN conjunct2, THEN conjunct2, THEN conjunct1, rule_format])
qed (rule assms [unfolded realm_def, THEN conjunct2, THEN conjunct2, THEN conjunct2, THEN conjunct1, rule_format], assumption
  | rule assms [unfolded realm_def, THEN conjunct2, THEN conjunct2, THEN conjunct2, THEN conjunct2, THEN conjunct2, THEN conjunct1, rule_format], assumption
  | rule assms [unfolded realm_def, THEN conjunct2, THEN conjunct2, THEN conjunct2, THEN conjunct2, THEN conjunct2, THEN conjunct2, THEN conjunct1, rule_format], assumption
  | rule assms [unfolded realm_def, THEN conjunct2, THEN conjunct2, THEN conjunct2, THEN conjunct2, THEN conjunct2, THEN conjunct2, THEN conjunct2, rule_format], assumption
  | rule assms [unfolded realm_def, THEN conjunct2, THEN conjunct2, THEN conjunct1, rule_format])+

lemma realm_get:
  assumes "realm gc \<alpha> uid policy" "lower u"
  shows "\<exists>k'. \<alpha> k' = \<alpha> k \<and> getKcUserByUsername gc u k =
    (case \<alpha> k u of None \<Rightarrow> (Inl ErrUserNotFound, k') | Some (en, _) \<Rightarrow> (Inr \<lparr>ku_ID = uid u, ku_Username = u, ku_Enabled = en\<rparr>, k'))"
proof -
  obtain us k' where "gk_GetUsers gc u k = (Inr us, k')" "\<alpha> k' = \<alpha> k"
    "find (\<lambda>x. ku_Username x = u) us = map_option (\<lambda>(en, _). \<lparr>ku_ID = uid u, ku_Username = u, ku_Enabled = en\<rparr>) (\<alpha> k u)"
    using realm_laws(1) [OF assms, where k = k] by blast
  then show ?thesis by (intro exI [of _ k']) (simp add: getKcUserByUsername_def bindE_def retE_def throwE_def split: option.split)
qed

lemma realm_enable:
  assumes "realm gc \<alpha> uid policy" "\<alpha> k u = Some (old, p)"
  shows "\<exists>k'. set_enabled gc en \<lparr>ku_ID = uid u, ku_Username = u, ku_Enabled = old\<rparr> k = (Inr (), k') \<and> \<alpha> k' = (\<alpha> k)(u \<mapsto> (en, p))"
proof (cases "old = en")
  case True
  with assms(2) show ?thesis by (auto simp: set_enabled_def retE_def)
next
  case False
  obtain k' where "gk_UpdateUser gc \<lparr>ku_ID = uid u, ku_Username = u, ku_Enabled = en\<rparr> k = (Inr (), k')" "\<alpha> k' = (\<alpha> k)(u \<mapsto> (en, p))"
    using realm_laws(3) [OF assms] by blast
  with False show ?thesis by (auto simp: set_enabled_def)
qed

lemma realm_create:
  assumes "realm gc \<alpha> uid policy" "lower u"
  shows "\<exists>k' p. create_or_update gc u en k = (Inr (uid u), k') \<and> \<alpha> k' = (\<alpha> k)(u \<mapsto> (en, p))"
proof (cases "\<alpha> k u")
  case None
  then obtain k' where "gk_CreateUser gc u en k = (Inr (uid u), k')" "\<alpha> k' = (\<alpha> k)(u \<mapsto> (en, []))"
    using realm_laws(2) [OF assms, where k = k and en = en] by auto
  then show ?thesis by (intro exI [of _ k'] exI [of _ "[]"]) (simp add: create_or_update_def bindE_def tryE_def retE_def)
next
  case (Some x)
  then obtain old p where x: "\<alpha> k u = Some (old, p)" by (cases x) simp
  then obtain e k1 where c: "gk_CreateUser gc u en k = (Inl e, k1)" "gk_code gc e = Some 409" "\<alpha> k1 = \<alpha> k"
    using realm_laws(2) [OF assms, where k = k and en = en] by auto
  obtain k2 where g: "getKcUserByUsername gc u k1 = (Inr \<lparr>ku_ID = uid u, ku_Username = u, ku_Enabled = old\<rparr>, k2)" "\<alpha> k2 = \<alpha> k"
    using realm_get [OF assms, of k1] c(3) x by auto
  obtain k3 where "set_enabled gc en \<lparr>ku_ID = uid u, ku_Username = u, ku_Enabled = old\<rparr> k2 = (Inr (), k3)" "\<alpha> k3 = (\<alpha> k2)(u \<mapsto> (en, p))"
    using realm_enable [OF assms(1), of k2 u old p en] g(2) x by auto
  with c g show ?thesis
    by (intro exI [of _ k3] exI [of _ p]) (simp add: create_or_update_def bindE_def tryE_def retE_def)
qed

text \<open>What each operation does to the roles and the realm when the realm answers.\<close>

lemma match_upd:
  assumes "accounts_match \<alpha> (db, k)" "wf_map (users db')" "roles db' = (roles db)(n \<mapsto> r)" "\<alpha> k' = (\<alpha> k)(n \<mapsto> (NormalUser \<le> r, p))" "lower n"
  shows "accounts_match \<alpha> (db', k')"
  using assms by (auto simp: accounts_match_def)

lemma match_same:
  assumes "accounts_match \<alpha> (db, k)" "\<alpha> k' = \<alpha> k"
  shows "accounts_match \<alpha> (db, k')"
  using assms by (auto simp: accounts_match_def)

lemma insert_user_cases:
  "wf_map (users db) \<Longrightarrow> (\<exists>e. insert_user u db = (Inl e, db)) \<or>
   (\<exists>db'. insert_user u db = (Inr (), db') \<and> wf_map (users db') \<and> roles db' = (roles db)(ub_Username u \<mapsto> ua_Role u) \<and>
      roles db (ub_Username u) = None)"
  by (auto simp: insert_user_def roles_def fun_eq_iff)

text \<open>
  \<open>AddUser\<close> of a new name: the realm has the user with the flag of the role afterwards, and the row stays when the password is accepted.
\<close>

lemma lower_ToLower: "lower (ToLower u)"
proof -
  have "to_lower_char (to_lower_char c) = to_lower_char c" for c by (auto simp: to_lower_char_def)
  then show ?thesis by (simp add: ToLower_def)
qed

lemma add_result:
  assumes "realm gc \<alpha> uid policy" "ub_Username u \<noteq> []" "ub_Password u \<noteq> []"
    and "insert_user (u\<lparr>ub_Username := ToLower (ub_Username u), ub_Email := ToLower (ub_Email u)\<rparr>) db = (Inr (), db')"
  shows "if policy (ub_Password u)
    then \<exists>k'. kc_AddUser gc u (db, k) = (Inr (), (db', k')) \<and>
      \<alpha> k' = (\<alpha> k)(ToLower (ub_Username u) \<mapsto> (NormalUser \<le> ua_Role u, ub_Password u))
    else \<exists>e k' p. kc_AddUser gc u (db, k) = (Inl e, (db, k')) \<and> \<alpha> k' = (\<alpha> k)(ToLower (ub_Username u) \<mapsto> (NormalUser \<le> ua_Role u, p))"
proof -
  let ?n = "ToLower (ub_Username u)"
  obtain k1 where a: "gk_LoginAdmin gc k = (Inr (), k1)" "\<alpha> k1 = \<alpha> k" using realm_laws(6) [OF assms(1)] by blast
  obtain k2 p where c: "create_or_update gc ?n (NormalUser \<le> ua_Role u) k1 = (Inr (uid ?n), k2)"
    "\<alpha> k2 = (\<alpha> k1)(?n \<mapsto> (NormalUser \<le> ua_Role u, p))" using realm_create [OF assms(1) lower_ToLower] by blast
  note set = realm_laws(4) [OF assms(1), of k2 ?n "NormalUser \<le> ua_Role u" p "ub_Password u"]
  show ?thesis
  proof (cases "policy (ub_Password u)")
    case True
    then obtain k3 where "gk_SetPassword gc (uid ?n) (ub_Password u) k2 = (Inr (), k3)"
      "\<alpha> k3 = (\<alpha> k2)(?n \<mapsto> (NormalUser \<le> ua_Role u, ub_Password u))" using set c(2) by auto
    with True a c assms(2-4) show ?thesis
      by (auto intro!: exI [of _ k3] simp: kc_AddUser_def Let_def kc_tx_def bindE_def fstE_def sndE_def)
  next
    case False
    then obtain e k3 where "gk_SetPassword gc (uid ?n) (ub_Password u) k2 = (Inl e, k3)" "\<alpha> k3 = \<alpha> k2" using set c(2) by auto
    with False a c assms(2-4) show ?thesis
      by (auto intro!: exI [of _ e] exI [of _ k3] exI [of _ p] simp: kc_AddUser_def Let_def kc_tx_def bindE_def fstE_def sndE_def)
  qed
qed

lemma add_matches:
  assumes "realm gc \<alpha> uid policy" "accounts_match \<alpha> (db, k)"
  shows "accounts_match \<alpha> (snd (kc_AddUser gc u (db, k)))"
proof (cases "ub_Username u = [] \<or> ub_Password u = []")
  case False
  let ?u = "u\<lparr>ub_Username := ToLower (ub_Username u), ub_Email := ToLower (ub_Email u)\<rparr>"
  have wf: "wf_map (users db)" using assms(2) by (simp add: accounts_match_def)
  consider e where "insert_user ?u db = (Inl e, db)"
    | db' where "insert_user ?u db = (Inr (), db')" "wf_map (users db')" "roles db' = (roles db)(ub_Username ?u \<mapsto> ua_Role ?u)"
        "roles db (ub_Username ?u) = None"
    using insert_user_cases [OF wf, of ?u] by blast
  then show ?thesis
  proof cases
    case 1
    with False assms(2) show ?thesis by (simp add: kc_AddUser_def Let_def kc_tx_def bindE_def fstE_def)
  next
    case (2 db')
    note result = add_result [OF assms(1) _ _ 2(1), of k]
    show ?thesis
    proof (cases "policy (ub_Password u)")
      case True
      with result False match_upd [OF assms(2) 2(2,3)] show ?thesis by (auto simp: lower_ToLower)
    next
      case refused: False
      with result False 2(4) assms(2) show ?thesis by (auto simp: accounts_match_def)
    qed
  qed
qed (use assms in \<open>auto simp: kc_AddUser_def throwE_def\<close>)

text \<open>
  An application for an account, which anybody may send, takes over a user of the realm that has no row in the
  tables: its password is replaced by the one in the application and it is disabled.
\<close>

lemma application_takes_over:
  assumes "realm gc \<alpha> uid policy" "\<alpha> k (ToLower (ub_Username u)) = Some (True, old)" "map_of (users db) (ToLower (ub_Username u)) = None"
    and "ub_Username u \<noteq> []" "ub_Password u \<noteq> []" "policy (ub_Password u)" "ua_Role u = DisabledUser"
  shows "\<exists>db' k'. kc_AddUser gc u (db, k) = (Inr (), (db', k')) \<and> \<alpha> k' (ToLower (ub_Username u)) = Some (False, ub_Password u)"
proof -
  obtain db' where "insert_user (u\<lparr>ub_Username := ToLower (ub_Username u), ub_Email := ToLower (ub_Email u)\<rparr>) db = (Inr (), db')"
    using assms(3,7) by (simp add: insert_user_def smallint_def role_defs)
  from add_result [OF assms(1,4,5) this, of k] assms(6,7) show ?thesis by (auto simp: role_defs)
qed

lemma matchD: "accounts_match \<alpha> st \<Longrightarrow> roles (fst st) u = Some r \<Longrightarrow> lower u \<and> (\<exists>p. \<alpha> (snd st) u = Some (NormalUser \<le> r, p))"
  by (simp add: accounts_match_def)

lemma match_user:
  assumes "accounts_match \<alpha> (db, k)" "sql_count (\<lambda>x _. x = u) (users db) \<noteq> 0"
  obtains r p where "roles db u = Some r" "\<alpha> k u = Some (NormalUser \<le> r, p)" "lower u"
proof -
  from assms(2) have "filter (\<lambda>(x, _). x = u) (users db) \<noteq> []" by (simp add: sql_count_def)
  then have "u \<in> fst ` set (users db)" by (force simp: filter_empty_conv)
  then have "map_of (users db) u \<noteq> None" by (simp add: map_of_eq_None_iff)
  then obtain r where "roles db u = Some r" by (auto simp: roles_def)
  with matchD [OF assms(1), of u r] that show thesis by auto
qed

lemma wf_update_user [simp]: "wf_map (users (update_user u f db)) = wf_map (users db)"
  by (simp add: update_user_def)

lemma roles_updated:
  assumes "roles db n = Some r" "\<And>row. ur_role row = r \<Longrightarrow> ur_role (f row) = r'"
  shows "roles (update_user n f db) = (roles db)(n \<mapsto> r')"
proof -
  obtain row where "map_of (users db) n = Some row" "ur_role row = r" using assms(1) by (auto simp: roles_def)
  with assms(2) show ?thesis by (auto simp: fun_eq_iff roles_update_user)
qed

lemma update_cases:
  obtains "exec_update_user u f db = (Inl ErrUserNotFound, db)"
  | "sql_count (\<lambda>k _. k = u) (users db) \<noteq> 0" "exec_update_user u f db = (Inr (), update_user u f db)"
proof (cases "sql_count (\<lambda>k _. k = u) (users db) = 0")
  case True
  then have none: "filter (\<lambda>(k, v). k = u) (users db) = []" by (simp add: sql_count_def)
  then have "update_user u f db = db"
    by (force simp: update_user_def sql_update_def filter_empty_conv intro!: tide_db.equality map_idI)
  with True that(1) show thesis by (simp add: exec_update_user_def)
next
  case False
  with that(2) show thesis by (simp add: exec_update_user_def)
qed

lemma edit_matches:
  assumes "realm gc \<alpha> uid policy" "accounts_match \<alpha> (db, k)" "ub_Password u = [] \<or> policy (ub_Password u)"
  shows "accounts_match \<alpha> (snd (kc_EditUser gc u (db, k)))"
proof (cases "ub_Username u = [] \<or> \<not> smallint (ua_Role u)")
  case False
  let ?n = "ub_Username u" and ?f = "\<lambda>r. r\<lparr>ur_role := ua_Role u, ur_email := ub_Email u, ur_live_camera := ua_LiveCamera u\<rparr>"
  have wf: "wf_map (users db)" using assms(2) by (simp add: accounts_match_def)
  show ?thesis
  proof (rule update_cases [of ?n ?f db])
    assume "exec_update_user ?n ?f db = (Inl ErrUserNotFound, db)"
    with False assms(2) show ?thesis by (simp add: kc_EditUser_def kc_tx_def bindE_def fstE_def)
  next
    assume n: "sql_count (\<lambda>k _. k = ?n) (users db) \<noteq> 0" "exec_update_user ?n ?f db = (Inr (), update_user ?n ?f db)"
    obtain r p where r: "roles db ?n = Some r" "\<alpha> k ?n = Some (NormalUser \<le> r, p)" "lower ?n" using match_user [OF assms(2) n(1)] .
    obtain k1 where a: "gk_LoginAdmin gc k = (Inr (), k1)" "\<alpha> k1 = \<alpha> k" using realm_laws(6) [OF assms(1)] by blast
    obtain k2 where g: "getKcUserByUsername gc ?n k1 = (Inr \<lparr>ku_ID = uid ?n, ku_Username = ?n, ku_Enabled = NormalUser \<le> r\<rparr>, k2)" "\<alpha> k2 = \<alpha> k"
      using realm_get [OF assms(1) r(3), of k1] a(2) r(2) by auto
    obtain k3 where e: "set_enabled gc (NormalUser \<le> ua_Role u) \<lparr>ku_ID = uid ?n, ku_Username = ?n, ku_Enabled = NormalUser \<le> r\<rparr> k2 = (Inr (), k3)"
      "\<alpha> k3 = (\<alpha> k2)(?n \<mapsto> (NormalUser \<le> ua_Role u, p))" using realm_enable [OF assms(1), of k2 ?n] g(2) r(2) by auto
    obtain k4 where p: "ub_Password u \<noteq> [] \<longrightarrow> gk_SetPassword gc (uid ?n) (ub_Password u) k3 = (Inr (), k4) \<and>
        \<alpha> k4 = (\<alpha> k3)(?n \<mapsto> (NormalUser \<le> ua_Role u, ub_Password u))"
      using realm_laws(4) [OF assms(1), of k3 ?n "NormalUser \<le> ua_Role u" p "ub_Password u"] e(2) assms(3) by fastforce
    have "roles (update_user ?n ?f db) = (roles db)(?n \<mapsto> ua_Role u)" using roles_updated [OF r(1)] by simp
    then have "accounts_match \<alpha> (update_user ?n ?f db, if ub_Password u = [] then k3 else k4)"
      using match_upd [OF assms(2), of "update_user ?n ?f db"] wf g(2) e(2) p r(3) by auto
    moreover have "snd (kc_EditUser gc u (db, k)) = (update_user ?n ?f db, if ub_Password u = [] then k3 else k4)"
      using False n(2) a(1) g(1) e(1) p by (simp add: kc_EditUser_def kc_tx_def bindE_def fstE_def sndE_def tryE_def retE_def)
    ultimately show ?thesis by simp
  qed
qed (use assms in \<open>auto simp: kc_EditUser_def throwE_def kc_tx_def\<close>)

lemma base_matches:
  assumes "realm gc \<alpha> uid policy" "accounts_match \<alpha> (db, k)"
  shows "accounts_match \<alpha> (snd (kc_EditUserBaseInfo gc u (db, k)))"
proof (cases "ub_Username u = []")
  case False
  let ?n = "ub_Username u" and ?f = "\<lambda>r. r\<lparr>ur_email := ub_Email u\<rparr>"
  have wf: "wf_map (users db)" using assms(2) by (simp add: accounts_match_def)
  show ?thesis
  proof (rule update_cases [of ?n ?f db])
    assume "exec_update_user ?n ?f db = (Inl ErrUserNotFound, db)"
    with False assms(2) show ?thesis by (simp add: kc_EditUserBaseInfo_def bindE_def fstE_def)
  next
    assume n: "sql_count (\<lambda>k _. k = ?n) (users db) \<noteq> 0" "exec_update_user ?n ?f db = (Inr (), update_user ?n ?f db)"
    obtain r p where r: "roles db ?n = Some r" "\<alpha> k ?n = Some (NormalUser \<le> r, p)" "lower ?n" using match_user [OF assms(2) n(1)] .
    obtain k1 where a: "gk_LoginAdmin gc k = (Inr (), k1)" "\<alpha> k1 = \<alpha> k" using realm_laws(6) [OF assms(1)] by blast
    obtain k2 where g: "getKcUserByUsername gc ?n k1 = (Inr \<lparr>ku_ID = uid ?n, ku_Username = ?n, ku_Enabled = NormalUser \<le> r\<rparr>, k2)" "\<alpha> k2 = \<alpha> k"
      using realm_get [OF assms(1) r(3), of k1] a(2) r(2) by auto
    obtain x k3 q where pw: "gk_SetPassword gc (uid ?n) (ub_Password u) k2 = (x, k3)" "\<alpha> k3 = (\<alpha> k2)(?n \<mapsto> (NormalUser \<le> r, q))"
      using realm_laws(4) [OF assms(1), of k2 ?n "NormalUser \<le> r" p "ub_Password u"] g(2) r(2) by (fastforce split: if_splits)
    have upd: "roles (update_user ?n ?f db) = (roles db)(?n \<mapsto> r)" using roles_updated [OF r(1)] by simp
    have "\<alpha> k = (\<alpha> k)(?n \<mapsto> (NormalUser \<le> r, p))" using r(2) by (simp add: fun_upd_idem)
    then have "accounts_match \<alpha> (update_user ?n ?f db, if ub_Password u = [] then k else k3)"
      using match_upd [OF assms(2) _ upd, of k] match_upd [OF assms(2) _ upd, of k3] wf g(2) pw(2) r(3) by auto
    moreover have "snd (kc_EditUserBaseInfo gc u (db, k)) = (update_user ?n ?f db, if ub_Password u = [] then k else k3)"
      using False n(2) a(1) g(1) pw(1) by (cases x) (simp_all add: kc_EditUserBaseInfo_def bindE_def fstE_def sndE_def tryE_def retE_def)
    ultimately show ?thesis by simp
  qed
qed (use assms in \<open>auto simp: kc_EditUserBaseInfo_def throwE_def\<close>)

lemma del_matches:
  assumes "realm gc \<alpha> uid policy" "accounts_match \<alpha> (db, k)"
  shows "accounts_match \<alpha> (snd (kc_DelUser gc n (db, k)))"
proof (cases "sql_count (\<lambda>k _. k = n) (users db) = 0")
  case True
  with assms(2) show ?thesis by (simp add: kc_DelUser_def kc_tx_def bindE_def fstE_def jwt_DelUser_def)
next
  case False
  have wf: "wf_map (users db)" using assms(2) by (simp add: accounts_match_def)
  obtain r p where r: "roles db n = Some r" "\<alpha> k n = Some (NormalUser \<le> r, p)" "lower n" using match_user [OF assms(2) False] .
  obtain k1 where a: "gk_LoginAdmin gc k = (Inr (), k1)" "\<alpha> k1 = \<alpha> k" using realm_laws(6) [OF assms(1)] by blast
  obtain k2 where g: "getKcUserByUsername gc n k1 = (Inr \<lparr>ku_ID = uid n, ku_Username = n, ku_Enabled = NormalUser \<le> r\<rparr>, k2)" "\<alpha> k2 = \<alpha> k"
    using realm_get [OF assms(1) r(3), of k1] a(2) r(2) by auto
  obtain k3 where d: "gk_DeleteUser gc (uid n) k2 = (Inr (), k3)" "\<alpha> k3 = (\<alpha> k2)(n := None)"
    using realm_laws(5) [OF assms(1), of k2 n] g(2) r(2) by auto
  have "roles (delete_user n db) = (roles db)(n := None)" "wf_map (users (delete_user n db))"
    using wf by (auto simp: roles_def delete_user_def fun_eq_iff map_of_sql_delete split: option.split)
  then have "accounts_match \<alpha> (delete_user n db, k3)" using assms(2) d(2) g(2) by (auto simp: accounts_match_def)
  moreover have "snd (kc_DelUser gc n (db, k)) = (delete_user n db, k3)"
    using False a(1) g(1) d(1) by (simp add: kc_DelUser_def kc_tx_def bindE_def fstE_def sndE_def tryE_def retE_def jwt_DelUser_def delete_user_def)
  ultimately show ?thesis by simp
qed

text \<open>A sequence of account operations.\<close>

datatype account_call = KAdd user | KEdit user | KBase user_base_info | KDel string

fun account_call_state :: "'k gocloak \<Rightarrow> account_call \<Rightarrow> tide_db \<times> 'k \<Rightarrow> tide_db \<times> 'k" where
  "account_call_state gc (KAdd u) st = snd (kc_AddUser gc u st)"
| "account_call_state gc (KEdit u) st = snd (kc_EditUser gc u st)"
| "account_call_state gc (KBase b) st = snd (kc_EditUserBaseInfo gc b st)"
| "account_call_state gc (KDel n) st = snd (kc_DelUser gc n st)"

text \<open>The edits of an account carry no password the realm refuses.\<close>

fun accepted_call :: "(string \<Rightarrow> bool) \<Rightarrow> account_call \<Rightarrow> bool" where
  "accepted_call policy (KEdit u) = (ub_Password u = [] \<or> policy (ub_Password u))"
| "accepted_call policy _ = True"

lemma call_matches:
  "realm gc \<alpha> uid policy \<Longrightarrow> accepted_call policy c \<Longrightarrow> accounts_match \<alpha> st \<Longrightarrow> accounts_match \<alpha> (account_call_state gc c st)"
  by (cases st; cases c) (simp_all add: add_matches edit_matches base_matches del_matches)

text \<open>
  C29: the accounts of the tables and of a Keycloak realm that answers every call stay in step. Over any sequence of
  account operations in which no \<open>EditUser\<close> carries a password that the realm's policy refuses, every account of the tables remains a user of the
  realm, enabled exactly when its role is at least that of a normal user. A person whose account waits for approval or was disabled therefore
  cannot log in, in whatever case the name is written. Calls that fail on the network are not part of the statement.
\<close>

theorem keycloak_accounts_match:
  assumes "realm gc \<alpha> uid policy" "accounts_match \<alpha> st" "list_all (accepted_call policy) calls"
  shows "accounts_match \<alpha> (fold (account_call_state gc) calls st) \<and>
    (\<forall>r role. roles (fst (fold (account_call_state gc) calls st)) (ToLower (PostFormValue r ''username'')) = Some role \<and> role < NormalUser \<longrightarrow>
       kc_Login gc r (snd (fold (account_call_state gc) calls st)) = Inl 401)"
proof -
  let ?st = "fold (account_call_state gc) calls st"
  have m: "accounts_match \<alpha> ?st"
    using assms(2,3) by (induction calls arbitrary: st) (simp_all add: call_matches [OF assms(1)])
  moreover have "kc_Login gc r (snd ?st) = Inl 401"
    if "roles (fst ?st) (ToLower (PostFormValue r ''username'')) = Some role" "role < NormalUser" for r role
  proof (cases "fst (gk_Login gc (PostFormValue r ''username'') (PostFormValue r ''password'') (snd ?st))")
    case (Inr jwt)
    from matchD [OF m that(1)] that(2) obtain p where "\<alpha> (snd ?st) (ToLower (PostFormValue r ''username'')) = Some (False, p)" by auto
    with Inr realm_laws(7) [OF assms(1), where k = "snd ?st" and u = "PostFormValue r ''username''" and p = "PostFormValue r ''password''"]
    show ?thesis by simp
  qed (simp add: kc_Login_def)
  ultimately show ?thesis by blast
qed

text \<open>
  An edit with a password that the realm refuses fails and keeps the role, but has already changed the enabled flag of the realm's user: an
  account that waits for approval is then enabled in the realm although it is still disabled in the tables.
\<close>

theorem refused_password_enables:
  assumes "realm gc \<alpha> uid policy" "accounts_match \<alpha> (db, k)" "roles db (ub_Username u) = Some r" "r < NormalUser"
    and "NormalUser \<le> ua_Role u" "smallint (ua_Role u)" "ub_Username u \<noteq> []" "ub_Password u \<noteq> []" "\<not> policy (ub_Password u)"
  shows "\<exists>e k' p. kc_EditUser gc u (db, k) = (Inl e, (db, k')) \<and> \<alpha> k' (ub_Username u) = Some (True, p)"
proof -
  let ?n = "ub_Username u" and ?f = "\<lambda>r. r\<lparr>ur_role := ua_Role u, ur_email := ub_Email u, ur_live_camera := ua_LiveCamera u\<rparr>"
  obtain p where r: "\<alpha> k ?n = Some (NormalUser \<le> r, p)" "lower ?n" using matchD [OF assms(2), of ?n r] assms(3) by auto
  obtain row where "(?n, row) \<in> set (users db)" using assms(3) by (auto simp: roles_def dest: map_of_SomeD)
  then have n: "exec_update_user ?n ?f db = (Inr (), update_user ?n ?f db)"
    by (auto simp: exec_update_user_def sql_count_def filter_empty_conv)
  obtain k1 where a: "gk_LoginAdmin gc k = (Inr (), k1)" "\<alpha> k1 = \<alpha> k" using realm_laws(6) [OF assms(1)] by blast
  obtain k2 where g: "getKcUserByUsername gc ?n k1 = (Inr \<lparr>ku_ID = uid ?n, ku_Username = ?n, ku_Enabled = NormalUser \<le> r\<rparr>, k2)" "\<alpha> k2 = \<alpha> k"
    using realm_get [OF assms(1) r(2), of k1] a(2) r(1) by auto
  obtain k3 where e: "set_enabled gc (NormalUser \<le> ua_Role u) \<lparr>ku_ID = uid ?n, ku_Username = ?n, ku_Enabled = NormalUser \<le> r\<rparr> k2 = (Inr (), k3)"
    "\<alpha> k3 = (\<alpha> k2)(?n \<mapsto> (NormalUser \<le> ua_Role u, p))" using realm_enable [OF assms(1), of k2 ?n] g(2) r(1) by auto
  obtain err k4 where "gk_SetPassword gc (uid ?n) (ub_Password u) k3 = (Inl err, k4)" "\<alpha> k4 = \<alpha> k3"
    using realm_laws(4) [OF assms(1), of k3 ?n "NormalUser \<le> ua_Role u" p "ub_Password u"] e(2) assms(9) by auto
  with n a(1) g(1) e assms(5-8) show ?thesis
    by (intro exI [of _ err] exI [of _ k4] exI [of _ p]) (simp add: kc_EditUser_def kc_tx_def bindE_def fstE_def sndE_def tryE_def)
qed

text \<open>
  An edit of an account that the realm does not know reports success although it removed the account.
  \<open>EditUser\<close> deletes the row and returns the error variable, which by then holds the result of the deletion.
\<close>

theorem keycloak_edit_removes_account:
  assumes "gk_LoginAdmin gc k = (Inr (), k1)" "gk_GetUsers gc (ub_Username u) k1 = (Inr us, k2)" "ub_Username u \<notin> ku_Username ` set us"
    and "wf_map (users db)" "map_of (users db) (ub_Username u) \<noteq> None" "ub_Username u \<noteq> []" "smallint (ua_Role u)"
  shows "\<exists>db'. kc_EditUser gc u (db, k) = (Inr (), (db', k2)) \<and> map_of (users db') (ub_Username u) = None"
proof -
  let ?n = "ub_Username u" and ?f = "\<lambda>r. r\<lparr>ur_role := ua_Role u, ur_email := ub_Email u, ur_live_camera := ua_LiveCamera u\<rparr>"
  have "find (\<lambda>x. ku_Username x = ?n) us = None" using assms(3) by (force simp: find_None_iff image_iff)
  then have g: "getKcUserByUsername gc ?n k1 = (Inl ErrUserNotFound, k2)"
    using assms(2) by (simp add: getKcUserByUsername_def bindE_def throwE_def)
  obtain row where row: "(?n, row) \<in> set (users db)" using assms(5) by (auto dest: map_of_SomeD)
  have upd: "exec_update_user ?n ?f db = (Inr (), update_user ?n ?f db)"
    using row by (auto simp: exec_update_user_def sql_count_def filter_empty_conv)
  have "kc_EditUser gc u (db, k) = (Inr (), (delete_user ?n (update_user ?n ?f db), k2))"
    using assms(1,6,7) g upd
    by (simp add: kc_EditUser_def kc_tx_def bindE_def fstE_def sndE_def tryE_def modifyE_def ErrUserNotFound_def)
  moreover have "map_of (users (delete_user ?n (update_user ?n ?f db))) ?n = None"
    using assms(4) by (simp add: delete_user_def map_of_sql_delete split: option.split)
  ultimately show ?thesis by blast
qed

section \<open>An example realm\<close>

text \<open>Its policy asks for at least two characters.\<close>

definition map_realm :: "realm_view gocloak" where
  "map_realm = \<lparr>
     gk_Login = (\<lambda>u p k. (if k (ToLower u) = Some (True, p) then Inr ''token'' else Inl (ErrorString ''401''), k)),
     gk_Introspect = (\<lambda>t k. (Inr (False, []), k)),
     gk_LoginAdmin = (\<lambda>k. (Inr (), k)),
     gk_GetUsers = (\<lambda>u k. (Inr (case k u of None \<Rightarrow> [] | Some (en, _) \<Rightarrow> [\<lparr>ku_ID = u, ku_Username = u, ku_Enabled = en\<rparr>]), k)),
     gk_CreateUser = (\<lambda>u en k. if k u = None then (Inr u, k(u \<mapsto> (en, []))) else (Inl (ErrorString ''409''), k)),
     gk_UpdateUser = (\<lambda>x k. (Inr (), k(ku_ID x := map_option (\<lambda>(_, p). (ku_Enabled x, p)) (k (ku_ID x))))),
     gk_SetPassword = (\<lambda>i p k. if length p < 2 then (Inl (ErrorString ''400''), k)
        else (Inr (), k(i := map_option (\<lambda>(en, _). (en, p)) (k i)))),
     gk_DeleteUser = (\<lambda>i k. (Inr (), k(i := None))),
     gk_code = (\<lambda>e. if e = ErrorString ''409'' then Some 409 else None)\<rparr>"

lemma map_realm: "realm map_realm (\<lambda>k. k) (\<lambda>u. u) (\<lambda>p. 2 \<le> length p)"
  unfolding realm_def by (intro conjI allI; auto simp: map_realm_def split: option.split)

lemma no_accounts_match: "accounts_match \<alpha> (empty_db, k)"
  by (simp add: accounts_match_def empty_db_def roles_def)

theorem keycloak_accounts_match_witness:
  "accounts_match (\<lambda>k. k) (fold (account_call_state map_realm)
     [KAdd \<lparr>ub_Username = ''Ann'', ub_Password = ''pw'', ub_Email = [], ua_Role = DisabledUser, ua_LiveCamera = False\<rparr>] (empty_db, Map.empty))"
  using keycloak_accounts_match [OF map_realm no_accounts_match, of
      "[KAdd \<lparr>ub_Username = ''Ann'', ub_Password = ''pw'', ub_Email = [], ua_Role = DisabledUser, ua_LiveCamera = False\<rparr>]" Map.empty]
  by simp

definition ann_applied :: tide_db where
  "ann_applied = empty_db\<lparr>users := [(''ann'', \<lparr>ur_password_hash = [], ur_role = DisabledUser, ur_email = [], ur_live_camera = False\<rparr>)]\<rparr>"

theorem refused_password_enables_witness:
  "\<exists>e k' p. kc_EditUser map_realm \<lparr>ub_Username = ''ann'', ub_Password = ''x'', ub_Email = [], ua_Role = NormalUser, ua_LiveCamera = False\<rparr>
     (ann_applied, [''ann'' \<mapsto> (False, ''pw'')]) = (Inl e, (ann_applied, k')) \<and> k' ''ann'' = Some (True, p)"
  using refused_password_enables [OF map_realm, of ann_applied "[''ann'' \<mapsto> (False, ''pw'')]"
      "\<lparr>ub_Username = ''ann'', ub_Password = ''x'', ub_Email = [], ua_Role = NormalUser, ua_LiveCamera = False\<rparr>" DisabledUser]
  by (simp add: accounts_match_def ann_applied_def roles_def role_defs smallint_def ToLower_def to_lower_char_def)

theorem keycloak_edit_removes_account_witness:
  "\<exists>db'. kc_EditUser map_realm \<lparr>ub_Username = ''ann'', ub_Password = [], ub_Email = [], ua_Role = 1, ua_LiveCamera = False\<rparr> (one_user_db, Map.empty) =
     (Inr (), (db', Map.empty)) \<and> map_of (users db') ''ann'' = None"
  using keycloak_edit_removes_account [of map_realm Map.empty Map.empty
      "\<lparr>ub_Username = ''ann'', ub_Password = [], ub_Email = [], ua_Role = 1, ua_LiveCamera = False\<rparr>" "[]" Map.empty one_user_db]
  by (simp add: map_realm_def one_user_db_def smallint_def)

end
