(* ===== verification/SeaLevel.thy ===== *)
theory SeaLevel
  imports Common
begin

text \<open>
  The sea-level pages: the tables of \<^verbatim>\<open>tide_server/db/sea.go\<close>, the jobs of \<^verbatim>\<open>controller/sea_script.go\<close> that fill them
  from public web pages and the handlers of \<^verbatim>\<open>controller/sea.go\<close> that serve them. What an HTTP request
  to another site gives is an input: the rows of the page's table as lists of cell texts, or the decoded
  XML. \<open>sea_fault\<close> makes the n-th statement fail, as a lost connection does.
\<close>

section \<open>Tables\<close>

record StationSeaLevel =
  sea_Code :: string
  sea_Lat :: float64
  sea_Lon :: float64
  sea_Level :: float64

record SateAltimetry =
  al_Lat :: float64
  al_Lon :: float64
  al_SeaLevel :: float64

record GlossStation =
  gl_Id :: int
  gl_Name :: string
  gl_Country :: string
  gl_Latitude :: float64
  gl_Longitude :: float64
  gl_LatestPsmsl :: string
  gl_LatestPsmslRlr :: string
  gl_LatestBodc :: string
  gl_LatestSonel :: string
  gl_LatestJasl :: string
  gl_LatestUhslcFast :: string
  gl_LatestVliz :: string

record gloss_row =
  gr_station :: string
  gr_IOCCode :: "string option"
  gr_PSMSLNumber :: "int option"

record SonelData =
  so_StaId :: int
  so_StaName :: "string option"
  so_StaAcro :: "string option"
  so_StaType :: "string option"
  so_StaEtat :: "int option"
  so_StaPays :: "string option"
  so_StaLon :: "float64 option"
  so_StaLat :: "float64 option"

record PsmslData =
  ps_Id :: int
  ps_StationName :: "string option"
  ps_Lat :: "float64 option"
  ps_Lon :: "float64 option"
  ps_Coastline :: "int option"
  ps_Station :: "int option"
  ps_GLOSSID :: "int option"
  ps_Country :: "string option"
  ps_Date :: "string option"

record sea_db =
  station_sea_level :: "StationSeaLevel list"
  station_info_gloss_all :: "GlossStation list"
  station_info_gloss :: "gloss_row list"
  station_info_tide :: "SonelData list"
  station_info_psmsl :: "PsmslData list"
  altimetry :: "(string, SateAltimetry list) go_map"
  sea_fault :: "nat \<Rightarrow> go_error option"
  sea_stmts :: nat

type_synonym 'a sea_op = "(sea_db, 'a) eff"

text \<open>One statement: it fails or has its effect.\<close>

definition sea_stmt :: "(sea_db \<Rightarrow> 'a result \<times> sea_db) \<Rightarrow> 'a sea_op" where
  "sea_stmt f db =
     (let db1 = db\<lparr>sea_stmts := Suc (sea_stmts db)\<rparr> in
      case sea_fault db (sea_stmts db) of Some e \<Rightarrow> (Inl e, db1) | None \<Rightarrow> f db1)"

definition sea_exec :: "(sea_db \<Rightarrow> sea_db) \<Rightarrow> unit sea_op" where
  "sea_exec f = sea_stmt (\<lambda>db. (Inr (), f db))"

definition sea_query :: "(sea_db \<Rightarrow> 'a) \<Rightarrow> 'a sea_op" where
  "sea_query f = sea_stmt (\<lambda>db. (Inr (f db), db))"

text \<open>A transaction: begin and commit may fail too; a failure leaves the tables as they were.\<close>

definition sea_tx :: "unit sea_op \<Rightarrow> unit sea_op" where
  "sea_tx m db =
     (case bindE (sea_exec (\<lambda>db. db)) (\<lambda>_. bindE m (\<lambda>_. sea_exec (\<lambda>db. db))) db of
        (Inl e, db') \<Rightarrow> (Inl e, db\<lparr>sea_stmts := sea_stmts db'\<rparr>)
      | (Inr a, db') \<Rightarrow> (Inr a, db'))"

definition UpdateSeaLevel :: "StationSeaLevel list \<Rightarrow> unit sea_op" where
  "UpdateSeaLevel stationsLevel =
     sea_tx (bindE (sea_exec (\<lambda>db. db\<lparr>station_sea_level := []\<rparr>)) (\<lambda>_.
       forE (\<lambda>l. sea_exec (\<lambda>db. db\<lparr>station_sea_level := station_sea_level db @ [l]\<rparr>)) stationsLevel))"

definition UpdateStationInfoGlossAll :: "GlossStation list \<Rightarrow> unit sea_op" where
  "UpdateStationInfoGlossAll ss =
     sea_tx (bindE (sea_exec (\<lambda>db. db\<lparr>station_info_gloss_all := []\<rparr>)) (\<lambda>_.
       forE (\<lambda>s. sea_exec (\<lambda>db. db\<lparr>station_info_gloss_all := station_info_gloss_all db @ [s]\<rparr>)) ss))"

text \<open>The longitude comes first in a value.\<close>

definition db_GetSeaLevel :: "(string \<times> float64 \<times> float64 \<times> float64) list sea_op" where
  "db_GetSeaLevel =
     sea_query (\<lambda>db. map (\<lambda>s. (sea_Code s, sea_Lon s, sea_Lat s, sea_Level s)) (filter (\<lambda>s. sea_Level s \<noteq> - 999) (station_sea_level db)))"

definition err_illegal_table :: "string \<Rightarrow> go_error" where
  "err_illegal_table tn = ErrorString (''Table name contains illegal characters: '' @ tn)"

definition db_GetSateAltimetry :: "string \<Rightarrow> SateAltimetry list sea_op" where
  "db_GetSateAltimetry tn =
     (if ContainsIllegalCharacter tn then throwE (err_illegal_table tn)
      else sea_stmt (\<lambda>db. case map_of (altimetry db) tn of None \<Rightarrow> (Inl (PgError ''42P01''), db) | Some rows \<Rightarrow> (Inr rows, db)))"

text \<open>The left join on the station's name.\<close>

definition GetGlossData :: "(GlossStation \<times> string option \<times> int option) list sea_op" where
  "GetGlossData =
     sea_query (\<lambda>db. concat (map (\<lambda>s.
       case filter (\<lambda>g. gr_station g = gl_Name s) (station_info_gloss db) of
         [] \<Rightarrow> [(s, None, None)]
       | gs \<Rightarrow> map (\<lambda>g. (s, gr_IOCCode g, gr_PSMSLNumber g)) gs) (station_info_gloss_all db)))"

definition GetSonelData :: "SonelData list sea_op" where
  "GetSonelData = sea_query station_info_tide"

definition GetPsmslData :: "PsmslData list sea_op" where
  "GetPsmslData = sea_query station_info_psmsl"

section \<open>The jobs\<close>

text \<open>The text of the i-th cell of a row; a missing cell has no text.\<close>

definition cell :: "string list \<Rightarrow> nat \<Rightarrow> string" where
  "cell tds i = (if i < length tds then tds ! i else [])"

definition sea_row :: "(string \<Rightarrow> float64 result) \<Rightarrow> (string, float64 \<times> float64) go_map \<Rightarrow> string list \<Rightarrow> StationSeaLevel option" where
  "sea_row parseFloat stationsPos tds =
     (let levelStr = TrimSpace (cell tds 6); code = TrimSpace (cell tds 0) in
      if levelStr = [] \<or> levelStr = ''-999'' then None
      else case parseFloat levelStr of
        Inl _ \<Rightarrow> None
      | Inr level \<Rightarrow>
          (case map_of stationsPos code of
             None \<Rightarrow> None
           | Some (lat, lon) \<Rightarrow> Some \<lparr>sea_Code = code, sea_Lat = lat, sea_Lon = lon, sea_Level = level\<rparr>))"

text \<open>
  \<open>slc start rows\<close> is the library's selection of the rows from \<open>start\<close> to the end, a negative \<open>start\<close> counted from the
  end; \<open>None\<close> is a panic. It is used only within the bounds of \<open>slice_law\<close>, or panics the way the library does.
\<close>

type_synonym row_slice = "int \<Rightarrow> string list list \<Rightarrow> string list list option"

definition slice_law :: "row_slice \<Rightarrow> bool" where
  "slice_law slc \<longleftrightarrow>
     (\<forall>start rows. 0 \<le> start \<and> nat start \<le> length rows \<longrightarrow> slc start rows = Some (drop (nat start) rows)) \<and>
     (\<forall>start rows. start < 0 \<and> nat (- start) \<le> length rows \<longrightarrow> slc start rows = Some (drop (length rows - nat (- start)) rows))"

text \<open>\<open>page\<close>: no response, a response with a status, and whether its document parses into table rows.\<close>

definition seaHeight ::
  "row_slice \<Rightarrow> (string \<Rightarrow> float64 result) \<Rightarrow> (string, float64 \<times> float64) go_map \<Rightarrow> (int \<times> string list list result) result
     \<Rightarrow> sea_db \<Rightarrow> sea_db option" where
  "seaHeight slc parseFloat stationsPos page db =
     (case page of
        Inl _ \<Rightarrow> Some db
      | Inr (status, doc) \<Rightarrow>
          if status \<noteq> 200 then Some db
          else case doc of
            Inl _ \<Rightarrow> Some db
          | Inr tr \<Rightarrow> map_option (\<lambda>rows. snd (UpdateSeaLevel (List.map_filter (sea_row parseFloat stationsPos) rows) db)) (slc 3 tr))"

record activeDefinition =
  ad_Bodc :: string
  ad_Psmsl :: string
  ad_PsmslRlr :: string
  ad_Jasl :: string
  ad_Sonel :: string
  ad_UhslcFast :: string
  ad_Vliz :: string

definition stationInfoGlossAll :: "(int \<times> (activeDefinition \<times> GlossStation list) result) result \<Rightarrow> sea_db \<Rightarrow> sea_db" where
  "stationInfoGlossAll page db =
     (case page of
        Inl _ \<Rightarrow> db
      | Inr (status, doc) \<Rightarrow>
          if status \<noteq> 200 then db
          else case doc of
            Inl _ \<Rightarrow> db
          | Inr (ad, ss) \<Rightarrow>
              snd (UpdateStationInfoGlossAll (ss @ [\<lparr>gl_Id = 0, gl_Name = ''LastestDate'', gl_Country = ''-'', gl_Latitude = 0, gl_Longitude = 0,
                gl_LatestPsmsl = ad_Psmsl ad, gl_LatestPsmslRlr = ad_PsmslRlr ad, gl_LatestBodc = ad_Bodc ad, gl_LatestSonel = ad_Sonel ad,
                gl_LatestJasl = ad_Jasl ad, gl_LatestUhslcFast = ad_UhslcFast ad, gl_LatestVliz = ad_Vliz ad\<rparr>]) db))"

section \<open>The handlers\<close>

text \<open>The status and, for status 200, the value written; \<open>None\<close> when the handler writes nothing.\<close>

type_synonym 'a sea_reply = "int \<times> 'a option"

definition serve_query :: "'a sea_op \<Rightarrow> sea_db \<Rightarrow> 'a sea_reply" where
  "serve_query q db = (case fst (q db) of Inl _ \<Rightarrow> (500, None) | Inr v \<Rightarrow> (200, Some v))"

definition GetSateAltimetry :: "string \<Rightarrow> sea_db \<Rightarrow> SateAltimetry list sea_reply" where
  "GetSateAltimetry tableName db = (if tableName = [] then (400, None) else serve_query (db_GetSateAltimetry tableName) db)"

definition GetSeaLevel :: "sea_db \<Rightarrow> (string \<times> float64 \<times> float64 \<times> float64) list sea_reply" where
  "GetSeaLevel = serve_query db_GetSeaLevel"

definition GetGlossDataList :: "sea_db \<Rightarrow> (GlossStation \<times> string option \<times> int option) list sea_reply" where
  "GetGlossDataList = serve_query GetGlossData"

definition GetSonelDataList :: "sea_db \<Rightarrow> SonelData list sea_reply" where
  "GetSonelDataList = serve_query GetSonelData"

definition GetPsmslDataList :: "sea_db \<Rightarrow> PsmslData list sea_reply" where
  "GetPsmslDataList = serve_query GetPsmslData"

text \<open>The last column of the header row whose text contains \<open>rad\<close>, zero when there is none.\<close>

definition rad_index :: "string list \<Rightarrow> nat" where
  "rad_index tds = fold (\<lambda>i r. if Contains (tds ! i) ''rad'' then i else r) [0..<length tds] 0"

definition IOCHistory :: "row_slice \<Rightarrow> string \<Rightarrow> (int \<times> string list list result) result \<Rightarrow> (string \<times> string) list sea_reply option" where
  "IOCHistory slc ioc_id page =
     (if ioc_id = [] then Some (400, None)
      else case page of
        Inl _ \<Rightarrow> Some (500, None)
      | Inr (status, doc) \<Rightarrow>
          if status \<noteq> 200 then Some (status, None)
          else case doc of
            Inl _ \<Rightarrow> Some (500, None)
          | Inr tr \<Rightarrow>
              let radIdx = rad_index (if 1 < length tr then tr ! 1 else []) in
              if radIdx = 0 then Some (200, None)
              else case slc 2 tr of
                None \<Rightarrow> None
              | Some rows \<Rightarrow>
                  map_option (\<lambda>rows. (200, Some (map (\<lambda>td. (cell td 0, cell td radIdx)) rows)))
                    (if 30 < length rows then slc (- 30) rows else Some rows))"

section \<open>What the pages show\<close>

lemma sea_exec_ok: "sea_fault db (sea_stmts db) = None \<Longrightarrow> sea_exec f db = (Inr (), f (db\<lparr>sea_stmts := Suc (sea_stmts db)\<rparr>))"
  by (simp add: sea_exec_def sea_stmt_def)

text \<open>A run of statements that each append a row: it stops with an error or appends all rows.\<close>

lemma appends_rows:
  assumes "\<And>l db. sea_fault (app l db) = sea_fault db \<and> sea_stmts (app l db) = sea_stmts db"
    and "\<And>l db n. app l (db\<lparr>sea_stmts := n\<rparr>) = (app l db)\<lparr>sea_stmts := n\<rparr>"
  shows "(\<exists>e db'. forE (\<lambda>l. sea_exec (app l)) ls db = (Inl e, db')) \<or>
    forE (\<lambda>l. sea_exec (app l)) ls db = (Inr (), (fold app ls db)\<lparr>sea_stmts := sea_stmts db + length ls\<rparr>)"
proof (induction ls arbitrary: db)
  case Nil
  then show ?case by (simp add: retE_def)
next
  case (Cons l ls)
  show ?case
  proof (cases "sea_fault db (sea_stmts db)")
    case None
    have "forE (\<lambda>l. sea_exec (app l)) (l # ls) db = forE (\<lambda>l. sea_exec (app l)) ls ((app l db)\<lparr>sea_stmts := Suc (sea_stmts db)\<rparr>)"
      using sea_exec_ok [of db "app l", OF None] assms(2) by (simp add: bindE_def)
    moreover have "fold app ls (x\<lparr>sea_stmts := n\<rparr>) = (fold app ls x)\<lparr>sea_stmts := n\<rparr>" for x n
      by (induction ls arbitrary: x) (simp_all add: assms(2))
    ultimately show ?thesis using Cons.IH [of "(app l db)\<lparr>sea_stmts := Suc (sea_stmts db)\<rparr>"] by simp
  qed (simp add: bindE_def sea_exec_def sea_stmt_def)
qed

lemma tx_rows:
  assumes "\<And>l db. sea_fault (app l db) = sea_fault db \<and> sea_stmts (app l db) = sea_stmts db"
    and "\<And>l db n. app l (db\<lparr>sea_stmts := n\<rparr>) = (app l db)\<lparr>sea_stmts := n\<rparr>"
    and "\<And>db n. clear (db\<lparr>sea_stmts := n\<rparr>) = (clear db)\<lparr>sea_stmts := n\<rparr>"
  shows "(\<exists>e n. sea_tx (bindE (sea_exec clear) (\<lambda>_. forE (\<lambda>l. sea_exec (app l)) ls)) db = (Inl e, db\<lparr>sea_stmts := n\<rparr>)) \<or>
    (\<exists>n. sea_tx (bindE (sea_exec clear) (\<lambda>_. forE (\<lambda>l. sea_exec (app l)) ls)) db = (Inr (), (fold app ls (clear db))\<lparr>sea_stmts := n\<rparr>))"
proof -
  let ?all = "bindE (sea_exec (\<lambda>db. db)) (\<lambda>_. bindE (bindE (sea_exec clear) (\<lambda>_. forE (\<lambda>l. sea_exec (app l)) ls)) (\<lambda>_. sea_exec (\<lambda>db. db)))"
  have fold_n: "fold app ls (x\<lparr>sea_stmts := n\<rparr>) = (fold app ls x)\<lparr>sea_stmts := n\<rparr>" for x n
    by (induction ls arbitrary: x) (simp_all add: assms(2))
  have exec: "(\<exists>e db'. sea_exec f x = (Inl e, db')) \<or> sea_exec f x = (Inr (), f (x\<lparr>sea_stmts := Suc (sea_stmts x)\<rparr>))" for f x
    by (cases "sea_fault x (sea_stmts x)") (simp_all add: sea_exec_def sea_stmt_def)
  have "(\<exists>e db'. ?all db = (Inl e, db')) \<or> (\<exists>n. ?all db = (Inr (), (fold app ls (clear db))\<lparr>sea_stmts := n\<rparr>))"
    using exec [of "\<lambda>db. db" db]
  proof (elim disjE exE)
    assume b: "sea_exec (\<lambda>db. db) db = (Inr (), db\<lparr>sea_stmts := Suc (sea_stmts db)\<rparr>)"
    let ?db1 = "db\<lparr>sea_stmts := Suc (sea_stmts db)\<rparr>" and ?db2 = "(clear db)\<lparr>sea_stmts := Suc (Suc (sea_stmts db))\<rparr>"
    show ?thesis using exec [of clear ?db1]
    proof (elim disjE exE)
      assume c: "sea_exec clear ?db1 = (Inr (), clear (?db1\<lparr>sea_stmts := Suc (sea_stmts ?db1)\<rparr>))"
      then have c: "sea_exec clear ?db1 = (Inr (), ?db2)" by (simp add: assms(3))
      show ?thesis using appends_rows [of app ls ?db2, OF assms(1,2)]
      proof (elim disjE exE)
        assume f: "forE (\<lambda>l. sea_exec (app l)) ls ?db2 = (Inr (), (fold app ls ?db2)\<lparr>sea_stmts := sea_stmts ?db2 + length ls\<rparr>)"
        then show ?thesis using b c exec [of "\<lambda>db. db" "(fold app ls ?db2)\<lparr>sea_stmts := sea_stmts ?db2 + length ls\<rparr>"]
          by (auto simp: bindE_def fold_n)
      qed (use b c in \<open>simp add: bindE_def\<close>)
    qed (use b in \<open>simp add: bindE_def\<close>)
  qed (simp add: bindE_def)
  then show ?thesis by (auto simp: sea_tx_def)
qed

text \<open>Without a fault nothing fails.\<close>

definition healthy :: "sea_db \<Rightarrow> bool" where
  "healthy db \<longleftrightarrow> (\<forall>n. sea_fault db n = None)"

definition succeeds :: "'a sea_op \<Rightarrow> bool" where
  "succeeds m \<longleftrightarrow> (\<forall>db. healthy db \<longrightarrow> (\<exists>a db'. m db = (Inr a, db') \<and> healthy db'))"

lemma succeeds_exec: "(\<And>db. sea_fault (f db) = sea_fault db) \<Longrightarrow> succeeds (sea_exec f)"
  by (simp add: succeeds_def healthy_def sea_exec_def sea_stmt_def)

lemma succeeds_bind: "succeeds m \<Longrightarrow> (\<And>a. succeeds (f a)) \<Longrightarrow> succeeds (bindE m f)"
  unfolding succeeds_def bindE_def by (metis (no_types, lifting) case_prod_conv sum.case(2))

lemma succeeds_for: "(\<And>x. succeeds (body x)) \<Longrightarrow> succeeds (forE body xs)"
proof (induction xs)
  case Nil
  then show ?case by (simp add: succeeds_def retE_def)
next
  case (Cons x xs)
  then show ?case by (simp add: succeeds_bind)
qed

lemma succeeds_tx:
  assumes "succeeds m"
  shows "succeeds (sea_tx m)"
proof -
  have "succeeds (bindE (sea_exec (\<lambda>db. db)) (\<lambda>_. bindE m (\<lambda>_. sea_exec (\<lambda>db. db))))"
    by (intro succeeds_bind succeeds_exec assms) simp_all
  then show ?thesis unfolding succeeds_def sea_tx_def by fastforce
qed

lemma UpdateSeaLevel_cases:
  "(\<exists>e n. UpdateSeaLevel ls db = (Inl e, db\<lparr>sea_stmts := n\<rparr>)) \<or> (\<exists>n. UpdateSeaLevel ls db = (Inr (), db\<lparr>station_sea_level := ls, sea_stmts := n\<rparr>))"
proof -
  have "fold (\<lambda>l db. db\<lparr>station_sea_level := station_sea_level db @ [l]\<rparr>) ls x = x\<lparr>station_sea_level := station_sea_level x @ ls\<rparr>" for x :: sea_db
    by (induction ls arbitrary: x) simp_all
  then show ?thesis
    unfolding UpdateSeaLevel_def
    using tx_rows [of "\<lambda>l db. db\<lparr>station_sea_level := station_sea_level db @ [l]\<rparr>" "\<lambda>db. db\<lparr>station_sea_level := []\<rparr>" ls db] by simp
qed

lemma UpdateSeaLevel_succeeds: "succeeds (UpdateSeaLevel ls)"
  unfolding UpdateSeaLevel_def by (intro succeeds_tx succeeds_bind succeeds_for succeeds_exec) simp_all

text \<open>
  The sea-level page shows the last complete download. A run of the job leaves the table as it was or
  replaces it by exactly the valid rows of the page, in order, also when any statement of the
  transaction fails; when the database answers it is the latter, and the handler then serves these rows
  with the longitude first, without those whose level is the marker for no value.
\<close>

theorem sea_level_served:
  assumes "slice_law slc" "3 \<le> length tr"
  shows "\<exists>db'. seaHeight slc parseFloat pos (Inr (200, Inr tr)) db = Some db' \<and>
    station_sea_level db' \<in> {station_sea_level db, List.map_filter (sea_row parseFloat pos) (drop 3 tr)} \<and>
    (healthy db \<longrightarrow> GetSeaLevel db' = (200, Some (map (\<lambda>s. (sea_Code s, sea_Lon s, sea_Lat s, sea_Level s))
       (filter (\<lambda>s. sea_Level s \<noteq> - 999) (List.map_filter (sea_row parseFloat pos) (drop 3 tr))))))"
proof -
  let ?rows = "List.map_filter (sea_row parseFloat pos) (drop 3 tr)"
  let ?db = "snd (UpdateSeaLevel ?rows db)"
  have "slc 3 tr = Some (drop 3 tr)" using assms by (simp add: slice_law_def)
  then have run: "seaHeight slc parseFloat pos (Inr (200, Inr tr)) db = Some ?db" by (simp add: seaHeight_def)
  moreover have "station_sea_level ?db \<in> {station_sea_level db, ?rows}" using UpdateSeaLevel_cases [of ?rows db] by auto
  moreover have "GetSeaLevel ?db = (200, Some (map (\<lambda>s. (sea_Code s, sea_Lon s, sea_Lat s, sea_Level s)) (filter (\<lambda>s. sea_Level s \<noteq> - 999) ?rows)))"
    if h: "healthy db"
  proof -
    obtain a db' where u: "UpdateSeaLevel ?rows db = (Inr a, db')" "healthy db'"
      using UpdateSeaLevel_succeeds [of ?rows] h unfolding succeeds_def by blast
    then have "station_sea_level db' = ?rows" using UpdateSeaLevel_cases [of ?rows db] by auto
    with u show ?thesis by (simp add: GetSeaLevel_def serve_query_def db_GetSeaLevel_def sea_query_def sea_stmt_def healthy_def)
  qed
  ultimately show ?thesis by blast
qed

definition empty_sea :: sea_db where
  "empty_sea = \<lparr>station_sea_level = [], station_info_gloss_all = [], station_info_gloss = [], station_info_tide = [], station_info_psmsl = [],
     altimetry = [], sea_fault = (\<lambda>_. None), sea_stmts = 0\<rparr>"

definition list_slice :: row_slice where
  "list_slice start rows =
     (if 0 \<le> start then (if nat start \<le> length rows then Some (drop (nat start) rows) else None)
      else if nat (- start) \<le> length rows then Some (drop (length rows - nat (- start)) rows) else None)"

theorem sea_level_served_witness:
  "\<exists>db'. seaHeight list_slice (\<lambda>_. Inr 3) [(''abc'', (10, 20))]
     (Inr (200, Inr [[], [], [], [''abc'', [], [], [], [], [], ''3.0''], [''xyz'']])) empty_sea = Some db' \<and>
    GetSeaLevel db' = (200, Some [(''abc'', 20, 10, 3)])"
proof -
  let ?tr = "[[], [], [], [''abc'', [], [], [], [], [], ''3.0''], [''xyz'']]" and ?pos = "[(''abc'', (10, 20))]"
  have "slice_law list_slice" by (simp add: slice_law_def list_slice_def)
  moreover have "healthy empty_sea" by (simp add: healthy_def empty_sea_def)
  moreover have "List.map_filter (sea_row (\<lambda>_. Inr 3) ?pos) (drop 3 ?tr) = [\<lparr>sea_Code = ''abc'', sea_Lat = 10, sea_Lon = 20, sea_Level = 3\<rparr>]"
    by (simp add: sea_row_def cell_def TrimSpace_def trim_def trim_right_def is_space_def List.map_filter_def)
  ultimately show ?thesis using sea_level_served [of list_slice ?tr "\<lambda>_. Inr 3" ?pos empty_sea] by auto
qed

text \<open>The history of a station: at most thirty rows, each with the time and the radar level.\<close>

lemma IOCHistory_rows:
  assumes "slice_law slc" "IOCHistory slc ioc_id page = Some (status, Some rows)"
  shows "status = 200 \<and> length rows \<le> 30"
proof -
  from assms(2) obtain tr where tr: "page = Inr (200, Inr tr)" "rad_index (if 1 < length tr then tr ! 1 else []) \<noteq> 0"
    by (auto simp: IOCHistory_def Let_def split: if_splits sum.splits option.splits)
  have two: "2 \<le> length tr"
  proof (rule ccontr)
    assume "\<not> 2 \<le> length tr"
    then have "\<not> 1 < length tr" by simp
    with tr(2) show False by (simp add: rad_index_def)
  qed
  then have "slc 2 tr = Some (drop 2 tr)" using assms(1) by (simp add: slice_law_def)
  moreover have "slc (- 30) (drop 2 tr) = Some (drop (length (drop 2 tr) - 30) (drop 2 tr))" if "30 < length (drop 2 tr)"
    using assms(1) that by (simp add: slice_law_def)
  ultimately show ?thesis using assms(2) tr by (auto simp: IOCHistory_def Let_def split: if_splits)
qed

end
