(* ===== verification/Runtime.thy ===== *)
theory Runtime
  imports GoStrconv "HOL-Library.Signed_Division"
begin

text \<open>
  What the two programs share at run time: the timestamps of \<^verbatim>\<open>pkg/custype/time.go\<close> and the process frame of
  \<^verbatim>\<open>pkg/project/run.go\<close>, which finds out at start whether the previous run of the server ended by
  itself. The clock, signals and crashes are steps; the file is its content.
\<close>

section \<open>Timestamps (\<open>custype/time.go\<close>)\<close>

text \<open>An instant of the package \<^verbatim>\<open>time\<close>: seconds and nanoseconds within the second since 1970.\<close>

record go_time =
  t_sec :: int
  t_nsec :: int

definition int64 :: "int \<Rightarrow> int" where
  "int64 i = sint (word_of_int i :: 64 word)"

definition time_Unix :: "int \<Rightarrow> int \<Rightarrow> go_time" where
  "time_Unix sec nsec =
     (if nsec < 0 \<or> 1000000000 \<le> nsec
      then let n = nsec sdiv 1000000000; s = sec + n; r = nsec - n * 1000000000
           in if r < 0 then \<lparr>t_sec = s - 1, t_nsec = r + 1000000000\<rparr> else \<lparr>t_sec = s, t_nsec = r\<rparr>
      else \<lparr>t_sec = sec, t_nsec = nsec\<rparr>)"

definition UnixMilli :: "go_time \<Rightarrow> int" where
  "UnixMilli t = int64 (t_sec t * 1000 + t_nsec t sdiv 1000000)"

definition ToUnixMs :: "go_time \<Rightarrow> unix_ms" where
  "ToUnixMs t = UnixMilli t"

definition ToTime :: "unix_ms \<Rightarrow> go_time" where
  "ToTime t = time_Unix (t sdiv 1000) (t smod 1000 * 1000000)"

datatype db_value = VTime go_time | VInt64 int | VNil | VOther string

definition unix_ms_Value :: "unix_ms \<Rightarrow> db_value result" where
  "unix_ms_Value t = Inr (VTime (ToTime t))"

definition unix_ms_Scan :: "db_value \<Rightarrow> unix_ms result" where
  "unix_ms_Scan src =
     (case src of
        VTime s \<Rightarrow> Inr (ToUnixMs s)
      | VInt64 s \<Rightarrow> Inr s
      | VNil \<Rightarrow> Inr 0
      | VOther ty \<Rightarrow> Inl (ErrorString (''unsupported Scan, storing driver.Value type '' @ ty @ '' into type time.Time'')))"

definition unix_ms_String :: "unix_ms \<Rightarrow> string" where
  "unix_ms_String t = FormatInt t"

text \<open>A column of type \<^verbatim>\<open>timestamptz\<close> keeps microseconds.\<close>

definition timestamptz :: "go_time \<Rightarrow> go_time" where
  "timestamptz t = t\<lparr>t_nsec := t_nsec t div 1000 * 1000\<rparr>"

definition Before :: "go_time \<Rightarrow> go_time \<Rightarrow> bool" where
  "Before t u \<longleftrightarrow> t_sec t < t_sec u \<or> t_sec t = t_sec u \<and> t_nsec t < t_nsec u"

lemma int64_id: "- (2 ^ 63) \<le> i \<Longrightarrow> i < 2 ^ 63 \<Longrightarrow> int64 i = i"
  unfolding int64_def by (subst signed_of_int) (simp add: signed_take_bit_int_eq_self)

lemma ToTime_eq: "ToTime t = \<lparr>t_sec = t div 1000, t_nsec = t mod 1000 * 1000000\<rparr>"
proof (cases "0 \<le> t")
  case True
  then have "t sdiv 1000 = t div 1000" "t smod 1000 = t mod 1000" by (simp_all add: signed_divide_int_def signed_modulo_int_def sgn_if)
  moreover have "0 \<le> t mod 1000" "t mod 1000 < 1000" by simp_all
  ultimately show ?thesis by (simp add: ToTime_def time_Unix_def not_le not_less)
next
  case False
  define m where "m = - t"
  have m: "t = - m" "0 < m" using False by (simp_all add: m_def)
  have q: "t sdiv 1000 = - (m div 1000)" "t smod 1000 = - (m mod 1000)"
    using m by (simp_all add: signed_divide_int_def signed_modulo_int_def sgn_if minus_mult_div_eq_mod [symmetric])
  show ?thesis
  proof (cases "m mod 1000 = 0")
    case True
    then have "t div 1000 = - (m div 1000)" "t mod 1000 = 0" using m by (simp_all add: zdiv_zminus1_eq_if zmod_zminus1_eq_if)
    with q True show ?thesis by (simp add: ToTime_def time_Unix_def)
  next
    case False
    then have d: "t div 1000 = - (m div 1000) - 1" "t mod 1000 = 1000 - m mod 1000"
      using m by (simp_all add: zdiv_zminus1_eq_if zmod_zminus1_eq_if)
    have r: "0 < m mod 1000" "m mod 1000 < 1000" using False pos_mod_bound [of 1000 m] pos_mod_sign [of 1000 m] by linarith+
    then have "(- (m mod 1000) * 1000000) sdiv 1000000000 = 0" by (simp add: signed_divide_int_def sgn_if)
    with q d r show ?thesis by (simp add: ToTime_def time_Unix_def Let_def)
  qed
qed

text \<open>
  Timestamps survive the database. Every int64 number of milliseconds, also before 1970, is read back
  from a column that keeps microseconds as it was stored, and the comparison of two stored instants, as the queries
  make it, is the comparison of the numbers.
\<close>

theorem unix_ms_stored:
  assumes "- (2 ^ 63) \<le> t" "t < 2 ^ 63"
  shows "(\<exists>s. unix_ms_Value t = Inr (VTime s) \<and> unix_ms_Scan (VTime (timestamptz s)) = Inr t) \<and>
    (Before (timestamptz (ToTime t)) (timestamptz (ToTime u)) \<longleftrightarrow> t < u)"
proof -
  have us: "timestamptz (ToTime x) = \<lparr>t_sec = x div 1000, t_nsec = x mod 1000 * 1000000\<rparr>" for x
    by (simp add: timestamptz_def ToTime_eq)
  have "x mod 1000 * 1000000 sdiv 1000000 = x mod 1000" for x :: int by (simp add: signed_divide_int_def sgn_if abs_mult)
  then have "UnixMilli (timestamptz (ToTime t)) = t" using int64_id [OF assms] by (simp add: UnixMilli_def us)
  moreover have "Before (timestamptz (ToTime t)) (timestamptz (ToTime u)) \<longleftrightarrow> t < u"
  proof -
    have "t = t div 1000 * 1000 + t mod 1000" "u = u div 1000 * 1000 + u mod 1000" by simp_all
    moreover have "0 \<le> t mod 1000" "t mod 1000 < 1000" "0 \<le> u mod 1000" "u mod 1000 < 1000" by simp_all
    ultimately have "(t div 1000 < u div 1000 \<or> t div 1000 = u div 1000 \<and> t mod 1000 < u mod 1000) \<longleftrightarrow> t < u" by linarith
    then show ?thesis by (simp add: Before_def us)
  qed
  ultimately show ?thesis by (simp add: unix_ms_Value_def unix_ms_Scan_def ToUnixMs_def)
qed

theorem unix_ms_stored_witness:
  "unix_ms_Scan (VTime (timestamptz (ToTime (- 1)))) = Inr (- 1) \<and> Before (timestamptz (ToTime (- 1))) (timestamptz (ToTime 0))"
  using unix_ms_stored [of "- 1" 0] by (simp add: unix_ms_Value_def)

section \<open>The process frame (\<open>project/run.go\<close>)\<close>

text \<open>
  How \<open>Run\<close> begins: it exits (\<^verbatim>\<open>log.Fatal\<close>), reports that the previous run was aborted after the given Unix time, or
  creates the file.
\<close>

datatype run_start = FatalExit go_error | StartAborted int | StartFresh

text \<open>\<open>failed\<close> is an error of opening, reading or creating the file; \<open>f\<close> is its content, if it exists.\<close>

definition Run_begin :: "go_error option \<Rightarrow> string option \<Rightarrow> run_start \<times> string option" where
  "Run_begin failed f =
     (case failed of
        Some e \<Rightarrow> (FatalExit e, f)
      | None \<Rightarrow>
          (case f of
             Some b \<Rightarrow> (case ParseInt b of (ts, None) \<Rightarrow> (StartAborted ts, f) | (_, Some e) \<Rightarrow> (FatalExit e, f))
           | None \<Rightarrow> (StartFresh, Some [])))"

text \<open>\<^verbatim>\<open>WriteAt(b, 0)\<close> overwrites and does not truncate.\<close>

definition WriteAt0 :: "string \<Rightarrow> string \<Rightarrow> string" where
  "WriteAt0 b content = b @ drop (length b) content"

record process =
  pr_file :: "string option"
  pr_up :: bool
  pr_now :: int
  pr_clean :: bool
  pr_beats :: "int list"

text \<open>
  The life of the server over many runs. \<open>pr_clean\<close> records whether the last run removed its file, \<open>pr_beats\<close> the
  times that were written, oldest first, since the file was created; the program reads neither. The goroutine writes the time of the wall
  clock (\<open>beat\<close>), which may be set forwards and backwards (\<open>tick\<close>); \<open>stop\<close> is a signal, \<open>stop_kept\<close> one after which removing the file
  fails, \<open>crash\<close> any other end.
\<close>

inductive run_step :: "process \<Rightarrow> process \<Rightarrow> bool" where
  start: "\<not> pr_up p \<Longrightarrow> Run_begin failed (pr_file p) = (r, f) \<Longrightarrow> (\<forall>e. r \<noteq> FatalExit e) \<Longrightarrow>
    run_step p (p\<lparr>pr_up := True, pr_file := f, pr_clean := False, pr_beats := (if r = StartFresh then [] else pr_beats p)\<rparr>)"
| start_fails: "\<not> pr_up p \<Longrightarrow> Run_begin failed (pr_file p) = (FatalExit e, f) \<Longrightarrow> run_step p (p\<lparr>pr_file := f\<rparr>)"
| beat: "pr_up p \<Longrightarrow> pr_file p = Some b \<Longrightarrow>
    run_step p (p\<lparr>pr_file := Some (WriteAt0 (FormatInt (pr_now p)) b), pr_beats := pr_beats p @ [pr_now p]\<rparr>)"
| tick: "0 \<le> t \<Longrightarrow> t < 2 ^ 63 \<Longrightarrow> run_step p (p\<lparr>pr_now := t\<rparr>)"
| stop: "pr_up p \<Longrightarrow> run_step p (p\<lparr>pr_up := False, pr_file := None, pr_clean := True, pr_beats := []\<rparr>)"
| stop_kept: "pr_up p \<Longrightarrow> run_step p (p\<lparr>pr_up := False\<rparr>)"
| crash: "pr_up p \<Longrightarrow> run_step p (p\<lparr>pr_up := False\<rparr>)"

text \<open>Release functions run in the reverse order of their registration.\<close>

definition RegisterReleaseFunc :: "('s \<Rightarrow> 's) \<Rightarrow> ('s \<Rightarrow> 's) list \<Rightarrow> ('s \<Rightarrow> 's) list" where
  "RegisterReleaseFunc f releaseJobs = releaseJobs @ [f]"

definition CallReleaseFunc :: "('s \<Rightarrow> 's) list \<Rightarrow> 's \<Rightarrow> 's" where
  "CallReleaseFunc releaseJobs s = fold (\<lambda>f. f) (rev releaseJobs) s"

lemma release_last_first: "CallReleaseFunc (RegisterReleaseFunc f jobs) s = CallReleaseFunc jobs (f s)"
  by (simp add: CallReleaseFunc_def RegisterReleaseFunc_def)

lemma ParseInt_FormatInt: "0 \<le> t \<Longrightarrow> t < 2 ^ 63 \<Longrightarrow> ParseInt (FormatInt t) = (t, None)"
  using Atoi_decimal [of "nat t"] by (auto simp: Atoi_def FormatInt_def split: prod.splits option.splits)

text \<open>What the file holds after the times were written over each other.\<close>

definition written :: "int list \<Rightarrow> string" where
  "written ts = fold (\<lambda>t. WriteAt0 (FormatInt t)) ts []"

lemma written_snoc [simp]: "written [] = []" "written (ts @ [t]) = WriteAt0 (FormatInt t) (written ts)"
  by (simp_all add: written_def)

lemma written_length: "\<forall>t \<in> set ts. length (FormatInt t) \<le> n \<Longrightarrow> length (written ts) \<le> n"
proof (induction ts rule: rev_induct)
  case (snoc t ts)
  then have "length (written ts) \<le> n" "length (FormatInt t) \<le> n" by simp_all
  then show ?case by (simp add: WriteAt0_def)
qed simp

lemma written_last:
  assumes "ts \<noteq> []" "\<forall>t \<in> set ts. length (FormatInt t) \<le> length (FormatInt (last ts))"
  shows "written ts = FormatInt (last ts)"
proof -
  have ts: "ts = butlast ts @ [last ts]" using assms(1) by simp
  have "length (written (butlast ts)) \<le> length (FormatInt (last ts))"
    using assms(2) by (intro written_length) (meson in_set_butlastD)
  then show ?thesis using written_snoc(2) [of "butlast ts" "last ts"] ts by (simp add: WriteAt0_def)
qed

definition run_ok :: "process \<Rightarrow> bool" where
  "run_ok p \<longleftrightarrow> 0 \<le> pr_now p \<and> pr_now p < 2 ^ 63 \<and> (pr_clean p \<longleftrightarrow> pr_file p = None) \<and> (pr_up p \<longrightarrow> \<not> pr_clean p) \<and>
     (\<forall>t \<in> set (pr_beats p). 0 \<le> t \<and> t < 2 ^ 63) \<and> (\<not> pr_clean p \<longrightarrow> pr_file p = Some (written (pr_beats p)))"

lemma run_step_ok: "run_step p p' \<Longrightarrow> run_ok p \<Longrightarrow> run_ok p'"
proof (induction rule: run_step.induct)
  case (start p failed r f)
  then have "(pr_file p = None \<and> r = StartFresh \<and> f = Some []) \<or> (pr_file p \<noteq> None \<and> r \<noteq> StartFresh \<and> f = pr_file p)"
    by (auto simp: Run_begin_def split: option.splits prod.splits)
  with start.prems show ?case by (auto simp: run_ok_def)
next
  case (start_fails p failed e f)
  then show ?case by (auto simp: Run_begin_def split: option.splits prod.splits)
qed (auto simp: run_ok_def)

text \<open>An empty file ends every start.\<close>

lemma empty_file_exits: "Run_begin failed (Some []) = (FatalExit (case failed of None \<Rightarrow> err_syntax | Some e \<Rightarrow> e), Some [])"
  by (simp add: Run_begin_def ParseInt_def sign_of_def unsigned_val_def split: option.split)

lemma never_up_again:
  assumes "run_step\<^sup>*\<^sup>* p q" "\<not> pr_up p" "pr_file p = Some []"
  shows "\<not> pr_up q"
proof -
  have "\<not> pr_up q \<and> pr_file q = Some []" using assms
  proof (induction rule: rtranclp_induct)
    case (step y z)
    from step(2) step(3) [OF step(4,5)] show ?case by (induction rule: run_step.induct) (auto simp: empty_file_exits)
  qed simp
  then show ?thesis by simp
qed

definition first_boot :: "int \<Rightarrow> process" where
  "first_boot t = \<lparr>pr_file = None, pr_up = False, pr_now = t, pr_clean = True, pr_beats = []\<rparr>"

text \<open>
  C33: what a start learns about the runs before it, over any sequence of runs, crashes and changes of the clock. After a
  stop that removed the file it is told nothing. Otherwise (after a crash, or a stop that could not remove the file) it is told the last time that was
  written since the file was created, by whichever run, if no time with more digits was written before it; the number is overwritten in place
  without truncation. If nothing was written since the file was created it exits, and so does every later start.
\<close>

theorem run_reports_abort:
  assumes "run_step\<^sup>*\<^sup>* (first_boot t0) p" "0 \<le> t0" "t0 < 2 ^ 63" "\<not> pr_up p"
  shows "(pr_clean p \<longrightarrow> fst (Run_begin None (pr_file p)) = StartFresh) \<and>
    (\<not> pr_clean p \<and> pr_beats p \<noteq> [] \<and> (\<forall>t \<in> set (pr_beats p). length (FormatInt t) \<le> length (FormatInt (last (pr_beats p)))) \<longrightarrow>
       fst (Run_begin None (pr_file p)) = StartAborted (last (pr_beats p))) \<and>
    (\<not> pr_clean p \<and> pr_beats p = [] \<longrightarrow>
       fst (Run_begin None (pr_file p)) = FatalExit err_syntax \<and> (\<forall>q. run_step\<^sup>*\<^sup>* p q \<longrightarrow> \<not> pr_up q))"
proof (intro conjI impI allI)
  have "run_ok (first_boot t0)" using assms(2,3) by (simp add: run_ok_def first_boot_def)
  with assms(1) have ok: "run_ok p" by (induction rule: rtranclp_induct) (auto intro: run_step_ok)
  show "pr_clean p \<Longrightarrow> fst (Run_begin None (pr_file p)) = StartFresh" using ok by (simp add: run_ok_def Run_begin_def)
  show "fst (Run_begin None (pr_file p)) = StartAborted (last (pr_beats p))"
    if "\<not> pr_clean p \<and> pr_beats p \<noteq> [] \<and> (\<forall>t \<in> set (pr_beats p). length (FormatInt t) \<le> length (FormatInt (last (pr_beats p))))"
  proof -
    have "pr_file p = Some (FormatInt (last (pr_beats p)))" using ok that written_last [of "pr_beats p"] by (simp add: run_ok_def)
    moreover have "ParseInt (FormatInt (last (pr_beats p))) = (last (pr_beats p), None)"
      using ok that by (intro ParseInt_FormatInt) (auto simp: run_ok_def)
    ultimately show ?thesis by (simp add: Run_begin_def)
  qed
  assume none: "\<not> pr_clean p \<and> pr_beats p = []"
  then have content: "pr_file p = Some []" using ok by (simp add: run_ok_def)
  then show "fst (Run_begin None (pr_file p)) = FatalExit err_syntax" using empty_file_exits [of None] by simp
  show "\<not> pr_up q" if "run_step\<^sup>*\<^sup>* p q" for q using never_up_again [OF that assms(4) content] .
qed

text \<open>A clock that was set back to a time with fewer digits: the old digits remain and a later time is reported.\<close>

lemma stale_digits: "fst (Run_begin None (Some (written [123, 9]))) = StartAborted 923"
  by code_simp

theorem run_reports_abort_witness:
  "\<exists>p. run_step\<^sup>*\<^sup>* (first_boot 7) p \<and> fst (Run_begin None (pr_file p)) = StartAborted 7"
proof -
  let ?up = "(first_boot 7)\<lparr>pr_up := True, pr_file := Some [], pr_clean := False, pr_beats := []\<rparr>"
  let ?beat = "?up\<lparr>pr_file := Some (WriteAt0 (FormatInt 7) []), pr_beats := [7]\<rparr>"
  have "run_step (first_boot 7) ?up"
    using run_step.start [of "first_boot 7" None StartFresh "Some []"] by (simp add: first_boot_def Run_begin_def)
  moreover have "run_step ?up ?beat" using run_step.beat [of ?up "[]"] by (simp add: first_boot_def)
  moreover have "run_step ?beat (?beat\<lparr>pr_up := False\<rparr>)" by (rule run_step.crash) simp
  ultimately have run: "run_step\<^sup>*\<^sup>* (first_boot 7) (?beat\<lparr>pr_up := False\<rparr>)"
    by (meson converse_rtranclp_into_rtranclp rtranclp.rtrancl_refl)
  then show ?thesis using run_reports_abort [OF run] by (intro exI [of _ "?beat\<lparr>pr_up := False\<rparr>"]) simp
qed

end
