(* ===== verification/HttpServer.thy ===== *)
theory HttpServer
  imports ApiLaws RelayLaws
begin

text \<open>
  The frame of the HTTP server: the recording response writer of \<^verbatim>\<open>controller/response_writer.go\<close>, the logging
  middleware with its panic handler (\<^verbatim>\<open>slog_logger_middleware.go\<close>), the upgrade of a request to a plain connection
  (\<^verbatim>\<open>internal/syncv2/transport.go\<close>, \<^verbatim>\<open>router.go\<close>) and the two handlers that run a session on it
  (\<^verbatim>\<open>syncv2/station/handler_http.go\<close>, \<^verbatim>\<open>syncv2/relay/handler_http.go\<close>). The writer of the package \<^verbatim>\<open>net/http\<close> below is what it is
  given: the status codes, the data and the flushes, in order; what its calls return is a parameter.
\<close>

section \<open>The response writer\<close>

record inner_writer =
  iw_codes :: "int list"
  iw_data :: "string list"
  iw_flushes :: nat

record status_writer =
  sw_inner :: inner_writer
  sw_status :: int
  sw_wroteHeader :: bool
  sw_hijacked :: bool

text \<open>\<open>we_hijack\<close> is \<open>None\<close> for a writer that is no \<^verbatim>\<open>http.Hijacker\<close>.\<close>

record writer_env =
  we_hijack :: "unit result option"
  we_flusher :: bool
  we_write :: "string \<Rightarrow> nat result"
  we_push :: "unit result option"

definition ErrHijacked :: go_error where "ErrHijacked = ErrorString ''http: connection has been hijacked''"
definition ErrNotSupported :: go_error where "ErrNotSupported = ErrorString ''feature not supported''"
definition err_no_hijacker :: go_error where "err_no_hijacker = ErrorString ''response writer does not support hijacking''"

definition newStatusResponseWriter :: "inner_writer \<Rightarrow> status_writer" where
  "newStatusResponseWriter w = \<lparr>sw_inner = w, sw_status = 200, sw_wroteHeader = False, sw_hijacked = False\<rparr>"

definition sw_WriteHeader :: "int \<Rightarrow> status_writer \<Rightarrow> status_writer" where
  "sw_WriteHeader code w =
     (if sw_hijacked w \<or> sw_wroteHeader w then w
      else w\<lparr>sw_status := code, sw_wroteHeader := True, sw_inner := (sw_inner w)\<lparr>iw_codes := iw_codes (sw_inner w) @ [code]\<rparr>\<rparr>)"

definition write_inner :: "string \<Rightarrow> status_writer \<Rightarrow> status_writer" where
  "write_inner data w = w\<lparr>sw_inner := (sw_inner w)\<lparr>iw_data := iw_data (sw_inner w) @ [data]\<rparr>\<rparr>"

definition sw_Write :: "writer_env \<Rightarrow> string \<Rightarrow> status_writer \<Rightarrow> nat result \<times> status_writer" where
  "sw_Write env data w =
     (if sw_hijacked w then (Inl ErrHijacked, w)
      else (we_write env data, write_inner data (if sw_wroteHeader w then w else sw_WriteHeader 200 w)))"

definition sw_Flush :: "writer_env \<Rightarrow> status_writer \<Rightarrow> status_writer" where
  "sw_Flush env w =
     (if sw_hijacked w then w
      else let w1 = (if sw_wroteHeader w then w else sw_WriteHeader 200 w) in
        if we_flusher env then w1\<lparr>sw_inner := (sw_inner w1)\<lparr>iw_flushes := Suc (iw_flushes (sw_inner w1))\<rparr>\<rparr> else w1)"

definition sw_Hijack :: "writer_env \<Rightarrow> status_writer \<Rightarrow> unit result \<times> status_writer" where
  "sw_Hijack env w =
     (case we_hijack env of
        None \<Rightarrow> (Inl err_no_hijacker, w)
      | Some res \<Rightarrow>
          let w1 = (if sw_wroteHeader w then w else w\<lparr>sw_status := 101, sw_wroteHeader := True\<rparr>)
          in (res, if isOk res then w1\<lparr>sw_hijacked := True\<rparr> else w1))"

definition sw_Push :: "writer_env \<Rightarrow> unit result" where
  "sw_Push env = (case we_push env of Some res \<Rightarrow> res | None \<Rightarrow> Inl ErrNotSupported)"

definition sw_ReadFrom :: "writer_env \<Rightarrow> string \<Rightarrow> status_writer \<Rightarrow> nat result \<times> status_writer" where
  "sw_ReadFrom env src w =
     (if sw_hijacked w then (Inl ErrHijacked, w)
      else (we_write env src, write_inner src (if sw_wroteHeader w then w else sw_WriteHeader 200 w)))"

section \<open>The middleware\<close>

text \<open>A handler's use of the writer, and whether it panics at the end of it.\<close>

datatype writer_call = CallWriteHeader int | CallWrite string | CallFlush | CallHijack | CallReadFrom string

fun run_call :: "writer_env \<Rightarrow> writer_call \<Rightarrow> status_writer \<Rightarrow> status_writer" where
  "run_call env (CallWriteHeader code) w = sw_WriteHeader code w"
| "run_call env (CallWrite data) w = snd (sw_Write env data w)"
| "run_call env CallFlush w = sw_Flush env w"
| "run_call env CallHijack w = snd (sw_Hijack env w)"
| "run_call env (CallReadFrom src) w = snd (sw_ReadFrom env src w)"

definition slogLoggerMiddleware :: "(status_writer \<Rightarrow> bool \<times> status_writer) \<Rightarrow> inner_writer \<Rightarrow> status_writer" where
  "slogLoggerMiddleware next w =
     (case next (newStatusResponseWriter w) of
        (panicked, sw) \<Rightarrow> if panicked \<and> \<not> sw_wroteHeader sw \<and> \<not> sw_hijacked sw then sw_WriteHeader 500 sw else sw)"

definition handler_calls :: "writer_env \<Rightarrow> writer_call list \<Rightarrow> bool \<Rightarrow> status_writer \<Rightarrow> bool \<times> status_writer" where
  "handler_calls env calls panics w = (panics, fold (run_call env) calls w)"

definition requestLogUsername :: "string \<Rightarrow> string result option \<Rightarrow> string" where
  "requestLogUsername ctxUser login =
     (if ctxUser \<noteq> [] then ctxUser else case login of Some (Inr u) \<Rightarrow> u | _ \<Rightarrow> [])"

text \<open>\<open>split\<close> is \<^verbatim>\<open>net.SplitHostPort\<close>.\<close>

definition requestRemoteAddr :: "(string \<Rightarrow> string result) \<Rightarrow> string \<Rightarrow> string \<Rightarrow> string \<Rightarrow> string" where
  "requestRemoteAddr split forwarded_for real_ip remote_addr =
     (let f = TrimSpace forwarded_for; p = TrimSpace (takeWhile (\<lambda>c. c \<noteq> CHR '','') f); ip = TrimSpace real_ip in
      if f \<noteq> [] \<and> p \<noteq> [] then p
      else if ip \<noteq> [] then ip
      else case split (TrimSpace remote_addr) of Inr host \<Rightarrow> host | Inl _ \<Rightarrow> TrimSpace remote_addr)"

section \<open>Upgraded connections\<close>

text \<open>The recording writer is a hijacker itself, so the type test of the code succeeds.\<close>

definition HijackUpgrade :: "writer_env \<Rightarrow> status_writer \<Rightarrow> unit result \<times> status_writer" where
  "HijackUpgrade env w = sw_Hijack env (sw_WriteHeader 101 w)"

definition hijackUpgradeConn :: "writer_env \<Rightarrow> status_writer \<Rightarrow> unit result \<times> status_writer" where
  "hijackUpgradeConn env w = sw_Hijack env (sw_WriteHeader 101 w)"

text \<open>
  The station's side. The answer is a status and whether its body is a connection; the result says whether a
  connection is returned, and how many bodies the caller still has to close.
\<close>

definition err_status :: "int \<Rightarrow> go_error" where "err_status code = Wrapped ''unexpected upgrade status'' (ErrorString (FormatInt code))"

definition DoUpgrade :: "unit result \<Rightarrow> (int \<times> bool) result \<Rightarrow> unit result \<times> bool" where
  "DoUpgrade newRequest answer =
     (case newRequest of Inl e \<Rightarrow> (Inl e, False)
      | Inr _ \<Rightarrow> (case answer of
          Inl e \<Rightarrow> (Inl e, False)
        | Inr (code, is_conn) \<Rightarrow>
            if code \<noteq> 101 then (Inl (err_status code), True)
            else if \<not> is_conn then (Inl (ErrorString ''response body does not implement io.ReadWriteCloser''), True)
            else (Inr (), True)))"

text \<open>\<open>server\<close>: the handler has a server. The session runs on the hijacked connection.\<close>

definition relay_ServeHTTP ::
  "bool \<Rightarrow> (unit \<Rightarrow> bool) option \<Rightarrow> string option \<Rightarrow> writer_env \<Rightarrow> (string \<Rightarrow> ('s, unit) eff) \<Rightarrow> status_writer \<times> 's \<Rightarrow> status_writer \<times> 's" where
  "relay_ServeHTTP server enabled usernameFromRequest env session wst =
     (case wst of (w, st) \<Rightarrow>
        if \<not> server then (sw_WriteHeader 500 w, st)
        else if (case enabled of Some f \<Rightarrow> \<not> f () | None \<Rightarrow> False) then (sw_WriteHeader 404 w, st)
        else case usernameFromRequest of
          None \<Rightarrow> (sw_WriteHeader 500 w, st)
        | Some username \<Rightarrow>
            if username = [] then (sw_WriteHeader 401 w, st)
            else case HijackUpgrade env w of
              (Inl _, w') \<Rightarrow> (w', st)
            | (Inr _, w') \<Rightarrow> (w', snd (session username st)))"

text \<open>\<open>mux\<close> and \<open>main\<close>: whether the yamux session and its main stream come about.\<close>

definition station_ServeHTTP ::
  "bool \<Rightarrow> (unit \<Rightarrow> bool) option \<Rightarrow> writer_env \<Rightarrow> unit result \<Rightarrow> unit result \<Rightarrow> ('s, unit) eff \<Rightarrow> status_writer \<times> 's \<Rightarrow> status_writer \<times> 's" where
  "station_ServeHTTP server enabled env mux main session wst =
     (case wst of (w, st) \<Rightarrow>
        if \<not> server then (sw_WriteHeader 500 w, st)
        else if (case enabled of Some f \<Rightarrow> \<not> f () | None \<Rightarrow> False) then (sw_WriteHeader 404 w, st)
        else case HijackUpgrade env w of
          (Inl _, w') \<Rightarrow> (w', st)
        | (Inr _, w') \<Rightarrow>
            (case mux of Inl _ \<Rightarrow> (w', st)
             | Inr _ \<Rightarrow> (case main of Inl _ \<Rightarrow> (w', st) | Inr _ \<Rightarrow> (w', snd (session st)))))"

text \<open>The relay's route: the middleware validates the request, then the handler runs, as \<open>initSyncV2\<close> and \<open>setupRouter\<close> set it up.\<close>

definition relay_route ::
  "api_env \<Rightarrow> api_state \<Rightarrow> http_request \<Rightarrow> bool \<Rightarrow> writer_env \<Rightarrow> (string \<Rightarrow> ('s, unit) eff) \<Rightarrow> status_writer \<times> 's \<Rightarrow> status_writer \<times> 's" where
  "relay_route aenv ast r syncV2Enabled env session wst =
     (case authenticateRequest aenv r ast of
        Inl code \<Rightarrow> (sw_WriteHeader code (fst wst), snd wst)
      | Inr r' \<Rightarrow> relay_ServeHTTP True (Some (\<lambda>_. syncV2Enabled)) (Some (requestUsername r')) env session wst)"

section \<open>What is written\<close>

definition fresh_inner :: inner_writer where
  "fresh_inner = \<lparr>iw_codes = [], iw_data = [], iw_flushes = 0\<rparr>"

text \<open>A status line was sent at most once and is the recorded one; data and flushes follow it.\<close>

definition writer_ok :: "status_writer \<Rightarrow> bool" where
  "writer_ok w \<longleftrightarrow> iw_codes (sw_inner w) \<in> {[], [sw_status w]} \<and>
     (iw_codes (sw_inner w) \<noteq> [] \<longrightarrow> sw_wroteHeader w) \<and>
     (iw_codes (sw_inner w) = [] \<and> sw_wroteHeader w \<longrightarrow> sw_status w = 101) \<and>
     (\<not> sw_wroteHeader w \<longrightarrow> iw_data (sw_inner w) = [] \<and> iw_flushes (sw_inner w) = 0 \<and> \<not> sw_hijacked w)"

lemma writer_ok_new: "writer_ok (newStatusResponseWriter fresh_inner)"
  by (simp add: writer_ok_def newStatusResponseWriter_def fresh_inner_def)

lemma writer_ok_header: "writer_ok w \<Longrightarrow> writer_ok (sw_WriteHeader code w)"
  by (auto simp: writer_ok_def sw_WriteHeader_def)

lemma header_wrote: "sw_wroteHeader (sw_WriteHeader code w) \<longleftrightarrow> sw_wroteHeader w \<or> \<not> sw_hijacked w"
  by (simp add: sw_WriteHeader_def)

lemma writer_ok_inner: "writer_ok w \<Longrightarrow> sw_wroteHeader w \<Longrightarrow> writer_ok (write_inner data w)"
  by (auto simp: writer_ok_def write_inner_def)

lemma writer_ok_call: "writer_ok w \<Longrightarrow> writer_ok (run_call env c w)"
proof (cases c)
  case CallFlush
  assume "writer_ok w"
  moreover from this have "writer_ok (if sw_wroteHeader w then w else sw_WriteHeader 200 w)" by (simp add: writer_ok_header)
  ultimately show ?thesis using CallFlush header_wrote [of 200 w] by (auto simp: sw_Flush_def Let_def writer_ok_def)
next
  case CallHijack
  assume "writer_ok w"
  with CallHijack show ?thesis by (auto simp: sw_Hijack_def writer_ok_def Let_def split: option.splits)
qed (auto simp: sw_Write_def sw_ReadFrom_def writer_ok_header writer_ok_inner header_wrote)

lemma writer_ok_calls: "writer_ok w \<Longrightarrow> writer_ok (fold (run_call env) calls w)"
  by (induction calls arbitrary: w) (simp_all add: writer_ok_call)

lemma hijacked_silent: "sw_hijacked w \<Longrightarrow> sw_inner (fold (run_call env) calls w) = sw_inner w \<and> sw_hijacked (fold (run_call env) calls w)"
proof (induction calls arbitrary: w)
  case (Cons c calls)
  have "sw_hijacked (run_call env c w) \<and> sw_inner (run_call env c w) = sw_inner w"
    using Cons.prems
    by (cases c) (auto simp: sw_WriteHeader_def sw_Write_def sw_Flush_def sw_Hijack_def sw_ReadFrom_def Let_def split: option.splits)
  with Cons.IH [of "run_call env c w"] show ?case by simp
qed simp

text \<open>
  The answer to a request, whatever the handler does with the writer. At most one status line is
  sent and it is the one that is logged; nothing is sent on a connection that a session has taken over; and a handler
  that panics before it wrote anything is answered with status 500.
\<close>

theorem response_status_once:
  "let h = fold (run_call env) calls (newStatusResponseWriter fresh_inner);
       w = slogLoggerMiddleware (handler_calls env calls panics) fresh_inner
   in iw_codes (sw_inner w) \<in> {[], [sw_status w]} \<and>
      (iw_data (sw_inner w) \<noteq> [] \<and> \<not> sw_hijacked w \<longrightarrow> sw_wroteHeader w) \<and>
      (panics \<and> \<not> sw_wroteHeader h \<longrightarrow> iw_codes (sw_inner w) = [500]) \<and>
      (sw_hijacked h \<longrightarrow> sw_inner (fold (run_call env) later h) = sw_inner h)"
proof -
  let ?h = "fold (run_call env) calls (newStatusResponseWriter fresh_inner)"
  let ?w = "slogLoggerMiddleware (handler_calls env calls panics) fresh_inner"
  have ok: "writer_ok ?h" by (rule writer_ok_calls [OF writer_ok_new])
  have w: "?w = (if panics \<and> \<not> sw_wroteHeader ?h \<and> \<not> sw_hijacked ?h then sw_WriteHeader 500 ?h else ?h)"
    by (simp add: slogLoggerMiddleware_def handler_calls_def)
  have "writer_ok ?w" using ok by (simp add: w writer_ok_header)
  then show ?thesis using ok hijacked_silent by (auto simp: Let_def writer_ok_def w sw_WriteHeader_def)
qed

definition plain_writer :: "unit result option \<Rightarrow> writer_env" where
  "plain_writer hj = \<lparr>we_hijack = hj, we_flusher = True, we_write = (\<lambda>d. Inr (length d)), we_push = None\<rparr>"

theorem response_status_once_witness:
  "iw_codes (sw_inner (slogLoggerMiddleware (handler_calls (plain_writer None) [] True) fresh_inner)) = [500]"
  using response_status_once [of "plain_writer None" "[]" True] by (simp add: newStatusResponseWriter_def Let_def)

section \<open>Who gets a relay session\<close>

text \<open>The session with the hub as the log of the subscriptions made.\<close>

definition logged_session ::
  "up_env \<Rightarrow> 's upstream_store \<Rightarrow> (string \<Rightarrow> int result) \<Rightarrow> (string \<Rightarrow> uuid_strings_map result) \<Rightarrow> upstream_event list \<Rightarrow> string
     \<Rightarrow> ('s up_state \<times> (string \<times> station_item topic_set) list, unit) eff" where
  "logged_session env st getRole getPermissions evs username =
     StreamRelay env st getRole getPermissions (\<lambda>u t h. h @ [(u, t)]) (\<lambda>_ h. h) username evs"

lemma relay_hello_quiet: "recvDownstreamHello s = (q, s') \<Longrightarrow> outbox s' = outbox s"
  by (auto simp: recvDownstreamHello_def Recv_def eff_simps split: list.splits sum.splits relay_message.splits if_splits)

lemma fstE_frame: "fstE m (a, b) = (q, ab) \<Longrightarrow> snd ab = b"
  by (auto simp: fstE_def split: prod.splits)

lemma logged_session_cases:
  assumes "logged_session env st getRole getPermissions evs u ((s, new_stream frames), []) = (q, ((s', stream'), l))"
  shows "(l = [] \<and> outbox stream' = []) \<or>
    (\<exists>p. session_permissions getRole getPermissions u = Inr p \<and> l = [(u, map_option uuidStringsMapToTopics p)])"
proof -
  obtain r x where hello: "fstE (sndE recvDownstreamHello) ((s, new_stream frames), [] :: (string \<times> station_item topic_set) list) = (r, x)"
    by (rule prod.exhaust)
  then have x: "snd x = []" "outbox (snd (fst x)) = []"
    using relay_hello_quiet by (auto simp: fstE_def sndE_def new_stream_def split: prod.splits)
  note run = assms [unfolded logged_session_def StreamRelay_def bindE_def [of "fstE (sndE recvDownstreamHello)"] hello prod.case]
  show ?thesis
  proof (cases r)
    case (Inl e)
    with run x show ?thesis by auto
  next
    case (Inr hello)
    show ?thesis
    proof (cases "TrimSpace hello \<noteq> [] \<and> TrimSpace hello = u")
      case False
      with run x Inr show ?thesis by (auto simp: Let_def throwE_def split: if_splits)
    next
      case True
      show ?thesis
      proof (cases "session_permissions getRole getPermissions u")
        case (Inl e)
        with run x Inr True show ?thesis by (auto simp: Let_def bindE_def liftR_def)
      next
        case p: (Inr p)
        let ?m = "bindE (fstE (runBootstrapSync env st (map_option uuidStringsMapToTopics p) p)) (\<lambda>_. fstE (forwardIncremental evs))"
        let ?l = "[(u, map_option uuidStringsMapToTopics p)]"
        obtain q' z where m: "?m (fst x, ?l) = (q', z)" by (rule prod.exhaust)
        then have "snd z = ?l" by (auto elim!: bindE_cases dest!: fstE_frame simp: split_paired_all)
        with run x True Inr p m have "l = ?l"
          by (cases x) (auto simp: Let_def finallyE_def sndE_def modifyE_def liftR_def bindE_def [of "liftR _"] bindE_def [of "sndE _"])
        with p show ?thesis by blast
      qed
    qed
  qed
qed

lemma logged_session_subscribes:
  assumes "TrimSpace u = u" "u \<noteq> []" "session_permissions getRole getPermissions u = Inr p"
  shows "snd (snd (logged_session env st getRole getPermissions evs u ((s, new_stream (RDownstreamHello u v # frames)), []))) =
    [(u, map_option uuidStringsMapToTopics p)]"
proof -
  let ?m = "bindE (fstE (runBootstrapSync env st (map_option uuidStringsMapToTopics p) p)) (\<lambda>_. fstE (forwardIncremental evs))"
  let ?x = "(s, \<lparr>inbox = map Inr frames, outbox = [], send_results = []\<rparr>)" and ?l = "[(u, map_option uuidStringsMapToTopics p)]"
  have hello: "fstE (sndE recvDownstreamHello) ((s, new_stream (RDownstreamHello u v # frames)), [] :: (string \<times> station_item topic_set) list) =
      (Inr u, (?x, []))"
    using assms(1,2) by (simp add: recvDownstreamHello_def Recv_def new_stream_def eff_simps)
  obtain q z where m: "?m (?x, ?l) = (q, z)" by (rule prod.exhaust)
  then have "snd z = ?l" by (auto elim!: bindE_cases dest!: fstE_frame simp: split_paired_all)
  with assms hello m show ?thesis
    by (auto simp: logged_session_def StreamRelay_def bindE_def [of "fstE (sndE recvDownstreamHello)"] Let_def finallyE_def sndE_def modifyE_def
      liftR_def bindE_def [of "liftR _"] bindE_def [of "sndE _"])
qed

lemma HijackUpgrade_new:
  "HijackUpgrade env (newStatusResponseWriter fresh_inner) = (q, w) \<Longrightarrow> iw_codes (sw_inner w) = [101] \<and> (sw_hijacked w \<longleftrightarrow> isOk q)"
  by (auto simp: HijackUpgrade_def sw_Hijack_def sw_WriteHeader_def newStatusResponseWriter_def fresh_inner_def isOk_def split: option.splits sum.splits)

lemma authenticated:
  assumes "authenticateRequest aenv r ast = Inr r'"
  shows "um_GetLoginUser (env_um aenv) (env_now_s aenv) r = Inr (requestUsername r') \<and> requestUsername r' \<noteq> [] \<and>
    isOk (fst (um_GetUser (env_um aenv) (requestUsername r') (api_db ast)))"
  using assms
  by (auto simp: authenticateRequest_def attachAuthenticatedUser_def requestUsername_def withRequestUser_def isOk_def split: sum.splits if_splits)

text \<open>
  C5: who gets a relay session. Whatever the request and the frames of the peer are, either nothing is sent
  and nothing subscribed, or the request carries the token of an account that exists, the protocol is enabled, the
  connection was upgraded with status 101, and the one subscription is made for this account with the
  permissions it has: the name in the peer's first frame cannot select another account.
\<close>

theorem relay_route_session:
  assumes "relay_route aenv ast r syncV2 wenv (logged_session env st getRole getPermissions evs)
      (newStatusResponseWriter fresh_inner, ((s, new_stream frames), [])) = (w, ((s', stream'), l))"
  shows "(l = [] \<and> outbox stream' = []) \<or>
    (\<exists>u p. um_GetLoginUser (env_um aenv) (env_now_s aenv) r = Inr u \<and> u \<noteq> [] \<and> isOk (fst (um_GetUser (env_um aenv) u (api_db ast))) \<and>
       syncV2 \<and> iw_codes (sw_inner w) = [101] \<and> sw_hijacked w \<and>
       session_permissions getRole getPermissions u = Inr p \<and> l = [(u, map_option uuidStringsMapToTopics p)])"
proof (cases "authenticateRequest aenv r ast")
  case (Inl code)
  with assms show ?thesis by (auto simp: relay_route_def new_stream_def)
next
  case (Inr r')
  let ?u = "requestUsername r'" and ?run = "logged_session env st getRole getPermissions evs"
  obtain q w1 where up: "HijackUpgrade wenv (newStatusResponseWriter fresh_inner) = (q, w1)" by (rule prod.exhaust)
  show ?thesis
  proof (cases "syncV2 \<and> isOk q")
    case False
    with assms Inr up show ?thesis
      by (auto simp: relay_route_def relay_ServeHTTP_def new_stream_def isOk_def split: if_splits sum.splits)
  next
    case True
    obtain q' z where run: "?run ?u ((s, new_stream frames), []) = (q', z)" by (rule prod.exhaust)
    with assms Inr up True authenticated [OF Inr] have "w = w1" "z = ((s', stream'), l)"
      by (auto simp: relay_route_def relay_ServeHTTP_def isOk_def split: sum.splits)
    with logged_session_cases [of env st getRole getPermissions evs ?u s frames q' s' stream' l] run authenticated [OF Inr] HijackUpgrade_new [OF up] True
    show ?thesis by blast
  qed
qed

definition relay_demo_env :: api_env where
  "relay_demo_env = demo_env\<lparr>env_um := (env_um demo_env)\<lparr>um_GetLoginUser := (\<lambda>_ _. Inr ''ann'')\<rparr>\<rparr>"

lemma relay_demo_authenticated: "authenticateRequest relay_demo_env (demo_request []) demo_state =
    Inr (withRequestUser (demo_request []) ''ann'' (user_of_row ''ann'' (demo_row 0)))"
  by (simp add: authenticateRequest_def attachAuthenticatedUser_def relay_demo_env_def demo_env_def JwtManager_def getUserFromDB_def readE_def demo_state_def)

theorem relay_route_session_witness:
  "\<exists>w x. relay_route relay_demo_env demo_state (demo_request []) True (plain_writer (Some (Inr ())))
      (logged_session sample_env DBUpstreamStore (\<lambda>_. Inr NormalUser) (\<lambda>_. Inr [(7, [''water''])]) [])
      (newStatusResponseWriter fresh_inner, ((empty_db, new_stream [RDownstreamHello ''ann'' []]), [])) =
        (w, (x, [(''ann'', Some [(7, ''water'')])])) \<and>
    iw_codes (sw_inner w) = [101]"
proof -
  let ?run = "logged_session sample_env DBUpstreamStore (\<lambda>_. Inr NormalUser) (\<lambda>_. Inr [(7, [''water''])]) []"
  let ?st = "((empty_db, new_stream [RDownstreamHello ''ann'' []]), [])" and ?w = "newStatusResponseWriter fresh_inner"
  obtain w s' stream' l where route: "relay_route relay_demo_env demo_state (demo_request []) True (plain_writer (Some (Inr ()))) ?run (?w, ?st) =
      (w, ((s', stream'), l))" by (metis prod.exhaust)
  have "l = snd (snd (?run ''ann'' ?st))"
    using route relay_demo_authenticated
    by (auto simp: relay_route_def relay_ServeHTTP_def HijackUpgrade_def sw_Hijack_def plain_writer_def requestUsername_def withRequestUser_def)
  also have "\<dots> = [(''ann'', Some [(7, ''water'')])]"
    using logged_session_subscribes [where u = "''ann''" and getRole = "\<lambda>_. Inr NormalUser" and getPermissions = "\<lambda>_. Inr [(7, [''water''])]"
      and p = "Some [(7, [''water''])]" and frames = "[]"]
    by (simp add: session_permissions_def uuidStringsMapToTopics_def TrimSpace_def trim_def trim_right_def is_space_def)
  finally show ?thesis using relay_route_session [OF route] route by auto
qed

text \<open>
  C17: the session asks only whether the role is that of a normal user. An account below that role, disabled or not yet
  approved, with a token of the JWT manager, is therefore given the data of all items.
\<close>

theorem disabled_account_relays_all:
  assumes "um_GetLoginUser (env_um aenv) (env_now_s aenv) r = Inr u" "um_GetUser (env_um aenv) u (api_db ast) = (Inr acc, db)"
    and "ua_Role acc < NormalUser" "getRole u = Inr (ua_Role acc)" "TrimSpace u = u" "u \<noteq> []" "we_hijack wenv = Some (Inr ())"
  shows "snd (snd (relay_route aenv ast r True wenv (logged_session env st getRole getPermissions evs)
      (newStatusResponseWriter fresh_inner, ((s, new_stream (RDownstreamHello u v # frames)), [])))) = [(u, None)]"
proof -
  have "session_permissions getRole getPermissions u = Inr None" using assms(3,4) by (simp add: session_permissions_def)
  from logged_session_subscribes [OF assms(5,6) this, of env st evs s v frames] show ?thesis
    using assms by (simp add: relay_route_def authenticateRequest_def attachAuthenticatedUser_def requestUsername_def withRequestUser_def
      relay_ServeHTTP_def HijackUpgrade_def sw_Hijack_def Let_def)
qed

theorem disabled_account_relays_all_witness:
  "snd (snd (relay_route (demo_env\<lparr>env_um := (env_um demo_env)\<lparr>um_GetLoginUser := (\<lambda>_ _. Inr ''eve'')\<rparr>\<rparr>)
      (demo_state\<lparr>api_db := empty_db\<lparr>users := [(''eve'', demo_row (- 1))]\<rparr>\<rparr>) (demo_request []) True (plain_writer (Some (Inr ())))
      (logged_session sample_env DBUpstreamStore (\<lambda>_. Inr (- 1)) (\<lambda>_. Inr []) [])
      (newStatusResponseWriter fresh_inner, ((empty_db, new_stream [RDownstreamHello ''eve'' []]), [])))) = [(''eve'', None)]"
  by (rule disabled_account_relays_all [where acc = "user_of_row ''eve'' (demo_row (- 1))" and
        db = "empty_db\<lparr>users := [(''eve'', demo_row (- 1))]\<rparr>"])
    (simp_all add: demo_env_def JwtManager_def getUserFromDB_def readE_def demo_state_def demo_row_def user_of_row_def role_defs
      plain_writer_def TrimSpace_def trim_def trim_right_def is_space_def)

end
