(* ===== verification/EndToEnd.thy ===== *)
theory EndToEnd
  imports RelayLaws StationSession
begin

text \<open>
  A measurement on its way over two hops: the station's replay into the tables of the server it connects
  to, and the exchange of missing data between this server and a server downstream of it, each part run by the
  code of its own side.
\<close>

section \<open>What the downstream server reports\<close>

lemma DBDownstream_ItemsLatest_ok:
  assumes "\<And>n. n \<in> set names \<Longrightarrow> has_item_table db n"
  shows "\<exists>latest. DBDownstream_ItemsLatest sid names db = (Inr latest, db) \<and>
    (\<forall>n \<in> set names. map_index 0 latest n = newest_or 0 (stored_times sid n db))"
proof -
  let ?devs = "[([], map (Pair []) names)] :: string_map_map"
  have names: "itemNames ?devs = names" by (simp add: itemNames_def comp_def)
  have "DBDownstream_ItemsLatest sid names = DBStore_ItemsLatest sid ?devs"
    by (simp add: DBDownstream_ItemsLatest_def DBStore_ItemsLatest_def zero_items_def comp_def)
  moreover have "\<forall>n \<in> set (itemNames ?devs). has_item_table db n" using assms unfolding names by blast
  ultimately show ?thesis using ItemsLatest_ok [of ?devs db sid] unfolding names by metis
qed

text \<open>The loop over the stations; a station that was visited keeps its entry, since every visit gives the same.\<close>

lemma items_latest_loop:
  assumes codec: "uuid_roundtrip c" and tables: "\<And>sid names n. (sid, names) \<in> set bs \<Longrightarrow> n \<in> set names \<Longrightarrow> has_item_table db n"
    and same: "\<And>sid names names'. (sid, names) \<in> set bs \<Longrightarrow> (sid, names') \<in> set bs \<Longrightarrow> names = names'"
  shows "\<exists>m. items_latest_step (db_relay c dec) bs db = (Inr m, db) \<and>
    (\<forall>sid names n. (sid, names) \<in> set bs \<and> n \<in> set names \<longrightarrow> said_latest c m sid n = newest_or 0 (stored_times sid n db))"
proof -
  let ?body = "\<lambda>(sid, names). bindE (fstE (ds_ItemsLatest (rl_Store (db_relay c dec)) sid names)) (\<lambda>latest.
                  sndE (modifyE (AList.update (uu_String (rl_uuid (db_relay c dec)) sid) latest)))"
  let ?good = "\<lambda>m sid names. \<forall>n \<in> set names. said_latest c m sid n = newest_or 0 (stored_times sid n db)"
  have inj: "uu_String c a = uu_String c b \<longleftrightarrow> a = b" for a b using uuid_roundtripD [OF codec] by metis
  have "\<exists>m'. forE ?body xs (db, m) = (Inr (), (db, m')) \<and> 
      (\<forall>a ns. (a, ns) \<in> set bs \<and> ((a, ns) \<in> set xs \<or> ?good m a ns) \<longrightarrow> ?good m' a ns)"
    if "set xs \<subseteq> set bs" for xs m
    using that
  proof (induction xs arbitrary: m)
    case (Cons x xs)
    obtain sid names where x: "x = (sid, names)" by (cases x)
    with Cons.prems have mem: "(sid, names) \<in> set bs" by simp
    with tables obtain l where l: "DBDownstream_ItemsLatest sid names db = (Inr l, db)"
      "\<forall>n \<in> set names. map_index 0 l n = newest_or 0 (stored_times sid n db)"
      using DBDownstream_ItemsLatest_ok [of names db sid] by blast
    let ?m = "AList.update (uu_String c sid) l m"
    have step: "?body x (db, m) = (Inr (), (db, ?m))" using l(1) x by (simp add: db_relay_def DBDownstreamStore_def eff_simps)
    have upd: "said_latest c ?m a n = (if a = sid then map_index 0 l n else said_latest c m a n)" for a n
      by (simp add: said_latest_def map_index_def inj)
    from Cons.IH [of ?m] Cons.prems obtain m' where m': "forE ?body xs (db, ?m) = (Inr (), (db, m'))"
      "\<forall>a ns. (a, ns) \<in> set bs \<and> ((a, ns) \<in> set xs \<or> ?good ?m a ns) \<longrightarrow> ?good m' a ns" by auto
    have "?good ?m a ns" if "(a, ns) \<in> set bs" "(a, ns) \<in> set (x # xs) \<or> ?good m a ns" "(a, ns) \<notin> set xs" for a ns
      using that x l(2) same [OF mem, of ns] upd by auto
    then have "\<forall>a ns. (a, ns) \<in> set bs \<and> ((a, ns) \<in> set (x # xs) \<or> ?good m a ns) \<longrightarrow> ?good m' a ns" using m'(2) by blast
    moreover have "forE ?body (x # xs) (db, m) = (Inr (), (db, m'))" using m'(1) step by (simp add: bindE_Inr)
    ultimately show ?case by blast
  qed (simp add: retE_def)
  from this [of bs "[]"] obtain m where "forE ?body bs (db, []) = (Inr (), (db, m))" "\<forall>a ns. (a, ns) \<in> set bs \<longrightarrow> ?good m a ns" by blast
  then show ?thesis by (auto simp: items_latest_step_def)
qed

definition known_items :: "tide_db \<Rightarrow> station_item list" where
  "known_items db = map (\<lambda>i. (i_StationId i, i_Name i)) (map item_of_row (items db))"

lemma downstream_reports:
  assumes "uuid_roundtrip c" "\<And>sid n. (sid, n) \<in> set (known_items db) \<Longrightarrow> has_item_table db n"
    and "set (visit (group_items (known_items db))) = set (group_items (known_items db))"
  shows "\<exists>m. items_latest_step (db_relay c dec) (visit (group_items (known_items db))) db = (Inr m, db) \<and>
    (\<forall>sid n. (sid, n) \<in> set (known_items db) \<longrightarrow> said_latest c m sid n = newest_or 0 (stored_times sid n db))"
proof -
  let ?bs = "visit (group_items (known_items db))"
  have mem: "(sid, names) \<in> set ?bs \<Longrightarrow> n \<in> set names \<Longrightarrow> (sid, n) \<in> set (known_items db)" for sid names n
    unfolding assms(3) by (rule group_items_mem)
  have one: "(sid, names) \<in> set ?bs \<Longrightarrow> (sid, names') \<in> set ?bs \<Longrightarrow> names = names'" for sid names names'
    unfolding assms(3) using wf_map_map_of_iff [OF wf_group_items, of "known_items db" sid] by (metis option.inject)
  have cover: "\<exists>names. (sid, names) \<in> set ?bs \<and> n \<in> set names" if "(sid, n) \<in> set (known_items db)" for sid n
    using that set_uuidStringsMapToTopics [of sid n "group_items (known_items db)"] unfolding assms(3) topics_group_items by auto
  obtain m where "items_latest_step (db_relay c dec) ?bs db = (Inr m, db)"
    "\<forall>sid names n. (sid, names) \<in> set ?bs \<and> n \<in> set names \<longrightarrow> said_latest c m sid n = newest_or 0 (stored_times sid n db)"
    using items_latest_loop [OF assms(1), of ?bs db dec] assms(2) mem one by blast
  with cover show ?thesis by blast
qed

section \<open>Two hops\<close>

lemma saved_stored_times:
  assumes "db_saved db (sid, n, t) \<noteq> None"
  shows "t \<in> set (stored_times sid n db)"
proof (cases "map_of (item_tables db) n")
  case (Some tab)
  with assms obtain v where "((sid, t), v) \<in> set tab" by (auto simp: db_saved_def dest: map_of_SomeD)
  with Some show ?thesis by (force simp: stored_times_def map_index_def station_rows_def)
qed (use assms in \<open>simp add: db_saved_def\<close>)

lemma newest_positive: "t \<in> set ts \<Longrightarrow> 0 < t \<Longrightarrow> 0 < newest_or 0 ts"
  by (auto simp: newest_or_def max_timestamp_def Max_gr_iff)

lemma replayed_keeps_db_ok:
  assumes "forE (station_frame visit (db_server syncer) sid ident) (map (DataBatch True) cs) (db, evs) = (r, (db', evs'))" "db_ok db"
  shows "db_ok db'"
proof -
  have "preserves (\<lambda>sn. db_ok (fst sn)) (forE (station_frame visit (db_server syncer) sid ident) (map (DataBatch True) cs))"
    unfolding forE_map by (rule preserves_for) (simp add: station_frame_def db_ok_store.handleDataBatch_keeps)
  from preservesD [OF this, of "(db, evs)"] assms show ?thesis by simp
qed

lemma syncMissData_run:
  assumes "items_latest_step (db_relay c dec) (visit (group_items (known_items ddb))) ddb = (Inr said, ddb)" "send_results dst = []"
    and "miss_data_loop (db_relay c dec) (inbox dst) (ddb, evs) = (Inr rs, sn)"
  shows "syncMissData visit (db_relay c dec) ((ddb, evs), dst) =
    (Inr (), (sn, dst\<lparr>inbox := rs, outbox := outbox dst @ [RStationsItemsLatest said]\<rparr>))"
proof -
  have "ds_GetAllItems (rl_Store (db_relay c dec)) ddb = (Inr (map item_of_row (items ddb)), ddb)"
    by (simp add: db_relay_def DBDownstreamStore_def GetItems_def readE_def case_prod_unfold)
  with assms show ?thesis
    by (simp add: syncMissData_def bindE_def fstE_def sndE_def Send_def known_items_def)
qed

text \<open>The second hop: what the upstream server has and the downstream server lacks.\<close>

lemma relay_hop:
  assumes ok: "db_ok udb" and streams: "send_results ust = []" "send_results dst = []"
    and relay: "uuid_roundtrip (ue_uuid env)" "set (ue_visit_perms env p) = set p"
      "\<forall>(sid, n) \<in> set (uuidStringsMapToTopics p). has_item_table udb n"
    and down: "\<forall>(sid, n) \<in> set (known_items ddb). has_item_table ddb n"
      "set (dvisit (group_items (known_items ddb))) = set (group_items (known_items ddb))"
  shows "\<exists>said bs ddb' devs'.
    handleMissDataSync env DBUpstreamStore (Some p) (udb, ust\<lparr>inbox := [Inr (RStationsItemsLatest said)]\<rparr>) =
      (Inr (), (udb, ust\<lparr>inbox := [], outbox := outbox ust @ map RDataBatch bs\<rparr>)) \<and>
    syncMissData dvisit (db_relay (ue_uuid env) dec) ((ddb, devs), dst\<lparr>inbox := map (Inr \<circ> RDataBatch) bs\<rparr>) =
      (Inr (), ((ddb', devs'), dst\<lparr>inbox := [], outbox := outbox dst @ [RStationsItemsLatest said]\<rparr>)) \<and>
    (\<forall>sid n t. (sid, n) \<in> set (uuidStringsMapToTopics p) \<and> (sid, n) \<in> set (known_items ddb) \<and> (\<exists>t' > 0. db_saved ddb (sid, n, t') \<noteq> None) \<and>
       (\<forall>t'. db_saved ddb (sid, n, t') \<noteq> None \<longrightarrow> t' < t) \<and> db_saved udb (sid, n, t) \<noteq> None \<longrightarrow>
       db_saved ddb' (sid, n, t) = db_saved udb (sid, n, t)) \<and>
    (\<forall>k. db_saved ddb k \<noteq> None \<longrightarrow> db_saved ddb' k = db_saved ddb k)"
proof -
  let ?c = "ue_uuid env"
  obtain said where said: "items_latest_step (db_relay ?c dec) (dvisit (group_items (known_items ddb))) ddb = (Inr said, ddb)"
    "\<forall>sid n. (sid, n) \<in> set (known_items ddb) \<longrightarrow> said_latest ?c said sid n = newest_or 0 (stored_times sid n ddb)"
    using downstream_reports [where visit = dvisit and c = ?c and dec = dec and db = ddb] relay(1) down by blast
  obtain bs ddb' devs' where
    up: "handleMissDataSync env DBUpstreamStore (Some p) (udb, ust\<lparr>inbox := [Inr (RStationsItemsLatest said)]\<rparr>) =
      (Inr (), (udb, ust\<lparr>inbox := [], outbox := outbox ust @ map RDataBatch bs\<rparr>))"
    and loop: "miss_data_loop (db_relay ?c dec) (map (Inr \<circ> RDataBatch) bs) (ddb, devs) = (Inr [], (ddb', devs'))"
    and new: "\<forall>sid n t. (sid, n) \<in> set (uuidStringsMapToTopics p) \<and> 0 < said_latest ?c said sid n \<and>
       said_latest ?c said sid n < t \<and> db_saved udb (sid, n, t) \<noteq> None \<longrightarrow> db_saved ddb' (sid, n, t) \<noteq> None"
    and kept: "\<forall>k. db_saved ddb k \<noteq> None \<longrightarrow> db_saved ddb' k = db_saved ddb k"
    and changed: "\<forall>sid n t. db_saved ddb' (sid, n, t) \<noteq> db_saved ddb (sid, n, t) \<longrightarrow> db_saved ddb' (sid, n, t) = db_saved udb (sid, n, t)"
    using missing_data_exchange [OF relay(1) ok _ _ relay(3,2), of "ust\<lparr>inbox := [Inr (RStationsItemsLatest said)]\<rparr>" said "[]" dec "[]" ddb devs]
      streams(1) by auto
  have "db_saved ddb' (sid, n, t) = db_saved udb (sid, n, t)"
    if item: "(sid, n) \<in> set (uuidStringsMapToTopics p)" "(sid, n) \<in> set (known_items ddb)" and some: "0 < t'" "db_saved ddb (sid, n, t') \<noteq> None"
      and newer: "\<forall>t'. db_saved ddb (sid, n, t') \<noteq> None \<longrightarrow> t' < t" and row: "db_saved udb (sid, n, t) \<noteq> None" for sid n t t'
  proof -
    have "0 < said_latest ?c said sid n" using said(2) item(2) newest_positive [OF saved_stored_times [OF some(2)] some(1)] by simp
    moreover have "0 < t" using newer some less_trans by blast
    then have "newest_or 0 (stored_times sid n ddb) < t" using newer stored_times_saved by (intro newest_or_less) auto
    then have "said_latest ?c said sid n < t" using said(2) item(2) by simp
    ultimately have "db_saved ddb' (sid, n, t) \<noteq> None" using new item(1) row by blast
    moreover have "db_saved ddb (sid, n, t) = None" using newer by blast
    ultimately show ?thesis using changed by metis
  qed
  moreover have "syncMissData dvisit (db_relay ?c dec) ((ddb, devs), dst\<lparr>inbox := map (Inr \<circ> RDataBatch) bs\<rparr>) =
      (Inr (), ((ddb', devs'), dst\<lparr>inbox := [], outbox := outbox dst @ [RStationsItemsLatest said]\<rparr>))"
    using syncMissData_run [of ?c dec dvisit ddb said "dst\<lparr>inbox := map (Inr \<circ> RDataBatch) bs\<rparr>"] said(1) streams(2) loop by simp
  ultimately show ?thesis using up kept by (intro exI [of _ said] exI [of _ bs] exI [of _ ddb'] exI [of _ devs'] conjI) blast+
qed

text \<open>
  C20: a measurement reaches a server two hops away. The station replays to its server what the server lacks; then a
  downstream server reports its own newest timestamps and receives from this server what it lacks in
  turn, each side running its own code on its own tables. Every row of the station that is newer
  than what both servers had, of an item the downstream account may read and of which the downstream server
  has a row already, is then stored downstream with a value the station recorded for this time, and nothing the
  downstream server had is changed.
  Of an item without such a row nothing is relayed. The statement is about the phase of each session that carries history; the phases before it have
  properties of their own, and by one of them a relay session whose upstream has a device ends before this phase.
\<close>

theorem gauge_reaches_downstream:
  assumes client: "\<forall>n \<in> set (itemNames (si_devices info)). has_client_table n (ig_db s)"
    and server: "\<forall>n \<in> set (itemNames (si_devices info)). has_item_table db n" "db_ok db"
    and streams: "send_results st = []" "send_results ust = []" "send_results dst = []"
    and relay: "uuid_roundtrip (ue_uuid env)" "set (ue_visit_perms env p) = set p"
      "\<forall>(sid, n) \<in> set (uuidStringsMapToTopics p). has_item_table db n"
    and down: "\<forall>(sid, n) \<in> set (known_items ddb). has_item_table ddb n"
      "set (dvisit (group_items (known_items ddb))) = set (group_items (known_items ddb))"
  shows "\<exists>latest cs db' evs' said bs ddb' devs'.
    DBStore_ItemsLatest sid (si_devices info) db = (Inr latest, db) \<and>
    sendReplayData (station_deps info sub cams snap) info latest (s, st) = (Inr (), (s, st\<lparr>outbox := outbox st @ map (DataBatch True) cs\<rparr>)) \<and>
    forE (station_frame visit (db_server syncer) sid ident) (map (DataBatch True) cs) (db, evs) = (Inr (), (db', evs')) \<and>
    handleMissDataSync env DBUpstreamStore (Some p) (db', ust\<lparr>inbox := [Inr (RStationsItemsLatest said)]\<rparr>) =
      (Inr (), (db', ust\<lparr>inbox := [], outbox := outbox ust @ map RDataBatch bs\<rparr>)) \<and>
    syncMissData dvisit (db_relay (ue_uuid env) dec) ((ddb, devs), dst\<lparr>inbox := map (Inr \<circ> RDataBatch) bs\<rparr>) =
      (Inr (), ((ddb', devs'), dst\<lparr>inbox := [], outbox := outbox dst @ [RStationsItemsLatest said]\<rparr>)) \<and>
    (\<forall>n t v. n \<in> set (itemNames (si_devices info)) \<and> (t, v) \<in> set (table_rows n (ig_db s)) \<and>
       (\<forall>t'. db_saved db (sid, n, t') \<noteq> None \<or> db_saved ddb (sid, n, t') \<noteq> None \<longrightarrow> t' < t) \<and>
       (sid, n) \<in> set (uuidStringsMapToTopics p) \<and> (sid, n) \<in> set (known_items ddb) \<and> (\<exists>t' > 0. db_saved ddb (sid, n, t') \<noteq> None) \<longrightarrow>
       (\<exists>v'. (t, v') \<in> set (table_rows n (ig_db s)) \<and> db_saved ddb' (sid, n, t) = Some v')) \<and>
    (\<forall>k. db_saved ddb k \<noteq> None \<longrightarrow> db_saved ddb' k = db_saved ddb k)"
proof -
  obtain latest cs db' where hop1: "DBStore_ItemsLatest sid (si_devices info) db = (Inr latest, db)"
    "sendReplayData (station_deps info sub cams snap) info latest (s, st) = (Inr (), (s, st\<lparr>outbox := outbox st @ map (DataBatch True) cs\<rparr>))"
    "forE (station_frame visit (db_server syncer) sid ident) (map (DataBatch True) cs) (db, evs) =
      (Inr (), (db', evs @ map (data_event sid True) (fresh sid (db_saved db) (concat cs))))"
    and got: "\<forall>n t v. n \<in> set (itemNames (si_devices info)) \<and> (t, v) \<in> set (table_rows n (ig_db s)) \<and> 0 < t \<and>
       (\<forall>t'. db_saved db (sid, n, t') \<noteq> None \<longrightarrow> t' < t) \<longrightarrow> db_saved db' (sid, n, t) \<noteq> None"
    and from_station: "\<forall>k v. db_saved db k = None \<and> db_saved db' k = Some v \<longrightarrow>
       (\<exists>n t. k = (sid, n, t) \<and> n \<in> set (itemNames (si_devices info)) \<and> (t, v) \<in> set (table_rows n (ig_db s)))"
    and tables: "\<forall>m. has_item_table db' m = has_item_table db m"
    using replay_history [OF client server(1) streams(1), of sid sub cams snap visit syncer ident evs] by (elim exE conjE) (rule that; assumption)
  have uptables: "\<forall>(sid, n) \<in> set (uuidStringsMapToTopics p). has_item_table db' n" using relay(3) tables by simp
  obtain said bs ddb' devs' where
    hop2: "handleMissDataSync env DBUpstreamStore (Some p) (db', ust\<lparr>inbox := [Inr (RStationsItemsLatest said)]\<rparr>) =
        (Inr (), (db', ust\<lparr>inbox := [], outbox := outbox ust @ map RDataBatch bs\<rparr>))"
      "syncMissData dvisit (db_relay (ue_uuid env) dec) ((ddb, devs), dst\<lparr>inbox := map (Inr \<circ> RDataBatch) bs\<rparr>) =
        (Inr (), ((ddb', devs'), dst\<lparr>inbox := [], outbox := outbox dst @ [RStationsItemsLatest said]\<rparr>))"
    and new: "\<forall>sid n t. (sid, n) \<in> set (uuidStringsMapToTopics p) \<and> (sid, n) \<in> set (known_items ddb) \<and> (\<exists>t' > 0. db_saved ddb (sid, n, t') \<noteq> None) \<and>
       (\<forall>t'. db_saved ddb (sid, n, t') \<noteq> None \<longrightarrow> t' < t) \<and> db_saved db' (sid, n, t) \<noteq> None \<longrightarrow>
       db_saved ddb' (sid, n, t) = db_saved db' (sid, n, t)"
    and kept: "\<forall>k. db_saved ddb k \<noteq> None \<longrightarrow> db_saved ddb' k = db_saved ddb k"
    using relay_hop [where dvisit = dvisit, OF replayed_keeps_db_ok [OF hop1(3) server(2)] streams(2,3) relay(1,2) uptables down, where dec = dec and devs = devs]
    by (elim exE conjE) (rule that; assumption)
  have "\<exists>v'. (t, v') \<in> set (table_rows n (ig_db s)) \<and> db_saved ddb' (sid, n, t) = Some v'"
    if row: "n \<in> set (itemNames (si_devices info))" "(t, v) \<in> set (table_rows n (ig_db s))"
      and newer: "\<forall>t'. db_saved db (sid, n, t') \<noteq> None \<or> db_saved ddb (sid, n, t') \<noteq> None \<longrightarrow> t' < t"
      and item: "(sid, n) \<in> set (uuidStringsMapToTopics p)" "(sid, n) \<in> set (known_items ddb)"
      and some: "0 < t'" "db_saved ddb (sid, n, t') \<noteq> None" for n t v t'
  proof -
    have "0 < t" using newer some less_trans by blast
    then have up: "db_saved db' (sid, n, t) \<noteq> None" using got row newer by blast
    then have "db_saved ddb' (sid, n, t) = db_saved db' (sid, n, t)" using new item newer some by blast
    moreover have "db_saved db (sid, n, t) = None" using newer by blast
    ultimately show ?thesis using up from_station [rule_format, of "(sid, n, t)"] by auto
  qed
  then have "\<forall>n t v. n \<in> set (itemNames (si_devices info)) \<and> (t, v) \<in> set (table_rows n (ig_db s)) \<and>
       (\<forall>t'. db_saved db (sid, n, t') \<noteq> None \<or> db_saved ddb (sid, n, t') \<noteq> None \<longrightarrow> t' < t) \<and>
       (sid, n) \<in> set (uuidStringsMapToTopics p) \<and> (sid, n) \<in> set (known_items ddb) \<and> (\<exists>t' > 0. db_saved ddb (sid, n, t') \<noteq> None) \<longrightarrow>
       (\<exists>v'. (t, v') \<in> set (table_rows n (ig_db s)) \<and> db_saved ddb' (sid, n, t) = Some v')"
    by (intro allI impI, elim conjE exE) assumption
  note all_new = this
  show ?thesis
    by (intro exI [of _ latest] exI [of _ cs] exI [of _ db'] exI [of _ "evs @ map (data_event sid True) (fresh sid (db_saved db) (concat cs))"]
        exI [of _ said] exI [of _ bs] exI [of _ ddb'] exI [of _ devs'] conjI hop1 hop2 all_new kept)
qed

text \<open>
  The station holds three rows, its server the first of them, and the downstream server, which knows the
  item, the first as well: the third row arrives downstream.
\<close>

definition down_db :: tide_db where
  "down_db = one_item_db\<lparr>item_tables := [(''water'', [((7, 10), 5)])]\<rparr>"

lemma down_db_items: "known_items down_db = [(7, ''water'')]" "has_item_table down_db ''water''"
  "db_saved down_db (7, ''water'', t) = (if t = 10 then Some 5 else None)"
  using water_creatable
  by (auto simp: down_db_def known_items_def one_item_db_def item_of_row_def has_item_table_def creatable_def db_saved_def)

lemma one_table_db_facts: "db_ok one_table_db" "has_item_table one_table_db ''water''"
  "db_saved one_table_db (7, ''water'', t) = (if t = 10 then Some 5 else None)"
  using water_creatable
  by (auto simp: one_table_db_def db_ok_defs empty_db_def has_item_table_def creatable_def db_saved_def)

theorem gauge_reaches_downstream_witness:
  "\<exists>cs db' evs' said bs ddb' devs'.
    forE (station_frame id (db_server (\<lambda>_ _. retE ())) 7 ''s'') (map (DataBatch True) cs) (one_table_db, []) = (Inr (), (db', evs')) \<and>
    syncMissData id (db_relay sample_codec no_decoder) ((down_db, []), (new_stream [])\<lparr>inbox := map (Inr \<circ> RDataBatch) bs\<rparr>) =
      (Inr (), ((ddb', devs'), (new_stream [])\<lparr>inbox := [], outbox := [RStationsItemsLatest said]\<rparr>)) \<and>
    db_saved ddb' (7, ''water'', 30) = Some 7 \<and> db_saved ddb' (7, ''water'', 10) = Some 5"
proof -
  let ?p = "[(7 :: uuid, [''water''])]"
  have names: "itemNames (si_devices gauge_info) = [''water'']" by (simp add: gauge_info_def itemNames_def)
  have rows: "table_rows ''water'' (ig_db gauge_station) = [(10, 5), (20, 6), (30, 7)]"
    by (simp add: gauge_station_def table_rows_def map_index_def)
  have client: "\<forall>n \<in> set (itemNames (si_devices gauge_info)). has_client_table n (ig_db gauge_station)"
    by (simp add: names gauge_station_def has_client_table_def)
  have topics: "uuidStringsMapToTopics ?p = [(7, ''water'')]" by (simp add: uuidStringsMapToTopics_def)
  have env: "ue_uuid sample_env = sample_codec" "set (ue_visit_perms sample_env ?p) = set ?p"
    by (simp_all add: sample_env_def)
  have server: "\<forall>n \<in> set (itemNames (si_devices gauge_info)). has_item_table one_table_db n"
    using one_table_db_facts(2) by (simp add: names)
  have streams: "send_results (new_stream [] :: station_message stream) = []" "send_results (new_stream [] :: relay_message stream) = []"
    by (simp_all add: new_stream_def)
  have codec: "uuid_roundtrip (ue_uuid sample_env)" by (simp add: env sample_codec_roundtrip)
  have up: "\<forall>(sid, n) \<in> set (uuidStringsMapToTopics ?p). has_item_table one_table_db n"
    using one_table_db_facts(2) by (simp add: topics)
  have down: "\<forall>(sid, n) \<in> set (known_items down_db). has_item_table down_db n"
    "set (id (group_items (known_items down_db))) = set (group_items (known_items down_db))"
    using down_db_items by simp_all
  obtain cs db' evs' said bs ddb' devs' where
    "forE (station_frame id (db_server (\<lambda>_ _. retE ())) 7 ''s'') (map (DataBatch True) cs) (one_table_db, []) = (Inr (), (db', evs'))"
    "syncMissData id (db_relay sample_codec no_decoder) ((down_db, []), (new_stream [])\<lparr>inbox := map (Inr \<circ> RDataBatch) bs\<rparr>) =
      (Inr (), ((ddb', devs'), (new_stream [])\<lparr>inbox := [], outbox := outbox (new_stream [] :: relay_message stream) @ [RStationsItemsLatest said]\<rparr>))"
    and new: "\<forall>n t v. n \<in> set (itemNames (si_devices gauge_info)) \<and> (t, v) \<in> set (table_rows n (ig_db gauge_station)) \<and>
       (\<forall>t'. db_saved one_table_db (7, n, t') \<noteq> None \<or> db_saved down_db (7, n, t') \<noteq> None \<longrightarrow> t' < t) \<and>
       (7, n) \<in> set (uuidStringsMapToTopics ?p) \<and> (7, n) \<in> set (known_items down_db) \<and> (\<exists>t' > 0. db_saved down_db (7, n, t') \<noteq> None) \<longrightarrow>
       (\<exists>v'. (t, v') \<in> set (table_rows n (ig_db gauge_station)) \<and> db_saved ddb' (7, n, t) = Some v')"
    and old: "\<forall>k. db_saved down_db k \<noteq> None \<longrightarrow> db_saved ddb' k = db_saved down_db k"
    using gauge_reaches_downstream [where dvisit = id, OF client server one_table_db_facts(1) streams(1,2,2) codec env(2) up down,
      where sid = 7 and sub = 1 and cams = "\<lambda>_. None" and snap = "\<lambda>_. Inr []" and visit = id and syncer = "\<lambda>_ _. retE ()" and ident = "''s''"
        and evs = "[]" and dec = no_decoder and devs = "[]", unfolded env(1)]
    by (elim exE conjE) (rule that; assumption)
  moreover have "\<exists>v'. (30, v') \<in> set (table_rows ''water'' (ig_db gauge_station)) \<and> db_saved ddb' (7, ''water'', 30) = Some v'"
    using new [rule_format, of "''water''" 30 7] by (simp add: names rows topics down_db_items one_table_db_facts split: if_splits)
  then have "db_saved ddb' (7, ''water'', 30) = Some 7" by (auto simp: rows)
  moreover have "db_saved ddb' (7, ''water'', 10) = Some 5" using old by (simp add: down_db_items)
  ultimately show ?thesis by (auto simp: new_stream_def)
qed

end
