(* ===== verification/UpstreamLife.thy ===== *)
theory UpstreamLife
  imports ApiLaws
begin

text \<open>
  The life of the connections to the upstreams: \<open>Init\<close> of \<^verbatim>\<open>tide_server/controller/common.go\<close> starts one
  goroutine \<open>startSync\<close> per row of the table, \<open>EditUpstream\<close> and \<open>DelUpstream\<close> of \<^verbatim>\<open>auth.go\<close> cancel and start
  them, and each goroutine enters its state into \<open>recvConnections\<close> at some later moment, outside the edit
  lock. A state that another one replaces in the map can no longer be reached by a handler; the model keeps it in a
  list of its own, because its loop goes on while its context is not cancelled.
\<close>

section \<open>Starting, editing and deleting\<close>

text \<open>
  The part of \<open>Init\<close> that concerns the upstreams: \<open>None\<close> is the exit of the process after a failed query,
  otherwise a goroutine is started for each row.
\<close>

definition Init_upstreams :: "int \<Rightarrow> hub_message sub_heap \<Rightarrow> tide_db \<Rightarrow> api_state option" where
  "Init_upstreams delay subs db =
     (case GetUpstreams db of
        (Inl _, _) \<Rightarrow> None
      | (Inr us, db') \<Rightarrow> Some \<lparr>api_db = db', api_hub = NewSyncHub delay subs, recvConnections = [], api_mails = [],
          api_syncs = us, api_cache = (\<lambda>_. [])\<rparr>)"

type_synonym sync_life = "api_state \<times> (upstream \<times> bool) list"

definition replaced :: "conn_key \<Rightarrow> api_state \<Rightarrow> (upstream \<times> bool) list" where
  "replaced k st = (case map_of (recvConnections st) k of Some (UpstreamConn u c) \<Rightarrow> [(u, c)] | _ \<Rightarrow> [])"

text \<open>The \<open>i\<close>-th of the goroutines that have not stored their state yet does so.\<close>

definition run_startSync :: "nat \<Rightarrow> sync_life \<Rightarrow> sync_life" where
  "run_startSync i = (\<lambda>(st, gone).
     let up = api_syncs st ! i; st1 = st\<lparr>api_syncs := take i (api_syncs st) @ drop (Suc i) (api_syncs st)\<rparr>
     in (startSync up st1, gone @ replaced (KUpstream (u_Id up)) st))"

definition names_row :: "api_env \<Rightarrow> http_request \<Rightarrow> api_state \<Rightarrow> bool" where
  "names_row env r st =
     (case jd_upstream (env_json env) (rq_body r) of
        None \<Rightarrow> True | Some u \<Rightarrow> u_Id u = 0 \<or> map_of (upstreams (api_db st)) (u_Id u) \<noteq> None)"

text \<open>
  The handlers run under \<open>editMu\<close>; a store between their steps has the same effect as one before or after
  them, since it touches the map only. In a \<open>quiet\<close> run a request for an upstream comes when no goroutine is
  about to store, and an edit names a row of the table. Everything else the server does leaves the table of upstreams
  and their entries alone.
\<close>

inductive life_step :: "bool \<Rightarrow> sync_life \<Rightarrow> sync_life \<Rightarrow> bool" for quiet :: bool where
  edit: "\<lbrakk>quiet \<longrightarrow> api_syncs st = [] \<and> names_row env r st\<rbrakk> \<Longrightarrow> life_step quiet (st, gone) (snd (api_EditUpstream env r st), gone)"
| del: "\<lbrakk>quiet \<longrightarrow> api_syncs st = []\<rbrakk> \<Longrightarrow> life_step quiet (st, gone) (snd (api_DelUpstream env r st), gone)"
| store: "i < length (api_syncs st) \<Longrightarrow> life_step quiet (st, gone) (run_startSync i (st, gone))"
| other: "\<lbrakk>api_syncs st' = api_syncs st; upstreams (api_db st') = upstreams (api_db st);
    \<And>k. map_of (recvConnections st') (KUpstream k) = map_of (recvConnections st) (KUpstream k)\<rbrakk> \<Longrightarrow>
    life_step quiet (st, gone) (st', gone)"

section \<open>The handlers on the table and the map\<close>

abbreviation conn_of :: "api_state \<Rightarrow> int \<Rightarrow> recv_conn option" where
  "conn_of st k \<equiv> map_of (recvConnections st) (KUpstream k)"

definition row_of :: "api_state \<Rightarrow> int \<Rightarrow> upstream option" where
  "row_of st k = map_option (\<lambda>r. upstream_of_row (k, r)) (map_of (upstreams (api_db st)) k)"

fun cancelled :: "recv_conn \<Rightarrow> recv_conn" where
  "cancelled (StationConn _) = StationConn True"
| "cancelled (UpstreamConn u _) = UpstreamConn u True"

lemma cancelled_not_live [simp]: "cancelled c \<noteq> UpstreamConn u False"
  by (cases c) simp_all

lemma close_conn_simps [simp]:
  "api_syncs (close_conn k st) = api_syncs st"
  "map_of (recvConnections (close_conn k st)) k' = (if k' = k then map_option cancelled (map_of (recvConnections st) k) else map_of (recvConnections st) k')"
  by (auto simp: close_conn_def split: option.split recv_conn.split)

lemma upstream_row_roundtrip [simp]: "upstream_of_row (u_Id u, row_of_upstream u) = u"
  by (simp add: upstream_of_row_def row_of_upstream_def)

lemma EditUpstream_row:
  assumes "EditUpstream u db = (Inr u', db')" "u_Id u = 0 \<or> map_of (upstreams db) (u_Id u) \<noteq> None"
  shows "map_of (upstreams db') = (map_of (upstreams db))(u_Id u' \<mapsto> row_of_upstream u')"
  using assms
  by (auto simp: EditUpstream_def Let_def row_of_upstream_def fun_eq_iff option.map_ident split: if_splits)

lemma EditUpstream_failed: "EditUpstream u db = (Inl e, db') \<Longrightarrow> upstreams db' = upstreams db"
  by (auto simp: EditUpstream_def Let_def split: if_splits)

lemma DelUpstream_row: "DelUpstream uid db = (Inr ds, db') \<Longrightarrow> map_of (upstreams db') = (map_of (upstreams db))(uid := None)"
  by (auto simp: DelUpstream_def Let_def delete_stations_def delete_devices_def map_of_delete_key fun_eq_iff)


lemma api_EditUpstream_cases:
  obtains (unchanged) "api_syncs (snd (api_EditUpstream env r st)) = api_syncs st"
      "conn_of (snd (api_EditUpstream env r st)) = conn_of st" "upstreams (api_db (snd (api_EditUpstream env r st))) = upstreams (api_db st)"
  | (edited) u u' where "jd_upstream (env_json env) (rq_body r) = Some u" "EditUpstream u (api_db st) = (Inr u', api_db (snd (api_EditUpstream env r st)))"
      "api_syncs (snd (api_EditUpstream env r st)) = api_syncs st @ [u']"
      "conn_of (snd (api_EditUpstream env r st)) = (\<lambda>k. if k = u_Id u' then map_option cancelled (conn_of st k) else conn_of st k)"
proof (cases "jd_upstream (env_json env) (rq_body r)")
  case None
  then show ?thesis by (intro unchanged) (simp_all add: api_EditUpstream_def readJSON_def)
next
  case (Some u)
  obtain res db' where e: "EditUpstream u (api_db st) = (res, db')" by fastforce
  show ?thesis
  proof (cases res)
    case (Inl err)
    with Some e show ?thesis
      by (intro unchanged) (simp_all add: api_EditUpstream_def readJSON_def tryDB_def on_db_def EditUpstream_failed)
  next
    case (Inr u')
    with Some e show ?thesis
      by (intro edited) (auto simp: api_EditUpstream_def readJSON_def tryDB_def on_db_def ok_reply_def Let_def)
  qed
qed

lemma fold_publish_keeps:
  "api_syncs (fold (\<lambda>x. publish_config t (b x)) xs st) = api_syncs st"
  "recvConnections (fold (\<lambda>x. publish_config t (b x)) xs st) = recvConnections st"
  by (induction xs arbitrary: st) (simp_all add: publish_config_def on_hub_def)

lemma api_DelUpstream_cases:
  obtains (unchanged) "api_syncs (snd (api_DelUpstream env r st)) = api_syncs st"
      "conn_of (snd (api_DelUpstream env r st)) = conn_of st" "upstreams (api_db (snd (api_DelUpstream env r st))) = upstreams (api_db st)"
  | (deleted) uid where "api_syncs (snd (api_DelUpstream env r st)) = api_syncs st"
      "conn_of (snd (api_DelUpstream env r st)) = (conn_of st)(uid := None)"
      "map_of (upstreams (api_db (snd (api_DelUpstream env r st)))) = (map_of (upstreams (api_db st)))(uid := None)"
proof (cases "del_upstream_id env r")
  case (Some uid)
  obtain ds db' where d: "DelUpstream uid (api_db st) = (Inr ds, db')" by (simp add: DelUpstream_def Let_def)
  show ?thesis
  proof (cases "uid = 0")
    case True
    with Some show ?thesis by (intro unchanged) (simp_all add: api_DelUpstream_def)
  next
    case False
    with Some d show ?thesis
      by (intro deleted [of uid])
        (auto simp: api_DelUpstream_def tryDB_def on_db_def ok_reply_def Let_def fold_publish_keeps DelUpstream_row fun_eq_iff)
  qed
qed (use unchanged in \<open>simp add: api_DelUpstream_def\<close>)

section \<open>Quiet runs\<close>

text \<open>
  The invariant over what matters: the replaced states, the pending starts, the rows and the entries. An upstream whose
  start is pending has no running loop yet, every other upstream of the table has exactly the one in the map.
\<close>

definition loops_inv ::
  "(upstream \<times> bool) list \<Rightarrow> upstream list \<Rightarrow> (int \<Rightarrow> upstream option) \<Rightarrow> (int \<Rightarrow> recv_conn option) \<Rightarrow> bool" where
  "loops_inv gone pending row conn \<longleftrightarrow> (\<forall>u. (u, False) \<notin> set gone) \<and> distinct (map u_Id pending) \<and>
     (\<forall>u w. u \<in> set pending \<longrightarrow> conn (u_Id u) \<noteq> Some (UpstreamConn w False)) \<and>
     (\<forall>k u. u_Id u \<noteq> k \<longrightarrow> conn k \<noteq> Some (UpstreamConn u False)) \<and>
     (\<forall>k u. row k = Some u \<longleftrightarrow> u_Id u = k \<and> (u \<in> set pending \<or> conn k = Some (UpstreamConn u False)))"

definition loops_ok :: "sync_life \<Rightarrow> bool" where
  "loops_ok = (\<lambda>(st, gone). loops_inv gone (api_syncs st) (row_of st) (conn_of st))"

lemma loops_inv_edit:
  assumes "loops_inv gone [] row conn"
  shows "loops_inv gone [u] (row(u_Id u \<mapsto> u)) (\<lambda>k. if k = u_Id u then map_option cancelled (conn k) else conn k)"
  using assms by (auto simp: loops_inv_def)

lemma loops_inv_del: "loops_inv gone [] row conn \<Longrightarrow> loops_inv gone [] (row(k := None)) (conn(k := None))"
  by (simp add: loops_inv_def)

lemma loops_inv_store:
  assumes "loops_inv gone (us @ u # vs) row conn" "\<forall>w c. (w, c) \<in> set old \<longrightarrow> conn (u_Id u) = Some (UpstreamConn w c)"
  shows "loops_inv (gone @ old) (us @ vs) row (conn(u_Id u \<mapsto> UpstreamConn u False))"
proof -
  have "conn (u_Id u) \<noteq> Some (UpstreamConn w False)" for w using assms(1) by (simp add: loops_inv_def)
  with assms(2) have old: "(w, False) \<notin> set old" for w by metis
  have "u_Id u \<notin> u_Id ` set (us @ vs)" using assms(1) by (auto simp: loops_inv_def)
  then have fresh: "u_Id w \<noteq> u_Id u" if "w \<in> set (us @ vs)" for w using that by (metis image_eqI)
  with old assms(1) show ?thesis unfolding loops_inv_def by auto
qed

lemma loops_ok_cong:
  assumes "api_syncs st' = api_syncs st" "upstreams (api_db st') = upstreams (api_db st)" "conn_of st' = conn_of st"
  shows "loops_ok (st', gone) = loops_ok (st, gone)"
proof -
  have "row_of st' = row_of st" using assms(2) by (simp add: row_of_def fun_eq_iff)
  with assms(1,3) show ?thesis by (simp add: loops_ok_def)
qed

lemma Init_loops_ok:
  assumes "Init_upstreams delay subs db = Some st" "wf_map (upstreams db)"
  shows "loops_ok (st, [])"
proof -
  have st: "api_syncs st = map upstream_of_row (upstreams db)" "api_db st = db" "recvConnections st = []"
    using assms(1) by (auto simp: Init_upstreams_def GetUpstreams_def readE_def)
  have "map u_Id (api_syncs st) = map fst (upstreams db)" unfolding st
    by (simp add: upstream_of_row_def case_prod_unfold)
  then have ids: "distinct (map u_Id (api_syncs st))" using assms(2) by (simp add: wf_map_def)
  have "map_of (upstreams db) k = Some r \<longleftrightarrow> (k, r) \<in> set (upstreams db)" for k r
    using assms(2) by (simp add: wf_map_def)
  then have row: "row_of st k = Some u \<longleftrightarrow> u \<in> set (api_syncs st) \<and> u_Id u = k" for k u
    unfolding row_of_def st by (force simp: upstream_of_row_def)
  show ?thesis using ids by (auto simp: loops_ok_def loops_inv_def row st(3))
qed

lemma edit_loops_ok:
  assumes "loops_ok (st, gone)" "api_syncs st = []" "names_row env r st"
  shows "loops_ok (snd (api_EditUpstream env r st), gone)"
proof (cases rule: api_EditUpstream_cases [of env r st])
  case unchanged
  with assms(1) show ?thesis by (simp add: loops_ok_cong [OF unchanged(1,3,2)])
next
  case (edited u u')
  have "map_of (upstreams (api_db (snd (api_EditUpstream env r st)))) = (map_of (upstreams (api_db st)))(u_Id u' \<mapsto> row_of_upstream u')"
    using assms(3) edited(1) by (intro EditUpstream_row [OF edited(2)]) (simp add: names_row_def)
  then have row: "row_of (snd (api_EditUpstream env r st)) = (row_of st)(u_Id u' \<mapsto> u')"
    by (simp add: row_of_def fun_eq_iff)
  from assms(1,2) have "loops_inv gone [] (row_of st) (conn_of st)" by (simp add: loops_ok_def)
  from loops_inv_edit [OF this, of u'] show ?thesis unfolding loops_ok_def split_conv row edited(3,4) assms(2) by simp
qed

lemma del_loops_ok:
  assumes "loops_ok (st, gone)" "api_syncs st = []"
  shows "loops_ok (snd (api_DelUpstream env r st), gone)"
proof (cases rule: api_DelUpstream_cases [of env r st])
  case unchanged
  with assms(1) show ?thesis by (simp add: loops_ok_cong [OF unchanged(1,3,2)])
next
  case (deleted uid)
  from deleted(3) have row: "row_of (snd (api_DelUpstream env r st)) = (row_of st)(uid := None)" by (simp add: row_of_def fun_eq_iff)
  from assms have "loops_inv gone [] (row_of st) (conn_of st)" by (simp add: loops_ok_def)
  from loops_inv_del [OF this] show ?thesis unfolding loops_ok_def split_conv row deleted(1,2) assms(2) .
qed

lemma store_loops_ok:
  assumes "loops_ok (st, gone)" "i < length (api_syncs st)"
  shows "loops_ok (run_startSync i (st, gone))"
proof -
  let ?us = "take i (api_syncs st)" and ?up = "api_syncs st ! i" and ?vs = "drop (Suc i) (api_syncs st)"
  let ?st = "startSync ?up (st\<lparr>api_syncs := ?us @ ?vs\<rparr>)"
  have "api_syncs st = ?us @ ?up # ?vs" using assms(2) by (rule id_take_nth_drop)
  with assms(1) have inv: "loops_inv gone (?us @ ?up # ?vs) (row_of st) (conn_of st)" by (simp add: loops_ok_def)
  have run: "run_startSync i (st, gone) = (?st, gone @ replaced (KUpstream (u_Id ?up)) st)"
    by (simp add: run_startSync_def Let_def)
  have parts: "row_of ?st = row_of st" "conn_of ?st = (conn_of st)(u_Id ?up \<mapsto> UpstreamConn ?up False)" "api_syncs ?st = ?us @ ?vs"
    by (simp_all add: startSync_def row_of_def fun_eq_iff)
  show ?thesis
    unfolding run loops_ok_def split_conv parts
    by (rule loops_inv_store [OF inv]) (simp add: replaced_def split: option.split recv_conn.split)
qed

lemma quiet_step_ok: "life_step True s s' \<Longrightarrow> loops_ok s \<Longrightarrow> loops_ok s'"
proof (induction rule: life_step.induct)
  case (other st' st gone)
  then have "conn_of st' = conn_of st" by (simp add: fun_eq_iff)
  from loops_ok_cong [OF other(1,2) this] other(4) show ?case by simp
qed (simp_all add: edit_loops_ok del_loops_ok store_loops_ok)

lemma quiet_run_ok:
  assumes "Init_upstreams delay subs db = Some st0" "wf_map (upstreams db)" "(life_step True)\<^sup>*\<^sup>* (st0, []) s"
  shows "loops_ok s"
  using assms(3) Init_loops_ok [OF assms(1,2)] by (induction rule: rtranclp_induct) (blast dest: quiet_step_ok)+

text \<open>
  C25: in a run in which requests for upstreams come one at a time and every edit names a row of the table or no identifier (an edit of an identifier that
  is not in the table starts a loop without a row), whenever no start is pending the server follows exactly
  the upstreams of its table: the entry of an upstream in \<open>recvConnections\<close> is a running loop with the
  configuration of its row, there is no running loop without a row, and every state that was replaced in the map has been
  cancelled.
\<close>

theorem quiet_loops_match_table:
  assumes "Init_upstreams delay subs db = Some st0" "wf_map (upstreams db)" "(life_step True)\<^sup>*\<^sup>* (st0, []) (st, gone)" "api_syncs st = []"
  shows "(\<forall>k u. map_of (recvConnections st) (KUpstream k) = Some (UpstreamConn u False) \<longleftrightarrow>
       (\<exists>row. map_of (upstreams (api_db st)) k = Some row \<and> u = upstream_of_row (k, row))) \<and>
     (\<forall>u. (u, False) \<notin> set gone)"
proof -
  have "loops_inv gone [] (row_of st) (conn_of st)" using quiet_run_ok [OF assms(1,2,3)] assms(4) by (simp add: loops_ok_def)
  then have "conn_of st k = Some (UpstreamConn u False) \<longleftrightarrow> row_of st k = Some u" "(u, False) \<notin> set gone" for k u
    by (auto simp: loops_inv_def)
  then show ?thesis by (auto simp: row_of_def)
qed

section \<open>Two edits in a row\<close>

text \<open>No handler reaches a replaced state, so its loop is never told to stop.\<close>

lemma replaced_for_ever: "life_step quiet s s' \<Longrightarrow> x \<in> set (snd s) \<Longrightarrow> x \<in> set (snd s')"
  by (induction rule: life_step.induct) (simp_all add: run_startSync_def Let_def)

lemma replaced_for_ever_run: "(life_step quiet)\<^sup>*\<^sup>* s s' \<Longrightarrow> x \<in> set (snd s) \<Longrightarrow> x \<in> set (snd s')"
  by (induction rule: rtranclp_induct) (auto dest: replaced_for_ever)

lemma api_EditUpstream_ok:
  fixes env :: api_env and r :: http_request
  assumes "jd_upstream (env_json env) (rq_body r) = Some u" "EditUpstream u (api_db st) = (Inr u', db')"
  shows "api_db (snd (api_EditUpstream env r st)) = db'" "api_syncs (snd (api_EditUpstream env r st)) = api_syncs st @ [u']"
  using assms by (simp_all add: api_EditUpstream_def readJSON_def tryDB_def on_db_def ok_reply_def Let_def)

lemma store_first:
  assumes "api_syncs st = u # us"
  shows "(life_step quiet)\<^sup>*\<^sup>* (st, gone) (startSync u (st\<lparr>api_syncs := us\<rparr>), gone @ replaced (KUpstream (u_Id u)) st)"
  using life_step.store [of 0 st quiet gone] assms by (auto simp: run_startSync_def)

lemma startSync_simps [simp]:
  "api_syncs (startSync u st) = api_syncs st" "replaced (KUpstream (u_Id u)) (startSync u st) = [(u, False)]"
  "map_of (recvConnections (startSync u st)) (KUpstream (u_Id u)) = Some (UpstreamConn u False)"
  by (simp_all add: startSync_def replaced_def)

text \<open>
  C37: two edits of an upstream before the goroutine of the first has stored its state leave the server with two loops for this
  upstream. The first one, with the outdated configuration, is not in the map any more, and whatever requests
  follow, its context is never cancelled.
\<close>

theorem double_edit_leaks_loop:
  fixes env :: api_env and r r' :: http_request
  assumes "jd_upstream (env_json env) (rq_body r) = Some u" "jd_upstream (env_json env) (rq_body r') = Some u'" "u_Id u' = u_Id u"
    and "EditUpstream u (api_db st) = (Inr u, db1)" "EditUpstream u' db1 = (Inr u', db2)" "api_syncs st = []"
  shows "\<exists>st' gone'. (life_step False)\<^sup>*\<^sup>* (st, gone) (st', gone') \<and> api_syncs st' = [] \<and>
    map_of (recvConnections st') (KUpstream (u_Id u)) = Some (UpstreamConn u' False) \<and>
    (\<forall>s. (life_step False)\<^sup>*\<^sup>* (st', gone') s \<longrightarrow> (u, False) \<in> set (snd s))"
proof -
  let ?st1 = "snd (api_EditUpstream env r st)" let ?st2 = "snd (api_EditUpstream env r' ?st1)"
  have "api_db ?st1 = db1" "api_syncs ?st1 = [u]" using api_EditUpstream_ok [OF assms(1,4)] assms(6) by simp_all
  then have pending: "api_syncs ?st2 = [u, u']" using api_EditUpstream_ok [OF assms(2), of ?st1] assms(5) by simp
  have edits: "(life_step False)\<^sup>*\<^sup>* (st, gone) (?st2, gone)"
    using life_step.edit [of False st env r gone] life_step.edit [of False ?st1 env r' gone] by simp
  let ?st3 = "startSync u (?st2\<lparr>api_syncs := [u']\<rparr>)" and ?g3 = "gone @ replaced (KUpstream (u_Id u)) ?st2"
  let ?st4 = "startSync u' (?st3\<lparr>api_syncs := []\<rparr>)" and ?g4 = "?g3 @ replaced (KUpstream (u_Id u')) ?st3"
  have "(life_step False)\<^sup>*\<^sup>* (st, gone) (?st4, ?g4)"
    by (rule rtranclp_trans [OF rtranclp_trans [OF edits store_first [OF pending]] store_first]) simp
  moreover have "(u, False) \<in> set ?g4" by (simp add: assms(3))
  then have "\<forall>s. (life_step False)\<^sup>*\<^sup>* (?st4, ?g4) s \<longrightarrow> (u, False) \<in> set (snd s)"
    using replaced_for_ever_run [of False "(?st4, ?g4)"] by simp
  moreover have "map_of (recvConnections ?st4) (KUpstream (u_Id u)) = Some (UpstreamConn u' False)" "api_syncs ?st4 = []"
    unfolding assms(3) [symmetric] by simp_all
  ultimately show ?thesis by (intro exI [of _ ?st4] exI [of _ ?g4] conjI)
qed

definition old_up :: upstream where "old_up = \<lparr>u_Id = 1, u_Username = ''u'', u_Password = ''old'', u_Url = ''a''\<rparr>"
definition new_up :: upstream where "new_up = \<lparr>u_Id = 1, u_Username = ''u'', u_Password = ''new'', u_Url = ''a''\<rparr>"

definition edit_env :: api_env where
  "edit_env = demo_env\<lparr>env_json := demo_json\<lparr>jd_upstream := (\<lambda>body. if body = ''old'' then Some old_up else Some new_up)\<rparr>\<rparr>"

definition edit_request :: "string \<Rightarrow> http_request" where
  "edit_request body = (demo_request [])\<lparr>rq_body := body\<rparr>"

definition followed :: "upstream \<Rightarrow> upstream list \<Rightarrow> (conn_key, recv_conn) go_map \<Rightarrow> api_state" where
  "followed u pending conns = \<lparr>api_db = empty_db\<lparr>upstreams := [(1, row_of_upstream u)], upstreams_id_seq := 2\<rparr>, api_hub = demo_hub,
     recvConnections = conns, api_mails = [], api_syncs = pending, api_cache = (\<lambda>_. [])\<rparr>"

theorem double_edit_leaks_loop_witness:
  "\<exists>st' gone'. (life_step False)\<^sup>*\<^sup>* (followed old_up [] [], []) (st', gone') \<and>
    map_of (recvConnections st') (KUpstream 1) = Some (UpstreamConn new_up False) \<and> (old_up, False) \<in> set gone'"
proof -
  have dec: "jd_upstream (env_json edit_env) (rq_body (edit_request ''old'')) = Some old_up"
    "jd_upstream (env_json edit_env) (rq_body (edit_request ''new'')) = Some new_up"
    by (simp_all add: edit_env_def edit_request_def)
  have same: "u_Id new_up = u_Id old_up" by (simp add: new_up_def old_up_def)
  have edit: "EditUpstream old_up (api_db (followed old_up [] [])) = (Inr old_up, api_db (followed old_up [] []))"
    "EditUpstream new_up (api_db (followed old_up [] [])) = (Inr new_up, api_db (followed new_up [] []))" "api_syncs (followed old_up [] []) = []"
    by (simp_all add: EditUpstream_def followed_def upstream_taken_def sql_update_def old_up_def new_up_def)
  from double_edit_leaks_loop [OF dec same edit, of "[]"] show ?thesis
    by (auto simp: old_up_def)
qed

theorem quiet_loops_match_table_witness:
  "\<exists>st0 st gone. Init_upstreams 5 (\<lambda>_. NewSubscriber 1) (api_db (followed old_up [] [])) = Some st0 \<and>
    (life_step True)\<^sup>*\<^sup>* (st0, []) (st, gone) \<and> map_of (recvConnections st) (KUpstream 1) = Some (UpstreamConn old_up False) \<and>
    map_of (recvConnections st) (KUpstream 2) \<noteq> Some (UpstreamConn old_up False)"
proof -
  let ?db = "api_db (followed old_up [] [])"
  obtain st0 where init: "Init_upstreams 5 (\<lambda>_. NewSubscriber 1) ?db = Some st0" "api_syncs st0 = [old_up]" "api_db st0 = ?db"
    by (simp add: Init_upstreams_def GetUpstreams_def readE_def followed_def old_up_def upstream_of_row_def row_of_upstream_def)
  have wf: "wf_map (upstreams ?db)" by (simp add: followed_def wf_map_def)
  let ?st = "startSync old_up (st0\<lparr>api_syncs := []\<rparr>)"
  have run: "(life_step True)\<^sup>*\<^sup>* (st0, []) (?st, [] @ replaced (KUpstream (u_Id old_up)) st0)" using init(2) by (rule store_first)
  have rows: "upstreams (api_db ?st) = [(1, row_of_upstream old_up)]" by (simp add: startSync_def init(3)) (simp add: followed_def)
  have "map_of (recvConnections ?st) (KUpstream k) = Some (UpstreamConn old_up False) \<longleftrightarrow>
      (\<exists>row. map_of (upstreams (api_db ?st)) k = Some row \<and> old_up = upstream_of_row (k, row))" for k
    using quiet_loops_match_table [OF init(1) wf run] by simp
  then have "map_of (recvConnections ?st) (KUpstream 1) = Some (UpstreamConn old_up False)"
    "map_of (recvConnections ?st) (KUpstream 2) \<noteq> Some (UpstreamConn old_up False)"
    by (simp_all add: rows) (simp add: old_up_def upstream_of_row_def row_of_upstream_def)
  with init(1) run show ?thesis by blast
qed

end
