(* ===== verification/Forwarder.thy ===== *)
theory Forwarder
  imports SensorLine StationProto "HOL-Library.Sublist"
begin

text \<open>
  The tool \<^verbatim>\<open>uart-tcp-forward\<close>: it accepts one TCP client at a time, opens the serial port for it and copies bytes
  in both directions, from the client in the main loop and from the port in a goroutine per client. The variables
  \<open>tcpConnNew\<close> and \<open>uartConn\<close> are declared once, outside the loop, so every goroutine reads their current values;
  the model keeps them as handles that are loaded where the code loads them.
\<close>

section \<open>The port\<close>

text \<open>The modes of \<open>serial.Open\<close>; \<open>getParity\<close> is the same function as that of the station's serial lines.\<close>

datatype stop_bits = OneStopBit | OnePointFiveStopBits | TwoStopBits

record serial_mode =
  sm_BaudRate :: int
  sm_DataBits :: int
  sm_Parity :: parity
  sm_StopBits :: stop_bits

definition openSerial :: "(string \<Rightarrow> serial_mode \<Rightarrow> 'p) \<Rightarrow> string \<Rightarrow> int \<Rightarrow> int \<Rightarrow> string \<Rightarrow> 'p" where
  "openSerial serial_Open portName baudRate dataBits par =
     serial_Open portName \<lparr>sm_BaudRate = baudRate, sm_DataBits = dataBits, sm_Parity = getParity par, sm_StopBits = OneStopBit\<rparr>"

section \<open>The two loops\<close>

text \<open>
  Program counters of the main goroutine: in \<open>Accept\<close>, in the loop that opens the port, in \<open>Read\<close>, before the write of
  what was read, between the two calls of \<open>Close\<close>, after \<open>return\<close>.
\<close>

datatype main_pc = MAccept | MOpen | MRead | MWrite "byte list" | MClose | MEnded

text \<open>
  And of the goroutine of a client: before it loads \<open>uartConn\<close> for the next read, in \<open>Read\<close> on the handle it
  loaded, before the write, before each of the two calls of \<open>Close\<close>, ended.
\<close>

datatype reader_pc = RLoad | RRead nat | RForward "byte list" | RClosePort | RCloseConn | RDone

datatype handle = Conn nat | Port nat

text \<open>
  The \<open>n\<close>-th accepted connection and the \<open>n\<close>-th opened port have the handle \<open>n\<close>. \<open>fw_failed\<close> lists the reads that failed
  on a handle that was open, \<open>fw_from\<close> what the main loop read from each connection, \<open>fw_sent\<close> what reached
  each handle. \<open>fw_nil\<close> says that \<open>uartConn\<close> is nil, as it is at first and after a failed \<open>openSerial\<close>; \<open>fw_port\<close> is its handle otherwise. A goroutine
  that calls a method on it then ends the process with a panic.
\<close>

record forwarder =
  fw_conn :: nat
  fw_port :: nat
  fw_nil :: bool
  fw_main :: main_pc
  fw_readers :: "reader_pc list"
  fw_shut :: "handle \<Rightarrow> bool"
  fw_failed :: "handle list"
  fw_from :: "nat \<Rightarrow> byte list"
  fw_sent :: "handle \<Rightarrow> byte list"

definition fw_init :: forwarder where
  "fw_init = \<lparr>fw_conn = 0, fw_port = 0, fw_nil = True, fw_main = MAccept, fw_readers = [], fw_shut = (\<lambda>_. False), fw_failed = [],
     fw_from = (\<lambda>_. []), fw_sent = (\<lambda>_. [])\<rparr>"

definition shut :: "handle \<Rightarrow> forwarder \<Rightarrow> forwarder" where
  "shut h s = s\<lparr>fw_shut := (fw_shut s)(h := True)\<rparr>"

definition failed_read :: "handle \<Rightarrow> forwarder \<Rightarrow> forwarder" where
  "failed_read h s = (if fw_shut s h then s else s\<lparr>fw_failed := fw_failed s @ [h]\<rparr>)"

text \<open>A write delivers a prefix, all of it when it succeeds, nothing on a closed handle; errors are only logged.\<close>

definition write_to :: "handle \<Rightarrow> byte list \<Rightarrow> forwarder \<Rightarrow> forwarder" where
  "write_to h bs s = (if fw_shut s h then s else s\<lparr>fw_sent := (fw_sent s)(h := fw_sent s h @ bs)\<rparr>)"

definition reader :: "nat \<Rightarrow> reader_pc \<Rightarrow> forwarder \<Rightarrow> forwarder" where
  "reader i pc s = s\<lparr>fw_readers := (fw_readers s)[i := pc]\<rparr>"

definition panicked :: "forwarder \<Rightarrow> forwarder" where
  "panicked s = s\<lparr>fw_main := MEnded, fw_readers := map (\<lambda>_. RDone) (fw_readers s)\<rparr>"

definition reader_at :: "forwarder \<Rightarrow> nat \<Rightarrow> reader_pc \<Rightarrow> bool" where
  "reader_at s i pc \<longleftrightarrow> i < length (fw_readers s) \<and> fw_readers s ! i = pc"

inductive fw_step :: "forwarder \<Rightarrow> forwarder \<Rightarrow> bool" where
  accept: "fw_main s = MAccept \<Longrightarrow> fw_step s (s\<lparr>fw_conn := Suc (fw_conn s), fw_main := MOpen\<rparr>)"
| accept_fails: "fw_main s = MAccept \<Longrightarrow> fw_step s (s\<lparr>fw_main := MEnded\<rparr>)"
| open_fails: "fw_main s = MOpen \<Longrightarrow> fw_step s (s\<lparr>fw_nil := True\<rparr>)"
| open_ok: "fw_main s = MOpen \<Longrightarrow> fw_step s (s\<lparr>fw_port := Suc (fw_port s), fw_nil := False, fw_main := MRead, fw_readers := fw_readers s @ [RLoad]\<rparr>)"
| client_bytes: "\<lbrakk>fw_main s = MRead; \<not> fw_shut s (Conn (fw_conn s)); length bs \<le> 100\<rbrakk> \<Longrightarrow>
    fw_step s (s\<lparr>fw_main := MWrite bs, fw_from := (fw_from s)(fw_conn s := fw_from s (fw_conn s) @ bs)\<rparr>)"
| client_error: "fw_main s = MRead \<Longrightarrow>
    fw_step s ((shut (Port (fw_port s)) (failed_read (Conn (fw_conn s)) s))\<lparr>fw_main := MClose\<rparr>)"
| close_conn: "fw_main s = MClose \<Longrightarrow> fw_step s ((shut (Conn (fw_conn s)) s)\<lparr>fw_main := MAccept\<rparr>)"
| to_port: "fw_main s = MWrite bs \<Longrightarrow> fw_step s ((write_to (Port (fw_port s)) (take n bs) s)\<lparr>fw_main := MRead\<rparr>)"
| load_nil: "reader_at s i RLoad \<Longrightarrow> fw_nil s \<Longrightarrow> fw_step s (panicked s)"
| load_port: "reader_at s i RLoad \<Longrightarrow> \<not> fw_nil s \<Longrightarrow> fw_step s (reader i (RRead (fw_port s)) s)"
| port_bytes: "\<lbrakk>reader_at s i (RRead h); \<not> fw_shut s (Port h); length bs \<le> 100\<rbrakk> \<Longrightarrow> fw_step s (reader i (RForward bs) s)"
| port_error: "reader_at s i (RRead h) \<Longrightarrow> fw_step s (reader i RClosePort (failed_read (Port h) s))"
| to_client: "reader_at s i (RForward bs) \<Longrightarrow> fw_step s (reader i RLoad (write_to (Conn (fw_conn s)) (take n bs) s))"
| reader_close_nil: "reader_at s i RClosePort \<Longrightarrow> fw_nil s \<Longrightarrow> fw_step s (panicked s)"
| reader_close_port: "reader_at s i RClosePort \<Longrightarrow> \<not> fw_nil s \<Longrightarrow> fw_step s (reader i RCloseConn (shut (Port (fw_port s)) s))"
| reader_close_conn: "reader_at s i RCloseConn \<Longrightarrow> fw_step s (reader i RDone (shut (Conn (fw_conn s)) s))"

lemmas fw_defs = shut_def failed_read_def write_to_def reader_def

section \<open>From a client to the device\<close>

fun unwritten :: "main_pc \<Rightarrow> byte list" where
  "unwritten (MWrite bs) = bs"
| "unwritten _ = []"

definition fw_inv :: "forwarder \<Rightarrow> bool" where
  "fw_inv s \<longleftrightarrow> (fw_main s \<noteq> MEnded \<longrightarrow> fw_conn s = (if fw_main s = MOpen then Suc (fw_port s) else fw_port s)) \<and>
     (\<forall>n. subseq (fw_sent s (Port n) @ (if n = fw_port s then unwritten (fw_main s) else [])) (fw_from s n))"

lemma fw_inv_init: "fw_inv fw_init"
  by (simp add: fw_inv_def fw_init_def)

lemma subseq_take: "subseq (xs @ bs) ys \<Longrightarrow> subseq (xs @ take n bs) ys"
  by (rule subseq_order.trans [of _ "xs @ bs"]) (simp_all add: subseq_append prefix_imp_subseq take_is_prefix)

lemma reader_keeps [simp]:
  "fw_inv (reader i pc s) = fw_inv s" "fw_inv (shut h s) = fw_inv s" "fw_inv (failed_read h s) = fw_inv s"
  "fw_inv (write_to (Conn n) bs s) = fw_inv s"
  by (simp_all add: fw_inv_def fw_defs)

lemma fw_inv_write:
  assumes "fw_main s = MWrite bs" "fw_inv s"
  shows "fw_inv ((write_to (Port (fw_port s)) (take n bs) s)\<lparr>fw_main := MRead\<rparr>)"
proof -
  have "unwritten (fw_main s) = bs" using assms(1) by simp
  with assms(2) have pre: "subseq (fw_sent s (Port m) @ (if m = fw_port s then bs else [])) (fw_from s m)" for m
    unfolding fw_inv_def by blast
  have "subseq (fw_sent s (Port (fw_port s)) @ take n bs) (fw_from s (fw_port s))" using subseq_take [OF pre [of "fw_port s"], of n] by simp
  moreover have "subseq (fw_sent s (Port m)) (fw_from s m)" for m using subseq_take [OF pre [of m], of 0] by simp
  moreover have "fw_conn s = fw_port s" using assms by (simp add: fw_inv_def)
  ultimately show ?thesis by (simp add: fw_inv_def write_to_def)
qed

lemma fw_inv_idle: "unwritten (fw_main s) = [] \<Longrightarrow> fw_inv s \<longleftrightarrow>
    (fw_main s \<noteq> MEnded \<longrightarrow> fw_conn s = (if fw_main s = MOpen then Suc (fw_port s) else fw_port s)) \<and> (\<forall>n. subseq (fw_sent s (Port n)) (fw_from s n))"
proof -
  assume "unwritten (fw_main s) = []"
  then have "xs @ (if n = fw_port s then unwritten (fw_main s) else []) = xs" for xs n by simp
  then show ?thesis unfolding fw_inv_def by simp
qed

lemma fw_inv_read:
  assumes "fw_main s = MRead" "fw_inv s"
  shows "fw_inv (s\<lparr>fw_main := MWrite bs, fw_from := (fw_from s)(fw_conn s := fw_from s (fw_conn s) @ bs)\<rparr>)"
proof -
  have "fw_conn s = fw_port s" "subseq (fw_sent s (Port n)) (fw_from s n)" for n using assms by (simp_all add: fw_inv_idle)
  then show ?thesis by (simp add: fw_inv_def)
qed

lemma fw_inv_panicked: "fw_inv s \<Longrightarrow> fw_inv (panicked s)"
proof -
  assume "fw_inv s"
  then have pre: "subseq (fw_sent s (Port m) @ (if m = fw_port s then unwritten (fw_main s) else [])) (fw_from s m)" for m
    unfolding fw_inv_def by blast
  have "subseq (fw_sent s (Port m)) (fw_from s m)" for m using subseq_take [OF pre [of m], of 0] by simp
  then show ?thesis by (simp add: fw_inv_def panicked_def)
qed

lemma fw_inv_step: "fw_step s s' \<Longrightarrow> fw_inv s \<Longrightarrow> fw_inv s'"
  by (induction rule: fw_step.induct) (simp_all add: fw_inv_write fw_inv_read fw_inv_panicked, simp_all add: fw_inv_idle fw_defs)

text \<open>
  C28: on every schedule of the main loop and the goroutines of all clients, what reaches the port opened for a client is a subsequence
  of the bytes this client sent, in their order: failed writes may lose bytes, but nothing is reordered, duplicated or taken
  from another client, although the variables are shared.
\<close>

theorem device_gets_client_bytes:
  assumes "fw_step\<^sup>*\<^sup>* fw_init s"
  shows "subseq (fw_sent s (Port n)) (fw_from s n)"
proof -
  have "fw_inv s" using assms fw_inv_init by (induction rule: rtranclp_induct) (blast dest: fw_inv_step)+
  then have "subseq (fw_sent s (Port n) @ (if n = fw_port s then unwritten (fw_main s) else [])) (fw_from s n)" by (simp add: fw_inv_def)
  from subseq_take [OF this, of 0] show ?thesis by simp
qed

text \<open>The first client sends two bytes, both are written.\<close>

definition fw_opened :: forwarder where
  "fw_opened = fw_init\<lparr>fw_conn := 1, fw_port := 1, fw_nil := False, fw_main := MRead, fw_readers := [RLoad]\<rparr>"

lemma fw_opened_reached: "fw_step\<^sup>*\<^sup>* fw_init fw_opened"
proof -
  have "fw_step fw_init (fw_init\<lparr>fw_conn := 1, fw_main := MOpen\<rparr>)" using accept [of fw_init] by (simp add: fw_init_def)
  moreover have "fw_step (fw_init\<lparr>fw_conn := 1, fw_main := MOpen\<rparr>) fw_opened"
    using open_ok [of "fw_init\<lparr>fw_conn := 1, fw_main := MOpen\<rparr>"] by (simp add: fw_init_def fw_opened_def)
  ultimately show ?thesis by simp
qed

theorem device_gets_client_bytes_witness:
  "\<exists>s. fw_step\<^sup>*\<^sup>* fw_init s \<and> fw_sent s (Port 1) = [1, 2] \<and> subseq (fw_sent s (Port 1)) (fw_from s 1)"
proof -
  let ?s1 = "fw_opened\<lparr>fw_main := MWrite [1, 2], fw_from := (fw_from fw_opened)(1 := [1, 2])\<rparr>"
  let ?s2 = "?s1\<lparr>fw_main := MRead, fw_sent := (fw_sent fw_opened)(Port 1 := [1, 2])\<rparr>"
  have "fw_step fw_opened ?s1" using client_bytes [of fw_opened "[1, 2]"] by (simp add: fw_opened_def fw_init_def)
  moreover have "fw_step ?s1 ?s2" using to_port [of ?s1 "[1, 2]" 2] by (simp add: fw_opened_def fw_init_def write_to_def)
  ultimately have "fw_step\<^sup>*\<^sup>* fw_init ?s2" using fw_opened_reached by simp
  moreover have "fw_sent ?s2 (Port 1) = [1, 2]" by simp
  ultimately show ?thesis using device_gets_client_bytes [of ?s2 1] by blast
qed

section \<open>A goroutine that outlives its client\<close>

text \<open>
  When a goroutine finds out that its port was closed only after the next client has been accepted, it closes the
  connection and the port of this client: the only failure in the run is that the first client went away.
\<close>

definition fw_next :: "reader_pc \<Rightarrow> (handle \<Rightarrow> bool) \<Rightarrow> forwarder" where
  "fw_next pc closed_handles = fw_init\<lparr>fw_conn := 2, fw_port := 2, fw_nil := False, fw_main := MRead, fw_readers := [pc, RLoad],
     fw_shut := closed_handles, fw_failed := [Conn 1]\<rparr>"

lemma next_client_reached: "fw_step\<^sup>*\<^sup>* fw_opened (fw_next (RRead 1) ((fw_shut fw_init)(Port 1 := True, Conn 1 := True)))"
proof -
  let ?s1 = "fw_opened\<lparr>fw_readers := [RRead 1]\<rparr>"
  let ?s2 = "?s1\<lparr>fw_shut := (fw_shut fw_init)(Port 1 := True), fw_failed := [Conn 1], fw_main := MClose\<rparr>"
  let ?s3 = "?s2\<lparr>fw_shut := (fw_shut fw_init)(Port 1 := True, Conn 1 := True), fw_main := MAccept\<rparr>"
  let ?s4 = "?s3\<lparr>fw_conn := 2, fw_main := MOpen\<rparr>"
  note defs = fw_opened_def fw_init_def fw_next_def fw_defs reader_at_def
  have "fw_step fw_opened ?s1" using load_port [of fw_opened 0] by (simp add: defs)
  moreover have "fw_step ?s1 ?s2" using client_error [of ?s1] by (simp add: defs)
  moreover have "fw_step ?s2 ?s3" using close_conn [of ?s2] by (simp add: defs)
  moreover have "fw_step ?s3 ?s4" using accept [of ?s3] by (simp add: defs numeral_2_eq_2)
  moreover have "fw_step ?s4 (fw_next (RRead 1) ((fw_shut fw_init)(Port 1 := True, Conn 1 := True)))"
    using open_ok [of ?s4] by (simp add: defs numeral_2_eq_2)
  ultimately show ?thesis by (meson converse_rtranclp_into_rtranclp rtranclp.rtrancl_refl)
qed

theorem late_reader_closes_next_client:
  "\<exists>s. fw_step\<^sup>*\<^sup>* fw_init s \<and> fw_main s = MRead \<and> fw_conn s = 2 \<and> fw_port s = 2 \<and>
     fw_shut s (Conn 2) \<and> fw_shut s (Port 2) \<and> fw_failed s = [Conn 1]"
proof -
  let ?c = "(fw_shut fw_init)(Port 1 := True, Conn 1 := True)"
  note defs = fw_init_def fw_next_def fw_defs reader_at_def
  have "fw_step (fw_next (RRead 1) ?c) (fw_next RClosePort ?c)" using port_error [of "fw_next (RRead 1) ?c" 0 1] by (simp add: defs)
  moreover have "fw_step (fw_next RClosePort ?c) (fw_next RCloseConn (?c(Port 2 := True)))"
    using reader_close_port [of "fw_next RClosePort ?c" 0] by (simp add: defs)
  moreover have "fw_step (fw_next RCloseConn (?c(Port 2 := True))) (fw_next RDone (?c(Port 2 := True, Conn 2 := True)))"
    using reader_close_conn [of "fw_next RCloseConn (?c(Port 2 := True))" 0] by (simp add: defs)
  ultimately have "fw_step\<^sup>*\<^sup>* fw_init (fw_next RDone (?c(Port 2 := True, Conn 2 := True)))"
    using fw_opened_reached next_client_reached by (meson rtranclp.rtrancl_into_rtrancl rtranclp_trans)
  then show ?thesis by (intro exI [of _ "fw_next RDone (?c(Port 2 := True, Conn 2 := True))"]) (simp add: fw_next_def)
qed

end
