(* ===== verification/Delimited.thy ===== *)
theory Delimited
  imports StationProto "HOL-Library.Sublist"
begin

text \<open>
  The bytes under the message streams: \<open>DelimitedStream\<close> of \<^verbatim>\<open>pkg/pbstream/delimited_stream.go\<close> frames protobuf
  messages on a connection with the package \<^verbatim>\<open>protodelim\<close>. The package is a parameter; \<open>wire_laws\<close> states
  what its documentation promises. The result is the message stream of \<open>StationProto\<close> that the sessions are modelled
  on: complete messages in order, then an error.
\<close>

section \<open>The library and the connection\<close>

text \<open>\<open>UnmarshalFrom\<close> returns the result and the bytes that are left; \<open>wr_Size\<close> is the size of an encoded message.\<close>

record 'm wire =
  wr_MarshalTo :: "'m \<Rightarrow> byte list"
  wr_UnmarshalFrom :: "int \<Rightarrow> byte list \<Rightarrow> 'm result \<times> byte list"
  wr_Size :: "'m \<Rightarrow> int"

text \<open>
  A frame is read back whatever follows it, unless the message is larger than \<open>MaxSize\<close>; \<open>io.EOF\<close> is returned only when no byte
  is left, and a frame that ends early is an error.
\<close>

definition wire_laws :: "'m wire \<Rightarrow> int \<Rightarrow> bool" where
  "wire_laws w maxSize \<longleftrightarrow>
     (\<forall>m rest. wr_Size w m \<le> maxSize \<longrightarrow> wr_UnmarshalFrom w maxSize (wr_MarshalTo w m @ rest) = (Inr m, rest)) \<and>
     (\<forall>m rest. wr_Size w m > maxSize \<longrightarrow> (\<exists>e. fst (wr_UnmarshalFrom w maxSize (wr_MarshalTo w m @ rest)) = Inl e)) \<and>
     (\<forall>p. p = [] \<or> (\<exists>m. strict_prefix p (wr_MarshalTo w m)) \<longrightarrow>
        (\<exists>e. fst (wr_UnmarshalFrom w maxSize p) = Inl e \<and> (e = io_EOF \<longleftrightarrow> p = [])))"

text \<open>
  A connection: the bytes that arrive, the bytes that were written, and the outcomes of the coming writes: \<open>Some (k, e)\<close> fails
  with \<open>e\<close> after \<open>k\<close> bytes.
\<close>

record byte_conn =
  bc_in :: "byte list"
  bc_out :: "byte list"
  bc_faults :: "(nat \<times> go_error) option list"

definition conn_Write :: "byte list \<Rightarrow> (byte_conn, unit) eff" where
  "conn_Write bs c =
     (case bc_faults c of
        Some (k, e) # fs \<Rightarrow> (Inl e, c\<lparr>bc_out := bc_out c @ take k bs, bc_faults := fs\<rparr>)
      | fs \<Rightarrow> (Inr (), c\<lparr>bc_out := bc_out c @ bs, bc_faults := tl fs\<rparr>))"

section \<open>The stream\<close>

record 'm delimited_stream =
  dl_wire :: "'m wire"
  dl_recvOpt :: int

definition NewDelimitedStream :: "'m wire \<Rightarrow> int \<Rightarrow> 'm delimited_stream" where
  "NewDelimitedStream w maxFrameBytes = \<lparr>dl_wire = w, dl_recvOpt = maxFrameBytes\<rparr>"

text \<open>\<open>Send\<close> holds \<open>sendMu\<close> during the write, so it is one step of a connection that several goroutines share.\<close>

definition DelimitedStream_Send :: "'m delimited_stream \<Rightarrow> 'm \<Rightarrow> (byte_conn, unit) eff" where
  "DelimitedStream_Send s m = conn_Write (wr_MarshalTo (dl_wire s) m)"

definition DelimitedStream_Recv :: "'m delimited_stream \<Rightarrow> (byte_conn, 'm) eff" where
  "DelimitedStream_Recv s c =
     (case wr_UnmarshalFrom (dl_wire s) (dl_recvOpt s) (bc_in c) of (r, rest) \<Rightarrow> (r, c\<lparr>bc_in := rest\<rparr>))"

text \<open>Sending the messages of a list until one fails, and the results of the next \<open>n\<close> calls of \<open>Recv\<close>.\<close>

definition send_all :: "'m delimited_stream \<Rightarrow> 'm list \<Rightarrow> (byte_conn, unit) eff" where
  "send_all s ms = forE (DelimitedStream_Send s) ms"

primrec recv_results :: "'m delimited_stream \<Rightarrow> nat \<Rightarrow> byte_conn \<Rightarrow> 'm result list" where
  "recv_results s 0 c = []"
| "recv_results s (Suc n) c = (case DelimitedStream_Recv s c of (r, c') \<Rightarrow> r # recv_results s n c')"

section \<open>Messages arrive whole and in order\<close>

abbreviation frames :: "'m delimited_stream \<Rightarrow> 'm list \<Rightarrow> byte list" where
  "frames s ms \<equiv> concat (map (wr_MarshalTo (dl_wire s)) ms)"

lemma received_frames:
  assumes "wire_laws (dl_wire s) (dl_recvOpt s)" "\<forall>m \<in> set ms. wr_Size (dl_wire s) m \<le> dl_recvOpt s" "bc_in c = frames s ms @ rest"
  shows "recv_results s (length ms + n) c = map Inr ms @ recv_results s n (c\<lparr>bc_in := rest\<rparr>)"
  using assms(2,3)
proof (induction ms arbitrary: c)
  case Nil
  then have "c\<lparr>bc_in := rest\<rparr> = c" by simp
  then show ?case by simp
next
  case (Cons m ms)
  then have "DelimitedStream_Recv s c = (Inr m, c\<lparr>bc_in := frames s ms @ rest\<rparr>)"
    using assms(1) by (simp add: DelimitedStream_Recv_def wire_laws_def)
  with Cons.IH [of "c\<lparr>bc_in := frames s ms @ rest\<rparr>"] Cons.prems show ?case by simp
qed

lemma Send_cases:
  "DelimitedStream_Send s m c = (r, c') \<Longrightarrow>
     r = Inr () \<and> bc_out c' = bc_out c @ frames s [m] \<or>
     (\<exists>k e. r = Inl e \<and> bc_out c' = bc_out c @ take k (frames s [m]))"
  by (auto simp: DelimitedStream_Send_def conn_Write_def split: list.splits option.splits)

text \<open>What was written is a sequence of whole frames and at most one frame that is cut short by the error that ended it.\<close>

lemma send_all_written:
  "send_all s ms c = (r, c') \<Longrightarrow>
     (\<exists>sent rest k. ms = sent @ rest \<and> bc_out c' = bc_out c @ frames s sent @ take k (frames s (take 1 rest)) \<and> (r = Inr () \<longrightarrow> rest = []))"
proof (induction ms arbitrary: c)
  case Nil
  then show ?case by (simp add: send_all_def retE_def)
next
  case (Cons m ms)
  obtain r1 c1 where s1: "DelimitedStream_Send s m c = (r1, c1)" by fastforce
  show ?case
  proof (cases r1)
    case (Inl e)
    with s1 Cons.prems have "r = Inl e" "c' = c1" by (simp_all add: send_all_def bindE_def)
    with Send_cases [OF s1] Inl show ?thesis by (intro exI [of _ "[]"] exI [of _ "m # ms"]) auto
  next
    case (Inr x)
    with s1 Cons.prems have "send_all s ms c1 = (r, c')" by (simp add: send_all_def bindE_def)
    from Cons.IH [OF this] obtain sent rest k where "ms = sent @ rest"
      "bc_out c' = bc_out c1 @ frames s sent @ take k (frames s (take 1 rest))" "r = Inr () \<longrightarrow> rest = []" by blast
    with Send_cases [OF s1] Inr show ?thesis by (intro exI [of _ "m # sent"] exI [of _ rest] exI [of _ k]) auto
  qed
qed

text \<open>What a reader gets after complete messages.\<close>

lemma received_then_error:
  assumes "wire_laws (dl_wire s) (dl_recvOpt s)" "\<forall>m \<in> set ms. wr_Size (dl_wire s) m \<le> dl_recvOpt s" "bc_in c = frames s ms @ rest"
    and "fst (wr_UnmarshalFrom (dl_wire s) (dl_recvOpt s) rest) = Inl e"
  shows "recv_results s (length ms + 1) c = map Inr ms @ [Inl e]"
proof -
  obtain left_over where "wr_UnmarshalFrom (dl_wire s) (dl_recvOpt s) rest = (Inl e, left_over)" using assms(4) by (metis prod.collapse)
  then have "recv_results s 1 (c\<lparr>bc_in := rest\<rparr>) = [Inl e]" by (simp add: DelimitedStream_Recv_def)
  with received_frames [OF assms(1-3), of 1] show ?thesis by simp
qed

definition fits :: "'m delimited_stream \<Rightarrow> 'm \<Rightarrow> bool" where
  "fits s m \<longleftrightarrow> wr_Size (dl_wire s) m \<le> dl_recvOpt s"

lemma too_large_error:
  assumes "wire_laws (dl_wire s) (dl_recvOpt s)" "\<not> fits s m"
  obtains e where "fst (wr_UnmarshalFrom (dl_wire s) (dl_recvOpt s) (wr_MarshalTo (dl_wire s) m @ rest)) = Inl e"
  using assms unfolding wire_laws_def fits_def not_le by blast

lemma end_of_input:
  assumes "wire_laws (dl_wire s) (dl_recvOpt s)"
  shows "fst (wr_UnmarshalFrom (dl_wire s) (dl_recvOpt s) []) = Inl io_EOF"
  using assms by (auto simp: wire_laws_def)

text \<open>The part of a frame that a failed write left behind: the reader takes it as the whole message or gets an error.\<close>

lemma last_write:
  assumes laws: "wire_laws (dl_wire s) (dl_recvOpt s)" and ok: "\<forall>m \<in> set ms. fits s m"
    and c: "bc_in c = frames s ms @ take k (wr_MarshalTo (dl_wire s) m)"
  shows "\<exists>got e. (got = ms \<or> got = ms @ [m] \<and> fits s m) \<and> recv_results s (length got + 1) c = map Inr got @ [Inl e]"
proof (cases "k < length (wr_MarshalTo (dl_wire s) m)")
  case True
  then have "strict_prefix (take k (wr_MarshalTo (dl_wire s) m)) (wr_MarshalTo (dl_wire s) m)"
    by (simp add: strict_prefix_def take_is_prefix)
  with laws obtain e where "fst (wr_UnmarshalFrom (dl_wire s) (dl_recvOpt s) (take k (wr_MarshalTo (dl_wire s) m))) = Inl e"
    unfolding wire_laws_def by blast
  with received_then_error [OF laws _ c] ok show ?thesis by (auto simp: fits_def)
next
  case whole: False
  show ?thesis
  proof (cases "fits s m")
    case True
    with received_then_error [OF laws, of "ms @ [m]" c "[]"] end_of_input [OF laws] whole ok c
    show ?thesis by (intro exI [of _ "ms @ [m]"]) (auto simp: fits_def)
  next
    case False
    obtain e where "fst (wr_UnmarshalFrom (dl_wire s) (dl_recvOpt s) (wr_MarshalTo (dl_wire s) m @ [])) = Inl e"
      using too_large_error [OF laws False] .
    with received_then_error [OF laws _ c] ok whole show ?thesis by (auto simp: fits_def)
  qed
qed

text \<open>
  C26: over a connection whose writes may fail at any byte, the peer of a stream receives a prefix of the sent messages, whole and in
  order, and then an error. When no write fails it receives all of them and then the end of the input, or the messages before the
  first one that is larger than the receiver's limit; the sender does not check the limit.
\<close>

theorem stream_delivers_prefix:
  assumes "wire_laws w maxFrameBytes" "send_all (NewDelimitedStream w maxFrameBytes) ms c = (r, c')" "bc_out c = []" "bc_in peer = bc_out c'"
  shows "\<exists>got rest e. ms = got @ rest \<and> (\<forall>m \<in> set got. wr_Size w m \<le> maxFrameBytes) \<and>
    recv_results (NewDelimitedStream w maxFrameBytes) (length got + 1) peer = map Inr got @ [Inl e] \<and>
    (r = Inr () \<longrightarrow> (case rest of [] \<Rightarrow> e = io_EOF | m # _ \<Rightarrow> maxFrameBytes < wr_Size w m))"
proof -
  define s where "s = NewDelimitedStream w maxFrameBytes"
  have w: "dl_wire s = w" "dl_recvOpt s = maxFrameBytes" by (simp_all add: s_def NewDelimitedStream_def)
  then have laws: "wire_laws (dl_wire s) (dl_recvOpt s)" using assms(1) by simp
  obtain sent rest k where sent: "ms = sent @ rest" "bc_in peer = frames s sent @ take k (frames s (take 1 rest))" "r = Inr () \<longrightarrow> rest = []"
    using send_all_written [OF assms(2)] assms(3,4) by (auto simp: s_def)
  let ?a = "takeWhile (fits s) sent"
  have a: "\<forall>m \<in> set ?a. fits s m" by (auto dest: set_takeWhileD)
  show ?thesis
  proof (cases "dropWhile (fits s) sent")
    case Nil
    then have all: "?a = sent" by (metis append_Nil2 takeWhile_dropWhile_id)
    show ?thesis
    proof (cases rest)
      case Nil
      with received_then_error [OF laws, of sent peer "[]"] end_of_input [OF laws] sent a all show ?thesis
        by (intro exI [of _ sent] exI [of _ "[]"] exI [of _ io_EOF]) (simp add: fits_def w flip: s_def)
    next
      case (Cons m rest')
      then have "bc_in peer = frames s sent @ take k (wr_MarshalTo (dl_wire s) m)" using sent(2) by simp
      from last_write [OF laws _ this] a all obtain got e where
        "got = sent \<or> got = sent @ [m] \<and> fits s m" "recv_results s (length got + 1) peer = map Inr got @ [Inl e]" by auto
      with sent Cons a all show ?thesis
        by (intro exI [of _ got] exI [of _ "drop (length got) ms"] exI [of _ e]) (auto simp: fits_def w simp flip: s_def)
    qed
  next
    case (Cons m b)
    then have split: "sent = ?a @ m # b" and big: "\<not> fits s m" by (metis takeWhile_dropWhile_id, metis dropWhile_eq_Cons_conv)
    then have "bc_in peer = frames s ?a @ wr_MarshalTo (dl_wire s) m @ frames s b @ take k (frames s (take 1 rest))"
      using sent(2) by (metis append.assoc concat.simps(2) concat_append list.simps(9) map_append)
    moreover obtain e where "fst (wr_UnmarshalFrom (dl_wire s) (dl_recvOpt s) (wr_MarshalTo (dl_wire s) m @ frames s b @ take k (frames s (take 1 rest)))) = Inl e"
      using too_large_error [OF laws big] .
    ultimately have "recv_results s (length ?a + 1) peer = map Inr ?a @ [Inl e]"
      using received_then_error [OF laws] a by (auto simp: fits_def)
    then show ?thesis
      using sent(1) split a big by (intro exI [of _ ?a] exI [of _ "m # b @ rest"] exI [of _ e]) (simp add: fits_def w flip: s_def)
  qed
qed

text \<open>A unary format for numbers has the promised behaviour; the last message of three is too large for the receiver.\<close>

definition unary_wire :: "nat wire" where
  "unary_wire = \<lparr>wr_MarshalTo = (\<lambda>n. replicate n 1 @ [0]),
     wr_UnmarshalFrom = (\<lambda>maxSize bs. case dropWhile (\<lambda>b. b = 1) bs of
        [] \<Rightarrow> (Inl (if bs = [] then io_EOF else ErrorString ''unexpected EOF''), [])
      | _ # r \<Rightarrow> let n = length (takeWhile (\<lambda>b. b = 1) bs) in
          if int n > maxSize then (Inl (ErrorString ''size too large''), r) else (Inr n, r)),
     wr_Size = int\<rparr>"

lemma unary_prefix: "strict_prefix p (replicate n (1 :: byte) @ [0]) \<Longrightarrow> set p \<subseteq> {1}"
  by (auto simp: strict_prefix_def prefix_append prefix_Cons dest!: set_mono_prefix split: if_splits)

lemma unary_wire_laws: "wire_laws unary_wire maxSize"
proof -
  have drop: "dropWhile (\<lambda>b. b = 1) (replicate n (1 :: byte) @ 0 # r) = 0 # r" "takeWhile (\<lambda>b. b = 1) (replicate n (1 :: byte) @ 0 # r) = replicate n 1" for n r
    by (induction n) simp_all
  have "fst (wr_UnmarshalFrom unary_wire maxSize p) = Inl (if p = [] then io_EOF else ErrorString ''unexpected EOF'')"
    if "p = [] \<or> (\<exists>n. strict_prefix p (wr_MarshalTo unary_wire n))" for p
  proof -
    have "dropWhile (\<lambda>b. b = 1) p = []" using that unary_prefix [of p] by (auto simp: unary_wire_def dropWhile_eq_Nil_conv)
    then show ?thesis by (simp add: unary_wire_def del: dropWhile_eq_Nil_conv)
  qed
  then have "\<exists>e. fst (wr_UnmarshalFrom unary_wire maxSize p) = Inl e \<and> (e = io_EOF \<longleftrightarrow> p = [])"
    if "p = [] \<or> (\<exists>m. strict_prefix p (wr_MarshalTo unary_wire m))" for p
    using that by (simp add: io_EOF_def)
  moreover have "wr_UnmarshalFrom unary_wire maxSize (wr_MarshalTo unary_wire m @ rest) =
      (if int m > maxSize then Inl (ErrorString ''size too large'') else Inr m, rest)" for m rest
    by (simp add: unary_wire_def drop)
  moreover have "wr_Size unary_wire m = int m" for m by (simp add: unary_wire_def)
  ultimately show ?thesis by (simp add: wire_laws_def)
qed

theorem stream_delivers_prefix_witness:
  "recv_results (NewDelimitedStream unary_wire 4) 3 \<lparr>bc_in = [1, 0, 1, 1, 1, 0, 1, 1, 1, 1, 1, 0], bc_out = [], bc_faults = []\<rparr> ! 1 = Inr 3"
proof -
  let ?c = "\<lparr>bc_in = [], bc_out = [], bc_faults = []\<rparr>" and ?bs = "[1, 0, 1, 1, 1, 0, 1, 1, 1, 1, 1, 0] :: byte list"
  have "send_all (NewDelimitedStream unary_wire 4) [1, 3, 5] ?c = (Inr (), ?c\<lparr>bc_out := ?bs\<rparr>)"
    by (simp add: send_all_def DelimitedStream_Send_def conn_Write_def NewDelimitedStream_def unary_wire_def bindE_def retE_def numeral_eq_Suc)
  from stream_delivers_prefix [OF unary_wire_laws this, of "\<lparr>bc_in = ?bs, bc_out = [], bc_faults = []\<rparr>"]
  obtain got rest e where got: "[1, 3, 5] = got @ rest" "\<forall>m \<in> set got. wr_Size unary_wire m \<le> 4"
    "recv_results (NewDelimitedStream unary_wire 4) (length got + 1) \<lparr>bc_in = ?bs, bc_out = [], bc_faults = []\<rparr> = map Inr got @ [Inl e]"
    "case rest of [] \<Rightarrow> e = io_EOF | m # _ \<Rightarrow> 4 < wr_Size unary_wire m" by auto
  then have "got = [1, 3]" by (auto simp: unary_wire_def Cons_eq_append_conv split: list.splits)
  with got(3) show ?thesis by (simp add: numeral_eq_Suc)
qed

end
