(* ===== verification/Startup.thy ===== *)
theory Startup
  imports DeviceSetup DiskClean
begin

text \<open>
  The start of the station: the connection registry, \<open>Init\<close> and the first loop of \<open>addDevices\<close> of
  \<^verbatim>\<open>tide_client/controller/common.go\<close> over the constructors of \<open>DeviceSetup\<close>, the clean-up of \<open>DiskClean\<close> and the
  checks of \<open>ClientIngest\<close>. A station that comes up can store every reading its jobs deliver.
\<close>

section \<open>Connection types\<close>

datatype conn_kind = KTcp | KUart | KI2c | KGpio

text \<open>\<open>Inl\<close> is a panic; \<open>None\<close> stands for the nil interface.\<close>

definition RegisterConn :: "string \<Rightarrow> 'c option \<Rightarrow> (string, 'c) go_map \<Rightarrow> (string, 'c) go_map result" where
  "RegisterConn name d reg =
     (case d of
        None \<Rightarrow> Inl (ErrorString ''Register device is nil'')
      | Some c \<Rightarrow> if map_of reg name \<noteq> None then Inl (ErrorString (''Register called twice for device '' @ name))
          else Inr (AList.update name c reg))"

definition GetRegConn :: "string \<Rightarrow> (string, 'c) go_map \<Rightarrow> 'c option" where
  "GetRegConn name reg = map_of reg name"

fun register_all :: "(string \<times> 'c) list \<Rightarrow> (string, 'c) go_map \<Rightarrow> (string, 'c) go_map result" where
  "register_all [] reg = Inr reg"
| "register_all ((name, c) # cs) reg = (case RegisterConn name (Some c) reg of Inl e \<Rightarrow> Inl e | Inr reg' \<Rightarrow> register_all cs reg')"

text \<open>The \<open>init\<close> functions of the package run in the order of their file names.\<close>

definition connReg :: "(string, conn_kind) go_map result" where
  "connReg = register_all [(''gpio'', KGpio), (''i2c'', KI2c), (''tcp'', KTcp), (''uart'', KUart)] []"

lemma connReg_eq: "connReg = Inr [(''gpio'', KGpio), (''i2c'', KI2c), (''tcp'', KTcp), (''uart'', KUart)]"
  by (simp add: connReg_def RegisterConn_def)

section \<open>Adding the devices\<close>

record start_env =
  sv_ReadFile :: "string \<Rightarrow> string result"
  sv_Unmarshal :: "conn_kind \<Rightarrow> string \<Rightarrow> conn_conf result"
  sv_setup :: setup_env

fun add_files :: "start_env \<Rightarrow> conn_kind \<Rightarrow> string list \<Rightarrow> info \<Rightarrow> info setup_op" where
  "add_files e kind [] dst = retE dst"
| "add_files e kind (filename # files) dst =
     bindE (liftR (sv_ReadFile e filename)) (\<lambda>rawConf.
     bindE (liftR (sv_Unmarshal e kind rawConf)) (\<lambda>c.
     bindE (new_conn (sv_setup e) c) (\<lambda>subInfo. bindE (merge_info dst subInfo) (add_files e kind files))))"

definition err_conn_type :: go_error where "err_conn_type = ErrorString ''interface conversion: interface is nil''"

fun add_conns :: "start_env \<Rightarrow> (string, conn_kind) go_map \<Rightarrow> (string \<times> string list) list \<Rightarrow> info \<Rightarrow> info setup_op" where
  "add_conns e reg [] dst = retE dst"
| "add_conns e reg ((connType, files) # rest) dst =
     (case GetRegConn connType reg of
        None \<Rightarrow> throwE err_conn_type
      | Some kind \<Rightarrow> bindE (add_files e kind files dst) (add_conns e reg rest))"

text \<open>On success the loop is that of \<open>setup_devices\<close> over the decoded files.\<close>

lemma add_files_setup:
  "add_files e kind files dst st = (Inr dst', st') \<Longrightarrow> \<exists>cs. length cs = length files \<and> setup_devices (sv_setup e) cs dst st = (Inr dst', st')"
proof (induction files arbitrary: dst st)
  case (Cons f files)
  then obtain raw c i st1 dst1 st2 where "new_conn (sv_setup e) c st = (Inr i, st1)" "merge_info dst i st1 = (Inr dst1, st2)"
    "add_files e kind files dst1 st2 = (Inr dst', st')" by (auto elim!: bindE_cases simp: liftR_def)
  moreover from Cons.IH [OF this(3)] obtain cs where "length cs = length files" "setup_devices (sv_setup e) cs dst1 st2 = (Inr dst', st')" by blast
  ultimately show ?case by (intro exI [of _ "c # cs"]) (simp add: bindE_def)
qed (simp add: retE_def)

lemma setup_devices_append:
  "setup_devices env (cs @ ds) dst st = bindE (setup_devices env cs dst) (setup_devices env ds) st"
  by (induction cs arbitrary: dst st) (auto simp: bindE_def retE_def split: prod.split sum.split)

lemma add_conns_setup:
  "add_conns e reg confs dst st = (Inr dst', st') \<Longrightarrow> \<exists>cs. setup_devices (sv_setup e) cs dst st = (Inr dst', st')"
proof (induction confs arbitrary: dst st)
  case Nil
  then show ?case by (intro exI [of _ "[]"]) simp
next
  case (Cons x confs)
  obtain t files where x: "x = (t, files)" by fastforce
  with Cons.prems obtain kind where "GetRegConn t reg = Some kind" by (auto simp: throwE_def split: option.splits)
  with Cons.prems x obtain dst1 st1 where 1: "add_files e kind files dst st = (Inr dst1, st1)" "add_conns e reg confs dst1 st1 = (Inr dst', st')"
    by (auto elim!: bindE_cases)
  from add_files_setup [OF 1(1)] Cons.IH [OF 1(2)] obtain cs ds where
    "setup_devices (sv_setup e) cs dst st = (Inr dst1, st1)" "setup_devices (sv_setup e) ds dst1 st1 = (Inr dst', st')" by blast
  then show ?case by (intro exI [of _ "cs @ ds"]) (simp add: setup_devices_append bindE_def)
qed

section \<open>Every job ranges over items of the station\<close>

abbreviation refs :: "info \<Rightarrow> nat set" where "refs i \<equiv> snd ` set i"

definition ref_names :: "devices_state \<Rightarrow> nat set \<Rightarrow> string set" where
  "ref_names st R = (\<Union>r \<in> R. snd ` set (su_maps st r))"

fun job_names :: "devices_state \<Rightarrow> sched \<Rightarrow> string set" where
  "job_names st (ItemsJob _ r) = snd ` set (su_maps st r)"
| "job_names st (OneItemJob _ n) = {n}"

definition sent_names :: "devices_state \<Rightarrow> string set" where
  "sent_names st = id_ItemName ` set (concat (su_sent st))"

definition covered :: "nat set \<Rightarrow> devices_state \<Rightarrow> bool" where
  "covered R st \<longleftrightarrow> (\<forall>j \<in> set (su_jobs st). job_names st j \<subseteq> ref_names st R) \<and> sent_names st \<subseteq> ref_names st R \<and>
     (\<forall>r \<in> set (job_refs (su_jobs st)). r < su_next st)"

lemma job_refs_mem: "r \<in> set (job_refs js) \<longleftrightarrow> (\<exists>c. ItemsJob c r \<in> set js)"
  by (induction js) (auto simp: job_refs_def List.map_filter_def split: sched.splits)

lemma job_names_cong: "su_maps st' = su_maps st \<Longrightarrow> job_names st' j = job_names st j"
  by (cases j) simp_all

lemma insert_items_names:
  "forE (insert_item d) its st = (Inr u, st') \<Longrightarrow> su_next st' = su_next st \<and> su_jobs st' = su_jobs st \<and> su_sent st' = su_sent st \<and>
     (\<forall>x. x \<noteq> d \<longrightarrow> su_maps st' x = su_maps st x) \<and> snd ` set (su_maps st' d) = snd ` set (su_maps st d) \<union> snd ` set its"
proof (induction its arbitrary: st)
  case (Cons it its)
  then obtain st1 where it: "insert_item d it st = (Inr (), st1)" and run1: "forE (insert_item d) its st1 = (Inr u, st')"
    by (auto elim!: bindE_cases)
  then have new: "map_of (su_maps st d) (fst it) = None"
    and run: "forE (insert_item d) its (st\<lparr>su_maps := (su_maps st)(d := AList.update (fst it) (snd it) (su_maps st d))\<rparr>) = (Inr u, st')"
    by (auto simp: insert_item_def exit_with_def split: if_splits)
  from new have "AList.update (fst it) (snd it) (su_maps st d) = su_maps st d @ [(fst it, snd it)]"
    by (intro update_absent) (simp add: map_of_eq_None_iff)
  with Cons.IH [OF run] show ?case by auto
qed (simp add: retE_def)

text \<open>Merging keeps all names and changes only maps that the result refers to.\<close>

definition merged :: "info \<Rightarrow> info \<Rightarrow> devices_state \<Rightarrow> info \<Rightarrow> devices_state \<Rightarrow> bool" where
  "merged dst src st dst' st' \<longleftrightarrow> su_next st' = su_next st \<and> su_jobs st' = su_jobs st \<and> su_sent st' = su_sent st \<and>
     refs dst \<subseteq> refs dst' \<and> refs dst' \<subseteq> refs dst \<union> refs src \<and> (\<forall>x. x \<notin> refs dst' \<longrightarrow> su_maps st' x = su_maps st x) \<and>
     (\<forall>x. snd ` set (su_maps st x) \<subseteq> snd ` set (su_maps st' x)) \<and> ref_names st (refs dst \<union> refs src) \<subseteq> ref_names st' (refs dst')"

lemma ref_names_mono: "(\<And>x. snd ` set (su_maps st x) \<subseteq> snd ` set (su_maps st' x)) \<Longrightarrow> R \<subseteq> R' \<Longrightarrow> ref_names st R \<subseteq> ref_names st' R'"
  unfolding ref_names_def by (rule UN_mono)

lemma ref_names_Un [simp]: "ref_names st (R \<union> R') = ref_names st R \<union> ref_names st R'"
  by (simp add: ref_names_def)

lemma ref_names_insert [simp]: "ref_names st (insert r R) = snd ` set (su_maps st r) \<union> ref_names st R" "ref_names st {} = {}"
  by (simp_all add: ref_names_def)

lemma merge_device_refs_merged: "merge_device_refs src dst st = (Inr dst', st') \<Longrightarrow> merged dst src st dst' st'"
proof (induction src dst st rule: merge_device_refs.induct)
  case (2 d r src dst st)
  have g: "d \<noteq> []" "su_maps st r \<noteq> []" using "2.prems" by (auto simp: exit_with_def split: if_splits)
  show ?case
  proof (cases "map_of dst d")
    case None
    with g "2.prems" have run: "merge_device_refs src (AList.update d r dst) st = (Inr dst', st')" by simp
    have "AList.update d r dst = dst @ [(d, r)]" using None by (intro update_absent) (simp add: map_of_eq_None_iff)
    with "2.IH"(1) [OF g None run] show ?thesis by (simp add: merged_def Un_ac)
  next
    case (Some t)
    with g "2.prems" obtain u st1 where ins: "forE (insert_item t) (su_maps st r) st = (Inr u, st1)"
      and run: "merge_device_refs src dst st1 = (Inr dst', st')" by (auto elim!: bindE_cases)
    note i = insert_items_names [OF ins]
    have t: "t \<in> refs dst" using Some by (force dest: map_of_SomeD)
    have m: "merged dst src st1 dst' st'" using "2.IH"(2) [OF g Some] ins run by blast
    have grow: "snd ` set (su_maps st x) \<subseteq> snd ` set (su_maps st1 x)" for x using i by (cases "x = t") auto
    have "snd ` set (su_maps st r) \<subseteq> snd ` set (su_maps st1 t)" using i by simp
    also have "\<dots> \<subseteq> ref_names st1 (refs dst)" using t unfolding ref_names_def by (rule UN_upper)
    finally have src: "snd ` set (su_maps st r) \<subseteq> ref_names st1 (refs dst)" .
    have "ref_names st (refs dst) \<subseteq> ref_names st1 (refs dst)" "ref_names st (refs src) \<subseteq> ref_names st1 (refs src)"
      by (rule ref_names_mono [OF grow], simp)+
    with src have "ref_names st (refs dst \<union> refs ((d, r) # src)) \<subseteq> ref_names st1 (refs dst \<union> refs src)"
      by (simp add: le_supI1 le_supI2)
    also have "\<dots> \<subseteq> ref_names st' (refs dst')" using m by (simp only: merged_def)
    finally have "ref_names st (refs dst \<union> refs ((d, r) # src)) \<subseteq> ref_names st' (refs dst')" .
    moreover have "snd ` set (su_maps st x) \<subseteq> snd ` set (su_maps st' x)" for x using grow m unfolding merged_def by (meson order_trans)
    moreover have "su_maps st' x = su_maps st x" if "x \<notin> refs dst'" for x
    proof -
      have "x \<noteq> t" using that t m unfolding merged_def by blast
      with that i m show ?thesis by (simp add: merged_def)
    qed
    moreover have "refs dst' \<subseteq> refs dst \<union> refs ((d, r) # src)" using m unfolding merged_def by auto
    ultimately show ?thesis using m i by (simp add: merged_def)
  qed
qed (simp add: merged_def)

lemma merge_info_merged: "merge_info dst src st = (Inr dst', st') \<Longrightarrow> merged dst src st dst' st'"
  by (auto simp: merge_info_def liftR_def exit_with_def intro: merge_device_refs_merged split: if_splits)

lemma covered_merge:
  assumes "covered (R \<union> refs dst \<union> refs src) st" "merged dst src st dst' st'"
  shows "covered (R \<union> refs dst') st'"
proof -
  have grow: "snd ` set (su_maps st x) \<subseteq> snd ` set (su_maps st' x)" for x using assms(2) by (simp add: merged_def)
  have "ref_names st R \<subseteq> ref_names st' R" using grow by (rule ref_names_mono) simp
  then have all: "ref_names st (R \<union> refs dst \<union> refs src) \<subseteq> ref_names st' (R \<union> refs dst')"
    using assms(2) by (simp add: merged_def le_supI1 le_supI2)
  have jobs: "job_names st j \<subseteq> ref_names st' (R \<union> refs dst')" if "j \<in> set (su_jobs st)" for j
    using assms(1) that by (intro order_trans [OF _ all]) (simp only: covered_def)
  have "job_names st' j \<subseteq> ref_names st' (R \<union> refs dst')" if "j \<in> set (su_jobs st)" for j
  proof (cases j)
    case (ItemsJob c r)
    have "su_maps st' r = su_maps st r" if "r \<notin> refs dst'" using assms(2) that by (simp add: merged_def)
    moreover have "job_names st' j \<subseteq> ref_names st' (refs dst')" if "r \<in> refs dst'" using ItemsJob that by (force simp: ref_names_def)
    ultimately show ?thesis using ItemsJob jobs [OF \<open>j \<in> set (su_jobs st)\<close>] by (cases "r \<in> refs dst'") auto
  next
    case (OneItemJob c n)
    then have "job_names st' j = job_names st j" by simp
    with jobs [OF that] show ?thesis by simp
  qed
  moreover have "sent_names st' = sent_names st" using assms(2) by (simp add: merged_def sent_names_def)
  then have "sent_names st' \<subseteq> ref_names st' (R \<union> refs dst')" using assms(1) all unfolding covered_def by (metis order_trans)
  ultimately show ?thesis using assms by (simp add: covered_def merged_def)
qed

text \<open>
  \<open>live b R i st\<close>: the jobs range over items of the maps in \<open>R\<close> and in the device map \<open>i\<close> under construction, whose maps are
  the ones from \<open>b\<close> on. A constructor leaves the older maps as they are.
\<close>

definition live :: "nat \<Rightarrow> nat set \<Rightarrow> info \<Rightarrow> devices_state \<Rightarrow> bool" where
  "live b R i st \<longleftrightarrow> covered (R \<union> refs i) st \<and> R \<subseteq> {..<b} \<and> refs i \<subseteq> {b..<su_next st} \<and> b \<le> su_next st"

definition later :: "nat \<Rightarrow> devices_state \<Rightarrow> devices_state \<Rightarrow> bool" where
  "later b st st' \<longleftrightarrow> su_next st \<le> su_next st' \<and> (\<forall>r < b. su_maps st' r = su_maps st r)"

definition constructs :: "info setup_op \<Rightarrow> bool" where
  "constructs m \<longleftrightarrow> (\<forall>R st i st'. live (su_next st) R [] st \<and> m st = (Inr i, st') \<longrightarrow> live (su_next st) R i st' \<and> later (su_next st) st st')"

definition extends_info :: "(info \<Rightarrow> info setup_op) \<Rightarrow> bool" where
  "extends_info f \<longleftrightarrow> (\<forall>b R dst st dst' st'. live b R dst st \<and> f dst st = (Inr dst', st') \<longrightarrow> live b R dst' st' \<and> later b st st')"

lemma extends_ret: "extends_info retE"
  by (simp add: extends_info_def retE_def later_def)

lemma later_trans: "later b st st1 \<Longrightarrow> later b st1 st2 \<Longrightarrow> later b st st2"
  by (auto simp: later_def)

lemma extends_bind: "extends_info f \<Longrightarrow> extends_info g \<Longrightarrow> extends_info (\<lambda>dst. bindE (f dst) g)"
  unfolding extends_info_def by (blast elim!: bindE_cases dest: later_trans)

lemma constructs_loop: "extends_info f \<Longrightarrow> constructs (f [])"
  by (simp add: constructs_def extends_info_def)

lemma constructs_throw: "constructs (throwE e)"
  by (simp add: constructs_def throwE_def)

lemma constructs_lift: "constructs m \<Longrightarrow> constructs (bindE (liftR r) (\<lambda>_. m))"
  unfolding constructs_def by (auto elim!: bindE_cases simp: liftR_def)

lemma live_merge:
  assumes "live (su_next st) (R \<union> refs dst) i st1" "later (su_next st) st st1" "live b R dst st" "merged dst i st1 dst' st2"
  shows "live b R dst' st2 \<and> later b st st2"
proof -
  have cov: "covered (R \<union> refs dst') st2" using assms(1) by (intro covered_merge [OF _ assms(4)]) (simp add: live_def)
  have ord: "su_next st2 = su_next st1" "su_next st \<le> su_next st1" "b \<le> su_next st"
    using assms(2,3,4) by (simp_all add: live_def merged_def later_def)
  have "refs dst' \<subseteq> refs dst \<union> refs i" using assms(4) by (simp only: merged_def)
  also have "\<dots> \<subseteq> {b..<su_next st} \<union> {su_next st..<su_next st1}" using assms(1,3) unfolding live_def by (intro Un_mono) simp_all
  also have "\<dots> \<subseteq> {b..<su_next st2}" using ord by auto
  finally have sub: "refs dst' \<subseteq> {b..<su_next st2}" .
  have "su_maps st2 r = su_maps st r" if "r < b" for r
  proof -
    have "r \<notin> refs dst'" using that sub by auto
    then have "su_maps st2 r = su_maps st1 r" using assms(4) by (simp add: merged_def)
    with that ord(3) assms(2) show ?thesis by (simp add: later_def)
  qed
  then show ?thesis using assms(3) cov ord sub by (simp add: live_def later_def)
qed

lemma constructs_merge:
  assumes "constructs m"
  shows "extends_info (\<lambda>dst. bindE m (merge_info dst))"
  unfolding extends_info_def
proof (intro allI impI, elim conjE)
  fix b R dst st dst' st'
  assume live: "live b R dst st" and run: "bindE m (merge_info dst) st = (Inr dst', st')"
  from run obtain i st1 where m: "m st = (Inr i, st1)" "merge_info dst i st1 = (Inr dst', st')" by (auto elim!: bindE_cases)
  have "live (su_next st) (R \<union> refs dst) [] st" using live by (auto simp: live_def)
  with assms m(1) have "live (su_next st) (R \<union> refs dst) i st1" "later (su_next st) st st1" unfolding constructs_def by blast+
  from live_merge [OF this live merge_info_merged [OF m(2)]] show "live b R dst' st' \<and> later b st st'" .
qed

text \<open>A driver: one new map, jobs over its items, readings of its items.\<close>

lemma live_leaf:
  assumes "live (su_next st) R [] st" "su_maps st' = (su_maps st)(su_next st := its)" "su_next st' = Suc (su_next st)"
    "su_jobs st' = su_jobs st @ js" "\<forall>j \<in> set js. case j of ItemsJob _ r \<Rightarrow> r = su_next st | OneItemJob _ n \<Rightarrow> n \<in> snd ` set its"
    "su_sent st' = su_sent st @ bs" "\<forall>x \<in> set (concat bs). id_ItemName x \<in> snd ` set its"
  shows "live (su_next st) R [(d, su_next st)] st' \<and> later (su_next st) st st'"
proof -
  have cov: "covered R st" and R: "R \<subseteq> {..<su_next st}" using assms(1) by (simp_all add: live_def)
  have "su_maps st' r = su_maps st r" if "r \<in> R" for r using that R by (auto simp: assms(2))
  then have names: "ref_names st' R = ref_names st R" by (simp add: ref_names_def)
  have old: "job_names st' j \<subseteq> ref_names st R" if "j \<in> set (su_jobs st)" for j
  proof (cases j)
    case (ItemsJob c r)
    then have "r < su_next st" using cov that by (auto simp: covered_def job_refs_mem)
    then have "job_names st' j = job_names st j" using ItemsJob by (simp add: assms(2))
    with cov that show ?thesis by (simp add: covered_def)
  next
    case (OneItemJob c n)
    then have "job_names st' j = job_names st j" by simp
    with cov that show ?thesis by (simp add: covered_def)
  qed
  have "job_names st' j \<subseteq> snd ` set its" if "j \<in> set js" for j
    using bspec [OF assms(5) that] by (cases j) (simp_all add: assms(2))
  with old have "\<forall>j \<in> set (su_jobs st'). job_names st' j \<subseteq> snd ` set its \<union> ref_names st R"
    by (auto simp: assms(4) intro: le_supI1 le_supI2)
  moreover have "sent_names st' = sent_names st \<union> id_ItemName ` set (concat bs)" by (simp add: sent_names_def assms(6) image_Un)
  then have "sent_names st' \<subseteq> snd ` set its \<union> ref_names st R" using cov assms(7) by (auto simp: covered_def)
  moreover have "\<forall>r \<in> set (job_refs (su_jobs st')). r < su_next st'"
    using cov assms(5) by (auto simp: covered_def job_refs_mem assms(3,4) less_Suc_eq split: sched.splits)
  ultimately show ?thesis using R by (simp add: live_def later_def covered_def names assms(2,3))
qed

lemma constructs_items: "constructs (items_device env provide d cron its)"
  unfolding constructs_def
proof (intro allI impI, elim conjE)
  fix R st i st'
  assume live: "live (su_next st) R [] st" and run: "items_device env provide d cron its st = (Inr i, st')"
  from run have "i = [(d, su_next st)]" "su_maps st' = (su_maps st)(su_next st := its)" "su_next st' = Suc (su_next st)"
    "su_jobs st' = su_jobs st @ [ItemsJob cron (su_next st)]" "su_sent st' = su_sent st @ []"
    unfolding items_device_def add_cron_job_def add_func_def new_map_def
    by (auto elim!: bindE_cases simp: retE_def readE_def liftR_def modifyE_def)
  with live_leaf [OF live this(2,3,4)] show "live (su_next st) R i st' \<and> later (su_next st) st st'" by simp
qed

lemma constructs_one: "constructs (one_item_device env t d cron n)"
  unfolding constructs_def
proof (intro allI impI, elim conjE)
  fix R st i st'
  assume live: "live (su_next st) R [] st" and run: "one_item_device env t d cron n st = (Inr i, st')"
  from run have "i = [(d, su_next st)]" "su_maps st' = (su_maps st)(su_next st := [(t, n)])" "su_next st' = Suc (su_next st)"
    "su_jobs st' = su_jobs st @ [OneItemJob cron n]" "su_sent st' = su_sent st @ []"
    unfolding one_item_device_def add_cron_job_one_def add_func_def new_map_def
    by (auto elim!: bindE_cases simp: retE_def liftR_def modifyE_def exit_with_def split: if_splits)
  with live_leaf [OF live this(2,3,4)] show "live (su_next st) R i st' \<and> later (su_next st) st st'" by simp
qed

lemma constructs_state: "constructs (gpioStateDetection_NewGPIODevice env d pin n t bias report)"
  unfolding constructs_def
proof (intro allI impI, elim conjE)
  fix R st i st'
  assume live: "live (su_next st) R [] st" and run: "gpioStateDetection_NewGPIODevice env d pin n t bias report st = (Inr i, st')"
  let ?report = "if report = Some False then retE ()
     else bindE (liftR (se_value env pin)) (\<lambda>v. modifyE (\<lambda>st. st\<lparr>su_sent := su_sent st @
       [[\<lparr>id_At = se_now env, id_Typ = MsgGpioData, id_ItemName = n, id_Value = Some (of_int v)\<rparr>]]\<rparr>))"
  from run obtain st1 where st1: "?report st = (Inr (), st1)" and st': "new_map [(if t = [] then ''gpio_state'' else t, n)] st1 = (Inr (su_next st1), st')"
    and i: "i = [(d, su_next st1)]"
    unfolding gpioStateDetection_NewGPIODevice_def by (auto elim!: bindE_cases simp: liftR_def retE_def new_map_def simp del: if_split)
  have "\<exists>bs. st1 = st\<lparr>su_sent := su_sent st @ bs\<rparr> \<and> (\<forall>x \<in> set (concat bs). id_ItemName x = n)"
  proof (cases "report = Some False")
    case True
    with st1 show ?thesis by (intro exI [of _ "[]"]) (simp add: retE_def)
  next
    case False
    with st1 obtain v where "st1 = st\<lparr>su_sent := su_sent st @
        [[\<lparr>id_At = se_now env, id_Typ = MsgGpioData, id_ItemName = n, id_Value = Some (of_int v)\<rparr>]]\<rparr>"
      by (auto simp: bindE_def liftR_def modifyE_def split: sum.splits)
    then show ?thesis by (intro exI [of _ "[[\<lparr>id_At = se_now env, id_Typ = MsgGpioData, id_ItemName = n, id_Value = Some (of_int v)\<rparr>]]"]) simp
  qed
  then obtain bs where "st1 = st\<lparr>su_sent := su_sent st @ bs\<rparr>" "\<forall>x \<in> set (concat bs). id_ItemName x = n" by blast
  with st' i live_leaf [OF live, of st' "[(if t = [] then ''gpio_state'' else t, n)]" "[]" bs d]
  show "live (su_next st) R i st' \<and> later (su_next st) st st'" by (auto simp: new_map_def)
qed

lemma constructs_map: "constructs (bindE (new_map its) (\<lambda>r. retE [(d, r)]))"
  unfolding constructs_def
proof (intro allI impI, elim conjE)
  fix R st i st'
  assume live: "live (su_next st) R [] st" and run: "bindE (new_map its) (\<lambda>r. retE [(d, r)]) st = (Inr i, st')"
  from run have "i = [(d, su_next st)]" "su_maps st' = (su_maps st)(su_next st := its)" "su_next st' = Suc (su_next st)"
    "su_jobs st' = su_jobs st @ []" "su_sent st' = su_sent st @ []"
    unfolding new_map_def by (auto elim!: bindE_cases simp: retE_def)
  with live_leaf [OF live this(2,3,4)] show "live (su_next st) R i st' \<and> later (su_next st) st st'" by simp
qed

text \<open>A channel: the job is added when its item is in the map of its device.\<close>

lemma extends_channels: "extends_info (add_channels env pin cs)"
proof (induction cs)
  case Nil
  then show ?case using extends_ret by (simp add: extends_info_def)
next
  case (Cons c cs)
  show ?case
    unfolding extends_info_def
  proof (intro allI impI, elim conjE)
    fix b R dst st dst' st'
    assume live: "live b R dst st" and run: "add_channels env pin (c # cs) dst st = (Inr dst', st')"
    let ?i = "[(ch_DeviceName c, su_next st)]"
    from run obtain st1 dst1 st2 st3 where new: "new_map [(ch_ItemType c, ch_ItemName c)] st = (Inr (su_next st), st1)"
      and merge: "merge_info dst ?i st1 = (Inr dst1, st2)" and job: "add_cron_job_one env (ch_Cron c) (ch_ItemName c) st2 = (Inr (), st3)"
      and rest: "add_channels env pin cs dst1 st3 = (Inr dst', st')"
      by (auto elim!: bindE_cases simp: new_map_def liftR_def)
    have "bindE (bindE (new_map [(ch_ItemType c, ch_ItemName c)]) (\<lambda>r. retE [(ch_DeviceName c, r)])) (merge_info dst) st = (Inr dst1, st2)"
      using new merge by (simp add: bindE_def retE_def)
    with constructs_merge [OF constructs_map] live have m: "live b R dst1 st2" "later b st st2" unfolding extends_info_def by blast+
    have "ch_ItemName c \<in> ref_names st1 (refs ?i)" using new by (auto simp: new_map_def)
    then have name: "ch_ItemName c \<in> ref_names st2 (refs dst1)" using merge_info_merged [OF merge] unfolding merged_def ref_names_Un by blast
    have st3: "st3 = st2\<lparr>su_jobs := su_jobs st2 @ [OneItemJob (ch_Cron c) (ch_ItemName c)]\<rparr>"
      using job by (auto simp: add_cron_job_one_def add_func_def exit_with_def liftR_def modifyE_def bindE_def split: if_splits sum.splits)
    have same: "ref_names st3 = ref_names st2" "job_names st3 = job_names st2" "sent_names st3 = sent_names st2"
      using job_names_cong [of st3 st2] by (simp_all add: st3 ref_names_def sent_names_def fun_eq_iff)
    have "live b R dst1 st3"
      using m(1) name unfolding live_def covered_def same by (auto simp: st3 job_refs_mem)
    with Cons.IH rest have "live b R dst' st'" "later b st3 st'" unfolding extends_info_def by blast+
    with m(2) show "live b R dst' st' \<and> later b st st'" by (auto simp: later_def st3)
  qed
qed

lemma extends_lift: "extends_info f \<Longrightarrow> extends_info (\<lambda>dst. bindE (liftR r) (\<lambda>_. f dst))"
  by (cases r) (simp_all add: extends_info_def bindE_def liftR_def)

text \<open>One round of the loops: a constructor, then the merge.\<close>

lemma extends_round:
  assumes "constructs m" "extends_info g"
  shows "extends_info (\<lambda>dst. bindE m (\<lambda>subInfo. bindE (merge_info dst subInfo) g))"
  using extends_bind [OF constructs_merge [OF assms(1)] assms(2)] by (simp add: bindE_assoc)

lemma extends_merge_subs:
  assumes "\<And>model c. Sub model c \<in> set ss \<Longrightarrow> constructs (new_device env model c)"
  shows "extends_info (merge_subs env cap ss)"
  using assms
proof (induction ss)
  case Nil
  then show ?case using extends_ret by (simp add: extends_info_def)
next
  case (Cons s ss)
  obtain model c where s: "s = Sub model c" by (cases s)
  have "extends_info (\<lambda>dst. bindE (new_device env model c) (\<lambda>subInfo. bindE (merge_info dst subInfo) (merge_subs env cap ss)))"
    using Cons.prems s by (intro extends_round Cons.IH) simp_all
  from extends_lift [OF this, of "MustDevice cap model known_devices"] show ?case by (simp add: s extends_info_def)
qed

lemma constructs_device:
  "constructs (new_device env model c)"
  "case s of Sub model' c' \<Rightarrow> constructs (new_device env model' c')"
proof (induction c and s arbitrary: model)
  case (ArduinoConf ss cs)
  then have "extends_info (merge_subs env SDI12 ss)" by (intro extends_merge_subs) fastforce
  from constructs_loop [OF extends_bind [OF this extends_channels]]
  show ?case using constructs_throw by simp
next
  case (SubConf s)
  then have "extends_info (merge_subs env SharedBus [s])" by (intro extends_merge_subs) auto
  from constructs_loop [OF this] show ?case using constructs_throw by simp
next
  case (SubsConf ss)
  then have "extends_info (merge_subs env SharedBus ss)" by (intro extends_merge_subs) fastforce
  from constructs_loop [OF this] show ?case using constructs_throw by simp
next
  case (AdsConf a cs)
  then show ?case using constructs_throw constructs_loop [OF extends_channels]
    by (simp add: ads1115_NewI2CDevice_def constructs_lift)
qed (simp_all add: constructs_items constructs_one constructs_state constructs_throw rg13_NewGPIODevice_def constructs_lift split: option.split)

lemma constructs_conn: "constructs (new_conn env c)"
proof -
  have subs: "constructs (merge_subs env cap ss [])" for cap ss
    by (intro constructs_loop extends_merge_subs constructs_device)
  show ?thesis by (cases c) (simp_all add: subs constructs_lift del: merge_subs.simps)
qed

lemma extends_setup: "extends_info (setup_devices env cs)"
proof (induction cs)
  case Nil
  then show ?case using extends_ret by (simp add: extends_info_def)
next
  case (Cons c cs)
  show ?case
    using extends_round [OF constructs_conn Cons.IH] by (simp add: extends_info_def)
qed

lemma setup_covered:
  assumes "setup_devices env cs [] no_setup = (Inr info, st)"
  shows "covered (refs info) st"
proof -
  have "live 0 {} [] no_setup" by (simp add: live_def covered_def no_setup_def sent_names_def)
  with assms extends_setup [of env cs] have "live 0 {} info st" unfolding extends_info_def by blast
  then show ?thesis by (simp add: live_def)
qed

section \<open>\<open>Init\<close>\<close>

text \<open>The configuration, with its maps in the order in which they are visited, and the machine the station starts on.\<close>

record station_config =
  sg_Identifier :: string
  sg_Devices :: "(string \<times> string list) list"
  sg_Ftps :: "ftp_config list"
  sg_DbHoldDays :: "64 word"
  sg_Cameras :: "string list"

record host =
  ho_OpenDB :: "unit result"
  ho_faults :: fs_faults
  ho_statfs :: "path \<Rightarrow> (64 word \<times> 64 word) result"
  ho_fuel :: nat
  ho_now :: int
  ho_rejects :: "string \<Rightarrow> bool"
  ho_rpi :: bool

type_synonym start_state = "devices_state \<times> job_state"

text \<open>
  \<open>scheduleRemoveOutdatedData\<close> runs the clean-up once and adds it as a job; \<open>addDevices\<close> builds the devices, checks the names, creates
  the tables and loads the statuses; the Raspberry Pi status becomes a job where it can be read. Any failure ends the process.
  The result is \<open>stationInfo\<close> and \<open>itemsStatus\<close>.
\<close>

definition Init :: "start_env \<Rightarrow> host \<Rightarrow> station_config \<Rightarrow> (string_map_map \<Rightarrow> string_map_map) \<Rightarrow> (start_state, station_info \<times> items_status) eff" where
  "Init e h cfg visit =
     bindE (liftR (ho_OpenDB h)) (\<lambda>_.
     bindE (sndE (scheduleRemoveOutdatedData (ho_faults h) (ho_statfs h) (ho_fuel h) (ho_now h) (sg_DbHoldDays cfg) (sg_Ftps cfg))) (\<lambda>_.
     bindE (liftR (se_cron (sv_setup e) ''@daily'')) (\<lambda>_.
     bindE (liftR connReg) (\<lambda>reg.
     bindE (fstE (add_conns e reg (sg_Devices cfg) [])) (\<lambda>info.
     bindE (readE (\<lambda>s. Inr (deref (fst s) info))) (\<lambda>devs.
     bindE (sndE (sndE (check_names (ho_rejects h) [] (itemNames (visit devs))))) (\<lambda>_.
     bindE (sndE (sndE GetItemsLatestStatus)) (\<lambda>ds.
     bindE (if ho_rpi h then liftR (se_cron (sv_setup e) ''@every 60s'') else retE ()) (\<lambda>_.
       retE (\<lparr>si_identifier = sg_Identifier cfg, si_devices = devs, si_cameras = sg_Cameras cfg\<rparr>, load_status ds))))))))))"

text \<open>One round of the goroutine that connects to the server: protocol 2 when it is enabled and has an address, else protocol 1.\<close>

datatype sync_round = RoundV2 | RoundV1

definition sync_client_round :: "bool \<Rightarrow> string \<Rightarrow> sync_round" where
  "sync_client_round enabled addr = (if \<not> enabled \<or> addr = [] then RoundV1 else RoundV2)"

lemma clean_keeps_log: "preserves (\<lambda>db. cd_status_log db = l) (CleanDBData t)"
proof -
  have del: "preserves (\<lambda>db. cd_status_log db = l) (DeleteOldData n t)" for n
    by (simp add: preserves_def DeleteOldData_def split: option.split)
  show ?thesis unfolding CleanDBData_def GetAllTables_def IsValidTable_def by (intro pres del)
qed

lemma schedule_keeps:
  assumes "preserves P (CleanDBData (cutoff_time now days div 1000000))"
  shows "preserves (\<lambda>st. P (snd st)) (scheduleRemoveOutdatedData fl statfs fuel now days ftps)"
proof -
  have "preserves (\<lambda>st. P (snd st)) (clean_ftp fl fuel now ftp)" "preserves (\<lambda>st. P (snd st)) (check_space statfs ftp)" for ftp
    by (auto simp: preserves_def clean_ftp_def check_space_def retE_def throwE_def split: option.split sum.split)
  then show ?thesis
    unfolding scheduleRemoveOutdatedData_def removeOutdatedDataJob_def by (intro pres assms)
qed

lemma set_itemNames_deref: "set (itemNames (deref st info)) = ref_names st (refs info)"
  by (auto simp: itemNames_def deref_def ref_names_def case_prod_unfold)

text \<open>The two stages of a successful start: the clean-up leaves a database, the devices and the checks follow.\<close>

lemma Init_run:
  assumes "Init e h cfg visit (st0, (fs, db)) = (Inr (info, cache), (st, (fs', db')))"
  obtains refs_info db1 u where
    "scheduleRemoveOutdatedData (ho_faults h) (ho_statfs h) (ho_fuel h) (ho_now h) (sg_DbHoldDays cfg) (sg_Ftps cfg) (fs, db) = (Inr (), (fs', db1))"
    "add_conns e [(''gpio'', KGpio), (''i2c'', KI2c), (''tcp'', KTcp), (''uart'', KUart)] (sg_Devices cfg) [] st0 = (Inr refs_info, st)"
    "check_names (ho_rejects h) [] (itemNames (visit (deref st refs_info))) db1 = (Inr u, db')"
    "info = \<lparr>si_identifier = sg_Identifier cfg, si_devices = deref st refs_info, si_cameras = sg_Cameras cfg\<rparr>"
    "cache = load_status (filter (latest_of_item (cd_status_log db')) (cd_status_log db'))"
  using assms unfolding Init_def connReg_eq
  by (elim bindE_cases) (auto simp: liftR_def readE_def retE_def fstE_def sndE_def GetItemsLatestStatus_def split: prod.splits if_splits)

text \<open>
  C12: a station that comes up is ready. From any database a station has kept, after the clean-up and over any configured devices, a start
  that succeeds reports the configured identifier and cameras and pairwise distinct legal item names, each with a table; the
  statuses in memory are those of the log; and every item that a scheduled job or an initial reading delivers is one of them, so its
  value can be stored.
\<close>

theorem station_ready:
  assumes "Init e h cfg visit (no_setup, (fs, db)) = (Inr (info, cache), (st, (fs', db')))"
    and "cdb_ok db" "log_alternates db" "log_legal db" "\<forall>devs. mset (itemNames (visit devs)) = mset (itemNames devs)"
  shows "si_identifier info = sg_Identifier cfg \<and> si_cameras info = sg_Cameras cfg \<and> distinct (itemNames (si_devices info)) \<and>
    (\<forall>n \<in> set (itemNames (si_devices info)). \<not> ContainsIllegalCharacter n \<and> has_client_table n db') \<and>
    ingest_ok \<lparr>ig_db = db', ig_status = cache, ig_heap = hp, ig_broker = NewBroker\<rparr> \<and>
    (\<forall>j \<in> set (su_jobs st). job_names st j \<subseteq> set (itemNames (si_devices info))) \<and> sent_names st \<subseteq> set (itemNames (si_devices info))"
proof -
  from assms(1) obtain i db1 u where
    clean: "scheduleRemoveOutdatedData (ho_faults h) (ho_statfs h) (ho_fuel h) (ho_now h) (sg_DbHoldDays cfg) (sg_Ftps cfg) (fs, db) = (Inr (), (fs', db1))"
    and add: "add_conns e [(''gpio'', KGpio), (''i2c'', KI2c), (''tcp'', KTcp), (''uart'', KUart)] (sg_Devices cfg) [] no_setup = (Inr i, st)"
    and check: "check_names (ho_rejects h) [] (itemNames (visit (deref st i))) db1 = (Inr u, db')"
    and info: "info = \<lparr>si_identifier = sg_Identifier cfg, si_devices = deref st i, si_cameras = sg_Cameras cfg\<rparr>"
      "cache = load_status (filter (latest_of_item (cd_status_log db')) (cd_status_log db'))"
    by (rule Init_run)
  have "cd_status_log db1 = cd_status_log db" "cdb_ok db1"
    using preservesD [OF schedule_keeps [OF clean_keeps_log]] preservesD [OF schedule_keeps [OF cdb_ok_CleanDBData]] clean assms(2)
    by (metis snd_conv)+
  then have "distinct (itemNames (deref st i)) \<and> (\<forall>n \<in> set (itemNames (deref st i)). \<not> ContainsIllegalCharacter n \<and> has_client_table n db') \<and>
      ingest_ok \<lparr>ig_db = db', ig_status = cache, ig_heap = hp, ig_broker = NewBroker\<rparr>"
    unfolding info(2) using assms(3-5) by (intro checked_ready [where visit = visit, OF check]) (simp_all add: log_alternates_def log_legal_def item_log_def)
  moreover have "covered (refs i) st" using add_conns_setup [OF add] setup_covered by blast
  ultimately show ?thesis by (simp add: info(1) covered_def set_itemNames_deref)
qed

text \<open>A station with two sensors on a bus behind a TCP converter.\<close>

definition bench_start :: start_env where
  "bench_start = \<lparr>sv_ReadFile = Inr, sv_Unmarshal = (\<lambda>kind raw. Inr (bench_bus ''thermo'' ''baro'')), sv_setup = bench_env\<rparr>"

definition bench_host :: host where
  "bench_host = \<lparr>ho_OpenDB = Inr (), ho_faults = no_faults, ho_statfs = (\<lambda>_. Inr (1, 0)), ho_fuel = 1, ho_now = 0, ho_rejects = (\<lambda>_. False),
     ho_rpi = True\<rparr>"

definition bench_config :: station_config where
  "bench_config = \<lparr>sg_Identifier = ''s1'', sg_Devices = [(''tcp'', [''bus.json''])], sg_Ftps = [], sg_DbHoldDays = 30, sg_Cameras = [''cam'']\<rparr>"

lemma bench_devices_added:
  "add_conns bench_start [(''gpio'', KGpio), (''i2c'', KI2c), (''tcp'', KTcp), (''uart'', KUart)] (sg_Devices bench_config) [] no_setup =
     (Inr [(''thermo'', 0), (''baro'', 1)],
      \<lparr>su_maps = (\<lambda>_. [])(0 := [(''air_humidity'', ''humidity'')], 1 := [(''air_pressure'', ''pressure'')]), su_next = 2,
       su_jobs = [ItemsJob ''@every 1m'' 0, ItemsJob ''@every 1m'' 1], su_sent = []\<rparr>)"
  by (simp add: bench_config_def GetRegConn_def bench_start_def setup_simps)

lemma bench_selectors:
  "ho_OpenDB bench_host = Inr ()" "ho_rpi bench_host" "se_cron (sv_setup bench_start) c = Inr ()"
  "sg_Identifier bench_config = ''s1''" "sg_Cameras bench_config = [''cam'']"
  by (simp_all add: bench_host_def bench_start_def bench_env_def bench_config_def)

lemma bench_clean:
  "scheduleRemoveOutdatedData (ho_faults bench_host) (ho_statfs bench_host) (ho_fuel bench_host) (ho_now bench_host) (sg_DbHoldDays bench_config)
     (sg_Ftps bench_config) ([], empty_client_db) = (Inr (), ([], empty_client_db))"
  by (simp add: scheduleRemoveOutdatedData_def removeOutdatedDataJob_def bench_host_def bench_config_def eff_simps CleanDBData_def GetAllTables_def
    IsValidTable_def empty_client_db_def)

lemma bench_check:
  "check_names (ho_rejects bench_host) [] [''pressure'', ''humidity''] empty_client_db =
     (Inr (), \<lparr>cd_tables = [(''pressure'', []), (''humidity'', [])], cd_status_log = [], cd_faults = []\<rparr>)"
  by (simp add: bench_host_def empty_client_db_def eff_simps ContainsIllegalCharacter_def legal_char_def ClientMakeSureTableExist_def)

lemma itemNames_rev: "mset (itemNames (rev devs)) = mset (itemNames devs)"
  by (induction devs) (auto simp: itemNames_def)

theorem station_ready_witness:
  "\<exists>info cache st job_st. Init bench_start bench_host bench_config rev (no_setup, ([], empty_client_db)) = (Inr (info, cache), (st, job_st)) \<and>
    su_jobs st = [ItemsJob ''@every 1m'' 0, ItemsJob ''@every 1m'' 1] \<and> has_client_table ''pressure'' (snd job_st) \<and>
    job_names st (ItemsJob ''@every 1m'' 1) \<subseteq> set (itemNames (si_devices info))"
proof -
  let ?db' = "\<lparr>cd_tables = [(''pressure'', []), (''humidity'', [])], cd_status_log = [], cd_faults = []\<rparr>"
  let ?info = "\<lparr>si_identifier = ''s1'', si_devices = [(''thermo'', [(''air_humidity'', ''humidity'')]), (''baro'', [(''air_pressure'', ''pressure'')])],
    si_cameras = [''cam'']\<rparr>"
  obtain st where run: "Init bench_start bench_host bench_config rev (no_setup, ([], empty_client_db)) = (Inr (?info, []), (st, ([], ?db')))"
    and jobs: "su_jobs st = [ItemsJob ''@every 1m'' 0, ItemsJob ''@every 1m'' 1]"
    unfolding Init_def connReg_eq
    by (simp add: bindE_def liftR_def fstE_def sndE_def readE_def retE_def bench_devices_added bench_clean bench_check bench_selectors
      GetItemsLatestStatus_def load_status_def itemNames_def del: check_names.simps)
  have "log_alternates empty_client_db" "log_legal empty_client_db"
    by (simp_all add: log_alternates_def log_legal_def item_log_def empty_client_db_def)
  then have "job_names st j \<subseteq> set (itemNames (si_devices ?info))" if "j \<in> set (su_jobs st)" for j
    using that station_ready [OF run cdb_ok_empty] itemNames_rev by blast
  then have "job_names st (ItemsJob ''@every 1m'' 1) \<subseteq> set (itemNames (si_devices ?info))" using jobs by (metis list.set_intros)
  moreover have "has_client_table ''pressure'' (snd ([] :: file_system, ?db'))" by (simp add: has_client_table_def)
  ultimately show ?thesis using run jobs by blast
qed

end
