(* ===== verification/Spec2Isabelle.thy ===== *)
theory Spec2Isabelle
  imports DelayedBroker Replay ApiTables Websocket V1Tables V1RelayLaws V1Forward DiskClean DeviceSetup
    UpstreamConn Digest SensorLine Keycloak SeaLevel Runtime HttpServer EndToEnd UpstreamLife Forwarder Delimited Startup
begin

text \<open>
  Verification of the tide-gauge backend.

  The program has two processes. A \<^emph>\<open>station\<close> (\<^verbatim>\<open>tide_client\<close>) polls sensors over shared lines, stores
  the readings in SQLite and sends them to its server. The \<^emph>\<open>server\<close> (\<^verbatim>\<open>tide_server\<close>) keeps the readings
  of all stations in PostgreSQL, publishes them to browsers and to other servers, and relays the data of
  upstream servers; two protocol versions connect stations to servers and servers to servers. A
  small tool (\<^verbatim>\<open>uart-tcp-forward\<close>) makes a serial port reachable over TCP.

  \<^bold>\<open>Conventions.\<close> Fallible Go functions are state transformers with a result \<open>go_error + 'a\<close>; Go maps are
  association lists, and every iteration over a map takes the visiting order as an argument; Go
  interfaces are records of operations; clocks, random numbers, decoded JSON values and the
  answers of the operating system, of the network and of third-party packages are arguments; goroutines that
  share state are step relations. Timestamps and row ids are unbounded integers except where wrap-around is the subject
  (\<open>Api\<close>, \<open>DiskClean\<close>, \<open>Runtime\<close>, \<open>PasswordHash\<close>), \<open>float64\<close> is \<open>real\<close> with the parser as a parameter, so that \<^verbatim>\<open>NaN\<close> and the infinities are not
  values of the model and no property depends on a test of theirs.

  \<^bold>\<open>Failing statements.\<close> The statements on the tables fail where the tables are the reason (a missing table, an unknown station, a violated key). The
  station's inserts may fail besides in any pattern (\<open>cd_faults\<close>), the handlers of the second protocol are generic over a store that may fail at any call; a lost
  connection to the server's database in the handlers of the first protocol and of the HTTP interface is not modelled.

  \<^bold>\<open>Shared vocabulary.\<close> \<open>Prelude\<close> (effects, Go maps), \<open>GoStrings\<close>, \<open>GoStrconv\<close> (the parts of Go's
  library that are used), \<open>Common\<close> (\<^verbatim>\<open>common/\<close>, \<^verbatim>\<open>internal/syncv2\<close>), \<open>Runtime\<close> (\<^verbatim>\<open>custype\<close>,
  \<^verbatim>\<open>project\<close>: conversion of timestamps, the process frame over runs and crashes), \<open>Pubsub\<close> and \<open>DelayedBroker\<close>
  (\<^verbatim>\<open>pkg/pubsub\<close>: topic filters and bounded channels; the delayed queue as an interleaving relation,
  in order and never early, and a deadlock).

  \<^bold>\<open>Station.\<close> \<open>DeviceBus\<close>, \<open>SensorLine\<close>, \<open>Devices\<close>, \<open>DeviceSetup\<close> (lines that reopen themselves, exchanges, drivers
  and their construction over shared item maps), \<open>ClientDB\<close>, \<open>ClientIngest\<close> (tables, readings to rows, status
  changes and messages, also when inserts fail), \<open>Startup\<close> (\<open>Init\<close> as a whole), \<open>DiskClean\<close> (retention), \<open>Digest\<close> (camera requests), \<open>StationClient\<close> (protocol 2).

  \<^bold>\<open>Server.\<close> \<open>ServerDB\<close>, \<open>ServerDBInv\<close> (tables, statements, the table invariant \<open>db_ok\<close>), \<open>StationProto\<close>,
  \<open>StationServer\<close>, \<open>StationHistory\<close>, \<open>StationStatus\<close>, \<open>StationSession\<close> (a station's session: measurements exactly
  once, statuses, registry), \<open>SyncHub\<close> (brokers, tracked connections, permissions), \<open>StationInfoSync\<close>, \<open>Reconcile\<close>
  (the tables become what the station reports), \<open>PasswordHash\<close>, \<open>UserManager\<close>, \<open>Keycloak\<close> (both user managers, one
  contract \<open>user_accounts\<close>), \<open>Camera\<close>, \<open>Api\<close>, \<open>ApiLaws\<close>, \<open>ApiTables\<close> (handlers, the table of the routes that answer from the tables, what an account can
  change), \<open>HttpServer\<close>, \<open>Websocket\<close>, \<open>SeaLevel\<close>.

  \<^bold>\<open>Between servers.\<close> \<open>RelayProto\<close>, \<open>RelayDownstream\<close>, \<open>RelayUpstream\<close>, \<open>RelaySession\<close>, \<open>RelayLaws\<close> (protocol 2), \<open>V1Station\<close>,
  \<open>V1Laws\<close>, \<open>V1Relay\<close>, \<open>V1RelayLaws\<close>, \<open>V1Mirror\<close>, \<open>V1Tables\<close>, \<open>V1Forward\<close> (protocol 1), \<open>UpstreamConn\<close> (login
  and retries), \<open>UpstreamLife\<close> (which loops run), \<open>Delimited\<close> (frames on a connection of bytes). \<open>Forwarder\<close> is the
  tool for serial ports.

  \<^bold>\<open>Compositions.\<close> \<open>Replay\<close> runs the station's replay against the server's handlers, \<open>EndToEnd\<close> continues over
  the relay to a second server, \<open>V1Laws\<close> compares the two station protocols, and this theory joins the
  sensors with the ingestion and all sessions and requests with the table invariant.

  \<^bold>\<open>Interfaces.\<close> The stores, user managers and histories a component relies on are locales
  (\<open>history_store\<close>, \<open>status_store\<close>, \<open>relay_invariant\<close>, \<open>user_accounts\<close> and others) with the laws as
  assumptions; each is interpreted on the model of the code that provides it.

  \<^bold>\<open>Fuel.\<close> \<open>cleanDir\<close> recurses with a fuel above the depth of the directory tree, which
  \<open>cleanDir_terminates\<close> shows to be enough; the values of an SDI-12 response are read with one unit per byte and one
  more, and a measurement issues at most ten data commands, as the code does. Receive loops are recursive over
  the finite input that arrives.

  \<^bold>\<open>Not modelled.\<close> The generated protobuf code and its wire format, HTML and JSON decoding, the command lines,
  configuration files and log output, the profiling routes, opening of hardware (Modbus, I2C, GPIO handles), yamux and TCP accept loops, the
  test helpers and the Arduino sketch: glue or code outside the repository, of which the model takes the results.
\<close>

section \<open>The server's tables over all sessions and requests\<close>

text \<open>
  One step of the server seen from its tables: a whole session of a station or of a connection to an
  upstream, in either protocol, whatever the peer sends and however the session ends, or one request
  to the HTTP interface with either user manager; the Keycloak realm may answer anything.
\<close>

inductive server_step :: "tide_db \<Rightarrow> tide_db \<Rightarrow> bool" where
  v2_station: "server_step db
    (fst (fst (fst (snd (StreamStation visit (hub_server ih vo (nt :: sync_hub notifier)) t1 t2 (conn :: nat) ip (((db, hub), reg), stream))))))"
| v2_upstream: "rl_Store deps = DBDownstreamStore \<Longrightarrow> server_step db
    (fst (fst (snd (RunDownstream visit (deps :: (tide_db, sync_hub) relay_deps) upstreamID username ((db, hub), rstream)))))"
| v1_station: "server_step db (fst (fst (handleStationConn visit ih vo t1 t2 ip yamux ((db, hub), (reg :: nat StationServer.registry)))))"
| v1_upstream: "server_step db
    (fst (fst (snd (handleSyncClientConn c dec gr gp visit up streams_open input steps ((db, hub), vstream)))))"
| request: "env_um env = JwtManager lib jl j \<Longrightarrow> api_db st = db \<Longrightarrow> server_step db (api_db (snd (ServeHTTP verb url env r st)))"
| keycloak_request: "env_um env = KeycloakManager (gc :: nat gocloak) k \<Longrightarrow> api_db st = db \<Longrightarrow>
    server_step db (api_db (snd (ServeHTTP verb url env r st)))"

lemma v1_station_step_ok:
  assumes "db_ok (fst (fst st))"
  shows "db_ok (fst (fst (handleStationConn visit ih vo t1 t2 ip yamux st)))"
  using assms preservesD [OF station_conn_keeps, of "(st, stream)" for stream]
  by (auto simp: handleStationConn_def hub_ok_def split: sum.split prod.split)

lemma server_step_ok: "server_step db db' \<Longrightarrow> db_ok db \<Longrightarrow> db_ok db'"
proof (induction rule: server_step.induct)
  case (v2_station db visit ih vo nt t1 t2 conn ip hub reg stream)
  then show ?case by (intro session_keeps_tables) simp
next
  case (v2_upstream deps db visit upstreamID username hub rstream)
  then show ?case by (intro relay_session_keeps_tables) simp_all
next
  case (v1_station db visit ih vo t1 t2 ip yamux hub reg)
  then show ?case by (intro v1_station_step_ok) simp
next
  case (v1_upstream db c dec gr gp visit up streams_open input steps hub vstream)
  then show ?case using preservesD [OF upstream_conn_keeps, of "((db, hub), vstream)"] by (simp add: hub_ok_def)
next
  case (request env lib jl j st db verb url r)
  then show ?case using jwt_accounts.request_keeps_tables by simp
next
  case (keycloak_request env gc k st db verb url r)
  then show ?case using keycloak_accounts.request_keeps_tables [OF keycloak_request(1)] by simp
qed

text \<open>
  C9: every database the server reaches from the empty schema, over any sequence of whole sessions of
  stations and upstreams in both protocols and of requests to the HTTP interface with either user manager, satisfies the table
  invariant: keys, references between the tables, one local station per identifier, legal
  measurement table names.
\<close>

theorem server_tables_reachable:
  assumes "server_step\<^sup>*\<^sup>* empty_db db"
  shows "db_ok db"
  using assms by (induction rule: rtranclp_induct) (auto intro: server_step_ok db_ok_empty)

definition silent_server_notifier :: "sync_hub notifier" where
  "silent_server_notifier = \<lparr>PublishMissData = (\<lambda>_ _ u. u), PublishRealtimeData = (\<lambda>_ _ _ u. u),
     PublishMissItemStatus = (\<lambda>_ u. u), PublishUpdateItemStatus = (\<lambda>_ u. u), PublishStationStatus = (\<lambda>_ u. u)\<rparr>"

theorem server_tables_reachable_witness:
  "db_ok (fst (fst (fst (snd (StreamStation id (hub_server \<lparr>ih_publish = (\<lambda>_ u. u), ih_add_items = (\<lambda>_ u. u)\<rparr> list_orders
     silent_server_notifier) 1 2 (0 :: nat) ''ip'' (((empty_db, NewSyncHub 0 (\<lambda>_. NewSubscriber 1)), []), hello_stream))))))"
  by (rule server_tables_reachable, rule r_into_rtranclp, rule server_step.v2_station)

section \<open>From the sensor's line to the status of an item\<close>

text \<open>
  C11: from the sensor's line to the status of an item. Whatever the line delivers (given that the Modbus client
  returns the registers it was asked for), one run of a bus driver's job on a station ends without a panic in a batch with one reading
  per item, and after the station has ingested it \<open>itemsStatus\<close> says of every item the driver serves abnormal when the
  job found no value for it and normal otherwise, whichever inserts fail. An item whose log agreed with \<open>itemsStatus\<close> before is logged with this
  status, unless the insert of this very change fails.
\<close>

theorem sensor_status_follows:
  assumes "modbus_length d" and "distinct (map snd its)" and "(itemType, name) \<in> set its"
  shows "\<exists>tmp batch b'. driver_job fmt pf d b = (Inr tmp, b') \<and>
    jobWrap False its tm (driver_job fmt pf d) b = (Some batch, b') \<and> map id_ItemName batch = map snd its \<and>
    cached_status name (receiveData [map (Pair received) batch] s) =
      (case map_index None tmp itemType of None \<Rightarrow> Abnormal | Some _ \<Rightarrow> Normal) \<and>
    (item_ok name s \<and> name \<notin> set (lost_changes (map (Pair received) batch) s) \<longrightarrow>
      logged_status name (ig_db (receiveData [map (Pair received) batch] s)) =
        Some (case map_index None tmp itemType of None \<Rightarrow> Abnormal | Some _ \<Rightarrow> Normal))"
proof -
  from driver_readings_safe [OF assms(1), of fmt pf b its tm] obtain tmp b' where
    tmp: "driver_job fmt pf d b = (Inr tmp, b')" "jobWrap False its tm (driver_job fmt pf d) b = (Some (job_batch its tm tmp), b')" by blast
  let ?xs = "map (Pair received) (job_batch its tm tmp)"
  have last: "last_reading name ?xs = Some \<lparr>id_At = tm, id_Typ = MsgData, id_ItemName = name, id_Value = map_index None tmp itemType\<rparr>"
    by (rule last_reading_job [OF assms(2,3)])
  have "map id_ItemName (job_batch its tm tmp) = map snd its" by (simp add: job_batch_def case_prod_beta)
  then show ?thesis
    using tmp last logged_status_batch [of name s ?xs]
    by (intro exI [of _ tmp] exI [of _ "job_batch its tm tmp"] exI [of _ b'])
      (simp add: receiveData_concat cached_status_batch reading_status_def)
qed

theorem sensor_status_follows_witness:
  "\<exists>batch b'. jobWrap False [(''water_distance'', ''tide'')] 5 (driver_job (\<lambda>_. ''1'') (\<lambda>_. Inr 1) (VEGAPULS61 (Inl ErrTimeout)))
      \<lparr>bus_in = [], bus_fail = ErrTimeout, bus_writes = [], bus_write_fails = []\<rparr> = (Some batch, b') \<and>
    cached_status ''tide'' (receiveData [map (Pair 6) batch] full_disk) = Abnormal"
  using sensor_status_follows [of "VEGAPULS61 (Inl ErrTimeout)" "[(''water_distance'', ''tide'')]" "''water_distance''" "''tide''"
      "\<lambda>_. ''1''" "\<lambda>_. Inr 1" "\<lparr>bus_in = [], bus_fail = ErrTimeout, bus_writes = [], bus_write_fails = []\<rparr>" 5 6 full_disk]
  by (auto simp: vegapuls61_job_def one_item_def bindE_def retE_def map_index_def)

end
